(* ===== verification/Prelude.thy ===== *)
theory Prelude
  imports Main "HOL-Library.Word" "HOL-Library.Sublist"
begin

text \<open>
  Shared vocabulary of the development: bytes and Rust results, checked 64-bit arithmetic, the
  sub-slice search the HTTP code uses, and the generic list lemmas of the component theories.
  A Rust \<^verbatim>\<open>u8\<close> is an Isabelle \<^typ>\<open>char\<close> (both have exactly 256 values), so a byte slice is a
  \<^typ>\<open>char list\<close> and literals can be written as in the source.
\<close>

named_theorems io_simps \<open>what one read, write or flush of a scripted peer does\<close>
named_theorems str_simps \<open>unfolding of the string operations of the Rust standard library\<close>
named_theorems flow_defs \<open>small error and label helpers of the flow pipeline\<close>

section \<open>Types\<close>

type_synonym byte = char
type_synonym bytes = "char list"
type_synonym u64 = "64 word"
type_synonym ('e, 'a) result = "'e + 'a"

abbreviation Ok :: "'a \<Rightarrow> 'e + 'a" where "Ok \<equiv> Inr"
abbreviation Err :: "'e \<Rightarrow> 'e + 'a" where "Err \<equiv> Inl"

text \<open>The bytes CR LF, which HTTP/1 ends its lines with.\<close>

abbreviation CRLF :: bytes where "CRLF \<equiv> [CHR 0x0D, CHR 0x0A]"

section \<open>Rust's checked arithmetic on 64-bit counters\<close>

definition checked_add :: "u64 \<Rightarrow> u64 \<Rightarrow> u64 option" where
  "checked_add a b = (if unat a + unat b < 2 ^ 64 then Some (a + b) else None)"

definition checked_sub :: "u64 \<Rightarrow> u64 \<Rightarrow> u64 option" where
  "checked_sub a b = (if b \<le> a then Some (a - b) else None)"

lemma unat_add_lt: "unat a + unat b < 2 ^ 64 \<Longrightarrow> unat (a + b :: u64) = unat a + unat b"
  by (simp add: unat_word_ariths)

lemma u64_lt: "unat (x :: u64) < 18446744073709551616"
  using unsigned_less [of x] by simp

lemma checked_add_Some: "checked_add a b = Some c \<longleftrightarrow> unat c = unat a + unat b"
proof
  assume "checked_add a b = Some c"
  then show "unat c = unat a + unat b"
    by (auto simp: checked_add_def unat_add_lt split: if_splits)
next
  assume *: "unat c = unat a + unat b"
  moreover have "unat c < 2 ^ 64" using unsigned_less [of c] by simp
  ultimately show "checked_add a b = Some c"
    by (auto simp: checked_add_def unat_add_lt intro: word_unat_eq_iff [THEN iffD2])
qed

lemma checked_add_None: "checked_add a b = None \<longleftrightarrow> 2 ^ 64 \<le> unat a + unat b"
  by (auto simp: checked_add_def)

lemma checked_sub_Some: "checked_sub a b = Some c \<Longrightarrow> unat c = unat a - unat b \<and> unat b \<le> unat a"
  by (auto simp: checked_sub_def unat_sub word_le_nat_alt split: if_splits)

lemma unat_of_nat_u64: "n < 2 ^ 64 \<Longrightarrow> unat (of_nat n :: u64) = n"
  by (simp add: unat_of_nat)

section \<open>Searching a fixed window\<close>

text \<open>
  \<^verbatim>\<open>slice.windows(pat.len()).position(|w| w == pat)\<close>: the first offset at which the slice
  continues with the pattern (never asked for the empty pattern).
\<close>

fun window_position :: "'a list \<Rightarrow> 'a list \<Rightarrow> nat option" where
  "window_position pat [] = None"
| "window_position pat (x # xs) =
     (if take (length pat) (x # xs) = pat then Some 0
      else map_option Suc (window_position pat xs))"

lemma window_position_bound:
  "window_position pat xs = Some i \<Longrightarrow> i + length pat \<le> length xs"
proof (induction xs arbitrary: i)
  case (Cons x xs)
  show ?case
  proof (cases "take (length pat) (x # xs) = pat")
    case True
    then have "length pat \<le> length (x # xs)" by (metis length_take min.cobounded1)
    with True Cons.prems show ?thesis by simp
  qed (use Cons in auto)
qed simp

lemma window_position_here:
  "window_position pat xs = Some i \<Longrightarrow> take (length pat) (drop i xs) = pat"
  by (induction xs arbitrary: i) (auto split: if_splits)

lemma window_position_append:
  "window_position pat xs = Some i \<Longrightarrow> window_position pat (xs @ ys) = Some i"
proof (induction xs arbitrary: i)
  case (Cons x xs)
  show ?case
  proof (cases "take (length pat) (x # xs) = pat")
    case True
    then have "length pat \<le> length (x # xs)" by (metis length_take min.cobounded1)
    with True have "take (length pat) ((x # xs) @ ys) = pat" by (simp only: take_append) simp
    with True Cons.prems show ?thesis by simp
  next
    case False
    with Cons.prems obtain j where j: "window_position pat xs = Some j" "i = Suc j" by auto
    have "length pat \<le> length xs" using window_position_bound [OF j(1)] by simp
    then have "take (length pat) ((x # xs) @ ys) = take (length pat) (x # xs)"
      by (simp only: take_append) simp
    with False j Cons.IH show ?thesis by simp
  qed
qed simp

lemma window_position_split:
  assumes "window_position pat xs = Some i"
  shows "xs = take i xs @ pat @ drop (i + length pat) xs"
proof -
  have "drop i xs = pat @ drop (i + length pat) xs"
    using window_position_here [OF assms]
    by (metis add.commute append_take_drop_id drop_drop)
  then show ?thesis by (metis append_take_drop_id)
qed

section \<open>Generic list facts\<close>

lemma take_take_drop: "take i xs @ take j (drop i xs) = take (i + j) xs"
  by (simp add: take_add)

lemma filter_eq_length_le: "length (filter P xs) \<le> length xs"
  by (rule length_filter_le)

lemma prefix_append_cancel: "prefix xs (xs @ ys)"
  by (rule prefixI, rule refl)

end
