(* ===== verification/Rust_Str.thy ===== *)
theory Rust_Str
  imports Prelude
begin

text \<open>
  The operations of Rust's \<^verbatim>\<open>str\<close>, \<^verbatim>\<open>u8\<close> and \<^verbatim>\<open>usize\<close> the sources use, on UTF-8 byte lists.
  ASCII case folding and splitting at an ASCII delimiter are bytewise in UTF-8; \<open>str_trim\<close>
  removes the twenty-five characters with the Unicode property White\_Space in their UTF-8
  encoding, from either end, which is exact on valid UTF-8 because the encoding is
  self-synchronising.
\<close>

section \<open>ASCII classes and case folding\<close>

definition code :: "byte \<Rightarrow> nat" where
  "code c = of_char c"

definition is_ascii_digit :: "byte \<Rightarrow> bool" where
  "is_ascii_digit c \<longleftrightarrow> 48 \<le> code c \<and> code c \<le> 57"

definition is_ascii_upper :: "byte \<Rightarrow> bool" where
  "is_ascii_upper c \<longleftrightarrow> 65 \<le> code c \<and> code c \<le> 90"

definition is_ascii_lower :: "byte \<Rightarrow> bool" where
  "is_ascii_lower c \<longleftrightarrow> 97 \<le> code c \<and> code c \<le> 122"

definition is_ascii_alphanumeric :: "byte \<Rightarrow> bool" where
  "is_ascii_alphanumeric c \<longleftrightarrow> is_ascii_digit c \<or> is_ascii_upper c \<or> is_ascii_lower c"

text \<open>\<^verbatim>\<open>u8::is_ascii_whitespace\<close>: space, tab, line feed, form feed and carriage return.\<close>

definition is_ascii_whitespace :: "byte \<Rightarrow> bool" where
  "is_ascii_whitespace c \<longleftrightarrow> code c \<in> {9, 10, 12, 13, 32}"

definition is_ascii :: "bytes \<Rightarrow> bool" where
  "is_ascii s \<longleftrightarrow> list_all (\<lambda>c. code c < 128) s"

definition to_lower :: "byte \<Rightarrow> byte" where
  "to_lower c = (if is_ascii_upper c then char_of (code c + 32) else c)"

definition to_ascii_lowercase :: "bytes \<Rightarrow> bytes" where
  "to_ascii_lowercase s = map to_lower s"

definition eq_ignore_ascii_case :: "bytes \<Rightarrow> bytes \<Rightarrow> bool" where
  "eq_ignore_ascii_case a b \<longleftrightarrow> to_ascii_lowercase a = to_ascii_lowercase b"

lemmas ascii_defs [str_simps] =
  code_def is_ascii_digit_def is_ascii_upper_def is_ascii_lower_def is_ascii_alphanumeric_def
  is_ascii_whitespace_def is_ascii_def to_lower_def to_ascii_lowercase_def
  eq_ignore_ascii_case_def

lemma code_char_of: "n < 256 \<Longrightarrow> code (char_of n) = n"
  by (simp add: code_def)

lemma code_inject: "code a = code b \<longleftrightarrow> a = b"
  by (simp add: code_def)

lemma to_lower_not_upper: "\<not> is_ascii_upper (to_lower c)"
  by (auto simp: to_lower_def is_ascii_upper_def code_char_of)

lemma to_lower_idem [simp]: "to_lower (to_lower c) = to_lower c"
  using to_lower_not_upper [of c] by (simp add: to_lower_def [of "to_lower c"])

lemma to_ascii_lowercase_idem [simp]:
  "to_ascii_lowercase (to_ascii_lowercase s) = to_ascii_lowercase s"
  by (simp add: to_ascii_lowercase_def)

lemma to_ascii_lowercase_Nil_iff [simp]: "to_ascii_lowercase s = [] \<longleftrightarrow> s = []"
  by (simp add: to_ascii_lowercase_def)

lemma length_to_ascii_lowercase [simp]: "length (to_ascii_lowercase s) = length s"
  by (simp add: to_ascii_lowercase_def)

lemma to_lower_alphanumeric: "is_ascii_alphanumeric c \<Longrightarrow> is_ascii_alphanumeric (to_lower c)"
  by (auto simp: is_ascii_alphanumeric_def to_lower_def is_ascii_upper_def is_ascii_lower_def
      is_ascii_digit_def code_char_of)

lemma to_lower_eq_other:
  assumes "\<not> is_ascii_upper d" and "\<not> is_ascii_lower d"
  shows "to_lower c = d \<longleftrightarrow> c = d"
  using assms by (auto simp: to_lower_def is_ascii_upper_def is_ascii_lower_def code_char_of)

lemma eq_ignore_ascii_case_refl [simp]: "eq_ignore_ascii_case s s"
  by (simp add: eq_ignore_ascii_case_def)

lemma eq_ignore_ascii_case_sym: "eq_ignore_ascii_case a b \<longleftrightarrow> eq_ignore_ascii_case b a"
  by (auto simp: eq_ignore_ascii_case_def)

lemma eq_ignore_ascii_case_trans:
  "eq_ignore_ascii_case a b \<Longrightarrow> eq_ignore_ascii_case b c \<Longrightarrow> eq_ignore_ascii_case a c"
  by (simp add: eq_ignore_ascii_case_def)

section \<open>Trimming\<close>

definition white_space :: "bytes list" where
  "white_space =
     map (\<lambda>n. [char_of n]) [9, 10, 11, 12, 13, 32 :: nat]
     @ [[CHR 0xC2, CHR 0x85], [CHR 0xC2, CHR 0xA0], [CHR 0xE1, CHR 0x9A, CHR 0x80]]
     @ map (\<lambda>n. [CHR 0xE2, CHR 0x80, char_of n]) ([128 ..< 139] @ [168, 169, 175 :: nat])
     @ [[CHR 0xE2, CHR 0x81, CHR 0x9F], [CHR 0xE3, CHR 0x80, CHR 0x80]]"

text \<open>The words themselves, for evaluation.\<close>

lemma white_space_words [code]:
  "white_space =
     [[CHR 0x09], [CHR 0x0A], [CHR 0x0B], [CHR 0x0C], [CHR 0x0D], [CHR 0x20], [CHR 0xC2, CHR 0x85],
      [CHR 0xC2, CHR 0xA0], [CHR 0xE1, CHR 0x9A, CHR 0x80], [CHR 0xE2, CHR 0x80, CHR 0x80],
      [CHR 0xE2, CHR 0x80, CHR 0x81], [CHR 0xE2, CHR 0x80, CHR 0x82], [CHR 0xE2, CHR 0x80, CHR 0x83],
      [CHR 0xE2, CHR 0x80, CHR 0x84], [CHR 0xE2, CHR 0x80, CHR 0x85], [CHR 0xE2, CHR 0x80, CHR 0x86],
      [CHR 0xE2, CHR 0x80, CHR 0x87], [CHR 0xE2, CHR 0x80, CHR 0x88], [CHR 0xE2, CHR 0x80, CHR 0x89],
      [CHR 0xE2, CHR 0x80, CHR 0x8A], [CHR 0xE2, CHR 0x80, CHR 0xA8], [CHR 0xE2, CHR 0x80, CHR 0xA9],
      [CHR 0xE2, CHR 0x80, CHR 0xAF], [CHR 0xE2, CHR 0x81, CHR 0x9F], [CHR 0xE3, CHR 0x80, CHR 0x80]]"
  by (simp add: white_space_def upt_rec char_of_def bit_0)

text \<open>Repeatedly drop a leading word of the given set (every word is non-empty).\<close>

function drop_words :: "bytes list \<Rightarrow> bytes \<Rightarrow> bytes" where
  "drop_words ws s =
     (case List.find (\<lambda>w. w \<noteq> [] \<and> prefix w s) ws of
        None \<Rightarrow> s
      | Some w \<Rightarrow> drop_words ws (drop (length w) s))"
  by pat_completeness auto
termination
  by (relation "measure (\<lambda>(ws, s). length s)") (auto simp: find_Some_iff prefix_def)

declare drop_words.simps [simp del]

definition str_trim_start :: "bytes \<Rightarrow> bytes" where
  "str_trim_start s = drop_words white_space s"

definition str_trim_end :: "bytes \<Rightarrow> bytes" where
  "str_trim_end s = rev (drop_words (map rev white_space) (rev s))"

definition str_trim :: "bytes \<Rightarrow> bytes" where
  "str_trim s = str_trim_end (str_trim_start s)"

text \<open>\<^verbatim>\<open>s.trim_end_matches(c)\<close> for one ASCII character.\<close>

definition trim_end_matches :: "byte \<Rightarrow> bytes \<Rightarrow> bytes" where
  "trim_end_matches c s = rev (dropWhile (\<lambda>x. x = c) (rev s))"

lemma drop_words_suffix: "suffix (drop_words ws s) s"
proof (induction ws s rule: drop_words.induct)
  case (1 ws s)
  show ?case
  proof (cases "List.find (\<lambda>w. w \<noteq> [] \<and> prefix w s) ws")
    case (Some w)
    with "1" have "suffix (drop_words ws (drop (length w) s)) (drop (length w) s)" by simp
    then have "suffix (drop_words ws (drop (length w) s)) s"
      by (meson suffix_drop suffix_order.trans)
    with Some show ?thesis by (subst drop_words.simps) simp
  qed (subst drop_words.simps, simp)
qed

lemma str_trim_start_suffix: "suffix (str_trim_start s) s"
  by (simp add: str_trim_start_def drop_words_suffix)

lemma str_trim_end_prefix: "prefix (str_trim_end s) s"
  using drop_words_suffix [of "map rev white_space" "rev s"]
  by (simp add: str_trim_end_def suffix_to_prefix)

lemma set_str_trim: "set (str_trim s) \<subseteq> set s"
  unfolding str_trim_def
  using set_mono_prefix [OF str_trim_end_prefix] set_mono_suffix [OF str_trim_start_suffix]
  by (meson subset_trans)

text \<open>A string that starts and ends with a letter or digit is trimmed already.\<close>

lemma white_space_ends:
  "list_all (\<lambda>w. w \<noteq> [] \<and> \<not> is_ascii_alphanumeric (hd w) \<and> \<not> is_ascii_alphanumeric (last w)) white_space"
  by (simp add: white_space_def upt_rec_numeral ascii_defs code_char_of)

lemma drop_words_none:
  "\<forall>w \<in> set ws. w \<noteq> [] \<and> hd w \<noteq> hd s \<Longrightarrow> s \<noteq> [] \<Longrightarrow> drop_words ws s = s"
  by (subst drop_words.simps) (auto simp: find_None_iff prefix_def hd_append split: option.splits dest!: find_Some_iff [THEN iffD1])

lemma str_trim_plain:
  assumes "s \<noteq> []" "is_ascii_alphanumeric (hd s)" "is_ascii_alphanumeric (last s)"
  shows "str_trim s = s"
proof -
  have "\<forall>w \<in> set white_space. w \<noteq> [] \<and> hd w \<noteq> hd s" "\<forall>w \<in> set (map rev white_space). w \<noteq> [] \<and> hd w \<noteq> hd (rev s)"
    using white_space_ends assms by (auto simp: list_all_iff hd_rev)
  then show ?thesis
    using assms by (simp add: str_trim_def str_trim_start_def str_trim_end_def drop_words_none)
qed
lemma trim_end_matches_append:
  "\<exists>n. s = trim_end_matches c s @ replicate n c"
proof -
  have "\<exists>n. takeWhile (\<lambda>x. x = c) (rev s) = replicate n c"
    by (metis (full_types) replicate_length_same set_takeWhileD)
  then obtain n where "rev s = replicate n c @ dropWhile (\<lambda>x. x = c) (rev s)"
    by (metis takeWhile_dropWhile_id)
  then have "s = rev (replicate n c @ dropWhile (\<lambda>x. x = c) (rev s))" by (metis rev_swap)
  then show ?thesis by (auto simp: trim_end_matches_def)
qed

lemma trim_end_matches_last: "trim_end_matches c s \<noteq> [] \<Longrightarrow> last (trim_end_matches c s) \<noteq> c"
  unfolding trim_end_matches_def
  by (metis (full_types) hd_dropWhile last_rev rev_is_Nil_conv)

lemma trim_end_matches_id: "s = [] \<or> last s \<noteq> c \<Longrightarrow> trim_end_matches c s = s"
  by (cases s rule: rev_cases) (auto simp: trim_end_matches_def)

section \<open>Splitting at a character\<close>

fun str_split :: "byte \<Rightarrow> bytes \<Rightarrow> bytes list" where
  "str_split d [] = [[]]"
| "str_split d (c # cs) =
     (if c = d then [] # str_split d cs
      else case str_split d cs of [] \<Rightarrow> [[c]] | p # ps \<Rightarrow> (c # p) # ps)"

lemma str_split_ne [simp]: "str_split d s \<noteq> []"
  by (cases s) (auto split: list.splits)

lemma str_split_pieces: "p \<in> set (str_split d s) \<Longrightarrow> d \<notin> set p"
  by (induction s arbitrary: p) (force split: list.splits if_splits)+

text \<open>Joining the pieces again gives the string back.\<close>

fun str_join :: "byte \<Rightarrow> bytes list \<Rightarrow> bytes" where
  "str_join d [] = []"
| "str_join d [p] = p"
| "str_join d (p # ps) = p @ d # str_join d ps"

lemma str_join_Cons: "ps \<noteq> [] \<Longrightarrow> str_join d (p # ps) = p @ d # str_join d ps"
  by (cases ps) auto

lemma str_join_split: "str_join d (str_split d s) = s"
proof (induction s)
  case (Cons c s)
  obtain p ps where ps: "str_split d s = p # ps" by (cases "str_split d s") auto
  show ?case
  proof (cases "c = d")
    case True
    with Cons show ?thesis by (simp add: str_join_Cons)
  next
    case False
    have "str_join d ((c # p) # ps) = c # str_join d (p # ps)" by (cases ps) auto
    with False ps Cons show ?thesis by simp
  qed
qed simp

lemma str_split_no: "d \<notin> set s \<Longrightarrow> str_split d s = [s]"
  by (induction s) auto

lemma hd_str_split: "hd (str_split d s) = takeWhile (\<lambda>c. c \<noteq> d) s"
  by (induction s) (auto split: list.splits)

section \<open>Decimal numbers\<close>

definition usize_max :: nat where
  "usize_max = 2 ^ 64 - 1"

fun digits_value :: "nat \<Rightarrow> bytes \<Rightarrow> nat option" where
  "digits_value acc [] = Some acc"
| "digits_value acc (c # cs) =
     (if is_ascii_digit c then digits_value (10 * acc + (code c - 48)) cs else None)"

text \<open>
  \<^verbatim>\<open>str::parse::<usize>\<close> on a 64-bit target: an optional plus sign, then one or more decimal
  digits whose value fits.
\<close>

definition parse_usize :: "bytes \<Rightarrow> nat option" where
  "parse_usize s =
     (let ds = (case s of c # cs \<Rightarrow> if c = CHR ''+'' then cs else s | [] \<Rightarrow> s)
      in if ds = [] then None
         else case digits_value 0 ds of
                None \<Rightarrow> None
              | Some n \<Rightarrow> if n \<le> usize_max then Some n else None)"

lemma parse_usize_bound: "parse_usize s = Some n \<Longrightarrow> n \<le> usize_max"
  by (auto simp: parse_usize_def Let_def split: if_splits option.splits list.splits)

fun show_nat :: "nat \<Rightarrow> bytes" where
  "show_nat n =
     (if n < 10 then [char_of (48 + n)] else show_nat (n div 10) @ [char_of (48 + n mod 10)])"

declare show_nat.simps [simp del]

lemma digits_value_append:
  "digits_value acc (xs @ ys) = (case digits_value acc xs of None \<Rightarrow> None | Some a \<Rightarrow> digits_value a ys)"
  by (induction xs arbitrary: acc) auto

lemma digit_char: "d < 10 \<Longrightarrow> is_ascii_digit (char_of (48 + d)) \<and> code (char_of (48 + d)) = 48 + d"
  by (simp add: is_ascii_digit_def code_char_of)

lemma digits_value_show_nat: "digits_value 0 (show_nat n) = Some n"
proof (induction n rule: show_nat.induct)
  case (1 n)
  show ?case
  proof (cases "n < 10")
    case True
    then show ?thesis using digit_char [of n] by (subst show_nat.simps) simp
  next
    case False
    with "1" have IH: "digits_value 0 (show_nat (n div 10)) = Some (n div 10)" by simp
    have "digits_value (n div 10) [char_of (48 + n mod 10)] = Some n"
      using digit_char [of "n mod 10"] by simp
    with False IH show ?thesis by (subst show_nat.simps) (simp add: digits_value_append)
  qed
qed

lemma show_nat_digits: "c \<in> set (show_nat n) \<Longrightarrow> is_ascii_digit c"
proof (induction n rule: show_nat.induct)
  case (1 n)
  then show ?case
    by (subst (asm) (2) show_nat.simps)
      (auto simp: digit_char [THEN conjunct1] split: if_splits)
qed

lemma show_nat_ne [simp]: "show_nat n \<noteq> []"
  by (subst show_nat.simps) simp

text \<open>Printing a number and parsing it back.\<close>

lemma parse_usize_show_nat: "n \<le> usize_max \<Longrightarrow> parse_usize (show_nat n) = Some n"
proof -
  assume n: "n \<le> usize_max"
  obtain c cs where cs: "show_nat n = c # cs" by (cases "show_nat n") auto
  then have "is_ascii_digit c" using show_nat_digits [of c n] by simp
  then have "c \<noteq> CHR ''+''" by (auto simp: is_ascii_digit_def code_def)
  with cs n digits_value_show_nat [of n] show ?thesis by (simp add: parse_usize_def)
qed

section \<open>UTF-8 validity\<close>

definition utf8_cont :: "byte \<Rightarrow> bool" where
  "utf8_cont c \<longleftrightarrow> 128 \<le> code c \<and> code c \<le> 191"

text \<open>\<^verbatim>\<open>str::from_utf8\<close>: the well-formed byte sequences of the Unicode standard (table 3-7).\<close>

fun utf8_valid :: "bytes \<Rightarrow> bool" where
  "utf8_valid [] = True"
| "utf8_valid [a] = (code a < 128)"
| "utf8_valid [a, b] =
     (if code a < 128 then utf8_valid [b]
      else 194 \<le> code a \<and> code a \<le> 223 \<and> utf8_cont b)"
| "utf8_valid [a, b, c] =
     (if code a < 128 then utf8_valid [b, c]
      else if 194 \<le> code a \<and> code a \<le> 223 then utf8_cont b \<and> utf8_valid [c]
      else 224 \<le> code a \<and> code a \<le> 239 \<and> utf8_cont b \<and> utf8_cont c
        \<and> (code a = 224 \<longrightarrow> 160 \<le> code b) \<and> (code a = 237 \<longrightarrow> code b \<le> 159))"
| "utf8_valid (a # b # c # d # r) =
     (if code a < 128 then utf8_valid (b # c # d # r)
      else if 194 \<le> code a \<and> code a \<le> 223 then utf8_cont b \<and> utf8_valid (c # d # r)
      else if 224 \<le> code a \<and> code a \<le> 239
        then utf8_cont b \<and> utf8_cont c \<and> (code a = 224 \<longrightarrow> 160 \<le> code b)
          \<and> (code a = 237 \<longrightarrow> code b \<le> 159) \<and> utf8_valid (d # r)
      else 240 \<le> code a \<and> code a \<le> 244 \<and> utf8_cont b \<and> utf8_cont c \<and> utf8_cont d
        \<and> (code a = 240 \<longrightarrow> 144 \<le> code b) \<and> (code a = 244 \<longrightarrow> code b \<le> 143) \<and> utf8_valid r)"

lemma is_ascii_utf8_valid: "is_ascii s \<Longrightarrow> utf8_valid s"
  by (induction s rule: utf8_valid.induct) (auto simp: is_ascii_def)

end
