(* ===== verification/Stream_IO.thy ===== *)
theory Stream_IO
  imports Rust_Str
begin

text \<open>
  Byte streams (\<^verbatim>\<open>crates/abyss-mitm/src/transparent/io.rs\<close> and the parts of tokio's
  \<^verbatim>\<open>AsyncRead\<close>/\<^verbatim>\<open>AsyncWrite\<close> the pipeline relies on). The peer at the other end of a socket is a
  script: how the kernel segments its bytes, when it fails, how much of a write it takes. All
  theorems quantify over the scripts, so they hold for every segmentation and every fault. A read
  of zero bytes is the end of the stream.
\<close>

section \<open>Scripted peers\<close>

datatype io_kind =
    BrokenPipe | ConnectionAborted | ConnectionReset | NotConnected | UnexpectedEof
  | WriteZero | TimedOut | InvalidData | InvalidInput | NotFound | AddrInUse | ConnectionRefused | AlreadyExists | OtherKind

datatype read_step = Got bytes | ReadFails io_kind

type_synonym reader = "read_step list"

text \<open>\<^verbatim>\<open>stream.read(&mut buf[..cap])\<close>: at most \<open>cap\<close> bytes of the next segment.\<close>

fun stream_read :: "nat \<Rightarrow> reader \<Rightarrow> (io_kind, bytes) result \<times> reader" where
  "stream_read cap [] = (Ok [], [])"
| "stream_read cap (ReadFails k # r) = (Err k, r)"
| "stream_read cap (Got bs # r) =
     (Ok (take cap bs), if length bs \<le> cap then r else Got (drop cap bs) # r)"

text \<open>The bytes the peer delivers before it fails or closes.\<close>

fun incoming :: "reader \<Rightarrow> bytes" where
  "incoming [] = []"
| "incoming (ReadFails k # r) = []"
| "incoming (Got bs # r) = (if bs = [] then [] else bs @ incoming r)"

text \<open>Segments and faults still to come, the measure of the loops that read to the end.\<close>

fun script_size :: "reader \<Rightarrow> nat" where
  "script_size [] = 0"
| "script_size (ReadFails k # r) = Suc (script_size r)"
| "script_size (Got bs # r) = Suc (length bs) + script_size r"

datatype write_step = Accepts nat | WriteFails io_kind

record writer =
  written :: bytes
  write_steps :: "write_step list"
  flush_steps :: "io_kind option list"
  shutdown_steps :: "io_kind option list"

definition stream_write :: "bytes \<Rightarrow> writer \<Rightarrow> (io_kind, nat) result \<times> writer" where
  "stream_write bs w =
     (case write_steps w of
        [] \<Rightarrow> (Ok (length bs), w\<lparr>written := written w @ bs\<rparr>)
      | Accepts n # ss \<Rightarrow>
          (Ok (min n (length bs)), w\<lparr>written := written w @ take n bs, write_steps := ss\<rparr>)
      | WriteFails k # ss \<Rightarrow> (Err k, w\<lparr>write_steps := ss\<rparr>))"

text \<open>\<^verbatim>\<open>AsyncWriteExt::write_all\<close>: writes until nothing is left; a zero-byte write is an error.\<close>

function write_all :: "bytes \<Rightarrow> writer \<Rightarrow> (io_kind, unit) result \<times> writer" where
  "write_all bs w =
     (if bs = [] then (Ok (), w)
      else case stream_write bs w of
             (Err k, w') \<Rightarrow> (Err k, w')
           | (Ok n, w') \<Rightarrow> if n = 0 then (Err WriteZero, w') else write_all (drop n bs) w')"
  by pat_completeness auto
termination
  by (relation "measure (\<lambda>(bs, w). length bs)") auto

declare write_all.simps [simp del]

definition flush :: "writer \<Rightarrow> (io_kind, unit) result \<times> writer" where
  "flush w =
     (case flush_steps w of
        [] \<Rightarrow> (Ok (), w)
      | f # fs \<Rightarrow> (case f of None \<Rightarrow> Ok () | Some k \<Rightarrow> Err k, w\<lparr>flush_steps := fs\<rparr>))"

definition shutdown :: "writer \<Rightarrow> (io_kind, unit) result \<times> writer" where
  "shutdown w =
     (case shutdown_steps w of
        [] \<Rightarrow> (Ok (), w)
      | f # fs \<Rightarrow> (case f of None \<Rightarrow> Ok () | Some k \<Rightarrow> Err k, w\<lparr>shutdown_steps := fs\<rparr>))"

text \<open>A socket is both.\<close>

record duplex =
  rd_side :: reader
  wr_side :: writer

section \<open>The contract of a byte source\<close>

text \<open>
  What every reader of the pipeline relies on: reads hand out the stream's content in order, no
  more than asked for, and only the end or a fault stops them.
\<close>

locale byte_source =
  fixes rd :: "nat \<Rightarrow> 's \<Rightarrow> (io_kind, bytes) result \<times> 's"
    and content :: "'s \<Rightarrow> bytes"
    and invar :: "'s \<Rightarrow> bool"
  assumes rd_data: "\<lbrakk>invar s; rd cap s = (Ok bs, s'); bs \<noteq> []\<rbrakk>
      \<Longrightarrow> content s = bs @ content s' \<and> length bs \<le> cap"
    and rd_end: "\<lbrakk>invar s; rd cap s = (Ok [], s'); 0 < cap\<rbrakk> \<Longrightarrow> content s = []"
    and rd_fail: "\<lbrakk>invar s; rd cap s = (Err k, s')\<rbrakk> \<Longrightarrow> content s = []"
    and rd_invar: "\<lbrakk>invar s; rd cap s = (res, s')\<rbrakk> \<Longrightarrow> invar s'"

context byte_source
begin

lemma rd_progress:
  assumes "invar s" and "content s \<noteq> []" and "0 < cap"
  obtains bs s' where "rd cap s = (Ok bs, s')" "bs \<noteq> []"
proof -
  obtain res s' where r: "rd cap s = (res, s')" by fastforce
  show ?thesis
  proof (cases res)
    case (Inl k)
    with rd_fail [OF assms(1) r [unfolded Inl]] assms(2) show ?thesis by simp
  next
    case (Inr bs)
    with rd_end [OF assms(1), of cap s'] r assms(2,3) have "bs \<noteq> []" by auto
    with that r Inr show ?thesis by blast
  qed
qed

end

section \<open>Reading a script\<close>

lemma stream_read_cases:
  "stream_read cap r = (res, r') \<Longrightarrow>
     (r = [] \<and> res = Ok [] \<and> r' = [])
   \<or> (\<exists>k. r = ReadFails k # r' \<and> res = Err k)
   \<or> (\<exists>bs q. r = Got bs # q \<and> res = Ok (take cap bs)
        \<and> r' = (if length bs \<le> cap then q else Got (drop cap bs) # q))"
  by (cases "(cap, r)" rule: stream_read.cases) auto

lemma stream_read_data:
  "stream_read cap r = (Ok bs, r') \<Longrightarrow> bs \<noteq> [] \<Longrightarrow>
     incoming r = bs @ incoming r' \<and> length bs \<le> cap"
  by (cases "(cap, r)" rule: stream_read.cases) (auto split: if_splits)

lemma stream_read_end: "stream_read cap r = (Ok [], r') \<Longrightarrow> 0 < cap \<Longrightarrow> incoming r = []"
  by (cases "(cap, r)" rule: stream_read.cases) (auto split: if_splits)

lemma stream_read_fail: "stream_read cap r = (Err k, r') \<Longrightarrow> incoming r = []"
  by (cases "(cap, r)" rule: stream_read.cases) auto

lemma stream_read_shrinks:
  "stream_read cap r = (Ok bs, r') \<Longrightarrow> bs \<noteq> [] \<Longrightarrow> script_size r' < script_size r"
  by (cases "(cap, r)" rule: stream_read.cases) (auto split: if_splits)

lemma stream_read_length: "stream_read cap r = (Ok bs, r') \<Longrightarrow> length bs \<le> cap"
  by (cases "(cap, r)" rule: stream_read.cases) auto

lemmas stream_read_facts = stream_read_data stream_read_end stream_read_fail stream_read_length

interpretation script: byte_source stream_read incoming "\<lambda>_. True"
proof unfold_locales
  show "incoming s = bs @ incoming s' \<and> length bs \<le> cap"
    if "stream_read cap s = (Ok bs, s')" "bs \<noteq> []" for s cap bs s'
    using that by (rule stream_read_data)
qed (auto dest: stream_read_end stream_read_fail)

section \<open>Writing to a script\<close>

lemma stream_write_written:
  "stream_write bs w = (Ok n, w') \<Longrightarrow> n \<le> length bs \<and> written w' = written w @ take n bs"
  by (auto simp: stream_write_def min_def split: list.splits write_step.splits)

lemma stream_write_fail: "stream_write bs w = (Err k, w') \<Longrightarrow> written w' = written w"
  by (auto simp: stream_write_def split: list.splits write_step.splits)

lemma write_all_Nil [simp, io_simps]: "write_all [] w = (Ok (), w)"
  by (simp add: write_all.simps)

lemma write_all_ok: "write_all bs w = (Ok (), w') \<Longrightarrow> written w' = written w @ bs"
proof (induction bs w rule: write_all.induct)
  case (1 bs w)
  show ?case
  proof (cases "bs = []")
    case False
    with "1.prems" obtain n w1 where w1: "stream_write bs w = (Ok n, w1)" "n \<noteq> 0"
      "write_all (drop n bs) w1 = (Ok (), w')"
      by (subst (asm) write_all.simps) (auto split: prod.splits sum.splits if_splits)
    from w1 have "written w' = written w1 @ drop n bs"
      using "1.IH" False by metis
    with stream_write_written [OF w1(1)] show ?thesis by simp
  qed (use "1.prems" in simp)
qed

text \<open>A failed write has delivered a prefix of the bytes, nothing else.\<close>

lemma write_all_err:
  "write_all bs w = (Err k, w') \<Longrightarrow> \<exists>n \<le> length bs. written w' = written w @ take n bs"
proof (induction bs w rule: write_all.induct)
  case (1 bs w)
  then have ne: "bs \<noteq> []" by auto
  obtain res w1 where w1: "stream_write bs w = (res, w1)" by fastforce
  show ?case
  proof (cases res)
    case (Inl k')
    with "1.prems" ne w1 stream_write_fail show ?thesis
      by (subst (asm) write_all.simps) (force intro: exI [of _ 0])
  next
    case (Inr n)
    note n = stream_write_written [OF w1 [unfolded Inr]]
    show ?thesis
    proof (cases "n = 0")
      case True
      with "1.prems" ne w1 Inr n show ?thesis
        by (subst (asm) write_all.simps) (force intro: exI [of _ 0])
    next
      case False
      with "1.prems" ne w1 Inr have rec: "write_all (drop n bs) w1 = (Err k, w')"
        by (subst (asm) write_all.simps) simp
      with "1.IH" [OF ne] w1 Inr False obtain m where
        "m \<le> length (drop n bs)" "written w' = written w1 @ take m (drop n bs)"
        by metis
      with n show ?thesis
        by (intro exI [of _ "n + m"]) (auto simp: take_add)
    qed
  qed
qed

lemma write_all_prefix:
  "write_all bs w = (res, w') \<Longrightarrow> \<exists>n \<le> length bs. written w' = written w @ take n bs"
proof (cases res)
  case (Inr u)
  assume "write_all bs w = (res, w')"
  with Inr have "written w' = written w @ take (length bs) bs" by (simp add: write_all_ok)
  then show ?thesis by blast
qed (auto dest: write_all_err)

text \<open>A peer that accepts everything.\<close>

definition willing :: "writer \<Rightarrow> bool" where
  "willing w \<longleftrightarrow> write_steps w = [] \<and> flush_steps w = [] \<and> shutdown_steps w = []"

definition open_writer :: writer where
  "open_writer = \<lparr>written = [], write_steps = [], flush_steps = [], shutdown_steps = []\<rparr>"

lemma open_writer_simps [simp]:
  "written open_writer = []" "willing open_writer"
  by (simp_all add: open_writer_def willing_def)

lemma stream_write_willing [io_simps]:
  "write_steps w = [] \<Longrightarrow> stream_write bs w = (Ok (length bs), w\<lparr>written := written w @ bs\<rparr>)"
  by (simp add: stream_write_def)

lemma write_all_willing [io_simps]:
  "write_steps w = [] \<Longrightarrow> write_all bs w = (Ok (), w\<lparr>written := written w @ bs\<rparr>)"
  by (cases "bs = []") (simp_all add: write_all.simps [of bs] stream_write_def)

lemma flush_written [simp]: "flush w = (res, w') \<Longrightarrow> written w' = written w"
  by (auto simp: flush_def split: list.splits option.splits)

lemma shutdown_written [simp]: "shutdown w = (res, w') \<Longrightarrow> written w' = written w"
  by (auto simp: shutdown_def split: list.splits option.splits)

lemma flush_willing [io_simps]: "flush_steps w = [] \<Longrightarrow> flush w = (Ok (), w)"
  by (simp add: flush_def)

lemma shutdown_willing [io_simps]: "shutdown_steps w = [] \<Longrightarrow> shutdown w = (Ok (), w)"
  by (simp add: shutdown_def)

section \<open>PrefixedDuplexStream: replaying consumed bytes\<close>

text \<open>
  \<^verbatim>\<open>transparent/io.rs\<close>: bytes that protocol detection, the ClientHello inspection or a CONNECT
  handshake read too early are handed out again before the inner stream is read. The slice
  \<^verbatim>\<open>prefix[prefix_offset..]\<close> and the \<^verbatim>\<open>checked_add(..).expect(..)\<close> of the offset are safe as long
  as \<open>prefix_offset \<le> length prefix\<close>, which \<open>prefixed_ok\<close> states and every read keeps.
\<close>

record prefixed_stream =
  pfx :: bytes
  prefix_offset :: nat
  inner :: reader

definition prefixed_new :: "bytes \<Rightarrow> reader \<Rightarrow> prefixed_stream" where
  "prefixed_new p r = \<lparr>pfx = p, prefix_offset = 0, inner = r\<rparr>"

definition remaining_prefix :: "prefixed_stream \<Rightarrow> bytes" where
  "remaining_prefix s = drop (prefix_offset s) (pfx s)"

definition advance_prefix :: "nat \<Rightarrow> prefixed_stream \<Rightarrow> prefixed_stream" where
  "advance_prefix count s = s\<lparr>prefix_offset := prefix_offset s + count\<rparr>"

definition prefixed_read ::
  "nat \<Rightarrow> prefixed_stream \<Rightarrow> (io_kind, bytes) result \<times> prefixed_stream" where
  "prefixed_read cap s =
     (if remaining_prefix s \<noteq> [] then
        let copy_len = min cap (length (remaining_prefix s))
        in (Ok (take copy_len (remaining_prefix s)), advance_prefix copy_len s)
      else case stream_read cap (inner s) of (res, i) \<Rightarrow> (res, s\<lparr>inner := i\<rparr>))"

definition prefixed_ok :: "prefixed_stream \<Rightarrow> bool" where
  "prefixed_ok s \<longleftrightarrow> prefix_offset s \<le> length (pfx s)"

text \<open>The script a prefixed stream stands for.\<close>

definition prefixed_script :: "prefixed_stream \<Rightarrow> reader" where
  "prefixed_script s =
     (if remaining_prefix s = [] then inner s else Got (remaining_prefix s) # inner s)"

lemma prefixed_read_ok: "prefixed_ok s \<Longrightarrow> prefixed_read cap s = (res, s') \<Longrightarrow> prefixed_ok s'"
  by (auto simp: prefixed_read_def prefixed_ok_def remaining_prefix_def advance_prefix_def Let_def
      split: if_splits prod.splits)

lemma prefixed_read_script:
  "prefixed_script (snd (prefixed_read cap s)) = snd (stream_read cap (prefixed_script s))
   \<and> fst (prefixed_read cap s) = fst (stream_read cap (prefixed_script s))"
proof (cases "remaining_prefix s = []")
  case True
  then show ?thesis
    by (simp add: prefixed_read_def prefixed_script_def remaining_prefix_def split: prod.split)
next
  case False
  then show ?thesis
    by (auto simp: prefixed_read_def prefixed_script_def remaining_prefix_def advance_prefix_def
        Let_def min_def add.commute)
qed

lemma prefixed_read_stream_read:
  assumes "prefixed_read cap s = (res, s')"
  shows "stream_read cap (prefixed_script s) = (res, prefixed_script s')"
  using prefixed_read_script [of cap s] assms
  by (cases "stream_read cap (prefixed_script s)") simp

interpretation prefixed: byte_source prefixed_read "\<lambda>s. incoming (prefixed_script s)" prefixed_ok
proof unfold_locales
  show "incoming (prefixed_script s) = bs @ incoming (prefixed_script s') \<and> length bs \<le> cap"
    if "prefixed_read cap s = (Ok bs, s')" "bs \<noteq> []" for s cap bs s'
    using prefixed_read_stream_read [OF that(1)] that(2) by (rule stream_read_data)
qed (auto dest: prefixed_read_stream_read stream_read_end stream_read_fail prefixed_read_ok)

section \<open>ObservedStream: counting successful reads\<close>

datatype traffic_direction = ClientToUpstream | UpstreamToClient

text \<open>The observer's state is the log of its \<^verbatim>\<open>record_bytes\<close> calls.\<close>

record observed_stream =
  ob_inner :: reader
  ob_direction :: traffic_direction
  ob_log :: "(traffic_direction \<times> nat) list"

definition observed_read ::
  "nat \<Rightarrow> observed_stream \<Rightarrow> (io_kind, bytes) result \<times> observed_stream" where
  "observed_read cap s =
     (case stream_read cap (ob_inner s) of
        (Ok bs, i) \<Rightarrow>
          (Ok bs,
           if 0 < length bs
           then s\<lparr>ob_inner := i, ob_log := ob_log s @ [(ob_direction s, length bs)]\<rparr>
           else s\<lparr>ob_inner := i\<rparr>)
      | (Err k, i) \<Rightarrow> (Err k, s\<lparr>ob_inner := i\<rparr>))"

interpretation observed: byte_source observed_read "\<lambda>s. incoming (ob_inner s)" "\<lambda>_. True"
proof unfold_locales
  show "incoming (ob_inner s) = bs @ incoming (ob_inner s') \<and> length bs \<le> cap"
    if "observed_read cap s = (Ok bs, s')" "bs \<noteq> []" for s cap bs s'
    using that stream_read_data [of cap "ob_inner s" bs "ob_inner s'"]
    by (auto simp: observed_read_def split: prod.splits sum.splits)
qed (auto simp: observed_read_def dest: stream_read_end stream_read_fail
    split: prod.splits sum.splits if_splits)

definition observed_total :: "observed_stream \<Rightarrow> nat" where
  "observed_total s = sum_list (map snd (ob_log s))"

text \<open>Every delivered byte is counted exactly once, in the stream's own direction.\<close>

lemma observed_read_counts:
  "observed_read cap s = (Ok bs, s') \<Longrightarrow>
     observed_total s' = observed_total s + length bs
   \<and> ob_log s' = ob_log s @ (if bs = [] then [] else [(ob_direction s, length bs)])"
  by (auto simp: observed_read_def observed_total_def split: prod.splits sum.splits if_splits)

end
