(* ===== verification/Http_Types.thy ===== *)
theory Http_Types
  imports Stream_IO
begin

text \<open>
  HTTP messages as the code sees them. The types of the \<^verbatim>\<open>http\<close> crate are represented by what
  their accessors return: a \<^verbatim>\<open>Uri\<close> is the record of its parts and its printed form, a
  \<^verbatim>\<open>HeaderValue\<close> is its bytes together with the answer of \<^verbatim>\<open>to_str\<close>, a \<^verbatim>\<open>HeaderMap\<close> is the list
  of its entries in iteration order (names in lower case). \<open>header_multimap\<close> states what the code
  relies on of such a map.
\<close>

datatype http_version = HTTP_09 | HTTP_10 | HTTP_11 | HTTP_2 | HTTP_3

record uri =
  uri_scheme :: "bytes option"
  uri_authority :: "bytes option"
  uri_path_and_query :: "bytes option"
  uri_text :: bytes

record header_value =
  hv_bytes :: bytes
  hv_str :: "bytes option"

type_synonym headers = "(bytes \<times> header_value) list"

record http_request =
  req_method :: bytes
  req_uri :: uri
  req_version :: http_version
  req_headers :: headers

record http_response =
  res_status :: nat
  res_version :: http_version
  res_headers :: headers

section \<open>Header maps\<close>

definition get_all :: "headers \<Rightarrow> bytes \<Rightarrow> header_value list" where
  "get_all hs n = map snd (filter (\<lambda>h. fst h = n) hs)"

definition header_get :: "headers \<Rightarrow> bytes \<Rightarrow> header_value option" where
  "header_get hs n = (case get_all hs n of [] \<Rightarrow> None | v # _ \<Rightarrow> Some v)"

definition contains_key :: "headers \<Rightarrow> bytes \<Rightarrow> bool" where
  "contains_key hs n \<longleftrightarrow> get_all hs n \<noteq> []"

text \<open>\<^verbatim>\<open>HeaderMap::append\<close>: one more value for the name, after those it already has.\<close>

fun header_append :: "headers \<Rightarrow> bytes \<Rightarrow> header_value \<Rightarrow> headers" where
  "header_append [] n v = [(n, v)]"
| "header_append (h # hs) n v =
     (if fst h = n \<and> n \<notin> fst ` set hs then h # (n, v) # hs else h # header_append hs n v)"

locale header_multimap =
  fixes mempty :: "'m"
    and mappend :: "'m \<Rightarrow> bytes \<Rightarrow> header_value \<Rightarrow> 'm"
    and mget_all :: "'m \<Rightarrow> bytes \<Rightarrow> header_value list"
  assumes get_empty: "mget_all mempty n = []"
    and get_append_same: "mget_all (mappend m n v) n = mget_all m n @ [v]"
    and get_append_other: "k \<noteq> n \<Longrightarrow> mget_all (mappend m n v) k = mget_all m k"
begin

text \<open>Appending a list of entries keeps, for every name, its values in order.\<close>

lemma get_fold_append:
  "mget_all (fold (\<lambda>(n, v) m. mappend m n v) es m) k
   = mget_all m k @ map snd (filter (\<lambda>e. fst e = k) es)"
proof (induction es arbitrary: m)
  case (Cons e es)
  obtain n v where e: "e = (n, v)" by (cases e)
  show ?case
    using Cons.IH [of "mappend m n v"] get_append_same [of m n v] get_append_other [of k n m v]
    by (cases "k = n") (auto simp: e)
qed simp

end

lemma get_all_Nil [simp]: "get_all [] n = []"
  by (simp add: get_all_def)

lemma get_all_Cons: "get_all (h # hs) n = (if fst h = n then snd h # get_all hs n else get_all hs n)"
  by (simp add: get_all_def)

lemma get_all_empty_iff: "get_all hs n = [] \<longleftrightarrow> n \<notin> fst ` set hs"
  by (induction hs) (auto simp: get_all_Cons)

lemma get_all_header_append:
  "get_all (header_append hs n v) k = (if k = n then get_all hs k @ [v] else get_all hs k)"
proof (induction hs n v rule: header_append.induct)
  case (2 h hs n v)
  show ?case
  proof (cases "fst h = n \<and> n \<notin> fst ` set hs")
    case True
    then have "get_all hs n = []" by (simp add: get_all_empty_iff)
    with True show ?thesis by (auto simp: get_all_Cons)
  qed (use "2" in \<open>auto simp: get_all_Cons\<close>)
qed (simp add: get_all_Cons)

interpretation header_list: header_multimap "[]" header_append get_all
  by unfold_locales (simp_all add: get_all_header_append)

lemma contains_key_iff: "contains_key hs n \<longleftrightarrow> n \<in> fst ` set hs"
  by (simp add: contains_key_def get_all_empty_iff)

end
