(* ===== verification/Http_Utils.thy ===== *)
theory Http_Utils
  imports Http_Types
begin

text \<open>
  \<^verbatim>\<open>crates/abyss-mitm/src/transparent/utils.rs\<close>: the stateless rules of the relay, that classify
  decoded HTTP metadata, serialise heads and read the headers that frame a body. The error type
  \<^verbatim>\<open>Http1Error\<close> of \<^verbatim>\<open>http1.rs\<close> is declared here because these helpers return it.
\<close>

datatype http1_error =
    IncompleteRequest
  | IncompleteResponse
  | HeaderTooLarge
  | BodyTooLarge nat
  | InvalidBody string
  | UnsupportedBody string
  | RequestHeadTimeout nat
  | ResponseHeadTimeout nat
  | ParseError
  | InvalidRequest string
  | InvalidResponse string
  | InvalidMethod
  | InvalidUri
  | InvalidStatusCode
  | InvalidHeaderName
  | InvalidHeaderValue
  | BuildMessage
  | Http1Io io_kind

section \<open>Definitions\<close>

definition request_host :: "http_request \<Rightarrow> bytes option" where
  "request_host r = (case header_get (req_headers r) ''host'' of None \<Rightarrow> None | Some v \<Rightarrow> hv_str v)"

text \<open>The list elements of every readable value of a header, \<^verbatim>\<open>flat_map(|v| v.split(','))\<close>.\<close>

definition header_items :: "headers \<Rightarrow> bytes \<Rightarrow> bytes list" where
  "header_items hs n = concat (map (str_split CHR '','') (List.map_filter hv_str (get_all hs n)))"

definition header_contains_token :: "headers \<Rightarrow> bytes \<Rightarrow> bytes \<Rightarrow> bool" where
  "header_contains_token hs n token \<longleftrightarrow>
     list_ex (\<lambda>v. eq_ignore_ascii_case (str_trim v) token) (header_items hs n)"

definition is_websocket_upgrade_request :: "http_request \<Rightarrow> bool" where
  "is_websocket_upgrade_request r \<longleftrightarrow>
     req_method r = ''GET''
     \<and> req_version r = HTTP_11
     \<and> contains_key (req_headers r) ''sec-websocket-key''
     \<and> header_contains_token (req_headers r) ''connection'' ''upgrade''
     \<and> header_contains_token (req_headers r) ''upgrade'' ''websocket''"

definition request_version_token :: "http_version \<Rightarrow> (http1_error, bytes) result" where
  "request_version_token v =
     (case v of
        HTTP_10 \<Rightarrow> Ok ''HTTP/1.0''
      | HTTP_11 \<Rightarrow> Ok ''HTTP/1.1''
      | _ \<Rightarrow> Err (UnsupportedBody ''HTTP relay requires an HTTP/1.x request''))"

definition request_target :: "http_request \<Rightarrow> bytes" where
  "request_target r =
     (case uri_path_and_query (req_uri r) of None \<Rightarrow> uri_text (req_uri r) | Some p \<Rightarrow> p)"

definition header_line :: "bytes \<times> header_value \<Rightarrow> bytes" where
  "header_line h = fst h @ '': '' @ hv_bytes (snd h) @ CRLF"

text \<open>The loop over the headers: the lines of those that are not excluded.\<close>

fun header_lines :: "(bytes \<Rightarrow> bool) \<Rightarrow> headers \<Rightarrow> bytes" where
  "header_lines excluded [] = []"
| "header_lines excluded (h # hs) =
     (if excluded (fst h) then header_lines excluded hs
      else header_line h @ header_lines excluded hs)"

definition request_head_bytes_excluding ::
  "http_request \<Rightarrow> (bytes \<Rightarrow> bool) \<Rightarrow> (http1_error, bytes) result" where
  "request_head_bytes_excluding r excluded =
     (case request_version_token (req_version r) of
        Err e \<Rightarrow> Err e
      | Ok token \<Rightarrow>
          Ok (req_method r @ '' '' @ request_target r @ '' '' @ token @ CRLF
              @ header_lines excluded (req_headers r) @ CRLF))"

definition http_request_head_without_relay_headers ::
  "http_request \<Rightarrow> bool \<Rightarrow> (http1_error, bytes) result" where
  "http_request_head_without_relay_headers r strip_expect =
     request_head_bytes_excluding r (\<lambda>name. strip_expect \<and> name = ''expect'')"

definition has_expect_continue :: "http_request \<Rightarrow> bool" where
  "has_expect_continue r \<longleftrightarrow>
     list_ex (\<lambda>v. eq_ignore_ascii_case (str_trim v) ''100-continue'')
       (List.map_filter hv_str (get_all (req_headers r) ''expect''))"

definition websocket_request_head_bytes :: "http_request \<Rightarrow> (http1_error, bytes) result" where
  "websocket_request_head_bytes r =
     (if req_version r \<noteq> HTTP_11
      then Err (UnsupportedBody ''WebSocket upgrade requires HTTP/1.1'')
      else request_head_bytes_excluding r (\<lambda>name. name = ''sec-websocket-extensions''))"

definition parse_content_length_value :: "header_value \<Rightarrow> (http1_error, nat) result" where
  "parse_content_length_value v =
     (case hv_str v of
        None \<Rightarrow> Err (InvalidBody ''invalid content-length'')
      | Some s \<Rightarrow>
          (case parse_usize s of
             None \<Rightarrow> Err (InvalidBody ''invalid content-length'')
           | Some n \<Rightarrow> Ok n))"

fun same_content_length :: "nat \<Rightarrow> header_value list \<Rightarrow> (http1_error, unit) result" where
  "same_content_length first [] = Ok ()"
| "same_content_length first (v # vs) =
     (case parse_content_length_value v of
        Err e \<Rightarrow> Err e
      | Ok n \<Rightarrow> if n \<noteq> first then Err (InvalidBody ''conflicting content-length headers'')
                else same_content_length first vs)"

definition content_length :: "headers \<Rightarrow> (http1_error, nat option) result" where
  "content_length hs =
     (case get_all hs ''content-length'' of
        [] \<Rightarrow> Ok None
      | first # rest \<Rightarrow>
          (case parse_content_length_value first of
             Err e \<Rightarrow> Err e
           | Ok n \<Rightarrow> (case same_content_length n rest of Err e \<Rightarrow> Err e | Ok _ \<Rightarrow> Ok (Some n))))"

text \<open>The last non-blank item over all \<^verbatim>\<open>Transfer-Encoding\<close> values must be \<^verbatim>\<open>chunked\<close>.\<close>

definition is_chunked :: "headers \<Rightarrow> bool" where
  "is_chunked hs \<longleftrightarrow>
     (case List.find (\<lambda>item. str_trim item \<noteq> []) (rev (header_items hs ''transfer-encoding'')) of
        None \<Rightarrow> False
      | Some item \<Rightarrow> eq_ignore_ascii_case (str_trim item) ''chunked'')"

definition is_informational :: "nat \<Rightarrow> bool" where
  "is_informational status \<longleftrightarrow> 100 \<le> status \<and> status < 200"

definition status_has_no_body :: "nat \<Rightarrow> bool" where
  "status_has_no_body status \<longleftrightarrow> is_informational status \<or> status = 204 \<or> status = 304"

section \<open>Content-Length\<close>

lemma same_content_length_iff:
  "same_content_length n vs = Ok () \<longleftrightarrow> (\<forall>v \<in> set vs. parse_content_length_value v = Ok n)"
  by (induction vs) (auto split: sum.splits)

lemma content_length_some_iff:
  "content_length hs = Ok (Some n) \<longleftrightarrow>
     get_all hs ''content-length'' \<noteq> []
     \<and> (\<forall>v \<in> set (get_all hs ''content-length''). parse_content_length_value v = Ok n)"
proof (cases "get_all hs ''content-length''")
  case (Cons v vs)
  have "content_length hs = Ok (Some n) \<longleftrightarrow>
      parse_content_length_value v = Ok n \<and> same_content_length n vs = Ok ()"
    by (auto simp: content_length_def Cons split: sum.splits)
  then show ?thesis by (simp add: same_content_length_iff Cons)
qed (simp add: content_length_def)

lemma content_length_none_iff:
  "content_length hs = Ok None \<longleftrightarrow> get_all hs ''content-length'' = []"
  by (auto simp: content_length_def split: list.splits sum.splits)

lemma parse_content_length_error:
  "parse_content_length_value v = Err e \<Longrightarrow> e = InvalidBody ''invalid content-length''"
  by (auto simp: parse_content_length_value_def split: option.splits)

lemma content_length_bound: "content_length hs = Ok (Some n) \<Longrightarrow> n \<le> usize_max"
  by (auto simp: content_length_some_iff parse_content_length_value_def neq_Nil_conv
      dest: parse_usize_bound split: option.splits)

section \<open>Heads as lines\<close>

lemma header_lines_filter:
  "header_lines excluded hs = concat (map header_line (filter (\<lambda>h. \<not> excluded (fst h)) hs))"
  by (induction hs) auto

end
