(* ===== verification/Ip_Addr.thy ===== *)
theory Ip_Addr
  imports Rust_Str
begin

text \<open>
  \<^verbatim>\<open>std::net::IpAddr\<close>: its textual syntax (\<^verbatim>\<open>str::parse::<IpAddr>\<close>) and \<^verbatim>\<open>Display\<close>, as the proxy
  target normalisation uses them, and socket addresses.
\<close>

type_synonym u8 = "8 word"
type_synonym u16 = "16 word"

datatype ip_addr =
    V4 u8 u8 u8 u8
  | V6 u16 u16 u16 u16 u16 u16 u16 u16

record socket_addr =
  sa_ip :: ip_addr
  sa_port :: u16

fun is_ipv4 :: "ip_addr \<Rightarrow> bool" where
  "is_ipv4 (V4 a b c d) = True"
| "is_ipv4 (V6 a b c d e f g h) = False"

section \<open>Printing\<close>

definition hex_digit :: "nat \<Rightarrow> byte" where
  "hex_digit d = (if d < 10 then char_of (48 + d) else char_of (87 + d))"

fun show_hex :: "nat \<Rightarrow> bytes" where
  "show_hex n = (if n < 16 then [hex_digit n] else show_hex (n div 16) @ [hex_digit (n mod 16)])"

declare show_hex.simps [simp del]

definition show_ipv4 :: "u8 \<Rightarrow> u8 \<Rightarrow> u8 \<Rightarrow> u8 \<Rightarrow> bytes" where
  "show_ipv4 a b c d =
     show_nat (unat a) @ ''.'' @ show_nat (unat b) @ ''.'' @ show_nat (unat c) @ ''.''
     @ show_nat (unat d)"

text \<open>The first longest run of zero segments, as (start, length).\<close>

fun longest_zeros :: "nat \<Rightarrow> nat \<times> nat \<Rightarrow> nat \<times> nat \<Rightarrow> u16 list \<Rightarrow> nat \<times> nat" where
  "longest_zeros i current longest [] = longest"
| "longest_zeros i current longest (s # ss) =
     (if s = 0 then
        let cur = (if snd current = 0 then i else fst current, snd current + 1)
        in longest_zeros (i + 1) cur (if snd cur > snd longest then cur else longest) ss
      else longest_zeros (i + 1) (0, 0) longest ss)"

definition show_segments :: "u16 list \<Rightarrow> bytes" where
  "show_segments ss = str_join CHR '':'' (map (\<lambda>s. show_hex (unat s)) ss)"

fun show_ip :: "ip_addr \<Rightarrow> bytes" where
  "show_ip (V4 a b c d) = show_ipv4 a b c d"
| "show_ip (V6 a b c d e f g h) =
     (let ss = [a, b, c, d, e, f, g, h]
      in if take 6 ss = [0, 0, 0, 0, 0, 65535]
         then ''::ffff:'' @ show_ipv4 (ucast (drop_bit 8 g)) (ucast g) (ucast (drop_bit 8 h)) (ucast h)
         else case longest_zeros 0 (0, 0) (0, 0) ss of
                (start, len) \<Rightarrow>
                  if 1 < len
                  then show_segments (take start ss) @ ''::'' @ show_segments (drop (start + len) ss)
                  else show_segments ss)"

section \<open>Parsing\<close>

text \<open>\<^verbatim>\<open>char::to_digit(radix)\<close>.\<close>

definition to_digit :: "nat \<Rightarrow> byte \<Rightarrow> nat option" where
  "to_digit radix c =
     (let d = (if is_ascii_digit c then code c - 48
               else if is_ascii_lower c then code c - 87
               else if is_ascii_upper c then code c - 55 else 36)
      in if d < radix then Some d else None)"

text \<open>\<^verbatim>\<open>Parser::read_number\<close> with a digit limit: the value and the rest of the input.\<close>

fun read_digits :: "nat \<Rightarrow> nat \<Rightarrow> bytes \<Rightarrow> nat \<times> nat \<times> bytes" where
  "read_digits radix acc [] = (acc, 0, [])"
| "read_digits radix acc (c # cs) =
     (case to_digit radix c of
        None \<Rightarrow> (acc, 0, c # cs)
      | Some d \<Rightarrow> (case read_digits radix (radix * acc + d) cs of (v, n, r) \<Rightarrow> (v, Suc n, r)))"

definition read_number :: "nat \<Rightarrow> nat \<Rightarrow> bool \<Rightarrow> nat \<Rightarrow> bytes \<Rightarrow> (nat \<times> bytes) option" where
  "read_number radix max_digits allow_zero_prefix bound s =
     (case read_digits radix 0 s of
        (v, n, r) \<Rightarrow>
          if n = 0 \<or> max_digits < n then None
          else if \<not> allow_zero_prefix \<and> take 1 s = ''0'' \<and> 1 < n then None
          else if v < bound then Some (v, r) else None)"

fun read_char :: "byte \<Rightarrow> bytes \<Rightarrow> bytes option" where
  "read_char c [] = None"
| "read_char c (x # xs) = (if x = c then Some xs else None)"

definition read_octet :: "bytes \<Rightarrow> (u8 \<times> bytes) option" where
  "read_octet s = map_option (\<lambda>(v, r). (of_nat v, r)) (read_number 10 3 False 256 s)"

text \<open>\<^verbatim>\<open>read_separator('.', i, read_octet)\<close> for the second and later octets.\<close>

definition read_dot_octet :: "bytes \<Rightarrow> (u8 \<times> bytes) option" where
  "read_dot_octet s = (case read_char CHR ''.'' s of None \<Rightarrow> None | Some r \<Rightarrow> read_octet r)"

definition read_ipv4_addr :: "bytes \<Rightarrow> ((u8 \<times> u8 \<times> u8 \<times> u8) \<times> bytes) option" where
  "read_ipv4_addr s =
     (case read_octet s of None \<Rightarrow> None | Some (a, s1) \<Rightarrow>
        (case read_dot_octet s1 of None \<Rightarrow> None | Some (b, s2) \<Rightarrow>
           (case read_dot_octet s2 of None \<Rightarrow> None | Some (c, s3) \<Rightarrow>
              (case read_dot_octet s3 of None \<Rightarrow> None | Some (d, s4) \<Rightarrow> Some ((a, b, c, d), s4)))))"

definition read_colon :: "nat \<Rightarrow> bytes \<Rightarrow> bytes option" where
  "read_colon i s = (if i = 0 then Some s else read_char CHR '':'' s)"

definition join_octets :: "u8 \<Rightarrow> u8 \<Rightarrow> u16" where
  "join_octets a b = of_nat (256 * unat a + unat b)"

text \<open>
  \<^verbatim>\<open>read_groups\<close>: up to \<open>left\<close> more groups from index \<open>i\<close>; an embedded IPv4 address ends them and
  counts for two.
\<close>

fun read_groups :: "nat \<Rightarrow> nat \<Rightarrow> bytes \<Rightarrow> u16 list \<times> bool \<times> bytes" where
  "read_groups 0 i s = ([], False, s)"
| "read_groups (Suc left) i s =
     (case (if 0 < left then Option.bind (read_colon i s) read_ipv4_addr else None) of
        Some ((a, b, c, d), r) \<Rightarrow> ([join_octets a b, join_octets c d], True, r)
      | None \<Rightarrow>
          (case Option.bind (read_colon i s) (read_number 16 4 True 65536) of
             None \<Rightarrow> ([], False, s)
           | Some (v, r) \<Rightarrow>
               (case read_groups left (Suc i) r of (gs, v4, r') \<Rightarrow> (of_nat v # gs, v4, r'))))"

fun segments_to_v6 :: "u16 list \<Rightarrow> ip_addr option" where
  "segments_to_v6 [a, b, c, d, e, f, g, h] = Some (V6 a b c d e f g h)"
| "segments_to_v6 _ = None"

definition read_ipv6_addr :: "bytes \<Rightarrow> (ip_addr \<times> bytes) option" where
  "read_ipv6_addr s =
     (case read_groups 8 0 s of
        (head, head_ipv4, r) \<Rightarrow>
          if length head = 8 then map_option (\<lambda>a. (a, r)) (segments_to_v6 head)
          else if head_ipv4 then None
          else case Option.bind (read_char CHR '':'' r) (read_char CHR '':'') of
                 None \<Rightarrow> None
               | Some r1 \<Rightarrow>
                   (case read_groups (8 - (length head + 1)) 0 r1 of
                      (tl_groups, _, r2) \<Rightarrow>
                        map_option (\<lambda>a. (a, r2))
                          (segments_to_v6
                             (head @ replicate (8 - length head - length tl_groups) 0 @ tl_groups))))"

text \<open>\<^verbatim>\<open>host.parse::<IpAddr>()\<close>: IPv4 first, then IPv6, and nothing may be left over.\<close>

definition parse_ip :: "bytes \<Rightarrow> ip_addr option" where
  "parse_ip s =
     (case (case read_ipv4_addr s of
              Some ((a, b, c, d), r) \<Rightarrow> Some (V4 a b c d, r)
            | None \<Rightarrow> read_ipv6_addr s) of
        Some (ip, r) \<Rightarrow> if r = [] then Some ip else None
      | None \<Rightarrow> None)"

section \<open>Dotted addresses round-trip\<close>

lemma read_digits_decimal:
  assumes "digits_value acc ds = Some v" and "rest = [] \<or> to_digit 10 (hd rest) = None"
  shows "read_digits 10 acc (ds @ rest) = (v, length ds, rest)"
  using assms(1)
proof (induction ds arbitrary: acc)
  case Nil
  with assms(2) show ?case by (cases rest) auto
next
  case (Cons c cs)
  then have c: "is_ascii_digit c" and cs: "digits_value (10 * acc + (code c - 48)) cs = Some v"
    by (auto split: if_splits)
  from c have "to_digit 10 c = Some (code c - 48)"
    by (auto simp: to_digit_def is_ascii_digit_def Let_def)
  with Cons.IH [OF cs] show ?case by simp
qed

lemma show_nat_length3: "n < 256 \<Longrightarrow> length (show_nat n) \<le> 3"
  by (simp add: show_nat.simps [of n] show_nat.simps [of "n div 10"] show_nat.simps [of "n div 10 div 10"])

lemma hd_show_nat: "10 \<le> n \<Longrightarrow> take 1 (show_nat n) \<noteq> ''0''"
proof (induction n rule: show_nat.induct)
  case (1 n)
  show ?case
  proof (cases "n div 10 < 10")
    case True
    moreover have "char_of (48 + n div 10) \<noteq> (CHR ''0'')"
      using True "1.prems" by (auto dest: arg_cong [of _ _ code] simp: code_char_of code_def [of "CHR ''0''"])
    ultimately show ?thesis
      using "1.prems" by (simp add: show_nat.simps [of n] show_nat.simps [of "n div 10"])
  next
    case False
    with "1" have "take 1 (show_nat (n div 10)) \<noteq> ''0''" by simp
    with "1.prems" show ?thesis
      by (cases "show_nat (n div 10)") (simp_all add: show_nat.simps [of n])
  qed
qed

lemma show_nat_short: "n < 10 \<Longrightarrow> length (show_nat n) = 1"
  by (simp add: show_nat.simps)

lemma read_octet_show:
  assumes "rest = [] \<or> to_digit 10 (hd rest) = None"
  shows "read_octet (show_nat (unat a) @ rest) = Some (a, rest)"
proof -
  have a: "unat a < 256" using unsigned_less [of a] by simp
  have d: "read_digits 10 0 (show_nat (unat a) @ rest) = (unat a, length (show_nat (unat a)), rest)"
    using digits_value_show_nat assms by (rule read_digits_decimal)
  have z: "\<not> (take 1 (show_nat (unat a) @ rest) = ''0'' \<and> 1 < length (show_nat (unat a)))"
  proof (cases "unat a < 10")
    case True
    then show ?thesis by (simp add: show_nat_short)
  next
    case False
    then have "take 1 (show_nat (unat a)) \<noteq> ''0''" by (intro hd_show_nat) simp
    moreover have "take 1 (show_nat (unat a) @ rest) = take 1 (show_nat (unat a))"
      by (cases "show_nat (unat a)") auto
    ultimately show ?thesis by metis
  qed
  show ?thesis
    using d z a show_nat_length3 [OF a] by (auto simp: read_octet_def read_number_def)
qed

lemma parse_show_ipv4: "parse_ip (show_ip (V4 a b c d)) = Some (V4 a b c d)"
proof -
  have dot: "to_digit 10 (CHR ''.'') = None" by (simp add: to_digit_def ascii_defs)
  have "read_ipv4_addr (show_ipv4 a b c d) = Some ((a, b, c, d), [])"
    by (simp add: read_ipv4_addr_def show_ipv4_def read_dot_octet_def read_octet_show dot
        read_octet_show [where rest = "[]", simplified])
  then show ?thesis by (simp add: parse_ip_def)
qed

end
