(* ===== verification/Target_Authority.thy ===== *)
theory Target_Authority
  imports Ip_Addr Stream_IO
begin

text \<open>
  Proxy targets (\<^verbatim>\<open>crates/abyss-mitm/src/explicit_http.rs\<close>): the normalised host and port an explicit
  proxy request names. The generic URI authority syntax is parsed by the \<^verbatim>\<open>http\<close> crate; that parser
  is the parameter \<open>authority_try_from\<close>, and its result is the record of its accessors.
\<close>

record authority =
  auth_host :: bytes
  auth_port :: "bytes option"
  auth_port_u16 :: "u16 option"

type_synonym authority_parser = "bytes \<Rightarrow> authority option"

datatype target_host = Dns bytes | Ip ip_addr

record target_authority =
  ta_host :: target_host
  ta_port :: u16

datatype explicit_request_error =
    ExplicitIncompleteRequest
  | ExplicitHeaderTooLarge nat
  | TooManyHeaders nat
  | HeaderTimeout nat
  | ExplicitParse
  | UnsupportedVersion
  | ExplicitInvalidRequest string
  | InvalidTarget bytes string
  | InvalidHost string
  | HostMismatch bytes bytes
  | InvalidFraming string
  | ExplicitIo io_kind

section \<open>Operations\<close>

fun as_dns_name :: "target_host \<Rightarrow> bytes option" where
  "as_dns_name (Dns name) = Some name"
| "as_dns_name (Ip a) = None"

fun as_ip_addr :: "target_host \<Rightarrow> ip_addr option" where
  "as_ip_addr (Ip a) = Some a"
| "as_ip_addr (Dns name) = None"

fun show_target_host :: "target_host \<Rightarrow> bytes" where
  "show_target_host (Dns name) = name"
| "show_target_host (Ip a) = (if is_ipv4 a then show_ip a else ''['' @ show_ip a @ '']'')"

definition show_authority :: "target_authority \<Rightarrow> bytes" where
  "show_authority t = show_target_host (ta_host t) @ '':'' @ show_nat (unat (ta_port t))"

definition host_header_value :: "target_authority \<Rightarrow> u16 \<Rightarrow> bytes" where
  "host_header_value t default_port =
     (if ta_port t = default_port then show_target_host (ta_host t) else show_authority t)"

definition strip_prefix_char :: "byte \<Rightarrow> bytes \<Rightarrow> bytes option" where
  "strip_prefix_char c s = (case s of x # xs \<Rightarrow> if x = c then Some xs else None | [] \<Rightarrow> None)"

definition strip_suffix_char :: "byte \<Rightarrow> bytes \<Rightarrow> bytes option" where
  "strip_suffix_char c s = (if s \<noteq> [] \<and> last s = c then Some (butlast s) else None)"

definition dns_label_ok :: "bytes \<Rightarrow> bool" where
  "dns_label_ok label \<longleftrightarrow>
     label \<noteq> [] \<and> is_ascii_alphanumeric (hd label) \<and> is_ascii_alphanumeric (last label)
     \<and> list_all (\<lambda>c. is_ascii_alphanumeric c \<or> c = CHR ''-'') label"

text \<open>The loop over the labels: the first violation decides the reason.\<close>

fun check_labels :: "bytes list \<Rightarrow> (string, unit) result" where
  "check_labels [] = Ok ()"
| "check_labels (label # labels) =
     (if label = [] \<or> 63 < length label then Err ''DNS label length is invalid''
      else if \<not> dns_label_ok label
      then Err ''DNS labels may contain only letters, digits, and interior hyphens''
      else check_labels labels)"

definition normalize_target_host :: "bytes \<Rightarrow> (string, target_host) result" where
  "normalize_target_host raw =
     (let host = (case Option.bind (strip_prefix_char CHR ''['' raw) (strip_suffix_char CHR '']'') of
                    None \<Rightarrow> raw | Some h \<Rightarrow> h)
      in if host = [] then Err ''host must not be empty''
         else if CHR ''%'' \<in> set host
         then Err ''scoped or percent-encoded hosts are not supported''
         else case parse_ip host of
                Some a \<Rightarrow> Ok (Ip a)
              | None \<Rightarrow>
                  if \<not> is_ascii host then Err ''DNS host must use ASCII or punycode''
                  else
                    let normalized = to_ascii_lowercase
                          (case strip_suffix_char CHR ''.'' host of None \<Rightarrow> host | Some h \<Rightarrow> h)
                    in if normalized = [] \<or> 253 < length normalized
                       then Err ''DNS host length is invalid''
                       else case check_labels (str_split CHR ''.'' normalized) of
                              Err e \<Rightarrow> Err e
                            | Ok _ \<Rightarrow> Ok (Dns normalized))"

definition parse_target_authority ::
  "authority_parser \<Rightarrow> bytes \<Rightarrow> u16 option \<Rightarrow> (explicit_request_error, target_authority) result" where
  "parse_target_authority authority_try_from raw default_port =
     (if CHR ''@'' \<in> set raw then Err (InvalidTarget raw ''userinfo is not allowed'')
      else case authority_try_from raw of
        None \<Rightarrow> Err (InvalidTarget raw ''invalid authority syntax'')
      | Some authority \<Rightarrow>
          (case (case auth_port_u16 authority of
                   Some port \<Rightarrow> Ok port
                 | None \<Rightarrow>
                     if auth_port authority \<noteq> None
                     then Err (InvalidTarget raw ''port must be a valid u16'')
                     else (case default_port of
                             None \<Rightarrow> Err (InvalidTarget raw ''an explicit port is required'')
                           | Some port \<Rightarrow> Ok port)) of
             Err e \<Rightarrow> Err e
           | Ok port \<Rightarrow>
               if port = 0 then Err (InvalidTarget raw ''port must not be zero'')
               else (case normalize_target_host (auth_host authority) of
                       Err reason \<Rightarrow> Err (InvalidTarget raw reason)
                     | Ok host \<Rightarrow> Ok \<lparr>ta_host = host, ta_port = port\<rparr>)))"

text \<open>\<^verbatim>\<open>TargetAuthority::parse\<close> and \<^verbatim>\<open>TargetAuthority::from_host_port\<close>.\<close>

definition target_parse ::
  "authority_parser \<Rightarrow> bytes \<Rightarrow> (explicit_request_error, target_authority) result" where
  "target_parse authority_try_from raw = parse_target_authority authority_try_from raw None"

definition target_from_host_port ::
  "authority_parser \<Rightarrow> bytes \<Rightarrow> u16 \<Rightarrow> (explicit_request_error, target_authority) result" where
  "target_from_host_port authority_try_from host port =
     target_parse authority_try_from
       (case parse_ip host of
          None \<Rightarrow> host @ '':'' @ show_nat (unat port)
        | Some ip \<Rightarrow> show_authority \<lparr>ta_host = Ip ip, ta_port = port\<rparr>)"

definition matches_http_authority ::
  "authority_parser \<Rightarrow> target_authority \<Rightarrow> bytes \<Rightarrow> u16 \<Rightarrow> bool" where
  "matches_http_authority authority_try_from t raw default_port \<longleftrightarrow>
     (case parse_target_authority authority_try_from (str_trim raw) (Some default_port) of
        Ok declared \<Rightarrow> declared = t
      | Err _ \<Rightarrow> False)"

section \<open>Normalised targets\<close>

text \<open>What a normalised host looks like; every host the parser accepts is one.\<close>

definition dns_name_ok :: "bytes \<Rightarrow> bool" where
  "dns_name_ok name \<longleftrightarrow>
     name \<noteq> [] \<and> length name \<le> 253 \<and> to_ascii_lowercase name = name
     \<and> (\<forall>label \<in> set (str_split CHR ''.'' name). dns_label_ok label \<and> length label \<le> 63)"

fun host_ok :: "target_host \<Rightarrow> bool" where
  "host_ok (Dns name) = (dns_name_ok name \<and> parse_ip name = None)"
| "host_ok (Ip a) = True"

lemma check_labels_iff:
  "check_labels ls = Ok () \<longleftrightarrow> (\<forall>l \<in> set ls. dns_label_ok l \<and> length l \<le> 63)"
  by (induction ls) (auto simp: dns_label_ok_def)

lemma dns_label_chars: "dns_label_ok l \<Longrightarrow> c \<in> set l \<Longrightarrow> is_ascii_alphanumeric c \<or> c = CHR ''-''"
  by (auto simp: dns_label_ok_def list_all_iff)

lemma in_str_join:
  "c \<in> set (str_join d ps) \<Longrightarrow> c = d \<or> (\<exists>p \<in> set ps. c \<in> set p)"
  by (induction d ps rule: str_join.induct) auto

lemma dns_name_chars:
  assumes "dns_name_ok name" and "c \<in> set name"
  shows "is_ascii_alphanumeric c \<or> c = CHR ''-'' \<or> c = CHR ''.''"
proof -
  have "c \<in> set (str_join CHR ''.'' (str_split CHR ''.'' name))"
    using assms(2) by (simp add: str_join_split)
  then consider "c = CHR ''.''" | p where "p \<in> set (str_split CHR ''.'' name)" "c \<in> set p"
    by (auto dest: in_str_join)
  then show ?thesis
    using assms(1) by cases (auto simp: dns_name_ok_def dest: dns_label_chars)
qed

text \<open>Bytes no DNS name contains.\<close>

lemma dns_name_excludes:
  assumes "dns_name_ok name"
  shows "CHR '':'' \<notin> set name" "CHR ''@'' \<notin> set name" "CHR ''%'' \<notin> set name"
    "CHR ''['' \<notin> set name" "CHR '' '' \<notin> set name" "CHR 0x0D \<notin> set name" "CHR 0x0A \<notin> set name"
  by (auto dest: dns_name_chars [OF assms] simp: ascii_defs)

lemma dns_name_last:
  assumes "dns_name_ok name"
  shows "last name \<noteq> CHR ''.''"
proof
  assume "last name = CHR ''.''"
  moreover have "name \<noteq> []" using assms by (simp add: dns_name_ok_def)
  ultimately obtain p where p: "name = p @ ''.''" by (metis append_butlast_last_id)
  have "[] \<in> set (tl (str_split CHR ''.'' (q @ ''.'')))" for q
    by (induction q) (auto split: list.splits dest: list.set_sel(2) [rotated])
  then have "[] \<in> set (str_split CHR ''.'' name)"
    using p by (metis list.set_sel(2) str_split_ne)
  with assms show False by (auto simp: dns_name_ok_def dns_label_ok_def)
qed

lemma dns_name_ascii: "dns_name_ok name \<Longrightarrow> is_ascii name"
  by (auto dest!: dns_name_chars simp: is_ascii_def list_all_iff ascii_defs)

text \<open>Normalising a normalised DNS host changes nothing.\<close>

lemma normalize_dns_name:
  assumes "host_ok (Dns name)"
  shows "normalize_target_host name = Ok (Dns name)"
proof -
  have ok: "dns_name_ok name" and ip: "parse_ip name = None" using assms by auto
  have ne: "name \<noteq> []" using ok by (simp add: dns_name_ok_def)
  have "strip_prefix_char CHR ''['' name = None"
    using dns_name_excludes(4) [OF ok] by (auto simp: strip_prefix_char_def split: list.split)
  moreover have "strip_suffix_char CHR ''.'' name = None"
    using dns_name_last [OF ok] by (simp add: strip_suffix_char_def)
  moreover have "check_labels (str_split CHR ''.'' name) = Ok ()"
    using ok by (simp add: check_labels_iff dns_name_ok_def)
  ultimately show ?thesis
    using ne ip ok dns_name_excludes(3) [OF ok] dns_name_ascii [OF ok]
    by (simp add: normalize_target_host_def dns_name_ok_def)
qed

lemma normalize_target_host_dns:
  assumes "normalize_target_host raw = Ok (Dns name)"
  shows "dns_name_ok name"
proof -
  obtain h where h: "name = to_ascii_lowercase h" "name \<noteq> []" "length name \<le> 253"
    and l: "check_labels (str_split CHR ''.'' name) = Ok ()"
    using assms
    by (auto simp: normalize_target_host_def Let_def not_less
        split: if_splits option.splits sum.splits)
  then show ?thesis by (simp add: dns_name_ok_def check_labels_iff)
qed

lemma parse_target_port: "parse_target_authority a raw d = Ok t \<Longrightarrow> ta_port t \<noteq> 0"
  by (auto simp: parse_target_authority_def split: if_splits option.splits sum.splits)

lemma parse_target_dns:
  "parse_target_authority a raw d = Ok t \<Longrightarrow> ta_host t = Dns name \<Longrightarrow> dns_name_ok name"
  by (auto simp: parse_target_authority_def dest: normalize_target_host_dns
      split: if_splits option.splits sum.splits)

lemma parse_target_no_userinfo:
  "parse_target_authority a raw d = Ok t \<Longrightarrow> CHR ''@'' \<notin> set raw"
  by (auto simp: parse_target_authority_def split: if_splits)

end
