(* ===== verification/Flow_Types.thy ===== *)
theory Flow_Types
  imports Http_Utils Target_Authority
begin

text \<open>
  The vocabulary of one accepted flow (\<^verbatim>\<open>transparent/types.rs\<close>, \<^verbatim>\<open>transparent/destination.rs\<close>, the flow
  metadata of \<^verbatim>\<open>transparent/hook.rs\<close> and the errors of \<^verbatim>\<open>outbound/mod.rs\<close>): operations and their
  labels, errors and which of them mean that the agent merely closed its connection, how a flow
  arrived, and the checks that tie a decrypted request to the proxy target it was tunnelled to.
\<close>

section \<open>Operations\<close>

datatype flow_operation =
    ReadAgentProtocol | ReadAgentTlsClientHello | AcceptAgentTls | ReadAgentRequestHead
  | ReadAgentRequestBody | WriteProviderRequestHead | WriteProviderRequestBody
  | WriteAgentContinueResponse | ResolveProxy | ConnectProxyTcp | ProxyConnectHandshake
  | ConnectProviderTcp | ConnectProviderTls | WriteProviderTlsClientHello
  | ReadProviderResponseHead | ReadProviderResponseBody | WriteAgentResponseHead
  | WriteAgentResponseBody | ReadAgentWebSocket | WriteProviderWebSocket | ReadProviderWebSocket
  | WriteAgentWebSocket | RelayPassthrough | ShutdownAgent | LocalRelay

primrec flow_operation_as_str :: "flow_operation \<Rightarrow> string" where
  "flow_operation_as_str ReadAgentProtocol = ''read_agent_protocol''"
| "flow_operation_as_str ReadAgentTlsClientHello = ''read_agent_tls_client_hello''"
| "flow_operation_as_str AcceptAgentTls = ''accept_agent_tls''"
| "flow_operation_as_str ReadAgentRequestHead = ''read_agent_request_head''"
| "flow_operation_as_str ReadAgentRequestBody = ''read_agent_request_body''"
| "flow_operation_as_str WriteProviderRequestHead = ''write_provider_request_head''"
| "flow_operation_as_str WriteProviderRequestBody = ''write_provider_request_body''"
| "flow_operation_as_str WriteAgentContinueResponse = ''write_agent_continue_response''"
| "flow_operation_as_str ResolveProxy = ''resolve_proxy''"
| "flow_operation_as_str ConnectProxyTcp = ''connect_proxy_tcp''"
| "flow_operation_as_str ProxyConnectHandshake = ''proxy_connect_handshake''"
| "flow_operation_as_str ConnectProviderTcp = ''connect_provider_tcp''"
| "flow_operation_as_str ConnectProviderTls = ''connect_provider_tls''"
| "flow_operation_as_str WriteProviderTlsClientHello = ''write_provider_tls_client_hello''"
| "flow_operation_as_str ReadProviderResponseHead = ''read_provider_response_head''"
| "flow_operation_as_str ReadProviderResponseBody = ''read_provider_response_body''"
| "flow_operation_as_str WriteAgentResponseHead = ''write_agent_response_head''"
| "flow_operation_as_str WriteAgentResponseBody = ''write_agent_response_body''"
| "flow_operation_as_str ReadAgentWebSocket = ''read_agent_websocket''"
| "flow_operation_as_str WriteProviderWebSocket = ''write_provider_websocket''"
| "flow_operation_as_str ReadProviderWebSocket = ''read_provider_websocket''"
| "flow_operation_as_str WriteAgentWebSocket = ''write_agent_websocket''"
| "flow_operation_as_str RelayPassthrough = ''relay_passthrough''"
| "flow_operation_as_str ShutdownAgent = ''shutdown_agent''"
| "flow_operation_as_str LocalRelay = ''local_relay''"

definition flow_operation_parse :: "string \<Rightarrow> flow_operation option" where
  "flow_operation_parse v = map_of
     [(''read_agent_protocol'', ReadAgentProtocol),
      (''read_agent_tls_client_hello'', ReadAgentTlsClientHello),
      (''accept_agent_tls'', AcceptAgentTls),
      (''read_agent_request_head'', ReadAgentRequestHead),
      (''read_agent_request_body'', ReadAgentRequestBody),
      (''write_provider_request_head'', WriteProviderRequestHead),
      (''write_provider_request_body'', WriteProviderRequestBody),
      (''write_agent_continue_response'', WriteAgentContinueResponse),
      (''resolve_proxy'', ResolveProxy),
      (''connect_proxy_tcp'', ConnectProxyTcp),
      (''proxy_connect_handshake'', ProxyConnectHandshake),
      (''connect_provider_tcp'', ConnectProviderTcp),
      (''connect_provider_tls'', ConnectProviderTls),
      (''write_provider_tls_client_hello'', WriteProviderTlsClientHello),
      (''read_provider_response_head'', ReadProviderResponseHead),
      (''read_provider_response_body'', ReadProviderResponseBody),
      (''write_agent_response_head'', WriteAgentResponseHead),
      (''write_agent_response_body'', WriteAgentResponseBody),
      (''read_agent_websocket'', ReadAgentWebSocket),
      (''write_provider_websocket'', WriteProviderWebSocket),
      (''read_provider_websocket'', ReadProviderWebSocket),
      (''write_agent_websocket'', WriteAgentWebSocket),
      (''relay_passthrough'', RelayPassthrough),
      (''shutdown_agent'', ShutdownAgent),
      (''local_relay'', LocalRelay)] v"

section \<open>Errors\<close>

datatype proxy_connect_stage = StageResolveProxy | StageConnectProxy | StageHandshake

datatype upstream_proxy_error =
    ProxyTimeout proxy_connect_stage nat
  | ProxyIo proxy_connect_stage io_kind
  | ProxyProtocol string
  | ProxyRejected nat
  | ProxyLoop socket_addr

fun is_proxy_timeout :: "upstream_proxy_error \<Rightarrow> bool" where
  "is_proxy_timeout (ProxyTimeout s ms) = True"
| "is_proxy_timeout _ = False"

fun proxy_error_stage :: "upstream_proxy_error \<Rightarrow> proxy_connect_stage" where
  "proxy_error_stage (ProxyTimeout s ms) = s"
| "proxy_error_stage (ProxyIo s k) = s"
| "proxy_error_stage (ProxyProtocol r) = StageHandshake"
| "proxy_error_stage (ProxyRejected n) = StageHandshake"
| "proxy_error_stage (ProxyLoop a) = StageResolveProxy"

text \<open>\<^verbatim>\<open>tungstenite::Error\<close>, as far as the relay distinguishes its cases.\<close>

datatype websocket_error = WsConnectionClosed | WsIo io_kind | WsOther

text \<open>\<^verbatim>\<open>TlsDecryptionPolicyError\<close> of \<^verbatim>\<open>decrypt_policy.rs\<close>.\<close>

datatype policy_error =
    EmptyRuleId
  | EmptySelectors bytes
  | EmptyProcessName bytes
  | EmptyApplicationId bytes
  | InvalidProcessEntryPoint bytes bytes
  | InvalidHostPattern bytes bytes string

text \<open>
  Durations are milliseconds; the sources of TLS errors are opaque here, since no code of the
  pipeline looks into them.
\<close>

datatype tls_error_side = TlsClient | TlsUpstream

datatype flow_error =
    UpstreamProxy target_authority bytes upstream_proxy_error
  | ClientClosedBeforeProtocol
  | UnsupportedProtocol
  | MissingSni
  | Tls tls_error_side
  | TlsConfiguration
  | Http1 flow_operation http1_error
  | WebSocket flow_operation websocket_error
  | FlowIo flow_operation io_kind
  | FlowTimeout flow_operation nat
  | ByteCountOverflow
  | TlsClientHelloTooLarge nat nat
  | MalformedTlsClientHello string
  | ProxyTargetServerNameMismatch bytes bytes
  | ProxyTargetHostMismatch bytes
  | ProxyTargetRequestForm bytes
  | TlsDecryptionPolicyError policy_error

definition is_agent_close_operation :: "flow_operation \<Rightarrow> bool" where
  "is_agent_close_operation op \<longleftrightarrow>
     op \<in> {WriteAgentContinueResponse, WriteAgentResponseHead, WriteAgentResponseBody,
           ReadAgentWebSocket, WriteAgentWebSocket, ShutdownAgent}"

definition is_peer_close_kind :: "io_kind \<Rightarrow> bool" where
  "is_peer_close_kind k \<longleftrightarrow>
     k \<in> {BrokenPipe, ConnectionAborted, ConnectionReset, NotConnected, UnexpectedEof}"

definition is_agent_connection_close :: "flow_error \<Rightarrow> bool" where
  "is_agent_connection_close e =
     (case e of
        FlowIo op k \<Rightarrow> is_agent_close_operation op \<and> is_peer_close_kind k
      | WebSocket op src \<Rightarrow>
          op = ReadAgentWebSocket
          \<and> (case src of WsConnectionClosed \<Rightarrow> True | WsIo k \<Rightarrow> is_peer_close_kind k | WsOther \<Rightarrow> False)
      | _ \<Rightarrow> False)"

lemmas close_defs [flow_defs] =
  is_agent_close_operation_def is_peer_close_kind_def is_agent_connection_close_def

section \<open>How a flow arrived\<close>

datatype explicit_proxy_protocol = HttpConnect | HttpAbsoluteForm

datatype flow_source = MacosNetworkExtension | WindowsWfp | LinuxTransparent | Unattributed

datatype flow_ingress =
    Transparent flow_source
  | ExplicitProxy explicit_proxy_protocol target_authority "socket_addr option" "bytes option"

fun source_label :: "flow_ingress \<Rightarrow> string" where
  "source_label (Transparent MacosNetworkExtension) = ''macos_network_extension''"
| "source_label (Transparent WindowsWfp) = ''windows_wfp''"
| "source_label (Transparent LinuxTransparent) = ''linux_transparent''"
| "source_label (Transparent Unattributed) = ''unattributed_transparent''"
| "source_label (ExplicitProxy p t u e) = ''explicit_proxy''"

fun proxy_protocol :: "flow_ingress \<Rightarrow> explicit_proxy_protocol option" where
  "proxy_protocol (ExplicitProxy p t u e) = Some p"
| "proxy_protocol (Transparent s) = None"

fun proxy_target :: "flow_ingress \<Rightarrow> target_authority option" where
  "proxy_target (ExplicitProxy p t u e) = Some t"
| "proxy_target (Transparent s) = None"

fun upstream_proxy :: "flow_ingress \<Rightarrow> socket_addr option" where
  "upstream_proxy (ExplicitProxy p t u e) = u"
| "upstream_proxy (Transparent s) = None"

fun proxy_endpoint :: "flow_ingress \<Rightarrow> bytes option" where
  "proxy_endpoint (ExplicitProxy p t u e) = e"
| "proxy_endpoint (Transparent s) = None"

definition requires_tls_server_name_validation :: "flow_ingress \<Rightarrow> bool" where
  "requires_tls_server_name_validation ingress =
     (case proxy_target ingress of
        None \<Rightarrow> False
      | Some t \<Rightarrow> (case ta_host t of Dns _ \<Rightarrow> True | Ip _ \<Rightarrow> False))"

definition validate_tls_server_name ::
  "flow_ingress \<Rightarrow> bytes option \<Rightarrow> (flow_error, unit) result" where
  "validate_tls_server_name ingress server_name =
     (case proxy_target ingress of
        None \<Rightarrow> Ok ()
      | Some t \<Rightarrow>
          (case ta_host t of
             Ip _ \<Rightarrow> Ok ()
           | Dns target_name \<Rightarrow>
               (case server_name of
                  None \<Rightarrow> Err MissingSni
                | Some name \<Rightarrow>
                    if eq_ignore_ascii_case (trim_end_matches CHR ''.'' target_name)
                         (trim_end_matches CHR ''.'' name)
                    then Ok ()
                    else Err (ProxyTargetServerNameMismatch (show_authority t) name))))"

section \<open>Flow metadata\<close>

datatype destination_address = Known socket_addr | Unknown

fun destination_socket_addr :: "destination_address \<Rightarrow> socket_addr option" where
  "destination_socket_addr (Known a) = Some a"
| "destination_socket_addr Unknown = None"

datatype transparent_protocol = PlainHttp | TlsHttp bytes

record source_process =
  sp_pid :: "nat option"
  sp_pid_version :: "nat option"
  sp_name :: "bytes option"
  sp_executable_path :: "bytes option"
  sp_application_id :: "bytes option"
  sp_entry_point :: "bytes option"
  sp_working_directory :: "bytes option"

record flow_context =
  flow_id :: nat
  peer_addr :: "socket_addr option"
  local_addr :: "socket_addr option"
  original_destination :: destination_address
  destination_host :: "bytes option"
  protocol :: transparent_protocol
  source_process :: "source_process option"
  ingress :: flow_ingress

definition validate_http_target ::
  "authority_parser \<Rightarrow> flow_context \<Rightarrow> http_request \<Rightarrow> (flow_error, unit) result" where
  "validate_http_target authority_try_from flow r =
     (case proxy_target (ingress flow) of
        None \<Rightarrow> Ok ()
      | Some target \<Rightarrow>
          if uri_scheme (req_uri r) \<noteq> None \<or> uri_authority (req_uri r) \<noteq> None
          then Err (ProxyTargetRequestForm (show_authority target))
          else case get_all (req_headers r) ''host'' of
                 [] \<Rightarrow> Err (ProxyTargetHostMismatch (show_authority target))
               | host # rest \<Rightarrow>
                   if rest \<noteq> [] then Err (ProxyTargetHostMismatch (show_authority target))
                   else
                     let default_port = (case protocol flow of PlainHttp \<Rightarrow> 80 | TlsHttp _ \<Rightarrow> 443)
                     in if (case hv_str host of
                              None \<Rightarrow> False
                            | Some h \<Rightarrow> matches_http_authority authority_try_from target h default_port)
                        then Ok ()
                        else Err (ProxyTargetHostMismatch (show_authority target)))"

section \<open>Lemmas\<close>

lemma flow_operation_parse_as_str: "flow_operation_parse (flow_operation_as_str op) = Some op"
  by (cases op) (simp_all add: flow_operation_parse_def)

lemma flow_operation_parse_sound:
  assumes "flow_operation_parse v = Some op"
  shows "v = flow_operation_as_str op"
  using map_of_SomeD [OF assms [unfolded flow_operation_parse_def]] by (auto simp del: map_of.simps)

lemma validate_tls_server_name_required:
  "\<not> requires_tls_server_name_validation i \<Longrightarrow> validate_tls_server_name i n = Ok ()"
  by (auto simp: requires_tls_server_name_validation_def validate_tls_server_name_def
      split: option.splits target_host.splits)

end
