(* ===== verification/Http1.thy ===== *)
theory Http1
  imports Flow_Types
begin

text \<open>
  \<^verbatim>\<open>crates/abyss-mitm/src/http1.rs\<close>: decoding the first HTTP/1 head of a stream. The syntax is parsed
  by \<^verbatim>\<open>httparse\<close> and validated by the \<^verbatim>\<open>http\<close> crate, which are parameters (\<open>httparse_request\<close>,
  \<open>httparse_response\<close>, \<open>http_crate\<close>); the read loop, its limits and the bookkeeping of the bytes that
  were read beyond the head are modelled here, for any byte source.
\<close>

section \<open>State\<close>

definition HEADER_READ_CHUNK_BYTES :: nat where
  "HEADER_READ_CHUNK_BYTES = 1024"

definition MAX_HTTP1_HEADER_BYTES :: nat where
  "MAX_HTTP1_HEADER_BYTES = 64 * 1024"

record head_buffer =
  hb_bytes :: bytes
  hb_head_len :: nat

definition head_bytes :: "head_buffer \<Rightarrow> bytes" where
  "head_bytes b = take (hb_head_len b) (hb_bytes b)"

definition buffered_body :: "head_buffer \<Rightarrow> bytes" where
  "buffered_body b = drop (hb_head_len b) (hb_bytes b)"

text \<open>The third-party parsers.\<close>

datatype 'a parse_status = Complete 'a | Partial

record raw_request =
  raw_method :: "bytes option"
  raw_path :: "bytes option"
  raw_version :: "nat option"
  raw_headers :: "(bytes \<times> bytes) list"

record raw_response =
  rawr_version :: "nat option"
  rawr_code :: "nat option"
  rawr_headers :: "(bytes \<times> bytes) list"

type_synonym httparse_request = "bytes \<Rightarrow> (unit, (nat \<times> raw_request) parse_status) result"
type_synonym httparse_response = "bytes \<Rightarrow> (unit, (nat \<times> raw_response) parse_status) result"

record http_crate =
  method_from_bytes :: "bytes \<Rightarrow> bytes option"
  uri_try_from :: "bytes \<Rightarrow> uri option"
  status_from_u16 :: "nat \<Rightarrow> nat option"
  header_name_from_bytes :: "bytes \<Rightarrow> bytes option"
  header_value_from_bytes :: "bytes \<Rightarrow> header_value option"
  request_builds :: "bytes \<Rightarrow> uri \<Rightarrow> bool"
  response_builds :: "nat \<Rightarrow> bool"

section \<open>Heads to structured messages\<close>

definition http_version_from_httparse :: "nat \<Rightarrow> (http1_error, http_version) result" where
  "http_version_from_httparse v =
     (if v = 0 then Ok HTTP_10
      else if v = 1 then Ok HTTP_11
      else Err (InvalidRequest ''unsupported HTTP version''))"

fun append_headers ::
  "http_crate \<Rightarrow> headers \<Rightarrow> (bytes \<times> bytes) list \<Rightarrow> (http1_error, headers) result" where
  "append_headers http hs [] = Ok hs"
| "append_headers http hs ((n, v) # parsed) =
     (case header_name_from_bytes http n of
        None \<Rightarrow> Err InvalidHeaderName
      | Some name \<Rightarrow>
          (case header_value_from_bytes http v of
             None \<Rightarrow> Err InvalidHeaderValue
           | Some val \<Rightarrow> append_headers http (header_append hs name val) parsed))"

definition parse_request_head ::
  "httparse_request \<Rightarrow> http_crate \<Rightarrow> bytes \<Rightarrow> (http1_error, (http_request \<times> nat) option) result" where
  "parse_request_head parse http buffer =
     (case parse buffer of
        Err _ \<Rightarrow> Err ParseError
      | Ok Partial \<Rightarrow> Ok None
      | Ok (Complete (head_len, raw)) \<Rightarrow>
          (case raw_method raw of
             None \<Rightarrow> Err (InvalidRequest ''missing method'')
           | Some m \<Rightarrow>
          (case method_from_bytes http m of
             None \<Rightarrow> Err InvalidMethod
           | Some meth \<Rightarrow>
          (case raw_path raw of
             None \<Rightarrow> Err (InvalidRequest ''missing request target'')
           | Some p \<Rightarrow>
          (case uri_try_from http p of
             None \<Rightarrow> Err InvalidUri
           | Some u \<Rightarrow>
          (case raw_version raw of
             None \<Rightarrow> Err (InvalidRequest ''missing HTTP version'')
           | Some v \<Rightarrow>
          (case http_version_from_httparse v of
             Err e \<Rightarrow> Err e
           | Ok version \<Rightarrow>
               if \<not> request_builds http meth u then Err BuildMessage
               else (case append_headers http [] (raw_headers raw) of
                       Err e \<Rightarrow> Err e
                     | Ok hs \<Rightarrow>
                         Ok (Some (\<lparr>req_method = meth, req_uri = u, req_version = version,
                                    req_headers = hs\<rparr>, head_len))))))))))"

definition parse_response_head ::
  "httparse_response \<Rightarrow> http_crate \<Rightarrow> bytes \<Rightarrow> (http1_error, (http_response \<times> nat) option) result" where
  "parse_response_head parse http buffer =
     (case parse buffer of
        Err _ \<Rightarrow> Err ParseError
      | Ok Partial \<Rightarrow> Ok None
      | Ok (Complete (head_len, raw)) \<Rightarrow>
          (case rawr_version raw of
             None \<Rightarrow> Err (InvalidResponse ''missing HTTP version'')
           | Some v \<Rightarrow>
          (case http_version_from_httparse v of
             Err e \<Rightarrow> Err e
           | Ok version \<Rightarrow>
          (case rawr_code raw of
             None \<Rightarrow> Err (InvalidResponse ''missing status code'')
           | Some c \<Rightarrow>
          (case status_from_u16 http c of
             None \<Rightarrow> Err InvalidStatusCode
           | Some status \<Rightarrow>
               if \<not> response_builds http status then Err BuildMessage
               else (case append_headers http [] (rawr_headers raw) of
                       Err e \<Rightarrow> Err e
                     | Ok hs \<Rightarrow>
                         Ok (Some (\<lparr>res_status = status, res_version = version,
                                    res_headers = hs\<rparr>, head_len))))))))"

section \<open>The read loop\<close>

text \<open>
  \<open>rd\<close> reads from the stream (the \<^verbatim>\<open>AsyncRead\<close> of the type parameter \<^verbatim>\<open>S\<close>). Each round reads at most
  1024 bytes, so the loop ends: either a read ends it or the buffer grows towards its limit.
\<close>

function read_http1_head ::
  "(nat \<Rightarrow> 's \<Rightarrow> (io_kind, bytes) result \<times> 's) \<Rightarrow> (bytes \<Rightarrow> (http1_error, ('t \<times> nat) option) result)
   \<Rightarrow> http1_error \<Rightarrow> bytes \<Rightarrow> 's \<Rightarrow> (http1_error, 't \<times> head_buffer) result \<times> 's" where
  "read_http1_head rd parse_head incomplete_error buffer s =
     (case rd HEADER_READ_CHUNK_BYTES s of
        (Err k, s') \<Rightarrow> (Err (Http1Io k), s')
      | (Ok chunk, s') \<Rightarrow>
          if chunk = [] then (Err incomplete_error, s')
          else
            (case parse_head (buffer @ chunk) of
               Err e \<Rightarrow> (Err e, s')
             | Ok (Some (head, head_len)) \<Rightarrow>
                 (Ok (head, \<lparr>hb_bytes = buffer @ chunk, hb_head_len = head_len\<rparr>), s')
             | Ok None \<Rightarrow>
                 if MAX_HTTP1_HEADER_BYTES \<le> length (buffer @ chunk) then (Err HeaderTooLarge, s')
                 else read_http1_head rd parse_head incomplete_error (buffer @ chunk) s'))"
  by pat_completeness auto
termination
  by (relation "measure (\<lambda>(rd, p, e, buffer, s). MAX_HTTP1_HEADER_BYTES - length buffer)")
    (auto simp: MAX_HTTP1_HEADER_BYTES_def intro!: diff_less_mono2)

declare read_http1_head.simps [simp del]

text \<open>
  The public entry points put a clock around the loop: \<open>elapsed\<close> says whether it fired first
  (\<^verbatim>\<open>tokio::time::timeout\<close> then drops the read).
\<close>

definition decode_request_head_with_timeout ::
  "(nat \<Rightarrow> 's \<Rightarrow> (io_kind, bytes) result \<times> 's) \<Rightarrow> httparse_request \<Rightarrow> http_crate \<Rightarrow> nat \<Rightarrow> bool
   \<Rightarrow> 's \<Rightarrow> (http1_error, http_request \<times> head_buffer) result \<times> 's" where
  "decode_request_head_with_timeout rd parse http timeout elapsed s =
     (if elapsed then (Err (RequestHeadTimeout timeout), s)
      else read_http1_head rd (parse_request_head parse http) IncompleteRequest [] s)"

definition decode_response_head_with_timeout ::
  "(nat \<Rightarrow> 's \<Rightarrow> (io_kind, bytes) result \<times> 's) \<Rightarrow> httparse_response \<Rightarrow> http_crate \<Rightarrow> nat \<Rightarrow> bool
   \<Rightarrow> 's \<Rightarrow> (http1_error, http_response \<times> head_buffer) result \<times> 's" where
  "decode_response_head_with_timeout rd parse http timeout elapsed s =
     (if elapsed then (Err (ResponseHeadTimeout timeout), s)
      else read_http1_head rd (parse_response_head parse http) IncompleteResponse [] s)"

section \<open>No byte is lost, and the buffer is bounded\<close>

lemma head_body_bytes: "head_bytes b @ buffered_body b = hb_bytes b"
  by (simp add: head_bytes_def buffered_body_def)

text \<open>
  For any lawful byte source: on success the buffer is what was read and the rest of the content
  is still in the stream; the buffer exceeds the limit by less than one chunk.
\<close>

context byte_source
begin

lemma read_http1_head_content:
  assumes "invar s"
    and "read_http1_head rd parse_head inc buffer s = (Ok (h, hb), s')"
  shows "buffer @ content s = hb_bytes hb @ content s' \<and> invar s'
    \<and> parse_head (hb_bytes hb) = Ok (Some (h, hb_head_len hb))"
  using assms
proof (induction "MAX_HTTP1_HEADER_BYTES - length buffer" arbitrary: buffer s rule: less_induct)
  case less
  from less.prems(2) obtain chunk s1 where r: "rd HEADER_READ_CHUNK_BYTES s = (Ok chunk, s1)"
    and ne: "chunk \<noteq> []"
    by (subst (asm) read_http1_head.simps) (auto split: prod.splits sum.splits if_splits)
  note c = rd_data [OF less.prems(1) r ne] rd_invar [OF less.prems(1) r]
  consider (finish) "hb_bytes hb = buffer @ chunk" "s' = s1"
      "parse_head (buffer @ chunk) = Ok (Some (h, hb_head_len hb))"
    | (again) "length (buffer @ chunk) < MAX_HTTP1_HEADER_BYTES"
      "read_http1_head rd parse_head inc (buffer @ chunk) s1 = (Ok (h, hb), s')"
    using less.prems(2) r ne
    by (subst (asm) read_http1_head.simps) (auto split: sum.splits option.splits if_splits)
  then show ?case
  proof cases
    case finish
    with c show ?thesis by simp
  next
    case again
    have "MAX_HTTP1_HEADER_BYTES - length (buffer @ chunk) < MAX_HTTP1_HEADER_BYTES - length buffer"
      using again(1) ne by (intro diff_less_mono2) auto
    from less.hyps [OF this c(2) again(2)] c show ?thesis by simp
  qed
qed

lemma read_http1_head_bound:
  assumes "invar s" and "length buffer < MAX_HTTP1_HEADER_BYTES"
    and "read_http1_head rd parse_head inc buffer s = (Ok (h, hb), s')"
  shows "length (hb_bytes hb) < MAX_HTTP1_HEADER_BYTES + HEADER_READ_CHUNK_BYTES"
  using assms
proof (induction "MAX_HTTP1_HEADER_BYTES - length buffer" arbitrary: buffer s rule: less_induct)
  case less
  from less.prems(3) obtain chunk s1 where r: "rd HEADER_READ_CHUNK_BYTES s = (Ok chunk, s1)"
    and ne: "chunk \<noteq> []"
    by (subst (asm) read_http1_head.simps) (auto split: prod.splits sum.splits if_splits)
  note c = rd_data [OF less.prems(1) r ne] rd_invar [OF less.prems(1) r]
  consider (finish) "hb_bytes hb = buffer @ chunk"
    | (again) "length (buffer @ chunk) < MAX_HTTP1_HEADER_BYTES"
      "read_http1_head rd parse_head inc (buffer @ chunk) s1 = (Ok (h, hb), s')"
    using less.prems(3) r ne
    by (subst (asm) read_http1_head.simps) (auto split: sum.splits option.splits if_splits)
  then show ?case
  proof cases
    case finish
    with c less.prems(2) show ?thesis by simp
  next
    case again
    have "MAX_HTTP1_HEADER_BYTES - length (buffer @ chunk) < MAX_HTTP1_HEADER_BYTES - length buffer"
      using again(1) ne by (intro diff_less_mono2) auto
    from less.hyps [OF this c(2) again(1,2)] show ?thesis .
  qed
qed

end

lemma MAX_HTTP1_HEADER_BYTES_pos [simp]: "0 < MAX_HTTP1_HEADER_BYTES"
  by (simp add: MAX_HTTP1_HEADER_BYTES_def)

section \<open>Appending parsed headers\<close>

lemma append_headers_fold:
  assumes "append_headers http hs parsed = Ok hs'"
  shows "\<exists>es. hs' = fold (\<lambda>(n, v) m. header_append m n v) es hs
     \<and> list_all2 (\<lambda>e (n, v). header_name_from_bytes http n = Some (fst e)
         \<and> header_value_from_bytes http v = Some (snd e)) es parsed"
  using assms
proof (induction http hs parsed rule: append_headers.induct)
  case (1 http hs)
  then show ?case by (intro exI [of _ "[]"]) simp
next
  case (2 http hs n v parsed)
  from "2.prems" obtain name val where nv: "header_name_from_bytes http n = Some name"
    "header_value_from_bytes http v = Some val"
    "append_headers http (header_append hs name val) parsed = Ok hs'"
    by (auto split: option.splits)
  from "2.IH" [OF nv] obtain es where
    "hs' = fold (\<lambda>(n, v) m. header_append m n v) es (header_append hs name val)"
    "list_all2 (\<lambda>e (n, v). header_name_from_bytes http n = Some (fst e)
       \<and> header_value_from_bytes http v = Some (snd e)) es parsed"
    by blast
  with nv show ?case by (intro exI [of _ "(name, val) # es"]) simp
qed

end
