(* ===== verification/Captured_Body.thy ===== *)
theory Captured_Body
  imports Http1
begin

text \<open>
  \<^verbatim>\<open>transparent/body.rs\<close> and the capture helpers of \<^verbatim>\<open>transparent/relay.rs\<close>: the bounded copy of a
  body that hooks see, beside the bytes that are relayed. \<open>json_from_slice\<close> stands for
  \<^verbatim>\<open>serde_json::from_slice\<close>; its values are of an arbitrary type.
\<close>

section \<open>The captured body\<close>

datatype body_decoding_status =
    Pending | DecodingComplete | DecodingTruncated | UnsupportedEncoding | InvalidEncoding
  | UnsupportedTransferEncoding | DecodingInvalidData | BudgetExceeded

definition DEFAULT_MAX_HTTP1_BODY_BYTES :: nat where
  "DEFAULT_MAX_HTTP1_BODY_BYTES = 16777216"

record 'j captured_body =
  raw_bytes :: bytes
  raw_truncated :: bool
  decode_limit :: nat
  cb_status :: body_decoding_status
  cb_bytes :: bytes
  cb_truncated :: bool
  cb_json :: "'j option"

type_synonym 'j json_parser = "bytes \<Rightarrow> 'j option"

definition position :: "('a \<Rightarrow> bool) \<Rightarrow> 'a list \<Rightarrow> nat option" where
  "position P xs = (if list_ex P xs then Some (length (takeWhile (\<lambda>x. \<not> P x) xs)) else None)"

definition rposition :: "('a \<Rightarrow> bool) \<Rightarrow> 'a list \<Rightarrow> nat option" where
  "rposition P xs = map_option (\<lambda>i. length xs - 1 - i) (position P (rev xs))"

definition trim_ascii_whitespace :: "bytes \<Rightarrow> bytes" where
  "trim_ascii_whitespace bs =
     (let leading = (case position (\<lambda>c. \<not> is_ascii_whitespace c) bs of
                       None \<Rightarrow> length bs | Some i \<Rightarrow> i);
          trailing = (case rposition (\<lambda>c. \<not> is_ascii_whitespace c) bs of
                       None \<Rightarrow> leading | Some i \<Rightarrow> i + 1)
      in drop leading (take trailing bs))"

definition parse_json_body :: "'j json_parser \<Rightarrow> bytes \<Rightarrow> 'j option" where
  "parse_json_body json_from_slice bs =
     (let trimmed = trim_ascii_whitespace bs
      in if take 1 trimmed = [CHR 0x7B] \<or> take 1 trimmed = ''['' then json_from_slice trimmed
         else None)"

definition captured_from_bytes :: "'j json_parser \<Rightarrow> bytes \<Rightarrow> 'j captured_body" where
  "captured_from_bytes js bs =
     \<lparr>raw_bytes = bs, raw_truncated = False, decode_limit = DEFAULT_MAX_HTTP1_BODY_BYTES,
      cb_status = DecodingComplete, cb_bytes = bs, cb_truncated = False,
      cb_json = parse_json_body js bs\<rparr>"

definition captured_from_truncated_bytes :: "'j json_parser \<Rightarrow> bytes \<Rightarrow> 'j captured_body" where
  "captured_from_truncated_bytes js bs =
     \<lparr>raw_bytes = bs, raw_truncated = True, decode_limit = DEFAULT_MAX_HTTP1_BODY_BYTES,
      cb_status = DecodingTruncated, cb_bytes = bs, cb_truncated = True,
      cb_json = parse_json_body js bs\<rparr>"

definition with_decode_limit :: "'j captured_body \<Rightarrow> nat \<Rightarrow> 'j captured_body" where
  "with_decode_limit b limit = b\<lparr>decode_limit := limit\<rparr>"

definition set_decoded ::
  "'j json_parser \<Rightarrow> bytes \<Rightarrow> body_decoding_status \<Rightarrow> 'j captured_body \<Rightarrow> 'j captured_body" where
  "set_decoded js bs status b =
     b\<lparr>cb_json := (if status = DecodingComplete \<or> status = DecodingTruncated
                    then parse_json_body js bs else None),
       cb_bytes := bs,
       cb_status := status,
       cb_truncated := (status \<noteq> DecodingComplete)\<rparr>"

text \<open>
  What every captured body keeps: the observation is flagged incomplete exactly when its decoding
  status is not complete, and a JSON view belongs to the decoded bytes.
\<close>

definition captured_ok :: "'j json_parser \<Rightarrow> 'j captured_body \<Rightarrow> bool" where
  "captured_ok js b \<longleftrightarrow>
     (cb_truncated b \<longleftrightarrow> cb_status b \<noteq> DecodingComplete)
     \<and> (\<forall>j. cb_json b = Some j \<longrightarrow> parse_json_body js (cb_bytes b) = Some j)"

lemma captured_ok_intros:
  "captured_ok js (captured_from_bytes js bs)"
  "captured_ok js (captured_from_truncated_bytes js bs)"
  "captured_ok js b \<Longrightarrow> captured_ok js (with_decode_limit b n)"
  "captured_ok js (set_decoded js bs status b)"
  by (auto simp: captured_ok_def captured_from_bytes_def captured_from_truncated_bytes_def
      with_decode_limit_def set_decoded_def)

lemma set_decoded_fields [simp]:
  "raw_bytes (set_decoded js bs st b) = raw_bytes b"
  "cb_bytes (set_decoded js bs st b) = bs"
  "cb_status (set_decoded js bs st b) = st"
  "raw_truncated (set_decoded js bs st b) = raw_truncated b"
  "decode_limit (set_decoded js bs st b) = decode_limit b"
  by (simp_all add: set_decoded_def)

section \<open>Bounded capture\<close>

text \<open>
  \<^verbatim>\<open>append_body_for_capture\<close>: the growing body and the flag that says whether everything so far fits.
  The \<^verbatim>\<open>checked_add\<close> of the lengths is at the width of \<^verbatim>\<open>usize\<close>.
\<close>

definition append_body_for_capture :: "bytes \<times> bool \<Rightarrow> bytes \<Rightarrow> nat \<Rightarrow> bytes \<times> bool" where
  "append_body_for_capture st bs max_body_bytes =
     (case st of (body, capture_body) \<Rightarrow>
        if \<not> capture_body then (body, capture_body)
        else if usize_max < length body + length bs then (body, False)
        else if max_body_bytes < length body + length bs then
          let remaining = max_body_bytes - length body
          in (if 0 < remaining then body @ take (min remaining (length bs)) bs else body, False)
        else (body @ bs, capture_body))"

definition captured_body_from :: "'j json_parser \<Rightarrow> bytes \<times> bool \<Rightarrow> nat \<Rightarrow> 'j captured_body" where
  "captured_body_from js st max_body_bytes =
     with_decode_limit
       (if snd st then captured_from_bytes js (fst st) else captured_from_truncated_bytes js (fst st))
       max_body_bytes"

definition initial_body_capture_capacity :: "nat \<Rightarrow> nat \<Rightarrow> nat" where
  "initial_body_capture_capacity len max_body_bytes =
     min (min len max_body_bytes) (1024 * 1024)"

text \<open>
  The contract of a capture: a state that depends only on the bytes seen so far, however they
  were cut into pieces.
\<close>

locale body_sink =
  fixes start :: 's
    and push :: "'s \<Rightarrow> bytes \<Rightarrow> 's"
    and seen :: "bytes \<Rightarrow> 's"
    and bound :: nat
  assumes seen_Nil: "seen [] = start"
    and push_seen: "length d + length bs \<le> bound \<Longrightarrow> push (seen d) bs = seen (d @ bs)"
begin

lemma foldl_push:
  "length d + length (concat ps) \<le> bound \<Longrightarrow> foldl push (seen d) ps = seen (d @ concat ps)"
proof (induction ps arbitrary: d)
  case (Cons p ps)
  then have "push (seen d) p = seen (d @ p)" by (intro push_seen) simp
  with Cons show ?case by simp
qed simp

lemma pieces_irrelevant:
  assumes "concat ps = concat qs" and "length (concat ps) \<le> bound"
  shows "foldl push start ps = foldl push start qs"
  using foldl_push [of "[]" ps] foldl_push [of "[]" qs] assms by (simp add: seen_Nil)

end

definition capture_of :: "nat \<Rightarrow> bytes \<Rightarrow> bytes \<times> bool" where
  "capture_of max_body_bytes d = (take max_body_bytes d, length d \<le> max_body_bytes)"

lemma capture_of_Nil [simp]: "capture_of m [] = ([], True)"
  by (simp add: capture_of_def)

lemma append_body_capture_of:
  "length d + length bs \<le> usize_max \<Longrightarrow>
     append_body_for_capture (capture_of m d) bs m = capture_of m (d @ bs)"
  by (auto simp: append_body_for_capture_def capture_of_def Let_def min_def)

interpretation body_capture:
  body_sink "([], True)" "\<lambda>st bs. append_body_for_capture st bs m" "capture_of m" usize_max
  for m
  by unfold_locales (simp_all add: append_body_capture_of)

lemma captured_body_fields [simp]:
  "raw_bytes (captured_body_from js st m) = fst st"
  "cb_bytes (captured_body_from js st m) = fst st"
  "raw_truncated (captured_body_from js st m) = (\<not> snd st)"
  "cb_truncated (captured_body_from js st m) = (\<not> snd st)"
  "decode_limit (captured_body_from js st m) = m"
  "cb_status (captured_body_from js st m) = (if snd st then DecodingComplete else DecodingTruncated)"
  "cb_json (captured_body_from js st m) = parse_json_body js (fst st)"
  by (simp_all add: captured_body_from_def with_decode_limit_def captured_from_bytes_def
      captured_from_truncated_bytes_def)

lemma captured_body_ok: "captured_ok js (captured_body_from js st m)"
  by (simp add: captured_body_from_def captured_ok_intros)

end
