(* ===== verification/Chunked_Body.thy ===== *)
theory Chunked_Body
  imports Captured_Body
begin

text \<open>
  \<^verbatim>\<open>ChunkedBodyCapture\<close> of \<^verbatim>\<open>transparent/relay.rs\<close>: the incremental decoder that follows a chunked
  body while its raw bytes are relayed. The chunk-size line is parsed by
  \<^verbatim>\<open>httparse::parse_chunk_size\<close>, the parameter \<open>parse_chunk_size\<close>; \<open>chunk_size_laws\<close> states what the
  decoder relies on of it.
\<close>

section \<open>State\<close>

datatype body_direction = Request | Response

fun body_read_operation :: "body_direction \<Rightarrow> flow_operation" where
  "body_read_operation Request = ReadAgentRequestBody"
| "body_read_operation Response = ReadProviderResponseBody"

fun body_forward_operation :: "body_direction \<Rightarrow> flow_operation" where
  "body_forward_operation Request = WriteProviderRequestBody"
| "body_forward_operation Response = WriteAgentResponseBody"

fun body_http1_operation :: "body_direction \<Rightarrow> flow_operation" where
  "body_http1_operation Request = ReadAgentRequestBody"
| "body_http1_operation Response = ReadProviderResponseBody"

text \<open>\<^verbatim>\<open>BodyCapture\<close>: the hook view, the relayed byte count, and a late agent write error.\<close>

record 'j body_capture =
  bc_body :: "'j captured_body"
  forwarded_bytes :: u64
  agent_write_error :: "flow_error option"

datatype chunked_parse_state = Size | Data nat | DataTerminator | Trailers

record chunked_body_capture =
  ck_state :: chunked_parse_state
  pending :: bytes
  ck_body :: bytes
  ck_capture :: bool
  ck_forwarded :: u64
  ck_direction :: body_direction

type_synonym chunk_size_parser = "bytes \<Rightarrow> (unit, (nat \<times> nat) parse_status) result"

section \<open>Operations\<close>

definition usize_to_u64 :: "nat \<Rightarrow> (flow_error, u64) result" where
  "usize_to_u64 n = (if n < 2 ^ 64 then Ok (of_nat n) else Err ByteCountOverflow)"

definition add_len :: "u64 \<Rightarrow> u64 \<Rightarrow> (flow_error, u64) result" where
  "add_len a b = (case checked_add a b of None \<Rightarrow> Err ByteCountOverflow | Some c \<Rightarrow> Ok c)"

text \<open>\<^verbatim>\<open>add_len(counter, usize_to_u64(len)?)?\<close>, as every counter of the relay is advanced.\<close>

definition count_bytes :: "u64 \<Rightarrow> nat \<Rightarrow> (flow_error, u64) result" where
  "count_bytes counter len =
     (case usize_to_u64 len of Err e \<Rightarrow> Err e | Ok n \<Rightarrow> add_len counter n)"

definition chunked_new :: "body_direction \<Rightarrow> chunked_body_capture" where
  "chunked_new direction =
     \<lparr>ck_state = Size, pending = [], ck_body = [], ck_capture = True, ck_forwarded = 0,
      ck_direction = direction\<rparr>"

definition chunked_error :: "chunked_body_capture \<Rightarrow> http1_error \<Rightarrow> (flow_error, 'a) result" where
  "chunked_error c e = Err (Http1 (body_http1_operation (ck_direction c)) e)"

definition reject_pipelined_bytes :: "chunked_body_capture \<Rightarrow> (flow_error, unit) result" where
  "reject_pipelined_bytes c =
     (if pending c = [] then Ok ()
      else chunked_error c (UnsupportedBody ''pipelined HTTP/1 bytes''))"

definition chunked_finish ::
  "'j json_parser \<Rightarrow> nat \<Rightarrow> chunked_body_capture \<Rightarrow> 'j body_capture \<times> chunked_body_capture" where
  "chunked_finish js max_body_bytes c =
     (\<lparr>bc_body = captured_body_from js (ck_body c, ck_capture c) max_body_bytes,
       forwarded_bytes = ck_forwarded c, agent_write_error = None\<rparr>,
      c\<lparr>ck_body := []\<rparr>)"

text \<open>Draining the trailer section: nothing may follow it.\<close>

definition chunked_end ::
  "'j json_parser \<Rightarrow> nat \<Rightarrow> nat \<Rightarrow> chunked_body_capture
   \<Rightarrow> (flow_error, 'j body_capture option) result \<times> chunked_body_capture" where
  "chunked_end js max_body_bytes trailer_end c =
     (let c' = c\<lparr>pending := drop trailer_end (pending c)\<rparr>
      in case reject_pipelined_bytes c' of
           Err e \<Rightarrow> (Err e, c')
         | Ok _ \<Rightarrow> (case chunked_finish js max_body_bytes c' of (cap, c'') \<Rightarrow> (Ok (Some cap), c'')))"

text \<open>
  The transition loop of \<^verbatim>\<open>feed\<close>. Every round drains pending bytes or moves to a state with a
  smaller rank, so it ends whatever the size parser answers.
\<close>

fun state_rank :: "chunked_parse_state \<Rightarrow> nat" where
  "state_rank Size = 2"
| "state_rank (Data n) = 1"
| "state_rank DataTerminator = 0"
| "state_rank Trailers = 0"

definition chunked_measure :: "chunked_body_capture \<Rightarrow> nat" where
  "chunked_measure c = 3 * length (pending c) + state_rank (ck_state c)"

function feed_loop ::
  "chunk_size_parser \<Rightarrow> 'j json_parser \<Rightarrow> nat \<Rightarrow> chunked_body_capture
   \<Rightarrow> (flow_error, 'j body_capture option) result \<times> chunked_body_capture" where
  "feed_loop parse_chunk_size js max_body_bytes c =
     (case ck_state c of
        Size \<Rightarrow>
          (case parse_chunk_size (pending c) of
             Err _ \<Rightarrow> (chunked_error c (InvalidBody ''invalid chunk size''), c)
           | Ok Partial \<Rightarrow>
               if MAX_HTTP1_HEADER_BYTES < length (pending c) then (chunked_error c HeaderTooLarge, c)
               else (Ok None, c)
           | Ok (Complete (size_line_len, chunk_size)) \<Rightarrow>
               if MAX_HTTP1_HEADER_BYTES < size_line_len then (chunked_error c HeaderTooLarge, c)
               else if usize_max < chunk_size then (chunked_error c (BodyTooLarge max_body_bytes), c)
               else feed_loop parse_chunk_size js max_body_bytes
                      (c\<lparr>ck_state := (if chunk_size = 0 then Trailers else Data chunk_size),
                         pending := drop size_line_len (pending c)\<rparr>))
      | Data remaining \<Rightarrow>
          if pending c = [] then (Ok None, c)
          else
            let payload_len = min remaining (length (pending c));
                captured = append_body_for_capture (ck_body c, ck_capture c)
                  (take payload_len (pending c)) max_body_bytes
            in feed_loop parse_chunk_size js max_body_bytes
                 (c\<lparr>ck_body := fst captured, ck_capture := snd captured,
                    ck_state := (if remaining - payload_len = 0 then DataTerminator
                                 else Data (remaining - payload_len)),
                    pending := drop payload_len (pending c)\<rparr>)
      | DataTerminator \<Rightarrow>
          if length (pending c) < 2 then (Ok None, c)
          else if take 2 (pending c) \<noteq> CRLF
          then (chunked_error c (InvalidBody ''chunk data missing terminator''), c)
          else feed_loop parse_chunk_size js max_body_bytes
                 (c\<lparr>ck_state := Size, pending := drop 2 (pending c)\<rparr>)
      | Trailers \<Rightarrow>
          if length (pending c) < 2 then (Ok None, c)
          else if take 2 (pending c) = CRLF then chunked_end js max_body_bytes 2 c
          else if MAX_HTTP1_HEADER_BYTES < length (pending c) then (chunked_error c HeaderTooLarge, c)
          else (case window_position (CRLF @ CRLF) (pending c) of
                  None \<Rightarrow> (Ok None, c)
                | Some relative_end \<Rightarrow>
                    if usize_max < relative_end + 4 then (Err ByteCountOverflow, c)
                    else chunked_end js max_body_bytes (relative_end + 4) c))"
  by pat_completeness auto
termination
proof (relation "measure (\<lambda>(p, js, m, c). chunked_measure c)", goal_cases)
  case (3 p js m c remaining payload_len captured)
  then show ?case by (cases "remaining = 0") (auto simp: chunked_measure_def min_def)
qed (auto simp: chunked_measure_def)

declare feed_loop.simps [simp del]

definition feed ::
  "chunk_size_parser \<Rightarrow> 'j json_parser \<Rightarrow> nat \<Rightarrow> chunked_body_capture \<Rightarrow> bytes
   \<Rightarrow> (flow_error, 'j body_capture option) result \<times> chunked_body_capture" where
  "feed parse_chunk_size js max_body_bytes c bs =
     (case count_bytes (ck_forwarded c) (length bs) of
        Err e \<Rightarrow> (Err e, c)
      | Ok n \<Rightarrow> feed_loop parse_chunk_size js max_body_bytes
                  (c\<lparr>ck_forwarded := n, pending := pending c @ bs\<rparr>))"

section \<open>Counters\<close>

lemma count_bytes_ok: "count_bytes a n = Ok b \<longleftrightarrow> unat b = unat a + n"
proof -
  have "unat b < 2 ^ 64" using unsigned_less [of b] by simp
  then show ?thesis
    by (auto simp: count_bytes_def usize_to_u64_def add_len_def checked_add_Some checked_add_None
        unat_of_nat_u64 word_unat_eq_iff split: option.splits)
qed

lemma count_bytes_fits: "unat a + n < 2 ^ 64 \<Longrightarrow> \<exists>b. count_bytes a n = Ok b"
  by (intro exI [of _ "of_nat (unat a + n)"]) (simp add: count_bytes_ok unat_of_nat_u64 del: of_nat_add)

lemma count_bytes_err: "count_bytes a n = Err e \<longleftrightarrow> e = ByteCountOverflow \<and> 2 ^ 64 \<le> unat a + n"
proof (cases "unat a + n < 2 ^ 64")
  case True
  with count_bytes_fits [OF True] show ?thesis by auto
next
  case False
  then show ?thesis
    by (auto simp: count_bytes_def usize_to_u64_def add_len_def checked_add_None checked_add_Some
        unat_of_nat_u64 split: option.splits)
      (metis u64_lt)
qed

section \<open>The chunk-size parser\<close>

text \<open>
  What the decoder relies on of \<^verbatim>\<open>httparse::parse_chunk_size\<close>, as its documentation states it: a
  complete result carries the index at which parsing stopped and does not change when more bytes
  follow; an error is final; \<^verbatim>\<open>Partial\<close> means that the line ends beyond the bytes seen so far; and a
  line of hexadecimal digits ended by CR LF has its value.
\<close>

definition chunk_size_laws :: "chunk_size_parser \<Rightarrow> bool" where
  "chunk_size_laws p \<longleftrightarrow>
     (\<forall>s l n t. p s = Ok (Complete (l, n)) \<longrightarrow> l \<le> length s \<and> p (s @ t) = Ok (Complete (l, n)))
     \<and> (\<forall>s e t. p s = Err e \<longrightarrow> p (s @ t) = Err e)
     \<and> (\<forall>s t l n. p s = Ok Partial \<longrightarrow> p (s @ t) = Ok (Complete (l, n)) \<longrightarrow> length s < l)
     \<and> (\<forall>n t. n \<le> usize_max \<longrightarrow>
          p (show_hex n @ CRLF @ t) = Ok (Complete (length (show_hex n) + 2, n)))"

lemma chunk_size_lawsD:
  assumes "chunk_size_laws p"
  shows "p s = Ok (Complete (l, n)) \<Longrightarrow> l \<le> length s"
    and "p s = Ok (Complete (l, n)) \<Longrightarrow> p (s @ t) = Ok (Complete (l, n))"
    and "p s = Err e \<Longrightarrow> p (s @ t) = Err e"
    and "p s = Ok Partial \<Longrightarrow> p (s @ t) = Ok (Complete (l, n)) \<Longrightarrow> length s < l"
    and "n \<le> usize_max \<Longrightarrow>
      p (show_hex n @ CRLF @ t) = Ok (Complete (length (show_hex n) + 2, n))"
  using assms unfolding chunk_size_laws_def by blast+

section \<open>One round of the loop\<close>

lemma feed_loop_Size:
  "ck_state c = Size \<Longrightarrow> feed_loop p js m c =
     (case p (pending c) of
        Err _ \<Rightarrow> (chunked_error c (InvalidBody ''invalid chunk size''), c)
      | Ok Partial \<Rightarrow>
          if MAX_HTTP1_HEADER_BYTES < length (pending c) then (chunked_error c HeaderTooLarge, c)
          else (Ok None, c)
      | Ok (Complete (l, n)) \<Rightarrow>
          if MAX_HTTP1_HEADER_BYTES < l then (chunked_error c HeaderTooLarge, c)
          else if usize_max < n then (chunked_error c (BodyTooLarge m), c)
          else feed_loop p js m (c\<lparr>ck_state := (if n = 0 then Trailers else Data n),
                 pending := drop l (pending c)\<rparr>))"
  by (subst feed_loop.simps) simp

lemma feed_loop_Data:
  "ck_state c = Data r \<Longrightarrow> pending c \<noteq> [] \<Longrightarrow> k = min r (length (pending c)) \<Longrightarrow>
   append_body_for_capture (ck_body c, ck_capture c) (take k (pending c)) m = (b, f) \<Longrightarrow>
   feed_loop p js m c = feed_loop p js m
     (c\<lparr>ck_body := b, ck_capture := f,
        ck_state := (if r - k = 0 then DataTerminator else Data (r - k)),
        pending := drop k (pending c)\<rparr>)"
  by (subst feed_loop.simps) (simp add: Let_def)

lemma feed_loop_Data_Nil: "ck_state c = Data r \<Longrightarrow> pending c = [] \<Longrightarrow> feed_loop p js m c = (Ok None, c)"
  by (subst feed_loop.simps) simp

lemma feed_loop_DataTerminator:
  "ck_state c = DataTerminator \<Longrightarrow> feed_loop p js m c =
     (if length (pending c) < 2 then (Ok None, c)
      else if take 2 (pending c) \<noteq> CRLF
      then (chunked_error c (InvalidBody ''chunk data missing terminator''), c)
      else feed_loop p js m (c\<lparr>ck_state := Size, pending := drop 2 (pending c)\<rparr>))"
  by (subst feed_loop.simps) simp

lemma feed_loop_Trailers:
  "ck_state c = Trailers \<Longrightarrow> feed_loop p js m c =
     (if length (pending c) < 2 then (Ok None, c)
      else if take 2 (pending c) = CRLF then chunked_end js m 2 c
      else if MAX_HTTP1_HEADER_BYTES < length (pending c) then (chunked_error c HeaderTooLarge, c)
      else (case window_position (CRLF @ CRLF) (pending c) of
              None \<Rightarrow> (Ok None, c)
            | Some i \<Rightarrow> if usize_max < i + 4 then (Err ByteCountOverflow, c)
                        else chunked_end js m (i + 4) c))"
  by (subst feed_loop.simps) simp

lemma chunked_error_Err [simp]: "chunked_error c e \<noteq> Ok x"
  by (simp add: chunked_error_def)

lemma chunked_end_not_None [simp]: "chunked_end js m i c \<noteq> (Ok None, c')"
  by (simp add: chunked_end_def chunked_finish_def Let_def split: sum.split)

section \<open>Segmentation\<close>

text \<open>
  The link between the decoder's state and the payload \<open>d\<close> it has decoded so far. All bytes it
  holds were counted before.
\<close>

definition chunked_inv :: "nat \<Rightarrow> bytes \<Rightarrow> chunked_body_capture \<Rightarrow> bool" where
  "chunked_inv m d c \<longleftrightarrow>
     (ck_body c, ck_capture c) = capture_of m d
     \<and> length d + length (pending c) \<le> unat (ck_forwarded c)"

lemma chunked_inv_new: "chunked_inv m [] (chunked_new dir)"
  by (simp add: chunked_inv_def chunked_new_def)

lemma chunked_inv_drop:
  "chunked_inv m d c \<Longrightarrow> chunked_inv m d (c\<lparr>ck_state := st, pending := drop l (pending c)\<rparr>)"
  by (auto simp: chunked_inv_def)

lemma chunked_inv_capture:
  assumes "chunked_inv m d c"
  shows "append_body_for_capture (ck_body c, ck_capture c) (take k (pending c)) m
    = capture_of m (d @ take k (pending c))"
proof -
  have "length d + length (take k (pending c)) \<le> usize_max"
    using assms u64_lt [of "ck_forwarded c"] by (auto simp: chunked_inv_def usize_max_def)
  with assms show ?thesis by (simp add: chunked_inv_def append_body_capture_of)
qed

lemma chunked_inv_take:
  assumes "chunked_inv m d c"
  shows "chunked_inv m (d @ take k (pending c))
    (c\<lparr>ck_body := fst (capture_of m (d @ take k (pending c))),
       ck_capture := snd (capture_of m (d @ take k (pending c))),
       ck_state := st, pending := drop k (pending c)\<rparr>)"
  using assms by (auto simp: chunked_inv_def min_def)

text \<open>One round in the data state, in terms of the decoded payload.\<close>

definition data_step :: "nat \<Rightarrow> nat \<Rightarrow> bytes \<Rightarrow> chunked_body_capture \<Rightarrow> chunked_body_capture" where
  "data_step m r d c =
     (let k = min r (length (pending c)); captured = capture_of m (d @ take k (pending c))
      in c\<lparr>ck_body := fst captured, ck_capture := snd captured,
           ck_state := (if r - k = 0 then DataTerminator else Data (r - k)),
           pending := drop k (pending c)\<rparr>)"

lemma feed_loop_data_step:
  "chunked_inv m d c \<Longrightarrow> ck_state c = Data r \<Longrightarrow> pending c \<noteq> [] \<Longrightarrow>
   feed_loop p js m c = feed_loop p js m (data_step m r d c)"
  by (subst feed_loop_Data) (auto simp: chunked_inv_capture data_step_def Let_def prod_eq_iff)

lemma chunked_inv_data_step:
  "chunked_inv m d c \<Longrightarrow> chunked_inv m (d @ take (min r (length (pending c))) (pending c)) (data_step m r d c)"
  unfolding data_step_def Let_def by (rule chunked_inv_take)

lemma data_step_measure:
  "ck_state c = Data r \<Longrightarrow> pending c \<noteq> [] \<Longrightarrow> chunked_measure (data_step m r d c) < chunked_measure c"
  by (cases r; cases "pending c") (auto simp: data_step_def Let_def chunked_measure_def min_def)

lemma data_step_frame [simp]:
  "ck_forwarded (data_step m r d c) = ck_forwarded c" "ck_direction (data_step m r d c) = ck_direction c"
  by (simp_all add: data_step_def Let_def)

lemma chunked_inv_shorter:
  "chunked_inv m d (c\<lparr>pending := s @ t\<rparr>) \<Longrightarrow> pending c = s \<Longrightarrow> chunked_inv m d c"
  by (auto simp: chunked_inv_def)

lemma data_step_enough:
  "r \<le> length (pending c) \<Longrightarrow> data_step m r d (c\<lparr>pending := pending c @ t\<rparr>)
     = (data_step m r d c)\<lparr>pending := pending (data_step m r d c) @ t\<rparr>"
  by (simp add: data_step_def Let_def)

lemma data_step_twice:
  "length (pending c) < r \<Longrightarrow> data_step m r d (c\<lparr>pending := pending c @ t\<rparr>)
     = data_step m (r - length (pending c)) (d @ pending c) ((data_step m r d c)\<lparr>pending := t\<rparr>)"
  by (auto simp: data_step_def Let_def min_def)

lemma feed_loop_data_split:
  assumes inv: "chunked_inv m d (c\<lparr>pending := pending c @ t\<rparr>)" and Data: "ck_state c = Data r"
    and short: "length (pending c) < r"
  shows "feed_loop p js m (c\<lparr>pending := pending c @ t\<rparr>)
    = feed_loop p js m ((data_step m r d c)\<lparr>pending := t\<rparr>)"
proof (cases "t = []")
  case True
  note inv0 = chunked_inv_shorter [OF inv refl]
  show ?thesis
  proof (cases "pending c = []")
    case True
    then have "data_step m r d c = c"
      using inv0 Data short
      by (cases c) (auto simp: chunked_inv_def data_step_def Let_def prod_eq_iff)
    with True \<open>t = []\<close> show ?thesis by simp
  next
    case False
    with \<open>t = []\<close> feed_loop_data_step [OF inv0 Data False] show ?thesis
      using short by (simp add: data_step_def Let_def)
  qed
next
  case False
  have inv1: "chunked_inv m (d @ pending c) ((data_step m r d c)\<lparr>pending := t\<rparr>)"
    using inv short by (auto simp: chunked_inv_def data_step_def Let_def)
  have "feed_loop p js m (c\<lparr>pending := pending c @ t\<rparr>)
      = feed_loop p js m (data_step m r d (c\<lparr>pending := pending c @ t\<rparr>))"
    by (rule feed_loop_data_step [OF inv]) (use Data False in simp_all)
  also have "\<dots> = feed_loop p js m ((data_step m r d c)\<lparr>pending := t\<rparr>)"
    unfolding data_step_twice [OF short]
    by (rule feed_loop_data_step [OF inv1, symmetric])
      (use False short in \<open>auto simp: data_step_def Let_def\<close>)
  finally show ?thesis .
qed

lemma feed_loop_data_resume:
  assumes inv: "chunked_inv m d (c\<lparr>pending := pending c @ t\<rparr>)" and Data: "ck_state c = Data r"
    and short: "length (pending c) < r" and ret: "feed_loop p js m c = (Ok None, c')"
    and ne: "pending c \<noteq> []"
  shows "feed_loop p js m (c\<lparr>pending := pending c @ t\<rparr>) = feed_loop p js m (c'\<lparr>pending := pending c' @ t\<rparr>)
    \<and> (\<exists>d'. chunked_inv m d' (c'\<lparr>pending := pending c' @ t\<rparr>))
    \<and> ck_forwarded c' = ck_forwarded c \<and> ck_direction c' = ck_direction c"
proof -
  let ?c1 = "data_step m r d c"
  have "ck_state ?c1 = Data (r - length (pending c))" "pending ?c1 = []"
    using short by (simp_all add: data_step_def Let_def)
  then have "c' = ?c1" "pending ?c1 = []"
    using ret feed_loop_data_step [OF chunked_inv_shorter [OF inv refl] Data ne, of p js]
    by (simp_all add: feed_loop_Data_Nil)
  moreover have "\<exists>d'. chunked_inv m d' (?c1\<lparr>pending := t\<rparr>)"
    using inv short
    by (intro exI [of _ "d @ pending c"]) (auto simp: chunked_inv_def data_step_def Let_def)
  ultimately show ?thesis
    using feed_loop_data_split [OF inv Data short] by simp
qed

text \<open>
  If the loop asks for more bytes, it stops in a state from which the remaining bytes have the
  same effect as if they had been there from the beginning.
\<close>

lemma feed_loop_append:
  assumes laws: "chunk_size_laws p"
    and "feed_loop p js m c = (Ok None, c')" and "chunked_inv m d (c\<lparr>pending := pending c @ t\<rparr>)"
  shows "feed_loop p js m (c\<lparr>pending := pending c @ t\<rparr>) = feed_loop p js m (c'\<lparr>pending := pending c' @ t\<rparr>)
    \<and> (\<exists>d'. chunked_inv m d' (c'\<lparr>pending := pending c' @ t\<rparr>))
    \<and> ck_forwarded c' = ck_forwarded c \<and> ck_direction c' = ck_direction c"
  (is "?goal c c'")
  using assms(2,3)
proof (induction "chunked_measure c" arbitrary: c d rule: less_induct)
  case less
  note prem = less.prems(1) and inv = less.prems(2)
  have step: "?goal c c'"
    if less1: "chunked_measure c1 < chunked_measure c"
      and eq: "feed_loop p js m c = feed_loop p js m c1"
      and eqt: "feed_loop p js m (c\<lparr>pending := pending c @ t\<rparr>)
        = feed_loop p js m (c1\<lparr>pending := pending c1 @ t\<rparr>)"
      and inv1: "chunked_inv m d1 (c1\<lparr>pending := pending c1 @ t\<rparr>)"
      and frame: "ck_forwarded c1 = ck_forwarded c" "ck_direction c1 = ck_direction c" for c1 d1
    using less.hyps [OF less1 prem [unfolded eq] inv1] eqt frame by auto
  show ?case
  proof (cases "ck_state c")
    case Size
    show ?thesis
    proof (cases "\<exists>l n. p (pending c) = Ok (Complete (l, n))")
      case True
      then obtain l n where ln: "p (pending c) = Ok (Complete (l, n))" by blast
      then have bounds: "\<not> MAX_HTTP1_HEADER_BYTES < l" "\<not> usize_max < n"
        using prem Size by (auto simp: feed_loop_Size split: if_splits)
      note l = chunk_size_lawsD(1) [OF laws ln] chunk_size_lawsD(2) [OF laws ln, of t]
      let ?c1 = "c\<lparr>ck_state := (if n = 0 then Trailers else Data n), pending := drop l (pending c)\<rparr>"
      show ?thesis
        by (rule step [of ?c1 d])
          (use Size ln bounds l inv in
            \<open>auto simp: feed_loop_Size chunked_measure_def chunked_inv_def\<close>)
    next
      case False
      with prem Size inv show ?thesis
        by (auto simp: feed_loop_Size split: sum.splits parse_status.splits if_splits)
    qed
  next
    case (Data r)
    show ?thesis
    proof (cases "pending c = []")
      case True
      with prem Data inv show ?thesis by (auto simp: feed_loop_Data_Nil)
    next
      case False
      note inv0 = chunked_inv_shorter [OF inv refl]
      note eq = feed_loop_data_step [OF inv0 Data False]
      show ?thesis
      proof (cases "r \<le> length (pending c)")
        case True
        show ?thesis
        proof (rule step)
          show "chunked_measure (data_step m r d c) < chunked_measure c"
            by (rule data_step_measure [OF Data False])
          show "feed_loop p js m (c\<lparr>pending := pending c @ t\<rparr>)
              = feed_loop p js m ((data_step m r d c)\<lparr>pending := pending (data_step m r d c) @ t\<rparr>)"
            using feed_loop_data_step [OF inv, of r] Data False data_step_enough [OF True] by simp
          show "chunked_inv m (d @ take r (pending c))
              ((data_step m r d c)\<lparr>pending := pending (data_step m r d c) @ t\<rparr>)"
            using chunked_inv_data_step [OF inv, of r] True by (simp add: data_step_enough)
        qed (simp_all add: eq)
      next
        case short: False
        show ?thesis
          using feed_loop_data_resume [OF inv Data _ prem False] short by simp
      qed
    qed
  next
    case DataTerminator
    show ?thesis
    proof (cases "length (pending c) < 2")
      case True
      with prem DataTerminator inv show ?thesis by (auto simp: feed_loop_DataTerminator)
    next
      case False
      with prem DataTerminator have crlf: "take 2 (pending c) = CRLF"
        by (auto simp: feed_loop_DataTerminator split: if_splits)
      let ?c1 = "c\<lparr>ck_state := Size, pending := drop 2 (pending c)\<rparr>"
      show ?thesis
        by (rule step [of ?c1 d])
          (use DataTerminator False crlf inv in
            \<open>auto simp: feed_loop_DataTerminator chunked_measure_def chunked_inv_def\<close>)
    qed
  next
    case Trailers
    with prem inv show ?thesis
      by (auto simp: feed_loop_Trailers split: if_splits option.splits)
  qed
qed

end
