(* ===== verification/Chunked_Props.thy ===== *)
theory Chunked_Props
  imports Chunked_Body
begin

text \<open>
  What the chunked decoder of \<^verbatim>\<open>transparent/relay.rs\<close> does on a whole body: its answer does not
  depend on how the transport cuts the body into reads, and a body written chunk by chunk is
  decoded to the concatenation of its chunks.
\<close>

section \<open>A finished or rejected body stays rejected\<close>

lemma chunked_end_pipelined:
  "i \<le> length (pending c) \<Longrightarrow> t \<noteq> [] \<Longrightarrow>
     \<exists>e c''. chunked_end js m i (c\<lparr>pending := pending c @ t\<rparr>) = (Err e, c'')"
  by (simp add: chunked_end_def reject_pipelined_bytes_def chunked_error_def Let_def)

lemma chunked_error_cases: "\<exists>e'. chunked_error c e = Err e'"
  by (simp add: chunked_error_def)

lemma feed_loop_extend_Trailers:
  assumes "ck_state c = Trailers" and ret: "feed_loop p js m c = (r, c')" "r \<noteq> Ok None" and "t \<noteq> []"
  shows "\<exists>e c''. feed_loop p js m (c\<lparr>pending := pending c @ t\<rparr>) = (Err e, c'')"
proof -
  let ?s = "pending c"
  have len: "\<not> length ?s < 2" using assms by (auto simp: feed_loop_Trailers split: if_splits)
  show ?thesis
  proof (cases "take 2 ?s = CRLF \<or> MAX_HTTP1_HEADER_BYTES < length ?s + length t")
    case True
    with assms len chunked_end_pipelined [of 2 c t js m] show ?thesis
      by (auto simp: feed_loop_Trailers chunked_error_def)
  next
    case False
    then obtain i where i: "window_position (CRLF @ CRLF) ?s = Some i"
      using assms len by (auto simp: feed_loop_Trailers split: option.splits if_splits)
    have "i + 4 \<le> length ?s" using window_position_bound [OF i] by simp
    then show ?thesis
      using assms False len window_position_append [OF i, of t] chunked_end_pipelined [of "i + 4" c t js m]
      by (auto simp: feed_loop_Trailers)
  qed
qed

lemma feed_loop_extend_Size:
  assumes laws: "chunk_size_laws p" and "ck_state c = Size"
    and stop: "\<nexists>l n. p (pending c) = Ok (Complete (l, n)) \<and> l \<le> MAX_HTTP1_HEADER_BYTES \<and> n \<le> usize_max"
    and ret: "feed_loop p js m c = (r, c')" "r \<noteq> Ok None"
  shows "\<exists>e c''. feed_loop p js m (c\<lparr>pending := pending c @ t\<rparr>) = (Err e, c'')"
proof (cases "p (pending c)")
  case (Inl e)
  with assms chunk_size_lawsD(3) [OF laws Inl] show ?thesis
    by (auto simp: feed_loop_Size chunked_error_def)
next
  case (Inr st)
  show ?thesis
  proof (cases st)
    case Partial
    with Inr assms have big: "MAX_HTTP1_HEADER_BYTES < length (pending c)"
      by (auto simp: feed_loop_Size split: if_splits)
    show ?thesis
    proof (cases "p (pending c @ t)")
      case (Inr st')
      with big assms chunk_size_lawsD(4) [OF laws, of "pending c" t] \<open>p (pending c) = Ok st\<close> Partial
      show ?thesis
        by (cases st') (fastforce simp: feed_loop_Size chunked_error_def)+
    qed (use assms in \<open>auto simp: feed_loop_Size chunked_error_def\<close>)
  next
    case (Complete ln)
    obtain l n where [simp]: "ln = (l, n)" by (cases ln)
    from Complete Inr have ln: "p (pending c) = Ok (Complete (l, n))" by simp
    with assms chunk_size_lawsD(2) [OF laws ln, of t] show ?thesis
      by (auto simp: feed_loop_Size chunked_error_def)
  qed
qed

lemma feed_loop_extend:
  assumes laws: "chunk_size_laws p" and "t \<noteq> []"
    and "feed_loop p js m c = (r, c')" "r \<noteq> Ok None" "chunked_inv m d (c\<lparr>pending := pending c @ t\<rparr>)"
  shows "\<exists>e c''. feed_loop p js m (c\<lparr>pending := pending c @ t\<rparr>) = (Err e, c'')" (is "?goal c")
  using assms(3-)
proof (induction "chunked_measure c" arbitrary: c d rule: less_induct)
  case less
  note prem = less.prems(1,2) and inv = less.prems(3)
  have step: "?goal c"
    if "chunked_measure c1 < chunked_measure c" and eq: "feed_loop p js m c = feed_loop p js m c1"
      and "feed_loop p js m (c\<lparr>pending := pending c @ t\<rparr>)
        = feed_loop p js m (c1\<lparr>pending := pending c1 @ t\<rparr>)"
      and "chunked_inv m d1 (c1\<lparr>pending := pending c1 @ t\<rparr>)" for c1 d1
    using less.hyps [OF that(1) prem(1) [unfolded eq] prem(2) that(4)] that(3) by simp
  show ?case
  proof (cases "ck_state c")
    case Size
    show ?thesis
    proof (cases "\<exists>l n. p (pending c) = Ok (Complete (l, n)) \<and> l \<le> MAX_HTTP1_HEADER_BYTES \<and> n \<le> usize_max")
      case True
      then obtain l n where ln: "p (pending c) = Ok (Complete (l, n))"
        and bounds: "\<not> MAX_HTTP1_HEADER_BYTES < l" "\<not> usize_max < n" by (auto simp: not_less)
      note l = chunk_size_lawsD(1) [OF laws ln] chunk_size_lawsD(2) [OF laws ln, of t]
      show ?thesis
        by (rule step [of "c\<lparr>ck_state := (if n = 0 then Trailers else Data n),
              pending := drop l (pending c)\<rparr>" d])
          (use Size ln bounds l inv in
            \<open>auto simp: feed_loop_Size chunked_measure_def chunked_inv_def\<close>)
    qed (rule feed_loop_extend_Size [OF laws Size _ prem])
  next
    case (Data r')
    show ?thesis
    proof (cases "pending c = [] \<or> length (pending c) < r'")
      case True
      then show ?thesis
        using prem Data feed_loop_data_step [OF chunked_inv_shorter [OF inv refl] Data, of p js]
        by (cases "pending c = []") (auto simp: feed_loop_Data_Nil data_step_def Let_def)
    next
      case False
      then have ne: "pending c \<noteq> []" and enough: "r' \<le> length (pending c)" by auto
      show ?thesis
      proof (rule step)
        show "chunked_measure (data_step m r' d c) < chunked_measure c"
          by (rule data_step_measure [OF Data ne])
      qed (use feed_loop_data_step [OF inv, of r'] feed_loop_data_step [OF chunked_inv_shorter [OF inv refl] Data ne]
            Data ne data_step_enough [OF enough] chunked_inv_data_step [OF inv, of r'] in auto)
    qed
  next
    case DataTerminator
    show ?thesis
    proof (cases "2 \<le> length (pending c) \<and> take 2 (pending c) = CRLF")
      case True
      then show ?thesis
        by (intro step [of "c\<lparr>ck_state := Size, pending := drop 2 (pending c)\<rparr>" d])
          (use DataTerminator inv in
            \<open>auto simp: feed_loop_DataTerminator chunked_measure_def chunked_inv_def\<close>)
    qed (use prem DataTerminator in \<open>auto simp: feed_loop_DataTerminator chunked_error_def split: if_splits\<close>)
  qed (rule feed_loop_extend_Trailers [OF _ prem \<open>t \<noteq> []\<close>])
qed

section \<open>Feeding segments\<close>

text \<open>The counter is carried along by the loop and has no influence on it.\<close>

lemma counter_commute:
  "c\<lparr>ck_state := s, pending := q, ck_forwarded := n\<rparr> = c\<lparr>ck_forwarded := n, ck_state := s, pending := q\<rparr>"
  "c\<lparr>ck_body := b, ck_capture := f, ck_forwarded := n\<rparr>
     = c\<lparr>ck_forwarded := n, ck_body := b, ck_capture := f\<rparr>"
  by (cases c; simp)+

lemma counter_before_pending:
  "c\<lparr>pending := q, ck_forwarded := n\<rparr> = c\<lparr>ck_forwarded := n, pending := q\<rparr>"
  by (cases c) simp

lemma feed_loop_counter:
  "feed_loop p js m c = (Ok None, c') \<Longrightarrow>
     feed_loop p js m (c\<lparr>ck_forwarded := n\<rparr>) = (Ok None, c'\<lparr>ck_forwarded := n\<rparr>)"
proof (induction p js m c rule: feed_loop.induct)
  case (1 p js m c)
  show ?case
  proof (cases "ck_state c")
    case Size
    with "1" show ?thesis
      by (auto simp: feed_loop_Size counter_commute split: sum.splits parse_status.splits if_splits)
  next
    case (Data r)
    obtain b f where bf: "append_body_for_capture (ck_body c, ck_capture c)
      (take (min r (length (pending c))) (pending c)) m = (b, f)" by fastforce
    show ?thesis
    proof (cases "pending c = []")
      case False
      with "1.IH"(2) [OF Data False refl refl] "1.prems" Data bf show ?thesis
        by (cases "r \<le> length (pending c)")
          (simp_all add: feed_loop_Data [OF Data False refl bf] feed_loop_Data [OF _ _ refl, of _ r _ b f]
            counter_commute)
    qed (use "1.prems" Data in \<open>auto simp: feed_loop_Data_Nil\<close>)
  next
    case DataTerminator
    with "1" show ?thesis by (auto simp: feed_loop_DataTerminator counter_commute split: if_splits)
  next
    case Trailers
    with "1.prems" show ?thesis by (auto simp: feed_loop_Trailers split: if_splits option.splits)
  qed
qed

lemma feed_more:
  assumes laws: "chunk_size_laws p" and inv: "chunked_inv m d c" and ret: "feed p js m c s = (Ok None, c')"
  shows "fst (feed p js m c (s @ t)) = fst (feed p js m c' t)" and "\<exists>d'. chunked_inv m d' c'"
proof -
  obtain n1 where n1: "count_bytes (ck_forwarded c) (length s) = Ok n1"
    and run1: "feed_loop p js m (c\<lparr>ck_forwarded := n1, pending := pending c @ s\<rparr>) = (Ok None, c')"
    using ret by (auto simp: feed_def split: sum.splits)
  let ?c1 = "c\<lparr>ck_forwarded := n1, pending := pending c @ s\<rparr>"
  have inv1: "chunked_inv m d (?c1\<lparr>pending := pending ?c1 @ []\<rparr>)"
    using inv n1 by (auto simp: chunked_inv_def count_bytes_ok)
  note resume1 = feed_loop_append [OF laws run1 inv1]
  have fw: "ck_forwarded c' = n1" using resume1 by simp
  show "\<exists>d'. chunked_inv m d' c'" using resume1 by simp
  show "fst (feed p js m c (s @ t)) = fst (feed p js m c' t)"
  proof (cases "count_bytes n1 (length t)")
    case (Inl e)
    then have "count_bytes (ck_forwarded c) (length (s @ t)) = Err e"
      using n1 by (simp add: count_bytes_ok count_bytes_err)
    with Inl fw show ?thesis by (simp add: feed_def)
  next
    case (Inr n2)
    then have n2: "count_bytes (ck_forwarded c) (length (s @ t)) = Ok n2"
      using n1 by (simp add: count_bytes_ok)
    have eq: "?c1\<lparr>ck_forwarded := n2\<rparr> = c\<lparr>ck_forwarded := n2, pending := pending c @ s\<rparr>" by simp
    have run2: "feed_loop p js m (c\<lparr>ck_forwarded := n2, pending := pending c @ s\<rparr>)
        = (Ok None, c'\<lparr>ck_forwarded := n2\<rparr>)"
      using feed_loop_counter [OF run1, of n2] unfolding eq .
    have inv2: "chunked_inv m d (c\<lparr>ck_forwarded := n2, pending := (pending c @ s) @ t\<rparr>)"
      using inv n2 by (auto simp: chunked_inv_def count_bytes_ok)
    from feed_loop_append [OF laws run2, of d t] inv2 Inr n2 fw show ?thesis
      by (simp add: feed_def)
  qed
qed

lemma feed_extend:
  assumes laws: "chunk_size_laws p" and inv: "chunked_inv m d c" and "t \<noteq> []"
    and ret: "fst (feed p js m c s) \<noteq> Ok None"
  shows "\<exists>e. fst (feed p js m c (s @ t)) = Err e"
proof (cases "count_bytes (ck_forwarded c) (length (s @ t))")
  case (Inl e)
  then show ?thesis by (simp add: feed_def)
next
  case (Inr n2)
  then have "unat (ck_forwarded c) + length s < 2 ^ 64"
    using u64_lt [of n2] by (simp add: count_bytes_ok)
  then obtain n1 where n1: "count_bytes (ck_forwarded c) (length s) = Ok n1" using count_bytes_fits by blast
  let ?c2 = "c\<lparr>ck_forwarded := n2, pending := pending c @ s\<rparr>"
  have "fst (feed_loop p js m ?c2) \<noteq> Ok None"
  proof
    assume "fst (feed_loop p js m ?c2) = Ok None"
    then obtain c' where "feed_loop p js m ?c2 = (Ok None, c')" by (cases "feed_loop p js m ?c2") auto
    from feed_loop_counter [OF this, of n1] ret n1 show False by (simp add: feed_def counter_before_pending)
  qed
  moreover have "chunked_inv m d (?c2\<lparr>pending := pending ?c2 @ t\<rparr>)"
    using inv Inr by (auto simp: chunked_inv_def count_bytes_ok)
  ultimately show ?thesis
    using feed_loop_extend [OF laws \<open>t \<noteq> []\<close>, of js m ?c2] Inr
    by (cases "feed_loop p js m ?c2") (fastforce simp: feed_def)
qed

text \<open>
  The reads of a body, handed to the decoder one after the other until it is finished or fails, as
  the body loop does; the segments left over are returned.
\<close>

fun feed_all ::
  "chunk_size_parser \<Rightarrow> 'j json_parser \<Rightarrow> nat \<Rightarrow> chunked_body_capture \<Rightarrow> bytes list
   \<Rightarrow> (flow_error, 'j body_capture option) result \<times> bytes list" where
  "feed_all p js m c [] = (Ok None, [])"
| "feed_all p js m c (s # ss) =
     (case feed p js m c s of
        (Ok None, c') \<Rightarrow> feed_all p js m c' ss
      | (r, _) \<Rightarrow> (r, ss))"

lemma feed_all_iff:
  assumes laws: "chunk_size_laws p"
  shows "chunked_inv m d c \<Longrightarrow> segs \<noteq> [] \<Longrightarrow> [] \<notin> set segs \<Longrightarrow>
    feed_all p js m c segs = (Ok x, []) \<longleftrightarrow> fst (feed p js m c (concat segs)) = Ok x"
proof (induction segs arbitrary: c d)
  case (Cons s ss)
  show ?case
  proof (cases "ss = []")
    case True
    then show ?thesis by (cases "feed p js m c s") (auto split: sum.split option.split)
  next
    case False
    with Cons.prems have ne: "concat ss \<noteq> []" by (cases ss) auto
    obtain r c' where run: "feed p js m c s = (r, c')" by fastforce
    show ?thesis
    proof (cases "r = Ok None")
      case True
      with run have run': "feed p js m c s = (Ok None, c')" by simp
      from feed_more(2) [OF laws Cons.prems(1) run'] obtain d' where "chunked_inv m d' c'" by blast
      from Cons.IH [OF this False] Cons.prems(3) feed_more(1) [OF laws Cons.prems(1) run'] run'
      show ?thesis by simp
    next
      case stop: False
      with run feed_extend [OF laws Cons.prems(1) ne, of js s]
      have "\<exists>e. fst (feed p js m c (concat (s # ss))) = Err e" by simp
      with stop run False show ?thesis by (auto split: sum.split option.split)
    qed
  qed
qed simp

section \<open>Encoding\<close>

definition encode_chunk :: "bytes \<Rightarrow> bytes" where
  "encode_chunk ch = show_hex (length ch) @ CRLF @ ch @ CRLF"

text \<open>The trailer section after the last chunk: its lines, then the empty line.\<close>

definition trailer_ok :: "bytes \<Rightarrow> bool" where
  "trailer_ok tr \<longleftrightarrow>
     length tr + 2 \<le> MAX_HTTP1_HEADER_BYTES
     \<and> (tr = [] \<or> (take 2 tr \<noteq> CRLF \<and> 2 \<le> length tr
          \<and> window_position (CRLF @ CRLF) (tr @ CRLF) = Some (length tr - 2)))"

definition encode_chunked :: "bytes list \<Rightarrow> bytes \<Rightarrow> bytes" where
  "encode_chunked chunks tr = concat (map encode_chunk chunks) @ show_hex 0 @ CRLF @ tr @ CRLF"

lemma show_hex_length: "n < 16 ^ k \<Longrightarrow> 0 < k \<Longrightarrow> length (show_hex n) \<le> k"
proof (induction n arbitrary: k rule: show_hex.induct)
  case (1 n)
  show ?case
  proof (cases "n < 16")
    case True
    with "1.prems" show ?thesis by (subst show_hex.simps) simp
  next
    case False
    with "1.prems" obtain j where j: "k = Suc j" "0 < j" by (cases k; cases "k - 1") auto
    with "1.prems" have "n div 16 < 16 ^ j" by (simp add: less_mult_imp_div_less mult.commute)
    from "1.IH" [OF False this j(2)] False j(1) show ?thesis by (subst show_hex.simps) simp
  qed
qed

lemma show_hex_usize: "n \<le> usize_max \<Longrightarrow> length (show_hex n) + 2 \<le> MAX_HTTP1_HEADER_BYTES"
  using show_hex_length [of n 16] by (simp add: usize_max_def MAX_HTTP1_HEADER_BYTES_def)

lemma feed_loop_size_line:
  assumes laws: "chunk_size_laws p" and n: "n \<le> usize_max" and "ck_state c = Size"
    and pend: "pending c = show_hex n @ CRLF @ t"
  shows "feed_loop p js m c = feed_loop p js m
    (c\<lparr>ck_state := (if n = 0 then Trailers else Data n), pending := t\<rparr>)"
  using assms chunk_size_lawsD(5) [OF laws n, of t] show_hex_usize [OF n] by (simp add: feed_loop_Size)

lemma feed_loop_chunk:
  assumes laws: "chunk_size_laws p" and inv: "chunked_inv m d c" and Size: "ck_state c = Size"
    and pend: "pending c = encode_chunk ch @ t" and ne: "ch \<noteq> []"
  shows "feed_loop p js m c = feed_loop p js m
      (c\<lparr>ck_body := fst (capture_of m (d @ ch)), ck_capture := snd (capture_of m (d @ ch)),
         ck_state := Size, pending := t\<rparr>)" (is "_ = feed_loop p js m ?c3")
    and "chunked_inv m (d @ ch) (c\<lparr>ck_body := fst (capture_of m (d @ ch)),
      ck_capture := snd (capture_of m (d @ ch)), ck_state := Size, pending := t\<rparr>)"
proof -
  have "length ch \<le> usize_max"
    using inv pend u64_lt [of "ck_forwarded c"] by (auto simp: chunked_inv_def encode_chunk_def usize_max_def)
  let ?c1 = "c\<lparr>ck_state := Data (length ch), pending := ch @ CRLF @ t\<rparr>"
  let ?c2 = "data_step m (length ch) d ?c1"
  have "feed_loop p js m c = feed_loop p js m ?c1"
    using feed_loop_size_line [OF laws \<open>length ch \<le> usize_max\<close> Size, of "ch @ CRLF @ t"] pend ne
    by (simp add: encode_chunk_def)
  also have "\<dots> = feed_loop p js m ?c2"
    by (rule feed_loop_data_step) (use inv pend ne in \<open>auto simp: chunked_inv_def encode_chunk_def\<close>)
  also have "\<dots> = feed_loop p js m ?c3"
    by (subst feed_loop_DataTerminator) (simp_all add: data_step_def Let_def)
  finally show "feed_loop p js m c = feed_loop p js m ?c3" .
  show "chunked_inv m (d @ ch) ?c3"
    using inv pend by (auto simp: chunked_inv_def encode_chunk_def)
qed

lemma feed_loop_trailer:
  assumes "ck_state c = Trailers" and "pending c = tr @ CRLF" and tr: "trailer_ok tr"
  shows "fst (feed_loop p js m c) = Ok (Some
    \<lparr>bc_body = captured_body_from js (ck_body c, ck_capture c) m, forwarded_bytes = ck_forwarded c,
     agent_write_error = None\<rparr>)"
proof -
  have fin: "fst (chunked_end js m (length (pending c)) c) = Ok (Some
    \<lparr>bc_body = captured_body_from js (ck_body c, ck_capture c) m, forwarded_bytes = ck_forwarded c,
     agent_write_error = None\<rparr>)"
    by (simp add: chunked_end_def reject_pipelined_bytes_def chunked_finish_def)
  show ?thesis
  proof (cases "tr = []")
    case True
    with assms fin show ?thesis by (simp add: feed_loop_Trailers eval_nat_numeral)
  next
    case False
    then have "length (pending c) = (length tr - 2) + 4" "length tr + 2 \<le> usize_max"
      using assms by (auto simp: trailer_ok_def usize_max_def MAX_HTTP1_HEADER_BYTES_def)
    with False assms fin show ?thesis by (simp add: feed_loop_Trailers trailer_ok_def)
  qed
qed

lemma feed_loop_encoded:
  assumes laws: "chunk_size_laws p" and tr: "trailer_ok tr"
  shows "chunked_inv m d c \<Longrightarrow> ck_state c = Size \<Longrightarrow> pending c = encode_chunked chunks tr \<Longrightarrow>
    [] \<notin> set chunks \<Longrightarrow> fst (feed_loop p js m c) = Ok (Some
      \<lparr>bc_body = captured_body_from js (capture_of m (d @ concat chunks)) m,
       forwarded_bytes = ck_forwarded c, agent_write_error = None\<rparr>)"
proof (induction chunks arbitrary: c d)
  case Nil
  let ?c1 = "c\<lparr>ck_state := Trailers, pending := tr @ CRLF\<rparr>"
  have "feed_loop p js m c = feed_loop p js m ?c1"
    using feed_loop_size_line [OF laws, of 0 c "tr @ CRLF"] Nil by (simp add: encode_chunked_def)
  with Nil feed_loop_trailer [of ?c1 tr p js m] tr show ?case by (simp add: chunked_inv_def)
next
  case (Cons ch chs)
  then have "pending c = encode_chunk ch @ encode_chunked chs tr" "ch \<noteq> []"
    by (auto simp: encode_chunked_def)
  note step = feed_loop_chunk [OF laws Cons.prems(1,2) this]
  from step(1) [of js] Cons.IH [OF step(2)] Cons.prems(4) show ?case by simp
qed

lemma feed_encoded:
  assumes "chunk_size_laws p" and "trailer_ok tr" and "[] \<notin> set chunks"
    and fits: "length (encode_chunked chunks tr) < 2 ^ 64"
  shows "fst (feed p js m (chunked_new dir) (encode_chunked chunks tr)) = Ok (Some
    \<lparr>bc_body = captured_body_from js (capture_of m (concat chunks)) m,
     forwarded_bytes = of_nat (length (encode_chunked chunks tr)), agent_write_error = None\<rparr>)"
proof -
  let ?w = "encode_chunked chunks tr"
  have n: "count_bytes 0 (length ?w) = Ok (of_nat (length ?w))"
    using fits by (simp add: count_bytes_ok unat_of_nat_u64)
  have "chunked_inv m [] (chunked_new dir\<lparr>ck_forwarded := of_nat (length ?w), pending := ?w\<rparr>)"
    using fits by (simp add: chunked_inv_def chunked_new_def unat_of_nat_u64)
  from feed_loop_encoded [OF assms(1,2) this, of chunks js] assms(3) n show ?thesis
    by (simp add: feed_def chunked_new_def)
qed

section \<open>A size parser with the documented behaviour\<close>

text \<open>
  A reader of hexadecimal digits up to CR LF. It shows that \<open>chunk_size_laws\<close> can hold and serves as
  the parameter in examples.
\<close>

definition hex_value :: "byte \<Rightarrow> nat option" where
  "hex_value b =
     (let n = code b
      in if 48 \<le> n \<and> n \<le> 57 then Some (n - 48)
         else if 97 \<le> n \<and> n \<le> 102 then Some (n - 87)
         else if 65 \<le> n \<and> n \<le> 70 then Some (n - 55) else None)"

fun scan_hex :: "nat \<Rightarrow> nat \<Rightarrow> chunk_size_parser" where
  "scan_hex k v [] = Ok Partial"
| "scan_hex k v (b # bs) =
     (if b = CHR 13
      then (case bs of [] \<Rightarrow> Ok Partial
            | b' # _ \<Rightarrow> if b' = CHR 10 then Ok (Complete (k + 2, v)) else Err ())
      else (case hex_value b of None \<Rightarrow> Err () | Some h \<Rightarrow> scan_hex (k + 1) (16 * v + h) bs))"

definition hex_chunk_size :: chunk_size_parser where
  "hex_chunk_size s = scan_hex 0 0 s"

lemma scan_hex_complete:
  "scan_hex k v s = Ok (Complete (l, n)) \<Longrightarrow> l \<le> k + length s \<and> scan_hex k v (s @ t) = Ok (Complete (l, n))"
  by (induction k v s rule: scan_hex.induct) (auto split: if_splits list.splits option.splits)

lemma scan_hex_err: "scan_hex k v s = Err e \<Longrightarrow> scan_hex k v (s @ t) = Err e"
  by (induction k v s rule: scan_hex.induct) (auto split: if_splits list.splits option.splits)

lemma scan_hex_partial:
  "scan_hex k v s = Ok Partial \<Longrightarrow> scan_hex k v (s @ t) = Ok (Complete (l, n)) \<Longrightarrow> k + length s < l"
proof (induction k v s rule: scan_hex.induct)
  case (1 k v)
  have "scan_hex k v t = Ok (Complete (l, n)) \<Longrightarrow> k < l" for k v
    by (induction k v t rule: scan_hex.induct) (auto split: if_splits list.splits option.splits dest: Suc_lessD)
  with "1" show ?case by simp
next
  case (2 k v b bs)
  then show ?case by (auto split: if_splits list.splits option.splits)
qed

lemma hex_value_digit:
  assumes "h < 16"
  shows "hex_value (hex_digit h) = Some h \<and> hex_digit h \<noteq> CHR 13"
proof -
  have "code (hex_digit h) = (if h < 10 then 48 + h else 87 + h)"
    using assms by (simp add: hex_digit_def code_def of_char_of)
  moreover have "code (CHR 13) = 13" by (simp add: code_def)
  ultimately show ?thesis using assms by (auto simp: hex_value_def Let_def split: if_splits)
qed

lemma scan_hex_show_hex:
  "scan_hex k v (show_hex n @ s) = scan_hex (k + length (show_hex n)) (16 ^ length (show_hex n) * v + n) s"
proof (induction n arbitrary: s rule: show_hex.induct)
  case (1 n)
  show ?case
  proof (cases "n < 16")
    case True
    with hex_value_digit [OF True] show ?thesis by (subst (1 2 3) show_hex.simps) simp
  next
    case False
    have "n mod 16 < 16" by simp
    from hex_value_digit [OF this] False "1" [OF False, of "hex_digit (n mod 16) # s"] show ?thesis
      by (subst (1 2 3) show_hex.simps) (simp add: algebra_simps)
  qed
qed

lemma hex_chunk_size_laws: "chunk_size_laws hex_chunk_size"
  unfolding chunk_size_laws_def hex_chunk_size_def
  using scan_hex_complete [of 0 0] scan_hex_err [of 0 0] scan_hex_partial [of 0 0]
  by (simp add: scan_hex_show_hex)

section \<open>Properties\<close>

text \<open>
  C7. Segmentation independence of the chunked decoder: reading a body in any non-empty pieces,
  the decoder accepts all of them with result \<open>x\<close> (body finished, or more bytes needed) exactly if
  it answers \<open>x\<close> when the whole body arrives in one read. Nothing is accepted or rejected because of
  the way the transport cuts the stream.
\<close>

theorem chunked_segmentation:
  assumes "chunk_size_laws p" and "segs \<noteq> []" and "[] \<notin> set segs"
  shows "feed_all p js m (chunked_new dir) segs = (Ok x, [])
    \<longleftrightarrow> fst (feed p js m (chunked_new dir) (concat segs)) = Ok x"
  by (rule feed_all_iff [OF assms(1) chunked_inv_new assms(2,3)])

theorem chunked_segmentation_witness:
  "feed_all hex_chunk_size (\<lambda>_. None :: unit option) 4 (chunked_new Request) [''1'', CRLF, ''a''] = (Ok None, [])
    \<longleftrightarrow> fst (feed hex_chunk_size (\<lambda>_. None :: unit option) 4 (chunked_new Request) (''1'' @ CRLF @ ''a'')) = Ok None"
  using chunked_segmentation [OF hex_chunk_size_laws, of "[''1'', CRLF, ''a'']" "\<lambda>_. None :: unit option" 4 Request None]
  by (simp del: feed_all.simps)

text \<open>
  C8. Round trip of the chunked encoding: a body written as non-empty chunks with a trailer section
  and cut into reads in any way is accepted in full; the hook view is the concatenation of the chunks
  bounded by \<open>max_body_bytes\<close> (and flagged as truncated when the bound cuts it), and the byte count
  is that of the raw encoding.
\<close>

theorem chunked_roundtrip:
  assumes "chunk_size_laws p" and "trailer_ok tr" and "[] \<notin> set chunks" and "[] \<notin> set segs"
    and segs: "concat segs = encode_chunked chunks tr"
    and "length (encode_chunked chunks tr) < 2 ^ 64"
  shows "feed_all p js m (chunked_new dir) segs = (Ok (Some
    \<lparr>bc_body = captured_body_from js (take m (concat chunks), length (concat chunks) \<le> m) m,
     forwarded_bytes = of_nat (length (encode_chunked chunks tr)), agent_write_error = None\<rparr>), [])"
proof -
  have "segs \<noteq> []" using segs by (auto simp: encode_chunked_def)
  from feed_all_iff [OF assms(1) chunked_inv_new this assms(4)] show ?thesis
    by (rule iffD2) (simp add: segs feed_encoded [OF assms(1-3,6)] capture_of_def)
qed

theorem chunked_roundtrip_witness:
  "feed_all hex_chunk_size (\<lambda>_. None :: unit option) 4 (chunked_new Response)
     [''3'' @ CRLF @ ''ab'', ''c'' @ CRLF, ''2'' @ CRLF @ ''de'' @ CRLF @ ''0'' @ CRLF, CRLF]
   = (Ok (Some \<lparr>bc_body = captured_body_from (\<lambda>_. None) (''abcd'', False) 4, forwarded_bytes = 20,
       agent_write_error = None\<rparr>), [])"
  using chunked_roundtrip [OF hex_chunk_size_laws, of "[]" "[''abc'', ''de'']"
      "[''3'' @ CRLF @ ''ab'', ''c'' @ CRLF, ''2'' @ CRLF @ ''de'' @ CRLF @ ''0'' @ CRLF, CRLF]"
      "\<lambda>_. None :: unit option" 4 Response]
  by (simp del: feed_all.simps add: encode_chunked_def encode_chunk_def show_hex.simps hex_digit_def
      char_of_def bit_0 trailer_ok_def MAX_HTTP1_HEADER_BYTES_def)

end
