(* ===== verification/Body_Forward.thy ===== *)
theory Body_Forward
  imports Chunked_Props
begin

text \<open>
  Body forwarding of \<^verbatim>\<open>transparent/relay.rs\<close>: the three body loops, the delivery of a body's last
  bytes, and the choice of the framing. The raw bytes go through unchanged, in order and as they
  arrive; a bounded copy of the payload is kept for the hooks.
\<close>

section \<open>Framing\<close>

datatype body_framing = Empty | ContentLength nat | Chunked | UntilEof

definition request_body_framing :: "http_request \<Rightarrow> (http1_error, body_framing) result" where
  "request_body_framing r =
     (if is_chunked (req_headers r) then Ok Chunked
      else case content_length (req_headers r) of
             Err e \<Rightarrow> Err e
           | Ok None \<Rightarrow> Ok Empty
           | Ok (Some n) \<Rightarrow> Ok (ContentLength n))"

definition response_body_framing ::
  "bytes \<Rightarrow> http_response \<Rightarrow> (http1_error, body_framing) result" where
  "response_body_framing request_method response =
     (if request_method = ''HEAD'' \<or> status_has_no_body (res_status response) then Ok Empty
      else if is_chunked (res_headers response) then Ok Chunked
      else case content_length (res_headers response) of
             Err e \<Rightarrow> Err e
           | Ok None \<Rightarrow> Ok UntilEof
           | Ok (Some n) \<Rightarrow> Ok (ContentLength n))"

section \<open>The last bytes of a body\<close>

definition RELAY_CHUNK_BYTES :: nat where
  "RELAY_CHUNK_BYTES = 16 * 1024"

text \<open>
  The loop of \<^verbatim>\<open>BodyCapture::forward_last_bytes\<close>. A body that is complete is kept for the hooks even
  when the agent does not take its last bytes.
\<close>

function forward_last_loop ::
  "body_direction \<Rightarrow> 'j body_capture \<Rightarrow> bytes \<Rightarrow> writer \<Rightarrow> (flow_error, 'j body_capture) result \<times> writer" where
  "forward_last_loop direction capture bs w =
     (if bs = [] then (Ok capture, w)
      else
        (case stream_write bs w of
           (res, w') \<Rightarrow>
             (case (case res of Err k \<Rightarrow> Err k | Ok n \<Rightarrow> if n = 0 then Err WriteZero else Ok n) of
                Ok n \<Rightarrow>
                  (case count_bytes (forwarded_bytes capture) n of
                     Err e \<Rightarrow> (Err e, w')
                   | Ok sent \<Rightarrow>
                       forward_last_loop direction (capture\<lparr>forwarded_bytes := sent\<rparr>) (drop n bs) w')
              | Err k \<Rightarrow>
                  let e = FlowIo (body_forward_operation direction) k
                  in if direction = Request then (Err e, w')
                     else (Ok (capture\<lparr>agent_write_error := Some e\<rparr>), w'))))"
  by pat_completeness auto
termination
  by (relation "measure (\<lambda>(d, c, bs, w). length bs)") (auto split: sum.splits if_splits)

declare forward_last_loop.simps [simp del]

definition forward_last_bytes ::
  "body_direction \<Rightarrow> 'j body_capture \<Rightarrow> bytes \<Rightarrow> writer \<Rightarrow> (flow_error, 'j body_capture) result \<times> writer" where
  "forward_last_bytes direction capture bs w =
     (case usize_to_u64 (length bs) of
        Err e \<Rightarrow> (Err e, w)
      | Ok n \<Rightarrow>
          (case checked_sub (forwarded_bytes capture) n of
             None \<Rightarrow> (Err ByteCountOverflow, w)
           | Some rest \<Rightarrow> forward_last_loop direction (capture\<lparr>forwarded_bytes := rest\<rparr>) bs w))"

section \<open>Body loops\<close>

type_synonym 'j forwarded = "(flow_error, 'j body_capture) result \<times> reader \<times> writer"

definition forward_empty_body ::
  "'j json_parser \<Rightarrow> body_direction \<Rightarrow> bytes \<Rightarrow> reader \<Rightarrow> writer \<Rightarrow> 'j forwarded" where
  "forward_empty_body js direction buffered r w =
     (if buffered \<noteq> []
      then (Err (Http1 (body_http1_operation direction) (UnsupportedBody ''pipelined HTTP/1 bytes'')), r, w)
      else
        (case flush w of
           (Ok _, w') \<Rightarrow>
             (Ok \<lparr>bc_body = captured_from_bytes js [], forwarded_bytes = 0, agent_write_error = None\<rparr>,
              r, w')
         | (Err k, w') \<Rightarrow>
             let e = FlowIo (body_forward_operation direction) k
             in if direction = Request then (Err e, r, w')
                else (Ok \<lparr>bc_body = captured_from_bytes js [], forwarded_bytes = 0,
                          agent_write_error = Some e\<rparr>, r, w')))"

function content_length_loop ::
  "'j json_parser \<Rightarrow> body_direction \<Rightarrow> nat \<Rightarrow> nat \<Rightarrow> bytes \<times> bool \<Rightarrow> nat \<Rightarrow> bytes \<Rightarrow> reader \<Rightarrow> writer
   \<Rightarrow> 'j forwarded" where
  "content_length_loop js direction len max_body_bytes body remaining bs r w =
     (let body' = append_body_for_capture body bs max_body_bytes
      in if remaining < length bs then (Err ByteCountOverflow, r, w)
         else if remaining - length bs = 0 then
           (case usize_to_u64 len of
              Err e \<Rightarrow> (Err e, r, w)
            | Ok n \<Rightarrow>
                (case forward_last_bytes direction
                   \<lparr>bc_body = captured_body_from js body' max_body_bytes, forwarded_bytes = n,
                    agent_write_error = None\<rparr> bs w of
                   (res, w') \<Rightarrow> (res, r, w')))
         else
           (case write_all bs w of
              (Err k, w') \<Rightarrow> (Err (FlowIo (body_forward_operation direction) k), r, w')
            | (Ok _, w') \<Rightarrow>
                (case stream_read (min (remaining - length bs) RELAY_CHUNK_BYTES) r of
                   (Err k, r') \<Rightarrow> (Err (FlowIo (body_read_operation direction) k), r', w')
                 | (Ok chunk, r') \<Rightarrow>
                     if chunk = []
                     then (Err (Http1 (body_http1_operation direction)
                             (InvalidBody ''content-length body ended early'')), r', w')
                     else content_length_loop js direction len max_body_bytes body'
                            (remaining - length bs) chunk r' w')))"
  by pat_completeness auto
termination
  by (relation "measure (\<lambda>(js, d, l, m, body, rem, bs, r, w). script_size r)")
    (auto dest: stream_read_shrinks [OF sym])

declare content_length_loop.simps [simp del]

definition forward_content_length_body ::
  "'j json_parser \<Rightarrow> nat \<Rightarrow> body_direction \<Rightarrow> nat \<Rightarrow> bytes \<Rightarrow> reader \<Rightarrow> writer \<Rightarrow> 'j forwarded" where
  "forward_content_length_body js max_body_bytes direction len buffered r w =
     (if len < length buffered
      then (Err (Http1 (body_http1_operation direction) (UnsupportedBody ''pipelined HTTP/1 bytes'')), r, w)
      else content_length_loop js direction len max_body_bytes ([], True) len buffered r w)"

text \<open>One piece of a chunked body: decoded first, then written; the last piece ends the body.\<close>

definition chunked_piece ::
  "chunk_size_parser \<Rightarrow> 'j json_parser \<Rightarrow> nat \<Rightarrow> body_direction \<Rightarrow> chunked_body_capture \<Rightarrow> bytes \<Rightarrow> writer
   \<Rightarrow> (flow_error, 'j body_capture option) result \<times> chunked_body_capture \<times> writer" where
  "chunked_piece p js max_body_bytes direction c bs w =
     (case feed p js max_body_bytes c bs of
        (Err e, c') \<Rightarrow> (Err e, c', w)
      | (Ok (Some capture), c') \<Rightarrow>
          (case forward_last_bytes direction capture bs w of
             (Err e, w') \<Rightarrow> (Err e, c', w')
           | (Ok capture', w') \<Rightarrow> (Ok (Some capture'), c', w'))
      | (Ok None, c') \<Rightarrow>
          (case write_all bs w of
             (Err k, w') \<Rightarrow> (Err (FlowIo (body_forward_operation direction) k), c', w')
           | (Ok _, w') \<Rightarrow> (Ok None, c', w')))"

function chunked_loop ::
  "chunk_size_parser \<Rightarrow> 'j json_parser \<Rightarrow> nat \<Rightarrow> body_direction \<Rightarrow> chunked_body_capture \<Rightarrow> reader \<Rightarrow> writer
   \<Rightarrow> 'j forwarded" where
  "chunked_loop p js max_body_bytes direction c r w =
     (case stream_read RELAY_CHUNK_BYTES r of
        (Err k, r') \<Rightarrow> (Err (FlowIo (body_read_operation direction) k), r', w)
      | (Ok chunk, r') \<Rightarrow>
          if chunk = []
          then (Err (Http1 (body_http1_operation direction) (InvalidBody ''chunked body ended early'')), r', w)
          else
            (case chunked_piece p js max_body_bytes direction c chunk w of
               (Err e, c', w') \<Rightarrow> (Err e, r', w')
             | (Ok (Some capture), c', w') \<Rightarrow> (Ok capture, r', w')
             | (Ok None, c', w') \<Rightarrow> chunked_loop p js max_body_bytes direction c' r' w'))"
  by pat_completeness auto
termination
  by (relation "measure (\<lambda>(p, js, m, d, c, r, w). script_size r)") (auto dest: stream_read_shrinks [OF sym])

declare chunked_loop.simps [simp del]

definition forward_chunked_body ::
  "chunk_size_parser \<Rightarrow> 'j json_parser \<Rightarrow> nat \<Rightarrow> body_direction \<Rightarrow> bytes \<Rightarrow> reader \<Rightarrow> writer \<Rightarrow> 'j forwarded" where
  "forward_chunked_body p js max_body_bytes direction buffered r w =
     (if buffered = [] then chunked_loop p js max_body_bytes direction (chunked_new direction) r w
      else
        (case chunked_piece p js max_body_bytes direction (chunked_new direction) buffered w of
           (Err e, c', w') \<Rightarrow> (Err e, r, w')
         | (Ok (Some capture), c', w') \<Rightarrow> (Ok capture, r, w')
         | (Ok None, c', w') \<Rightarrow> chunked_loop p js max_body_bytes direction c' r w'))"

function until_eof_loop ::
  "'j json_parser \<Rightarrow> nat \<Rightarrow> body_direction \<Rightarrow> bytes \<times> bool \<Rightarrow> u64 \<Rightarrow> reader \<Rightarrow> writer \<Rightarrow> 'j forwarded" where
  "until_eof_loop js max_body_bytes direction body count r w =
     (case stream_read RELAY_CHUNK_BYTES r of
        (Err k, r') \<Rightarrow> (Err (FlowIo (body_read_operation direction) k), r', w)
      | (Ok chunk, r') \<Rightarrow>
          if chunk = []
          then (Ok \<lparr>bc_body = captured_body_from js body max_body_bytes, forwarded_bytes = count,
                    agent_write_error = None\<rparr>, r', w)
          else
            (case write_all chunk w of
               (Err k, w') \<Rightarrow> (Err (FlowIo (body_forward_operation direction) k), r', w')
             | (Ok _, w') \<Rightarrow>
                 (case count_bytes count (length chunk) of
                    Err e \<Rightarrow> (Err e, r', w')
                  | Ok count' \<Rightarrow>
                      until_eof_loop js max_body_bytes direction
                        (append_body_for_capture body chunk max_body_bytes) count' r' w')))"
  by pat_completeness auto
termination
  by (relation "measure (\<lambda>(js, m, d, body, n, r, w). script_size r)") (auto dest: stream_read_shrinks [OF sym])

declare until_eof_loop.simps [simp del]

definition forward_until_eof_body ::
  "'j json_parser \<Rightarrow> nat \<Rightarrow> body_direction \<Rightarrow> bytes \<Rightarrow> reader \<Rightarrow> writer \<Rightarrow> 'j forwarded" where
  "forward_until_eof_body js max_body_bytes direction buffered r w =
     (case usize_to_u64 (length buffered) of
        Err e \<Rightarrow> (Err e, r, w)
      | Ok count \<Rightarrow>
          let body = append_body_for_capture ([], True) buffered max_body_bytes
          in if buffered = [] then until_eof_loop js max_body_bytes direction body count r w
             else (case write_all buffered w of
                     (Err k, w') \<Rightarrow> (Err (FlowIo (body_forward_operation direction) k), r, w')
                   | (Ok _, w') \<Rightarrow> until_eof_loop js max_body_bytes direction body count r w'))"

definition forward_body ::
  "chunk_size_parser \<Rightarrow> 'j json_parser \<Rightarrow> nat \<Rightarrow> body_direction \<Rightarrow> body_framing \<Rightarrow> bytes \<Rightarrow> reader \<Rightarrow> writer
   \<Rightarrow> 'j forwarded" where
  "forward_body p js max_body_bytes direction framing buffered r w =
     (case framing of
        Empty \<Rightarrow> forward_empty_body js direction buffered r w
      | ContentLength len \<Rightarrow> forward_content_length_body js max_body_bytes direction len buffered r w
      | Chunked \<Rightarrow> forward_chunked_body p js max_body_bytes direction buffered r w
      | UntilEof \<Rightarrow> forward_until_eof_body js max_body_bytes direction buffered r w)"

section \<open>What is delivered\<close>

text \<open>The writer received the first \<open>n\<close> bytes of \<open>src\<close> and nothing else.\<close>

definition delivered :: "bytes \<Rightarrow> writer \<Rightarrow> writer \<Rightarrow> nat \<Rightarrow> bool" where
  "delivered src w w' n \<longleftrightarrow> n \<le> length src \<and> written w' = written w @ take n src"

text \<open>
  The common shape of all forwarding steps: a prefix of the source is delivered whatever happens;
  on success the count has grown by exactly the delivered bytes, and only a response can end with
  an undelivered rest.
\<close>

definition relay_spec ::
  "body_direction \<Rightarrow> nat \<Rightarrow> bytes \<Rightarrow> writer \<Rightarrow> (flow_error, 'j body_capture) result \<Rightarrow> writer \<Rightarrow> bool" where
  "relay_spec direction base src w res w' \<longleftrightarrow>
     (\<exists>n. delivered src w w' n
        \<and> (\<forall>cap. res = Ok cap \<longrightarrow> unat (forwarded_bytes cap) = base + n
              \<and> (agent_write_error cap \<noteq> None \<longrightarrow> direction = Response)))"

lemma delivered_append: "delivered src w w' n \<Longrightarrow> delivered (src @ later) w w' n"
  by (simp add: delivered_def)

lemma write_all_delivered: "write_all bs w = (res, w') \<Longrightarrow> \<exists>n. delivered bs w w' n"
  using write_all_prefix [of bs w res w'] by (auto simp: delivered_def)

lemma relay_spec_err_nothing: "written w' = written w \<Longrightarrow> relay_spec dir base src w (Err e) w'"
  by (auto simp: relay_spec_def delivered_def intro: exI [of _ 0])

lemma relay_spec_err_write:
  "write_all bs w = (res, w') \<Longrightarrow> relay_spec dir base (bs @ src) w (Err e) w'"
  using write_all_delivered [of bs w res w'] by (auto simp: relay_spec_def dest: delivered_append)

lemma relay_spec_later:
  assumes "relay_spec dir (base + length bs) src w1 res w'" and "written w1 = written w @ bs"
  shows "relay_spec dir base (bs @ src) w res w'"
proof -
  from assms obtain n where "delivered src w1 w' n"
    "\<forall>cap. res = Ok cap \<longrightarrow> unat (forwarded_bytes cap) = base + length bs + n
       \<and> (agent_write_error cap \<noteq> None \<longrightarrow> dir = Response)"
    by (auto simp: relay_spec_def)
  with assms(2) show ?thesis
    unfolding relay_spec_def by (intro exI [of _ "length bs + n"]) (auto simp: delivered_def)
qed

lemma relay_spec_extend: "relay_spec dir base src w res w' \<Longrightarrow> relay_spec dir base (src @ later) w res w'"
  unfolding relay_spec_def by (metis delivered_append)

lemmas relay_spec_intros = relay_spec_err_nothing relay_spec_err_write relay_spec_later

section \<open>The last bytes\<close>

lemma forward_last_loop_spec:
  "forward_last_loop dir cap bs w = (res, w') \<Longrightarrow> (agent_write_error cap \<noteq> None \<longrightarrow> dir = Response) \<Longrightarrow>
     relay_spec dir (unat (forwarded_bytes cap)) bs w res w'"
proof (induction dir cap bs w rule: forward_last_loop.induct)
  case (1 dir cap bs w)
  show ?case
  proof (cases "bs = []")
    case True
    with "1.prems" show ?thesis
      by (subst (asm) forward_last_loop.simps) (auto simp: relay_spec_def delivered_def)
  next
    case False
    obtain wres w1 where w1: "stream_write bs w = (wres, w1)" by fastforce
    consider (stop) k where "wres = Err k \<or> wres = Ok 0" | (go) n where "wres = Ok n" "n \<noteq> 0"
      by (cases wres) (fastforce, metis)
    then show ?thesis
    proof cases
      case stop
      then have "written w1 = written w"
        using w1 stream_write_written [of bs w 0 w1] by (auto dest: stream_write_fail)
      moreover have "w' = w1 \<and> (\<exists>e. res = Err e \<or> dir = Response \<and> res = Ok (cap\<lparr>agent_write_error := Some e\<rparr>))"
        using "1.prems" False w1 stop
        by (cases dir) (auto simp: forward_last_loop.simps [of _ cap bs w])
      ultimately show ?thesis
        by (auto simp: relay_spec_def delivered_def intro: exI [of _ 0])
    next
      case go
      note sw = stream_write_written [OF w1 [unfolded go]]
      show ?thesis
      proof (cases "count_bytes (forwarded_bytes cap) n")
        case (Inl e)
        with "1.prems" False w1 go sw show ?thesis
          by (subst (asm) forward_last_loop.simps) (auto simp: relay_spec_def delivered_def)
      next
        case (Inr sent)
        with "1.prems" False w1 go have rec:
          "forward_last_loop dir (cap\<lparr>forwarded_bytes := sent\<rparr>) (drop n bs) w1 = (res, w')"
          by (subst (asm) forward_last_loop.simps) simp
        have "relay_spec dir (unat (forwarded_bytes cap) + length (take n bs)) (drop n bs) w1 res w'"
          using "1.IH" [OF False w1 [symmetric] _ Inr rec] go Inr "1.prems" sw by (simp add: count_bytes_ok)
        from relay_spec_later [OF this] sw show ?thesis by simp
      qed
    qed
  qed
qed

lemma forward_last_bytes_spec:
  assumes "forward_last_bytes dir cap bs w = (res, w')" and "agent_write_error cap = None"
    and "unat (forwarded_bytes cap) = base + length bs"
  shows "relay_spec dir base bs w res w'"
proof -
  from assms(3) have "length bs < 2 ^ 64" using u64_lt [of "forwarded_bytes cap"] by simp
  then have n: "usize_to_u64 (length bs) = Ok (of_nat (length bs))" "unat (of_nat (length bs) :: u64) = length bs"
    by (simp_all add: usize_to_u64_def unat_of_nat_u64)
  show ?thesis
  proof (cases "checked_sub (forwarded_bytes cap) (of_nat (length bs))")
    case None
    with assms n show ?thesis by (auto simp: forward_last_bytes_def relay_spec_err_nothing)
  next
    case (Some rest)
    then have "unat rest = base" using assms(3) n checked_sub_Some [OF Some] by simp
    with Some assms n forward_last_loop_spec [of dir "cap\<lparr>forwarded_bytes := rest\<rparr>" bs w res w']
    show ?thesis by (simp add: forward_last_bytes_def)
  qed
qed

lemma forward_last_loop_ok:
  "forward_last_loop dir cap bs w = (Ok cap', w') \<Longrightarrow> agent_write_error cap = None \<Longrightarrow>
     bc_body cap' = bc_body cap \<and> (agent_write_error cap' = None \<longrightarrow> written w' = written w @ bs)"
proof (induction dir cap bs w rule: forward_last_loop.induct)
  case (1 dir cap bs w)
  show ?case
  proof (cases "bs = []")
    case False
    obtain wres w1 where w1: "stream_write bs w = (wres, w1)" by fastforce
    consider (stop) k where "wres = Err k \<or> wres = Ok 0" | (go) n where "wres = Ok n" "n \<noteq> 0"
      by (cases wres) (fastforce, metis)
    then show ?thesis
    proof cases
      case stop
      with "1.prems" False w1 show ?thesis
        by (cases dir) (auto simp: forward_last_loop.simps [of _ cap bs w])
    next
      case go
      then obtain sent where sent: "count_bytes (forwarded_bytes cap) n = Ok sent"
        "forward_last_loop dir (cap\<lparr>forwarded_bytes := sent\<rparr>) (drop n bs) w1 = (Ok cap', w')"
        using "1.prems" False w1 by (subst (asm) forward_last_loop.simps) (auto split: sum.splits)
      from "1.IH" [OF False w1 [symmetric] _ sent] go "1.prems"(2) stream_write_written [OF w1 [unfolded go]]
      show ?thesis by simp
    qed
  qed (use "1.prems" in \<open>auto simp: forward_last_loop.simps\<close>)
qed

lemma forward_last_bytes_ok:
  "forward_last_bytes dir cap bs w = (Ok cap', w') \<Longrightarrow> agent_write_error cap = None \<Longrightarrow>
     bc_body cap' = bc_body cap \<and> (agent_write_error cap' = None \<longrightarrow> written w' = written w @ bs)"
  by (auto simp: forward_last_bytes_def split: sum.splits option.splits dest!: forward_last_loop_ok)

lemma forward_last_bytes_willing [io_simps]:
  assumes w: "write_steps w = []" and len: "length bs \<le> unat (forwarded_bytes cap)"
  shows "forward_last_bytes dir cap bs w = (Ok cap, w\<lparr>written := written w @ bs\<rparr>)"
proof -
  let ?n = "of_nat (length bs) :: u64"
  have lt: "length bs < 2 ^ 64" using len u64_lt [of "forwarded_bytes cap"] by simp
  then have n: "usize_to_u64 (length bs) = Ok ?n" "unat ?n = length bs"
    by (simp_all add: usize_to_u64_def unat_of_nat_u64)
  have le: "?n \<le> forwarded_bytes cap" using len n(2) by (simp add: word_le_nat_alt)
  show ?thesis
  proof (cases "bs = []")
    case True
    with n le show ?thesis
      by (simp add: forward_last_bytes_def checked_sub_def forward_last_loop.simps usize_to_u64_def)
  next
    case False
    have "count_bytes (forwarded_bytes cap - ?n) (length bs) = Ok (forwarded_bytes cap)"
      using le len n(2) by (simp add: count_bytes_ok unat_sub)
    with False n le w show ?thesis
      by (simp add: forward_last_bytes_def checked_sub_def forward_last_loop.simps stream_write_willing)
  qed
qed

section \<open>Content-Length bodies\<close>

lemma stream_read_progress:
  "incoming r \<noteq> [] \<Longrightarrow> 0 < cap \<Longrightarrow> \<exists>bs r'. stream_read cap r = (Ok bs, r') \<and> bs \<noteq> []"
  using script.rd_progress [OF TrueI] by metis

lemma content_length_loop_spec:
  "content_length_loop js dir len m body rem bs r w = (res, r', w') \<Longrightarrow> rem \<le> len \<Longrightarrow>
     relay_spec dir (len - rem) (bs @ incoming r) w res w'"
proof (induction js dir len m body rem bs r w rule: content_length_loop.induct)
  case (1 js dir len m body rem bs r w)
  consider (over) "rem < length bs" | (last) "rem = length bs" | (more) "length bs < rem" by linarith
  then show ?case
  proof cases
    case over
    with "1.prems" show ?thesis by (auto simp: content_length_loop.simps [of _ _ _ _ _ rem] relay_spec_err_nothing)
  next
    case last
    show ?thesis
    proof (cases "len < 2 ^ 64")
      case True
      then obtain c where "forward_last_bytes dir c bs w = (res, w')" "agent_write_error c = None"
        "unat (forwarded_bytes c) = (len - rem) + length bs"
        using "1.prems" last
        by (subst (asm) content_length_loop.simps)
          (auto simp: usize_to_u64_def unat_of_nat_u64 Let_def split: prod.splits)
      then show ?thesis by (intro relay_spec_extend forward_last_bytes_spec)
    next
      case False
      with "1.prems" last show ?thesis
        by (subst (asm) content_length_loop.simps) (auto simp: usize_to_u64_def relay_spec_err_nothing)
    qed
  next
    case more
    obtain wres w1 where w1: "write_all bs w = (wres, w1)" by fastforce
    obtain rres r1 where r1: "stream_read (min (rem - length bs) RELAY_CHUNK_BYTES) r = (rres, r1)" by fastforce
    consider (werr) k where "wres = Err k" | (rerr) "wres = Ok ()" "\<exists>k. rres = Err k \<or> rres = Ok []"
      | (go) chunk where "wres = Ok ()" "rres = Ok chunk" "chunk \<noteq> []"
      by (cases wres; cases rres) auto
    then show ?thesis
    proof cases
      case werr
      with "1.prems" more w1 show ?thesis
        by (auto simp: content_length_loop.simps [of _ _ _ _ _ rem] intro: relay_spec_err_write)
    next
      case rerr
      with "1.prems" more w1 r1 have "\<exists>e. res = Err e" "w' = w1"
        by (auto simp: content_length_loop.simps [of _ _ _ _ _ rem])
      with w1 rerr show ?thesis by (auto intro: relay_spec_err_write)
    next
      case go
      have rec: "content_length_loop js dir len m (append_body_for_capture body bs m) (rem - length bs) chunk r1 w1
          = (res, r', w')"
        using "1.prems"(1) more w1 r1 go by (subst (asm) content_length_loop.simps) simp
      have "relay_spec dir (len - (rem - length bs)) (chunk @ incoming r1) w1 res w'"
        by (rule "1.IH" [OF refl _ _ w1 [symmetric] go(1) r1 [symmetric] go(2,3) rec])
          (use more "1.prems"(2) in auto)
      then have "relay_spec dir (len - rem + length bs) (incoming r) w1 res w'"
        using more "1.prems"(2) stream_read_data [OF r1 [unfolded go] go(3)] by simp
      then show ?thesis by (rule relay_spec_later) (use w1 go in \<open>simp add: write_all_ok\<close>)
    qed
  qed
qed

text \<open>A successful run has seen exactly the announced bytes and kept a bounded copy of them.\<close>

lemma content_length_loop_ok:
  "content_length_loop js dir len m body rem bs r w = (Ok cap, r', w') \<Longrightarrow>
   body = capture_of m d \<Longrightarrow> length d + rem \<le> usize_max \<Longrightarrow> src = bs @ incoming r \<Longrightarrow>
     bc_body cap = captured_body_from js (capture_of m (d @ take rem src)) m
     \<and> rem \<le> length src \<and> src = take rem src @ incoming r'
     \<and> (agent_write_error cap = None \<longrightarrow> written w' = written w @ take rem src)"
proof (induction js dir len m body rem bs r w arbitrary: d src rule: content_length_loop.induct)
  case (1 js dir len m body rem bs r w)
  have bs: "length bs \<le> rem"
    using "1.prems"(1)
    by (cases "rem < length bs") (simp_all add: content_length_loop.simps [of _ _ _ _ _ rem bs] Let_def)
  then have body: "append_body_for_capture body bs m = capture_of m (d @ bs)"
    using "1.prems"(2,3) by (simp add: append_body_capture_of)
  show ?case
  proof (cases "rem = length bs")
    case True
    with "1.prems"(1) obtain n where "forward_last_bytes dir
        \<lparr>bc_body = captured_body_from js (capture_of m (d @ bs)) m, forwarded_bytes = n, agent_write_error = None\<rparr> bs w
        = (Ok cap, w')" "r' = r"
      by (subst (asm) content_length_loop.simps) (auto simp: body Let_def split: sum.splits prod.splits)
    with True "1.prems"(4) show ?thesis by (auto dest!: forward_last_bytes_ok)
  next
    case False
    with bs "1.prems"(1) obtain chunk r1 w1 where go: "write_all bs w = (Ok (), w1)"
      "stream_read (min (rem - length bs) RELAY_CHUNK_BYTES) r = (Ok chunk, r1)" "chunk \<noteq> []"
      "content_length_loop js dir len m (append_body_for_capture body bs m) (rem - length bs) chunk r1 w1
         = (Ok cap, r', w')"
      by (subst (asm) content_length_loop.simps)
        (auto simp: Let_def split: sum.splits prod.splits if_splits)
    have ih: "bc_body cap = captured_body_from js (capture_of m ((d @ bs) @ take (rem - length bs) (chunk @ incoming r1))) m
        \<and> rem - length bs \<le> length (chunk @ incoming r1)
        \<and> chunk @ incoming r1 = take (rem - length bs) (chunk @ incoming r1) @ incoming r'
        \<and> (agent_write_error cap = None \<longrightarrow>
             written w' = written w1 @ take (rem - length bs) (chunk @ incoming r1))"
      by (rule "1.IH" [OF refl _ _ go(1) [symmetric] refl go(2) [symmetric] refl go(3) go(4) body])
        (use bs False "1.prems"(3) in auto)
    note data = stream_read_data [OF go(2,3)] write_all_ok [OF go(1)]
    have src: "take rem src = bs @ take (rem - length bs) (chunk @ incoming r1)"
      using "1.prems"(4) bs data(1) by simp
    from ih data bs "1.prems"(4) show ?thesis unfolding src by (simp, linarith)
  qed
qed

text \<open>And it does succeed when the announced bytes arrive and the peer accepts them.\<close>

lemma content_length_loop_willing:
  "write_steps w = [] \<Longrightarrow> length bs \<le> rem \<Longrightarrow> rem \<le> len \<Longrightarrow> len \<le> usize_max \<Longrightarrow> src = bs @ incoming r \<Longrightarrow>
   rem \<le> length src \<Longrightarrow>
     \<exists>cap r'. content_length_loop js dir len m body rem bs r w = (Ok cap, r', w\<lparr>written := written w @ take rem src\<rparr>)
       \<and> agent_write_error cap = None \<and> unat (forwarded_bytes cap) = len"
proof (induction js dir len m body rem bs r w arbitrary: src rule: content_length_loop.induct)
  case (1 js dir len m body rem bs r w)
  show ?case
  proof (cases "rem = length bs")
    case True
    have "len < 2 ^ 64" using "1.prems"(4) by (simp add: usize_max_def)
    then have "usize_to_u64 len = Ok (of_nat len)" "unat (of_nat len :: u64) = len"
      by (simp_all add: usize_to_u64_def unat_of_nat_u64)
    with True "1.prems" show ?thesis
      by (subst content_length_loop.simps) (simp add: forward_last_bytes_willing Let_def)
  next
    case False
    with "1.prems" have "incoming r \<noteq> []" "0 < min (rem - length bs) RELAY_CHUNK_BYTES"
      by (auto simp: RELAY_CHUNK_BYTES_def)
    then obtain chunk r1 where r1: "stream_read (min (rem - length bs) RELAY_CHUNK_BYTES) r = (Ok chunk, r1)"
      and ne: "chunk \<noteq> []"
      using stream_read_progress by blast
    note data = stream_read_data [OF r1 ne]
    note w1 = write_all_willing [OF "1.prems"(1), of bs]
    have "\<exists>cap r'. content_length_loop js dir len m (append_body_for_capture body bs m) (rem - length bs) chunk r1
        (w\<lparr>written := written w @ bs\<rparr>)
        = (Ok cap, r', w\<lparr>written := written w @ bs\<rparr>\<lparr>written := written (w\<lparr>written := written w @ bs\<rparr>)
             @ take (rem - length bs) (chunk @ incoming r1)\<rparr>)
        \<and> agent_write_error cap = None \<and> unat (forwarded_bytes cap) = len"
      by (rule "1.IH" [OF refl _ _ w1 [symmetric] refl r1 [symmetric] refl ne])
        (use False "1.prems" data in auto)
    with False "1.prems" w1 r1 ne data show ?thesis
      by (subst content_length_loop.simps) simp
  qed
qed

section \<open>Bodies that end with the stream\<close>

lemma until_eof_loop_spec:
  "until_eof_loop js m dir body count r w = (res, r', w') \<Longrightarrow>
     relay_spec dir (unat count) (incoming r) w res w'"
proof (induction js m dir body count r w rule: until_eof_loop.induct)
  case (1 js m dir body count r w)
  obtain rres r1 where r1: "stream_read RELAY_CHUNK_BYTES r = (rres, r1)" by fastforce
  consider (rerr) k where "rres = Err k" | (finish) "rres = Ok []" | (data) chunk where "rres = Ok chunk" "chunk \<noteq> []"
    by (cases rres) auto
  then show ?case
  proof cases
    case rerr
    with "1.prems" r1 show ?thesis
      by (subst (asm) until_eof_loop.simps) (auto simp: relay_spec_err_nothing)
  next
    case finish
    with "1.prems" r1 show ?thesis
      by (subst (asm) until_eof_loop.simps) (auto simp: relay_spec_def delivered_def)
  next
    case data
    note inc = stream_read_data [OF r1 [unfolded data] data(2)]
    obtain wres w1 where w1: "write_all chunk w = (wres, w1)" by fastforce
    show ?thesis
    proof (cases "wres = Ok () \<and> (\<exists>count'. count_bytes count (length chunk) = Ok count')")
      case True
      then obtain count' where go: "wres = Ok ()" "count_bytes count (length chunk) = Ok count'" by blast
      have rec: "until_eof_loop js m dir (append_body_for_capture body chunk m) count' r1 w1 = (res, r', w')"
        using "1.prems" r1 data w1 go by (subst (asm) until_eof_loop.simps) simp
      have "relay_spec dir (unat count') (incoming r1) w1 res w'"
        by (rule "1.IH" [OF r1 [symmetric] data w1 [symmetric] go rec])
      then show ?thesis
        using go w1 inc by (auto simp: count_bytes_ok intro!: relay_spec_later [where bs = chunk] write_all_ok)
    next
      case False
      with "1.prems" r1 data w1 have "(\<exists>e. res = Err e) \<and> w' = w1"
        by (subst (asm) until_eof_loop.simps) (auto split: sum.splits)
      with w1 inc show ?thesis by (auto intro: relay_spec_err_write)
    qed
  qed
qed

lemma until_eof_loop_ok:
  "until_eof_loop js m dir body count r w = (Ok cap, r', w') \<Longrightarrow> body = capture_of m d \<Longrightarrow>
   length d \<le> unat count \<Longrightarrow>
     bc_body cap = captured_body_from js (capture_of m (d @ incoming r)) m
     \<and> written w' = written w @ incoming r \<and> agent_write_error cap = None"
proof (induction js m dir body count r w arbitrary: d rule: until_eof_loop.induct)
  case (1 js m dir body count r w)
  obtain rres r1 where r1: "stream_read RELAY_CHUNK_BYTES r = (rres, r1)" by fastforce
  show ?case
  proof (cases "rres = Ok []")
    case True
    then have "incoming r = []" using stream_read_end [OF r1 [unfolded True]] by (simp add: RELAY_CHUNK_BYTES_def)
    with "1.prems" r1 True show ?thesis by (subst (asm) until_eof_loop.simps) auto
  next
    case False
    with "1.prems"(1) r1 obtain chunk w1 count' where go: "rres = Ok chunk" "chunk \<noteq> []"
      "write_all chunk w = (Ok (), w1)" "count_bytes count (length chunk) = Ok count'"
      "until_eof_loop js m dir (append_body_for_capture body chunk m) count' r1 w1 = (Ok cap, r', w')"
      by (subst (asm) until_eof_loop.simps) (auto split: sum.splits prod.splits if_splits)
    have fits: "length d + length chunk \<le> usize_max" "length (d @ chunk) \<le> unat count'"
      using "1.prems"(3) go(4) u64_lt [of count'] by (simp_all add: count_bytes_ok usize_max_def)
    have body: "append_body_for_capture body chunk m = capture_of m (d @ chunk)"
      using fits(1) "1.prems"(2) by (simp add: append_body_capture_of)
    from "1.IH" [OF r1 [symmetric] go(1,2) go(3) [symmetric] refl go(4,5) body fits(2)]
      stream_read_data [OF r1 [unfolded go(1)] go(2)] write_all_ok [OF go(3)]
    show ?thesis by simp
  qed
qed

lemma forward_until_eof_body_ok:
  assumes "forward_until_eof_body js m dir b r w = (Ok cap, r', w')"
  shows "bc_body cap = captured_body_from js (capture_of m (b @ incoming r)) m
    \<and> written w' = written w @ b @ incoming r \<and> agent_write_error cap = None"
proof -
  from assms obtain w1 where w1: "write_all b w = (Ok (), w1)"
    and fits: "length b < 2 ^ 64"
    and run: "until_eof_loop js m dir (append_body_for_capture ([], True) b m) (of_nat (length b)) r w1 = (Ok cap, r', w')"
    by (auto simp: forward_until_eof_body_def usize_to_u64_def Let_def split: sum.splits prod.splits if_splits)
  have "append_body_for_capture ([], True) b m = capture_of m b"
    using append_body_capture_of [of "[]" b m] fits by (simp add: usize_max_def)
  from until_eof_loop_ok [OF run this] fits write_all_ok [OF w1] show ?thesis
    by (simp add: unat_of_nat_u64)
qed

text \<open>The stream is closed by the peer, not cut by a fault.\<close>

fun ends_cleanly :: "reader \<Rightarrow> bool" where
  "ends_cleanly [] = True"
| "ends_cleanly (ReadFails k # r) = False"
| "ends_cleanly (Got bs # r) = (bs = [] \<or> ends_cleanly r)"

lemma stream_read_clean:
  "ends_cleanly r \<Longrightarrow> 0 < cap \<Longrightarrow>
     \<exists>bs r'. stream_read cap r = (Ok bs, r') \<and> (bs \<noteq> [] \<longrightarrow> ends_cleanly r')"
  by (cases "(cap, r)" rule: stream_read.cases) auto

lemma until_eof_loop_willing:
  "write_steps w = [] \<Longrightarrow> ends_cleanly r \<Longrightarrow> unat count + length (incoming r) < 2 ^ 64 \<Longrightarrow>
     \<exists>cap r' w'. until_eof_loop js m dir body count r w = (Ok cap, r', w')"
proof (induction js m dir body count r w rule: until_eof_loop.induct)
  case (1 js m dir body count r w)
  obtain chunk r1 where r1: "stream_read RELAY_CHUNK_BYTES r = (Ok chunk, r1)"
    "chunk \<noteq> [] \<longrightarrow> ends_cleanly r1"
    using stream_read_clean [OF "1.prems"(2), of RELAY_CHUNK_BYTES] by (auto simp: RELAY_CHUNK_BYTES_def)
  show ?case
  proof (cases "chunk = []")
    case True
    with r1 show ?thesis by (subst until_eof_loop.simps) simp
  next
    case False
    note data = stream_read_data [OF r1(1) False]
    from data "1.prems"(3) obtain count' where c: "count_bytes count (length chunk) = Ok count'"
      using count_bytes_fits [of count "length chunk"] by auto
    note w1 = write_all_willing [OF "1.prems"(1), of chunk]
    have "unat count' = unat count + length chunk" using c by (simp add: count_bytes_ok)
    with "1.IH" [OF r1(1) [symmetric] refl False w1 [symmetric] refl c] r1 False data c "1.prems"
    show ?thesis by (subst until_eof_loop.simps) (simp add: w1)
  qed
qed

section \<open>Chunked bodies\<close>

lemma feed_loop_frame:
  "feed_loop p js m c = (Ok x, c') \<Longrightarrow> ck_forwarded c' = ck_forwarded c
     \<and> (\<forall>cap. x = Some cap \<longrightarrow> forwarded_bytes cap = ck_forwarded c \<and> agent_write_error cap = None)"
proof (induction p js m c rule: feed_loop.induct)
  case (1 p js m c)
  have fin: "ck_forwarded c' = ck_forwarded c
     \<and> (\<forall>cap. x = Some cap \<longrightarrow> forwarded_bytes cap = ck_forwarded c \<and> agent_write_error cap = None)"
    if "chunked_end js m i c = (Ok x, c')" for i
    using that by (auto simp: chunked_end_def chunked_finish_def Let_def split: sum.splits)
  show ?case
  proof (cases "ck_state c")
    case Size
    with "1" show ?thesis
      by (auto simp: feed_loop_Size split: sum.splits parse_status.splits if_splits)
  next
    case (Data r)
    obtain b f where bf: "append_body_for_capture (ck_body c, ck_capture c)
      (take (min r (length (pending c))) (pending c)) m = (b, f)" by fastforce
    show ?thesis
    proof (cases "pending c = []")
      case False
      with "1.IH"(2) [OF Data False refl refl] "1.prems" Data bf show ?thesis
        by (simp add: feed_loop_Data [OF Data False refl bf])
    qed (use "1.prems" Data in \<open>auto simp: feed_loop_Data_Nil\<close>)
  next
    case DataTerminator
    with "1" show ?thesis by (auto simp: feed_loop_DataTerminator split: if_splits)
  next
    case Trailers
    with "1.prems" fin show ?thesis by (auto simp: feed_loop_Trailers split: if_splits option.splits)
  qed
qed

lemma feed_counts:
  assumes "feed p js m c bs = (Ok x, c')"
  shows "unat (ck_forwarded c') = unat (ck_forwarded c) + length bs"
    and "x = Some cap \<Longrightarrow> unat (forwarded_bytes cap) = unat (ck_forwarded c) + length bs
      \<and> agent_write_error cap = None"
  using assms by (auto simp: feed_def count_bytes_ok split: sum.splits dest!: feed_loop_frame)

text \<open>One piece: either the body ends here, or the counter stands after the piece.\<close>

lemma chunked_piece_spec:
  assumes "chunked_piece p js m dir c bs w = (res, c', w')"
  shows "res = Ok None \<Longrightarrow> written w' = written w @ bs
      \<and> unat (ck_forwarded c') = unat (ck_forwarded c) + length bs"
    and "res = Ok (Some cap) \<Longrightarrow> relay_spec dir (unat (ck_forwarded c)) (bs @ src) w (Ok cap) w'"
    and "res = Err e \<Longrightarrow> relay_spec dir (unat (ck_forwarded c)) (bs @ src) w (Err e :: (flow_error, 'j body_capture) result) w'"
proof -
  obtain fres c1 where f: "feed p js m c bs = (fres, c1)" by fastforce
  have last: "relay_spec dir (unat (ck_forwarded c)) (bs @ src) w lres w1"
    if "fres = Ok (Some cap0)" "forward_last_bytes dir cap0 bs w = (lres, w1)" for cap0 lres w1
    using feed_counts(2) [OF f [unfolded that(1)] refl]
    by (intro relay_spec_extend forward_last_bytes_spec [OF that(2)]) simp_all
  have err: "relay_spec dir b s v (Err e :: (flow_error, 'k body_capture) result) v' \<Longrightarrow>
      relay_spec dir b s v (Err e' :: (flow_error, 'l body_capture) result) v'" for b s v v' e e'
    by (auto simp: relay_spec_def)
  show "res = Ok None \<Longrightarrow> written w' = written w @ bs
      \<and> unat (ck_forwarded c') = unat (ck_forwarded c) + length bs"
    using assms f feed_counts(1) [of p js m c bs None c1]
    by (auto simp: chunked_piece_def dest: write_all_ok split: sum.splits option.splits prod.splits)
  show "res = Ok (Some cap) \<Longrightarrow> relay_spec dir (unat (ck_forwarded c)) (bs @ src) w (Ok cap) w'"
    using assms f last by (auto simp: chunked_piece_def split: sum.splits option.splits prod.splits)
  show "res = Err e \<Longrightarrow> relay_spec dir (unat (ck_forwarded c)) (bs @ src) w (Err e :: (flow_error, 'j body_capture) result) w'"
    using assms f by (auto simp: chunked_piece_def split: sum.splits option.splits prod.splits
        intro: relay_spec_err_nothing relay_spec_err_write err [OF last])
qed

lemma chunked_loop_spec:
  "chunked_loop p js m dir c r w = (res, r', w') \<Longrightarrow>
     relay_spec dir (unat (ck_forwarded c)) (incoming r) w res w'"
proof (induction p js m dir c r w rule: chunked_loop.induct)
  case (1 p js m dir c r w)
  obtain rres r1 where r1: "stream_read RELAY_CHUNK_BYTES r = (rres, r1)" by fastforce
  show ?case
  proof (cases "\<exists>chunk. rres = Ok chunk \<and> chunk \<noteq> []")
    case False
    with "1.prems" r1 show ?thesis
      by (subst (asm) chunked_loop.simps) (auto split: sum.splits intro: relay_spec_err_nothing)
  next
    case True
    then obtain chunk where chunk: "rres = Ok chunk" "chunk \<noteq> []" by blast
    note inc = conjunct1 [OF stream_read_data [OF r1 [unfolded chunk] chunk(2)]]
    obtain pres c1 w1 where piece: "chunked_piece p js m dir c chunk w = (pres, c1, w1)" by (metis prod_cases3)
    note spec = chunked_piece_spec [OF piece]
    show ?thesis
    proof (cases "pres = Ok None")
      case True
      have rec: "chunked_loop p js m dir c1 r1 w1 = (res, r', w')"
        using "1.prems" r1 chunk piece True by (subst (asm) chunked_loop.simps) simp
      from "1.IH" [OF r1 [symmetric] chunk piece [symmetric] True refl refl rec] spec(1) [OF True]
      show ?thesis unfolding inc by (intro relay_spec_later [where bs = chunk]) auto
    next
      case False
      with "1.prems" r1 chunk piece have "w' = w1 \<and> ((\<exists>e. pres = Err e \<and> res = Err e) \<or> (\<exists>cap. pres = Ok (Some cap) \<and> res = Ok cap))"
        by (subst (asm) chunked_loop.simps) (auto split: sum.splits option.splits)
      then show ?thesis unfolding inc using spec(2,3) by blast
    qed
  qed
qed

text \<open>The loop and the whole body in one read: same result.\<close>

lemma chunked_piece_willing:
  assumes "write_steps w = []" and "feed p js m c bs = (Ok x, c')"
  shows "chunked_piece p js m dir c bs w = (Ok x, c', w\<lparr>written := written w @ bs\<rparr>)"
  using assms feed_counts(2) [OF assms(2)]
  by (cases x) (simp_all add: chunked_piece_def write_all_willing forward_last_bytes_willing)

lemma chunked_loop_willing:
  assumes laws: "chunk_size_laws p"
  shows "write_steps w = [] \<Longrightarrow> chunked_inv m d c \<Longrightarrow> fst (feed p js m c (incoming r)) = Ok (Some cap) \<Longrightarrow>
    incoming r \<noteq> [] \<Longrightarrow>
    \<exists>r'. chunked_loop p js m dir c r w = (Ok cap, r', w\<lparr>written := written w @ incoming r\<rparr>)"
proof (induction "script_size r" arbitrary: c d r w rule: less_induct)
  case less
  from less.prems(4) obtain chunk r1 where r1: "stream_read RELAY_CHUNK_BYTES r = (Ok chunk, r1)" "chunk \<noteq> []"
    using stream_read_progress [of r RELAY_CHUNK_BYTES] by (auto simp: RELAY_CHUNK_BYTES_def)
  note inc = conjunct1 [OF stream_read_data [OF r1]]
  obtain x c1 where f: "feed p js m c chunk = (x, c1)" by fastforce
  show ?case
  proof (cases "incoming r1 = []")
    case True
    then have "x = Ok (Some cap)" using less.prems(3) f inc by simp
    with True r1 inc f show ?thesis
      by (subst chunked_loop.simps) (simp add: chunked_piece_willing [OF less.prems(1)])
  next
    case False
    have "x = Ok None"
      using feed_extend [OF laws less.prems(2) False, of js chunk] less.prems(3) f inc by auto
    note f = f [unfolded this]
    from feed_more(2) [OF laws less.prems(2) f] obtain d' where inv: "chunked_inv m d' c1" by blast
    have "fst (feed p js m c1 (incoming r1)) = Ok (Some cap)"
      using feed_more(1) [OF laws less.prems(2) f, of "incoming r1"] less.prems(3) inc by simp
    from less.hyps [OF stream_read_shrinks [OF r1] _ inv this False,
        of "w\<lparr>written := written w @ chunk\<rparr>"] less.prems(1) r1 inc
    show ?thesis
      by (subst chunked_loop.simps) (simp add: chunked_piece_willing [OF less.prems(1) f])
  qed
qed

lemma forward_chunked_body_willing:
  assumes laws: "chunk_size_laws p" and w: "write_steps w = []"
    and whole: "fst (feed p js m (chunked_new dir) (b @ incoming r)) = Ok (Some cap)" "b @ incoming r \<noteq> []"
  shows "\<exists>r'. forward_chunked_body p js m dir b r w = (Ok cap, r', w\<lparr>written := written w @ b @ incoming r\<rparr>)"
proof (cases "b = []")
  case True
  then show ?thesis
    using chunked_loop_willing [OF laws w chunked_inv_new] whole
    by (simp add: forward_chunked_body_def)
next
  case False
  obtain x c1 where f: "feed p js m (chunked_new dir) b = (x, c1)" by fastforce
  show ?thesis
  proof (cases "incoming r = []")
    case True
    then show ?thesis
      using whole f False chunked_piece_willing [OF w, of p js m "chunked_new dir" b "Some cap" c1 dir]
      by (simp add: forward_chunked_body_def)
  next
    case more: False
    have "x = Ok None"
      using feed_extend [OF laws chunked_inv_new [of m dir] more, of js b] whole(1) f by auto
    note f = f [unfolded this]
    from feed_more(2) [OF laws chunked_inv_new f] obtain d' where inv: "chunked_inv m d' c1" by blast
    have "fst (feed p js m c1 (incoming r)) = Ok (Some cap)"
      using feed_more(1) [OF laws chunked_inv_new f, of "incoming r"] whole by simp
    from chunked_loop_willing [OF laws _ inv this more, of "w\<lparr>written := written w @ b\<rparr>" dir] w False
    show ?thesis
      by (simp add: forward_chunked_body_def chunked_piece_willing [OF w f])
  qed
qed

section \<open>The contract of body forwarding\<close>

text \<open>
  What the message level relies on, whatever the framing: a prefix of the buffered bytes and of the
  stream is delivered, the reported count is the number of delivered bytes, and only the response
  direction can report a late write error.
\<close>

locale body_relay =
  fixes forward :: "bytes \<Rightarrow> reader \<Rightarrow> writer \<Rightarrow> 'j forwarded"
    and direction :: body_direction
  assumes relays: "forward b r w = (res, r', w') \<Longrightarrow> relay_spec direction 0 (b @ incoming r) w res w'"
begin

lemma prefix_delivered:
  "forward b r w = (res, r', w') \<Longrightarrow> \<exists>n. written w' = written w @ take n (b @ incoming r)"
  using relays [of b r w res r' w'] by (auto simp: relay_spec_def delivered_def)

lemma count_exact:
  "forward b r w = (Ok cap, r', w') \<Longrightarrow>
     length (written w') = length (written w) + unat (forwarded_bytes cap)"
  using relays [of b r w "Ok cap" r' w'] by (auto simp: relay_spec_def delivered_def)

lemma request_error_free:
  "forward b r w = (Ok cap, r', w') \<Longrightarrow> direction = Request \<Longrightarrow> agent_write_error cap = None"
  using relays [of b r w "Ok cap" r' w'] by (auto simp: relay_spec_def)

text \<open>The same step after a head: the head's bytes come first and are counted, too.\<close>

lemma after_head:
  assumes "forward b r w1 = (res, r', w')" and "written w1 = written w @ head"
  shows "\<exists>n. written w' = written w @ take n (head @ b @ incoming r)"
    and "res = Ok cap \<Longrightarrow> add_len (of_nat (length head)) (forwarded_bytes cap) = Ok total_count
      \<Longrightarrow> length head < 2 ^ 64 \<Longrightarrow> length (written w') = length (written w) + unat total_count"
proof -
  from prefix_delivered [OF assms(1)] obtain n where "written w' = written w1 @ take n (b @ incoming r)" ..
  with assms(2) show "\<exists>n. written w' = written w @ take n (head @ b @ incoming r)"
    by (intro exI [of _ "length head + n"]) simp
  show "length (written w') = length (written w) + unat total_count"
    if "res = Ok cap" "add_len (of_nat (length head)) (forwarded_bytes cap) = Ok total_count" "length head < 2 ^ 64"
    using count_exact [OF assms(1) [unfolded that(1)]] that(2,3) assms(2)
    by (simp add: add_len_def checked_add_Some unat_of_nat_u64 split: option.splits)
qed

end

lemma forward_empty_body_spec:
  "forward_empty_body js dir b r w = (res, r', w') \<Longrightarrow> relay_spec dir 0 (b @ incoming r) w res w'"
  by (cases dir)
    (auto simp: forward_empty_body_def relay_spec_def delivered_def Let_def
      split: if_splits prod.splits sum.splits)

lemma forward_content_length_body_spec:
  "forward_content_length_body js m dir len b r w = (res, r', w') \<Longrightarrow>
     relay_spec dir 0 (b @ incoming r) w res w'"
  using content_length_loop_spec [of js dir len m "([], True)" len b r w res r' w']
  by (auto simp: forward_content_length_body_def relay_spec_err_nothing split: if_splits)

lemma forward_chunked_body_spec:
  assumes "forward_chunked_body p js m dir b r w = (res, r', w')"
  shows "relay_spec dir 0 (b @ incoming r) w res w'"
proof (cases "b = []")
  case True
  with assms chunked_loop_spec [of p js m dir "chunked_new dir" r w res r' w'] show ?thesis
    by (simp add: forward_chunked_body_def chunked_new_def)
next
  case False
  obtain pres c1 w1 where piece: "chunked_piece p js m dir (chunked_new dir) b w = (pres, c1, w1)" by (metis prod_cases3)
  note spec = chunked_piece_spec [OF piece]
  have new: "unat (ck_forwarded (chunked_new dir)) = 0" by (simp add: chunked_new_def)
  show ?thesis
  proof (cases "pres = Ok None")
    case True
    with assms False piece have "chunked_loop p js m dir c1 r w1 = (res, r', w')"
      by (simp add: forward_chunked_body_def)
    from chunked_loop_spec [OF this] spec(1) [OF True] new show ?thesis
      by (intro relay_spec_later [where bs = b]) auto
  next
    case stop: False
    with assms False piece have "w' = w1 \<and> ((\<exists>e. pres = Err e \<and> res = Err e) \<or> (\<exists>cap. pres = Ok (Some cap) \<and> res = Ok cap))"
      by (auto simp: forward_chunked_body_def split: sum.splits option.splits)
    then show ?thesis using spec(2,3) new by metis
  qed
qed

lemma forward_until_eof_body_spec:
  assumes "forward_until_eof_body js m dir b r w = (res, r', w')"
  shows "relay_spec dir 0 (b @ incoming r) w res w'"
proof (cases "length b < 2 ^ 64")
  case True
  obtain wres w1 where w1: "write_all b w = (wres, w1)" by fastforce
  show ?thesis
  proof (cases wres)
    case (Inl k)
    with w1 have "b \<noteq> []" by auto
    with assms True w1 Inl show ?thesis
      by (auto simp: forward_until_eof_body_def usize_to_u64_def intro: relay_spec_err_write)
  next
    case (Inr u)
    with assms True w1 have
      "until_eof_loop js m dir (append_body_for_capture ([], True) b m) (of_nat (length b)) r w1 = (res, r', w')"
      by (auto simp: forward_until_eof_body_def usize_to_u64_def Let_def split: if_splits)
    from until_eof_loop_spec [OF this] True w1 Inr show ?thesis
      by (intro relay_spec_later [where bs = b]) (auto simp: unat_of_nat_u64 dest: write_all_ok)
  qed
qed (use assms in \<open>auto simp: forward_until_eof_body_def usize_to_u64_def relay_spec_err_nothing\<close>)

lemmas forward_specs = forward_empty_body_spec forward_content_length_body_spec
  forward_chunked_body_spec forward_until_eof_body_spec

interpretation body: body_relay "forward_body p js m dir framing" dir
  for p js m dir framing
  by unfold_locales (cases framing; auto simp: forward_body_def intro: forward_specs)

end
