(* ===== verification/Body_Props.thy ===== *)
theory Body_Props
  imports Body_Forward
begin

text \<open>
  The properties of body forwarding (\<^verbatim>\<open>transparent/relay.rs\<close>): transparency under every fault, and
  completeness for each framing.
\<close>

section \<open>Properties\<close>

text \<open>
  C6. Transparency of body forwarding, for every framing, every segmentation and every fault of
  either peer: what the receiving peer got is a prefix of the buffered bytes followed by the bytes
  of the sending peer, in order and unchanged; if the step reports success, its byte count is
  exactly the number of bytes the receiver accepted.
\<close>

theorem forward_body_transparent:
  "case forward_body p js m dir framing b r w of
     (res, r', w') \<Rightarrow>
       \<exists>n \<le> length (b @ incoming r). written w' = written w @ take n (b @ incoming r)
         \<and> (case res of Err e \<Rightarrow> True | Ok cap \<Rightarrow> unat (forwarded_bytes cap) = n)"
proof -
  obtain res r' w' where run: "forward_body p js m dir framing b r w = (res, r', w')" by (metis prod_cases3)
  from body.relays [OF run] show ?thesis
    unfolding run by (cases res) (auto simp: relay_spec_def delivered_def)
qed

text \<open>
  Completeness of a Content-Length body: when at least the announced number of bytes arrives
  and the receiver accepts them, exactly that many bytes are relayed, the rest stays in the stream,
  and the hooks get the first \<open>max_body_bytes\<close> of them, flagged as truncated iff the body is longer.
\<close>

theorem content_length_body_complete:
  assumes "write_steps w = []" and "length b \<le> len" and "len \<le> usize_max"
    and "len \<le> length (b @ incoming r)"
  shows "\<exists>cap r'. forward_content_length_body js m dir len b r w
      = (Ok cap, r', w\<lparr>written := written w @ take len (b @ incoming r)\<rparr>)
    \<and> bc_body cap = captured_body_from js (take m (take len (b @ incoming r)), len \<le> m) m
    \<and> unat (forwarded_bytes cap) = len \<and> agent_write_error cap = None
    \<and> incoming r' = drop len (b @ incoming r)"
proof -
  define src where "src = b @ incoming r"
  have long: "len \<le> length src" using assms(4) by (simp add: src_def)
  obtain cap r' where run: "content_length_loop js dir len m ([], True) len b r w
      = (Ok cap, r', w\<lparr>written := written w @ take len src\<rparr>)"
    and cap: "agent_write_error cap = None" "unat (forwarded_bytes cap) = len"
    using content_length_loop_willing [OF assms(1,2) le_refl assms(3) src_def long, of js dir m "([], True)"] by blast
  have seen: "bc_body cap = captured_body_from js (capture_of m ([] @ take len src)) m"
    and split: "src = take len src @ incoming r'"
    using content_length_loop_ok [OF run capture_of_Nil [symmetric] _ src_def] assms(3) by auto
  have "incoming r' = drop len src" using split by (metis append_take_drop_id same_append_eq)
  moreover have "capture_of m ([] @ take len src) = (take m (take len src), len \<le> m)"
    using long by (simp add: capture_of_def)
  moreover have "forward_content_length_body js m dir len b r w
      = content_length_loop js dir len m ([], True) len b r w"
    using assms(2) by (simp add: forward_content_length_body_def)
  ultimately show ?thesis using run cap seen unfolding src_def [symmetric] by auto
qed

theorem content_length_body_complete_witness:
  "\<exists>cap r'. forward_content_length_body (\<lambda>_. None :: unit option) 3 Request 4 ''ab'' [Got ''c'', Got ''dXY''] open_writer
      = (Ok cap, r', open_writer\<lparr>written := ''abcd''\<rparr>)
    \<and> bc_body cap = captured_body_from (\<lambda>_. None) (''abc'', False) 3
    \<and> unat (forwarded_bytes cap) = 4 \<and> agent_write_error cap = None \<and> incoming r' = ''XY''"
  using content_length_body_complete [of open_writer "''ab''" 4 "[Got ''c'', Got ''dXY'']" "\<lambda>_. None :: unit option" 3 Request]
  by (simp add: open_writer_def usize_max_def)

text \<open>
  C36. Completeness of a chunked body: a well-formed chunked body, with any trailer section and in
  any segmentation, is relayed byte for byte to a receiver that accepts it, and the hooks get the
  decoded payload, bounded by \<open>max_body_bytes\<close>.
\<close>

theorem chunked_body_complete:
  assumes "chunk_size_laws p" and "write_steps w = []" and "trailer_ok tr" and "[] \<notin> set chunks"
    and wire: "b @ incoming r = encode_chunked chunks tr" and "length (encode_chunked chunks tr) < 2 ^ 64"
  shows "\<exists>r'. forward_chunked_body p js m dir b r w =
    (Ok \<lparr>bc_body = captured_body_from js (take m (concat chunks), length (concat chunks) \<le> m) m,
         forwarded_bytes = of_nat (length (encode_chunked chunks tr)), agent_write_error = None\<rparr>,
     r', w\<lparr>written := written w @ encode_chunked chunks tr\<rparr>)"
proof -
  have "b @ incoming r \<noteq> []" unfolding wire by (simp add: encode_chunked_def)
  then show ?thesis
    using forward_chunked_body_willing [OF assms(1,2), of js m dir b r]
      feed_encoded [OF assms(1,3,4,6), of js m dir] by (simp add: wire capture_of_def)
qed

theorem chunked_body_complete_witness:
  "\<exists>r'. forward_chunked_body hex_chunk_size (\<lambda>_. None :: unit option) 9 Response (''2'' @ CRLF @ ''h'')
      [Got (''i'' @ CRLF @ ''0''), Got (CRLF @ CRLF)] open_writer =
    (Ok \<lparr>bc_body = captured_body_from (\<lambda>_. None) (''hi'', True) 9, forwarded_bytes = 12, agent_write_error = None\<rparr>,
     r', open_writer\<lparr>written := ''2'' @ CRLF @ ''hi'' @ CRLF @ ''0'' @ CRLF @ CRLF\<rparr>)"
  using chunked_body_complete [OF hex_chunk_size_laws, of open_writer "[]" "[''hi'']" "''2'' @ CRLF @ ''h''"
      "[Got (''i'' @ CRLF @ ''0''), Got (CRLF @ CRLF)]" "\<lambda>_. None :: unit option" 9 Response]
  by (simp add: encode_chunked_def encode_chunk_def show_hex.simps hex_digit_def char_of_def bit_0
      trailer_ok_def MAX_HTTP1_HEADER_BYTES_def open_writer_def)

text \<open>
  Completeness of a body that ends with the stream: if the sender closes without a fault and
  the receiver accepts, everything is relayed and counted.
\<close>

theorem until_eof_body_complete:
  assumes "write_steps w = []" and "ends_cleanly r" and "length (b @ incoming r) < 2 ^ 64"
  shows "\<exists>cap r' w'. forward_until_eof_body js m dir b r w = (Ok cap, r', w')
    \<and> written w' = written w @ b @ incoming r
    \<and> bc_body cap = captured_body_from js (take m (b @ incoming r), length (b @ incoming r) \<le> m) m
    \<and> unat (forwarded_bytes cap) = length (b @ incoming r) \<and> agent_write_error cap = None"
proof -
  have "unat (of_nat (length b) :: u64) + length (incoming r) < 2 ^ 64"
    using assms(3) by (simp add: unat_of_nat_u64)
  note loop = until_eof_loop_willing [OF _ assms(2) this, of _ js m dir "append_body_for_capture ([], True) b m"]
  have count: "usize_to_u64 (length b) = Ok (of_nat (length b))" using assms(3) by (simp add: usize_to_u64_def)
  obtain cap r' w' where "until_eof_loop js m dir (append_body_for_capture ([], True) b m) (of_nat (length b)) r
      (w\<lparr>written := written w @ b\<rparr>) = (Ok cap, r', w')"
    using loop [of "w\<lparr>written := written w @ b\<rparr>"] assms(1) by auto
  then have run: "forward_until_eof_body js m dir b r w = (Ok cap, r', w')"
    using count write_all_willing [OF assms(1), of b]
    by (cases "b = []") (simp_all add: forward_until_eof_body_def Let_def)
  have "length (written w') = length (written w) + unat (forwarded_bytes cap)"
    using body.count_exact [of undefined js m dir UntilEof b r w cap r' w'] run by (simp add: forward_body_def)
  with run forward_until_eof_body_ok [OF run] show ?thesis
    by (intro exI [of _ cap] exI [of _ r'] exI [of _ w']) (simp add: capture_of_def)
qed

theorem until_eof_body_complete_witness:
  "\<exists>cap r' w'. forward_until_eof_body (\<lambda>_. None :: unit option) 9 Response ''a'' [Got ''bc'', Got ''d''] open_writer = (Ok cap, r', w')
    \<and> written w' = ''abcd'' \<and> bc_body cap = captured_body_from (\<lambda>_. None) (''abcd'', True) 9
    \<and> unat (forwarded_bytes cap) = length ''abcd'' \<and> agent_write_error cap = None"
  using until_eof_body_complete [of open_writer "[Got ''bc'', Got ''d'']" "''a''" "\<lambda>_. None :: unit option" 9 Response]
  by (simp add: open_writer_def)

end
