(* ===== verification/Content_Encoding.thy ===== *)
theory Content_Encoding
  imports Body_Forward
begin

text \<open>
  \<^verbatim>\<open>transparent/content_encoding.rs\<close>: the bounded decoding of captured bodies for the hooks. The
  decompressors (\<^verbatim>\<open>flate2\<close>, \<^verbatim>\<open>brotli\<close>, \<^verbatim>\<open>zstd\<close> behind the crate's reader adapters) are the parameter
  \<open>open_layer\<close>: the reads a decompressor yields for an input, or \<open>None\<close> when it cannot be set up. The
  clock is the parameter \<open>late\<close>: whether the deadline has passed at the k-th check of a layer.
\<close>

section \<open>Codings\<close>

definition MAX_CODINGS :: nat where
  "MAX_CODINGS = 4"

definition CHUNK_BYTES :: nat where
  "CHUNK_BYTES = 16 * 1024"

datatype content_coding = Gzip | Deflate | Brotli | Zstd | Identity

definition content_coding_parse :: "bytes \<Rightarrow> (body_decoding_status, content_coding) result" where
  "content_coding_parse v =
     (if eq_ignore_ascii_case v ''gzip'' \<or> eq_ignore_ascii_case v ''x-gzip'' then Ok Gzip
      else if eq_ignore_ascii_case v ''deflate'' then Ok Deflate
      else if eq_ignore_ascii_case v ''br'' then Ok Brotli
      else if eq_ignore_ascii_case v ''zstd'' then Ok Zstd
      else if eq_ignore_ascii_case v ''identity'' then Ok Identity
      else Err UnsupportedEncoding)"

text \<open>The two header loops of \<^verbatim>\<open>ContentDecoder::codings\<close>.\<close>

fun check_transfer_encodings :: "header_value list \<Rightarrow> (body_decoding_status, unit) result" where
  "check_transfer_encodings [] = Ok ()"
| "check_transfer_encodings (v # vs) =
     (case hv_str v of
        None \<Rightarrow> Err InvalidEncoding
      | Some s \<Rightarrow>
          if eq_ignore_ascii_case (str_trim s) ''chunked'' then check_transfer_encodings vs
          else Err UnsupportedTransferEncoding)"

fun push_codings ::
  "content_coding list \<Rightarrow> bytes list \<Rightarrow> (body_decoding_status, content_coding list) result" where
  "push_codings acc [] = Ok acc"
| "push_codings acc (item # items) =
     (let coding = str_trim item
      in if coding = [] then Err InvalidEncoding
         else if length acc = MAX_CODINGS then Err BudgetExceeded
         else (case content_coding_parse coding of
                 Err e \<Rightarrow> Err e
               | Ok c \<Rightarrow> push_codings (acc @ [c]) items))"

fun push_header_codings ::
  "content_coding list \<Rightarrow> header_value list \<Rightarrow> (body_decoding_status, content_coding list) result" where
  "push_header_codings acc [] = Ok acc"
| "push_header_codings acc (v # vs) =
     (case hv_str v of
        None \<Rightarrow> Err InvalidEncoding
      | Some s \<Rightarrow>
          (case push_codings acc (str_split CHR '','' s) of
             Err e \<Rightarrow> Err e
           | Ok acc' \<Rightarrow> push_header_codings acc' vs))"

definition codings :: "headers \<Rightarrow> (body_decoding_status, content_coding list) result" where
  "codings hs =
     (case check_transfer_encodings (get_all hs ''transfer-encoding'') of
        Err e \<Rightarrow> Err e
      | Ok _ \<Rightarrow> push_header_codings [] (get_all hs ''content-encoding''))"

definition identity_only :: "headers \<Rightarrow> bool" where
  "identity_only hs =
     (case codings hs of Err _ \<Rightarrow> False | Ok cs \<Rightarrow> list_all (\<lambda>c. c = Identity) cs)"

section \<open>Decoding\<close>

type_synonym layer_opener = "content_coding \<Rightarrow> bytes \<Rightarrow> reader option"

function collect ::
  "(nat \<Rightarrow> bool) \<Rightarrow> nat \<Rightarrow> bool \<Rightarrow> nat \<Rightarrow> bytes \<Rightarrow> reader \<Rightarrow> (body_decoding_status, bytes \<times> bool) result" where
  "collect late limit input_truncated k output r =
     (if late k then Err BudgetExceeded
      else
        let remaining = limit - length output;
            read_limit = min CHUNK_BYTES (min usize_max (remaining + 1))
        in (case stream_read read_limit r of
              (Ok bs, r') \<Rightarrow>
                if bs = [] then
                  (case stream_read 1 r' of
                     (Ok bs', _) \<Rightarrow> if bs' = [] then Ok (output, input_truncated) else Err DecodingInvalidData
                   | (Err kind, _) \<Rightarrow> if kind = TimedOut then Err BudgetExceeded else Err DecodingInvalidData)
                else
                  let output' = output @ take (min (length bs) remaining) bs
                  in if remaining < length bs then Ok (output', True)
                     else collect late limit input_truncated (Suc k) output' r'
            | (Err kind, _) \<Rightarrow>
                if kind = TimedOut then Err BudgetExceeded
                else if input_truncated \<and> kind = UnexpectedEof then Ok (output, True)
                else Err DecodingInvalidData))"
  by pat_completeness auto
termination
  by (relation "measure (\<lambda>(late, l, t, k, out, r). script_size r)")
    (auto dest: stream_read_shrinks [OF sym])

declare collect.simps [simp del]

definition decode_layer ::
  "layer_opener \<Rightarrow> (nat \<Rightarrow> bool) \<Rightarrow> nat \<Rightarrow> content_coding \<Rightarrow> bytes \<Rightarrow> bool
   \<Rightarrow> (body_decoding_status, bytes \<times> bool) result" where
  "decode_layer open_layer late limit coding bs truncated =
     (if coding = Identity then Ok (bs, truncated)
      else case open_layer coding bs of
             None \<Rightarrow> Err DecodingInvalidData
           | Some r \<Rightarrow> collect late limit truncated 0 [] r)"

text \<open>The layers, outermost coding first; \<open>clock\<close> gives each layer its deadline checks.\<close>

fun decode_layers ::
  "layer_opener \<Rightarrow> (nat \<Rightarrow> nat \<Rightarrow> bool) \<Rightarrow> nat \<Rightarrow> nat \<Rightarrow> content_coding list \<Rightarrow> bytes \<Rightarrow> bool
   \<Rightarrow> (body_decoding_status, bytes \<times> bool) result" where
  "decode_layers open_layer clock limit i [] bs truncated = Ok (bs, truncated)"
| "decode_layers open_layer clock limit i (c # cs) bs truncated =
     (if c = Identity then decode_layers open_layer clock limit (Suc i) cs bs truncated
      else case decode_layer open_layer (clock i) limit c bs truncated of
             Err e \<Rightarrow> Err e
           | Ok (decoded, partial) \<Rightarrow>
               decode_layers open_layer clock limit (Suc i) cs decoded (truncated \<or> partial))"

definition decode ::
  "layer_opener \<Rightarrow> (nat \<Rightarrow> nat \<Rightarrow> bool) \<Rightarrow> nat \<Rightarrow> headers \<Rightarrow> bytes \<Rightarrow> bool
   \<Rightarrow> (body_decoding_status, bytes \<times> body_decoding_status) result" where
  "decode open_layer clock limit hs bs truncated =
     (case codings hs of
        Err e \<Rightarrow> Err e
      | Ok cs \<Rightarrow>
          (case decode_layers open_layer clock limit 0 (rev cs) (take limit bs)
                  (truncated \<or> limit < length bs) of
             Err e \<Rightarrow> Err e
           | Ok (out, clipped) \<Rightarrow> Ok (out, if clipped then DecodingTruncated else DecodingComplete)))"

section \<open>Captured bodies\<close>

definition prepare_body :: "'j json_parser \<Rightarrow> headers \<Rightarrow> 'j captured_body \<Rightarrow> 'j captured_body" where
  "prepare_body js hs b = (if identity_only hs then b else set_decoded js [] Pending b)"

definition body_ready :: "headers \<Rightarrow> 'j captured_body \<Rightarrow> bool \<Rightarrow> bool" where
  "body_ready hs b no_body =
     (if no_body then cb_status b = DecodingComplete \<and> cb_bytes b = []
      else identity_only hs
        \<and> (cb_status b = DecodingComplete \<or> cb_status b = DecodingTruncated)
        \<and> length (raw_bytes b) \<le> min (decode_limit b) DEFAULT_MAX_HTTP1_BODY_BYTES)"

text \<open>The part of \<^verbatim>\<open>decode_body\<close> after its two early returns.\<close>

definition decode_captured ::
  "layer_opener \<Rightarrow> (nat \<Rightarrow> nat \<Rightarrow> bool) \<Rightarrow> 'j json_parser \<Rightarrow> headers \<Rightarrow> 'j captured_body \<Rightarrow> 'j captured_body" where
  "decode_captured open_layer clock js hs b =
     (case decode open_layer clock (min (decode_limit b) DEFAULT_MAX_HTTP1_BODY_BYTES) hs
             (raw_bytes b) (raw_truncated b) of
        Ok (bs, status) \<Rightarrow> set_decoded js bs status b
      | Err status \<Rightarrow> set_decoded js [] status b)"

definition decode_body ::
  "layer_opener \<Rightarrow> (nat \<Rightarrow> nat \<Rightarrow> bool) \<Rightarrow> 'j json_parser \<Rightarrow> headers \<Rightarrow> 'j captured_body \<Rightarrow> bool
   \<Rightarrow> 'j captured_body" where
  "decode_body open_layer clock js hs b no_body =
     (if body_ready hs b no_body then b
      else if no_body then set_decoded js [] DecodingComplete b
      else decode_captured open_layer clock js hs b)"

text \<open>\<^verbatim>\<open>HttpExchange\<close> of \<^verbatim>\<open>hook.rs\<close>.\<close>

record 'j http_exchange =
  ex_flow :: flow_context
  ex_request :: http_request
  ex_request_body :: "'j captured_body"
  ex_response :: http_response
  ex_response_body :: "'j captured_body"

definition response_has_no_body :: "'j http_exchange \<Rightarrow> bool" where
  "response_has_no_body ex \<longleftrightarrow>
     req_method (ex_request ex) = ''HEAD''
     \<or> is_informational (res_status (ex_response ex))
     \<or> res_status (ex_response ex) = 204 \<or> res_status (ex_response ex) = 304"

definition requires_processing :: "'j http_exchange \<Rightarrow> bool" where
  "requires_processing ex \<longleftrightarrow>
     \<not> body_ready (req_headers (ex_request ex)) (ex_request_body ex) False
     \<or> \<not> body_ready (res_headers (ex_response ex)) (ex_response_body ex) (response_has_no_body ex)"

definition decode_exchange ::
  "layer_opener \<Rightarrow> (nat \<Rightarrow> nat \<Rightarrow> bool) \<Rightarrow> (nat \<Rightarrow> nat \<Rightarrow> bool) \<Rightarrow> 'j json_parser \<Rightarrow> 'j http_exchange
   \<Rightarrow> 'j http_exchange" where
  "decode_exchange open_layer clock_req clock_res js ex =
     (let ex' = ex\<lparr>ex_request_body :=
                    decode_body open_layer clock_req js (req_headers (ex_request ex)) (ex_request_body ex) False\<rparr>
      in ex'\<lparr>ex_response_body :=
               decode_body open_layer clock_res js (res_headers (ex_response ex')) (ex_response_body ex')
                 (response_has_no_body ex')\<rparr>)"

section \<open>Limits\<close>

lemma push_codings_bound:
  "push_codings acc items = Ok cs \<Longrightarrow> length acc \<le> MAX_CODINGS \<Longrightarrow> length cs \<le> MAX_CODINGS"
  by (induction acc items rule: push_codings.induct)
    (auto simp: Let_def split: if_splits sum.splits)

lemma push_header_codings_bound:
  "push_header_codings acc vs = Ok cs \<Longrightarrow> length acc \<le> MAX_CODINGS \<Longrightarrow> length cs \<le> MAX_CODINGS"
  by (induction acc vs rule: push_header_codings.induct)
    (auto dest: push_codings_bound split: option.splits sum.splits)

lemma codings_bound: "codings hs = Ok cs \<Longrightarrow> length cs \<le> MAX_CODINGS"
  by (auto simp: codings_def dest: push_header_codings_bound split: sum.splits)

text \<open>Failures are reported as such, never as a finished decoding.\<close>

definition decode_failures :: "body_decoding_status set" where
  "decode_failures =
     {UnsupportedEncoding, InvalidEncoding, UnsupportedTransferEncoding, DecodingInvalidData, BudgetExceeded}"

lemma check_transfer_encodings_err: "check_transfer_encodings vs = Err e \<Longrightarrow> e \<in> decode_failures"
  by (induction vs) (auto simp: decode_failures_def split: option.splits if_splits)

lemma push_codings_err: "push_codings acc items = Err e \<Longrightarrow> e \<in> decode_failures"
  by (induction acc items rule: push_codings.induct)
    (auto simp: Let_def content_coding_parse_def decode_failures_def split: if_splits sum.splits)

lemma push_header_codings_err: "push_header_codings acc vs = Err e \<Longrightarrow> e \<in> decode_failures"
  by (induction acc vs rule: push_header_codings.induct)
    (auto dest: push_codings_err simp: decode_failures_def split: option.splits sum.splits)

lemma collect_err: "collect late limit t k acc r = Err e \<Longrightarrow> e \<in> decode_failures"
proof (induction late limit t k acc r rule: collect.induct)
  case (1 late limit t k acc r)
  let ?rem = "limit - length acc"
  let ?n = "min CHUNK_BYTES (min usize_max (?rem + 1))"
  obtain res r1 where r1: "stream_read ?n r = (res, r1)" by fastforce
  show ?case
  proof (cases "\<not> late k \<and> (\<exists>bs. res = Ok bs \<and> bs \<noteq> [])")
    case True
    then obtain bs where bs: "\<not> late k" "res = Ok bs" "bs \<noteq> []" by blast
    show ?thesis
    proof (cases "?rem < length bs")
      case False
      show ?thesis
        by (rule "1.IH" [OF bs(1) refl refl r1 [symmetric] bs(2,3) refl False])
          (use "1.prems" bs False r1 in \<open>subst (asm) collect.simps, simp add: Let_def\<close>)
    qed (use "1.prems" bs r1 in \<open>subst (asm) collect.simps, simp add: Let_def\<close>)
  next
    case False
    with r1 "1.prems" show ?thesis
      by (subst (asm) collect.simps)
        (auto simp: Let_def decode_failures_def split: if_splits sum.splits prod.splits)
  qed
qed

lemma decode_layers_err: "decode_layers open_layer clock limit i cs bs t = Err e \<Longrightarrow> e \<in> decode_failures"
  by (induction open_layer clock limit i cs bs t rule: decode_layers.induct)
    (auto simp: decode_layer_def decode_failures_def dest: collect_err split: if_splits sum.splits option.splits)

lemma decode_err: "decode open_layer clock limit hs bs t = Err e \<Longrightarrow> e \<in> decode_failures"
  by (auto simp: decode_def codings_def dest: decode_layers_err check_transfer_encodings_err push_header_codings_err
      split: sum.splits)

text \<open>
  What a layer hands on: the first \<open>limit\<close> bytes of the decompressor's output, and a flag that is
  raised whenever that output was longer.
\<close>

lemma collect_ok:
  "collect late limit t k acc r = Ok (out, clipped) \<Longrightarrow> length acc \<le> limit \<Longrightarrow> limit < usize_max \<Longrightarrow>
     out = take limit (acc @ incoming r)
     \<and> (limit < length (acc @ incoming r) \<longrightarrow> clipped) \<and> (t \<longrightarrow> clipped)"
proof (induction late limit t k acc r rule: collect.induct)
  case (1 late limit t k acc r)
  let ?rem = "limit - length acc"
  let ?n = "min CHUNK_BYTES (min usize_max (?rem + 1))"
  obtain res r1 where r1: "stream_read ?n r = (res, r1)" by fastforce
  have n: "0 < ?n" "?n \<le> ?rem + 1" using "1.prems" by (auto simp: CHUNK_BYTES_def)
  have late: "\<not> late k" using "1.prems"(1) by (subst (asm) collect.simps) (auto split: if_splits)
  consider (fail) kind where "res = Err kind" | (finish) "res = Ok []" | (data) bs where "res = Ok bs" "bs \<noteq> []"
    by (cases res) auto
  then show ?case
  proof cases
    case fail
    with late r1 "1.prems" stream_read_fail [OF r1 [unfolded fail]] show ?thesis
      by (subst (asm) collect.simps) (auto simp: Let_def split: if_splits)
  next
    case finish
    with late r1 "1.prems" stream_read_end [OF r1 [unfolded finish] n(1)] show ?thesis
      by (subst (asm) collect.simps) (auto simp: Let_def split: if_splits sum.splits prod.splits)
  next
    case data
    note inc = stream_read_data [OF r1 [unfolded data] data(2)]
    show ?thesis
    proof (cases "?rem < length bs")
      case True
      with late r1 data "1.prems" have "out = acc @ take ?rem bs \<and> clipped"
        by (subst (asm) collect.simps) (auto simp: Let_def min_def)
      with inc True "1.prems" show ?thesis by simp
    next
      case False
      then have rec: "collect late limit t (Suc k) (acc @ bs) r1 = Ok (out, clipped)"
        using late r1 data "1.prems" by (subst (asm) collect.simps) (auto simp: Let_def min_def)
      have eq: "acc @ take (min (length bs) ?rem) bs = acc @ bs" using False by simp
      have "out = take limit ((acc @ bs) @ incoming r1)
          \<and> (limit < length ((acc @ bs) @ incoming r1) \<longrightarrow> clipped) \<and> (t \<longrightarrow> clipped)"
        by (rule "1.IH" [OF late refl refl r1 [symmetric] data refl False, unfolded eq, OF rec])
          (use "1.prems" False in auto)
      with inc show ?thesis by simp
    qed
  qed
qed

lemma decode_layer_bound:
  assumes "decode_layer open_layer late limit c bs t = Ok (out, clipped)" and "length bs \<le> limit" "limit < usize_max"
  shows "length out \<le> limit"
  using assms by (auto simp: decode_layer_def dest!: collect_ok split: if_splits option.splits)

lemma decode_layers_bound:
  "decode_layers open_layer clock limit i cs bs t = Ok (out, clipped) \<Longrightarrow> length bs \<le> limit \<Longrightarrow> limit < usize_max \<Longrightarrow>
     length out \<le> limit"
  by (induction open_layer clock limit i cs bs t rule: decode_layers.induct)
    (auto dest: decode_layer_bound split: if_splits sum.splits)

lemma decode_layers_clipped:
  "decode_layers open_layer clock limit i cs bs True = Ok (out, clipped) \<Longrightarrow> clipped"
  by (induction cs arbitrary: i bs) (auto split: if_splits sum.splits)

lemma decode_ok:
  assumes "decode open_layer clock limit hs bs t = Ok (out, status)" and "limit < usize_max"
  shows "length out \<le> limit" and "status = DecodingComplete \<or> status = DecodingTruncated"
    and "t \<or> limit < length bs \<Longrightarrow> status = DecodingTruncated"
proof -
  from assms(1) obtain cs clipped where
    run: "decode_layers open_layer clock limit 0 (rev cs) (take limit bs) (t \<or> limit < length bs) = Ok (out, clipped)"
    and status: "status = (if clipped then DecodingTruncated else DecodingComplete)"
    by (auto simp: decode_def split: sum.splits)
  have "length out \<le> limit" by (rule decode_layers_bound [OF run _ assms(2)]) simp
  moreover have "t \<or> limit < length bs \<Longrightarrow> clipped" using run by (auto dest: decode_layers_clipped)
  ultimately show "length out \<le> limit" "status = DecodingComplete \<or> status = DecodingTruncated"
    "t \<or> limit < length bs \<Longrightarrow> status = DecodingTruncated"
    using status by auto
qed

section \<open>The shortcut for identity bodies\<close>

lemma decode_layers_identity:
  "list_all (\<lambda>c. c = Identity) cs \<Longrightarrow> decode_layers open_layer clock limit i cs bs t = Ok (bs, t)"
  by (induction cs arbitrary: i) auto

lemma decode_identity:
  "identity_only hs \<Longrightarrow> length bs \<le> limit \<Longrightarrow>
     decode open_layer clock limit hs bs t = Ok (bs, if t then DecodingTruncated else DecodingComplete)"
  by (auto simp: identity_only_def decode_def decode_layers_identity list_all_iff split: sum.splits)

lemma set_decoded_same:
  "captured_body_from js (bs, full) m = set_decoded js bs (if full then DecodingComplete else DecodingTruncated)
     (captured_body_from js (bs, full) m)"
  by (simp add: set_decoded_def captured_body_from_def captured_from_bytes_def captured_from_truncated_bytes_def
      with_decode_limit_def)

lemma decode_captured_identity:
  assumes "identity_only hs" and "length bs \<le> min m DEFAULT_MAX_HTTP1_BODY_BYTES"
  shows "decode_captured open_layer clock js hs (captured_body_from js (bs, full) m) = captured_body_from js (bs, full) m"
  using decode_identity [OF assms] set_decoded_same [of js bs full m]
  by (cases full) (simp_all add: decode_captured_def)

section \<open>Properties\<close>

text \<open>
  C39. Decoding is bounded and honest: whatever the decompressors yield, the decoded view of a body
  never exceeds the smaller of its own limit and the global one, the relayed bytes are left as they
  are, a JSON view belongs to the decoded bytes, and a body whose raw capture was cut is never
  reported as complete.
\<close>

theorem decode_captured_bounded:
  "let b' = decode_captured open_layer clock js hs b
   in length (cb_bytes b') \<le> min (decode_limit b) DEFAULT_MAX_HTTP1_BODY_BYTES
      \<and> raw_bytes b' = raw_bytes b \<and> captured_ok js b'
      \<and> \<not> ((raw_truncated b \<or> min (decode_limit b) DEFAULT_MAX_HTTP1_BODY_BYTES < length (raw_bytes b))
             \<and> cb_status b' = DecodingComplete)"
proof -
  let ?limit = "min (decode_limit b) DEFAULT_MAX_HTTP1_BODY_BYTES"
  have small: "?limit < usize_max" by (simp add: DEFAULT_MAX_HTTP1_BODY_BYTES_def usize_max_def)
  show ?thesis
  proof (cases "decode open_layer clock ?limit hs (raw_bytes b) (raw_truncated b)")
    case (Inl status)
    have "status \<noteq> DecodingComplete" using decode_err [OF Inl] by (auto simp: decode_failures_def)
    with Inl show ?thesis by (simp add: decode_captured_def captured_ok_intros)
  next
    case (Inr x)
    obtain out status where x: "x = (out, status)" by (cases x)
    from decode_ok [OF Inr [unfolded x] small] Inr x show ?thesis
      by (auto simp: decode_captured_def captured_ok_intros)
  qed
qed

text \<open>
  Soundness of the shortcut for identity bodies: for a body the relay captured under
  identity-only headers and within the limits, running the full decoder gives back the very same
  captured body, so delivering it without decoding loses nothing.
\<close>

theorem identity_shortcut_sound:
  assumes "identity_only hs" and "length bs \<le> min m DEFAULT_MAX_HTTP1_BODY_BYTES"
  shows "decode_captured open_layer clock js hs (captured_body_from js (bs, full) m) = captured_body_from js (bs, full) m
    \<and> body_ready hs (captured_body_from js (bs, full) m) False
    \<and> prepare_body js hs (captured_body_from js (bs, full) m) = captured_body_from js (bs, full) m"
  using decode_captured_identity [OF assms] assms by (cases full) (simp_all add: body_ready_def prepare_body_def)

theorem identity_shortcut_sound_witness:
  "decode_captured (\<lambda>_ _. None) (\<lambda>_ _. False) (\<lambda>_. None :: unit option) []
     (captured_body_from (\<lambda>_. None) (''ab'', True) 5) = captured_body_from (\<lambda>_. None) (''ab'', True) 5
    \<and> body_ready [] (captured_body_from (\<lambda>_. None :: unit option) (''ab'', True) 5) False
    \<and> prepare_body (\<lambda>_. None :: unit option) [] (captured_body_from (\<lambda>_. None) (''ab'', True) 5)
      = captured_body_from (\<lambda>_. None) (''ab'', True) 5"
  using identity_shortcut_sound [of "[]" "''ab''" 5 "\<lambda>_ _. None" "\<lambda>_ _. False" "\<lambda>_. None :: unit option" True]
  by (simp add: identity_only_def codings_def get_all_def DEFAULT_MAX_HTTP1_BODY_BYTES_def)

end
