(* ===== verification/Hook.thy ===== *)
theory Hook
  imports Content_Encoding "HOL-Library.Sublist"
begin

text \<open>
  \<^verbatim>\<open>transparent/hook.rs\<close>: the hook chain, the bounded dispatcher queue and its worker. A hook is what
  it answers (it is code of the embedding application); which hooks are called, with what and in
  which order, is recorded in the results and the delivery log.
\<close>

section \<open>Events and hooks\<close>

datatype websocket_direction = ClientToServer | ServerToClient

record websocket_message =
  wm_flow :: flow_context
  wm_upgrade_request :: http_request
  wm_upgrade_response :: http_response
  wm_direction :: websocket_direction
  wm_sequence :: u64
  wm_text :: "bytes option"
  wm_binary :: "bytes option"

datatype 'j hook_event = HttpExchangeEvent "'j http_exchange" | WebSocketMessageEvent websocket_message

fun event_flow :: "'j hook_event \<Rightarrow> flow_context" where
  "event_flow (HttpExchangeEvent ex) = ex_flow ex"
| "event_flow (WebSocketMessageEvent msg) = wm_flow msg"

type_synonym hook_result = "(string, unit) result"

record 'j mitm_hook =
  hook_enabled :: bool
  hook_matches :: "flow_context \<Rightarrow> bool"
  hook_on_http_exchange :: "'j http_exchange \<Rightarrow> hook_result"
  hook_on_websocket_message :: "websocket_message \<Rightarrow> hook_result"

section \<open>The chain\<close>

text \<open>
  The loop of \<^verbatim>\<open>HookChain::on_http_exchange\<close>: hooks that are disabled or do not match are skipped, a
  failing hook does not stop the others, the last error is reported. The second result lists the
  indices of the hooks that were called.
\<close>

fun chain_http_loop ::
  "nat \<Rightarrow> 'j mitm_hook list \<Rightarrow> 'j http_exchange \<Rightarrow> string option \<Rightarrow> hook_result \<times> nat list" where
  "chain_http_loop i [] ex last_error = (case last_error of None \<Rightarrow> Ok () | Some e \<Rightarrow> Err e, [])"
| "chain_http_loop i (h # hs) ex last_error =
     (if \<not> hook_enabled h \<or> \<not> hook_matches h (ex_flow ex) then chain_http_loop (Suc i) hs ex last_error
      else
        (case chain_http_loop (Suc i) hs ex
                (case hook_on_http_exchange h ex of Err e \<Rightarrow> Some e | Ok _ \<Rightarrow> last_error) of
           (res, called) \<Rightarrow> (res, i # called)))"

definition chain_on_http_exchange :: "'j mitm_hook list \<Rightarrow> 'j http_exchange \<Rightarrow> hook_result \<times> nat list" where
  "chain_on_http_exchange hooks ex = chain_http_loop 0 hooks ex None"

fun chain_websocket_loop ::
  "nat \<Rightarrow> 'j mitm_hook list \<Rightarrow> websocket_message \<Rightarrow> string option \<Rightarrow> hook_result \<times> nat list" where
  "chain_websocket_loop i [] msg last_error = (case last_error of None \<Rightarrow> Ok () | Some e \<Rightarrow> Err e, [])"
| "chain_websocket_loop i (h # hs) msg last_error =
     (if \<not> hook_enabled h \<or> \<not> hook_matches h (wm_flow msg) then chain_websocket_loop (Suc i) hs msg last_error
      else
        (case chain_websocket_loop (Suc i) hs msg
                (case hook_on_websocket_message h msg of Err e \<Rightarrow> Some e | Ok _ \<Rightarrow> last_error) of
           (res, called) \<Rightarrow> (res, i # called)))"

definition chain_on_websocket_message :: "'j mitm_hook list \<Rightarrow> websocket_message \<Rightarrow> hook_result \<times> nat list" where
  "chain_on_websocket_message hooks msg = chain_websocket_loop 0 hooks msg None"

section \<open>The dispatcher\<close>

datatype hook_dispatch_status = NoHooks | Enqueued | Dropped | Closed

text \<open>
  The worker's channel: the queued events and whether the worker is gone. \<open>channel = None\<close> as long
  as no event was submitted (\<^verbatim>\<open>OnceLock\<close>).
\<close>

record 'j hook_channel =
  ch_queue :: "'j hook_event list"
  ch_closed :: bool

record 'j hook_dispatcher =
  chain :: "'j mitm_hook list"
  channel :: "'j hook_channel option"
  queue_capacity :: nat

definition DEFAULT_HOOK_QUEUE_CAPACITY :: nat where
  "DEFAULT_HOOK_QUEUE_CAPACITY = 1024"

definition dispatcher_with_capacity :: "nat \<Rightarrow> 'j hook_dispatcher" where
  "dispatcher_with_capacity n = \<lparr>chain = [], channel = None, queue_capacity = n\<rparr>"

definition dispatcher_push :: "'j mitm_hook \<Rightarrow> 'j hook_dispatcher \<Rightarrow> 'j hook_dispatcher" where
  "dispatcher_push h d = d\<lparr>chain := chain d @ [h]\<rparr>"

definition spawn_worker :: "'j hook_dispatcher \<Rightarrow> 'j hook_channel" where
  "spawn_worker d = (case channel d of Some ch \<Rightarrow> ch | None \<Rightarrow> \<lparr>ch_queue = [], ch_closed = False\<rparr>)"

definition submit_event ::
  "'j hook_event \<Rightarrow> 'j hook_dispatcher \<Rightarrow> hook_dispatch_status \<times> 'j hook_dispatcher" where
  "submit_event e d =
     (if chain d = [] then (NoHooks, d)
      else
        let ch = spawn_worker d; d' = d\<lparr>channel := Some ch\<rparr>
        in if ch_closed ch then (Closed, d')
           else if queue_capacity d \<le> length (ch_queue ch) then (Dropped, d')
           else (Enqueued, d\<lparr>channel := Some (ch\<lparr>ch_queue := ch_queue ch @ [e]\<rparr>)\<rparr>))"

definition submit :: "'j http_exchange \<Rightarrow> 'j hook_dispatcher \<Rightarrow> hook_dispatch_status \<times> 'j hook_dispatcher" where
  "submit ex d = submit_event (HttpExchangeEvent ex) d"

definition submit_websocket_message ::
  "websocket_message \<Rightarrow> 'j hook_dispatcher \<Rightarrow> hook_dispatch_status \<times> 'j hook_dispatcher" where
  "submit_websocket_message msg d = submit_event (WebSocketMessageEvent msg) d"

section \<open>The worker\<close>

text \<open>
  One round of \<^verbatim>\<open>run_hook_worker\<close>: the oldest event is taken; an exchange that needs decoding is
  decoded on a blocking thread first (\<open>decoded = None\<close>: that task failed and the event is skipped);
  then the chain sees it. The result is the observed event with the indices of the called hooks.
\<close>

datatype 'j observation = ObservedExchange "'j http_exchange" "nat list" | ObservedMessage websocket_message "nat list"

text \<open>
  \<^verbatim>\<open>spawn_blocking(decode_exchange)\<close>: \<open>panics\<close> says for which exchanges the task does not return.
\<close>

definition blocking_decode ::
  "layer_opener \<Rightarrow> (nat \<Rightarrow> nat \<Rightarrow> bool) \<Rightarrow> (nat \<Rightarrow> nat \<Rightarrow> bool) \<Rightarrow> 'j json_parser \<Rightarrow> ('j http_exchange \<Rightarrow> bool)
   \<Rightarrow> 'j http_exchange \<Rightarrow> 'j http_exchange option" where
  "blocking_decode open_layer clock_req clock_res js panics ex =
     (if panics ex then None else Some (decode_exchange open_layer clock_req clock_res js ex))"

definition process_event ::
  "('j http_exchange \<Rightarrow> 'j http_exchange option) \<Rightarrow> 'j mitm_hook list \<Rightarrow> 'j hook_event \<Rightarrow> 'j observation option" where
  "process_event decode_task hooks e =
     (case e of
        HttpExchangeEvent ex \<Rightarrow>
          (case (if requires_processing ex then decode_task ex else Some ex) of
             None \<Rightarrow> None
           | Some ex' \<Rightarrow> Some (ObservedExchange ex' (snd (chain_on_http_exchange hooks ex'))))
      | WebSocketMessageEvent msg \<Rightarrow>
          Some (ObservedMessage msg (snd (chain_on_websocket_message hooks msg))))"

definition worker_step ::
  "('j http_exchange \<Rightarrow> 'j http_exchange option) \<Rightarrow> 'j hook_dispatcher
   \<Rightarrow> ('j hook_event \<times> 'j observation option \<times> 'j hook_dispatcher) option" where
  "worker_step decode_task d =
     (case channel d of
        None \<Rightarrow> None
      | Some ch \<Rightarrow>
          (if ch_closed ch then None
           else case ch_queue ch of
                  [] \<Rightarrow> None
                | e # es \<Rightarrow> Some (e, process_event decode_task (chain d) e, d\<lparr>channel := Some (ch\<lparr>ch_queue := es\<rparr>)\<rparr>)))"

text \<open>
  The dispatcher as a state machine, with its history: the events accepted so far, those the worker
  took, and what the hooks observed. Relay tasks push hooks and submit events at any time, the
  worker runs between them, and it may die with what it has not taken (a panicking hook).
\<close>

record 'j dispatch_run =
  dispatcher :: "'j hook_dispatcher"
  accepted :: "'j hook_event list"
  taken :: "'j hook_event list"
  observed :: "'j observation list"

inductive dispatch_step ::
  "('j http_exchange \<Rightarrow> 'j http_exchange option) \<Rightarrow> 'j dispatch_run \<Rightarrow> 'j dispatch_run \<Rightarrow> bool"
  for decode_task where
  step_push: "dispatch_step decode_task s (s\<lparr>dispatcher := dispatcher_push h (dispatcher s)\<rparr>)"
| step_submit:
    "submit_event e (dispatcher s) = (status, d') \<Longrightarrow>
     dispatch_step decode_task s
       (s\<lparr>dispatcher := d', accepted := accepted s @ (if status = Enqueued then [e] else [])\<rparr>)"
| step_work:
    "worker_step decode_task (dispatcher s) = Some (e, obs, d') \<Longrightarrow>
     dispatch_step decode_task s
       (s\<lparr>dispatcher := d', taken := taken s @ [e],
          observed := observed s @ (case obs of None \<Rightarrow> [] | Some x \<Rightarrow> [x])\<rparr>)"
| step_worker_dies:
    "channel (dispatcher s) = Some ch \<Longrightarrow>
     dispatch_step decode_task s
       (s\<lparr>dispatcher := (dispatcher s)\<lparr>channel := Some (ch\<lparr>ch_closed := True\<rparr>)\<rparr>\<rparr>)"

inductive_cases dispatch_stepE: "dispatch_step decode_task s s'"

inductive dispatch_reachable ::
  "('j http_exchange \<Rightarrow> 'j http_exchange option) \<Rightarrow> nat \<Rightarrow> 'j dispatch_run \<Rightarrow> bool"
  for decode_task capacity where
  reach_init:
    "dispatch_reachable decode_task capacity
       \<lparr>dispatcher = dispatcher_with_capacity capacity, accepted = [], taken = [], observed = []\<rparr>"
| reach_step:
    "dispatch_reachable decode_task capacity s \<Longrightarrow> dispatch_step decode_task s s' \<Longrightarrow>
     dispatch_reachable decode_task capacity s'"

section \<open>Lemmas on the chain\<close>

definition selected_hooks :: "'j mitm_hook list \<Rightarrow> flow_context \<Rightarrow> nat list" where
  "selected_hooks hooks flow = filter (\<lambda>i. hook_enabled (hooks ! i) \<and> hook_matches (hooks ! i) flow) [0..<length hooks]"

lemma selected_hooks_Cons:
  "selected_hooks (h # hs) flow =
     (if hook_enabled h \<and> hook_matches h flow then [0] else []) @ map Suc (selected_hooks hs flow)"
  unfolding selected_hooks_def length_Cons upt_conv_Cons [OF zero_less_Suc] map_Suc_upt [symmetric]
  by (simp add: filter_map o_def)

text \<open>Both loops at once: what they share is which hooks answer and how.\<close>

lemma chain_http_called:
  "snd (chain_http_loop i hooks ex le) = map ((+) i) (selected_hooks hooks (ex_flow ex))"
proof (induction i hooks ex le rule: chain_http_loop.induct)
  case (2 i h hs ex le)
  then show ?case
    by (auto simp: selected_hooks_Cons o_def split: prod.split)
qed (simp add: selected_hooks_def)

lemma chain_websocket_called:
  "snd (chain_websocket_loop i hooks msg le) = map ((+) i) (selected_hooks hooks (wm_flow msg))"
proof (induction i hooks msg le rule: chain_websocket_loop.induct)
  case (2 i h hs msg le)
  then show ?case
    by (auto simp: selected_hooks_Cons o_def split: prod.split)
qed (simp add: selected_hooks_def)

text \<open>The reported error is that of the last selected hook that failed.\<close>

definition last_failure :: "('j mitm_hook \<Rightarrow> hook_result) \<Rightarrow> 'j mitm_hook list \<Rightarrow> flow_context \<Rightarrow> string option \<Rightarrow> string option" where
  "last_failure ask hooks flow start =
     fold (\<lambda>h acc. if hook_enabled h \<and> hook_matches h flow
                  then (case ask h of Err e \<Rightarrow> Some e | Ok _ \<Rightarrow> acc) else acc) hooks start"

lemma chain_http_result:
  "fst (chain_http_loop i hooks ex le)
     = (case last_failure (\<lambda>h. hook_on_http_exchange h ex) hooks (ex_flow ex) le of None \<Rightarrow> Ok () | Some e \<Rightarrow> Err e)"
  by (induction i hooks ex le rule: chain_http_loop.induct)
    (auto simp: last_failure_def split: prod.split sum.split)

lemma chain_websocket_result:
  "fst (chain_websocket_loop i hooks msg le)
     = (case last_failure (\<lambda>h. hook_on_websocket_message h msg) hooks (wm_flow msg) le of None \<Rightarrow> Ok () | Some e \<Rightarrow> Err e)"
  by (induction i hooks msg le rule: chain_websocket_loop.induct)
    (auto simp: last_failure_def split: prod.split sum.split)

section \<open>Lemmas on the dispatcher\<close>

fun observation_flow :: "'j observation \<Rightarrow> flow_context" where
  "observation_flow (ObservedExchange ex is) = ex_flow ex"
| "observation_flow (ObservedMessage msg is) = wm_flow msg"

definition dispatch_inv :: "nat \<Rightarrow> 'j dispatch_run \<Rightarrow> bool" where
  "dispatch_inv capacity s \<longleftrightarrow>
     queue_capacity (dispatcher s) = capacity
     \<and> (case channel (dispatcher s) of
           None \<Rightarrow> accepted s = [] \<and> taken s = []
         | Some ch \<Rightarrow> accepted s = taken s @ ch_queue ch \<and> length (ch_queue ch) \<le> capacity)"

lemma submit_event_inv:
  "dispatch_inv capacity s \<Longrightarrow> submit_event e (dispatcher s) = (status, d') \<Longrightarrow>
     dispatch_inv capacity (s\<lparr>dispatcher := d', accepted := accepted s @ (if status = Enqueued then [e] else [])\<rparr>)"
  by (auto simp: dispatch_inv_def submit_event_def spawn_worker_def Let_def split: if_splits option.splits)

lemma worker_step_inv:
  "dispatch_inv capacity s \<Longrightarrow> worker_step decode_task (dispatcher s) = Some (e, obs, d') \<Longrightarrow>
     dispatch_inv capacity (s\<lparr>dispatcher := d', taken := taken s @ [e], observed := os\<rparr>)"
  by (auto simp: dispatch_inv_def worker_step_def split: option.splits list.splits if_splits)

lemma dispatch_step_inv:
  "dispatch_step decode_task s s' \<Longrightarrow> dispatch_inv capacity s \<Longrightarrow> dispatch_inv capacity s'"
proof (induction rule: dispatch_step.induct)
  case (step_submit e s status d')
  then show ?case by (rule submit_event_inv [rotated])
next
  case (step_work s e obs d')
  then show ?case by (rule worker_step_inv [rotated])
qed (auto simp: dispatch_inv_def dispatcher_push_def split: option.splits)

lemma dispatch_reachable_inv:
  "dispatch_reachable decode_task capacity s \<Longrightarrow> dispatch_inv capacity s"
proof (induction rule: dispatch_reachable.induct)
  case reach_init
  show ?case by (simp add: dispatch_inv_def dispatcher_with_capacity_def)
next
  case (reach_step s s')
  then show ?case by (blast intro: dispatch_step_inv)
qed

lemma process_event_flow:
  "(\<And>ex ex'. decode_task ex = Some ex' \<Longrightarrow> ex_flow ex' = ex_flow ex) \<Longrightarrow>
   process_event decode_task hooks e = Some obs \<Longrightarrow> observation_flow obs = event_flow e"
  by (auto simp: process_event_def split: hook_event.splits option.splits if_splits)

lemma blocking_decode_flow:
  "blocking_decode open_layer cq cs js panics ex = Some ex' \<Longrightarrow> ex_flow ex' = ex_flow ex"
  by (auto simp: blocking_decode_def decode_exchange_def Let_def split: if_splits)

lemma observed_in_order:
  assumes keeps: "\<And>ex ex'. decode_task ex = Some ex' \<Longrightarrow> ex_flow ex' = ex_flow ex"
  shows "dispatch_reachable decode_task capacity s \<Longrightarrow>
    subseq (map observation_flow (observed s)) (map event_flow (taken s))"
proof (induction rule: dispatch_reachable.induct)
  case (reach_step s s')
  from reach_step.hyps(2) show ?case
  proof cases
    case (step_work e obs d')
    then have "process_event decode_task (chain (dispatcher s)) e = obs"
      by (auto simp: worker_step_def split: option.splits list.splits if_splits)
    then show ?thesis
      using step_work reach_step.IH process_event_flow [OF keeps, of decode_task]
      by (cases obs) (auto intro!: list_emb_append_mono simp: subseq_append')
  qed (use reach_step.IH in auto)
qed simp

text \<open>A dispatcher after its first hook and its first message.\<close>

definition first_message :: "'j mitm_hook \<Rightarrow> websocket_message \<Rightarrow> 'j dispatch_run" where
  "first_message h msg =
     \<lparr>dispatcher = \<lparr>chain = [h],
        channel = Some \<lparr>ch_queue = [WebSocketMessageEvent msg], ch_closed = False\<rparr>, queue_capacity = 2\<rparr>,
      accepted = [WebSocketMessageEvent msg], taken = [], observed = []\<rparr>"

lemma first_message_reachable: "dispatch_reachable decode_task 2 (first_message h msg)"
proof -
  let ?s0 = "\<lparr>dispatcher = dispatcher_with_capacity 2, accepted = [], taken = [], observed = []\<rparr>"
  let ?s1 = "?s0\<lparr>dispatcher := dispatcher_push h (dispatcher ?s0)\<rparr>"
  have sub: "submit_event (WebSocketMessageEvent msg) (dispatcher ?s1)
      = (Enqueued, dispatcher (first_message h msg))"
    by (simp add: submit_event_def dispatcher_push_def dispatcher_with_capacity_def spawn_worker_def
        first_message_def)
  have "dispatch_reachable decode_task 2 ?s1"
    by (rule reach_step [OF reach_init step_push])
  from reach_step [OF this step_submit [OF sub]] show ?thesis by (simp add: first_message_def)
qed

section \<open>Properties\<close>

text \<open>
  The hook chain: an event reaches every enabled hook that matches its flow, each exactly once
  and in the order of registration; a failing hook stops neither the others nor the relay, and the
  chain reports the error of the last hook that failed.
\<close>

theorem chain_delivers_to_matching_hooks:
  "chain_on_http_exchange hooks ex
     = (case last_failure (\<lambda>h. hook_on_http_exchange h ex) hooks (ex_flow ex) None of
          None \<Rightarrow> Ok () | Some e \<Rightarrow> Err e,
        selected_hooks hooks (ex_flow ex))
   \<and> chain_on_websocket_message hooks msg
     = (case last_failure (\<lambda>h. hook_on_websocket_message h msg) hooks (wm_flow msg) None of
          None \<Rightarrow> Ok () | Some e \<Rightarrow> Err e,
        selected_hooks hooks (wm_flow msg))"
  using chain_http_called [of 0 hooks ex None] chain_http_result [of 0 hooks ex None]
    chain_websocket_called [of 0 hooks msg None] chain_websocket_result [of 0 hooks msg None]
  by (simp add: chain_on_http_exchange_def chain_on_websocket_message_def prod_eq_iff map_idI)

text \<open>
  C35. The dispatcher never blocks and never grows: in every reachable state the worker has taken the
  accepted events in order with none skipped or duplicated, at most \<open>capacity\<close> accepted events are
  waiting, and what the hooks observed follows that order.
\<close>

theorem dispatch_fifo_bounded:
  assumes "dispatch_reachable (blocking_decode open_layer cq cs js panics) capacity s"
  shows "prefix (taken s) (accepted s) \<and> length (accepted s) \<le> length (taken s) + capacity
    \<and> subseq (map observation_flow (observed s)) (map event_flow (accepted s))"
proof -
  have inv: "prefix (taken s) (accepted s)" "length (accepted s) \<le> length (taken s) + capacity"
    using dispatch_reachable_inv [OF assms] by (auto simp: dispatch_inv_def split: option.splits)
  have "subseq (map observation_flow (observed s)) (map event_flow (taken s))"
    by (rule observed_in_order [OF _ assms]) (rule blocking_decode_flow)
  also have "subseq (map event_flow (taken s)) (map event_flow (accepted s))"
    using inv(1) by (auto simp: prefix_def)
  finally show ?thesis using inv by simp
qed

theorem dispatch_fifo_bounded_witness:
  "\<forall>(h :: unit mitm_hook) msg. prefix (taken (first_message h msg)) (accepted (first_message h msg))
    \<and> length (accepted (first_message h msg)) \<le> length (taken (first_message h msg)) + 2
    \<and> subseq (map observation_flow (observed (first_message h msg))) (map event_flow (accepted (first_message h msg)))"
  using dispatch_fifo_bounded [OF first_message_reachable] by blast

text \<open>
  Submitting is total and touches nothing but the queue: without hooks nothing is queued; a full
  queue or a dead worker drops the new event and keeps the queued ones; otherwise the event is
  appended.
\<close>

theorem submit_event_cases:
  "case submit_event e d of
     (status, d') \<Rightarrow>
       chain d' = chain d \<and> queue_capacity d' = queue_capacity d
       \<and> ch_queue (spawn_worker d') = ch_queue (spawn_worker d) @ (if status = Enqueued then [e] else [])
       \<and> (status = NoHooks \<longleftrightarrow> chain d = [])
       \<and> (status = Closed \<longleftrightarrow> chain d \<noteq> [] \<and> ch_closed (spawn_worker d))
       \<and> (status = Dropped \<longleftrightarrow> chain d \<noteq> [] \<and> \<not> ch_closed (spawn_worker d)
             \<and> queue_capacity d \<le> length (ch_queue (spawn_worker d)))"
  by (auto simp: submit_event_def spawn_worker_def Let_def split: option.splits)

end
