(* ===== verification/Websocket.thy ===== *)
theory Websocket
  imports Hook
begin

text \<open>
  \<^verbatim>\<open>transparent/websocket.rs\<close>: the message relay of an upgraded flow. Framing is done by
  \<^verbatim>\<open>tungstenite\<close>: what its two streams yield and whether its sends succeed is the schedule, a list of
  the branches \<^verbatim>\<open>tokio::select!\<close> takes; \<open>message_len\<close> is its \<^verbatim>\<open>Message::len\<close>. The relay is modelled for
  every schedule, that is for every interleaving of the two directions.
\<close>

section \<open>State\<close>

datatype ws_message =
  WsText bytes | WsBinary bytes | WsPing bytes | WsPong bytes | WsClose "bytes option" | WsFrame bytes

datatype ws_next = NextNone | NextMessage ws_message | NextError websocket_error

record ws_pick =
  pick_side :: websocket_direction
  pick_next :: ws_next
  pick_send :: "websocket_error option"

record websocket_upgrade =
  up_request :: http_request
  up_response :: http_response

record forwarded_websocket_message =
  fw_direction :: websocket_direction
  fw_message :: ws_message
  payload_bytes :: u64
  is_close :: bool

text \<open>
  The loop's variables, what was sent on each stream, and the messages handed to the hooks in the
  order of the calls.
\<close>

record 'j ws_state =
  ws_sequence :: u64
  ws_client_to_upstream :: u64
  ws_upstream_to_client :: u64
  ws_hooks :: "'j hook_dispatcher"
  to_upstream :: "ws_message list"
  to_client :: "ws_message list"
  ws_submitted :: "websocket_message list"

section \<open>Operations\<close>

definition is_agent_stream_end :: "websocket_direction \<Rightarrow> websocket_error \<Rightarrow> bool" where
  "is_agent_stream_end direction e \<longleftrightarrow>
     direction = ClientToServer
     \<and> (case e of WsConnectionClosed \<Rightarrow> True | WsIo k \<Rightarrow> is_peer_close_kind k | WsOther \<Rightarrow> False)"

definition payload_len :: "(ws_message \<Rightarrow> nat) \<Rightarrow> ws_message \<Rightarrow> (flow_error, u64) result" where
  "payload_len message_len msg = usize_to_u64 (message_len msg)"

fun message_is_close :: "ws_message \<Rightarrow> bool" where
  "message_is_close (WsClose r) = True"
| "message_is_close _ = False"

definition next_forwarded_message ::
  "(ws_message \<Rightarrow> nat) \<Rightarrow> websocket_direction \<Rightarrow> flow_operation \<Rightarrow> ws_next
   \<Rightarrow> (flow_error, forwarded_websocket_message option) result" where
  "next_forwarded_message message_len direction operation nxt =
     (case nxt of
        NextNone \<Rightarrow> Ok None
      | NextError e \<Rightarrow> if is_agent_stream_end direction e then Ok None else Err (WebSocket operation e)
      | NextMessage msg \<Rightarrow>
          (case payload_len message_len msg of
             Err e \<Rightarrow> Err e
           | Ok n \<Rightarrow> Ok (Some \<lparr>fw_direction = direction, fw_message = msg, payload_bytes = n,
                              is_close = message_is_close msg\<rparr>)))"

definition hook_message_from_websocket ::
  "flow_context \<Rightarrow> websocket_upgrade \<Rightarrow> websocket_direction \<Rightarrow> u64 \<Rightarrow> ws_message \<Rightarrow> websocket_message option" where
  "hook_message_from_websocket flow upgrade direction sequence msg =
     (let base = \<lparr>wm_flow = flow, wm_upgrade_request = up_request upgrade,
                  wm_upgrade_response = up_response upgrade, wm_direction = direction,
                  wm_sequence = sequence, wm_text = None, wm_binary = None\<rparr>
      in case msg of
           WsText t \<Rightarrow> Some (base\<lparr>wm_text := Some t\<rparr>)
         | WsBinary b \<Rightarrow> Some (base\<lparr>wm_binary := Some b\<rparr>)
         | _ \<Rightarrow> None)"

definition next_sequence :: "u64 \<Rightarrow> (flow_error, u64) result" where
  "next_sequence sequence =
     (case checked_add sequence 1 of None \<Rightarrow> Err ByteCountOverflow | Some s \<Rightarrow> Ok s)"

definition submit_hook_message ::
  "flow_context \<Rightarrow> websocket_upgrade \<Rightarrow> forwarded_websocket_message \<Rightarrow> 'j ws_state
   \<Rightarrow> (flow_error, unit) result \<times> 'j ws_state" where
  "submit_hook_message flow upgrade fw st =
     (case next_sequence (ws_sequence st) of
        Err e \<Rightarrow> (Err e, st)
      | Ok s \<Rightarrow>
          let st' = st\<lparr>ws_sequence := s\<rparr>
          in (case hook_message_from_websocket flow upgrade (fw_direction fw) s (fw_message fw) of
                None \<Rightarrow> (Ok (), st')
              | Some m \<Rightarrow>
                  (Ok (), st'\<lparr>ws_hooks := snd (submit_websocket_message m (ws_hooks st)),
                              ws_submitted := ws_submitted st @ [m]\<rparr>)))"

fun read_operation :: "websocket_direction \<Rightarrow> flow_operation" where
  "read_operation ClientToServer = ReadAgentWebSocket"
| "read_operation ServerToClient = ReadProviderWebSocket"

fun write_operation :: "websocket_direction \<Rightarrow> flow_operation" where
  "write_operation ClientToServer = WriteProviderWebSocket"
| "write_operation ServerToClient = WriteAgentWebSocket"

fun record_sent :: "websocket_direction \<Rightarrow> ws_message \<Rightarrow> 'j ws_state \<Rightarrow> 'j ws_state" where
  "record_sent ClientToServer msg st = st\<lparr>to_upstream := to_upstream st @ [msg]\<rparr>"
| "record_sent ServerToClient msg st = st\<lparr>to_client := to_client st @ [msg]\<rparr>"

fun count_payload :: "websocket_direction \<Rightarrow> u64 \<Rightarrow> 'j ws_state \<Rightarrow> (flow_error, 'j ws_state) result" where
  "count_payload ClientToServer n st =
     (case add_len (ws_client_to_upstream st) n of
        Err e \<Rightarrow> Err e | Ok s \<Rightarrow> Ok (st\<lparr>ws_client_to_upstream := s\<rparr>))"
| "count_payload ServerToClient n st =
     (case add_len (ws_upstream_to_client st) n of
        Err e \<Rightarrow> Err e | Ok s \<Rightarrow> Ok (st\<lparr>ws_upstream_to_client := s\<rparr>))"

text \<open>One branch of the select; \<open>Ok True\<close> means the loop goes on.\<close>

definition websocket_round ::
  "(ws_message \<Rightarrow> nat) \<Rightarrow> flow_context \<Rightarrow> websocket_upgrade \<Rightarrow> ws_pick \<Rightarrow> 'j ws_state
   \<Rightarrow> (flow_error, bool) result \<times> 'j ws_state" where
  "websocket_round message_len flow upgrade p st =
     (let side = pick_side p
      in case next_forwarded_message message_len side (read_operation side) (pick_next p) of
           Err e \<Rightarrow> (Err e, st)
         | Ok None \<Rightarrow> (Ok False, st)
         | Ok (Some fw) \<Rightarrow>
             (case submit_hook_message flow upgrade fw st of
                (Err e, st1) \<Rightarrow> (Err e, st1)
              | (Ok _, st1) \<Rightarrow>
                  (case pick_send p of
                     Some e \<Rightarrow> (Err (WebSocket (write_operation side) e), st1)
                   | None \<Rightarrow>
                       let st2 = record_sent side (fw_message fw) st1
                       in (case count_payload side (payload_bytes fw) st2 of
                             Err e \<Rightarrow> (Err e, st2)
                           | Ok st3 \<Rightarrow> (Ok (\<not> is_close fw), st3)))))"

text \<open>The loop on a schedule; \<open>None\<close> while it waits for more.\<close>

fun run_websocket_select_loop ::
  "(ws_message \<Rightarrow> nat) \<Rightarrow> flow_context \<Rightarrow> websocket_upgrade \<Rightarrow> ws_pick list \<Rightarrow> 'j ws_state
   \<Rightarrow> (flow_error, unit) result option \<times> 'j ws_state" where
  "run_websocket_select_loop message_len flow upgrade [] st = (None, st)"
| "run_websocket_select_loop message_len flow upgrade (p # ps) st =
     (case websocket_round message_len flow upgrade p st of
        (Err e, st') \<Rightarrow> (Some (Err e), st')
      | (Ok go_on, st') \<Rightarrow>
          if go_on then run_websocket_select_loop message_len flow upgrade ps st' else (Some (Ok ()), st'))"

definition websocket_start :: "'j hook_dispatcher \<Rightarrow> 'j ws_state" where
  "websocket_start d =
     \<lparr>ws_sequence = 0, ws_client_to_upstream = 0, ws_upstream_to_client = 0, ws_hooks = d,
      to_upstream = [], to_client = [], ws_submitted = []\<rparr>"

definition relay_websocket_messages ::
  "(ws_message \<Rightarrow> nat) \<Rightarrow> flow_context \<Rightarrow> websocket_upgrade \<Rightarrow> ws_pick list \<Rightarrow> 'j hook_dispatcher
   \<Rightarrow> (flow_error, unit) result option \<times> 'j ws_state" where
  "relay_websocket_messages message_len flow upgrade schedule d =
     run_websocket_select_loop message_len flow upgrade schedule (websocket_start d)"

section \<open>Received messages\<close>

text \<open>What the two streams yielded, in the order the loop saw it.\<close>

fun received :: "ws_pick list \<Rightarrow> (websocket_direction \<times> ws_message) list" where
  "received [] = []"
| "received (p # ps) =
     (case pick_next p of NextMessage m \<Rightarrow> [(pick_side p, m)] | _ \<Rightarrow> []) @ received ps"

definition from_side :: "websocket_direction \<Rightarrow> (websocket_direction \<times> ws_message) list \<Rightarrow> ws_message list" where
  "from_side d ms = map snd (filter (\<lambda>x. fst x = d) ms)"

fun hook_messages ::
  "flow_context \<Rightarrow> websocket_upgrade \<Rightarrow> nat \<Rightarrow> (websocket_direction \<times> ws_message) list \<Rightarrow> websocket_message list" where
  "hook_messages flow upgrade k [] = []"
| "hook_messages flow upgrade k ((d, m) # ms) =
     (case hook_message_from_websocket flow upgrade d (of_nat (Suc k)) m of None \<Rightarrow> [] | Some x \<Rightarrow> [x])
     @ hook_messages flow upgrade (Suc k) ms"

lemma from_side_simps [simp]:
  "from_side d [] = []"
  "from_side d (x # xs) = (if fst x = d then [snd x] else []) @ from_side d xs"
  "from_side d (xs @ ys) = from_side d xs @ from_side d ys"
  by (simp_all add: from_side_def)

lemma hook_messages_snoc:
  "hook_messages flow up k (ms @ [(d, m)]) = hook_messages flow up k ms
     @ (case hook_message_from_websocket flow up d (of_nat (Suc (k + length ms))) m of None \<Rightarrow> [] | Some x \<Rightarrow> [x])"
  by (induction flow up k ms rule: hook_messages.induct) auto

definition ws_inv ::
  "(ws_message \<Rightarrow> nat) \<Rightarrow> flow_context \<Rightarrow> websocket_upgrade \<Rightarrow> (websocket_direction \<times> ws_message) list
   \<Rightarrow> 'j ws_state \<Rightarrow> bool" where
  "ws_inv message_len flow up ms st \<longleftrightarrow>
     to_upstream st = from_side ClientToServer ms
     \<and> to_client st = from_side ServerToClient ms
     \<and> unat (ws_sequence st) = length ms
     \<and> ws_submitted st = hook_messages flow up 0 ms
     \<and> unat (ws_client_to_upstream st) = sum_list (map message_len (from_side ClientToServer ms))
     \<and> unat (ws_upstream_to_client st) = sum_list (map message_len (from_side ServerToClient ms))"

lemma next_sequence_ok: "next_sequence s = Ok s' \<Longrightarrow> unat s' = Suc (unat s)"
  by (auto simp: next_sequence_def checked_add_Some split: option.splits)

lemma next_sequence_of_nat: "next_sequence s = Ok s' \<Longrightarrow> unat s = k \<Longrightarrow> s' = of_nat (Suc k)"
  using next_sequence_ok [of s s'] by (metis of_nat_unat ucast_id)

lemma submit_hook_message_inv:
  assumes "submit_hook_message flow up fw st = (Ok u, st1)" and "ws_inv len flow up ms st"
  shows "ws_submitted st1 = hook_messages flow up 0 (ms @ [(fw_direction fw, fw_message fw)])
    \<and> unat (ws_sequence st1) = Suc (length ms)
    \<and> to_upstream st1 = to_upstream st \<and> to_client st1 = to_client st
    \<and> ws_client_to_upstream st1 = ws_client_to_upstream st
    \<and> ws_upstream_to_client st1 = ws_upstream_to_client st"
proof -
  from assms obtain s where s: "next_sequence (ws_sequence st) = Ok s"
    by (auto simp: submit_hook_message_def split: sum.splits)
  with assms(2) have "s = of_nat (Suc (length ms))" "unat s = Suc (length ms)"
    using next_sequence_of_nat [OF s] next_sequence_ok [OF s] by (auto simp: ws_inv_def)
  with assms s show ?thesis
    by (auto simp: submit_hook_message_def hook_messages_snoc ws_inv_def Let_def split: option.splits)
qed

lemma submit_hook_message_lists:
  "submit_hook_message flow up fw st = (res, st1) \<Longrightarrow> to_upstream st1 = to_upstream st \<and> to_client st1 = to_client st"
  by (auto simp: submit_hook_message_def Let_def split: sum.splits option.splits)

lemma count_payload_inv:
  assumes "count_payload side n st = Ok st'"
  shows "to_upstream st' = to_upstream st \<and> to_client st' = to_client st
    \<and> ws_sequence st' = ws_sequence st \<and> ws_submitted st' = ws_submitted st
    \<and> unat (ws_client_to_upstream st') = unat (ws_client_to_upstream st) + (if side = ClientToServer then unat n else 0)
    \<and> unat (ws_upstream_to_client st') = unat (ws_upstream_to_client st) + (if side = ServerToClient then unat n else 0)"
  using assms by (cases side) (auto simp: add_len_def checked_add_Some split: sum.splits option.splits)

lemma record_sent_fields [simp]:
  "to_upstream (record_sent side m st) = to_upstream st @ (if side = ClientToServer then [m] else [])"
  "to_client (record_sent side m st) = to_client st @ (if side = ServerToClient then [m] else [])"
  "ws_sequence (record_sent side m st) = ws_sequence st"
  "ws_submitted (record_sent side m st) = ws_submitted st"
  "ws_client_to_upstream (record_sent side m st) = ws_client_to_upstream st"
  "ws_upstream_to_client (record_sent side m st) = ws_upstream_to_client st"
  by (cases side; simp)+

lemma next_forwarded_message_cases:
  assumes "next_forwarded_message len side op nxt = Ok (Some fw)"
  shows "nxt = NextMessage (fw_message fw) \<and> fw_direction fw = side
    \<and> unat (payload_bytes fw) = len (fw_message fw) \<and> is_close fw = message_is_close (fw_message fw)"
  using assms
  by (auto simp: next_forwarded_message_def payload_len_def usize_to_u64_def unat_of_nat_u64
      split: ws_next.splits sum.splits if_splits)

lemma next_forwarded_message_none:
  "next_forwarded_message len side op nxt = Ok None \<Longrightarrow> \<nexists>m. nxt = NextMessage m"
  by (auto simp: next_forwarded_message_def split: sum.splits)

text \<open>A round that succeeds with a message keeps the relation to what was received.\<close>

lemma websocket_round_ok:
  assumes run: "websocket_round len flow up p st = (Ok go_on, st')" and inv: "ws_inv len flow up ms st"
  shows "ws_inv len flow up (ms @ received [p]) st' \<and> (go_on \<longrightarrow> (\<exists>m. pick_next p = NextMessage m))"
proof (cases "next_forwarded_message len (pick_side p) (read_operation (pick_side p)) (pick_next p)")
  case (Inr x)
  show ?thesis
  proof (cases x)
    case None
    with Inr run inv next_forwarded_message_none show ?thesis
      by (auto simp: websocket_round_def Let_def split: ws_next.splits)
  next
    case (Some fw)
    note fw = next_forwarded_message_cases [OF Inr [unfolded Some]]
    from run Inr Some obtain st1 where st1: "submit_hook_message flow up fw st = (Ok (), st1)"
      and cnt: "count_payload (pick_side p) (payload_bytes fw) (record_sent (pick_side p) (fw_message fw) st1) = Ok st'"
      by (auto simp: websocket_round_def Let_def split: sum.splits prod.splits option.splits)
    from submit_hook_message_inv [OF st1 inv] count_payload_inv [OF cnt] fw inv show ?thesis
      by (cases "pick_side p") (auto simp: ws_inv_def)
  qed
qed (use run in \<open>auto simp: websocket_round_def Let_def\<close>)

lemma ex_take_append:
  assumes "\<exists>n. P (xs @ take n ys)"
  shows "\<exists>n. P (take n (xs @ ys))"
proof -
  from assms obtain n where "P (xs @ take n ys)" ..
  then show ?thesis by (intro exI [of _ "length xs + n"]) simp
qed

text \<open>A failing round has sent this message or nothing.\<close>

lemma websocket_round_lists:
  assumes run: "websocket_round len flow up p st = (res, st')"
  shows "\<exists>k. to_upstream st' = to_upstream st @ from_side ClientToServer (take k (received [p]))
    \<and> to_client st' = to_client st @ from_side ServerToClient (take k (received [p]))
    \<and> (res = Ok True \<longrightarrow> k = length (received [p]))"
proof (cases "next_forwarded_message len (pick_side p) (read_operation (pick_side p)) (pick_next p)")
  case (Inr x)
  show ?thesis
  proof (cases x)
    case (Some fw)
    note fw = next_forwarded_message_cases [OF Inr [unfolded Some]]
    obtain sres st1 where st1: "submit_hook_message flow up fw st = (sres, st1)" by fastforce
    note lists = submit_hook_message_lists [OF st1]
    show ?thesis
    proof (cases "sres = Ok () \<and> pick_send p = None")
      case True
      with run Inr Some st1 have "to_upstream st' = to_upstream (record_sent (pick_side p) (fw_message fw) st1)
          \<and> to_client st' = to_client (record_sent (pick_side p) (fw_message fw) st1)"
        by (auto simp: websocket_round_def Let_def dest: count_payload_inv split: sum.splits)
      with lists fw show ?thesis by (intro exI [of _ 1]) auto
    next
      case False
      with run Inr Some st1 have "st' = st1" "res \<noteq> Ok True"
        by (auto simp: websocket_round_def Let_def split: sum.splits option.splits)
      with lists show ?thesis by (intro exI [of _ 0]) simp
    qed
  qed (use run Inr in \<open>auto simp: websocket_round_def Let_def intro: exI [of _ 0]\<close>)
qed (use run in \<open>auto simp: websocket_round_def Let_def intro: exI [of _ 0]\<close>)

lemma received_Cons: "received (p # ps) = received [p] @ received ps"
  by simp

lemma select_loop_ok:
  "run_websocket_select_loop len flow up ps st = (res, st') \<Longrightarrow> ws_inv len flow up ms st \<Longrightarrow>
     (res = None \<longrightarrow> ws_inv len flow up (ms @ received ps) st')
     \<and> (res = Some (Ok ()) \<longrightarrow> (\<exists>n. ws_inv len flow up (ms @ take n (received ps)) st'))"
proof (induction ps arbitrary: st ms)
  case (Cons p ps)
  obtain rres st1 where r: "websocket_round len flow up p st = (rres, st1)" by fastforce
  show ?case
  proof (cases rres)
    case (Inl e)
    with Cons.prems(1) r have "res = Some (Err e)" by simp
    then show ?thesis by simp
  next
    case (Inr go_on)
    note inv1 = conjunct1 [OF websocket_round_ok [OF r [unfolded Inr] Cons.prems(2)]]
    show ?thesis
    proof (cases go_on)
      case True
      have "run_websocket_select_loop len flow up ps st1 = (res, st')" using Cons.prems(1) r Inr True by simp
      from Cons.IH [OF this inv1] show ?thesis
        unfolding received_Cons [of p ps] append_assoc
        using ex_take_append [of "\<lambda>x. ws_inv len flow up (ms @ x) st'" "received [p]" "received ps"] by blast
    next
      case False
      with Cons.prems(1) r Inr have "res = Some (Ok ())" "st' = st1" by simp_all
      with inv1 show ?thesis
        unfolding received_Cons [of p ps]
        by (auto simp del: received.simps intro!: exI [of _ "length (received [p])"])
    qed
  qed
qed simp

lemma select_loop_lists:
  "run_websocket_select_loop len flow up ps st = (res, st') \<Longrightarrow>
     \<exists>n. to_upstream st' = to_upstream st @ from_side ClientToServer (take n (received ps))
       \<and> to_client st' = to_client st @ from_side ServerToClient (take n (received ps))"
proof (induction ps arbitrary: st)
  case (Cons p ps)
  obtain rres st1 where r: "websocket_round len flow up p st = (rres, st1)" by fastforce
  from websocket_round_lists [OF r] obtain k where
    k: "to_upstream st1 = to_upstream st @ from_side ClientToServer (take k (received [p]))"
      "to_client st1 = to_client st @ from_side ServerToClient (take k (received [p]))"
      "rres = Ok True \<longrightarrow> k = length (received [p])" by blast
  show ?case
  proof (cases "rres = Ok True")
    case True
    with Cons.prems r Cons.IH [of st1] obtain n where
      "to_upstream st' = to_upstream st1 @ from_side ClientToServer (take n (received ps))"
      "to_client st' = to_client st1 @ from_side ServerToClient (take n (received ps))" by auto
    with k True show ?thesis
      unfolding received_Cons [of p ps]
      by (intro exI [of _ "length (received [p]) + n"]) (simp del: received.simps)
  next
    case False
    with Cons.prems r have "st' = st1" by (auto split: sum.splits if_splits)
    moreover have "take k (received [p]) = take (min k (length (received [p]))) (received [p] @ received ps)"
      by (simp del: received.simps add: min_def)
    ultimately show ?thesis using k unfolding received_Cons [of p ps] by metis
  qed
qed simp

text \<open>Hook sequence numbers count the received messages, control frames included.\<close>

lemma hook_messages_sequences:
  "k + length ms < 2 ^ 64 \<Longrightarrow>
     sorted_wrt (<) (map (\<lambda>m. unat (wm_sequence m)) (hook_messages flow up k ms))
     \<and> (\<forall>m \<in> set (hook_messages flow up k ms). k < unat (wm_sequence m))"
proof (induction flow up k ms rule: hook_messages.induct)
  case (2 flow up k d m ms)
  have "hook_message_from_websocket flow up d (of_nat (Suc k)) m = Some x \<Longrightarrow> unat (wm_sequence x) = Suc k" for x
    using "2.prems" unat_of_nat_u64 [of "Suc k"]
    by (auto simp: hook_message_from_websocket_def Let_def simp del: of_nat_Suc split: ws_message.splits)
  with "2" show ?case by (auto simp del: of_nat_Suc split: option.split dest: Suc_lessD)
qed simp

lemma websocket_start_inv: "ws_inv len flow up [] (websocket_start d)"
  by (simp add: ws_inv_def websocket_start_def)

section \<open>Properties\<close>

text \<open>
  The WebSocket relay forwards both directions in order: for every interleaving and every
  outcome, what was sent to the upstream and to the agent are exactly the messages received from
  the opposite side within one common prefix of the receive order; while the relay is running that
  prefix is everything received so far.
\<close>

theorem websocket_relay_in_order:
  "case relay_websocket_messages message_len flow upgrade schedule d of
     (res, st) \<Rightarrow>
       \<exists>n. to_upstream st = from_side ClientToServer (take n (received schedule))
         \<and> to_client st = from_side ServerToClient (take n (received schedule))
         \<and> (case res of None \<Rightarrow> length (received schedule) \<le> n | Some r \<Rightarrow> True)"
proof -
  obtain res st where run: "relay_websocket_messages message_len flow upgrade schedule d = (res, st)" by fastforce
  note run' = run [unfolded relay_websocket_messages_def]
  show ?thesis
  proof (cases "res = None")
    case True
    with select_loop_ok [OF run' websocket_start_inv] run show ?thesis
      by (auto simp: ws_inv_def intro: exI [of _ "length (received schedule)"])
  next
    case False
    then obtain r where "res = Some r" by blast
    with select_loop_lists [OF run'] run show ?thesis by (simp add: websocket_start_def)
  qed
qed

text \<open>
  What the hooks and the byte counters say about a WebSocket relay that is running or ended
  normally: the hooks were given exactly the text and binary messages of the relayed prefix, with
  strictly increasing sequence numbers (their position in the receive order), and the two counters
  are the payload sums of the two directions.
\<close>

theorem websocket_observation_exact:
  "case relay_websocket_messages message_len flow upgrade schedule d of
     (res, st) \<Rightarrow>
       (case res of
          Some (Err e) \<Rightarrow> True
        | _ \<Rightarrow> \<exists>n. ws_submitted st = hook_messages flow upgrade 0 (take n (received schedule))
            \<and> sorted_wrt (<) (map (\<lambda>m. unat (wm_sequence m)) (ws_submitted st))
            \<and> unat (ws_client_to_upstream st)
                = sum_list (map message_len (from_side ClientToServer (take n (received schedule))))
            \<and> unat (ws_upstream_to_client st)
                = sum_list (map message_len (from_side ServerToClient (take n (received schedule)))))"
proof -
  obtain res st where run: "relay_websocket_messages message_len flow upgrade schedule d = (res, st)" by fastforce
  note ok = select_loop_ok [OF run [unfolded relay_websocket_messages_def] websocket_start_inv]
  show ?thesis
  proof (cases "\<exists>e. res = Some (Err e)")
    case False
    then have "res = None \<or> res = Some (Ok ())" by (cases res; cases "the res") auto
    with ok obtain n where inv: "ws_inv message_len flow upgrade (take n (received schedule)) st"
      by (auto intro: exI [of _ "length (received schedule)"]) (metis order.refl take_all)
    then have "length (take n (received schedule)) < 2 ^ 64"
      using u64_lt [of "ws_sequence st"] by (simp add: ws_inv_def)
    with hook_messages_sequences [of 0 "take n (received schedule)" flow upgrade] inv False
    show ?thesis unfolding run
      by (auto simp: ws_inv_def split: option.split sum.split)
  qed (use run in auto)
qed

end
