(* ===== verification/Relay.thy ===== *)
theory Relay
  imports Websocket
begin

text \<open>
  The message level of \<^verbatim>\<open>transparent/relay.rs\<close>: one HTTP/1 exchange of a decoded client flow is
  relayed to the upstream and back, captured, and handed to the hooks. The two sockets are scripted
  duplex streams, the hook dispatcher is part of the state.
\<close>

section \<open>State and parameters\<close>

text \<open>The third-party code an exchange runs through.\<close>

record 'j deps =
  dep_parse_request :: httparse_request
  dep_parse_response :: httparse_response
  dep_http :: http_crate
  dep_authority :: authority_parser
  dep_chunk_size :: chunk_size_parser
  dep_json :: "'j json_parser"

text \<open>\<^verbatim>\<open>MitmTimeouts\<close> of \<^verbatim>\<open>engine.rs\<close>, in milliseconds.\<close>

record mitm_timeouts =
  protocol_detection :: nat
  http1_request_head :: nat
  client_tls_handshake :: nat
  http1_response_head :: nat
  upstream_connect :: nat
  upstream_tls_handshake :: nat

record 'j relay_state =
  client :: duplex
  upstream :: duplex
  hooks :: "'j hook_dispatcher"

text \<open>\<^verbatim>\<open>DecodedClientFlow\<close> without its stream, which is \<open>client\<close> of the state.\<close>

record decoded_client_flow =
  df_context :: flow_context
  first_request :: http_request
  request_head_buffer :: head_buffer

text \<open>\<^verbatim>\<open>MessageCapture\<close> has the fields of \<^verbatim>\<open>BodyCapture\<close>.\<close>

type_synonym 'j message_capture = "'j body_capture"

record 'j relay_outcome =
  ro_protocol :: transparent_protocol
  ro_request :: http_request
  ro_request_body :: "'j captured_body"
  ro_response :: http_response
  ro_response_body :: "'j captured_body"
  client_to_upstream_bytes :: u64
  upstream_to_client_bytes :: u64

definition HTTP1_100_CONTINUE :: bytes where
  "HTTP1_100_CONTINUE = ''HTTP/1.1 100 Continue'' @ CRLF @ CRLF"

definition from_http1 ::
  "'j deps \<Rightarrow> mitm_timeouts \<Rightarrow> bool \<Rightarrow> flow_context \<Rightarrow> duplex \<Rightarrow> (flow_error, decoded_client_flow) result \<times> duplex" where
  "from_http1 deps timeouts elapsed context s =
     (case decode_request_head_with_timeout stream_read (dep_parse_request deps) (dep_http deps)
             (http1_request_head timeouts) elapsed (rd_side s) of
        (Err e, r) \<Rightarrow> (Err (Http1 ReadAgentRequestHead e), s\<lparr>rd_side := r\<rparr>)
      | (Ok (request, buffer), r) \<Rightarrow>
          (case validate_http_target (dep_authority deps) context request of
             Err e \<Rightarrow> (Err e, s\<lparr>rd_side := r\<rparr>)
           | Ok _ \<Rightarrow>
               (Ok \<lparr>df_context = context, first_request = request, request_head_buffer = buffer\<rparr>,
                s\<lparr>rd_side := r\<rparr>)))"

section \<open>The request\<close>

definition request_head_for_relay ::
  "http_request \<Rightarrow> head_buffer \<Rightarrow> bool \<Rightarrow> (flow_error, bytes) result" where
  "request_head_for_relay request buffer strip_expect_continue =
     (if strip_expect_continue
      then (case http_request_head_without_relay_headers request strip_expect_continue of
              Err e \<Rightarrow> Err (Http1 WriteProviderRequestHead e)
            | Ok bs \<Rightarrow> Ok bs)
      else Ok (head_bytes buffer))"

definition send_continue_response_to_client :: "writer \<Rightarrow> (flow_error, unit) result \<times> writer" where
  "send_continue_response_to_client w =
     (case write_all HTTP1_100_CONTINUE w of
        (Err k, w') \<Rightarrow> (Err (FlowIo WriteAgentContinueResponse k), w')
      | (Ok _, w') \<Rightarrow>
          (case flush w' of
             (Err k, w'') \<Rightarrow> (Err (FlowIo WriteAgentContinueResponse k), w'')
           | (Ok _, w'') \<Rightarrow> (Ok (), w'')))"

definition handles_expect_continue :: "http_request \<Rightarrow> body_framing \<Rightarrow> bool" where
  "handles_expect_continue request framing \<longleftrightarrow> has_expect_continue request \<and> framing \<noteq> Empty"

text \<open>The end of \<^verbatim>\<open>forward_request\<close>: body, flush, and the sum of the two byte counts.\<close>

definition forward_request_body ::
  "'j deps \<Rightarrow> body_framing \<Rightarrow> bytes \<Rightarrow> nat \<Rightarrow> nat \<Rightarrow> duplex \<Rightarrow> writer
   \<Rightarrow> (flow_error, 'j message_capture) result \<times> duplex \<times> writer" where
  "forward_request_body deps framing buffered max_body_bytes head_len c w =
     (case forward_body (dep_chunk_size deps) (dep_json deps) max_body_bytes Request framing buffered
             (rd_side c) w of
        (Err e, r, w') \<Rightarrow> (Err e, c\<lparr>rd_side := r\<rparr>, w')
      | (Ok cap, r, w') \<Rightarrow>
          (case flush w' of
             (Err k, w'') \<Rightarrow> (Err (FlowIo WriteProviderRequestHead k), c\<lparr>rd_side := r\<rparr>, w'')
           | (Ok _, w'') \<Rightarrow>
               (case usize_to_u64 head_len of
                  Err e \<Rightarrow> (Err e, c\<lparr>rd_side := r\<rparr>, w'')
                | Ok n \<Rightarrow>
                    (case add_len n (forwarded_bytes cap) of
                       Err e \<Rightarrow> (Err e, c\<lparr>rd_side := r\<rparr>, w'')
                     | Ok sent \<Rightarrow> (Ok (cap\<lparr>forwarded_bytes := sent\<rparr>), c\<lparr>rd_side := r\<rparr>, w'')))))"

definition forward_request ::
  "'j deps \<Rightarrow> http_request \<Rightarrow> head_buffer \<Rightarrow> nat \<Rightarrow> duplex \<Rightarrow> writer
   \<Rightarrow> (flow_error, 'j message_capture) result \<times> duplex \<times> writer" where
  "forward_request deps request buffer max_body_bytes c w =
     (case request_body_framing request of
        Err e \<Rightarrow> (Err (Http1 ReadAgentRequestBody e), c, w)
      | Ok framing \<Rightarrow>
          (case request_head_for_relay request buffer (handles_expect_continue request framing) of
             Err e \<Rightarrow> (Err e, c, w)
           | Ok head \<Rightarrow>
               (case write_all head w of
                  (Err k, w') \<Rightarrow> (Err (FlowIo WriteProviderRequestHead k), c, w')
                | (Ok _, w') \<Rightarrow>
                    if handles_expect_continue request framing then
                      (case send_continue_response_to_client (wr_side c) of
                         (Err e, cw) \<Rightarrow> (Err e, c\<lparr>wr_side := cw\<rparr>, w')
                       | (Ok _, cw) \<Rightarrow>
                           forward_request_body deps framing (buffered_body buffer) max_body_bytes
                             (length head) (c\<lparr>wr_side := cw\<rparr>) w')
                    else
                      forward_request_body deps framing (buffered_body buffer) max_body_bytes
                        (length head) c w')))"

section \<open>The response\<close>

definition decode_response_from_upstream ::
  "'j deps \<Rightarrow> mitm_timeouts \<Rightarrow> bool \<Rightarrow> reader
   \<Rightarrow> (flow_error, http_response \<times> head_buffer) result \<times> reader" where
  "decode_response_from_upstream deps timeouts elapsed r =
     (case decode_response_head_with_timeout stream_read (dep_parse_response deps) (dep_http deps)
             (http1_response_head timeouts) elapsed r of
        (Err e, r') \<Rightarrow> (Err (Http1 ReadProviderResponseHead e), r')
      | (Ok x, r') \<Rightarrow> (Ok x, r'))"

definition forward_response ::
  "'j deps \<Rightarrow> http_request \<Rightarrow> http_response \<Rightarrow> head_buffer \<Rightarrow> nat \<Rightarrow> reader \<Rightarrow> writer
   \<Rightarrow> (flow_error, 'j message_capture) result \<times> reader \<times> writer" where
  "forward_response deps request response buffer max_body_bytes r w =
     (case write_all (head_bytes buffer) w of
        (Err k, w') \<Rightarrow> (Err (FlowIo WriteAgentResponseHead k), r, w')
      | (Ok _, w') \<Rightarrow>
          (case response_body_framing (req_method request) response of
             Err e \<Rightarrow> (Err (Http1 ReadProviderResponseBody e), r, w')
           | Ok framing \<Rightarrow>
               (case forward_body (dep_chunk_size deps) (dep_json deps) max_body_bytes Response framing
                       (buffered_body buffer) r w' of
                  (Err e, r', w'') \<Rightarrow> (Err e, r', w'')
                | (Ok cap, r', w'') \<Rightarrow>
                    (case usize_to_u64 (length (head_bytes buffer)) of
                       Err e \<Rightarrow> (Err e, r', w'')
                     | Ok n \<Rightarrow>
                         (case add_len n (forwarded_bytes cap) of
                            Err e \<Rightarrow> (Err e, r', w'')
                          | Ok sent \<Rightarrow> (Ok (cap\<lparr>forwarded_bytes := sent\<rparr>), r', w''))))))"

definition shutdown_completed_agent_stream :: "writer \<Rightarrow> (flow_error, unit) result \<times> writer" where
  "shutdown_completed_agent_stream w =
     (case shutdown w of
        (Ok _, w') \<Rightarrow> (Ok (), w')
      | (Err k, w') \<Rightarrow>
          let e = FlowIo ShutdownAgent k
          in if \<not> is_agent_connection_close e then (Err e, w') else (Ok (), w'))"

section \<open>Captured exchanges\<close>

definition empty_message_capture :: "'j json_parser \<Rightarrow> u64 \<Rightarrow> 'j message_capture" where
  "empty_message_capture js n =
     \<lparr>bc_body = captured_from_bytes js [], forwarded_bytes = n, agent_write_error = None\<rparr>"

definition captured_exchange ::
  "'j json_parser \<Rightarrow> flow_context \<Rightarrow> http_request \<Rightarrow> http_response \<Rightarrow> 'j message_capture \<Rightarrow> 'j message_capture
   \<Rightarrow> 'j http_exchange" where
  "captured_exchange js flow request response request_capture response_capture =
     \<lparr>ex_flow = flow,
      ex_request = request,
      ex_request_body = prepare_body js (req_headers request) (bc_body request_capture),
      ex_response = response,
      ex_response_body = prepare_body js (res_headers response) (bc_body response_capture)\<rparr>"

definition submit_captured_exchange ::
  "'j json_parser \<Rightarrow> flow_context \<Rightarrow> http_request \<Rightarrow> http_response \<Rightarrow> 'j message_capture \<Rightarrow> 'j message_capture
   \<Rightarrow> 'j hook_dispatcher \<Rightarrow> 'j relay_outcome \<times> 'j hook_dispatcher" where
  "submit_captured_exchange js flow request response request_capture response_capture d =
     (let ex = captured_exchange js flow request response request_capture response_capture
      in (\<lparr>ro_protocol = protocol flow, ro_request = request, ro_request_body = ex_request_body ex,
           ro_response = response, ro_response_body = ex_response_body ex,
           client_to_upstream_bytes = forwarded_bytes request_capture,
           upstream_to_client_bytes = forwarded_bytes response_capture\<rparr>,
          snd (submit ex d)))"

text \<open>
  The complete response is submitted even when the agent took only part of it; the write or
  shutdown error is reported afterwards.
\<close>

definition forward_http_response_and_submit ::
  "'j deps \<Rightarrow> decoded_client_flow \<Rightarrow> http_response \<Rightarrow> head_buffer \<Rightarrow> 'j message_capture \<Rightarrow> nat
   \<Rightarrow> 'j relay_state \<Rightarrow> (flow_error, 'j relay_outcome) result \<times> 'j relay_state" where
  "forward_http_response_and_submit deps flow response buffer request_capture max_body_bytes st =
     (case forward_response deps (first_request flow) response buffer max_body_bytes
             (rd_side (upstream st)) (wr_side (client st)) of
        (Err e, r, w) \<Rightarrow>
          (Err e, st\<lparr>upstream := (upstream st)\<lparr>rd_side := r\<rparr>, client := (client st)\<lparr>wr_side := w\<rparr>\<rparr>)
      | (Ok response_capture, r, w) \<Rightarrow>
          (case (case agent_write_error response_capture of
                   Some e \<Rightarrow> (Err e, w)
                 | None \<Rightarrow> shutdown_completed_agent_stream w) of
             (close_result, w') \<Rightarrow>
               (case submit_captured_exchange (dep_json deps) (df_context flow) (first_request flow) response
                       request_capture response_capture (hooks st) of
                  (outcome, d) \<Rightarrow>
                    (case close_result of Err e \<Rightarrow> Err e | Ok _ \<Rightarrow> Ok outcome,
                     st\<lparr>upstream := (upstream st)\<lparr>rd_side := r\<rparr>,
                        client := (client st)\<lparr>wr_side := w'\<rparr>,
                        hooks := d\<rparr>))))"

definition relay_plain_http_to ::
  "'j deps \<Rightarrow> mitm_timeouts \<Rightarrow> bool \<Rightarrow> nat \<Rightarrow> decoded_client_flow \<Rightarrow> 'j relay_state
   \<Rightarrow> (flow_error, 'j relay_outcome) result \<times> 'j relay_state" where
  "relay_plain_http_to deps timeouts response_late max_body_bytes flow st =
     (case forward_request deps (first_request flow) (request_head_buffer flow) max_body_bytes
             (client st) (wr_side (upstream st)) of
        (Err e, c, uw) \<Rightarrow> (Err e, st\<lparr>client := c, upstream := (upstream st)\<lparr>wr_side := uw\<rparr>\<rparr>)
      | (Ok request_capture, c, uw) \<Rightarrow>
          (case decode_response_from_upstream deps timeouts response_late (rd_side (upstream st)) of
             (Err e, ur) \<Rightarrow> (Err e, st\<lparr>client := c, upstream := \<lparr>rd_side = ur, wr_side = uw\<rparr>\<rparr>)
           | (Ok (response, buffer), ur) \<Rightarrow>
               forward_http_response_and_submit deps flow response buffer request_capture max_body_bytes
                 (st\<lparr>client := c, upstream := \<lparr>rd_side = ur, wr_side = uw\<rparr>\<rparr>)))"

section \<open>WebSocket upgrades\<close>

definition forward_websocket_request_head :: "bytes \<Rightarrow> writer \<Rightarrow> (flow_error, u64) result \<times> writer" where
  "forward_websocket_request_head head w =
     (case write_all head w of
        (Err k, w') \<Rightarrow> (Err (FlowIo WriteProviderRequestHead k), w')
      | (Ok _, w') \<Rightarrow> (usize_to_u64 (length head), w'))"

text \<open>
  The accepted upgrade: the 101 response goes to the agent, the exchange is submitted with empty
  bodies. The bytes read beyond the two heads become the prefetch of the two WebSocket streams.
\<close>

definition forward_websocket_success ::
  "'j deps \<Rightarrow> decoded_client_flow \<Rightarrow> http_response \<Rightarrow> head_buffer \<Rightarrow> u64 \<Rightarrow> 'j relay_state
   \<Rightarrow> (flow_error, 'j relay_outcome) result \<times> 'j relay_state" where
  "forward_websocket_success deps flow response buffer request_head_bytes st =
     (case write_all (head_bytes buffer) (wr_side (client st)) of
        (Err k, w) \<Rightarrow>
          (Err (FlowIo WriteAgentResponseHead k), st\<lparr>client := (client st)\<lparr>wr_side := w\<rparr>\<rparr>)
      | (Ok _, w) \<Rightarrow>
          (case usize_to_u64 (length (head_bytes buffer)) of
             Err e \<Rightarrow> (Err e, st\<lparr>client := (client st)\<lparr>wr_side := w\<rparr>\<rparr>)
           | Ok n \<Rightarrow>
               (case submit_captured_exchange (dep_json deps) (df_context flow) (first_request flow) response
                       (empty_message_capture (dep_json deps) request_head_bytes)
                       (empty_message_capture (dep_json deps) n) (hooks st) of
                  (outcome, d) \<Rightarrow> (Ok outcome, st\<lparr>client := (client st)\<lparr>wr_side := w\<rparr>, hooks := d\<rparr>))))"

definition websocket_prefetch :: "decoded_client_flow \<Rightarrow> head_buffer \<Rightarrow> bytes \<times> bytes" where
  "websocket_prefetch flow response_buffer =
     (buffered_body (request_head_buffer flow), buffered_body response_buffer)"

definition combine_websocket_outcomes ::
  "'j relay_outcome \<Rightarrow> 'j ws_state \<Rightarrow> (flow_error, 'j relay_outcome) result" where
  "combine_websocket_outcomes o1 ws =
     (case add_len (client_to_upstream_bytes o1) (ws_client_to_upstream ws) of
        Err e \<Rightarrow> Err e
      | Ok a \<Rightarrow>
          (case add_len (upstream_to_client_bytes o1) (ws_upstream_to_client ws) of
             Err e \<Rightarrow> Err e
           | Ok b \<Rightarrow> Ok (o1\<lparr>client_to_upstream_bytes := a, upstream_to_client_bytes := b\<rparr>)))"

text \<open>
  \<open>open_ws\<close> stands for the two tungstenite streams: the schedule they produce from the sockets and
  the prefetched bytes. The result is \<open>None\<close> while the tunnel is open.
\<close>

definition relay_websocket_to ::
  "'j deps \<Rightarrow> mitm_timeouts \<Rightarrow> bool \<Rightarrow> nat \<Rightarrow> (ws_message \<Rightarrow> nat)
   \<Rightarrow> (bytes \<times> bytes \<Rightarrow> duplex \<Rightarrow> duplex \<Rightarrow> ws_pick list) \<Rightarrow> decoded_client_flow \<Rightarrow> 'j relay_state
   \<Rightarrow> (flow_error, 'j relay_outcome) result option \<times> 'j relay_state" where
  "relay_websocket_to deps timeouts response_late max_body_bytes message_len open_ws flow st =
     (case websocket_request_head_bytes (first_request flow) of
        Err e \<Rightarrow> (Some (Err (Http1 ReadAgentRequestHead e)), st)
      | Ok head \<Rightarrow>
          (case forward_websocket_request_head head (wr_side (upstream st)) of
             (Err e, uw) \<Rightarrow> (Some (Err e), st\<lparr>upstream := (upstream st)\<lparr>wr_side := uw\<rparr>\<rparr>)
           | (Ok request_head_bytes, uw) \<Rightarrow>
               (case decode_response_from_upstream deps timeouts response_late (rd_side (upstream st)) of
                  (Err e, ur) \<Rightarrow> (Some (Err e), st\<lparr>upstream := \<lparr>rd_side = ur, wr_side = uw\<rparr>\<rparr>)
                | (Ok (response, buffer), ur) \<Rightarrow>
                    let st1 = st\<lparr>upstream := \<lparr>rd_side = ur, wr_side = uw\<rparr>\<rparr>
                    in if res_status response \<noteq> 101 then
                         (case forward_http_response_and_submit deps flow response buffer
                                 (empty_message_capture (dep_json deps) request_head_bytes) max_body_bytes st1 of
                            (res, st2) \<Rightarrow> (Some res, st2))
                       else
                         (case forward_websocket_success deps flow response buffer request_head_bytes st1 of
                            (Err e, st2) \<Rightarrow> (Some (Err e), st2)
                          | (Ok upgrade_outcome, st2) \<Rightarrow>
                              (case relay_websocket_messages message_len (df_context flow)
                                      \<lparr>up_request = first_request flow, up_response = response\<rparr>
                                      (open_ws (websocket_prefetch flow buffer) (client st2) (upstream st2))
                                      (hooks st2) of
                                 (res, ws) \<Rightarrow>
                                   (case res of
                                      None \<Rightarrow> None
                                    | Some (Err e) \<Rightarrow> Some (Err e)
                                    | Some (Ok _) \<Rightarrow> Some (combine_websocket_outcomes upgrade_outcome ws),
                                    st2\<lparr>hooks := ws_hooks ws\<rparr>))))))"

definition relay_to ::
  "'j deps \<Rightarrow> mitm_timeouts \<Rightarrow> bool \<Rightarrow> nat \<Rightarrow> (ws_message \<Rightarrow> nat)
   \<Rightarrow> (bytes \<times> bytes \<Rightarrow> duplex \<Rightarrow> duplex \<Rightarrow> ws_pick list) \<Rightarrow> decoded_client_flow \<Rightarrow> 'j relay_state
   \<Rightarrow> (flow_error, 'j relay_outcome) result option \<times> 'j relay_state" where
  "relay_to deps timeouts response_late max_body_bytes message_len open_ws flow st =
     (if is_websocket_upgrade_request (first_request flow)
      then relay_websocket_to deps timeouts response_late max_body_bytes message_len open_ws flow st
      else (case relay_plain_http_to deps timeouts response_late max_body_bytes flow st of
              (res, st') \<Rightarrow> (Some res, st')))"

end
