(* ===== verification/Detection.thy ===== *)
theory Detection
  imports Flow_Types
begin

text \<open>
  \<^verbatim>\<open>transparent/protocol.rs\<close> and \<^verbatim>\<open>transparent/client_hello.rs\<close>: what the pipeline reads before it knows
  what a flow is. Both loops keep the bytes they consume, since a later stage replays them. The TLS
  parser is rustls' acceptor, a parameter (\<open>read_tls\<close>, \<open>accept\<close>).
\<close>

section \<open>Protocol detection\<close>

definition MAX_PROTOCOL_PREFIX_BYTES :: nat where
  "MAX_PROTOCOL_PREFIX_BYTES = 64"

datatype detected_protocol = DetectedPlainHttp | DetectedTls

datatype protocol_prefix = Detected detected_protocol | Incomplete | Unsupported

definition is_http_token_byte :: "byte \<Rightarrow> bool" where
  "is_http_token_byte b \<longleftrightarrow>
     is_ascii_alphanumeric b
     \<or> b \<in> {CHR ''!'', CHR ''#'', CHR ''$'', CHR ''%'', CHR ''&'', CHR 0x27, CHR ''*'', CHR ''+'', CHR ''-'',
            CHR ''.'', CHR ''^'', CHR ''_'', CHR 0x60, CHR ''|'', CHR ''~''}"

fun classify_token :: "nat \<Rightarrow> bytes \<Rightarrow> protocol_prefix" where
  "classify_token i [] = Incomplete"
| "classify_token i (b # bs) =
     (if b = CHR '' '' then (if 0 < i then Detected DetectedPlainHttp else Unsupported)
      else if \<not> is_http_token_byte b then Unsupported
      else classify_token (Suc i) bs)"

definition classify :: "bytes \<Rightarrow> protocol_prefix" where
  "classify p =
     (case p of
        [] \<Rightarrow> Incomplete
      | first # rest \<Rightarrow>
          if first = CHR 0x16 then
            (case rest of
               [] \<Rightarrow> Incomplete
             | major # _ \<Rightarrow> if major = CHR 0x03 then Detected DetectedTls else Unsupported)
          else classify_token 0 p)"

function detect_loop ::
  "(nat \<Rightarrow> 's \<Rightarrow> (io_kind, bytes) result \<times> 's) \<Rightarrow> bytes \<Rightarrow> 's
   \<Rightarrow> (flow_error, detected_protocol \<times> bytes) result \<times> 's" where
  "detect_loop rd p s =
     (case classify p of
        Detected proto \<Rightarrow> (Ok (proto, p), s)
      | Unsupported \<Rightarrow> (Err UnsupportedProtocol, s)
      | Incomplete \<Rightarrow>
          if MAX_PROTOCOL_PREFIX_BYTES \<le> length p then (Err UnsupportedProtocol, s)
          else
            (case rd (min (MAX_PROTOCOL_PREFIX_BYTES - length p) 16) s of
               (Err k, s') \<Rightarrow> (Err (FlowIo ReadAgentProtocol k), s')
             | (Ok chunk, s') \<Rightarrow>
                 if chunk = [] then (Err ClientClosedBeforeProtocol, s')
                 else detect_loop rd (p @ chunk) s'))"
  by pat_completeness auto
termination
  by (relation "measure (\<lambda>(rd, p, s). MAX_PROTOCOL_PREFIX_BYTES - length p)") (auto intro!: diff_less_mono2)

declare detect_loop.simps [simp del]

text \<open>The prefix becomes the read prefix of the flow (\<^verbatim>\<open>with_read_prefix\<close>).\<close>

definition detect ::
  "(nat \<Rightarrow> 's \<Rightarrow> (io_kind, bytes) result \<times> 's) \<Rightarrow> nat \<Rightarrow> bool \<Rightarrow> 's
   \<Rightarrow> (flow_error, detected_protocol \<times> bytes) result \<times> 's" where
  "detect rd detection_timeout elapsed s =
     (if elapsed then (Err (FlowTimeout ReadAgentProtocol detection_timeout), s)
      else detect_loop rd [] s)"

section \<open>The TLS ClientHello\<close>

definition DEFAULT_MAX_CLIENT_HELLO_BYTES :: nat where
  "DEFAULT_MAX_CLIENT_HELLO_BYTES = 64 * 1024"

definition CLIENT_HELLO_READ_CHUNK_BYTES :: nat where
  "CLIENT_HELLO_READ_CHUNK_BYTES = 16 * 1024"

text \<open>rustls' acceptor: a state that reads bytes, and the hello it may have accepted.\<close>

record ('a, 'h) acceptor =
  acceptor_default :: 'a
  read_tls :: "'a \<Rightarrow> bytes \<Rightarrow> (io_kind, nat) result \<times> 'a"
  accept :: "'a \<Rightarrow> (unit, 'h option) result \<times> 'a"
  hello_server_name :: "'h \<Rightarrow> bytes option"

function feed_acceptor :: "('a, 'h) acceptor \<Rightarrow> 'a \<Rightarrow> bytes \<Rightarrow> (flow_error, unit) result \<times> 'a" where
  "feed_acceptor tls a bs =
     (if bs = [] then (Ok (), a)
      else
        (case read_tls tls a bs of
           (Err k, a') \<Rightarrow> (Err (FlowIo ReadAgentTlsClientHello k), a')
         | (Ok n, a') \<Rightarrow>
             if n = 0 then (Err (MalformedTlsClientHello ''rustls did not consume ClientHello bytes''), a')
             else feed_acceptor tls a' (drop n bs)))"
  by pat_completeness auto
termination
  by (relation "measure (\<lambda>(tls, a, bs). length bs)") auto

declare feed_acceptor.simps [simp del]

definition accept_client_hello :: "('a, 'h) acceptor \<Rightarrow> 'a \<Rightarrow> (flow_error, 'h option) result \<times> 'a" where
  "accept_client_hello tls a =
     (case accept tls a of
        (Err _, a') \<Rightarrow> (Err (FlowIo ReadAgentTlsClientHello InvalidData), a')
      | (Ok h, a') \<Rightarrow> (Ok h, a'))"

record 'h inspected_client_hello =
  ich_accepted :: 'h
  ich_server_name :: "bytes option"
  ich_raw_bytes :: bytes

function read_client_hello_inner ::
  "('a, 'h) acceptor \<Rightarrow> nat \<Rightarrow> (nat \<Rightarrow> 's \<Rightarrow> (io_kind, bytes) result \<times> 's) \<Rightarrow> 'a \<Rightarrow> bytes \<Rightarrow> 's
   \<Rightarrow> (flow_error, 'h inspected_client_hello) result \<times> 's" where
  "read_client_hello_inner tls max_bytes rd a raw s =
     (if max_bytes \<le> length raw then (Err (TlsClientHelloTooLarge (length raw) max_bytes), s)
      else
        (case rd (min CLIENT_HELLO_READ_CHUNK_BYTES (max_bytes - length raw)) s of
           (Err k, s') \<Rightarrow> (Err (FlowIo ReadAgentTlsClientHello k), s')
         | (Ok chunk, s') \<Rightarrow>
             if chunk = [] then (Err ClientClosedBeforeProtocol, s')
             else
               (case feed_acceptor tls a chunk of
                  (Err e, a') \<Rightarrow> (Err e, s')
                | (Ok _, a') \<Rightarrow>
                    (case accept_client_hello tls a' of
                       (Err e, a'') \<Rightarrow> (Err e, s')
                     | (Ok (Some h), a'') \<Rightarrow>
                         (Ok \<lparr>ich_accepted = h, ich_server_name = hello_server_name tls h,
                              ich_raw_bytes = raw @ chunk\<rparr>, s')
                     | (Ok None, a'') \<Rightarrow>
                         read_client_hello_inner tls max_bytes rd a'' (raw @ chunk) s'))))"
  by pat_completeness auto
termination
  by (relation "measure (\<lambda>(tls, m, rd, a, raw, s). m - length raw)") (auto intro!: diff_less_mono2)

declare read_client_hello_inner.simps [simp del]

definition read_client_hello ::
  "('a, 'h) acceptor \<Rightarrow> nat \<Rightarrow> (nat \<Rightarrow> 's \<Rightarrow> (io_kind, bytes) result \<times> 's) \<Rightarrow> nat \<Rightarrow> bool \<Rightarrow> 's
   \<Rightarrow> (flow_error, 'h inspected_client_hello) result \<times> 's" where
  "read_client_hello tls max_bytes rd read_timeout elapsed s =
     (if elapsed then (Err (FlowTimeout ReadAgentTlsClientHello read_timeout), s)
      else read_client_hello_inner tls max_bytes rd (acceptor_default tls) [] s)"

section \<open>Classification is stable\<close>

lemma classify_token_append:
  "classify_token i p \<noteq> Incomplete \<Longrightarrow> classify_token i (p @ q) = classify_token i p"
  by (induction i p rule: classify_token.induct) auto

lemma classify_append: "classify p \<noteq> Incomplete \<Longrightarrow> classify (p @ q) = classify p"
proof (cases p)
  case (Cons first rest)
  assume dec: "classify p \<noteq> Incomplete"
  show ?thesis
  proof (cases "first = CHR 0x16")
    case True
    with Cons dec show ?thesis by (cases rest) (simp_all add: classify_def)
  next
    case False
    with Cons dec classify_token_append [of 0 p q] show ?thesis by (simp add: classify_def)
  qed
qed (simp add: classify_def)

lemma take_prefix_decided:
  assumes "classify p \<noteq> Incomplete" and "length p \<le> n"
  shows "classify (take n (p @ q)) = classify p"
  using assms classify_append [of p "take (n - length p) q"] by simp

context byte_source
begin

lemma detect_loop_lossless:
  assumes "invar s" and "length p \<le> MAX_PROTOCOL_PREFIX_BYTES"
    and "detect_loop rd p s = (Ok (proto, full), s')"
  shows "p @ content s = full @ content s' \<and> length full \<le> MAX_PROTOCOL_PREFIX_BYTES
    \<and> classify full = Detected proto"
  using assms
proof (induction "MAX_PROTOCOL_PREFIX_BYTES - length p" arbitrary: p s rule: less_induct)
  case less
  show ?case
  proof (cases "classify p")
    case Incomplete
    with less.prems(3) obtain chunk s1 where r: "rd (min (MAX_PROTOCOL_PREFIX_BYTES - length p) 16) s = (Ok chunk, s1)"
      and ne: "chunk \<noteq> []" and short: "length p < MAX_PROTOCOL_PREFIX_BYTES"
      and rec: "detect_loop rd (p @ chunk) s1 = (Ok (proto, full), s')"
      by (subst (asm) detect_loop.simps) (auto split: if_splits prod.splits sum.splits)
    note c = rd_data [OF less.prems(1) r ne] rd_invar [OF less.prems(1) r]
    have "MAX_PROTOCOL_PREFIX_BYTES - length (p @ chunk) < MAX_PROTOCOL_PREFIX_BYTES - length p"
      using short ne by (intro diff_less_mono2) auto
    from less.hyps [OF this c(2) _ rec] c(1) short show ?thesis by force
  qed (use less.prems in \<open>subst (asm) detect_loop.simps, auto\<close>)+
qed

lemma detect_loop_complete:
  assumes "invar s" and "length p \<le> MAX_PROTOCOL_PREFIX_BYTES"
    and "classify (take MAX_PROTOCOL_PREFIX_BYTES (p @ content s)) = Detected proto"
  shows "\<exists>full s'. detect_loop rd p s = (Ok (proto, full), s')"
  using assms
proof (induction "MAX_PROTOCOL_PREFIX_BYTES - length p" arbitrary: p s rule: less_induct)
  case less
  show ?case
  proof (cases "classify p = Incomplete")
    case False
    then have "classify p = Detected proto"
      using less.prems take_prefix_decided [of p MAX_PROTOCOL_PREFIX_BYTES "content s"] by simp
    then show ?thesis by (subst detect_loop.simps) simp
  next
    case True
    have short: "length p < MAX_PROTOCOL_PREFIX_BYTES"
    proof (rule ccontr)
      assume "\<not> length p < MAX_PROTOCOL_PREFIX_BYTES"
      with less.prems(2) have "length p = MAX_PROTOCOL_PREFIX_BYTES" by simp
      with less.prems(3) True show False by simp
    qed
    have "content s \<noteq> []" using less.prems(2,3) True by auto
    let ?n = "min (MAX_PROTOCOL_PREFIX_BYTES - length p) 16"
    have "0 < ?n" using short by simp
    then obtain chunk s1 where r: "rd ?n s = (Ok chunk, s1)" and ne: "chunk \<noteq> []"
      using rd_progress [OF less.prems(1) \<open>content s \<noteq> []\<close>] by blast
    note c = rd_data [OF less.prems(1) r ne] rd_invar [OF less.prems(1) r]
    have "MAX_PROTOCOL_PREFIX_BYTES - length (p @ chunk) < MAX_PROTOCOL_PREFIX_BYTES - length p"
      using short ne by (intro diff_less_mono2) auto
    moreover have "length (p @ chunk) \<le> MAX_PROTOCOL_PREFIX_BYTES" using c(1) short by auto
    ultimately have "\<exists>full s'. detect_loop rd (p @ chunk) s1 = (Ok (proto, full), s')"
      using less.hyps [of "p @ chunk" s1] c less.prems(3) by simp
    with True short r ne show ?thesis by (subst detect_loop.simps) simp
  qed
qed

lemma read_client_hello_lossless:
  assumes "invar s" and "length raw \<le> max_bytes"
    and "read_client_hello_inner tls max_bytes rd a raw s = (Ok hello, s')"
  shows "raw @ content s = ich_raw_bytes hello @ content s' \<and> length (ich_raw_bytes hello) \<le> max_bytes
    \<and> ich_server_name hello = hello_server_name tls (ich_accepted hello)"
  using assms
proof (induction "max_bytes - length raw" arbitrary: a raw s rule: less_induct)
  case less
  let ?n = "min CLIENT_HELLO_READ_CHUNK_BYTES (max_bytes - length raw)"
  from less.prems(3) obtain chunk s1 a1 h a2 where short: "length raw < max_bytes"
    and r: "rd ?n s = (Ok chunk, s1)" and ne: "chunk \<noteq> []"
    and f: "feed_acceptor tls a chunk = (Ok (), a1)" "accept_client_hello tls a1 = (Ok h, a2)"
    by (subst (asm) read_client_hello_inner.simps)
      (auto split: if_splits prod.splits sum.splits)
  note c = rd_data [OF less.prems(1) r ne] rd_invar [OF less.prems(1) r]
  have le: "length (raw @ chunk) \<le> max_bytes" using c(1) short by auto
  show ?case
  proof (cases h)
    case None
    have "max_bytes - length (raw @ chunk) < max_bytes - length raw"
      using short ne by (intro diff_less_mono2) auto
    moreover have "read_client_hello_inner tls max_bytes rd a2 (raw @ chunk) s1 = (Ok hello, s')"
      using less.prems(3) short r ne f None by (subst (asm) read_client_hello_inner.simps) simp
    ultimately show ?thesis using less.hyps [of "raw @ chunk" s1 a2] c le by simp
  next
    case (Some h')
    with less.prems(3) short r ne f have "hello = \<lparr>ich_accepted = h', ich_server_name = hello_server_name tls h',
        ich_raw_bytes = raw @ chunk\<rparr>" "s' = s1"
      by (subst (asm) read_client_hello_inner.simps, auto)+
    with c le show ?thesis by simp
  qed
qed

end

section \<open>Properties\<close>

text \<open>
  C38. As long as its timeout has not passed, protocol detection depends only on the client's first 64 bytes, not on how
  they arrive: it reports a protocol exactly if those bytes classify as that protocol.
\<close>

theorem detection_segmentation_independent:
  "(\<exists>used r'. detect stream_read timeout False r = (Ok (proto, used), r'))
   \<longleftrightarrow> classify (take 64 (incoming r)) = Detected proto"
proof
  assume "\<exists>used r'. detect stream_read timeout False r = (Ok (proto, used), r')"
  then obtain used r' where "detect_loop stream_read [] r = (Ok (proto, used), r')"
    by (auto simp: detect_def)
  from script.detect_loop_lossless [OF TrueI _ this] take_prefix_decided [of used 64 "incoming r'"]
  show "classify (take 64 (incoming r)) = Detected proto" by (simp add: MAX_PROTOCOL_PREFIX_BYTES_def)
next
  assume "classify (take 64 (incoming r)) = Detected proto"
  with script.detect_loop_complete [OF TrueI, of "[]" r proto]
  show "\<exists>used r'. detect stream_read timeout False r = (Ok (proto, used), r')"
    by (simp add: detect_def MAX_PROTOCOL_PREFIX_BYTES_def)
qed

text \<open>
  Nothing is lost before a flow's kind is known: replaying the detection prefix in front of the
  stream gives back what the client sent, and the same holds for the bytes of the inspected TLS
  ClientHello; both are bounded.
\<close>

theorem detection_lossless:
  "(case detect stream_read timeout elapsed r of
      (Err e, r') \<Rightarrow> True
    | (Ok (proto, used), r') \<Rightarrow>
        incoming (prefixed_script (prefixed_new used r')) = incoming r \<and> length used \<le> 64)
   \<and> (case read_client_hello tls max_bytes stream_read timeout elapsed r of
      (Err e, r') \<Rightarrow> True
    | (Ok hello, r') \<Rightarrow>
        incoming (prefixed_script (prefixed_new (ich_raw_bytes hello) r')) = incoming r
        \<and> length (ich_raw_bytes hello) \<le> max_bytes)"
proof -
  have replay: "incoming (prefixed_script (prefixed_new used r')) = used @ incoming r'" for used r'
    by (simp add: prefixed_script_def prefixed_new_def remaining_prefix_def)
  show ?thesis
    using script.detect_loop_lossless [OF TrueI, of "[]" r]
      script.read_client_hello_lossless [OF TrueI, of "[]" max_bytes tls "acceptor_default tls" r]
    by (auto simp: detect_def read_client_hello_def replay MAX_PROTOCOL_PREFIX_BYTES_def
        split: prod.splits sum.splits)
qed

end
