(* ===== verification/Decrypt_Policy.thy ===== *)
theory Decrypt_Policy
  imports Flow_Types
begin

text \<open>
  \<^verbatim>\<open>transparent/decrypt_policy.rs\<close>: which TLS flows are intercepted. Rules are tried in order, the first
  enabled match decides. The model is the build for Unix: selectors are compared byte for byte, and
  process entry points as Unix paths, component by component.
\<close>

section \<open>Policies\<close>

datatype tls_decryption_action = Intercept | Passthrough

record tls_decryption_rule =
  rule_id :: bytes
  rule_enabled :: bool
  rule_action :: tls_decryption_action
  process_names :: "bytes list"
  application_ids :: "bytes list"
  process_entry_points :: "bytes list"
  destination_hosts :: "bytes list"

record tls_decryption_policy =
  default_action :: tls_decryption_action
  missing_sni_action :: "tls_decryption_action option"
  policy_rules :: "tls_decryption_rule list"

datatype tls_decryption_decision = DecideIntercept "bytes option" | DecidePassthrough "bytes option"

definition default_policy :: tls_decryption_policy where
  "default_policy =
     \<lparr>default_action = Passthrough, missing_sni_action = Some Passthrough, policy_rules = []\<rparr>"

fun decision_action :: "tls_decryption_decision \<Rightarrow> tls_decryption_action" where
  "decision_action (DecideIntercept r) = Intercept"
| "decision_action (DecidePassthrough r) = Passthrough"

fun matched_rule_id :: "tls_decryption_decision \<Rightarrow> bytes option" where
  "matched_rule_id (DecideIntercept r) = r"
| "matched_rule_id (DecidePassthrough r) = r"

fun decision_for_action :: "tls_decryption_action \<Rightarrow> bytes option \<Rightarrow> tls_decryption_decision" where
  "decision_for_action Intercept r = DecideIntercept r"
| "decision_for_action Passthrough r = DecidePassthrough r"

definition requires_sni_peek :: "tls_decryption_policy \<Rightarrow> bool" where
  "requires_sni_peek p \<longleftrightarrow>
     missing_sni_action p \<noteq> None \<or> policy_rules p \<noteq> [] \<or> default_action p = Passthrough"

section \<open>Hosts and paths\<close>

definition normalize_host :: "bytes \<Rightarrow> bytes option" where
  "normalize_host host =
     (let h = to_ascii_lowercase (trim_end_matches CHR ''.'' (str_trim (hd (str_split CHR '':'' host))))
      in if h = [] then None else Some h)"

definition strip_prefix :: "bytes \<Rightarrow> bytes \<Rightarrow> bytes option" where
  "strip_prefix p s = (if take (length p) s = p then Some (drop (length p) s) else None)"

definition strip_suffix :: "bytes \<Rightarrow> bytes \<Rightarrow> bytes option" where
  "strip_suffix p s =
     (if length p \<le> length s \<and> drop (length s - length p) s = p then Some (take (length s - length p) s) else None)"

definition validate_host_pattern :: "bytes \<Rightarrow> (string, unit) result" where
  "validate_host_pattern pattern =
     (case normalize_host pattern of
        None \<Rightarrow> Err ''host pattern is empty''
      | Some normalized \<Rightarrow>
          if CHR ''*'' \<in> set normalized \<and> strip_prefix ''*.'' normalized = None
          then Err ''wildcards are only supported as a leading `*.` suffix match''
          else if normalized = ''*.'' then Err ''wildcard suffix is empty''
          else if [] \<in> set (str_split CHR ''.''
                 (case strip_prefix ''*.'' normalized of None \<Rightarrow> normalized | Some h \<Rightarrow> h))
          then Err ''host contains an empty label''
          else Ok ())"

definition host_pattern_matches :: "bytes \<Rightarrow> bytes \<Rightarrow> bool" where
  "host_pattern_matches pattern server_name =
     (case normalize_host pattern of
        None \<Rightarrow> False
      | Some p \<Rightarrow>
          (case strip_prefix ''*.'' p of
             Some tail \<Rightarrow>
               (case strip_suffix tail server_name of
                  None \<Rightarrow> False
                | Some before \<Rightarrow>
                    (case strip_suffix ''.'' before of
                       None \<Rightarrow> False
                     | Some label \<Rightarrow> label \<noteq> [] \<and> CHR ''.'' \<notin> set label))
           | None \<Rightarrow> p = server_name))"

text \<open>
  \<^verbatim>\<open>std::path::Path\<close> on Unix: a root and the components, without empty and \<^verbatim>\<open>.\<close> components (a leading
  \<^verbatim>\<open>.\<close> of a relative path stays).
\<close>

definition path_is_absolute :: "bytes \<Rightarrow> bool" where
  "path_is_absolute p \<longleftrightarrow> take 1 p = ''/''"

definition path_components :: "bytes \<Rightarrow> bool \<times> bytes list" where
  "path_components p =
     (let parts = str_split CHR ''/'' p
      in (path_is_absolute p,
          (if \<not> path_is_absolute p \<and> hd parts = ''.'' then [''.''] else [])
          @ filter (\<lambda>c. c \<noteq> [] \<and> c \<noteq> ''.'') parts))"

section \<open>Rules\<close>

definition selector_matches :: "bytes list \<Rightarrow> bytes option \<Rightarrow> bool" where
  "selector_matches selectors candidate \<longleftrightarrow>
     selectors = [] \<or> (case candidate of None \<Rightarrow> False | Some c \<Rightarrow> list_ex (\<lambda>s. s = c) selectors)"

definition entry_point_selector_matches :: "bytes list \<Rightarrow> bytes option \<Rightarrow> bool" where
  "entry_point_selector_matches selectors candidate \<longleftrightarrow>
     selectors = []
     \<or> (case candidate of
           None \<Rightarrow> False
         | Some c \<Rightarrow> list_ex (\<lambda>s. path_components s = path_components c) selectors)"

definition destination_selector_matches :: "bytes list \<Rightarrow> bytes option \<Rightarrow> bool" where
  "destination_selector_matches selectors candidate \<longleftrightarrow>
     selectors = []
     \<or> (case candidate of None \<Rightarrow> False | Some c \<Rightarrow> list_ex (\<lambda>p. host_pattern_matches p c) selectors)"

definition rule_matches :: "tls_decryption_rule \<Rightarrow> bytes option \<Rightarrow> source_process option \<Rightarrow> bool" where
  "rule_matches r domain process \<longleftrightarrow>
     selector_matches (process_names r) (Option.bind process sp_name)
     \<and> selector_matches (application_ids r) (Option.bind process sp_application_id)
     \<and> entry_point_selector_matches (process_entry_points r) (Option.bind process sp_entry_point)
     \<and> destination_selector_matches (destination_hosts r) domain"

fun validate_entry_points :: "bytes \<Rightarrow> bytes list \<Rightarrow> (policy_error, unit) result" where
  "validate_entry_points i [] = Ok ()"
| "validate_entry_points i (p # ps) =
     (if \<not> path_is_absolute p then Err (InvalidProcessEntryPoint i p) else validate_entry_points i ps)"

fun validate_hosts :: "bytes \<Rightarrow> bytes list \<Rightarrow> (policy_error, unit) result" where
  "validate_hosts i [] = Ok ()"
| "validate_hosts i (p # ps) =
     (case validate_host_pattern p of
        Err reason \<Rightarrow> Err (InvalidHostPattern i p reason)
      | Ok _ \<Rightarrow> validate_hosts i ps)"

definition validate_rule :: "tls_decryption_rule \<Rightarrow> (policy_error, unit) result" where
  "validate_rule r =
     (if str_trim (rule_id r) = [] then Err EmptyRuleId
      else if process_names r = [] \<and> application_ids r = [] \<and> process_entry_points r = []
              \<and> destination_hosts r = []
      then Err (EmptySelectors (rule_id r))
      else if list_ex (\<lambda>n. str_trim n = []) (process_names r) then Err (EmptyProcessName (rule_id r))
      else if list_ex (\<lambda>n. str_trim n = []) (application_ids r) then Err (EmptyApplicationId (rule_id r))
      else
        (case validate_entry_points (rule_id r) (process_entry_points r) of
           Err e \<Rightarrow> Err e
         | Ok _ \<Rightarrow> validate_hosts (rule_id r) (destination_hosts r)))"

fun validate_rules :: "tls_decryption_rule list \<Rightarrow> (policy_error, unit) result" where
  "validate_rules [] = Ok ()"
| "validate_rules (r # rs) = (case validate_rule r of Err e \<Rightarrow> Err e | Ok _ \<Rightarrow> validate_rules rs)"

definition validate_policy :: "tls_decryption_policy \<Rightarrow> (policy_error, unit) result" where
  "validate_policy p = validate_rules (policy_rules p)"

fun first_match ::
  "tls_decryption_rule list \<Rightarrow> bytes option \<Rightarrow> source_process option \<Rightarrow> tls_decryption_decision option" where
  "first_match [] domain process = None"
| "first_match (r # rs) domain process =
     (if rule_enabled r \<and> rule_matches r domain process
      then Some (decision_for_action (rule_action r) (Some (rule_id r)))
      else first_match rs domain process)"

definition decide :: "tls_decryption_policy \<Rightarrow> bytes option \<Rightarrow> source_process option \<Rightarrow> tls_decryption_decision" where
  "decide p destination_domain process =
     (let domain = Option.bind destination_domain normalize_host
      in case first_match (policy_rules p) domain process of
           Some d \<Rightarrow> d
         | None \<Rightarrow>
             decision_for_action
               (if domain = None
                then (case missing_sni_action p of None \<Rightarrow> default_action p | Some a \<Rightarrow> a)
                else default_action p) None)"

section \<open>Lemmas\<close>

lemma strip_prefix_iff: "strip_prefix p s = Some t \<longleftrightarrow> s = p @ t"
  by (auto simp: strip_prefix_def) (metis append_take_drop_id)

lemma strip_suffix_iff: "strip_suffix p s = Some t \<longleftrightarrow> s = t @ p"
proof
  assume "strip_suffix p s = Some t"
  then show "s = t @ p"
    unfolding strip_suffix_def by (auto split: if_splits) (metis append_take_drop_id)
qed (simp add: strip_suffix_def)

lemma strip_suffix_None: "strip_suffix p s = None \<longleftrightarrow> (\<nexists>t. s = t @ p)"
  by (metis not_Some_eq strip_suffix_iff)

text \<open>A wildcard stands for exactly one non-empty label.\<close>

definition one_label_below :: "bytes \<Rightarrow> bytes \<Rightarrow> bool" where
  "one_label_below domain name \<longleftrightarrow>
     (\<exists>label. label \<noteq> [] \<and> CHR ''.'' \<notin> set label \<and> name = label @ ''.'' @ domain)"

lemma wildcard_matches:
  "(case strip_suffix domain name of
      None \<Rightarrow> False
    | Some before \<Rightarrow>
        (case strip_suffix ''.'' before of None \<Rightarrow> False | Some label \<Rightarrow> label \<noteq> [] \<and> CHR ''.'' \<notin> set label))
   \<longleftrightarrow> one_label_below domain name"
proof (cases "\<exists>label. name = label @ ''.'' @ domain")
  case True
  then obtain label where name: "name = label @ ''.'' @ domain" ..
  then have "strip_suffix domain name = Some (label @ ''.'')" "strip_suffix ''.'' (label @ ''.'') = Some label"
    by (simp_all add: strip_suffix_iff)
  with name show ?thesis by (auto simp: one_label_below_def)
next
  case False
  then show ?thesis
    by (auto simp: one_label_below_def strip_suffix_iff split: option.splits)
qed

lemma first_match_cases:
  "case first_match rs domain process of
     None \<Rightarrow> list_all (\<lambda>r. \<not> (rule_enabled r \<and> rule_matches r domain process)) rs
   | Some d \<Rightarrow>
       \<exists>before r after. rs = before @ r # after \<and> rule_enabled r \<and> rule_matches r domain process
         \<and> d = decision_for_action (rule_action r) (Some (rule_id r))
         \<and> list_all (\<lambda>r. \<not> (rule_enabled r \<and> rule_matches r domain process)) before"
proof (induction rs)
  case (Cons r rs)
  show ?case
  proof (cases "rule_enabled r \<and> rule_matches r domain process")
    case True
    then show ?thesis by (auto intro!: exI [of _ "[]"])
  next
    case False
    show ?thesis
    proof (cases "first_match rs domain process")
      case (Some d)
      with Cons obtain before r' after where "rs = before @ r' # after" "rule_enabled r'"
        "rule_matches r' domain process" "d = decision_for_action (rule_action r') (Some (rule_id r'))"
        "list_all (\<lambda>r. \<not> (rule_enabled r \<and> rule_matches r domain process)) before" by auto
      with False Some show ?thesis by (auto intro!: exI [of _ "r # before"])
    qed (use Cons False in auto)
  qed
qed simp

lemma decision_for_action_simps [simp]:
  "decision_action (decision_for_action a r) = a" "matched_rule_id (decision_for_action a r) = r"
  by (cases a; simp)+

lemma validate_rule_selective:
  assumes "validate_rule r = Ok ()"
  shows "\<not> rule_matches r None None"
  using assms
  by (auto simp: validate_rule_def rule_matches_def selector_matches_def entry_point_selector_matches_def
      destination_selector_matches_def split: if_splits)

lemma validate_rules_iff: "validate_rules rs = Ok () \<longleftrightarrow> (\<forall>r \<in> set rs. validate_rule r = Ok ())"
  by (induction rs) (auto split: sum.splits)

lemma first_match_none:
  "\<forall>r \<in> set rs. \<not> rule_matches r domain process \<Longrightarrow> first_match rs domain process = None"
  by (induction rs) auto

section \<open>Properties\<close>

text \<open>
  The policy is first match: the decision is that of the first enabled rule that matches the
  normalised domain and the process, whatever follows it; if none matches, it is the default action,
  or the action for a missing server name when there is no domain.
\<close>

theorem decide_first_match:
  "let domain = Option.bind destination_domain normalize_host;
       hit = (\<lambda>r. rule_enabled r \<and> rule_matches r domain process)
   in case matched_rule_id (decide p destination_domain process) of
        Some i \<Rightarrow>
          \<exists>before r after. policy_rules p = before @ r # after \<and> hit r \<and> rule_id r = i
            \<and> decision_action (decide p destination_domain process) = rule_action r
            \<and> list_all (\<lambda>r. \<not> hit r) before
      | None \<Rightarrow>
          list_all (\<lambda>r. \<not> hit r) (policy_rules p)
          \<and> decision_action (decide p destination_domain process)
            = (if domain = None
               then (case missing_sni_action p of None \<Rightarrow> default_action p | Some a \<Rightarrow> a)
               else default_action p)"
proof -
  let ?domain = "Option.bind destination_domain normalize_host"
  show ?thesis
  proof (cases "first_match (policy_rules p) ?domain process")
    case None
    with first_match_cases [where rs = "policy_rules p" and domain = ?domain and process = process] show ?thesis by (simp add: decide_def)
  next
    case (Some d)
    with first_match_cases [where rs = "policy_rules p" and domain = ?domain and process = process] show ?thesis
      by (fastforce simp: decide_def Let_def)
  qed
qed

text \<open>
  Host patterns: a pattern \<^verbatim>\<open>*.domain\<close> matches exactly the names with one non-empty label in front
  of the domain (neither the domain itself nor deeper names), any other pattern matches only the
  name it denotes.
\<close>

theorem host_pattern_one_label:
  "host_pattern_matches pattern name =
     (case normalize_host pattern of
        None \<Rightarrow> False
      | Some p \<Rightarrow> if take 2 p = ''*.'' then one_label_below (drop 2 p) name else p = name)"
  by (simp add: host_pattern_matches_def strip_prefix_def wildcard_matches numeral_2_eq_2
      split: option.split)

text \<open>
  A validated policy never matches blindly: for a flow with neither a server name nor a known
  process no rule of a validated policy applies, so only the configured fallback decides.
\<close>

theorem validated_policy_selective:
  assumes "validate_policy p = Ok ()"
  shows "decide p None None =
    decision_for_action (case missing_sni_action p of None \<Rightarrow> default_action p | Some a \<Rightarrow> a) None"
proof -
  have "\<forall>r \<in> set (policy_rules p). \<not> rule_matches r None None"
    using assms by (auto simp: validate_policy_def validate_rules_iff dest: validate_rule_selective)
  then have "first_match (policy_rules p) None None = None" by (rule first_match_none)
  then show ?thesis by (simp add: decide_def)
qed

definition curl_policy :: tls_decryption_policy where
  "curl_policy =
     \<lparr>default_action = Intercept, missing_sni_action = Some Passthrough,
      policy_rules =
        [\<lparr>rule_id = ''r'', rule_enabled = True, rule_action = Intercept, process_names = [''curl''],
          application_ids = [], process_entry_points = [], destination_hosts = []\<rparr>]\<rparr>"

theorem validated_policy_selective_witness:
  "validate_policy curl_policy = Ok () \<and> decide curl_policy None None = DecidePassthrough None"
proof -
  have "str_trim ''r'' = ''r''" "str_trim ''curl'' = ''curl''"
    by (rule str_trim_plain; simp add: ascii_defs)+
  then have ok: "validate_policy curl_policy = Ok ()"
    by (simp add: validate_policy_def curl_policy_def validate_rule_def)
  from validated_policy_selective [OF ok] ok show ?thesis by (simp add: curl_policy_def)
qed

end
