(* ===== verification/Outbound.thy ===== *)
theory Outbound
  imports Flow_Types Http1
begin

text \<open>
  \<^verbatim>\<open>outbound/\<close>: reaching a provider through an upstream HTTP proxy. \<^verbatim>\<open>config.rs\<close> (the configured
  endpoint), \<^verbatim>\<open>listener.rs\<close> (which addresses are the broker itself) and \<^verbatim>\<open>http_connect.rs\<close> (resolution,
  loop check, connection race and the \<^verbatim>\<open>CONNECT\<close> handshake). The resolver, the interface list, the
  outcome of the connection attempts and the head parser are parameters.
\<close>

section \<open>Configuration\<close>

datatype upstream_proxy_protocol = UpstreamHttpConnect

record upstream_proxy_config =
  cfg_protocol :: upstream_proxy_protocol
  cfg_endpoint :: bytes
  connect_timeout_ms :: u64
  handshake_timeout_ms :: u64

definition config_target ::
  "authority_parser \<Rightarrow> upstream_proxy_config \<Rightarrow> (string, target_authority) result" where
  "config_target authority_try_from cfg =
     (if take 7 (cfg_endpoint cfg) \<noteq> ''http://''
      then Err ''endpoint must use http://; proxy TLS is not supported''
      else
        let rest = drop 7 (cfg_endpoint cfg);
            auth = (case strip_suffix_char CHR ''/'' rest of None \<Rightarrow> rest | Some a \<Rightarrow> a)
        in if list_ex (\<lambda>c. c \<in> set ''/?#@'') auth
           then Err ''endpoint must not contain credentials, paths, queries, or fragments''
           else (case target_parse authority_try_from auth of
                   Err _ \<Rightarrow> Err ''endpoint must contain a valid host and explicit nonzero port''
                 | Ok t \<Rightarrow> Ok t))"

definition timeout_in_range :: "u64 \<Rightarrow> bool" where
  "timeout_in_range t \<longleftrightarrow> 1 \<le> t \<and> t \<le> 120000"

definition config_validate :: "authority_parser \<Rightarrow> upstream_proxy_config \<Rightarrow> (string, unit) result" where
  "config_validate authority_try_from cfg =
     (case config_target authority_try_from cfg of
        Err e \<Rightarrow> Err e
      | Ok _ \<Rightarrow>
          if \<not> timeout_in_range (connect_timeout_ms cfg) \<or> \<not> timeout_in_range (handshake_timeout_ms cfg)
          then Err ''timeouts must be in 1..=120000 ms''
          else Ok ())"

section \<open>The broker's own listener\<close>

fun to_ipv4_mapped :: "ip_addr \<Rightarrow> ip_addr option" where
  "to_ipv4_mapped (V4 a b c d) = None"
| "to_ipv4_mapped (V6 a b c d e f g h) =
     (if a = 0 \<and> b = 0 \<and> c = 0 \<and> d = 0 \<and> e = 0 \<and> f = 0xFFFF
      then Some (V4 (ucast (drop_bit 8 g)) (ucast g) (ucast (drop_bit 8 h)) (ucast h)) else None)"

definition canonical_ip :: "ip_addr \<Rightarrow> ip_addr" where
  "canonical_ip ip = (case to_ipv4_mapped ip of None \<Rightarrow> ip | Some v4 \<Rightarrow> v4)"

fun is_unspecified :: "ip_addr \<Rightarrow> bool" where
  "is_unspecified (V4 a b c d) = (a = 0 \<and> b = 0 \<and> c = 0 \<and> d = 0)"
| "is_unspecified (V6 a b c d e f g h) =
     (a = 0 \<and> b = 0 \<and> c = 0 \<and> d = 0 \<and> e = 0 \<and> f = 0 \<and> g = 0 \<and> h = 0)"

fun is_loopback :: "ip_addr \<Rightarrow> bool" where
  "is_loopback (V4 a b c d) = (a = 127)"
| "is_loopback (V6 a b c d e f g h) =
     (a = 0 \<and> b = 0 \<and> c = 0 \<and> d = 0 \<and> e = 0 \<and> f = 0 \<and> g = 0 \<and> h = 1)"

text \<open>\<open>if_addrs\<close>: what \<^verbatim>\<open>if_addrs::get_if_addrs\<close> returns.\<close>

definition listener_contains ::
  "(io_kind, ip_addr list) result \<Rightarrow> socket_addr \<Rightarrow> socket_addr \<Rightarrow> (io_kind, bool) result" where
  "listener_contains if_addrs listener_addr candidate_addr =
     (if sa_port candidate_addr \<noteq> sa_port listener_addr then Ok False
      else
        let candidate = canonical_ip (sa_ip candidate_addr); listener = canonical_ip (sa_ip listener_addr)
        in if is_unspecified candidate \<or> candidate = listener then Ok True
           else if \<not> is_unspecified listener then Ok False
           else if is_ipv4 listener \<and> \<not> is_ipv4 candidate then Ok False
           else if is_loopback candidate then Ok True
           else (case if_addrs of
                   Err k \<Rightarrow> Err k
                 | Ok ips \<Rightarrow> Ok (list_ex (\<lambda>ip. canonical_ip ip = candidate) ips)))"

section \<open>Connecting\<close>

text \<open>The socket initializer is the host's: what it answers for a fresh socket of the address' family.\<close>

record http_connect_proxy =
  px_endpoint :: target_authority
  px_connect_timeout :: nat
  px_handshake_timeout :: nat
  px_socket_initializer :: "(ip_addr \<Rightarrow> (io_kind, unit) result) option"
  px_excluded_endpoints :: "socket_addr list"

definition http_connect_proxy_new ::
  "authority_parser \<Rightarrow> upstream_proxy_config \<Rightarrow> (string, http_connect_proxy) result" where
  "http_connect_proxy_new authority_try_from cfg =
     (case config_validate authority_try_from cfg of
        Err e \<Rightarrow> Err e
      | Ok _ \<Rightarrow>
          (case config_target authority_try_from cfg of
             Err e \<Rightarrow> Err e
           | Ok t \<Rightarrow>
               Ok \<lparr>px_endpoint = t, px_connect_timeout = unat (connect_timeout_ms cfg),
                   px_handshake_timeout = unat (handshake_timeout_ms cfg),
                   px_socket_initializer = None, px_excluded_endpoints = []\<rparr>))"

definition with_socket_initializer ::
  "(ip_addr \<Rightarrow> (io_kind, unit) result) \<Rightarrow> http_connect_proxy \<Rightarrow> http_connect_proxy" where
  "with_socket_initializer f px = px\<lparr>px_socket_initializer := Some f\<rparr>"

definition excluding_endpoint :: "socket_addr \<Rightarrow> http_connect_proxy \<Rightarrow> http_connect_proxy" where
  "excluding_endpoint a px = px\<lparr>px_excluded_endpoints := px_excluded_endpoints px @ [a]\<rparr>"

text \<open>\<open>lookup\<close>: what the resolver answers, \<open>None\<close> when the deadline passes first.\<close>

definition resolve ::
  "(bytes \<Rightarrow> u16 \<Rightarrow> (io_kind, socket_addr list) result option) \<Rightarrow> http_connect_proxy
   \<Rightarrow> (upstream_proxy_error, socket_addr list) result" where
  "resolve lookup px =
     (case ta_host (px_endpoint px) of
        Ip ip \<Rightarrow> Ok [\<lparr>sa_ip = ip, sa_port = ta_port (px_endpoint px)\<rparr>]
      | Dns host \<Rightarrow>
          (case lookup host (ta_port (px_endpoint px)) of
             None \<Rightarrow> Err (ProxyTimeout StageResolveProxy (px_connect_timeout px))
           | Some (Err k) \<Rightarrow> Err (ProxyIo StageResolveProxy k)
           | Some (Ok addresses) \<Rightarrow>
               if addresses = [] then Err (ProxyIo StageResolveProxy NotFound) else Ok addresses))"

text \<open>The check of one resolved address against the endpoints, then of all of them.\<close>

fun check_endpoints ::
  "(io_kind, ip_addr list) result \<Rightarrow> socket_addr \<Rightarrow> socket_addr list \<Rightarrow> (upstream_proxy_error, unit) result" where
  "check_endpoints if_addrs address [] = Ok ()"
| "check_endpoints if_addrs address (listener # ls) =
     (case listener_contains if_addrs listener address of
        Err k \<Rightarrow> Err (ProxyIo StageConnectProxy k)
      | Ok True \<Rightarrow> Err (ProxyLoop address)
      | Ok False \<Rightarrow> check_endpoints if_addrs address ls)"

fun check_loops ::
  "(io_kind, ip_addr list) result \<Rightarrow> socket_addr list \<Rightarrow> socket_addr list \<Rightarrow> (upstream_proxy_error, unit) result" where
  "check_loops if_addrs [] excluded = Ok ()"
| "check_loops if_addrs (address # addresses) excluded =
     (case check_endpoints if_addrs address excluded of
        Err e \<Rightarrow> Err e
      | Ok _ \<Rightarrow> check_loops if_addrs addresses excluded)"

text \<open>
  The sockets of the host: whether a socket of a family can be made, and what connecting it gives, the
  connection with what \<^verbatim>\<open>peer_addr\<close> then answers for it.
\<close>

type_synonym proxy_connection = "(io_kind, socket_addr) result \<times> duplex"

record tcp_sockets =
  new_v4 :: "(io_kind, unit) result"
  new_v6 :: "(io_kind, unit) result"
  socket_connect :: "socket_addr \<Rightarrow> (io_kind, proxy_connection) result"

definition connect_address ::
  "tcp_sockets \<Rightarrow> http_connect_proxy \<Rightarrow> socket_addr \<Rightarrow> (io_kind, proxy_connection) result" where
  "connect_address tcp px address =
     (case (if is_ipv4 (sa_ip address) then new_v4 tcp else new_v6 tcp) of
        Err k \<Rightarrow> Err k
      | Ok _ \<Rightarrow>
          (case px_socket_initializer px of
             None \<Rightarrow> socket_connect tcp address
           | Some initialize \<Rightarrow>
               (case initialize (sa_ip address) of
                  Err k \<Rightarrow> Err k
                | Ok _ \<Rightarrow> socket_connect tcp address)))"

text \<open>
  The race of \<^verbatim>\<open>connect_tcp\<close>: the attempts in the order in which they finish; the first success wins,
  otherwise the last error is reported.
\<close>

fun first_connected :: "io_kind \<Rightarrow> (io_kind, 'c) result list \<Rightarrow> (io_kind, 'c) result" where
  "first_connected last_error [] = Err last_error"
| "first_connected last_error (a # as) =
     (case a of Ok c \<Rightarrow> Ok c | Err k \<Rightarrow> first_connected k as)"

text \<open>
  \<open>finish_order\<close> is the order in which \<^verbatim>\<open>FuturesUnordered\<close> completes the attempts it was given; \<open>elapsed\<close>
  says whether the deadline passes before the race is decided.
\<close>

definition connect_tcp ::
  "tcp_sockets \<Rightarrow> (socket_addr list \<Rightarrow> socket_addr list) \<Rightarrow> bool \<Rightarrow> http_connect_proxy \<Rightarrow> socket_addr list
   \<Rightarrow> (upstream_proxy_error, proxy_connection) result" where
  "connect_tcp tcp finish_order elapsed px addresses =
     (if elapsed then Err (ProxyTimeout StageConnectProxy (px_connect_timeout px))
      else (case first_connected NotFound (map (connect_address tcp px) (finish_order addresses)) of
              Err k \<Rightarrow> Err (ProxyIo StageConnectProxy k)
            | Ok c \<Rightarrow> Ok c))"

section \<open>The CONNECT handshake\<close>

definition MAX_HEADER_BYTES :: nat where
  "MAX_HEADER_BYTES = 16 * 1024"

definition MAX_INFORMATIONAL_RESPONSES :: nat where
  "MAX_INFORMATIONAL_RESPONSES = 8"

text \<open>\<open>parse\<close>: head length and status code of a complete response head (\<^verbatim>\<open>httparse::Response::parse\<close>).\<close>

type_synonym connect_response_parser = "bytes \<Rightarrow> (unit, (nat \<times> nat option) parse_status) result"

definition connect_request :: "target_authority \<Rightarrow> bytes" where
  "connect_request target =
     ''CONNECT '' @ show_authority target @ '' HTTP/1.1'' @ CRLF
     @ ''Host: '' @ show_authority target @ CRLF @ CRLF"

function handshake_loop ::
  "connect_response_parser \<Rightarrow> nat \<Rightarrow> bytes \<Rightarrow> reader \<Rightarrow> (upstream_proxy_error, bytes) result \<times> reader" where
  "handshake_loop parse informational buffer r =
     (case parse buffer of
        Err _ \<Rightarrow> (Err (ProxyProtocol ''malformed or excessive response headers''), r)
      | Ok (Complete (len, status_code)) \<Rightarrow>
          if MAX_HEADER_BYTES < len then (Err (ProxyProtocol ''response headers exceed 16 KiB''), r)
          else
            (case status_code of
               None \<Rightarrow> (Err (ProxyProtocol ''missing status code''), r)
             | Some status \<Rightarrow>
                 if 200 \<le> status \<and> status < 300 then (Ok (drop len buffer), r)
                 else if 100 \<le> status \<and> status < 200 \<and> status \<noteq> 101
                         \<and> informational < MAX_INFORMATIONAL_RESPONSES
                 then handshake_loop parse (informational + 1) (drop len buffer) r
                 else if 100 \<le> status \<and> status < 200
                 then (Err (ProxyProtocol ''unsupported or excessive informational responses''), r)
                 else (Err (ProxyRejected status), r))
      | Ok Partial \<Rightarrow>
          if MAX_HEADER_BYTES \<le> length buffer
          then (Err (ProxyProtocol ''response headers exceed 16 KiB''), r)
          else
            (case stream_read 2048 r of
               (Err k, r') \<Rightarrow> (Err (ProxyIo StageHandshake k), r')
             | (Ok chunk, r') \<Rightarrow>
                 if chunk = [] then (Err (ProxyProtocol ''EOF before CONNECT response headers''), r')
                 else handshake_loop parse informational (buffer @ chunk) r'))"
  by pat_completeness auto
termination
  by (relation "inv_image (less_than <*lex*> less_than)
      (\<lambda>(p, i, b, r). (MAX_INFORMATIONAL_RESPONSES - i, script_size r))")
    (auto dest: stream_read_shrinks [OF sym])

declare handshake_loop.simps [simp del]

definition handshake ::
  "connect_response_parser \<Rightarrow> target_authority \<Rightarrow> duplex \<Rightarrow> (upstream_proxy_error, bytes) result \<times> duplex" where
  "handshake parse target s =
     (case write_all (connect_request target) (wr_side s) of
        (Err k, w) \<Rightarrow> (Err (ProxyIo StageHandshake k), s\<lparr>wr_side := w\<rparr>)
      | (Ok _, w) \<Rightarrow>
          (case handshake_loop parse 0 [] (rd_side s) of
             (res, r) \<Rightarrow> (res, s\<lparr>wr_side := w, rd_side := r\<rparr>)))"

text \<open>
  \<^verbatim>\<open>connect_tunnel\<close>. The host answers for the resolver, the interfaces, the sockets and the clock.
\<close>

record tunnel_env =
  te_clock_overflow :: bool
  te_lookup :: "bytes \<Rightarrow> u16 \<Rightarrow> (io_kind, socket_addr list) result option"
  te_if_addrs :: "(io_kind, ip_addr list) result"
  te_connect_elapsed :: bool
  te_tcp :: tcp_sockets
  te_finish_order :: "socket_addr list \<Rightarrow> socket_addr list"
  te_handshake_elapsed :: bool
  te_parse :: connect_response_parser

record connected_tunnel =
  ct_prefix :: bytes
  ct_stream :: duplex
  ct_proxy_peer :: socket_addr

definition connect_tunnel ::
  "tunnel_env \<Rightarrow> http_connect_proxy \<Rightarrow> target_authority \<Rightarrow> socket_addr list
   \<Rightarrow> (upstream_proxy_error, connected_tunnel) result" where
  "connect_tunnel env px target excluded =
     (if te_clock_overflow env
      then Err (ProxyProtocol ''connection deadline exceeds the monotonic clock range'')
      else
        (case resolve (te_lookup env) px of
           Err e \<Rightarrow> Err e
         | Ok addresses \<Rightarrow>
             (case check_loops (te_if_addrs env) addresses (excluded @ px_excluded_endpoints px) of
                Err e \<Rightarrow> Err e
              | Ok _ \<Rightarrow>
                  (case connect_tcp (te_tcp env) (te_finish_order env) (te_connect_elapsed env) px addresses of
                     Err e \<Rightarrow> Err e
                   | Ok (Err k, s) \<Rightarrow> Err (ProxyIo StageConnectProxy k)
                   | Ok (Ok peer, s) \<Rightarrow>
                       if te_handshake_elapsed env
                       then Err (ProxyTimeout StageHandshake (px_handshake_timeout px))
                       else
                         (case handshake (te_parse env) target s of
                            (Err e, s') \<Rightarrow> Err e
                          | (Ok rest, s') \<Rightarrow>
                              Ok \<lparr>ct_prefix = rest, ct_stream = s', ct_proxy_peer = peer\<rparr>)))))"

definition proxy_connect ::
  "tunnel_env \<Rightarrow> http_connect_proxy \<Rightarrow> target_authority \<Rightarrow> socket_addr
   \<Rightarrow> (upstream_proxy_error, connected_tunnel) result" where
  "proxy_connect env px target listener = connect_tunnel env px target [listener]"

section \<open>Lemmas\<close>

lemma handshake_loop_spec:
  "handshake_loop parse i buffer r = (Ok rest, r') \<Longrightarrow>
     \<exists>heads last_head len status. buffer @ incoming r = heads @ rest @ incoming r'
       \<and> parse last_head = Ok (Complete (len, Some status)) \<and> 200 \<le> status \<and> status < 300
       \<and> len \<le> MAX_HEADER_BYTES \<and> rest = drop len last_head"
proof (induction parse i buffer r rule: handshake_loop.induct)
  case (1 parse i buffer r)
  show ?case
  proof (cases "parse buffer")
    case (Inl u)
    with "1.prems" show ?thesis by (subst (asm) handshake_loop.simps) simp
  next
    case (Inr st)
    show ?thesis
    proof (cases st)
      case Partial
      with "1.prems" Inr obtain chunk r1 where short: "\<not> MAX_HEADER_BYTES \<le> length buffer"
        and r1: "stream_read 2048 r = (Ok chunk, r1)" "chunk \<noteq> []"
        and rec: "handshake_loop parse i (buffer @ chunk) r1 = (Ok rest, r')"
        by (subst (asm) handshake_loop.simps) (auto split: if_splits prod.splits sum.splits)
      from "1.IH"(2) [OF Inr Partial short r1(1) [symmetric] refl r1(2) rec] stream_read_data [OF r1]
      show ?thesis by simp
    next
      case (Complete lc)
      obtain len status_code where lc: "lc = (len, status_code)" by (cases lc)
      from "1.prems" Inr Complete lc obtain status where st: "\<not> MAX_HEADER_BYTES < len" "status_code = Some status"
        by (subst (asm) handshake_loop.simps) (auto split: if_splits option.splits)
      show ?thesis
      proof (cases "200 \<le> status \<and> status < 300")
        case True
        with "1.prems" Inr Complete lc st have "rest = drop len buffer" "r' = r"
          by (subst (asm) handshake_loop.simps, simp)+
        with True Inr Complete lc st show ?thesis
          by (intro exI [of _ "take len buffer"] exI [of _ buffer] exI [of _ len] exI [of _ status]) auto
      next
        case False
        with "1.prems" Inr Complete lc st have again: "100 \<le> status \<and> status < 200 \<and> status \<noteq> 101
            \<and> i < MAX_INFORMATIONAL_RESPONSES"
          and rec: "handshake_loop parse (i + 1) (drop len buffer) r = (Ok rest, r')"
          by (subst (asm) handshake_loop.simps, auto split: if_splits)+
        from "1.IH"(1) [OF Inr Complete lc [symmetric] st(1,2) False again rec] obtain heads last_head len' status' where
          "drop len buffer @ incoming r = heads @ rest @ incoming r'"
          "parse last_head = Ok (Complete (len', Some status')) \<and> 200 \<le> status' \<and> status' < 300
             \<and> len' \<le> MAX_HEADER_BYTES \<and> rest = drop len' last_head" by blast
        moreover from this(1) have "buffer @ incoming r = (take len buffer @ heads) @ rest @ incoming r'"
          by (metis append_assoc append_take_drop_id)
        ultimately show ?thesis by blast
      qed
    qed
  qed
qed

lemma check_endpoints_ok:
  "check_endpoints ifs a ls = Ok () \<longleftrightarrow> list_all (\<lambda>l. listener_contains ifs l a = Ok False) ls"
  by (induction ls) (auto split: sum.splits bool.splits)

lemma check_loops_ok:
  "check_loops ifs as ls = Ok () \<longleftrightarrow> list_all (\<lambda>a. list_all (\<lambda>l. listener_contains ifs l a = Ok False) ls) as"
  by (induction as) (auto simp: check_endpoints_ok [symmetric] split: sum.splits)

lemma first_connected_ok: "first_connected k rs = Ok c \<Longrightarrow> Ok c \<in> set rs"
  by (induction rs arbitrary: k) (auto split: sum.splits)

lemma connect_address_ok: "connect_address tcp px a = Ok c \<Longrightarrow> socket_connect tcp a = Ok c"
  by (auto simp: connect_address_def split: sum.splits option.splits)

text \<open>What it means for an address to reach the broker's own listener.\<close>

definition reaches_listener :: "ip_addr list \<Rightarrow> socket_addr \<Rightarrow> socket_addr \<Rightarrow> bool" where
  "reaches_listener local_ips listener a \<longleftrightarrow>
     sa_port a = sa_port listener
   \<and> (let c = canonical_ip (sa_ip a); l = canonical_ip (sa_ip listener)
      in is_unspecified c \<or> c = l
         \<or> is_unspecified l \<and> (is_ipv4 l \<longrightarrow> is_ipv4 c) \<and> (is_loopback c \<or> list_ex (\<lambda>ip. canonical_ip ip = c) local_ips))"

lemma listener_contains_iff:
  "listener_contains (Ok ips) l a = Ok b \<longleftrightarrow> b = reaches_listener ips l a"
  by (auto simp: listener_contains_def reaches_listener_def Let_def)

lemma connect_tunnel_ok:
  assumes "connect_tunnel env px target excluded = Ok t"
  obtains addresses a peer s s' where "resolve (te_lookup env) px = Ok addresses"
    "check_loops (te_if_addrs env) addresses (excluded @ px_excluded_endpoints px) = Ok ()"
    "a \<in> set (te_finish_order env addresses)" "socket_connect (te_tcp env) a = Ok (Ok peer, s)"
    "handshake (te_parse env) target s = (Ok (ct_prefix t), s')"
    "t = \<lparr>ct_prefix = ct_prefix t, ct_stream = s', ct_proxy_peer = peer\<rparr>"
proof -
  from assms obtain addresses peer s s' where
    1: "resolve (te_lookup env) px = Ok addresses"
    and 2: "check_loops (te_if_addrs env) addresses (excluded @ px_excluded_endpoints px) = Ok ()"
    and c: "connect_tcp (te_tcp env) (te_finish_order env) (te_connect_elapsed env) px addresses = Ok (Ok peer, s)"
    and h: "handshake (te_parse env) target s = (Ok (ct_prefix t), s')"
    and t: "t = \<lparr>ct_prefix = ct_prefix t, ct_stream = s', ct_proxy_peer = peer\<rparr>"
    by (auto simp: connect_tunnel_def split: if_splits sum.splits prod.splits)
  from c have "Ok (Ok peer, s) \<in> connect_address (te_tcp env) px ` set (te_finish_order env addresses)"
    by (auto simp: connect_tcp_def split: if_splits sum.splits dest: first_connected_ok)
  then obtain a where "a \<in> set (te_finish_order env addresses)" "socket_connect (te_tcp env) a = Ok (Ok peer, s)"
    by (auto dest: connect_address_ok [OF sym])
  with 1 2 h t that show ?thesis by blast
qed

lemma handshake_ok:
  assumes "handshake parse target s = (Ok rest, s')"
  shows "written (wr_side s') = written (wr_side s) @ connect_request target"
    and "\<exists>heads last_head len status. incoming (rd_side s) = heads @ rest @ incoming (rd_side s')
       \<and> parse last_head = Ok (Complete (len, Some status)) \<and> 200 \<le> status \<and> status < 300
       \<and> len \<le> MAX_HEADER_BYTES \<and> rest = drop len last_head"
proof -
  from assms obtain w r where w: "write_all (connect_request target) (wr_side s) = (Ok (), w)"
    and r: "handshake_loop parse 0 [] (rd_side s) = (Ok rest, r)"
    and s': "s' = s\<lparr>wr_side := w, rd_side := r\<rparr>"
    by (auto simp: handshake_def split: sum.splits prod.splits)
  from write_all_ok [OF w] s' show "written (wr_side s') = written (wr_side s) @ connect_request target" by simp
  from handshake_loop_spec [OF r] s' show "\<exists>heads last_head len status. incoming (rd_side s) = heads @ rest @ incoming (rd_side s')
       \<and> parse last_head = Ok (Complete (len, Some status)) \<and> 200 \<le> status \<and> status < 300
       \<and> len \<le> MAX_HEADER_BYTES \<and> rest = drop len last_head" by simp
qed

text \<open>The alphabet of a printed target.\<close>

definition authority_char :: "byte \<Rightarrow> bool" where
  "authority_char c \<longleftrightarrow> is_ascii_alphanumeric c \<or> c \<in> set ''-.:[]''"

lemma hex_digit_alphanumeric: "d < 16 \<Longrightarrow> is_ascii_alphanumeric (hex_digit d)"
  by (auto simp: hex_digit_def ascii_defs of_char_of)

lemma show_hex_alphanumeric: "c \<in> set (show_hex n) \<Longrightarrow> is_ascii_alphanumeric c"
proof (induction n rule: show_hex.induct)
  case (1 n)
  then show ?case
    by (subst (asm) (2) show_hex.simps) (auto simp: hex_digit_alphanumeric split: if_splits)
qed

lemma show_nat_alphanumeric: "c \<in> set (show_nat n) \<Longrightarrow> is_ascii_alphanumeric c"
  using show_nat_digits [of c n] by (simp add: ascii_defs)

lemma show_ipv4_chars: "c \<in> set (show_ipv4 w x y z) \<Longrightarrow> authority_char c"
  by (auto simp: show_ipv4_def authority_char_def dest: show_nat_alphanumeric)

lemma show_segments_chars: "c \<in> set (show_segments ss) \<Longrightarrow> authority_char c"
  by (auto simp: show_segments_def authority_char_def dest!: in_str_join show_hex_alphanumeric)

lemma ffff_chars: "list_all authority_char ''::ffff:''"
  by (simp add: authority_char_def ascii_defs)

lemma show_ip_chars: "c \<in> set (show_ip a) \<Longrightarrow> authority_char c"
proof (cases a)
  case (V4 w x y z)
  then show "c \<in> set (show_ip a) \<Longrightarrow> authority_char c" by (auto dest: show_ipv4_chars)
next
  case (V6 a1 a2 a3 a4 a5 a6 a7 a8)
  moreover have "authority_char CHR '':''" by (simp add: authority_char_def)
  ultimately show "c \<in> set (show_ip a) \<Longrightarrow> authority_char c"
    using ffff_chars
    by (auto simp: Let_def list_all_iff split: if_splits prod.splits dest: show_ipv4_chars show_segments_chars)
qed

lemma show_authority_chars:
  assumes "parse_target_authority p raw d = Ok t"
  shows "list_all authority_char (show_authority t)"
proof -
  have "authority_char c" if "c \<in> set (show_target_host (ta_host t))" for c
  proof (cases "ta_host t")
    case (Dns name)
    with dns_name_chars [OF parse_target_dns [OF assms Dns]] that show ?thesis by (auto simp: authority_char_def)
  next
    case (Ip a)
    with that show ?thesis by (auto simp: authority_char_def dest: show_ip_chars split: if_splits)
  qed
  then show ?thesis
    by (auto simp: show_authority_def list_all_iff authority_char_def dest: show_nat_alphanumeric)
qed

section \<open>Properties\<close>

text \<open>
  C10. No proxy loops: when \<^verbatim>\<open>connect_tunnel\<close> hands out a tunnel, the proxy was resolved to a set of
  addresses none of which reaches the broker's own listener or any other excluded endpoint (same port and
  the unspecified address, the listener's address, or, for a wildcard listener, a loopback or interface
  address; IPv4-mapped IPv6 addresses count as the IPv4 address they carry). \<open>ips\<close> are the host's
  interface addresses.
\<close>

theorem no_proxy_loop:
  "case connect_tunnel (env\<lparr>te_if_addrs := Ok ips\<rparr>) px target excluded of
     Err e \<Rightarrow> True
   | Ok t \<Rightarrow>
       \<exists>addresses. resolve (te_lookup env) px = Ok addresses
         \<and> list_all (\<lambda>a. list_all (\<lambda>l. \<not> reaches_listener ips l a) (excluded @ px_excluded_endpoints px)) addresses
         \<and> (\<exists>a s. a \<in> set (te_finish_order env addresses)
              \<and> socket_connect (te_tcp env) a = Ok (Ok (ct_proxy_peer t), s))"
proof (cases "connect_tunnel (env\<lparr>te_if_addrs := Ok ips\<rparr>) px target excluded")
  case (Inr t)
  then obtain addresses a peer s s' where r: "resolve (te_lookup env) px = Ok addresses"
    and l: "check_loops (Ok ips) addresses (excluded @ px_excluded_endpoints px) = Ok ()"
    and a: "a \<in> set (te_finish_order env addresses)" "socket_connect (te_tcp env) a = Ok (Ok peer, s)"
    and t: "t = \<lparr>ct_prefix = ct_prefix t, ct_stream = s', ct_proxy_peer = peer\<rparr>"
    by (rule connect_tunnel_ok) auto
  from t have "ct_proxy_peer t = peer" by (metis connected_tunnel.select_convs(3))
  with r a l Inr show ?thesis by (auto simp: check_loops_ok listener_contains_iff)
qed simp

text \<open>
  The tunnel is transparent from its first byte: what went to the proxy is exactly the \<^verbatim>\<open>CONNECT\<close>
  request, a tunnel is only handed out after a 2xx head of at most 16 KiB, and the bytes the proxy sends
  are response heads, then the tunnel's prefix, then what is still to be read: nothing read past the final
  head is lost, and nothing is read twice.
\<close>

theorem tunnel_lossless:
  "case handshake parse target s of
     (Err e, s') \<Rightarrow> True
   | (Ok rest, s') \<Rightarrow>
       written (wr_side s') = written (wr_side s) @ connect_request target
     \<and> (\<exists>heads last_head len status. incoming (rd_side s) = heads @ rest @ incoming (rd_side s')
          \<and> parse last_head = Ok (Complete (len, Some status)) \<and> 200 \<le> status \<and> status < 300
          \<and> len \<le> MAX_HEADER_BYTES \<and> rest = drop len last_head)"
proof (cases "handshake parse target s")
  case (Pair res s')
  show ?thesis
  proof (cases res)
    case (Inr rest)
    from handshake_ok [OF Pair [unfolded Inr]] Pair Inr show ?thesis by simp
  qed (use Pair in simp)
qed

text \<open>
  C40. A validated proxy configuration is usable and cannot smuggle anything into the handshake: the
  endpoint has a nonzero port and, if it is a name, a well-formed DNS name, both timeouts are between one
  millisecond and two minutes, and for any target the authority parser accepted, the \<^verbatim>\<open>CONNECT\<close> request
  mentions it in letters, digits, hyphens, dots, colons and brackets only, so the request has its three
  lines and no header can be injected through the target.
\<close>

theorem proxy_requests_well_formed:
  "(case http_connect_proxy_new p cfg of
      Err e \<Rightarrow> True
    | Ok px \<Rightarrow>
        ta_port (px_endpoint px) \<noteq> 0
        \<and> (case ta_host (px_endpoint px) of Ip a \<Rightarrow> True | Dns name \<Rightarrow> dns_name_ok name)
        \<and> px_connect_timeout px \<in> {1..120000} \<and> px_handshake_timeout px \<in> {1..120000})
   \<and> (case target_parse p raw of
      Err e \<Rightarrow> True
    | Ok target \<Rightarrow>
        list_all authority_char (show_authority target)
        \<and> length (filter (\<lambda>c. c = CHR 0x0A) (connect_request target)) = 3)"
proof
  show "case http_connect_proxy_new p cfg of
      Err e \<Rightarrow> True
    | Ok px \<Rightarrow>
        ta_port (px_endpoint px) \<noteq> 0
        \<and> (case ta_host (px_endpoint px) of Ip a \<Rightarrow> True | Dns name \<Rightarrow> dns_name_ok name)
        \<and> px_connect_timeout px \<in> {1..120000} \<and> px_handshake_timeout px \<in> {1..120000}"
    by (auto simp: http_connect_proxy_new_def config_validate_def config_target_def target_parse_def Let_def
        timeout_in_range_def word_le_nat_alt dest: parse_target_port parse_target_dns
        split: sum.splits if_splits target_host.splits)
  have "length (filter (\<lambda>c. c = CHR 0x0A) (connect_request t)) = 3" if "list_all authority_char (show_authority t)" for t
  proof -
    have "filter (\<lambda>c. c = CHR 0x0A) (show_authority t) = []"
      using that by (auto simp: filter_empty_conv list_all_iff authority_char_def ascii_defs)
    then show ?thesis by (simp add: connect_request_def)
  qed
  then show "case target_parse p raw of
      Err e \<Rightarrow> True
    | Ok target \<Rightarrow> list_all authority_char (show_authority target)
        \<and> length (filter (\<lambda>c. c = CHR 0x0A) (connect_request target)) = 3"
    by (auto simp: target_parse_def dest: show_authority_chars split: sum.split)
qed

end
