(* ===== verification/Read_Sequence.thy ===== *)
theory Read_Sequence
  imports Stream_IO "HOL-Library.Sublist"
begin

text \<open>
  Sequences of reads with any buffer sizes: what a reader sees of a byte stream, as a specification of the answers, and the
  proof that every byte source of the pipeline answers that way.
\<close>

section \<open>Any sequence of reads with given buffer sizes\<close>

fun run_reads :: "(nat \<Rightarrow> 's \<Rightarrow> (io_kind, bytes) result \<times> 's) \<Rightarrow> nat list \<Rightarrow> 's
    \<Rightarrow> (io_kind, bytes) result list \<times> 's" where
  "run_reads rd [] s = ([], s)"
| "run_reads rd (cap # caps) s =
     (case rd cap s of (res, s1) \<Rightarrow> (case run_reads rd caps s1 of (rs, s2) \<Rightarrow> (res # rs, s2)))"

text \<open>
  The answers of a stream with this content to reads into buffers of these sizes: a read gets the next bytes, at least one
  and no more than fit, until the content has been read; only then come the end of the stream or a fault, after which a
  reader stops.
\<close>

fun reads_as :: "bytes \<Rightarrow> nat list \<Rightarrow> (io_kind, bytes) result list \<Rightarrow> bool" where
  "reads_as data [] rs \<longleftrightarrow> rs = []"
| "reads_as data (cap # caps) [] \<longleftrightarrow> False"
| "reads_as data (cap # caps) (Err k # rs) \<longleftrightarrow> data = []"
| "reads_as data (cap # caps) (Ok got # rs) \<longleftrightarrow>
     (if got = [] then data = []
      else length got \<le> cap \<and> got = take (length got) data \<and> reads_as (drop (length got) data) caps rs)"

fun received :: "(io_kind, bytes) result list \<Rightarrow> bytes" where
  "received [] = []"
| "received (Err k # rs) = []"
| "received (Ok got # rs) = (if got = [] then [] else got @ received rs)"

lemma reads_as_prefix: "reads_as data caps rs \<Longrightarrow> prefix (received rs) data"
proof (induction data caps rs rule: reads_as.induct)
  case (4 data cap caps got rs)
  show ?case
  proof (cases "got = []")
    case False
    with "4.prems" have got: "got = take (length got) data" by simp
    from 4 False have "prefix (received rs) (drop (length got) data)" by simp
    then have "prefix (got @ received rs) (got @ drop (length got) data)" by simp
    also have "got @ drop (length got) data = data" using got by (metis append_take_drop_id)
    finally show ?thesis using False by simp
  qed simp
qed simp_all

lemma reads_as_complete: "\<lbrakk>reads_as data caps rs; length data \<le> length caps\<rbrakk> \<Longrightarrow> received rs = data"
proof (induction data caps rs rule: reads_as.induct)
  case (4 data cap caps got rs)
  show ?case
  proof (cases "got = []")
    case False
    with "4.prems" have got: "got = take (length got) data" by simp
    have "length (drop (length got) data) \<le> length caps" using "4.prems"(2) False by (cases got) auto
    with 4 False have "received rs = drop (length got) data" by simp
    with False got show ?thesis by (metis append_take_drop_id received.simps(3))
  qed (use 4 in simp)
qed simp_all

section \<open>Byte sources\<close>

context byte_source
begin

lemma run_reads_as:
  "\<lbrakk>invar s; list_all ((<) 0) caps\<rbrakk> \<Longrightarrow> reads_as (content s) caps (fst (run_reads rd caps s))"
proof (induction caps arbitrary: s)
  case (Cons cap caps)
  obtain res s1 where r: "rd cap s = (res, s1)" by fastforce
  obtain rs s2 where rs: "run_reads rd caps s1 = (rs, s2)" by fastforce
  show ?case
  proof (cases res)
    case (Inl k)
    with rd_fail [OF Cons.prems(1) r [unfolded Inl]] r rs show ?thesis by simp
  next
    case (Inr got)
    show ?thesis
    proof (cases "got = []")
      case True
      with rd_end [OF Cons.prems(1), of cap s1] r rs Inr Cons.prems(2) show ?thesis by simp
    next
      case False
      from rd_data [OF Cons.prems(1) r [unfolded Inr] False] Cons.IH [OF rd_invar [OF Cons.prems(1) r]] Cons.prems(2) r rs Inr False
      show ?thesis by simp
    qed
  qed
qed simp

end

end
