(* ===== verification/Accepted_Flow.thy ===== *)
theory Accepted_Flow
  imports Outbound Read_Sequence
begin

text \<open>
  \<^verbatim>\<open>transparent/accepted_flow.rs\<close> and \<^verbatim>\<open>transparent/upstream.rs\<close>: a flow as the platform adapters hand it
  to the engine, and the three ways of reaching its provider. A boxed stream is the duplex it carries
  together with the observers that count its reads (\<^verbatim>\<open>ObservedStream\<close>, which passes reads through
  unchanged); an observer is identified by a number.
\<close>

section \<open>Flows\<close>

record boxed_stream =
  bx_stream :: duplex
  bx_observers :: "(nat \<times> traffic_direction) list"

datatype upstream_connection =
    Deferred
  | Prepared boxed_stream
  | ThroughProxy http_connect_proxy target_authority

definition with_server_name ::
  "authority_parser \<Rightarrow> bytes option \<Rightarrow> upstream_connection \<Rightarrow> (flow_error, upstream_connection) result" where
  "with_server_name authority_try_from server_name conn =
     (case conn of
        ThroughProxy proxy target \<Rightarrow>
          (case server_name of
             Some name \<Rightarrow>
               if as_ip_addr (ta_host target) \<noteq> None
               then (case target_from_host_port authority_try_from name (ta_port target) of
                       Err _ \<Rightarrow> Err (FlowIo ProxyConnectHandshake InvalidInput)
                     | Ok t \<Rightarrow> Ok (ThroughProxy proxy t))
               else Ok (ThroughProxy proxy target)
           | None \<Rightarrow> Ok (ThroughProxy proxy target))
      | _ \<Rightarrow> Ok conn)"

record accepted_tcp_flow =
  af_flow_id :: nat
  af_stream :: boxed_stream
  af_peer_addr :: "socket_addr option"
  af_local_addr :: "socket_addr option"
  af_original_destination :: destination_address
  af_destination_host :: "bytes option"
  af_source_process :: "source_process option"
  af_ingress :: flow_ingress
  af_upstream :: upstream_connection
  af_traffic_observer :: "nat option"

text \<open>\<open>fresh_id\<close> is the id \<^verbatim>\<open>FlowId::generate\<close> draws.\<close>

definition from_destination_parts ::
  "nat \<Rightarrow> boxed_stream \<Rightarrow> socket_addr option \<Rightarrow> socket_addr option \<Rightarrow> destination_address
   \<Rightarrow> source_process option \<Rightarrow> accepted_tcp_flow" where
  "from_destination_parts fresh_id stream peer loc destination process =
     \<lparr>af_flow_id = fresh_id, af_stream = stream, af_peer_addr = peer, af_local_addr = loc,
      af_original_destination = destination, af_destination_host = None, af_source_process = process,
      af_ingress = Transparent Unattributed, af_upstream = Deferred, af_traffic_observer = None\<rparr>"

definition from_boxed_parts ::
  "nat \<Rightarrow> boxed_stream \<Rightarrow> socket_addr option \<Rightarrow> socket_addr option \<Rightarrow> socket_addr
   \<Rightarrow> source_process option \<Rightarrow> accepted_tcp_flow" where
  "from_boxed_parts fresh_id stream peer loc destination process =
     from_destination_parts fresh_id stream peer loc (Known destination) process"

definition with_flow_id :: "nat \<Rightarrow> accepted_tcp_flow \<Rightarrow> accepted_tcp_flow" where
  "with_flow_id i f = f\<lparr>af_flow_id := i\<rparr>"

definition with_ingress :: "flow_ingress \<Rightarrow> accepted_tcp_flow \<Rightarrow> accepted_tcp_flow" where
  "with_ingress i f = f\<lparr>af_ingress := i\<rparr>"

definition with_destination_host :: "bytes option \<Rightarrow> accepted_tcp_flow \<Rightarrow> accepted_tcp_flow" where
  "with_destination_host h f = f\<lparr>af_destination_host := h\<rparr>"

definition with_upstream_proxy ::
  "http_connect_proxy \<Rightarrow> target_authority \<Rightarrow> accepted_tcp_flow \<Rightarrow> accepted_tcp_flow" where
  "with_upstream_proxy proxy target f = f\<lparr>af_upstream := ThroughProxy proxy target\<rparr>"

definition with_prepared_stream :: "boxed_stream \<Rightarrow> accepted_tcp_flow \<Rightarrow> accepted_tcp_flow" where
  "with_prepared_stream u f = f\<lparr>af_upstream := Prepared u\<rparr>"

definition with_upstream_connection :: "upstream_connection \<Rightarrow> accepted_tcp_flow \<Rightarrow> accepted_tcp_flow" where
  "with_upstream_connection u f = f\<lparr>af_upstream := u\<rparr>"

definition observe :: "nat \<Rightarrow> traffic_direction \<Rightarrow> boxed_stream \<Rightarrow> boxed_stream" where
  "observe observer direction b = b\<lparr>bx_observers := bx_observers b @ [(observer, direction)]\<rparr>"

definition with_traffic_observer :: "nat \<Rightarrow> accepted_tcp_flow \<Rightarrow> accepted_tcp_flow" where
  "with_traffic_observer observer f =
     f\<lparr>af_stream := observe observer ClientToUpstream (af_stream f), af_traffic_observer := Some observer\<rparr>"

definition with_existing_traffic_observer :: "nat \<Rightarrow> accepted_tcp_flow \<Rightarrow> accepted_tcp_flow" where
  "with_existing_traffic_observer observer f = f\<lparr>af_traffic_observer := Some observer\<rparr>"

text \<open>A \<^verbatim>\<open>PrefixedDuplexStream\<close> around a duplex: reads go through the prefix, writes to the inner stream.\<close>

definition prefixed_duplex :: "bytes \<Rightarrow> duplex \<Rightarrow> duplex" where
  "prefixed_duplex p s = s\<lparr>rd_side := prefixed_script (prefixed_new p (rd_side s))\<rparr>"

definition with_read_prefix :: "bytes \<Rightarrow> accepted_tcp_flow \<Rightarrow> accepted_tcp_flow" where
  "with_read_prefix p f =
     (if p = [] then f
      else f\<lparr>af_stream := (af_stream f)\<lparr>bx_stream := prefixed_duplex p (bx_stream (af_stream f))\<rparr>\<rparr>)"

section \<open>Reaching the provider\<close>

text \<open>
  The host's network as far as connecting to a provider needs it: what \<^verbatim>\<open>TcpStream::connect\<close> answers,
  whether the deadline passes first, and the environment of the upstream proxy.
\<close>

record network =
  tcp_connect :: "socket_addr \<Rightarrow> (io_kind, duplex) result"
  tcp_connect_late :: bool
  tunnel :: tunnel_env

definition observe_upstream :: "nat option \<Rightarrow> boxed_stream \<Rightarrow> boxed_stream" where
  "observe_upstream observer b =
     (case observer of None \<Rightarrow> b | Some ob \<Rightarrow> observe ob UpstreamToClient b)"

definition connect_original_destination ::
  "network \<Rightarrow> nat \<Rightarrow> destination_address \<Rightarrow> (flow_error, boxed_stream) result" where
  "connect_original_destination net connect_timeout destination =
     (case destination_socket_addr destination of
        None \<Rightarrow> Err (FlowIo ConnectProviderTcp InvalidInput)
      | Some a \<Rightarrow>
          if tcp_connect_late net then Err (FlowTimeout ConnectProviderTcp connect_timeout)
          else
            (case tcp_connect net a of
               Err k \<Rightarrow> Err (FlowIo ConnectProviderTcp k)
             | Ok s \<Rightarrow> Ok \<lparr>bx_stream = s, bx_observers = []\<rparr>))"

definition connect_upstream_with_observer ::
  "network \<Rightarrow> nat \<Rightarrow> destination_address \<Rightarrow> nat option \<Rightarrow> upstream_connection
   \<Rightarrow> (flow_error, boxed_stream) result" where
  "connect_upstream_with_observer net connect_timeout destination observer conn =
     (case conn of
        Prepared s \<Rightarrow> Ok (observe_upstream observer s)
      | ThroughProxy proxy target \<Rightarrow>
          (case connect_tunnel (tunnel net) proxy target [] of
             Err e \<Rightarrow> Err (UpstreamProxy target (show_authority (px_endpoint proxy)) e)
           | Ok t \<Rightarrow>
               Ok (observe_upstream observer
                     \<lparr>bx_stream = prefixed_duplex (ct_prefix t) (ct_stream t), bx_observers = []\<rparr>))
      | Deferred \<Rightarrow>
          (case connect_original_destination net connect_timeout destination of
             Err e \<Rightarrow> Err e
           | Ok s \<Rightarrow> Ok (observe_upstream observer s)))"

section \<open>Lemmas\<close>

lemma incoming_prefixed [simp]:
  "incoming (rd_side (prefixed_duplex p s)) = p @ incoming (rd_side s)"
  "wr_side (prefixed_duplex p s) = wr_side s"
  by (simp_all add: prefixed_duplex_def prefixed_script_def prefixed_new_def remaining_prefix_def)

lemma with_read_prefix_simps [simp]:
  "incoming (rd_side (bx_stream (af_stream (with_read_prefix p f)))) = p @ incoming (rd_side (bx_stream (af_stream f)))"
  "wr_side (bx_stream (af_stream (with_read_prefix p f))) = wr_side (bx_stream (af_stream f))"
  "bx_observers (af_stream (with_read_prefix p f)) = bx_observers (af_stream f)"
  "af_ingress (with_read_prefix p f) = af_ingress f"
  "af_upstream (with_read_prefix p f) = af_upstream f"
  "af_original_destination (with_read_prefix p f) = af_original_destination f"
  "af_destination_host (with_read_prefix p f) = af_destination_host f"
  "af_source_process (with_read_prefix p f) = af_source_process f"
  "af_traffic_observer (with_read_prefix p f) = af_traffic_observer f"
  by (auto simp: with_read_prefix_def)

lemma observe_upstream_stream [simp]: "bx_stream (observe_upstream ob b) = bx_stream b"
  by (simp add: observe_upstream_def observe_def split: option.split)

section \<open>Properties\<close>

text \<open>
  The prefixed stream refines a plain one: under every sequence of reads it answers like a stream whose
  first segment is the prefix and which continues with the inner stream, and its offset never leaves the
  prefix, so the slice \<^verbatim>\<open>prefix[prefix_offset..]\<close> never panics.
\<close>

theorem prefixed_stream_refines:
  "case run_reads prefixed_read caps (prefixed_new p r) of
     (rs, s) \<Rightarrow>
       run_reads stream_read caps (if p = [] then r else Got p # r) = (rs, prefixed_script s)
       \<and> prefix_offset s \<le> length (pfx s)"
proof -
  have "case run_reads prefixed_read caps s of
      (rs, s') \<Rightarrow> run_reads stream_read caps (prefixed_script s) = (rs, prefixed_script s') \<and> prefixed_ok s'"
    if "prefixed_ok s" for s
    using that
  proof (induction caps arbitrary: s)
    case (Cons cap caps)
    obtain res s1 where s1: "prefixed_read cap s = (res, s1)" by fastforce
    from Cons.IH [OF prefixed_read_ok [OF Cons.prems s1]] prefixed_read_stream_read [OF s1] s1
    show ?case by (auto split: prod.splits)
  qed simp
  from this [of "prefixed_new p r"] show ?thesis
    by (auto simp: prefixed_ok_def prefixed_new_def prefixed_script_def remaining_prefix_def split: prod.splits)
qed

end
