(* ===== verification/Engine.thy ===== *)
theory Engine
  imports Relay Detection Decrypt_Policy Accepted_Flow
begin

text \<open>
  \<^verbatim>\<open>transparent/engine.rs\<close> and the flow handlers it dispatches to: \<^verbatim>\<open>plain_http.rs\<close>, \<^verbatim>\<open>tls.rs\<close>,
  \<^verbatim>\<open>tls_flow.rs\<close>, \<^verbatim>\<open>tls_http.rs\<close>, \<^verbatim>\<open>passthrough.rs\<close>, with the server names of \<^verbatim>\<open>crates/abyss-mitm/src/tls.rs\<close>.
  The TLS library, the certificate generator, \<^verbatim>\<open>tokio::io::copy_bidirectional\<close> and the network are
  parameters; a TLS session is the plaintext duplex it gives the pipeline.
\<close>

section \<open>The engine\<close>

definition default_timeouts :: mitm_timeouts where
  "default_timeouts =
     \<lparr>protocol_detection = 5000, http1_request_head = 10000, client_tls_handshake = 10000,
      http1_response_head = 120000, upstream_connect = 10000, upstream_tls_handshake = 10000\<rparr>"

record 'j mitm_engine =
  en_hooks :: "'j hook_dispatcher"
  en_timeouts :: mitm_timeouts
  en_max_http1_body_bytes :: nat
  en_policy :: tls_decryption_policy

text \<open>\<open>tls_authority\<close>: what \<^verbatim>\<open>MitmTlsAuthority::from_ca\<close> answers for the root material.\<close>

definition from_ca :: "(unit, unit) result \<Rightarrow> (flow_error, 'j mitm_engine) result" where
  "from_ca tls_authority =
     (case tls_authority of
        Err _ \<Rightarrow> Err TlsConfiguration
      | Ok _ \<Rightarrow>
          Ok \<lparr>en_hooks = dispatcher_with_capacity DEFAULT_HOOK_QUEUE_CAPACITY, en_timeouts = default_timeouts,
              en_max_http1_body_bytes = DEFAULT_MAX_HTTP1_BODY_BYTES, en_policy = default_policy\<rparr>)"

definition with_hook :: "'j mitm_hook \<Rightarrow> 'j mitm_engine \<Rightarrow> 'j mitm_engine" where
  "with_hook h en = en\<lparr>en_hooks := dispatcher_push h (en_hooks en)\<rparr>"

definition with_max_http1_body_bytes :: "nat \<Rightarrow> 'j mitm_engine \<Rightarrow> 'j mitm_engine" where
  "with_max_http1_body_bytes limit en = en\<lparr>en_max_http1_body_bytes := limit\<rparr>"

definition with_tls_decryption_policy ::
  "tls_decryption_policy \<Rightarrow> 'j mitm_engine \<Rightarrow> (flow_error, 'j mitm_engine) result" where
  "with_tls_decryption_policy policy en =
     (case validate_policy policy of
        Err e \<Rightarrow> Err (TlsDecryptionPolicyError e)
      | Ok _ \<Rightarrow> Ok (en\<lparr>en_policy := policy\<rparr>))"

definition update_tls_decryption_policy ::
  "tls_decryption_policy \<Rightarrow> 'j mitm_engine \<Rightarrow> (policy_error, unit) result \<times> 'j mitm_engine" where
  "update_tls_decryption_policy policy en =
     (case validate_policy policy of
        Err e \<Rightarrow> (Err e, en)
      | Ok _ \<Rightarrow> (Ok (), en\<lparr>en_policy := policy\<rparr>))"

section \<open>Outcomes\<close>

record 'j intercepted_http_outcome =
  io_peer_addr :: "socket_addr option"
  io_local_addr :: "socket_addr option"
  io_original_destination :: destination_address
  io_protocol :: transparent_protocol
  io_first_request :: "http_request \<times> 'j captured_body"
  io_first_response :: "http_response \<times> 'j captured_body"
  io_client_to_upstream_bytes :: u64
  io_upstream_to_client_bytes :: u64

record passthrough_outcome =
  po_peer_addr :: "socket_addr option"
  po_local_addr :: "socket_addr option"
  po_original_destination :: destination_address
  po_server_name :: "bytes option"
  po_client_to_upstream_bytes :: u64
  po_upstream_to_client_bytes :: u64

datatype 'j flow_outcome = Intercepted "'j intercepted_http_outcome" | PassedThrough passthrough_outcome

text \<open>
  What a handled flow leaves behind: the client's stream as the last stage sees it (plaintext once TLS is
  terminated), the provider's stream if one was reached, the hook dispatcher, and the server name for
  which the client's TLS was terminated.
\<close>

record 'j flow_final =
  ff_client :: duplex
  ff_upstream :: "duplex option"
  ff_hooks :: "'j hook_dispatcher"
  ff_decrypted :: "bytes option"

type_synonym 'j flow_result = "(flow_error, 'j flow_outcome) result option \<times> 'j flow_final"

definition failed :: "flow_error \<Rightarrow> duplex \<Rightarrow> 'j hook_dispatcher \<Rightarrow> bytes option \<Rightarrow> 'j flow_result" where
  "failed e c d name =
     (Some (Err e), \<lparr>ff_client = c, ff_upstream = None, ff_hooks = d, ff_decrypted = name\<rparr>)"

section \<open>The environment of a flow\<close>

record ('a, 'h, 'cfg) tls_stack =
  ts_acceptor :: "('a, 'h) acceptor"
  ts_lazy_accept :: "reader \<Rightarrow> (io_kind, 'h) result \<times> reader"
  ts_server_name_ok :: "bytes \<Rightarrow> bool"
  ts_leaf_config :: "bytes \<Rightarrow> (unit, 'cfg) result"
  ts_into_stream :: "'h \<Rightarrow> 'cfg \<Rightarrow> duplex \<Rightarrow> (io_kind, duplex) result"
  ts_connect :: "bytes \<Rightarrow> duplex \<Rightarrow> (io_kind, duplex) result"

record flow_clock =
  detection_late :: bool
  client_hello_late :: bool
  client_tls_late :: bool
  request_head_late :: bool
  response_head_late :: bool
  upstream_tls_late :: bool

record ('j, 'a, 'h, 'cfg) flow_env =
  fe_deps :: "'j deps"
  fe_tls :: "('a, 'h, 'cfg) tls_stack"
  fe_net :: network
  fe_clock :: flow_clock
  fe_message_len :: "ws_message \<Rightarrow> nat"
  fe_open_ws :: "bytes \<times> bytes \<Rightarrow> duplex \<Rightarrow> duplex \<Rightarrow> ws_pick list"
  fe_copy_bidirectional :: "duplex \<Rightarrow> duplex \<Rightarrow> (io_kind, u64 \<times> u64) result \<times> duplex \<times> duplex"

section \<open>Relaying a decoded flow\<close>

definition flow_context_of :: "accepted_tcp_flow \<Rightarrow> transparent_protocol \<Rightarrow> flow_context" where
  "flow_context_of f proto =
     \<lparr>flow_id = af_flow_id f, peer_addr = af_peer_addr f, local_addr = af_local_addr f,
      original_destination = af_original_destination f, destination_host = af_destination_host f,
      protocol = proto, source_process = af_source_process f, ingress = af_ingress f\<rparr>"

definition intercepted_outcome :: "accepted_tcp_flow \<Rightarrow> 'j relay_outcome \<Rightarrow> 'j intercepted_http_outcome" where
  "intercepted_outcome f ro =
     \<lparr>io_peer_addr = af_peer_addr f, io_local_addr = af_local_addr f,
      io_original_destination = af_original_destination f, io_protocol = ro_protocol ro,
      io_first_request = (ro_request ro, ro_request_body ro),
      io_first_response = (ro_response ro, ro_response_body ro),
      io_client_to_upstream_bytes = client_to_upstream_bytes ro,
      io_upstream_to_client_bytes = upstream_to_client_bytes ro\<rparr>"

text \<open>The end both handlers share: the relay, and its outcome as the flow's.\<close>

definition relay_decoded ::
  "('j, 'a, 'h, 'cfg) flow_env \<Rightarrow> 'j mitm_engine \<Rightarrow> accepted_tcp_flow \<Rightarrow> bytes option \<Rightarrow> decoded_client_flow
   \<Rightarrow> duplex \<Rightarrow> duplex \<Rightarrow> 'j flow_result" where
  "relay_decoded env en f name decoded c u =
     (case relay_to (fe_deps env) (en_timeouts en) (response_head_late (fe_clock env))
             (en_max_http1_body_bytes en) (fe_message_len env) (fe_open_ws env) decoded
             \<lparr>client = c, upstream = u, hooks = en_hooks en\<rparr> of
        (res, st) \<Rightarrow>
          (map_option (\<lambda>r. case r of
               Err e \<Rightarrow> Err e
             | Ok ro \<Rightarrow> Ok (Intercepted (intercepted_outcome f ro))) res,
           \<lparr>ff_client = client st, ff_upstream = Some (upstream st), ff_hooks = hooks st,
            ff_decrypted = name\<rparr>))"

definition plain_http_handle ::
  "('j, 'a, 'h, 'cfg) flow_env \<Rightarrow> 'j mitm_engine \<Rightarrow> accepted_tcp_flow \<Rightarrow> 'j flow_result" where
  "plain_http_handle env en f =
     (case from_http1 (fe_deps env) (en_timeouts en) (request_head_late (fe_clock env))
             (flow_context_of f PlainHttp) (bx_stream (af_stream f)) of
        (Err e, c) \<Rightarrow> failed e c (en_hooks en) None
      | (Ok decoded, c) \<Rightarrow>
          let authority = Option.bind (request_host (first_request decoded)) (dep_authority (fe_deps env))
          in (case with_server_name (dep_authority (fe_deps env)) (map_option auth_host authority) (af_upstream f) of
                Err e \<Rightarrow> failed e c (en_hooks en) None
              | Ok conn \<Rightarrow>
                  (case connect_upstream_with_observer (fe_net env) (upstream_connect (en_timeouts en))
                          (af_original_destination f) (af_traffic_observer f) conn of
                     Err e \<Rightarrow> failed e c (en_hooks en) None
                   | Ok u \<Rightarrow> relay_decoded env en f None decoded c (bx_stream u))))"

section \<open>TLS\<close>

definition server_config_for_sni ::
  "('a, 'h, 'cfg) tls_stack \<Rightarrow> bytes \<Rightarrow> (flow_error, 'cfg) result" where
  "server_config_for_sni tls name =
     (if \<not> ts_server_name_ok tls name then Err (Tls TlsClient)
      else (case ts_leaf_config tls name of Err _ \<Rightarrow> Err (Tls TlsClient) | Ok cfg \<Rightarrow> Ok cfg))"

datatype 'h tls_http_client = RawClient duplex | InspectedClient duplex "'h inspected_client_hello"

text \<open>\<^verbatim>\<open>ClientTlsFlow\<close>: the plaintext stream and the server name.\<close>

definition finish_client_tls ::
  "('a, 'h, 'cfg) tls_stack \<Rightarrow> 'h \<Rightarrow> bytes option \<Rightarrow> duplex \<Rightarrow> (flow_error, duplex \<times> bytes) result" where
  "finish_client_tls tls hello server_name s =
     (case server_name of
        None \<Rightarrow> Err MissingSni
      | Some name \<Rightarrow>
          (case server_config_for_sni tls name of
             Err e \<Rightarrow> Err e
           | Ok cfg \<Rightarrow>
               (case ts_into_stream tls hello cfg s of
                  Err k \<Rightarrow> Err (FlowIo AcceptAgentTls k)
                | Ok plain \<Rightarrow> Ok (plain, name))))"

fun accept_client_tls ::
  "('a, 'h, 'cfg) tls_stack \<Rightarrow> 'h tls_http_client \<Rightarrow> (flow_error, duplex \<times> bytes) result \<times> duplex" where
  "accept_client_tls tls (RawClient s) =
     (case ts_lazy_accept tls (rd_side s) of
        (Err k, r) \<Rightarrow> (Err (FlowIo ReadAgentTlsClientHello k), s\<lparr>rd_side := r\<rparr>)
      | (Ok hello, r) \<Rightarrow>
          (finish_client_tls tls hello (hello_server_name (ts_acceptor tls) hello) (s\<lparr>rd_side := r\<rparr>),
           s\<lparr>rd_side := r\<rparr>))"
| "accept_client_tls tls (InspectedClient s inspected) =
     (finish_client_tls tls (ich_accepted inspected) (ich_server_name inspected) s, s)"

definition connect_upstream_tls_with_observer ::
  "('j, 'a, 'h, 'cfg) flow_env \<Rightarrow> mitm_timeouts \<Rightarrow> accepted_tcp_flow \<Rightarrow> bytes \<Rightarrow> (flow_error, duplex) result" where
  "connect_upstream_tls_with_observer env timeouts f server_name =
     (case with_server_name (dep_authority (fe_deps env)) (Some server_name) (af_upstream f) of
        Err e \<Rightarrow> Err e
      | Ok conn \<Rightarrow>
          (case connect_upstream_with_observer (fe_net env) (upstream_connect timeouts)
                  (af_original_destination f) (af_traffic_observer f) conn of
             Err e \<Rightarrow> Err e
           | Ok tcp \<Rightarrow>
               if \<not> ts_server_name_ok (fe_tls env) server_name then Err (Tls TlsUpstream)
               else if upstream_tls_late (fe_clock env)
               then Err (FlowTimeout ConnectProviderTls (upstream_tls_handshake timeouts))
               else
                 (case ts_connect (fe_tls env) server_name (bx_stream tcp) of
                    Err k \<Rightarrow> Err (FlowIo ConnectProviderTls k)
                  | Ok s \<Rightarrow> Ok s)))"

text \<open>\<^verbatim>\<open>TlsHttpFlow::handle\<close>; the metadata are those of the accepted flow.\<close>

definition tls_http_handle ::
  "('j, 'a, 'h, 'cfg) flow_env \<Rightarrow> 'j mitm_engine \<Rightarrow> accepted_tcp_flow \<Rightarrow> 'h tls_http_client \<Rightarrow> 'j flow_result" where
  "tls_http_handle env en f cl =
     (if client_tls_late (fe_clock env)
      then failed (FlowTimeout AcceptAgentTls (client_tls_handshake (en_timeouts en)))
             (case cl of RawClient s \<Rightarrow> s | InspectedClient s _ \<Rightarrow> s) (en_hooks en) None
      else
        (case accept_client_tls (fe_tls env) cl of
           (Err e, s) \<Rightarrow> failed e s (en_hooks en) None
         | (Ok (plain, name), s) \<Rightarrow>
             (case validate_tls_server_name (af_ingress f) (Some name) of
                Err e \<Rightarrow> failed e plain (en_hooks en) (Some name)
              | Ok _ \<Rightarrow>
                  (case connect_upstream_tls_with_observer env (en_timeouts en) f name of
                     Err e \<Rightarrow> failed e plain (en_hooks en) (Some name)
                   | Ok u \<Rightarrow>
                       (case from_http1 (fe_deps env) (en_timeouts en) (request_head_late (fe_clock env))
                               (flow_context_of f (TlsHttp name)) plain of
                          (Err e, c) \<Rightarrow>
                            (Some (Err e), \<lparr>ff_client = c, ff_upstream = Some u, ff_hooks = en_hooks en,
                                            ff_decrypted = Some name\<rparr>)
                        | (Ok decoded, c) \<Rightarrow> relay_decoded env en f (Some name) decoded c u)))))"

section \<open>Passthrough\<close>

definition passthrough_handle ::
  "('j, 'a, 'h, 'cfg) flow_env \<Rightarrow> 'j mitm_engine \<Rightarrow> accepted_tcp_flow \<Rightarrow> bytes option \<Rightarrow> bytes \<Rightarrow> 'j flow_result" where
  "passthrough_handle env en f server_name initial_client_bytes =
     (let s = bx_stream (af_stream f);
          final = (\<lambda>c u. \<lparr>ff_client = c, ff_upstream = Some u, ff_hooks = en_hooks en, ff_decrypted = None\<rparr>)
      in case with_server_name (dep_authority (fe_deps env)) server_name (af_upstream f) of
           Err e \<Rightarrow> failed e s (en_hooks en) None
         | Ok conn \<Rightarrow>
             (case connect_upstream_with_observer (fe_net env) (upstream_connect (en_timeouts en))
                     (af_original_destination f) (af_traffic_observer f) conn of
                Err e \<Rightarrow> failed e s (en_hooks en) None
              | Ok u \<Rightarrow>
                  (case (if initial_client_bytes = [] then (Ok (), wr_side (bx_stream u))
                         else write_all initial_client_bytes (wr_side (bx_stream u))) of
                     (Err k, w) \<Rightarrow>
                       (Some (Err (FlowIo WriteProviderTlsClientHello k)), final s ((bx_stream u)\<lparr>wr_side := w\<rparr>))
                   | (Ok _, w) \<Rightarrow>
                       (case usize_to_u64 (length initial_client_bytes) of
                          Err e \<Rightarrow> (Some (Err e), final s ((bx_stream u)\<lparr>wr_side := w\<rparr>))
                        | Ok initial_len \<Rightarrow>
                            (case fe_copy_bidirectional env s ((bx_stream u)\<lparr>wr_side := w\<rparr>) of
                               (Err k, c', u') \<Rightarrow> (Some (Err (FlowIo RelayPassthrough k)), final c' u')
                             | (Ok (remaining, down), c', u') \<Rightarrow>
                                 (case checked_add initial_len remaining of
                                    None \<Rightarrow> (Some (Err ByteCountOverflow), final c' u')
                                  | Some up \<Rightarrow>
                                      (Some (Ok (PassedThrough
                                         \<lparr>po_peer_addr = af_peer_addr f, po_local_addr = af_local_addr f,
                                          po_original_destination = af_original_destination f,
                                          po_server_name = server_name,
                                          po_client_to_upstream_bytes = up,
                                          po_upstream_to_client_bytes = down\<rparr>)), final c' u')))))))"

section \<open>Dispatch\<close>

definition policy_target_domain :: "bytes option \<Rightarrow> bytes option \<Rightarrow> bytes option" where
  "policy_target_domain server_name platform_destination_host =
     (case server_name of None \<Rightarrow> platform_destination_host | Some n \<Rightarrow> Some n)"

text \<open>
  The flow a passthrough continues with: rebuilt from the inspected stream, with the observer that is
  already counting the client's reads.
\<close>

definition passthrough_flow :: "nat \<Rightarrow> accepted_tcp_flow \<Rightarrow> boxed_stream \<Rightarrow> accepted_tcp_flow" where
  "passthrough_flow fresh_id f stream =
     (let g = with_upstream_connection (af_upstream f) (with_ingress (af_ingress f)
                (with_destination_host (af_destination_host f) (with_flow_id (af_flow_id f)
                  (from_destination_parts fresh_id stream (af_peer_addr f) (af_local_addr f)
                     (af_original_destination f) (af_source_process f)))))
      in case af_traffic_observer f of None \<Rightarrow> g | Some ob \<Rightarrow> with_existing_traffic_observer ob g)"

definition handle_with_decryption_policy ::
  "('j, 'a, 'h, 'cfg) flow_env \<Rightarrow> 'j mitm_engine \<Rightarrow> nat \<Rightarrow> accepted_tcp_flow \<Rightarrow> 'j flow_result" where
  "handle_with_decryption_policy env en fresh_id f =
     (let s = bx_stream (af_stream f)
      in case read_client_hello (ts_acceptor (fe_tls env)) DEFAULT_MAX_CLIENT_HELLO_BYTES stream_read
                (client_tls_handshake (en_timeouts en)) (client_hello_late (fe_clock env)) (rd_side s) of
           (Err e, r) \<Rightarrow> failed e (s\<lparr>rd_side := r\<rparr>) (en_hooks en) None
         | (Ok inspected, r) \<Rightarrow>
             let s' = s\<lparr>rd_side := r\<rparr>; server_name = ich_server_name inspected
             in case validate_tls_server_name (af_ingress f) server_name of
                  Err e \<Rightarrow> failed e s' (en_hooks en) None
                | Ok _ \<Rightarrow>
                    (case decision_action (decide (en_policy en)
                            (policy_target_domain server_name (af_destination_host f)) (af_source_process f)) of
                       Intercept \<Rightarrow> tls_http_handle env en f (InspectedClient s' inspected)
                     | Passthrough \<Rightarrow>
                         passthrough_handle env en
                           (passthrough_flow fresh_id f ((af_stream f)\<lparr>bx_stream := s'\<rparr>))
                           server_name (ich_raw_bytes inspected)))"

definition tls_handle ::
  "('j, 'a, 'h, 'cfg) flow_env \<Rightarrow> 'j mitm_engine \<Rightarrow> nat \<Rightarrow> accepted_tcp_flow \<Rightarrow> 'j flow_result" where
  "tls_handle env en fresh_id f =
     (if \<not> requires_sni_peek (en_policy en) \<and> \<not> requires_tls_server_name_validation (af_ingress f)
      then tls_http_handle env en f (RawClient (bx_stream (af_stream f)))
      else handle_with_decryption_policy env en fresh_id f)"

definition handle_flow ::
  "('j, 'a, 'h, 'cfg) flow_env \<Rightarrow> 'j mitm_engine \<Rightarrow> nat \<Rightarrow> accepted_tcp_flow \<Rightarrow> 'j flow_result" where
  "handle_flow env en fresh_id f =
     (let s = bx_stream (af_stream f)
      in case detect stream_read (protocol_detection (en_timeouts en)) (detection_late (fe_clock env)) (rd_side s) of
           (Err e, r) \<Rightarrow> failed e (s\<lparr>rd_side := r\<rparr>) (en_hooks en) None
         | (Ok (proto, used), r) \<Rightarrow>
             let f' = with_read_prefix used (f\<lparr>af_stream := (af_stream f)\<lparr>bx_stream := s\<lparr>rd_side := r\<rparr>\<rparr>\<rparr>)
             in case proto of
                  DetectedPlainHttp \<Rightarrow> plain_http_handle env en f'
                | DetectedTls \<Rightarrow> tls_handle env en fresh_id f')"

end
