(* ===== verification/Complete_Body.thy ===== *)
theory Complete_Body
  imports Body_Forward
begin

text \<open>
  When a body counts as received: the specification, per framing, of the bytes of a stream that make a
  complete body and of the copy kept for the hooks, and the proof that the body loops of
  \<^verbatim>\<open>transparent/relay.rs\<close> succeed on nothing less.
\<close>

section \<open>A completely framed body\<close>

text \<open>
  \<open>b\<close> are the bytes that came with the head and \<open>r\<close> the stream after them. A body of a given length ends
  with its last byte; a chunked one where the decoder, given the segments as they came, reports the end;
  one without a length where the peer closes, which a fault is not.
\<close>

fun framed_completely ::
  "chunk_size_parser \<Rightarrow> 'j json_parser \<Rightarrow> nat \<Rightarrow> body_direction \<Rightarrow> body_framing \<Rightarrow> bytes \<Rightarrow> reader
   \<Rightarrow> 'j captured_body \<Rightarrow> bool" where
  "framed_completely p js m dir Empty b r body \<longleftrightarrow> b = [] \<and> body = captured_from_bytes js []"
| "framed_completely p js m dir (ContentLength n) b r body \<longleftrightarrow>
     length b \<le> n \<and> n \<le> length (b @ incoming r)
     \<and> body = captured_body_from js (take m (take n (b @ incoming r)), n \<le> m) m"
| "framed_completely p js m dir Chunked b r body \<longleftrightarrow>
     (\<exists>segs rest cap. concat segs @ rest = b @ incoming r \<and> [] \<notin> set segs
        \<and> feed_all p js m (chunked_new dir) segs = (Ok (Some cap), []) \<and> body = bc_body cap)"
| "framed_completely p js m dir UntilEof b r body \<longleftrightarrow>
     ends_cleanly r
     \<and> body = captured_body_from js (take m (b @ incoming r), length (b @ incoming r) \<le> m) m"

section \<open>The body loops receive complete bodies\<close>

lemma content_length_loop_fits:
  "content_length_loop js dir len m body rem bs r w = (Ok cap, r', w') \<Longrightarrow> len < 2 ^ 64"
proof (induction js dir len m body rem bs r w rule: content_length_loop.induct)
  case (1 js dir len m body rem bs r w)
  from "1.prems" show ?case
    by (subst (asm) content_length_loop.simps)
      (auto simp: Let_def usize_to_u64_def split: sum.splits prod.splits if_splits dest!: "1.IH" [rotated -1])
qed

lemma chunked_piece_fed:
  assumes "chunked_piece p js m dir c bs w = (Ok x, c', w')"
  shows "case x of
      None \<Rightarrow> feed p js m c bs = (Ok None, c')
    | Some cap \<Rightarrow> \<exists>cap0. feed p js m c bs = (Ok (Some cap0), c') \<and> bc_body cap = bc_body cap0"
  using assms feed_counts(2) [of p js m c bs]
  by (fastforce simp: chunked_piece_def split: sum.splits option.splits prod.splits dest: forward_last_bytes_ok)

lemma chunked_loop_fed:
  "chunked_loop p js m dir c r w = (Ok cap, r', w') \<Longrightarrow>
     \<exists>segs rest cap0. concat segs @ rest = incoming r \<and> [] \<notin> set segs
       \<and> feed_all p js m c segs = (Ok (Some cap0), []) \<and> bc_body cap = bc_body cap0"
proof (induction p js m dir c r w rule: chunked_loop.induct)
  case (1 p js m dir c r w)
  from "1.prems" obtain chunk r1 x c1 w1 where go: "stream_read RELAY_CHUNK_BYTES r = (Ok chunk, r1)" "chunk \<noteq> []"
    "chunked_piece p js m dir c chunk w = (Ok x, c1, w1)"
    by (subst (asm) chunked_loop.simps) (auto split: sum.splits prod.splits if_splits)
  note inc = conjunct1 [OF stream_read_data [OF go(1,2)]]
  show ?case
  proof (cases x)
    case None
    with "1.prems" go have rec: "chunked_loop p js m dir c1 r1 w1 = (Ok cap, r', w')"
      by (subst (asm) chunked_loop.simps) simp
    from "1.IH" [OF go(1) [symmetric] refl go(2) go(3) [symmetric] refl None refl rec]
    obtain segs rest cap0 where "concat segs @ rest = incoming r1" "[] \<notin> set segs"
      "feed_all p js m c1 segs = (Ok (Some cap0), [])" "bc_body cap = bc_body cap0" by blast
    with chunked_piece_fed [OF go(3)] None inc go(2) show ?thesis
      by (intro exI [of _ "chunk # segs"] exI [of _ rest] exI [of _ cap0]) auto
  next
    case (Some cap1)
    with "1.prems" go have "cap1 = cap" by (subst (asm) chunked_loop.simps) simp
    with chunked_piece_fed [OF go(3)] Some inc go(2) show ?thesis
      by (auto intro!: exI [of _ "[chunk]"])
  qed
qed

lemma forward_chunked_body_fed:
  assumes "forward_chunked_body p js m dir b r w = (Ok cap, r', w')"
  shows "framed_completely p js m dir Chunked b r (bc_body cap)"
proof (cases "b = []")
  case True
  with assms chunked_loop_fed [of p js m dir "chunked_new dir" r w cap r' w'] show ?thesis
    by (simp add: forward_chunked_body_def)
next
  case False
  with assms obtain x c1 w1 where piece: "chunked_piece p js m dir (chunked_new dir) b w = (Ok x, c1, w1)"
    by (auto simp: forward_chunked_body_def split: sum.splits prod.splits)
  note fed = chunked_piece_fed [OF piece]
  show ?thesis
  proof (cases x)
    case None
    with assms piece False have "chunked_loop p js m dir c1 r w1 = (Ok cap, r', w')"
      by (simp add: forward_chunked_body_def)
    from chunked_loop_fed [OF this] obtain segs rest cap0 where "concat segs @ rest = incoming r" "[] \<notin> set segs"
      "feed_all p js m c1 segs = (Ok (Some cap0), [])" "bc_body cap = bc_body cap0" by blast
    with fed None False show ?thesis
      by (auto intro!: exI [of _ "b # segs"] exI [of _ rest] exI [of _ cap0])
  next
    case (Some cap1)
    with assms piece False have "cap1 = cap" by (simp add: forward_chunked_body_def)
    with fed Some False show ?thesis by (auto intro!: exI [of _ "[b]"])
  qed
qed

lemma stream_read_stays_clean:
  assumes "stream_read cap r = (Ok bs, r')" and "0 < cap"
  shows "bs = [] \<Longrightarrow> ends_cleanly r" and "ends_cleanly r' \<Longrightarrow> ends_cleanly r"
  using assms by (cases "(cap, r)" rule: stream_read.cases; auto split: if_splits)+

lemma until_eof_loop_clean:
  "until_eof_loop js m dir body count r w = (Ok cap, r', w') \<Longrightarrow> ends_cleanly r"
proof (induction js m dir body count r w rule: until_eof_loop.induct)
  case (1 js m dir body count r w)
  have cap: "0 < RELAY_CHUNK_BYTES" by (simp add: RELAY_CHUNK_BYTES_def)
  from "1.prems" show ?case
    by (subst (asm) until_eof_loop.simps)
      (auto split: sum.splits prod.splits if_splits intro: stream_read_stays_clean [OF _ cap] dest!: "1.IH" [rotated -1])
qed

lemma forward_body_framed:
  assumes run: "forward_body p js m dir framing b r w = (Ok cap, r', w')"
  shows "framed_completely p js m dir framing b r (bc_body cap)"
proof (cases framing)
  case Empty
  with run show ?thesis
    by (auto simp: forward_body_def forward_empty_body_def Let_def split: if_splits sum.splits prod.splits)
next
  case (ContentLength n)
  with run have n: "length b \<le> n" and loop: "content_length_loop js dir n m ([], True) n b r w = (Ok cap, r', w')"
    by (auto simp: forward_body_def forward_content_length_body_def split: if_splits)
  from content_length_loop_fits [OF loop] have "length ([] :: bytes) + n \<le> usize_max" by (simp add: usize_max_def)
  note ok = content_length_loop_ok [OF loop capture_of_Nil [symmetric] this refl]
  then have "capture_of m ([] @ take n (b @ incoming r)) = (take m (take n (b @ incoming r)), n \<le> m)"
    by (simp add: capture_of_def min_absorb2 del: take_append)
  with ok n ContentLength show ?thesis by (simp del: take_append append_Nil)
next
  case Chunked
  with run forward_chunked_body_fed show ?thesis by (simp add: forward_body_def)
next
  case UntilEof
  with run have u: "forward_until_eof_body js m dir b r w = (Ok cap, r', w')" by (simp add: forward_body_def)
  then have "ends_cleanly r"
    by (auto simp: forward_until_eof_body_def Let_def dest: until_eof_loop_clean split: sum.splits prod.splits if_splits)
  with forward_until_eof_body_ok [OF u] UntilEof show ?thesis by (simp add: capture_of_def)
qed

end
