(* ===== verification/Relay_Props.thy ===== *)
theory Relay_Props
  imports Relay Complete_Body
begin

text \<open>
  What one HTTP/1 exchange does to the two sockets and to the hooks: transparency of the message
  level of \<^verbatim>\<open>transparent/relay.rs\<close>, exact counters, and exactly one observation per completed
  response.
\<close>

section \<open>The request side\<close>

text \<open>What the upstream may be given, and what the agent is told before its body.\<close>

definition relayed_request :: "http_request \<Rightarrow> head_buffer \<Rightarrow> bytes \<Rightarrow> bytes" where
  "relayed_request request buffer unread =
     (case request_body_framing request of
        Err e \<Rightarrow> []
      | Ok framing \<Rightarrow>
          (case request_head_for_relay request buffer (handles_expect_continue request framing) of
             Err e \<Rightarrow> []
           | Ok head \<Rightarrow> head @ buffered_body buffer @ unread))"

definition local_continue :: "http_request \<Rightarrow> bytes" where
  "local_continue request =
     (case request_body_framing request of
        Err e \<Rightarrow> []
      | Ok framing \<Rightarrow> if handles_expect_continue request framing then HTTP1_100_CONTINUE else [])"

lemma send_continue_written:
  "send_continue_response_to_client w = (res, w') \<Longrightarrow>
     (\<exists>j. written w' = written w @ take j HTTP1_100_CONTINUE)
     \<and> (\<forall>u. res = Ok u \<longrightarrow> written w' = written w @ HTTP1_100_CONTINUE)"
proof -
  assume run: "send_continue_response_to_client w = (res, w')"
  obtain wres w1 where w1: "write_all HTTP1_100_CONTINUE w = (wres, w1)" by fastforce
  show ?thesis
  proof (cases wres)
    case (Inl k)
    with run w1 write_all_prefix [OF w1] show ?thesis
      by (auto simp: send_continue_response_to_client_def)
  next
    case (Inr u)
    with run w1 have "written w' = written w1"
      by (auto simp: send_continue_response_to_client_def split: prod.splits sum.splits)
    with write_all_ok [of HTTP1_100_CONTINUE w w1] w1 Inr show ?thesis
      by (auto intro: exI [of _ "length HTTP1_100_CONTINUE"])
  qed
qed

lemma write_all_prefix_append:
  assumes "write_all bs w = (res, w')"
  shows "\<exists>n. written w' = written w @ take n (bs @ later)"
proof -
  from write_all_delivered [OF assms] obtain n where "delivered (bs @ later) w w' n"
    using delivered_append by blast
  then show ?thesis unfolding delivered_def by blast
qed

lemma take_prefix_append: "\<exists>n. zs = ws @ take n xs \<Longrightarrow> \<exists>n. zs = ws @ take n (xs @ ys)"
  by (metis append_Nil2 diff_is_0_eq' linear take0 take_all take_append)

lemma take_nothing: "\<exists>n. xs = xs @ take n ys"
  by (intro exI [of _ 0]) simp

lemma add_len_Ok: "add_len a b = Ok c \<Longrightarrow> unat c = unat a + unat b"
  by (auto simp: add_len_def checked_add_Some split: option.splits)

lemma usize_to_u64_Ok: "usize_to_u64 n = Ok x \<Longrightarrow> unat x = n"
  by (auto simp: usize_to_u64_def unat_of_nat_u64 split: if_splits)

lemma forward_request_body_spec:
  assumes run: "forward_request_body deps framing b m hl c w1 = (res, c', w')"
    and w1: "written w1 = written w @ head" and hl: "hl = length head"
  shows "\<exists>n. written w' = written w @ take n (head @ b @ incoming (rd_side c))"
    and "wr_side c' = wr_side c"
    and "res = Ok cap \<Longrightarrow> unat (forwarded_bytes cap) = length (written w') - length (written w)
      \<and> agent_write_error cap = None"
proof -
  obtain fres r w2 where f: "forward_body (dep_chunk_size deps) (dep_json deps) m Request framing b (rd_side c) w1
      = (fres, r, w2)" by (metis prod_cases3)
  have same: "written w' = written w2 \<and> wr_side c' = wr_side c"
    using run f by (auto simp: forward_request_body_def split: sum.splits prod.splits)
  with body.after_head(1) [OF f w1]
  show "\<exists>n. written w' = written w @ take n (head @ b @ incoming (rd_side c))" "wr_side c' = wr_side c"
    by simp_all
  show "unat (forwarded_bytes cap) = length (written w') - length (written w) \<and> agent_write_error cap = None"
    if ok: "res = Ok cap"
  proof -
    from run f ok obtain cap1 n where cap1: "fres = Ok cap1" "usize_to_u64 hl = Ok n"
      "add_len n (forwarded_bytes cap1) = Ok (forwarded_bytes cap)" "agent_write_error cap = agent_write_error cap1"
      by (auto simp: forward_request_body_def split: sum.splits prod.splits)
    from body.count_exact [OF f [unfolded cap1(1)]] body.request_error_free [OF f [unfolded cap1(1)]]
      add_len_Ok [OF cap1(3)] usize_to_u64_Ok [OF cap1(2)] cap1(4) same w1 hl
    show ?thesis by simp
  qed
qed

lemma forward_request_tail:
  assumes run: "(if hand then
        (case send_continue_response_to_client (wr_side c) of
           (Err e, cw) \<Rightarrow> (Err e, c\<lparr>wr_side := cw\<rparr>, w1)
         | (Ok _, cw) \<Rightarrow> forward_request_body deps framing b m (length head) (c\<lparr>wr_side := cw\<rparr>) w1)
      else forward_request_body deps framing b m (length head) c w1) = (res, c', w')"
    and w1: "written w1 = written w @ head" and cont: "cont = (if hand then HTTP1_100_CONTINUE else [])"
  shows "(\<exists>n. written w' = written w @ take n (head @ b @ incoming (rd_side c)))
    \<and> (\<exists>j. written (wr_side c') = written (wr_side c) @ take j cont)
    \<and> (res = Ok cap \<longrightarrow> unat (forwarded_bytes cap) = length (written w') - length (written w)
      \<and> agent_write_error cap = None \<and> written (wr_side c') = written (wr_side c) @ cont)"
proof (cases hand)
  case False
  with run have "forward_request_body deps framing b m (length head) c w1 = (res, c', w')" by simp
  from forward_request_body_spec [OF this w1 refl] cont False show ?thesis by auto
next
  case True
  obtain cres cw where cw: "send_continue_response_to_client (wr_side c) = (cres, cw)" by fastforce
  note told = send_continue_written [OF cw]
  show ?thesis
  proof (cases cres)
    case (Inl e)
    with run True cw have "res = Err e" "c' = c\<lparr>wr_side := cw\<rparr>" "w' = w1" by auto
    with told cont True w1 show ?thesis by (auto intro: exI [of _ "length head"])
  next
    case (Inr u)
    with run True cw have "forward_request_body deps framing b m (length head) (c\<lparr>wr_side := cw\<rparr>) w1 = (res, c', w')"
      by simp
    from forward_request_body_spec [OF this w1 refl] told cont True Inr show ?thesis
      by (auto intro: exI [of _ "length HTTP1_100_CONTINUE"])
  qed
qed

lemma forward_request_spec:
  assumes run: "forward_request deps request buffer m c w = (res, c', w')"
  shows "\<exists>n. written w' = written w @ take n (relayed_request request buffer (incoming (rd_side c)))"
    and "\<exists>j. written (wr_side c') = written (wr_side c) @ take j (local_continue request)"
    and "res = Ok cap \<Longrightarrow> unat (forwarded_bytes cap) = length (written w') - length (written w)
      \<and> agent_write_error cap = None
      \<and> written (wr_side c') = written (wr_side c) @ local_continue request"
proof -
  let ?src = "relayed_request request buffer (incoming (rd_side c))"
  have "(\<exists>n. written w' = written w @ take n ?src)
    \<and> (\<exists>j. written (wr_side c') = written (wr_side c) @ take j (local_continue request))
    \<and> (res = Ok cap \<longrightarrow> unat (forwarded_bytes cap) = length (written w') - length (written w)
      \<and> agent_write_error cap = None
      \<and> written (wr_side c') = written (wr_side c) @ local_continue request)"
  proof (cases "request_body_framing request")
    case (Inl e)
    with run take_nothing show ?thesis by (auto simp: forward_request_def)
  next
    case fr: (Inr framing)
    show ?thesis
    proof (cases "request_head_for_relay request buffer (handles_expect_continue request framing)")
      case (Inl e)
      with run fr take_nothing show ?thesis by (auto simp: forward_request_def)
    next
      case hd: (Inr head)
      then have head: "?src = head @ buffered_body buffer @ incoming (rd_side c)"
        using fr by (simp add: relayed_request_def)
      obtain wres w1 where w1: "write_all head w = (wres, w1)" by fastforce
      show ?thesis
      proof (cases wres)
        case (Inl k)
        with run fr hd w1 have "w' = w1" "c' = c" "\<exists>e. res = Err e"
          by (auto simp: forward_request_def)
        moreover have "\<exists>n. written w1 = written w @ take n ?src"
          unfolding head by (rule write_all_prefix_append [OF w1])
        ultimately show ?thesis using take_nothing by auto
      next
        case (Inr u)
        then have ok1: "written w1 = written w @ head" using w1 write_all_ok by auto
        have "local_continue request
            = (if handles_expect_continue request framing then HTTP1_100_CONTINUE else [])"
          using fr by (simp add: local_continue_def)
        from forward_request_tail [OF _ ok1 this, of c deps framing "buffered_body buffer" m res c' w' cap]
          run fr hd w1 Inr head show ?thesis by (simp add: forward_request_def)
      qed
    qed
  qed
  then show "\<exists>n. written w' = written w @ take n ?src"
    "\<exists>j. written (wr_side c') = written (wr_side c) @ take j (local_continue request)"
    "res = Ok cap \<Longrightarrow> unat (forwarded_bytes cap) = length (written w') - length (written w)
      \<and> agent_write_error cap = None
      \<and> written (wr_side c') = written (wr_side c) @ local_continue request"
    by blast+
qed



section \<open>The response side\<close>

lemma forward_response_spec:
  assumes run: "forward_response deps request response buffer m r w = (res, r', w')"
  shows "\<exists>k. written w' = written w @ take k (hb_bytes buffer @ incoming r)"
    and "res = Ok cap \<Longrightarrow> unat (forwarded_bytes cap) = length (written w') - length (written w)"
proof -
  let ?h = "head_bytes buffer" and ?b = "buffered_body buffer"
  obtain wres w1 where w1: "write_all ?h w = (wres, w1)" by fastforce
  have src: "?h @ ?b @ incoming r = hb_bytes buffer @ incoming r"
    using head_body_bytes [of buffer] by (metis append_assoc)
  have "(\<exists>k. written w' = written w @ take k (?h @ ?b @ incoming r))
    \<and> (res = Ok cap \<longrightarrow> unat (forwarded_bytes cap) = length (written w') - length (written w))"
  proof (cases "\<exists>u framing. wres = Ok u \<and> response_body_framing (req_method request) response = Ok framing")
    case False
    with run w1 have "w' = w1" "\<exists>e. res = Err e"
      by (auto simp: forward_response_def split: sum.splits)
    with write_all_prefix [OF w1] show ?thesis by fastforce
  next
    case True
    then obtain framing where ok: "wres = Ok ()" "response_body_framing (req_method request) response = Ok framing"
      by auto
    then have ok1: "written w1 = written w @ ?h" using w1 write_all_ok by auto
    obtain fres r2 w2 where f: "forward_body (dep_chunk_size deps) (dep_json deps) m Response framing ?b r w1
        = (fres, r2, w2)" by (metis prod_cases3)
    have "w' = w2" using run w1 ok f by (auto simp: forward_response_def split: sum.splits)
    moreover have "unat (forwarded_bytes cap) = length (written w') - length (written w)" if "res = Ok cap"
    proof -
      from run w1 ok f that obtain cap1 n where cap1: "fres = Ok cap1" "usize_to_u64 (length ?h) = Ok n"
        "add_len n (forwarded_bytes cap1) = Ok (forwarded_bytes cap)"
        by (auto simp: forward_response_def split: sum.splits)
      from body.count_exact [OF f [unfolded cap1(1)]] add_len_Ok [OF cap1(3)] usize_to_u64_Ok [OF cap1(2)]
        ok1 \<open>w' = w2\<close> show ?thesis by simp
    qed
    ultimately show ?thesis using body.after_head(1) [OF f ok1] by simp
  qed
  then show "\<exists>k. written w' = written w @ take k (hb_bytes buffer @ incoming r)"
    "res = Ok cap \<Longrightarrow> unat (forwarded_bytes cap) = length (written w') - length (written w)"
    unfolding src by blast+
qed

lemma forward_response_framed:
  assumes "forward_response deps request response buffer m r w = (Ok cap, r', w')"
  shows "\<exists>framing. response_body_framing (req_method request) response = Ok framing
    \<and> framed_completely (dep_chunk_size deps) (dep_json deps) m Response framing (buffered_body buffer) r (bc_body cap)"
  using assms by (auto simp: forward_response_def split: sum.splits prod.splits dest: forward_body_framed)

lemma decode_response_content:
  "decode_response_from_upstream deps timeouts late r = (Ok (response, buffer), r') \<Longrightarrow>
     incoming r = hb_bytes buffer @ incoming r'"
  using script.read_http1_head_content [OF TrueI, of _ _ "[]" r]
  by (fastforce simp: decode_response_from_upstream_def decode_response_head_with_timeout_def
      split: prod.splits sum.splits if_splits)

lemma shutdown_completed_written:
  "shutdown_completed_agent_stream w = (res, w') \<Longrightarrow> written w' = written w"
  by (auto simp: shutdown_completed_agent_stream_def Let_def split: prod.splits sum.splits if_splits)

text \<open>Response and submission in one step.\<close>

lemma forward_response_and_submit_spec:
  assumes run: "forward_http_response_and_submit deps flow response buffer qcap m st = (res, st')"
  shows "\<exists>k. written (wr_side (client st')) = written (wr_side (client st))
      @ take k (hb_bytes buffer @ incoming (rd_side (upstream st)))"
    and "wr_side (upstream st') = wr_side (upstream st)"
    and "hooks st' = hooks st \<and> (\<exists>e. res = Err e)
      \<or> (\<exists>framing rcap. response_body_framing (req_method (first_request flow)) response = Ok framing
          \<and> framed_completely (dep_chunk_size deps) (dep_json deps) m Response framing (buffered_body buffer)
              (rd_side (upstream st)) (bc_body rcap)
          \<and> hooks st' = snd (submit (captured_exchange (dep_json deps) (df_context flow) (first_request flow)
              response qcap rcap) (hooks st)))"
    and "res = Ok outcome \<Longrightarrow> client_to_upstream_bytes outcome = forwarded_bytes qcap
      \<and> unat (upstream_to_client_bytes outcome)
          = length (written (wr_side (client st'))) - length (written (wr_side (client st)))
      \<and> (\<exists>rcap. hooks st' = snd (submit (captured_exchange (dep_json deps) (df_context flow) (first_request flow)
            response qcap rcap) (hooks st)))"
proof -
  obtain fres r w where f: "forward_response deps (first_request flow) response buffer m
      (rd_side (upstream st)) (wr_side (client st)) = (fres, r, w)" by (metis prod_cases3)
  note spec = forward_response_spec [OF f]
  have written: "written (wr_side (client st')) = written w" and up: "wr_side (upstream st') = wr_side (upstream st)"
    using run f by (auto simp: forward_http_response_and_submit_def dest: shutdown_completed_written
        split: sum.splits prod.splits option.splits)
  show "\<exists>k. written (wr_side (client st')) = written (wr_side (client st))
      @ take k (hb_bytes buffer @ incoming (rd_side (upstream st)))"
    using spec(1) written by simp
  show "wr_side (upstream st') = wr_side (upstream st)" by (rule up)
  have sub: "\<exists>rcap. fres = Ok rcap \<and> hooks st' = snd (submit (captured_exchange (dep_json deps) (df_context flow)
      (first_request flow) response qcap rcap) (hooks st))
      \<and> (\<forall>outcome. res = Ok outcome \<longrightarrow> client_to_upstream_bytes outcome = forwarded_bytes qcap
          \<and> upstream_to_client_bytes outcome = forwarded_bytes rcap)" if "\<nexists>e. fres = Err e"
    using that run f
    by (cases fres) (auto simp: forward_http_response_and_submit_def submit_captured_exchange_def Let_def
        split: sum.splits prod.splits option.splits)
  show "hooks st' = hooks st \<and> (\<exists>e. res = Err e)
      \<or> (\<exists>framing rcap. response_body_framing (req_method (first_request flow)) response = Ok framing
          \<and> framed_completely (dep_chunk_size deps) (dep_json deps) m Response framing (buffered_body buffer)
              (rd_side (upstream st)) (bc_body rcap)
          \<and> hooks st' = snd (submit (captured_exchange (dep_json deps) (df_context flow) (first_request flow)
              response qcap rcap) (hooks st)))"
  proof (cases fres)
    case (Inl e)
    with run f show ?thesis by (auto simp: forward_http_response_and_submit_def)
  next
    case (Inr rcap)
    with sub forward_response_framed [OF f [unfolded Inr]] show ?thesis by auto
  qed
  show "client_to_upstream_bytes outcome = forwarded_bytes qcap
      \<and> unat (upstream_to_client_bytes outcome)
          = length (written (wr_side (client st'))) - length (written (wr_side (client st)))
      \<and> (\<exists>rcap. hooks st' = snd (submit (captured_exchange (dep_json deps) (df_context flow) (first_request flow)
            response qcap rcap) (hooks st)))" if ok: "res = Ok outcome"
  proof -
    from ok run f have "\<nexists>e. fres = Err e" by (auto simp: forward_http_response_and_submit_def)
    from sub [OF this] ok spec(2) written show ?thesis by auto
  qed
qed

section \<open>Head and exchange together\<close>

lemma relayed_request_verbatim:
  assumes "local_continue request = []"
  shows "\<exists>n. relayed_request request buffer unread = take n (hb_bytes buffer @ unread)"
proof (cases "request_body_framing request")
  case (Inr framing)
  with assms have "\<not> handles_expect_continue request framing"
    by (auto simp: local_continue_def HTTP1_100_CONTINUE_def split: if_splits)
  with Inr have "relayed_request request buffer unread = hb_bytes buffer @ unread"
    using head_body_bytes [of buffer] by (simp add: relayed_request_def request_head_for_relay_def flip: append_assoc)
  then show ?thesis by (intro exI [of _ "length (hb_bytes buffer @ unread)"]) simp
qed (auto simp: relayed_request_def intro: exI [of _ 0])

lemma from_http1_content:
  assumes "from_http1 deps timeouts late ctx s = (Ok flow, s')"
  shows "incoming (rd_side s) = hb_bytes (request_head_buffer flow) @ incoming (rd_side s')"
    and "length (hb_bytes (request_head_buffer flow)) < MAX_HTTP1_HEADER_BYTES + HEADER_READ_CHUNK_BYTES"
    and "parse_request_head (dep_parse_request deps) (dep_http deps) (hb_bytes (request_head_buffer flow))
      = Ok (Some (first_request flow, hb_head_len (request_head_buffer flow)))"
    and "validate_http_target (dep_authority deps) ctx (first_request flow) = Ok ()"
    and "df_context flow = ctx" and "wr_side s' = wr_side s"
proof -
  from assms obtain req buffer r where run: "read_http1_head stream_read
      (parse_request_head (dep_parse_request deps) (dep_http deps)) IncompleteRequest [] (rd_side s) = (Ok (req, buffer), r)"
    and flow: "flow = \<lparr>df_context = ctx, first_request = req, request_head_buffer = buffer\<rparr>"
    and rest: "validate_http_target (dep_authority deps) ctx req = Ok ()" "s' = s\<lparr>rd_side := r\<rparr>"
    by (auto simp: from_http1_def decode_request_head_with_timeout_def split: prod.splits sum.splits if_splits)
  from script.read_http1_head_content [OF TrueI run] script.read_http1_head_bound [OF TrueI _ run] flow rest
  show "incoming (rd_side s) = hb_bytes (request_head_buffer flow) @ incoming (rd_side s')"
    "length (hb_bytes (request_head_buffer flow)) < MAX_HTTP1_HEADER_BYTES + HEADER_READ_CHUNK_BYTES"
    "parse_request_head (dep_parse_request deps) (dep_http deps) (hb_bytes (request_head_buffer flow))
      = Ok (Some (first_request flow, hb_head_len (request_head_buffer flow)))"
    "validate_http_target (dep_authority deps) ctx (first_request flow) = Ok ()"
    "df_context flow = ctx" "wr_side s' = wr_side s"
    by simp_all
qed

lemma take_of_prefix: "xs = take n ys \<Longrightarrow> \<exists>k. take m xs = take k ys"
  by auto

lemma plain_exchange_spec:
  "case relay_plain_http_to deps timeouts late m flow st of
     (res, st') \<Rightarrow>
       (\<exists>n. written (wr_side (upstream st')) = written (wr_side (upstream st))
          @ take n (relayed_request (first_request flow) (request_head_buffer flow) (incoming (rd_side (client st)))))
       \<and> (\<exists>k. written (wr_side (client st')) = written (wr_side (client st))
          @ take k (local_continue (first_request flow) @ incoming (rd_side (upstream st))))
       \<and> (case res of
            Err e \<Rightarrow> True
          | Ok outcome \<Rightarrow>
              length (written (wr_side (upstream st')))
                = length (written (wr_side (upstream st))) + unat (client_to_upstream_bytes outcome)
              \<and> length (written (wr_side (client st')))
                = length (written (wr_side (client st))) + length (local_continue (first_request flow))
                  + unat (upstream_to_client_bytes outcome))"
proof -
  obtain res st' where run: "relay_plain_http_to deps timeouts late m flow st = (res, st')" by fastforce
  obtain qres c uw where q: "forward_request deps (first_request flow) (request_head_buffer flow) m
      (client st) (wr_side (upstream st)) = (qres, c, uw)" by (metis prod_cases3)
  note qspec = forward_request_spec [OF q]
  let ?cont = "local_continue (first_request flow)" and ?in = "incoming (rd_side (upstream st))"
  have told: "\<exists>k. written (wr_side c) = written (wr_side (client st)) @ take k (?cont @ ?in)"
    using qspec(2) take_prefix_append by blast
  show ?thesis
  proof (cases "\<exists>qcap x ur. qres = Ok qcap
      \<and> decode_response_from_upstream deps timeouts late (rd_side (upstream st)) = (Ok x, ur)")
    case False
    with run q have "wr_side (upstream st') = uw" "client st' = c" "\<exists>e. res = Err e"
      by (auto simp: relay_plain_http_to_def split: sum.splits prod.splits)
    with run qspec(1) told show ?thesis by auto
  next
    case True
    then obtain qcap response buffer ur where ok: "qres = Ok qcap"
      "decode_response_from_upstream deps timeouts late (rd_side (upstream st)) = (Ok (response, buffer), ur)"
      by auto
    let ?st1 = "st\<lparr>client := c, upstream := \<lparr>rd_side = ur, wr_side = uw\<rparr>\<rparr>"
    from run q ok have step: "forward_http_response_and_submit deps flow response buffer qcap m ?st1 = (res, st')"
      by (simp add: relay_plain_http_to_def)
    note spec = forward_response_and_submit_spec [OF step]
    from qspec(3) [OF ok(1)] have cont: "written (wr_side c) = written (wr_side (client st)) @ ?cont"
      and sent: "unat (forwarded_bytes qcap) = length (written uw) - length (written (wr_side (upstream st)))" by auto
    from spec(1) obtain k where "written (wr_side (client st')) = written (wr_side c) @ take k ?in"
      using decode_response_content [OF ok(2)] by auto
    with cont have got: "written (wr_side (client st')) = written (wr_side (client st)) @ take (length ?cont + k) (?cont @ ?in)"
      by simp
    from qspec(1) have up: "\<exists>n. written (wr_side (upstream st')) = written (wr_side (upstream st))
        @ take n (relayed_request (first_request flow) (request_head_buffer flow) (incoming (rd_side (client st))))"
      using spec(2) by simp
    then have grows: "length (written (wr_side (upstream st))) \<le> length (written uw)" using spec(2) by auto
    have "case res of Err e \<Rightarrow> True | Ok outcome \<Rightarrow>
        length (written (wr_side (upstream st')))
          = length (written (wr_side (upstream st))) + unat (client_to_upstream_bytes outcome)
        \<and> length (written (wr_side (client st')))
          = length (written (wr_side (client st))) + length ?cont + unat (upstream_to_client_bytes outcome)"
      using spec(2,4) sent grows cont got by (cases res) auto
    moreover from got have "\<exists>k. written (wr_side (client st')) = written (wr_side (client st)) @ take k (?cont @ ?in)"
      by blast
    ultimately show ?thesis unfolding run prod.case using up by blast
  qed
qed

text \<open>
  A request that does not ask for a \<^verbatim>\<open>100 Continue\<close> is relayed verbatim from its first byte on, and so is
  its response.
\<close>

lemma verbatim_exchange:
  assumes head: "from_http1 deps timeouts late1 ctx c0 = (Ok flow, c1)"
    and run: "relay_plain_http_to deps timeouts late2 m flow \<lparr>client = c1, upstream = u, hooks = d\<rparr> = (res, st')"
    and plain: "local_continue (first_request flow) = []"
  shows "\<exists>n. written (wr_side (upstream st')) = written (wr_side u) @ take n (incoming (rd_side c0))"
    and "\<exists>k. written (wr_side (client st')) = written (wr_side c0) @ take k (incoming (rd_side u))"
proof -
  note content = from_http1_content [OF head]
  note spec = plain_exchange_spec [where deps = deps and timeouts = timeouts and late = late2 and m = m
      and flow = flow and st = "\<lparr>client = c1, upstream = u, hooks = d\<rparr>"]
  obtain n where "written (wr_side (upstream st')) = written (wr_side u)
      @ take n (relayed_request (first_request flow) (request_head_buffer flow) (incoming (rd_side c1)))"
    using spec run by auto
  then show "\<exists>n. written (wr_side (upstream st')) = written (wr_side u) @ take n (incoming (rd_side c0))"
    using relayed_request_verbatim [OF plain, of "request_head_buffer flow" "incoming (rd_side c1)"] content(1)
    by (metis take_of_prefix)
  show "\<exists>k. written (wr_side (client st')) = written (wr_side c0) @ take k (incoming (rd_side u))"
    using spec run content(6) plain by auto
qed

section \<open>Properties\<close>

text \<open>
  Decoding the client's request head loses nothing and is bounded: on success the bytes read so
  far are all in the head buffer and the rest is still in the stream, the buffer is smaller than the
  64 KiB limit plus one read, the request is what the parser makes of exactly that head, and the
  request's target was validated against the flow's proxy target; nothing is written to the client.
\<close>

theorem client_head_lossless:
  "case from_http1 deps timeouts late ctx s of
     (res, s') \<Rightarrow>
       (case res of
          Err e \<Rightarrow> True
        | Ok flow \<Rightarrow>
            incoming (rd_side s) = head_bytes (request_head_buffer flow)
              @ buffered_body (request_head_buffer flow) @ incoming (rd_side s')
            \<and> length (hb_bytes (request_head_buffer flow)) < 65 * 1024
            \<and> parse_request_head (dep_parse_request deps) (dep_http deps) (hb_bytes (request_head_buffer flow))
                = Ok (Some (first_request flow, hb_head_len (request_head_buffer flow)))
            \<and> validate_http_target (dep_authority deps) ctx (first_request flow) = Ok ())
       \<and> wr_side s' = wr_side s"
proof -
  obtain res s' where run: "from_http1 deps timeouts late ctx s = (res, s')" by fastforce
  show ?thesis
  proof (cases res)
    case (Inl e)
    with run show ?thesis
      by (auto simp: from_http1_def split: prod.splits sum.splits)
  next
    case (Inr flow)
    from from_http1_content [OF run [unfolded Inr]] run Inr head_body_bytes [of "request_head_buffer flow"]
    show ?thesis
      by (simp add: MAX_HTTP1_HEADER_BYTES_def HEADER_READ_CHUNK_BYTES_def flip: append_assoc)
  qed
qed

text \<open>
  C5. Transparency of a relayed HTTP/1 exchange, for every outcome, every segmentation and every
  fault of the two peers: the upstream receives a prefix of the request head followed by the
  request's bytes as the agent sent them, and nothing at all for a request whose framing is
  rejected; the agent receives, after a \<^verbatim>\<open>100 Continue\<close> if the relay answered it locally, a prefix of
  the bytes the upstream sent. On success both byte counters are exact.
\<close>

theorem plain_exchange_transparent:
  "case relay_plain_http_to deps timeouts late m flow st of
     (res, st') \<Rightarrow>
       (\<exists>n. written (wr_side (upstream st')) = written (wr_side (upstream st))
          @ take n (relayed_request (first_request flow) (request_head_buffer flow) (incoming (rd_side (client st)))))
       \<and> (\<exists>k. written (wr_side (client st')) = written (wr_side (client st))
          @ take k (local_continue (first_request flow) @ incoming (rd_side (upstream st))))
       \<and> (case res of
            Err e \<Rightarrow> True
          | Ok outcome \<Rightarrow>
              length (written (wr_side (upstream st')))
                = length (written (wr_side (upstream st))) + unat (client_to_upstream_bytes outcome)
              \<and> length (written (wr_side (client st')))
                = length (written (wr_side (client st))) + length (local_continue (first_request flow))
                  + unat (upstream_to_client_bytes outcome))"
  by (rule plain_exchange_spec)


end
