(* ===== verification/Engine_Props.thy ===== *)
theory Engine_Props
  imports Engine Relay_Props
begin

text \<open>
  What the engine promises for a whole flow: TLS is terminated only where the policy says so, a proxied
  flow reaches its provider only under the name it asked for, and bytes pass unchanged, whether the flow
  is relayed blindly or as plain HTTP.
\<close>

section \<open>Where a handler can end\<close>

lemma failed_simps [simp]:
  "ff_upstream (snd (failed e c d n)) = None" "ff_decrypted (snd (failed e c d n)) = n"
  "ff_hooks (snd (failed e c d n)) = d" "fst (failed e c d n) = Some (Err e)"
  "ff_client (snd (failed e c d n)) = c"
  by (simp_all add: failed_def)

lemma relay_decoded_simps [simp]:
  "ff_decrypted (snd (relay_decoded env en f n dec c u)) = n"
  "ff_upstream (snd (relay_decoded env en f n dec c u)) \<noteq> None"
  by (auto simp: relay_decoded_def split: prod.splits)

lemma relay_decoded_not_passed [simp]:
  "fst (relay_decoded env en f n dec c u) \<noteq> Some (Ok (PassedThrough p))"
  by (auto simp: relay_decoded_def split: prod.splits sum.splits)

lemma finish_client_tls_name: "finish_client_tls tls h sn s = Ok (plain, name) \<Longrightarrow> sn = Some name"
  by (auto simp: finish_client_tls_def split: option.splits sum.splits)

lemma tls_http_name:
  assumes "ff_decrypted (snd (tls_http_handle env en f cl)) = Some name"
  shows "\<exists>plain s. accept_client_tls (fe_tls env) cl = (Ok (plain, name), s)"
  using assms by (auto simp: tls_http_handle_def split: if_splits prod.splits sum.splits)

lemma tls_http_undecrypted:
  assumes "ff_decrypted (snd (tls_http_handle env en f cl)) = None"
  shows "ff_upstream (snd (tls_http_handle env en f cl)) = None
    \<and> ff_hooks (snd (tls_http_handle env en f cl)) = en_hooks en
    \<and> (\<exists>e. fst (tls_http_handle env en f cl) = Some (Err e))"
  using assms by (auto simp: tls_http_handle_def split: if_splits prod.splits sum.splits)

lemma tls_http_not_passed: "fst (tls_http_handle env en f cl) \<noteq> Some (Ok (PassedThrough p))"
  by (auto simp: tls_http_handle_def split: if_splits prod.splits sum.splits)

lemma plain_http_undecrypted [simp]: "ff_decrypted (snd (plain_http_handle env en f)) = None"
  by (auto simp: plain_http_handle_def Let_def split: prod.splits sum.splits)

lemma plain_http_not_passed: "fst (plain_http_handle env en f) \<noteq> Some (Ok (PassedThrough p))"
  by (auto simp: plain_http_handle_def Let_def split: prod.splits sum.splits)

lemma passthrough_undecrypted [simp]:
  "ff_decrypted (snd (passthrough_handle env en f sn bs)) = None"
  "ff_hooks (snd (passthrough_handle env en f sn bs)) = en_hooks en"
  by (auto simp: passthrough_handle_def Let_def split: prod.splits sum.splits option.splits)

lemma passthrough_flow_simps [simp]:
  "af_stream (passthrough_flow i f s) = s" "af_upstream (passthrough_flow i f s) = af_upstream f"
  "af_original_destination (passthrough_flow i f s) = af_original_destination f"
  "af_traffic_observer (passthrough_flow i f s) = af_traffic_observer f"
  by (simp_all add: passthrough_flow_def from_destination_parts_def with_flow_id_def with_ingress_def
      with_destination_host_def with_upstream_connection_def with_existing_traffic_observer_def
      Let_def split: option.split)

lemma no_peek_intercepts: "\<not> requires_sni_peek p \<Longrightarrow> decision_action (decide p (Some n) proc) = Intercept"
  by (cases "default_action p") (auto simp: requires_sni_peek_def decide_def Let_def)

lemma tls_handle_decrypts:
  assumes "ff_decrypted (snd (tls_handle env en i f)) = Some name"
  shows "decision_action (decide (en_policy en) (Some name) (af_source_process f)) = Intercept"
proof (cases "requires_sni_peek (en_policy en) \<or> requires_tls_server_name_validation (af_ingress f)")
  case False
  then show ?thesis by (simp add: no_peek_intercepts)
next
  case True
  with assms have "ff_decrypted (snd (handle_with_decryption_policy env en i f)) = Some name"
    by (auto simp: tls_handle_def split: if_splits)
  then obtain inspected s' where
    act: "decision_action (decide (en_policy en) (policy_target_domain (ich_server_name inspected)
        (af_destination_host f)) (af_source_process f)) = Intercept"
    and dec: "ff_decrypted (snd (tls_http_handle env en f (InspectedClient s' inspected))) = Some name"
    by (auto simp: handle_with_decryption_policy_def Let_def
        split: prod.splits sum.splits tls_decryption_action.splits)
  from tls_http_name [OF dec] have "ich_server_name inspected = Some name"
    by (auto dest: finish_client_tls_name)
  with act show ?thesis by (simp add: policy_target_domain_def)
qed

section \<open>Blind relaying\<close>

text \<open>
  What \<^verbatim>\<open>copy_bidirectional\<close> promises: each side receives a prefix of what the other sends, all of it when
  the call succeeds, and then the counts are exact.
\<close>

definition copy_bidirectional_laws ::
  "(duplex \<Rightarrow> duplex \<Rightarrow> (io_kind, u64 \<times> u64) result \<times> duplex \<times> duplex) \<Rightarrow> bool" where
  "copy_bidirectional_laws cb \<longleftrightarrow>
     (\<forall>c u. case cb c u of
        (res, c', u') \<Rightarrow>
          (\<exists>n. written (wr_side u') = written (wr_side u) @ take n (incoming (rd_side c)))
          \<and> (\<exists>n. written (wr_side c') = written (wr_side c) @ take n (incoming (rd_side u)))
          \<and> (case res of
               Err k \<Rightarrow> True
             | Ok (up, down) \<Rightarrow>
                 written (wr_side u') = written (wr_side u) @ incoming (rd_side c)
                 \<and> written (wr_side c') = written (wr_side c) @ incoming (rd_side u)
                 \<and> unat up = length (incoming (rd_side c)) \<and> unat down = length (incoming (rd_side u))))"

text \<open>The relation a blind relay keeps between the streams before and after it.\<close>

definition relayed_prefix :: "duplex \<Rightarrow> bytes \<Rightarrow> duplex \<Rightarrow> duplex \<Rightarrow> duplex \<Rightarrow> bool" where
  "relayed_prefix c client_bytes u c' u' \<longleftrightarrow>
     (\<exists>n. written (wr_side u') = written (wr_side u) @ take n client_bytes)
     \<and> (\<exists>n. written (wr_side c') = written (wr_side c) @ take n (incoming (rd_side u)))"

definition relayed_all :: "duplex \<Rightarrow> bytes \<Rightarrow> duplex \<Rightarrow> duplex \<Rightarrow> duplex \<Rightarrow> passthrough_outcome \<Rightarrow> bool" where
  "relayed_all c client_bytes u c' u' outcome \<longleftrightarrow>
     written (wr_side u') = written (wr_side u) @ client_bytes
     \<and> written (wr_side c') = written (wr_side c) @ incoming (rd_side u)
     \<and> unat (po_client_to_upstream_bytes outcome) = length client_bytes
     \<and> unat (po_upstream_to_client_bytes outcome) = length (incoming (rd_side u))"

definition relayed_bytes :: "duplex \<Rightarrow> duplex \<Rightarrow> duplex \<Rightarrow> duplex \<Rightarrow> nat \<Rightarrow> nat \<Rightarrow> bool" where
  "relayed_bytes c u c' u' up down \<longleftrightarrow>
     length (written (wr_side u')) = length (written (wr_side u)) + up
     \<and> length (written (wr_side c')) = length (written (wr_side c)) + down"

lemma take_after_prefix: "\<exists>n. ys = (xs @ p) @ take n q \<Longrightarrow> \<exists>n. ys = xs @ take n (p @ q)"
proof -
  assume "\<exists>n. ys = (xs @ p) @ take n q"
  then obtain n where "ys = xs @ take (length p + n) (p @ q)" by auto
  then show ?thesis by blast
qed

lemma initial_write:
  assumes "(if bs = [] then (Ok (), w) else write_all bs w) = (res, w')"
  shows "\<exists>n. written w' = written w @ take n bs" and "res = Ok () \<Longrightarrow> written w' = written w @ bs"
  using assms write_all_prefix [of bs w res w'] write_all_ok [of bs w w']
  by (auto split: if_splits)

lemma copy_step:
  assumes laws: "copy_bidirectional_laws cb" and run: "cb c (u\<lparr>wr_side := w\<rparr>) = (res, c', u')"
    and w: "written w = written (wr_side u) @ bs"
  shows "relayed_prefix c (bs @ incoming (rd_side c)) u c' u'"
    and "res = Ok (up, down) \<Longrightarrow> written (wr_side u') = written (wr_side u) @ bs @ incoming (rd_side c)
      \<and> written (wr_side c') = written (wr_side c) @ incoming (rd_side u)
      \<and> unat up = length (incoming (rd_side c)) \<and> unat down = length (incoming (rd_side u))"
proof -
  have law: "case cb c (u\<lparr>wr_side := w\<rparr>) of
        (res, c', u') \<Rightarrow>
          (\<exists>n. written (wr_side u') = (written (wr_side u) @ bs) @ take n (incoming (rd_side c)))
          \<and> (\<exists>n. written (wr_side c') = written (wr_side c) @ take n (incoming (rd_side u)))
          \<and> (case res of
               Err k \<Rightarrow> True
             | Ok (up, down) \<Rightarrow>
                 written (wr_side u') = (written (wr_side u) @ bs) @ incoming (rd_side c)
                 \<and> written (wr_side c') = written (wr_side c) @ incoming (rd_side u)
                 \<and> unat up = length (incoming (rd_side c)) \<and> unat down = length (incoming (rd_side u)))"
    using laws [unfolded copy_bidirectional_laws_def, rule_format, where c = c and u = "u\<lparr>wr_side := w\<rparr>"]
    by (simp add: w run split: sum.splits prod.splits)
  from law run have "\<exists>n. written (wr_side u') = (written (wr_side u) @ bs) @ take n (incoming (rd_side c))"
    "\<exists>n. written (wr_side c') = written (wr_side c) @ take n (incoming (rd_side u))" by simp_all
  then show "relayed_prefix c (bs @ incoming (rd_side c)) u c' u'"
    unfolding relayed_prefix_def by (intro conjI) (rule take_after_prefix)
  assume "res = Ok (up, down)"
  with law run show "written (wr_side u') = written (wr_side u) @ bs @ incoming (rd_side c)
      \<and> written (wr_side c') = written (wr_side c) @ incoming (rd_side u)
      \<and> unat up = length (incoming (rd_side c)) \<and> unat down = length (incoming (rd_side u))" by simp
qed

lemma passthrough_handle_spec:
  assumes laws: "copy_bidirectional_laws (fe_copy_bidirectional env)"
    and up: "ff_upstream (snd (passthrough_handle env en f sn bs)) = Some u'"
  shows "\<exists>conn u. with_server_name (dep_authority (fe_deps env)) sn (af_upstream f) = Ok conn
    \<and> connect_upstream_with_observer (fe_net env) (upstream_connect (en_timeouts en))
        (af_original_destination f) (af_traffic_observer f) conn = Ok u
    \<and> relayed_prefix (bx_stream (af_stream f)) (bs @ incoming (rd_side (bx_stream (af_stream f)))) (bx_stream u)
        (ff_client (snd (passthrough_handle env en f sn bs))) u'
    \<and> (case fst (passthrough_handle env en f sn bs) of
         Some (Ok (PassedThrough outcome)) \<Rightarrow>
           relayed_all (bx_stream (af_stream f)) (bs @ incoming (rd_side (bx_stream (af_stream f)))) (bx_stream u)
             (ff_client (snd (passthrough_handle env en f sn bs))) u' outcome
       | _ \<Rightarrow> True)"
proof -
  let ?s = "bx_stream (af_stream f)"
  from up obtain conn u where conn: "with_server_name (dep_authority (fe_deps env)) sn (af_upstream f) = Ok conn"
    and u: "connect_upstream_with_observer (fe_net env) (upstream_connect (en_timeouts en))
        (af_original_destination f) (af_traffic_observer f) conn = Ok u"
    by (auto simp: passthrough_handle_def Let_def split: sum.splits)
  obtain wres w where w: "(if bs = [] then (Ok (), wr_side (bx_stream u)) else write_all bs (wr_side (bx_stream u)))
      = (wres, w)" by fastforce
  obtain cres c1 u1 where cp: "fe_copy_bidirectional env ?s ((bx_stream u)\<lparr>wr_side := w\<rparr>) = (cres, c1, u1)"
    by (metis prod_cases3)
  note iw = initial_write [OF w]
  show ?thesis
  proof (cases "\<exists>n. wres = Ok () \<and> usize_to_u64 (length bs) = Ok n")
    case False
    then have "ff_client (snd (passthrough_handle env en f sn bs)) = ?s \<and> u' = (bx_stream u)\<lparr>wr_side := w\<rparr>
      \<and> (\<exists>e. fst (passthrough_handle env en f sn bs) = Some (Err e))"
      using up conn u w by (auto simp: passthrough_handle_def Let_def split: sum.splits)
    moreover have "relayed_prefix ?s (bs @ incoming (rd_side ?s)) (bx_stream u) ?s ((bx_stream u)\<lparr>wr_side := w\<rparr>)"
      using iw(1) by (simp add: relayed_prefix_def take_prefix_append take_nothing del: take_append)
    ultimately show ?thesis using conn u by auto
  next
    case True
    then obtain n where ok: "wres = Ok ()" "usize_to_u64 (length bs) = Ok n" by blast
    note copied = copy_step [OF laws cp iw(2) [OF ok(1)]]
    have "ff_client (snd (passthrough_handle env en f sn bs)) = c1" "u' = u1"
      using up conn u w ok cp by (auto simp: passthrough_handle_def Let_def split: sum.splits option.splits)
    moreover have "relayed_all ?s (bs @ incoming (rd_side ?s)) (bx_stream u) c1 u1 outcome"
      if "fst (passthrough_handle env en f sn bs) = Some (Ok (PassedThrough outcome))" for outcome
      using that conn u w ok cp copied(2) usize_to_u64_Ok [OF ok(2)]
      by (auto simp: passthrough_handle_def relayed_all_def Let_def checked_add_Some split: sum.splits option.splits)
    ultimately show ?thesis using conn u copied(1)
      by (auto split: option.split sum.split flow_outcome.split)
  qed
qed

section \<open>Dispatch\<close>

text \<open>The stream and flow a handler gets after detection: the client's bytes are all there again.\<close>

definition detected_flow :: "accepted_tcp_flow \<Rightarrow> bytes \<Rightarrow> reader \<Rightarrow> accepted_tcp_flow" where
  "detected_flow f used r =
     with_read_prefix used (f\<lparr>af_stream := (af_stream f)\<lparr>bx_stream := (bx_stream (af_stream f))\<lparr>rd_side := r\<rparr>\<rparr>\<rparr>)"

lemma detected_flow_simps [simp]:
  "wr_side (bx_stream (af_stream (detected_flow f used r))) = wr_side (bx_stream (af_stream f))"
  "af_ingress (detected_flow f used r) = af_ingress f"
  "af_upstream (detected_flow f used r) = af_upstream f"
  "af_original_destination (detected_flow f used r) = af_original_destination f"
  "af_destination_host (detected_flow f used r) = af_destination_host f"
  "af_source_process (detected_flow f used r) = af_source_process f"
  "af_traffic_observer (detected_flow f used r) = af_traffic_observer f"
  by (simp_all add: detected_flow_def)

lemma flow_context_of_detected: "flow_context_of (detected_flow f used r) = flow_context_of f"
  by (simp add: flow_context_of_def detected_flow_def with_read_prefix_def fun_eq_iff)

lemma detected_flow_content:
  assumes "detect stream_read t late (rd_side (bx_stream (af_stream f))) = (Ok (proto, used), r)"
  shows "incoming (rd_side (bx_stream (af_stream (detected_flow f used r)))) = incoming (rd_side (bx_stream (af_stream f)))"
proof -
  from assms have "detect_loop stream_read [] (rd_side (bx_stream (af_stream f))) = (Ok (proto, used), r)"
    by (auto simp: detect_def split: if_splits)
  from script.detect_loop_lossless [OF TrueI _ this] show ?thesis by (simp add: detected_flow_def)
qed

lemma handle_flow_detected:
  "handle_flow env en i f =
     (case detect stream_read (protocol_detection (en_timeouts en)) (detection_late (fe_clock env))
             (rd_side (bx_stream (af_stream f))) of
        (Err e, r) \<Rightarrow> failed e ((bx_stream (af_stream f))\<lparr>rd_side := r\<rparr>) (en_hooks en) None
      | (Ok (DetectedPlainHttp, used), r) \<Rightarrow> plain_http_handle env en (detected_flow f used r)
      | (Ok (DetectedTls, used), r) \<Rightarrow> tls_handle env en i (detected_flow f used r))"
  by (simp add: handle_flow_def detected_flow_def Let_def split: prod.split sum.split detected_protocol.split)

lemma detect_classify:
  assumes "detect stream_read t late r = (Ok (proto, used), r')" and "classify (take 64 (incoming r)) = Detected proto'"
  shows "proto = proto'"
proof -
  from assms(1) have "detect_loop stream_read [] r = (Ok (proto, used), r')"
    by (auto simp: detect_def split: if_splits)
  from script.detect_loop_lossless [OF TrueI _ this] take_prefix_decided [of used 64 "incoming r'"] assms(2)
  show ?thesis by (simp add: MAX_PROTOCOL_PREFIX_BYTES_def)
qed

text \<open>A ClientHello that is passed on goes in front of what the client still has to say.\<close>

lemma read_client_hello_content:
  assumes "read_client_hello tls m stream_read t late r = (Ok hello, r')"
  shows "incoming r = ich_raw_bytes hello @ incoming r'"
proof -
  from assms have "read_client_hello_inner tls m stream_read (acceptor_default tls) [] r = (Ok hello, r')"
    by (auto simp: read_client_hello_def split: if_splits)
  from script.read_client_hello_lossless [OF TrueI _ this] show ?thesis by simp
qed

lemma tls_handle_undecrypted:
  assumes "ff_decrypted (snd (tls_handle env en i f)) = None"
  shows "ff_hooks (snd (tls_handle env en i f)) = en_hooks en"
  using assms tls_http_undecrypted [of env en f]
  by (auto simp: tls_handle_def handle_with_decryption_policy_def Let_def
      split: if_splits prod.splits sum.splits tls_decryption_action.splits)

lemma tls_handle_passthrough:
  assumes "ff_decrypted (snd (tls_handle env en i f)) = None" and "ff_upstream (snd (tls_handle env en i f)) = Some u'"
  obtains hello r where "read_client_hello (ts_acceptor (fe_tls env)) DEFAULT_MAX_CLIENT_HELLO_BYTES stream_read
      (client_tls_handshake (en_timeouts en)) (client_hello_late (fe_clock env))
      (rd_side (bx_stream (af_stream f))) = (Ok hello, r)"
    "validate_tls_server_name (af_ingress f) (ich_server_name hello) = Ok ()"
    "tls_handle env en i f = passthrough_handle env en
       (passthrough_flow i f ((af_stream f)\<lparr>bx_stream := (bx_stream (af_stream f))\<lparr>rd_side := r\<rparr>\<rparr>))
       (ich_server_name hello) (ich_raw_bytes hello)"
proof -
  from assms tls_http_undecrypted [of env en f] have "tls_handle env en i f = handle_with_decryption_policy env en i f"
    by (auto simp: tls_handle_def split: if_splits)
  moreover from this assms tls_http_undecrypted [of env en f] that show ?thesis
    by (auto simp: handle_with_decryption_policy_def Let_def
        split: prod.splits sum.splits tls_decryption_action.splits)
qed

lemma flow_context_detected [simp]: "flow_context_of (detected_flow f used r) = flow_context_of f"
  by (auto simp: flow_context_of_def detected_flow_def with_read_prefix_def fun_eq_iff)

lemma detected_flow_stream:
  "bx_stream (af_stream (detected_flow f used r)) = prefixed_duplex used ((bx_stream (af_stream f))\<lparr>rd_side := r\<rparr>)"
  by (simp add: detected_flow_def with_read_prefix_def prefixed_duplex_def prefixed_script_def prefixed_new_def
      remaining_prefix_def)

lemma from_http1_wr_side: "from_http1 deps timeouts late ctx s = (res, s') \<Longrightarrow> wr_side s' = wr_side s"
  by (auto simp: from_http1_def split: prod.splits sum.splits)

lemma relay_decoded_plain:
  assumes "from_http1 (fe_deps env) t late ctx c0 = (Ok decoded, c)"
    and "\<not> is_websocket_upgrade_request (first_request decoded)" and "local_continue (first_request decoded) = []"
    and "t = en_timeouts en" and "ff_upstream (snd (relay_decoded env en f n decoded c u)) = Some u'"
  shows "relayed_prefix c0 (incoming (rd_side c0)) u (ff_client (snd (relay_decoded env en f n decoded c u))) u'"
proof -
  obtain res st' where run: "relay_plain_http_to (fe_deps env) t (response_head_late (fe_clock env))
      (en_max_http1_body_bytes en) decoded \<lparr>client = c, upstream = u, hooks = en_hooks en\<rparr> = (res, st')" by fastforce
  with assms have "u' = upstream st'" "ff_client (snd (relay_decoded env en f n decoded c u)) = client st'"
    by (auto simp: relay_decoded_def relay_to_def)
  with verbatim_exchange [OF assms(1) run assms(3)] show ?thesis by (simp add: relayed_prefix_def)
qed

lemma relay_decoded_counts:
  assumes "from_http1 (fe_deps env) t late ctx c0 = (Ok decoded, c)"
    and "\<not> is_websocket_upgrade_request (first_request decoded)" and "local_continue (first_request decoded) = []"
    and "t = en_timeouts en" and "ff_upstream (snd (relay_decoded env en f n decoded c u)) = Some u'"
    and "fst (relay_decoded env en f n decoded c u) = Some (Ok (Intercepted outcome))"
  shows "relayed_bytes c0 u (ff_client (snd (relay_decoded env en f n decoded c u))) u'
    (unat (io_client_to_upstream_bytes outcome)) (unat (io_upstream_to_client_bytes outcome))"
proof -
  obtain res st' where run: "relay_plain_http_to (fe_deps env) t (response_head_late (fe_clock env))
      (en_max_http1_body_bytes en) decoded \<lparr>client = c, upstream = u, hooks = en_hooks en\<rparr> = (res, st')" by fastforce
  with assms obtain ro where "res = Ok ro" and "outcome = intercepted_outcome f ro"
    and "u' = upstream st'" "ff_client (snd (relay_decoded env en f n decoded c u)) = client st'"
    by (auto simp: relay_decoded_def relay_to_def split: sum.splits)
  with plain_exchange_spec [where deps = "fe_deps env" and timeouts = t and late = "response_head_late (fe_clock env)"
      and m = "en_max_http1_body_bytes en" and flow = decoded and st = "\<lparr>client = c, upstream = u, hooks = en_hooks en\<rparr>"]
    run from_http1_wr_side [OF assms(1)] assms(3)
  show ?thesis by (simp add: relayed_bytes_def intercepted_outcome_def)
qed

lemma plain_http_spec:
  "let s = bx_stream (af_stream f); fin = snd (plain_http_handle env en f)
   in case (ff_upstream fin,
            from_http1 (fe_deps env) (en_timeouts en) (request_head_late (fe_clock env))
              (flow_context_of f PlainHttp) s) of
        (None, _) \<Rightarrow> wr_side (ff_client fin) = wr_side s
      | (Some u', (Err e, c)) \<Rightarrow> False
      | (Some u', (Ok decoded, c)) \<Rightarrow>
          if \<not> is_websocket_upgrade_request (first_request decoded) \<and> local_continue (first_request decoded) = []
          then \<exists>conn u. with_server_name (dep_authority (fe_deps env))
                   (map_option auth_host (Option.bind (request_host (first_request decoded)) (dep_authority (fe_deps env))))
                   (af_upstream f) = Ok conn
                 \<and> connect_upstream_with_observer (fe_net env) (upstream_connect (en_timeouts en))
                   (af_original_destination f) (af_traffic_observer f) conn = Ok u
                 \<and> relayed_prefix s (incoming (rd_side s)) (bx_stream u) (ff_client fin) u'
                 \<and> (case fst (plain_http_handle env en f) of
                      Some (Ok (Intercepted outcome)) \<Rightarrow>
                        relayed_bytes s (bx_stream u) (ff_client fin) u'
                          (unat (io_client_to_upstream_bytes outcome)) (unat (io_upstream_to_client_bytes outcome))
                    | _ \<Rightarrow> True)
          else True"
proof -
  let ?fin = "snd (plain_http_handle env en f)"
  obtain res c where h: "from_http1 (fe_deps env) (en_timeouts en) (request_head_late (fe_clock env))
      (flow_context_of f PlainHttp) (bx_stream (af_stream f)) = (res, c)" by fastforce
  note wr = from_http1_wr_side [OF h]
  show ?thesis
  proof (cases "ff_upstream ?fin")
    case None
    with h wr show ?thesis by (auto simp: plain_http_handle_def Let_def split: sum.splits)
  next
    case (Some u')
    with h obtain decoded conn u where ok: "res = Ok decoded"
      and conn: "with_server_name (dep_authority (fe_deps env))
        (map_option auth_host (Option.bind (request_host (first_request decoded)) (dep_authority (fe_deps env))))
        (af_upstream f) = Ok conn"
      and u: "connect_upstream_with_observer (fe_net env) (upstream_connect (en_timeouts en))
        (af_original_destination f) (af_traffic_observer f) conn = Ok u"
      and run: "plain_http_handle env en f = relay_decoded env en f None decoded c (bx_stream u)"
      by (auto simp: plain_http_handle_def Let_def split: sum.splits)
    note plain = relay_decoded_plain [OF h [unfolded ok] _ _ refl Some [unfolded run]]
    note counts = relay_decoded_counts [OF h [unfolded ok] _ _ refl Some [unfolded run]]
    show ?thesis
      using plain counts u conn
      by (simp add: Let_def h ok run Some [unfolded run] split: option.split sum.split flow_outcome.split)
  qed
qed

section \<open>Properties\<close>

text \<open>
  C1. TLS is terminated only where the policy allows it: whenever handling a flow completes a client
  handshake, whatever happens afterwards, the decryption policy's decision for that server name and the
  flow's process is to intercept.
\<close>

theorem decrypted_only_by_policy:
  "case ff_decrypted (snd (handle_flow env en i f)) of
     None \<Rightarrow> True
   | Some name \<Rightarrow> decision_action (decide (en_policy en) (Some name) (af_source_process f)) = Intercept"
  using tls_handle_decrypts [of env en i]
  by (fastforce simp: handle_flow_detected split: option.split prod.split sum.split detected_protocol.split)

text \<open>
  What is not decrypted is not observed: a flow detected as TLS whose handshake the engine did not
  complete leaves the hook dispatcher as it was.
\<close>

theorem undecrypted_tls_unobserved:
  "if classify (take 64 (incoming (rd_side (bx_stream (af_stream f))))) = Detected DetectedTls
      \<and> ff_decrypted (snd (handle_flow env en i f)) = None
   then ff_hooks (snd (handle_flow env en i f)) = en_hooks en
   else True"
  using tls_handle_undecrypted [of env en i]
  by (auto simp: handle_flow_detected dest: detect_classify split: prod.split sum.split detected_protocol.split)

text \<open>
  C4. A tunnelled client stays with its target: when a TLS flow that asked the explicit proxy for a host
  name gets a connection to the provider, decrypted or not, the ClientHello it sent named that very host
  (up to letter case and trailing dots), and the certificate, if one was issued, is for the name it sent.
\<close>

theorem proxied_tls_name_pinned:
  "case (ff_upstream (snd (tls_handle env en i f)), proxy_target (af_ingress f)) of
     (Some u', Some t) \<Rightarrow>
       (case ta_host t of
          Ip a \<Rightarrow> True
        | Dns target_name \<Rightarrow>
            \<exists>hello r name. read_client_hello (ts_acceptor (fe_tls env)) DEFAULT_MAX_CLIENT_HELLO_BYTES stream_read
                (client_tls_handshake (en_timeouts en)) (client_hello_late (fe_clock env))
                (rd_side (bx_stream (af_stream f))) = (Ok hello, r)
              \<and> ich_server_name hello = Some name
              \<and> eq_ignore_ascii_case (trim_end_matches CHR ''.'' target_name) (trim_end_matches CHR ''.'' name)
              \<and> ff_decrypted (snd (tls_handle env en i f)) \<in> {None, Some name})
   | _ \<Rightarrow> True"
proof (cases "\<exists>u' t target_name. ff_upstream (snd (tls_handle env en i f)) = Some u'
    \<and> proxy_target (af_ingress f) = Some t \<and> ta_host t = Dns target_name")
  case True
  then obtain u' t target_name where up: "ff_upstream (snd (tls_handle env en i f)) = Some u'"
    and t: "proxy_target (af_ingress f) = Some t" "ta_host t = Dns target_name" by blast
  have tls: "tls_handle env en i f = handle_with_decryption_policy env en i f"
    using t by (simp add: tls_handle_def requires_tls_server_name_validation_def)
  from up [unfolded tls] obtain hello r where hello: "read_client_hello (ts_acceptor (fe_tls env))
      DEFAULT_MAX_CLIENT_HELLO_BYTES stream_read (client_tls_handshake (en_timeouts en))
      (client_hello_late (fe_clock env)) (rd_side (bx_stream (af_stream f))) = (Ok hello, r)"
    and ok: "validate_tls_server_name (af_ingress f) (ich_server_name hello) = Ok ()"
    by (auto simp: handle_with_decryption_policy_def Let_def split: prod.splits sum.splits)
  from ok t obtain name where name: "ich_server_name hello = Some name"
    "eq_ignore_ascii_case (trim_end_matches CHR ''.'' target_name) (trim_end_matches CHR ''.'' name)"
    by (auto simp: validate_tls_server_name_def split: option.splits if_splits)
  have inspected: "n = name" if "ff_decrypted (snd (tls_http_handle env en f (InspectedClient s hello))) = Some n" for s n
    using tls_http_name [OF that] name(1) by (auto dest: finish_client_tls_name)
  have "ff_decrypted (snd (tls_handle env en i f)) \<in> {None, Some name}"
  proof (cases "ff_decrypted (snd (tls_handle env en i f))")
    case (Some n)
    with hello ok inspected show ?thesis
      by (auto simp: tls handle_with_decryption_policy_def Let_def split: tls_decryption_action.splits)
  qed simp
  with up t hello name show ?thesis by auto
qed (auto split: option.split target_host.split)

text \<open>
  C2. Passing through changes nothing: for a TLS flow the engine does not decrypt, the provider receives a
  prefix of the client's bytes from the very first one on (the detection prefix and the ClientHello
  included) and the client a prefix of the provider's, whatever fails; when the flow is reported as passed
  through, both received everything and the counters are exact.
\<close>

theorem passthrough_transparent:
  assumes "copy_bidirectional_laws (fe_copy_bidirectional env)"
    and "classify (take 64 (incoming (rd_side (bx_stream (af_stream f))))) = Detected DetectedTls"
    and "ff_decrypted (snd (handle_flow env en i f)) = None"
    and "ff_upstream (snd (handle_flow env en i f)) = Some u'"
  shows "\<exists>server_name conn u. with_server_name (dep_authority (fe_deps env)) server_name (af_upstream f) = Ok conn
    \<and> connect_upstream_with_observer (fe_net env) (upstream_connect (en_timeouts en))
        (af_original_destination f) (af_traffic_observer f) conn = Ok u
    \<and> relayed_prefix (bx_stream (af_stream f)) (incoming (rd_side (bx_stream (af_stream f)))) (bx_stream u)
        (ff_client (snd (handle_flow env en i f))) u'
    \<and> (case fst (handle_flow env en i f) of
         Some (Ok (PassedThrough outcome)) \<Rightarrow>
           relayed_all (bx_stream (af_stream f)) (incoming (rd_side (bx_stream (af_stream f)))) (bx_stream u)
             (ff_client (snd (handle_flow env en i f))) u' outcome
       | _ \<Rightarrow> True)"
proof -
  obtain proto used r where d: "detect stream_read (protocol_detection (en_timeouts en)) (detection_late (fe_clock env))
      (rd_side (bx_stream (af_stream f))) = (Ok (proto, used), r)"
    using assms(4) by (auto simp: handle_flow_detected split: prod.splits sum.splits)
  have proto: "proto = DetectedTls" using detect_classify [OF d assms(2)] .
  let ?g = "detected_flow f used r"
  from d proto have run: "handle_flow env en i f = tls_handle env en i ?g" by (simp add: handle_flow_detected)
  obtain hello r' where h: "read_client_hello (ts_acceptor (fe_tls env)) DEFAULT_MAX_CLIENT_HELLO_BYTES stream_read
      (client_tls_handshake (en_timeouts en)) (client_hello_late (fe_clock env))
      (rd_side (bx_stream (af_stream ?g))) = (Ok hello, r')"
    and p: "tls_handle env en i ?g = passthrough_handle env en
       (passthrough_flow i ?g ((af_stream ?g)\<lparr>bx_stream := (bx_stream (af_stream ?g))\<lparr>rd_side := r'\<rparr>\<rparr>))
       (ich_server_name hello) (ich_raw_bytes hello)"
    using assms(3,4) unfolding run by (rule tls_handle_passthrough)
  from read_client_hello_content [OF h] detected_flow_content [OF d]
  have bytes: "ich_raw_bytes hello @ incoming r' = incoming (rd_side (bx_stream (af_stream f)))" by simp
  have same: "relayed_prefix (bx_stream (af_stream ?g)\<lparr>rd_side := r'\<rparr>) = relayed_prefix (bx_stream (af_stream f))"
    "relayed_all (bx_stream (af_stream ?g)\<lparr>rd_side := r'\<rparr>) = relayed_all (bx_stream (af_stream f))"
    by (simp_all add: relayed_prefix_def relayed_all_def fun_eq_iff)
  from passthrough_handle_spec [OF assms(1) assms(4) [unfolded run p]]
  show ?thesis unfolding run p
    by (simp add: bytes same cong: option.case_cong sum.case_cong flow_outcome.case_cong) blast
qed

text \<open>A relay that is always willing, for the example below.\<close>

definition eager_copy :: "duplex \<Rightarrow> duplex \<Rightarrow> (io_kind, u64 \<times> u64) result \<times> duplex \<times> duplex" where
  "eager_copy c u =
     (let up = incoming (rd_side c); down = incoming (rd_side u)
      in if 2 ^ 64 \<le> length up \<or> 2 ^ 64 \<le> length down then (Err OtherKind, c, u)
         else
           (Ok (of_nat (length up), of_nat (length down)),
            \<lparr>rd_side = [], wr_side = (wr_side c)\<lparr>written := written (wr_side c) @ down\<rparr>\<rparr>,
            \<lparr>rd_side = [], wr_side = (wr_side u)\<lparr>written := written (wr_side u) @ up\<rparr>\<rparr>))"

lemma eager_copy_laws: "copy_bidirectional_laws eager_copy"
proof -
  have all: "\<exists>n. xs = take n xs" for xs :: bytes by (metis take_all order_refl)
  show ?thesis
    using all take_nothing
    by (auto simp: copy_bidirectional_laws_def eager_copy_def Let_def unat_of_nat_u64 not_le)
qed

definition example_deps :: "unit deps" where
  "example_deps =
     \<lparr>dep_parse_request = (\<lambda>_. Err ()), dep_parse_response = (\<lambda>_. Err ()),
      dep_http = \<lparr>method_from_bytes = Some, uri_try_from = (\<lambda>_. None), status_from_u16 = Some,
        header_name_from_bytes = Some, header_value_from_bytes = (\<lambda>_. None), request_builds = (\<lambda>_ _. True),
        response_builds = (\<lambda>_. True)\<rparr>,
      dep_authority = (\<lambda>_. None), dep_chunk_size = (\<lambda>_. Err ()), dep_json = (\<lambda>_. None)\<rparr>"

definition example_tls :: "(unit, unit, unit) tls_stack" where
  "example_tls =
     \<lparr>ts_acceptor = \<lparr>acceptor_default = (), read_tls = (\<lambda>_ bs. (Ok (length bs), ())),
        accept = (\<lambda>_. (Ok (Some ()), ())), hello_server_name = (\<lambda>_. None)\<rparr>,
      ts_lazy_accept = (\<lambda>r. (Ok (), r)), ts_server_name_ok = (\<lambda>_. True), ts_leaf_config = (\<lambda>_. Ok ()),
      ts_into_stream = (\<lambda>_ _ s. Ok s), ts_connect = (\<lambda>_ s. Ok s)\<rparr>"

definition example_socket :: "reader \<Rightarrow> duplex" where
  "example_socket r =
     \<lparr>rd_side = r, wr_side = \<lparr>written = [], write_steps = [], flush_steps = [], shutdown_steps = []\<rparr>\<rparr>"

definition example_env :: "(unit, unit, unit, unit) flow_env" where
  "example_env =
     \<lparr>fe_deps = example_deps, fe_tls = example_tls,
      fe_net = \<lparr>tcp_connect = (\<lambda>_. Ok (example_socket [Got ''hi''])), tcp_connect_late = False,
        tunnel = \<lparr>te_clock_overflow = False, te_lookup = (\<lambda>_ _. None), te_if_addrs = Ok [],
          te_connect_elapsed = False,
          te_tcp = \<lparr>new_v4 = Ok (), new_v6 = Ok (), socket_connect = (\<lambda>_. Err NotFound)\<rparr>,
          te_finish_order = (\<lambda>as. as), te_handshake_elapsed = False, te_parse = (\<lambda>_. Err ())\<rparr>\<rparr>,
      fe_clock = \<lparr>detection_late = False, client_hello_late = False, client_tls_late = False,
        request_head_late = False, response_head_late = False, upstream_tls_late = False\<rparr>,
      fe_message_len = (\<lambda>_. 0), fe_open_ws = (\<lambda>_ _ _. []), fe_copy_bidirectional = eager_copy\<rparr>"

definition example_engine :: "unit mitm_engine" where
  "example_engine =
     \<lparr>en_hooks = dispatcher_with_capacity 1, en_timeouts = default_timeouts,
      en_max_http1_body_bytes = 16, en_policy = default_policy\<rparr>"

text \<open>A client that sends the start of a TLS record, in two segments.\<close>

definition example_flow :: accepted_tcp_flow where
  "example_flow =
     from_boxed_parts 0 \<lparr>bx_stream = example_socket [Got [CHR 0x16], Got [CHR 0x03, CHR 0x01]], bx_observers = []\<rparr>
       None None \<lparr>sa_ip = V4 10 0 0 1, sa_port = 443\<rparr> None"

lemma example_env_simps [simp]:
  "fe_tls example_env = example_tls" "fe_copy_bidirectional example_env = eager_copy"
  "tcp_connect (fe_net example_env) = (\<lambda>_. Ok (example_socket [Got ''hi'']))"
  "tcp_connect_late (fe_net example_env) = False" "detection_late (fe_clock example_env) = False"
  "client_hello_late (fe_clock example_env) = False"
  by (simp_all add: example_env_def)

lemmas example_defs = example_socket_def example_engine_def example_flow_def from_boxed_parts_def
  from_destination_parts_def default_timeouts_def default_policy_def

lemma example_detect:
  "detect stream_read 5000 False [Got [CHR 0x16], Got [CHR 0x03, CHR 0x01]]
     = (Ok (DetectedTls, [CHR 0x16, CHR 0x03, CHR 0x01]), [])"
  by (simp add: detect_def detect_loop.simps classify_def MAX_PROTOCOL_PREFIX_BYTES_def)

lemma example_hello:
  "read_client_hello (ts_acceptor example_tls) DEFAULT_MAX_CLIENT_HELLO_BYTES stream_read 10000 False
     [Got [CHR 0x16, CHR 0x03, CHR 0x01]]
   = (Ok \<lparr>ich_accepted = (), ich_server_name = None, ich_raw_bytes = [CHR 0x16, CHR 0x03, CHR 0x01]\<rparr>, [])"
  by (simp add: read_client_hello_def read_client_hello_inner.simps feed_acceptor.simps accept_client_hello_def
      example_tls_def DEFAULT_MAX_CLIENT_HELLO_BYTES_def CLIENT_HELLO_READ_CHUNK_BYTES_def)

lemma example_run:
  "ff_decrypted (snd (handle_flow example_env example_engine 0 example_flow)) = None"
  "\<exists>u'. ff_upstream (snd (handle_flow example_env example_engine 0 example_flow)) = Some u'"
  "\<exists>p. fst (handle_flow example_env example_engine 0 example_flow) = Some (Ok (PassedThrough p))"
  by (simp_all add: handle_flow_def tls_handle_def handle_with_decryption_policy_def example_defs Let_def
      example_detect example_hello with_read_prefix_def prefixed_duplex_def
      prefixed_script_def prefixed_new_def remaining_prefix_def requires_sni_peek_def
      validate_tls_server_name_def decide_def policy_target_domain_def passthrough_handle_def
      with_server_name_def connect_upstream_with_observer_def connect_original_destination_def
      observe_upstream_def write_all.simps stream_write_def usize_to_u64_def eager_copy_def checked_add_def)

theorem passthrough_transparent_witness:
  "\<exists>(u :: boxed_stream) u' p. fst (handle_flow example_env example_engine 0 example_flow) = Some (Ok (PassedThrough p))
     \<and> ff_upstream (snd (handle_flow example_env example_engine 0 example_flow)) = Some u'
     \<and> relayed_all (bx_stream (af_stream example_flow)) [CHR 0x16, CHR 0x03, CHR 0x01] (bx_stream u)
         (ff_client (snd (handle_flow example_env example_engine 0 example_flow))) u' p"
proof -
  have laws: "copy_bidirectional_laws (fe_copy_bidirectional example_env)"
    by (simp add: eager_copy_laws)
  have bytes: "incoming (rd_side (bx_stream (af_stream example_flow))) = [CHR 0x16, CHR 0x03, CHR 0x01]"
    by (simp add: example_defs)
  then have tls: "classify (take 64 (incoming (rd_side (bx_stream (af_stream example_flow))))) = Detected DetectedTls"
    by (simp add: classify_def)
  from example_run(2) obtain u' where
    u': "ff_upstream (snd (handle_flow example_env example_engine 0 example_flow)) = Some u'" ..
  from example_run(3) obtain p where
    p: "fst (handle_flow example_env example_engine 0 example_flow) = Some (Ok (PassedThrough p))" ..
  from passthrough_transparent [OF laws tls example_run(1) u'] obtain u :: boxed_stream where
    "relayed_all (bx_stream (af_stream example_flow)) [CHR 0x16, CHR 0x03, CHR 0x01] (bx_stream u)
      (ff_client (snd (handle_flow example_env example_engine 0 example_flow))) u' p"
    unfolding bytes p by auto
  with u' p show ?thesis by (intro exI conjI)
qed

text \<open>
  C3. A plain HTTP flow end to end, from the first byte the agent sends, through detection, decoding and
  the relay: unless the request asks for a protocol upgrade or a \<^verbatim>\<open>100 Continue\<close>, the provider, which is the
  one reached through the flow's own upstream (named after the request's host where that is a proxy to an
  address), receives a prefix of exactly those bytes and the agent a prefix of exactly the provider's; a flow
  reported as intercepted carries the exact byte counts of both directions; if no provider is reached, the
  agent's connection has been written nothing.
\<close>

theorem plain_flow_end_to_end:
  "let s = bx_stream (af_stream f); fin = snd (handle_flow env en i f)
   in case detect stream_read (protocol_detection (en_timeouts en)) (detection_late (fe_clock env)) (rd_side s) of
        (Ok (DetectedPlainHttp, used), r) \<Rightarrow>
          (case (ff_upstream fin,
                 from_http1 (fe_deps env) (en_timeouts en) (request_head_late (fe_clock env))
                   (flow_context_of f PlainHttp) (prefixed_duplex used (s\<lparr>rd_side := r\<rparr>))) of
             (None, _) \<Rightarrow> wr_side (ff_client fin) = wr_side s
           | (Some u', (Err e, c)) \<Rightarrow> False
           | (Some u', (Ok decoded, c)) \<Rightarrow>
               if \<not> is_websocket_upgrade_request (first_request decoded) \<and> local_continue (first_request decoded) = []
               then \<exists>conn u. with_server_name (dep_authority (fe_deps env))
                        (map_option auth_host
                          (Option.bind (request_host (first_request decoded)) (dep_authority (fe_deps env))))
                        (af_upstream f) = Ok conn
                      \<and> connect_upstream_with_observer (fe_net env) (upstream_connect (en_timeouts en))
                        (af_original_destination f) (af_traffic_observer f) conn = Ok u
                      \<and> relayed_prefix s (incoming (rd_side s)) (bx_stream u) (ff_client fin) u'
                      \<and> (case fst (handle_flow env en i f) of
                           Some (Ok (Intercepted outcome)) \<Rightarrow>
                             relayed_bytes s (bx_stream u) (ff_client fin) u'
                               (unat (io_client_to_upstream_bytes outcome)) (unat (io_upstream_to_client_bytes outcome))
                         | _ \<Rightarrow> True)
               else True)
      | _ \<Rightarrow> True"
proof (cases "\<exists>used r. detect stream_read (protocol_detection (en_timeouts en)) (detection_late (fe_clock env))
    (rd_side (bx_stream (af_stream f))) = (Ok (DetectedPlainHttp, used), r)")
  case True
  then obtain used r where d: "detect stream_read (protocol_detection (en_timeouts en)) (detection_late (fe_clock env))
    (rd_side (bx_stream (af_stream f))) = (Ok (DetectedPlainHttp, used), r)" by blast
  then have run: "handle_flow env en i f = plain_http_handle env en (detected_flow f used r)"
    by (simp add: handle_flow_detected)
  have same: "relayed_prefix (prefixed_duplex used (s\<lparr>rd_side := r\<rparr>)) = relayed_prefix s"
    "relayed_bytes (prefixed_duplex used (s\<lparr>rd_side := r\<rparr>)) = relayed_bytes s"
    "wr_side (prefixed_duplex used (s\<lparr>rd_side := r\<rparr>)) = wr_side s" for s
    by (simp_all add: relayed_prefix_def relayed_bytes_def fun_eq_iff)
  note spec = plain_http_spec [where env = env and en = en and f = "detected_flow f used r",
      unfolded Let_def detected_flow_content [OF d], unfolded detected_flow_stream same detected_flow_simps
        flow_context_of_detected, folded run]
  from spec show ?thesis by (simp add: d Let_def)
qed (auto split: prod.split sum.split detected_protocol.split)

end
