(* ===== verification/Framing.thy ===== *)
theory Framing
  imports Stream_IO
begin

text \<open>
  Reading frames off a byte source: \<^verbatim>\<open>AsyncReadExt::read_exact\<close>, big-endian lengths, and the header read
  both codecs of the broker share (one byte to tell a clean end from a cut-off frame, then the rest).
  Everything holds for any byte source, so for every segmentation of the peer's bytes.
\<close>

section \<open>Exact reads\<close>

function read_exact ::
  "(nat \<Rightarrow> 's \<Rightarrow> (io_kind, bytes) result \<times> 's) \<Rightarrow> nat \<Rightarrow> 's \<Rightarrow> (io_kind, bytes) result \<times> 's" where
  "read_exact rd n s =
     (if n = 0 then (Ok [], s)
      else
        (case rd n s of
           (Err k, s') \<Rightarrow> (Err k, s')
         | (Ok bs, s') \<Rightarrow>
             if bs = [] then (Err UnexpectedEof, s')
             else
               (case read_exact rd (n - length bs) s' of
                  (Err k, s'') \<Rightarrow> (Err k, s'')
                | (Ok rest, s'') \<Rightarrow> (Ok (bs @ rest), s''))))"
  by pat_completeness auto
termination
  by (relation "measure (\<lambda>(rd, n, s). n)") auto

declare read_exact.simps [simp del]

text \<open>
  The header of a frame of \<open>n\<close> bytes: nothing at all when the stream ends before it. An error says whether
  it came from the first read.
\<close>

definition read_frame_header ::
  "(nat \<Rightarrow> 's \<Rightarrow> (io_kind, bytes) result \<times> 's) \<Rightarrow> nat \<Rightarrow> 's
   \<Rightarrow> (bool \<times> io_kind, bytes option) result \<times> 's" where
  "read_frame_header rd n s =
     (case rd 1 s of
        (Err k, s') \<Rightarrow> (Err (True, k), s')
      | (Ok first, s') \<Rightarrow>
          if first = [] then (Ok None, s')
          else
            (case read_exact rd (n - 1) s' of
               (Err k, s'') \<Rightarrow> (Err (False, k), s'')
             | (Ok rest, s'') \<Rightarrow> (Ok (Some (first @ rest)), s'')))"

context byte_source
begin

lemma read_exact_sound:
  "\<lbrakk>invar s; read_exact rd n s = (Ok bs, s')\<rbrakk> \<Longrightarrow> content s = bs @ content s' \<and> length bs = n \<and> invar s'"
proof (induction n arbitrary: s bs rule: less_induct)
  case (less n)
  show ?case
  proof (cases "n = 0")
    case True
    with less.prems show ?thesis by (simp add: read_exact.simps)
  next
    case False
    with less.prems obtain p rest s1 where r: "rd n s = (Ok p, s1)" "p \<noteq> []"
      and rec: "read_exact rd (n - length p) s1 = (Ok rest, s')" and bs: "bs = p @ rest"
      by (subst (asm) read_exact.simps) (auto split: prod.splits sum.splits if_splits)
    note d = rd_data [OF less.prems(1) r]
    have "n - length p < n" using r(2) False by (cases p) auto
    from less.IH [OF this rd_invar [OF less.prems(1) r(1)] rec] d bs show ?thesis by simp
  qed
qed

lemma read_exact_complete:
  "\<lbrakk>invar s; n \<le> length (content s)\<rbrakk> \<Longrightarrow>
     \<exists>s'. read_exact rd n s = (Ok (take n (content s)), s') \<and> content s' = drop n (content s) \<and> invar s'"
proof (induction n arbitrary: s rule: less_induct)
  case (less n)
  show ?case
  proof (cases "n = 0")
    case True
    with less.prems show ?thesis by (simp add: read_exact.simps)
  next
    case False
    with less.prems have "content s \<noteq> []" "0 < n" by auto
    then obtain p s1 where r: "rd n s = (Ok p, s1)" "p \<noteq> []" using rd_progress [OF less.prems(1)] by blast
    note d = rd_data [OF less.prems(1) r]
    have "n - length p < n" using r(2) False by (cases p) auto
    moreover have "n - length p \<le> length (content s1)" using d less.prems(2) by auto
    ultimately obtain s' where
      "read_exact rd (n - length p) s1 = (Ok (take (n - length p) (content s1)), s')"
      "content s' = drop (n - length p) (content s1)" "invar s'"
      using less.IH rd_invar [OF less.prems(1) r(1)] by blast
    with r d False show ?thesis by (subst read_exact.simps) simp
  qed
qed

lemma read_frame_header_sound:
  assumes "invar s" and "read_frame_header rd n s = (Ok (Some h), s')" and "0 < n"
  shows "content s = h @ content s' \<and> length h = n \<and> invar s'"
proof -
  from assms(2) obtain first rest s1 where r: "rd 1 s = (Ok first, s1)" "first \<noteq> []"
    and rec: "read_exact rd (n - 1) s1 = (Ok rest, s')" and h: "h = first @ rest"
    by (auto simp: read_frame_header_def split: prod.splits sum.splits if_splits)
  have "length first = 1" using rd_data [OF assms(1) r] r(2) by (cases first) auto
  with rd_data [OF assms(1) r] read_exact_sound [OF rd_invar [OF assms(1) r(1)] rec] h assms(3)
  show ?thesis by simp
qed

lemma read_frame_header_complete:
  assumes "invar s" and "n \<le> length (content s)" and "0 < n"
  shows "\<exists>s'. read_frame_header rd n s = (Ok (Some (take n (content s))), s')
    \<and> content s' = drop n (content s) \<and> invar s'"
proof -
  have "content s \<noteq> []" using assms by auto
  then obtain first s1 where r: "rd 1 s = (Ok first, s1)" "first \<noteq> []"
    using rd_progress [OF assms(1), of 1] by auto
  note d = rd_data [OF assms(1) r]
  have one: "length first = 1" using d r(2) by (cases first) auto
  then have "n - 1 \<le> length (content s1)" using d assms(2) by simp
  with read_exact_complete [OF rd_invar [OF assms(1) r(1)]] obtain s' where
    "read_exact rd (n - 1) s1 = (Ok (take (n - 1) (content s1)), s')"
    "content s' = drop (n - 1) (content s1)" "invar s'" by blast
  with r d one assms(3) show ?thesis
    by (auto simp: read_frame_header_def take_Cons' drop_Cons' split: if_splits)
qed

lemma read_frame_header_end:
  assumes "invar s" and "read_frame_header rd n s = (Ok None, s')"
  shows "content s = []"
  using assms rd_end [OF assms(1), of 1] by (auto simp: read_frame_header_def split: prod.splits sum.splits if_splits)

end

section \<open>Big-endian lengths\<close>

type_synonym u32 = "32 word"

definition to_be_bytes :: "u32 \<Rightarrow> bytes" where
  "to_be_bytes w =
     (let n = unat w
      in [char_of (n div 2 ^ 24), char_of (n div 2 ^ 16 mod 256), char_of (n div 2 ^ 8 mod 256), char_of (n mod 256)])"

definition from_be_bytes :: "bytes \<Rightarrow> u32" where
  "from_be_bytes bs = of_nat (foldl (\<lambda>acc c. 256 * acc + code c) 0 bs)"

lemma to_be_bytes_length [simp]: "length (to_be_bytes w) = 4"
  by (simp add: to_be_bytes_def Let_def)

lemma u32_lt: "unat (w :: u32) < 4294967296"
  using unsigned_less [of w] by simp

lemma from_to_be_bytes [simp]: "from_be_bytes (to_be_bytes w) = w"
proof -
  let ?n = "unat w"
  have digits: "256 * (256 * (256 * (n div 2 ^ 24) + n div 2 ^ 16 mod 256) + n div 2 ^ 8 mod 256) + n mod 256 = n"
    for n :: nat
  proof -
    have "n div 2 ^ 24 = n div 256 div 256 div 256" "n div 2 ^ 16 = n div 256 div 256" "n div 2 ^ 8 = n div 256"
      by (simp_all add: div_mult2_eq [symmetric])
    then show ?thesis by (simp only: mult_div_mod_eq)
  qed
  have "?n div 2 ^ 24 < 256" using u32_lt [of w] by (simp add: less_mult_imp_div_less)
  then have codes: "map code (to_be_bytes w) = [?n div 2 ^ 24, ?n div 2 ^ 16 mod 256, ?n div 2 ^ 8 mod 256, ?n mod 256]"
    by (simp add: to_be_bytes_def Let_def code_def of_char_of)
  have "foldl (\<lambda>acc c. 256 * acc + code c) 0 (to_be_bytes w) = foldl (\<lambda>acc c. 256 * acc + c) 0 (map code (to_be_bytes w))"
    by (simp add: foldl_map)
  also have "\<dots> = ?n" unfolding codes using digits [of ?n] by simp
  finally show ?thesis by (simp add: from_be_bytes_def)
qed

text \<open>\<^verbatim>\<open>u32::try_from\<close> on a length.\<close>

definition u32_try_from :: "nat \<Rightarrow> u32 option" where
  "u32_try_from n = (if n < 2 ^ 32 then Some (of_nat n) else None)"

lemma u32_try_from_Some: "u32_try_from n = Some w \<longleftrightarrow> unat w = n"
proof
  assume "unat w = n"
  then have "n < 2 ^ 32" "of_nat n = w" using u32_lt [of w] by auto
  then show "u32_try_from n = Some w" by (simp add: u32_try_from_def)
qed (auto simp: u32_try_from_def unat_of_nat split: if_splits)

lemma u32_try_from_of_nat: "u32_try_from n = Some w \<Longrightarrow> of_nat n = w"
  by (simp add: u32_try_from_def split: if_splits)

lemma to_from_be_bytes:
  assumes "length bs = 4"
  shows "to_be_bytes (from_be_bytes bs) = bs"
proof -
  from assms obtain a b c d where bs: "bs = [a, b, c, d]"
    by (auto simp: numeral_eq_Suc length_Suc_conv)
  define n where "n = 256 * (256 * (256 * code a + code b) + code c) + code d"
  have lt: "code x < 256" for x by (simp add: code_def)
  have fold: "foldl (\<lambda>acc c. 256 * acc + code c) 0 bs = n" by (simp add: bs n_def)
  have small: "n < 2 ^ 32" using lt [of a] lt [of b] lt [of c] lt [of d] by (simp add: n_def)
  have low: "(256 * x + code y) div 256 = x" "(256 * x + code y) mod 256 = code y" for x y
    using lt [of y] by simp_all
  have digits: "n div 2 ^ 8 = 256 * (256 * code a + code b) + code c" "n mod 256 = code d"
    using low(1) [of "256 * (256 * code a + code b) + code c" d] low(2) [of "256 * (256 * code a + code b) + code c" d]
    by (simp_all only: n_def) simp
  have digits': "n div 2 ^ 16 = 256 * code a + code b" "n div 2 ^ 8 mod 256 = code c"
    using div_mult2_eq [of n "2 ^ 8" "2 ^ 8"] low(1) [of "256 * code a + code b" c] low(2) [of "256 * code a + code b" c]
    by (simp_all only: digits) simp
  have digits'': "n div 2 ^ 24 = code a" "n div 2 ^ 16 mod 256 = code b"
    using div_mult2_eq [of n "2 ^ 16" "2 ^ 8"] low(1) [of "code a" b] low(2) [of "code a" b]
    by (simp_all only: digits') simp
  have char: "char_of (code x) = x" for x by (simp add: code_def)
  have "unat (from_be_bytes bs) = n" using small by (simp only: from_be_bytes_def fold) (simp add: unat_of_nat)
  then show ?thesis by (simp only: to_be_bytes_def Let_def digits digits' digits'' low char bs)
qed

end
