(* ===== verification/Frame_Codec.thy ===== *)
theory Frame_Codec
  imports Framing
begin

text \<open>
  The framed flow protocol between the macOS network extension and the broker
  (\<^verbatim>\<open>crates/abyss-broker/src/ingress/macos/framed_protocol.rs\<close>): a 28-byte header with magic, type,
  direction, two reserved bytes, the flow's UUID and a big-endian payload length, then the payload.
  The \<^verbatim>\<open>uuid\<close> and \<^verbatim>\<open>serde_json\<close> crates are parameters.
\<close>

section \<open>Data\<close>

datatype flow_frame_type = FrameOpen | FrameData | FrameClose
datatype flow_frame_direction = DirectionNone | ClientToBroker | BrokerToClient

datatype flow_protocol_error =
    InvalidMagic
  | InvalidFrameType byte
  | InvalidDirection byte
  | InvalidUuid
  | FramePayloadTooLarge u32 u32
  | FrameUnexpectedEof string
  | FrameIo string io_kind
  | FrameJson string

record 'u flow_frame =
  frame_type :: flow_frame_type
  frame_direction :: flow_frame_direction
  frame_flow_id :: 'u
  frame_payload :: bytes

record 'u flow_frame_header =
  header_type :: flow_frame_type
  header_direction :: flow_frame_direction
  header_flow_id :: 'u
  header_payload_len :: u32

text \<open>What the protocol uses of the \<^verbatim>\<open>uuid\<close> crate: \<^verbatim>\<open>Uuid::from_slice\<close> and \<^verbatim>\<open>Uuid::as_bytes\<close>.\<close>

record 'u uuid_crate =
  uuid_from_slice :: "bytes \<Rightarrow> 'u option"
  uuid_as_bytes :: "'u \<Rightarrow> bytes"

definition FRAME_MAGIC :: bytes where
  "FRAME_MAGIC = [CHR 0x41, CHR 0x42, CHR 0x59, CHR 0x31]"

definition FRAME_HEADER_LEN :: nat where
  "FRAME_HEADER_LEN = 28"

definition MAX_FRAME_PAYLOAD_LEN :: u32 where
  "MAX_FRAME_PAYLOAD_LEN = 16 * 1024 * 1024"

section \<open>Wire values\<close>

fun frame_type_wire_value :: "flow_frame_type \<Rightarrow> byte" where
  "frame_type_wire_value FrameOpen = CHR 0x01"
| "frame_type_wire_value FrameData = CHR 0x02"
| "frame_type_wire_value FrameClose = CHR 0x03"

definition frame_type_from_wire :: "byte \<Rightarrow> (flow_protocol_error, flow_frame_type) result" where
  "frame_type_from_wire value =
     (if value = CHR 0x01 then Ok FrameOpen
      else if value = CHR 0x02 then Ok FrameData
      else if value = CHR 0x03 then Ok FrameClose
      else Err (InvalidFrameType value))"

fun direction_wire_value :: "flow_frame_direction \<Rightarrow> byte" where
  "direction_wire_value DirectionNone = CHR 0x00"
| "direction_wire_value ClientToBroker = CHR 0x01"
| "direction_wire_value BrokerToClient = CHR 0x02"

definition direction_from_wire :: "byte \<Rightarrow> (flow_protocol_error, flow_frame_direction) result" where
  "direction_from_wire value =
     (if value = CHR 0x00 then Ok DirectionNone
      else if value = CHR 0x01 then Ok ClientToBroker
      else if value = CHR 0x02 then Ok BrokerToClient
      else Err (InvalidDirection value))"

section \<open>Frames\<close>

definition flow_frame_new ::
  "flow_frame_type \<Rightarrow> flow_frame_direction \<Rightarrow> 'u \<Rightarrow> bytes \<Rightarrow> 'u flow_frame" where
  "flow_frame_new ty dir fid payload =
     \<lparr>frame_type = ty, frame_direction = dir, frame_flow_id = fid, frame_payload = payload\<rparr>"

definition broker_to_client :: "'u \<Rightarrow> bytes \<Rightarrow> 'u flow_frame" where
  "broker_to_client fid payload = flow_frame_new FrameData BrokerToClient fid payload"

definition flow_frame_close ::
  "('u \<Rightarrow> string \<Rightarrow> bytes option) \<Rightarrow> 'u \<Rightarrow> flow_frame_direction \<Rightarrow> string
   \<Rightarrow> (flow_protocol_error, 'u flow_frame) result" where
  "flow_frame_close close_json fid dir reason =
     (case close_json fid reason of
        None \<Rightarrow> Err (FrameJson ''encode FlowClose payload'')
      | Some payload \<Rightarrow> Ok (flow_frame_new FrameClose dir fid payload))"

definition broker_to_client_eof ::
  "('u \<Rightarrow> string \<Rightarrow> bytes option) \<Rightarrow> 'u \<Rightarrow> string \<Rightarrow> (flow_protocol_error, 'u flow_frame) result" where
  "broker_to_client_eof close_json fid reason = flow_frame_close close_json fid BrokerToClient reason"

definition validate_payload_len :: "u32 \<Rightarrow> (flow_protocol_error, unit) result" where
  "validate_payload_len len =
     (if MAX_FRAME_PAYLOAD_LEN < len then Err (FramePayloadTooLarge len MAX_FRAME_PAYLOAD_LEN) else Ok ())"

definition frame_encode :: "'u uuid_crate \<Rightarrow> 'u flow_frame \<Rightarrow> (flow_protocol_error, bytes) result" where
  "frame_encode uuids f =
     (case u32_try_from (length (frame_payload f)) of
        None \<Rightarrow> Err (FramePayloadTooLarge (- 1) MAX_FRAME_PAYLOAD_LEN)
      | Some len \<Rightarrow>
          (case validate_payload_len len of
             Err e \<Rightarrow> Err e
           | Ok _ \<Rightarrow>
               if usize_max < FRAME_HEADER_LEN + length (frame_payload f)
               then Err (FramePayloadTooLarge (- 1) MAX_FRAME_PAYLOAD_LEN)
               else
                 Ok (FRAME_MAGIC
                   @ [frame_type_wire_value (frame_type f)]
                   @ [direction_wire_value (frame_direction f)]
                   @ [CHR 0x00, CHR 0x00]
                   @ uuid_as_bytes uuids (frame_flow_id f)
                   @ to_be_bytes len
                   @ frame_payload f)))"

definition header_decode ::
  "'u uuid_crate \<Rightarrow> bytes \<Rightarrow> (flow_protocol_error, 'u flow_frame_header) result" where
  "header_decode uuids header =
     (if take 4 header \<noteq> FRAME_MAGIC then Err InvalidMagic
      else
        (let len = from_be_bytes (take 4 (drop 24 header)) in
         case validate_payload_len len of
           Err e \<Rightarrow> Err e
         | Ok _ \<Rightarrow>
             (case frame_type_from_wire (header ! 4) of
                Err e \<Rightarrow> Err e
              | Ok ty \<Rightarrow>
                  (case direction_from_wire (header ! 5) of
                     Err e \<Rightarrow> Err e
                   | Ok dir \<Rightarrow>
                       (case uuid_from_slice uuids (take 16 (drop 8 header)) of
                          None \<Rightarrow> Err InvalidUuid
                        | Some fid \<Rightarrow>
                            Ok \<lparr>header_type = ty, header_direction = dir, header_flow_id = fid,
                                header_payload_len = len\<rparr>)))))"

definition frame_decode ::
  "'u uuid_crate \<Rightarrow> bytes \<Rightarrow> bytes \<Rightarrow> (flow_protocol_error, 'u flow_frame) result" where
  "frame_decode uuids header payload =
     (case header_decode uuids header of
        Err e \<Rightarrow> Err e
      | Ok h \<Rightarrow> Ok (flow_frame_new (header_type h) (header_direction h) (header_flow_id h) payload))"

definition frame_payload_len :: "'u uuid_crate \<Rightarrow> bytes \<Rightarrow> (flow_protocol_error, u32) result" where
  "frame_payload_len uuids header = map_sum id header_payload_len (header_decode uuids header)"

section \<open>Reading frames\<close>

definition map_read_exact_error :: "string \<Rightarrow> io_kind \<Rightarrow> flow_protocol_error" where
  "map_read_exact_error operation k =
     (if k = UnexpectedEof then FrameUnexpectedEof operation else FrameIo operation k)"

definition read_flow_header ::
  "(nat \<Rightarrow> 's \<Rightarrow> (io_kind, bytes) result \<times> 's) \<Rightarrow> 's
   \<Rightarrow> (flow_protocol_error, bytes option) result \<times> 's" where
  "read_flow_header rd s =
     (case read_frame_header rd FRAME_HEADER_LEN s of
        (Err (at_start, k), s') \<Rightarrow>
          (Err (if at_start then FrameIo ''read frame header'' k
                else map_read_exact_error ''read frame header'' k), s')
      | (Ok h, s') \<Rightarrow> (Ok h, s'))"

definition read_frame ::
  "'u uuid_crate \<Rightarrow> (nat \<Rightarrow> 's \<Rightarrow> (io_kind, bytes) result \<times> 's) \<Rightarrow> 's
   \<Rightarrow> (flow_protocol_error, 'u flow_frame option) result \<times> 's" where
  "read_frame uuids rd s =
     (case read_flow_header rd s of
        (Err e, s') \<Rightarrow> (Err e, s')
      | (Ok None, s') \<Rightarrow> (Ok None, s')
      | (Ok (Some header), s') \<Rightarrow>
          (case frame_payload_len uuids header of
             Err e \<Rightarrow> (Err e, s')
           | Ok len \<Rightarrow>
               (case read_exact rd (unat len) s' of
                  (Err k, s'') \<Rightarrow> (Err (map_read_exact_error ''read frame payload'' k), s'')
                | (Ok payload, s'') \<Rightarrow> (map_sum id Some (frame_decode uuids header payload), s''))))"

section \<open>The laws of the UUID crate\<close>

text \<open>
  The documented behaviour of the crate: a UUID is 16 bytes, \<^verbatim>\<open>from_slice\<close> accepts exactly the 16-byte
  slices and is the inverse of \<^verbatim>\<open>as_bytes\<close>.
\<close>

definition uuid_laws :: "'u uuid_crate \<Rightarrow> bool" where
  "uuid_laws uuids \<longleftrightarrow>
     (\<forall>u. length (uuid_as_bytes uuids u) = 16)
   \<and> (\<forall>bs u. uuid_from_slice uuids bs = Some u \<longleftrightarrow> uuid_as_bytes uuids u = bs)"

lemma uuid_length: "uuid_laws uuids \<Longrightarrow> length (uuid_as_bytes uuids u) = 16"
  by (simp add: uuid_laws_def)

lemma uuid_slice: "uuid_laws uuids \<Longrightarrow> uuid_from_slice uuids bs = Some u \<longleftrightarrow> uuid_as_bytes uuids u = bs"
  by (simp add: uuid_laws_def)

lemma uuid_round: "uuid_laws uuids \<Longrightarrow> uuid_from_slice uuids (uuid_as_bytes uuids u) = Some u"
  by (simp add: uuid_slice)

section \<open>Round trip\<close>

lemma frame_type_wire [simp]: "frame_type_from_wire (frame_type_wire_value ty) = Ok ty"
  by (cases ty) (simp_all add: frame_type_from_wire_def)

lemma direction_wire [simp]: "direction_from_wire (direction_wire_value dir) = Ok dir"
  by (cases dir) (simp_all add: direction_from_wire_def)

lemma frame_type_from_wire_Ok: "frame_type_from_wire b = Ok ty \<Longrightarrow> frame_type_wire_value ty = b"
  by (auto simp: frame_type_from_wire_def split: if_splits)

lemma direction_from_wire_Ok: "direction_from_wire b = Ok dir \<Longrightarrow> direction_wire_value dir = b"
  by (auto simp: direction_from_wire_def split: if_splits)

text \<open>The 28 bytes of a frame's header, with the two reserved bytes open.\<close>

definition frame_header_bytes :: "'u uuid_crate \<Rightarrow> 'u flow_frame_header \<Rightarrow> bytes \<Rightarrow> bytes" where
  "frame_header_bytes uuids h reserved =
     FRAME_MAGIC @ [frame_type_wire_value (header_type h), direction_wire_value (header_direction h)]
     @ reserved @ uuid_as_bytes uuids (header_flow_id h) @ to_be_bytes (header_payload_len h)"

lemma frame_header_bytes_length:
  "uuid_laws uuids \<Longrightarrow> length reserved = 2 \<Longrightarrow> length (frame_header_bytes uuids h reserved) = FRAME_HEADER_LEN"
  by (simp add: frame_header_bytes_def FRAME_MAGIC_def FRAME_HEADER_LEN_def uuid_length)

lemma header_decode_iff:
  assumes laws: "uuid_laws uuids" and len: "length header = FRAME_HEADER_LEN"
  shows "header_decode uuids header = Ok h \<longleftrightarrow>
     (\<exists>reserved. length reserved = 2 \<and> header = frame_header_bytes uuids h reserved)
     \<and> validate_payload_len (header_payload_len h) = Ok ()"
    (is "?l \<longleftrightarrow> ?r")
proof
  assume ?r
  then obtain reserved where "length reserved = 2" "header = frame_header_bytes uuids h reserved"
    "validate_payload_len (header_payload_len h) = Ok ()" by auto
  then show ?l
    by (simp add: header_decode_def frame_header_bytes_def FRAME_MAGIC_def uuid_length [OF laws] uuid_round [OF laws]
        nth_append numeral_eq_Suc Let_def)
next
  assume ?l
  define z where "z = [header ! 6, header ! 7]"
  have parts: "header = take 4 header @ [header ! 4, header ! 5] @ z @ take 16 (drop 8 header) @ take 4 (drop 24 header)"
  proof -
    have "drop 4 header = [header ! 4, header ! 5] @ z @ drop 8 header"
      using len Cons_nth_drop_Suc [of 4 header] Cons_nth_drop_Suc [of 5 header] Cons_nth_drop_Suc [of 6 header]
        Cons_nth_drop_Suc [of 7 header]
      by (simp add: FRAME_HEADER_LEN_def z_def)
    moreover have "drop 8 header = take 16 (drop 8 header) @ take 4 (drop 24 header)"
      using len append_take_drop_id [of 16 "drop 8 header"] by (simp add: FRAME_HEADER_LEN_def)
    ultimately show ?thesis using append_take_drop_id [of 4 header] by metis
  qed
  from \<open>?l\<close> have "take 4 header = FRAME_MAGIC"
    "validate_payload_len (header_payload_len h) = Ok ()"
    "header_payload_len h = from_be_bytes (take 4 (drop 24 header))"
    "frame_type_wire_value (header_type h) = header ! 4"
    "direction_wire_value (header_direction h) = header ! 5"
    "uuid_as_bytes uuids (header_flow_id h) = take 16 (drop 8 header)"
    by (auto simp: header_decode_def Let_def uuid_slice [OF laws] frame_type_from_wire_Ok direction_from_wire_Ok
        split: if_splits sum.splits option.splits)
  moreover have "to_be_bytes (from_be_bytes (take 4 (drop 24 header))) = take 4 (drop 24 header)"
    using len by (intro to_from_be_bytes) (simp add: FRAME_HEADER_LEN_def)
  ultimately have "header = frame_header_bytes uuids h z" using parts by (simp add: frame_header_bytes_def)
  moreover have "length z = 2" by (simp add: z_def)
  ultimately show ?r using \<open>validate_payload_len (header_payload_len h) = Ok ()\<close> by blast
qed

definition frame_header :: "'u flow_frame \<Rightarrow> u32 \<Rightarrow> 'u flow_frame_header" where
  "frame_header f len =
     \<lparr>header_type = frame_type f, header_direction = frame_direction f, header_flow_id = frame_flow_id f,
      header_payload_len = len\<rparr>"

lemma frame_encode_Ok:
  "frame_encode uuids f = Ok bs \<longleftrightarrow>
     (\<exists>len. unat len = length (frame_payload f) \<and> validate_payload_len len = Ok ()
        \<and> bs = frame_header_bytes uuids (frame_header f len) [CHR 0x00, CHR 0x00] @ frame_payload f)"
proof -
  have fits: "FRAME_HEADER_LEN + unat len \<le> usize_max" for len :: u32
    using u32_lt [of len] by (simp add: FRAME_HEADER_LEN_def usize_max_def)
  show ?thesis
  proof (cases "u32_try_from (length (frame_payload f))")
    case None
    then have "\<nexists>len. unat (len :: u32) = length (frame_payload f)" by (metis option.distinct(1) u32_try_from_Some)
    with None show ?thesis by (auto simp: frame_encode_def)
  next
    case (Some w)
    then have w: "unat len = length (frame_payload f) \<longleftrightarrow> len = w" for len by (metis u32_try_from_Some option.inject)
    have "\<not> usize_max < FRAME_HEADER_LEN + length (frame_payload f)" using w [of w] fits [of w] by simp
    with w Some show ?thesis
      by (auto simp: frame_encode_def frame_header_bytes_def frame_header_def split: sum.splits)
  qed
qed

lemma frame_payload_len_Ok:
  "frame_payload_len uuids header = Ok len \<longleftrightarrow>
     (\<exists>h. header_decode uuids header = Ok h \<and> header_payload_len h = len)"
  by (cases "header_decode uuids header") (auto simp: frame_payload_len_def)

lemma frame_decode_header:
  "header_decode uuids header = Ok (frame_header f len) \<Longrightarrow> frame_decode uuids header (frame_payload f) = Ok f"
  by (simp add: frame_decode_def frame_header_def flow_frame_new_def)

context byte_source
begin

lemma read_frame_complete:
  assumes laws: "uuid_laws uuids" and "invar s" and enc: "frame_encode uuids f = Ok bs"
    and content: "content s = bs @ rest"
  shows "\<exists>s'. read_frame uuids rd s = (Ok (Some f), s') \<and> content s' = rest \<and> invar s'"
proof -
  from enc obtain len where len: "unat len = length (frame_payload f)" "validate_payload_len len = Ok ()"
    and bs: "bs = frame_header_bytes uuids (frame_header f len) [CHR 0x00, CHR 0x00] @ frame_payload f" (is "_ = ?h @ _")
    by (auto simp: frame_encode_Ok)
  have h: "length ?h = FRAME_HEADER_LEN" "0 < FRAME_HEADER_LEN"
    using laws by (simp_all add: frame_header_bytes_length FRAME_HEADER_LEN_def)
  have dec: "header_decode uuids ?h = Ok (frame_header f len)"
    using header_decode_iff [OF laws h(1)] len(2) by (force simp: frame_header_def)
  from read_frame_header_complete [OF \<open>invar s\<close> _ h(2)] obtain s1 where
    s1: "read_frame_header rd FRAME_HEADER_LEN s = (Ok (Some ?h), s1)" "content s1 = frame_payload f @ rest" "invar s1"
    using h(1) by (force simp: content bs)
  from read_exact_complete [OF s1(3), of "length (frame_payload f)"] obtain s2 where
    "read_exact rd (length (frame_payload f)) s1 = (Ok (frame_payload f), s2)" "content s2 = rest" "invar s2"
    using s1(2) by auto
  moreover have "frame_payload_len uuids ?h = Ok len"
    using dec by (simp add: frame_payload_len_Ok frame_header_def)
  ultimately show ?thesis
    using s1(1) frame_decode_header [OF dec] by (simp add: read_frame_def read_flow_header_def len(1))
qed

lemma read_frame_sound:
  assumes laws: "uuid_laws uuids" and "invar s" and rd: "read_frame uuids rd s = (Ok (Some f), s')"
  shows "\<exists>bs reserved. frame_encode uuids f = Ok bs \<and> length reserved = 2
    \<and> content s = take 6 bs @ reserved @ drop 8 bs @ content s' \<and> invar s'"
proof -
  from rd obtain header h s1 where
    s1: "read_frame_header rd FRAME_HEADER_LEN s = (Ok (Some header), s1)"
    and dec: "header_decode uuids header = Ok h"
    and pay: "read_exact rd (unat (header_payload_len h)) s1 = (Ok (frame_payload f), s')"
    and f: "h = frame_header f (header_payload_len h)"
    by (auto simp: read_frame_def read_flow_header_def frame_payload_len_Ok frame_decode_def flow_frame_new_def
        frame_header_def split: prod.splits sum.splits option.splits if_splits)
  note a = read_frame_header_sound [OF \<open>invar s\<close> s1]
  have a: "content s = header @ content s1" "length header = FRAME_HEADER_LEN" "invar s1"
    using read_frame_header_sound [OF \<open>invar s\<close> s1] by (simp_all add: FRAME_HEADER_LEN_def)
  note b = read_exact_sound [OF a(3) pay]
  from header_decode_iff [OF laws a(2)] dec obtain reserved where
    res: "length reserved = 2" "header = frame_header_bytes uuids h reserved"
    "validate_payload_len (header_payload_len h) = Ok ()" by auto
  let ?bs = "frame_header_bytes uuids h [CHR 0x00, CHR 0x00] @ frame_payload f"
  have "frame_encode uuids f = Ok ?bs"
    using b res(3) f by (auto simp: frame_encode_Ok intro!: exI [of _ "header_payload_len h"])
  moreover have "header @ frame_payload f = take 6 ?bs @ reserved @ drop 8 ?bs"
    by (simp add: res(2) frame_header_bytes_def FRAME_MAGIC_def)
  ultimately show ?thesis using a b res(1) by (intro exI [of _ ?bs] exI [of _ reserved]) simp
qed

lemma read_frame_end:
  "invar s \<Longrightarrow> read_frame uuids rd s = (Ok None, s') \<Longrightarrow> content s = []"
  using read_frame_header_end
  by (auto simp: read_frame_def read_flow_header_def frame_decode_def
      split: prod.splits sum.splits option.splits if_splits)

end

section \<open>Properties\<close>

text \<open>A concrete UUID crate: a UUID is a tuple of sixteen bytes.\<close>

type_synonym word4 = "byte \<times> byte \<times> byte \<times> byte"

fun word4_bytes :: "word4 \<Rightarrow> bytes" where
  "word4_bytes (a, b, c, d) = [a, b, c, d]"

fun word4_read :: "bytes \<Rightarrow> word4" where
  "word4_read (a # b # c # d # _) = (a, b, c, d)"
| "word4_read _ = (CHR 0x00, CHR 0x00, CHR 0x00, CHR 0x00)"

definition tuple_uuids :: "(word4 \<times> word4 \<times> word4 \<times> word4) uuid_crate" where
  "tuple_uuids =
     \<lparr>uuid_from_slice = (\<lambda>bs. if length bs = 16
         then Some (word4_read bs, word4_read (drop 4 bs), word4_read (drop 8 bs), word4_read (drop 12 bs)) else None),
      uuid_as_bytes = (\<lambda>(a, b, c, d). word4_bytes a @ word4_bytes b @ word4_bytes c @ word4_bytes d)\<rparr>"

lemma word4_read_bytes [simp]: "word4_read (word4_bytes w @ xs) = w" "word4_read (word4_bytes w) = w"
  by (cases w, simp)+

lemma word4_bytes_length [simp]: "length (word4_bytes w) = 4"
  by (cases w) simp

lemma word4_bytes_read: "4 \<le> length bs \<Longrightarrow> word4_bytes (word4_read bs) = take 4 bs"
  by (cases bs rule: word4_read.cases) auto

lemma tuple_uuids_laws: "uuid_laws tuple_uuids"
  unfolding uuid_laws_def
proof (intro conjI allI)
  fix u :: "word4 \<times> word4 \<times> word4 \<times> word4" and bs
  obtain a b c d where u: "u = (a, b, c, d)" by (cases u rule: prod_cases4)
  show "length (uuid_as_bytes tuple_uuids u) = 16" by (simp add: u tuple_uuids_def)
  show "uuid_from_slice tuple_uuids bs = Some u \<longleftrightarrow> uuid_as_bytes tuple_uuids u = bs"
  proof
    assume "uuid_from_slice tuple_uuids bs = Some u"
    then have len: "length bs = 16" and
      "a = word4_read bs" "b = word4_read (drop 4 bs)" "c = word4_read (drop 8 bs)" "d = word4_read (drop 12 bs)"
      unfolding u tuple_uuids_def by (simp_all split: if_splits)
    then have "uuid_as_bytes tuple_uuids u = take 4 bs @ take 4 (drop 4 bs) @ take 4 (drop 8 bs) @ take 4 (drop 12 bs)"
      by (simp add: u tuple_uuids_def word4_bytes_read)
    also have "\<dots> = bs" using len by (simp flip: append_assoc take_add)
    finally show "uuid_as_bytes tuple_uuids u = bs" .
  next
    assume "uuid_as_bytes tuple_uuids u = bs"
    then show "uuid_from_slice tuple_uuids bs = Some u"
      by (auto simp: u tuple_uuids_def simp del: word4_bytes.simps)
  qed
qed

text \<open>The UUID of sixteen zero bytes, and a header that carries it.\<close>

definition nil_uuid :: "word4 \<times> word4 \<times> word4 \<times> word4" where
  "nil_uuid = (word4_read [], word4_read [], word4_read [], word4_read [])"

definition nil_uuid_bytes :: bytes where
  "nil_uuid_bytes =
     [CHR 0x00, CHR 0x00, CHR 0x00, CHR 0x00, CHR 0x00, CHR 0x00, CHR 0x00, CHR 0x00, CHR 0x00, CHR 0x00, CHR 0x00, CHR 0x00, CHR 0x00, CHR 0x00, CHR 0x00, CHR 0x00]"

lemma nil_uuid_simps [simp]:
  "uuid_as_bytes tuple_uuids nil_uuid = nil_uuid_bytes" "uuid_from_slice tuple_uuids nil_uuid_bytes = Some nil_uuid"
  by (simp_all add: tuple_uuids_def nil_uuid_def nil_uuid_bytes_def)

lemma to_be_bytes_small:
  "to_be_bytes 0 = [CHR 0x00, CHR 0x00, CHR 0x00, CHR 0x00]" "to_be_bytes 2 = [CHR 0x00, CHR 0x00, CHR 0x00, CHR 0x02]"
  by (simp_all add: to_be_bytes_def char_of_def bit_numeral_rec bit_Suc_0_iff)

text \<open>
  A frame that was encoded is read back exactly, whatever follows it and however its bytes are cut into
  segments, and the reader stands at the first byte after it: so a sequence of frames is read frame by frame.
\<close>

theorem frame_round_trip:
  assumes "uuid_laws uuids" and "frame_encode uuids f = Ok bs" and "incoming r = bs @ rest"
  shows "\<exists>r'. read_frame uuids stream_read r = (Ok (Some f), r') \<and> incoming r' = rest"
  using script.read_frame_complete [OF assms(1) _ assms(2,3)] by blast

theorem frame_round_trip_witness:
  "\<exists>r'. read_frame tuple_uuids stream_read
       (map (\<lambda>b. Got [b]) (FRAME_MAGIC @ [CHR 0x02, CHR 0x02, CHR 0x00, CHR 0x00] @ nil_uuid_bytes
          @ [CHR 0x00, CHR 0x00, CHR 0x00, CHR 0x02]) @ [Got ''hi!''])
     = (Ok (Some (broker_to_client nil_uuid ''hi'')), r') \<and> incoming r' = ''!''"
proof (rule frame_round_trip [OF tuple_uuids_laws])
  have "validate_payload_len 2 = Ok ()" by (simp add: validate_payload_len_def MAX_FRAME_PAYLOAD_LEN_def)
  then show "frame_encode tuple_uuids (broker_to_client nil_uuid ''hi'')
     = Ok (FRAME_MAGIC @ [CHR 0x02, CHR 0x02, CHR 0x00, CHR 0x00] @ nil_uuid_bytes
          @ [CHR 0x00, CHR 0x00, CHR 0x00, CHR 0x02] @ ''hi'')"
    by (auto simp: frame_encode_Ok frame_header_bytes_def frame_header_def broker_to_client_def flow_frame_new_def
        to_be_bytes_small intro!: exI [of _ 2])
qed (simp add: FRAME_MAGIC_def nil_uuid_bytes_def)

text \<open>
  What the reader accepts is canonical: a frame it returns has an encoding within the 16 MiB limit, and the
  bytes it took from the stream are that encoding except for the two reserved bytes, which it ignores.
  It reports the end of the stream only where the stream has ended, never inside a frame.
\<close>

theorem frame_read_sound:
  assumes "uuid_laws uuids" and "read_frame uuids stream_read r = (Ok found, r')"
  shows "case found of
      None \<Rightarrow> incoming r = []
    | Some f \<Rightarrow> length (frame_payload f) \<le> unat MAX_FRAME_PAYLOAD_LEN
        \<and> (\<exists>bs reserved. frame_encode uuids f = Ok bs \<and> length reserved = 2
             \<and> incoming r = take 6 bs @ reserved @ drop 8 bs @ incoming r')"
proof (cases found)
  case None
  with script.read_frame_end assms(2) show ?thesis by auto
next
  case (Some f)
  with script.read_frame_sound [OF assms(1) _ assms(2) [unfolded Some]] obtain bs reserved where
    "frame_encode uuids f = Ok bs" "length reserved = 2"
    "incoming r = take 6 bs @ reserved @ drop 8 bs @ incoming r'" by auto
  then show ?thesis
    using Some by (auto simp: frame_encode_Ok validate_payload_len_def word_le_nat_alt not_less split: if_splits)
qed

theorem frame_read_sound_witness:
  "\<exists>bs reserved. frame_encode tuple_uuids (flow_frame_new FrameClose DirectionNone nil_uuid []) = Ok bs
     \<and> length reserved = 2 \<and> take 6 bs @ reserved @ drop 8 bs
       = FRAME_MAGIC @ [CHR 0x03, CHR 0x00, CHR 0x07, CHR 0x09] @ nil_uuid_bytes @ [CHR 0x00, CHR 0x00, CHR 0x00, CHR 0x00]"
  (is "\<exists>bs reserved. _ \<and> _ \<and> _ = ?h")
proof -
  let ?f = "flow_frame_new FrameClose DirectionNone nil_uuid []"
  have "header_decode tuple_uuids ?h = Ok (frame_header ?f 0)"
    by (subst header_decode_iff [OF tuple_uuids_laws])
       (auto simp: FRAME_HEADER_LEN_def FRAME_MAGIC_def nil_uuid_bytes_def frame_header_bytes_def frame_header_def
        flow_frame_new_def to_be_bytes_small validate_payload_len_def intro!: exI [of _ "[CHR 0x07, CHR 0x09]"])
  then have "read_frame tuple_uuids stream_read [Got ?h] = (Ok (Some ?f), [])"
    by (simp add: read_frame_def read_flow_header_def read_frame_header_def read_exact.simps FRAME_HEADER_LEN_def
        FRAME_MAGIC_def nil_uuid_bytes_def frame_payload_len_def frame_decode_def frame_header_def flow_frame_new_def)
  from frame_read_sound [OF tuple_uuids_laws this] show ?thesis
    by (auto simp: FRAME_MAGIC_def)
qed

end
