(* ===== verification/Framed_Io.thy ===== *)
theory Framed_Io
  imports Frame_Codec
begin

text \<open>
  The duplex stream over a framed connection (\<^verbatim>\<open>FramedFlowIo\<close> of
  \<^verbatim>\<open>crates/abyss-broker/src/ingress/macos/mod.rs\<close>): its \<^verbatim>\<open>poll_read\<close>, \<^verbatim>\<open>poll_write\<close>, \<^verbatim>\<open>poll_flush\<close> and
  \<^verbatim>\<open>poll_shutdown\<close>, which may be interrupted by \<^verbatim>\<open>Pending\<close> anywhere and continue where they were. The socket below is a
  script that also says when it is not ready.
\<close>

section \<open>Polled sockets\<close>

datatype 'a poll = PollPending | PollReady 'a

datatype poll_read_step = PollGot bytes | PollReadFails io_kind | PollReadPending

type_synonym poll_reader = "poll_read_step list"

fun poll_stream_read :: "nat \<Rightarrow> poll_reader \<Rightarrow> (io_kind, bytes) result poll \<times> poll_reader" where
  "poll_stream_read cap [] = (PollReady (Ok []), [])"
| "poll_stream_read cap (PollReadPending # r) = (PollPending, r)"
| "poll_stream_read cap (PollReadFails k # r) = (PollReady (Err k), r)"
| "poll_stream_read cap (PollGot bs # r) =
     (PollReady (Ok (take cap bs)), if length bs \<le> cap then r else PollGot (drop cap bs) # r)"

fun poll_incoming :: "poll_reader \<Rightarrow> bytes" where
  "poll_incoming [] = []"
| "poll_incoming (PollReadPending # r) = poll_incoming r"
| "poll_incoming (PollReadFails k # r) = []"
| "poll_incoming (PollGot bs # r) = (if bs = [] then [] else bs @ poll_incoming r)"

fun poll_size :: "poll_reader \<Rightarrow> nat" where
  "poll_size [] = 0"
| "poll_size (PollGot bs # r) = Suc (length bs) + poll_size r"
| "poll_size (_ # r) = Suc (poll_size r)"

datatype poll_write_step = PollAccepts nat | PollWriteFails io_kind | PollWritePending

record poll_writer =
  pw_written :: bytes
  pw_steps :: "poll_write_step list"
  pw_flushes :: "(io_kind, unit) result poll list"
  pw_shutdowns :: "(io_kind, unit) result poll list"
  pw_closed :: bool

definition poll_stream_write :: "bytes \<Rightarrow> poll_writer \<Rightarrow> (io_kind, nat) result poll \<times> poll_writer" where
  "poll_stream_write bs w =
     (case pw_steps w of
        [] \<Rightarrow> (PollReady (Ok (length bs)), w\<lparr>pw_written := pw_written w @ bs\<rparr>)
      | PollAccepts n # ss \<Rightarrow> (PollReady (Ok (min n (length bs))), w\<lparr>pw_written := pw_written w @ take n bs, pw_steps := ss\<rparr>)
      | PollWriteFails k # ss \<Rightarrow> (PollReady (Err k), w\<lparr>pw_steps := ss\<rparr>)
      | PollWritePending # ss \<Rightarrow> (PollPending, w\<lparr>pw_steps := ss\<rparr>))"

definition poll_stream_flush :: "poll_writer \<Rightarrow> (io_kind, unit) result poll \<times> poll_writer" where
  "poll_stream_flush w =
     (case pw_flushes w of [] \<Rightarrow> (PollReady (Ok ()), w) | p # ps \<Rightarrow> (p, w\<lparr>pw_flushes := ps\<rparr>))"

definition poll_stream_shutdown :: "poll_writer \<Rightarrow> (io_kind, unit) result poll \<times> poll_writer" where
  "poll_stream_shutdown w =
     (case pw_shutdowns w of
        [] \<Rightarrow> (PollReady (Ok ()), w\<lparr>pw_closed := True\<rparr>)
      | p # ps \<Rightarrow> (p, w\<lparr>pw_shutdowns := ps, pw_closed := (p = PollReady (Ok ()) \<or> pw_closed w)\<rparr>))"

section \<open>Reading frames\<close>

record frame_read_state =
  fr_header :: bytes
  fr_header_len :: nat
  fr_payload :: bytes
  fr_payload_len :: "nat option"
  fr_payload_offset :: nat
  fr_ready_payload :: bytes
  fr_ready_payload_offset :: nat

definition frame_read_new :: frame_read_state where
  "frame_read_new =
     \<lparr>fr_header = replicate FRAME_HEADER_LEN (CHR 0x00), fr_header_len = 0, fr_payload = [], fr_payload_len = None,
      fr_payload_offset = 0, fr_ready_payload = [], fr_ready_payload_offset = 0\<rparr>"

text \<open>What reading into \<^verbatim>\<open>buf[off..]\<close> does to the buffer.\<close>

definition fill :: "nat \<Rightarrow> bytes \<Rightarrow> bytes \<Rightarrow> bytes" where
  "fill off bs buf = take off buf @ bs @ drop (off + length bs) buf"

definition set_ready_payload :: "bytes \<Rightarrow> frame_read_state \<Rightarrow> frame_read_state" where
  "set_ready_payload payload st = st\<lparr>fr_ready_payload := payload, fr_ready_payload_offset := 0\<rparr>"

text \<open>\<^verbatim>\<open>copy_ready_payload\<close> into a buffer with \<open>cap\<close> bytes left; \<open>None\<close> is its answer \<^verbatim>\<open>false\<close>.\<close>

definition copy_ready_payload :: "nat \<Rightarrow> frame_read_state \<Rightarrow> bytes option \<times> frame_read_state" where
  "copy_ready_payload cap st =
     (if length (fr_ready_payload st) \<le> fr_ready_payload_offset st
      then (None, st\<lparr>fr_ready_payload := [], fr_ready_payload_offset := 0\<rparr>)
      else
        (let remaining = drop (fr_ready_payload_offset st) (fr_ready_payload st);
             copy_len = min (length remaining) cap
         in (Some (take copy_len remaining), st\<lparr>fr_ready_payload_offset := fr_ready_payload_offset st + copy_len\<rparr>)))"

definition poll_read_header ::
  "frame_read_state \<Rightarrow> poll_reader \<Rightarrow> (io_kind, unit option) result poll \<times> frame_read_state \<times> poll_reader" where
  "poll_read_header st r =
     (case poll_stream_read (FRAME_HEADER_LEN - fr_header_len st) r of
        (PollPending, r') \<Rightarrow> (PollPending, st, r')
      | (PollReady (Err k), r') \<Rightarrow> (PollReady (Err k), st, r')
      | (PollReady (Ok bs), r') \<Rightarrow>
          if bs = [] then
            if fr_header_len st = 0 then (PollReady (Ok None), st, r') else (PollReady (Err UnexpectedEof), st, r')
          else (PollReady (Ok (Some ())),
                st\<lparr>fr_header := fill (fr_header_len st) bs (fr_header st), fr_header_len := fr_header_len st + length bs\<rparr>, r'))"

text \<open>The \<^verbatim>\<open>while\<close> loops of \<^verbatim>\<open>poll_next_frame\<close> and \<^verbatim>\<open>poll_read_payload\<close>.\<close>

lemma poll_read_header_grows:
  "poll_read_header st r = (PollReady (Ok (Some u)), st', r') \<Longrightarrow> fr_header_len st < fr_header_len st'"
  by (auto simp: poll_read_header_def split: prod.splits poll.splits sum.splits if_splits)

function poll_header_loop ::
  "frame_read_state \<Rightarrow> poll_reader \<Rightarrow> (io_kind, unit option) result poll \<times> frame_read_state \<times> poll_reader" where
  "poll_header_loop st r =
     (if FRAME_HEADER_LEN \<le> fr_header_len st then (PollReady (Ok (Some ())), st, r)
      else
        (case poll_read_header st r of
           (PollReady (Ok (Some u)), st', r') \<Rightarrow> poll_header_loop st' r'
         | (p, st', r') \<Rightarrow> (p, st', r')))"
  by pat_completeness auto
termination
  by (relation "measure (\<lambda>(st, r). FRAME_HEADER_LEN - fr_header_len st)")
    (auto dest!: poll_read_header_grows [OF sym])

function poll_read_payload ::
  "nat \<Rightarrow> frame_read_state \<Rightarrow> poll_reader \<Rightarrow> (io_kind, unit) result poll \<times> frame_read_state \<times> poll_reader" where
  "poll_read_payload len st r =
     (if len \<le> fr_payload_offset st then (PollReady (Ok ()), st, r)
      else
        (case poll_stream_read (length (fr_payload st) - fr_payload_offset st) r of
           (PollPending, r') \<Rightarrow> (PollPending, st, r')
         | (PollReady (Err k), r') \<Rightarrow> (PollReady (Err k), st, r')
         | (PollReady (Ok bs), r') \<Rightarrow>
             if bs = [] then (PollReady (Err UnexpectedEof), st, r')
             else poll_read_payload len
                    (st\<lparr>fr_payload := fill (fr_payload_offset st) bs (fr_payload st),
                        fr_payload_offset := fr_payload_offset st + length bs\<rparr>) r'))"
  by pat_completeness auto
termination
  by (relation "measure (\<lambda>(len, st, r). len - fr_payload_offset st)") (auto intro: diff_less_mono2)

declare poll_header_loop.simps [simp del] poll_read_payload.simps [simp del]

definition reset_frame :: "frame_read_state \<Rightarrow> frame_read_state" where
  "reset_frame st =
     st\<lparr>fr_header := replicate FRAME_HEADER_LEN (CHR 0x00), fr_header_len := 0, fr_payload_len := None, fr_payload_offset := 0\<rparr>"

definition start_payload ::
  "'u uuid_crate \<Rightarrow> frame_read_state \<Rightarrow> (io_kind, frame_read_state) result" where
  "start_payload uuids st =
     (if fr_payload_len st = None
      then
        (case frame_payload_len uuids (fr_header st) of
           Err e \<Rightarrow> Err InvalidData
         | Ok len \<Rightarrow>
             Ok (st\<lparr>fr_payload := replicate (unat len) (CHR 0x00), fr_payload_len := Some (unat len), fr_payload_offset := 0\<rparr>))
      else Ok st)"

definition poll_frame_payload ::
  "'u uuid_crate \<Rightarrow> frame_read_state \<Rightarrow> poll_reader
   \<Rightarrow> (io_kind, 'u flow_frame option) result poll \<times> frame_read_state \<times> poll_reader" where
  "poll_frame_payload uuids st r =
     (case poll_read_payload (the (fr_payload_len st)) st r of
        (PollPending, st', r') \<Rightarrow> (PollPending, st', r')
      | (PollReady (Err k), st', r') \<Rightarrow> (PollReady (Err k), st', r')
      | (PollReady (Ok _), st', r') \<Rightarrow>
          (case frame_decode uuids (fr_header st') (fr_payload st') of
             Err e \<Rightarrow> (PollReady (Err InvalidData), st'\<lparr>fr_payload := []\<rparr>, r')
           | Ok frame \<Rightarrow> (PollReady (Ok (Some frame)), reset_frame (st'\<lparr>fr_payload := []\<rparr>), r')))"

definition poll_next_frame ::
  "'u uuid_crate \<Rightarrow> frame_read_state \<Rightarrow> poll_reader
   \<Rightarrow> (io_kind, 'u flow_frame option) result poll \<times> frame_read_state \<times> poll_reader" where
  "poll_next_frame uuids st r =
     (case poll_header_loop st r of
        (PollPending, st1, r1) \<Rightarrow> (PollPending, st1, r1)
      | (PollReady (Err k), st1, r1) \<Rightarrow> (PollReady (Err k), st1, r1)
      | (PollReady (Ok None), st1, r1) \<Rightarrow> (PollReady (Ok None), st1, r1)
      | (PollReady (Ok (Some u)), st1, r1) \<Rightarrow>
          (case start_payload uuids st1 of
             Err k \<Rightarrow> (PollReady (Err k), st1, r1)
           | Ok st2 \<Rightarrow> poll_frame_payload uuids st2 r1))"

section \<open>Writing frames\<close>

record frame_write_state =
  fw_frame :: bytes
  fw_offset :: nat
  fw_consumed_len :: nat
  fw_completed_len :: nat
  fw_shutdown_queued :: bool

definition frame_write_new :: frame_write_state where
  "frame_write_new =
     \<lparr>fw_frame = [], fw_offset = 0, fw_consumed_len = 0, fw_completed_len = 0, fw_shutdown_queued = False\<rparr>"

definition has_pending_frame :: "frame_write_state \<Rightarrow> bool" where
  "has_pending_frame ws \<longleftrightarrow> fw_frame ws \<noteq> []"

definition queue_frame ::
  "'u uuid_crate \<Rightarrow> 'u flow_frame \<Rightarrow> nat \<Rightarrow> frame_write_state \<Rightarrow> (io_kind, frame_write_state) result" where
  "queue_frame uuids frame consumed_len ws =
     (if has_pending_frame ws then Err InvalidData
      else
        (case frame_encode uuids frame of
           Err e \<Rightarrow> Err InvalidData
         | Ok bs \<Rightarrow> Ok (ws\<lparr>fw_frame := bs, fw_offset := 0, fw_consumed_len := consumed_len, fw_completed_len := 0\<rparr>)))"

function poll_drain_loop ::
  "frame_write_state \<Rightarrow> poll_writer \<Rightarrow> (io_kind, unit) result poll \<times> frame_write_state \<times> poll_writer" where
  "poll_drain_loop ws w =
     (if length (fw_frame ws) \<le> fw_offset ws then (PollReady (Ok ()), ws, w)
      else
        (case poll_stream_write (drop (fw_offset ws) (fw_frame ws)) w of
           (PollPending, w') \<Rightarrow> (PollPending, ws, w')
         | (PollReady (Err k), w') \<Rightarrow> (PollReady (Err k), ws, w')
         | (PollReady (Ok n), w') \<Rightarrow>
             if n = 0 then (PollReady (Err WriteZero), ws, w')
             else poll_drain_loop (ws\<lparr>fw_offset := fw_offset ws + n\<rparr>) w'))"
  by pat_completeness auto
termination
  by (relation "measure (\<lambda>(ws, w). length (fw_frame ws) - fw_offset ws)") (auto intro: diff_less_mono2)

declare poll_drain_loop.simps [simp del]

definition poll_drain ::
  "frame_write_state \<Rightarrow> poll_writer \<Rightarrow> (io_kind, unit) result poll \<times> frame_write_state \<times> poll_writer" where
  "poll_drain ws w =
     (case poll_drain_loop ws w of
        (PollReady (Ok u), ws', w') \<Rightarrow>
          (PollReady (Ok ()),
           if fw_frame ws' \<noteq> []
           then ws'\<lparr>fw_frame := [], fw_offset := 0, fw_completed_len := fw_consumed_len ws', fw_consumed_len := 0\<rparr>
           else ws', w')
      | (p, ws', w') \<Rightarrow> (p, ws', w'))"

definition take_completed_len :: "frame_write_state \<Rightarrow> nat \<times> frame_write_state" where
  "take_completed_len ws = (fw_completed_len ws, ws\<lparr>fw_completed_len := 0\<rparr>)"

section \<open>The stream\<close>

record 'u framed_flow_io =
  ff_reader :: poll_reader
  ff_writer :: poll_writer
  ff_flow_id :: 'u
  ff_read_state :: frame_read_state
  ff_write_state :: frame_write_state
  ff_client_input_closed :: bool

definition framed_flow_io_new :: "poll_reader \<Rightarrow> poll_writer \<Rightarrow> 'u \<Rightarrow> 'u framed_flow_io" where
  "framed_flow_io_new r w fid =
     \<lparr>ff_reader = r, ff_writer = w, ff_flow_id = fid, ff_read_state = frame_read_new, ff_write_state = frame_write_new,
      ff_client_input_closed = False\<rparr>"

text \<open>The libraries: UUIDs, and \<^verbatim>\<open>serde_json\<close> on the payload of a \<^verbatim>\<open>FlowClose\<close>.\<close>

record 'u framed_libs =
  fl_uuids :: "'u uuid_crate"
  fl_close_from_slice :: "bytes \<Rightarrow> ('u \<times> string) option"
  fl_close_to_vec :: "'u \<Rightarrow> string \<Rightarrow> bytes option"

definition classify_client_frame ::
  "'u framed_libs \<Rightarrow> 'u \<Rightarrow> 'u flow_frame \<Rightarrow> (io_kind, bytes option) result" where
  "classify_client_frame libs fid frame =
     (if frame_flow_id frame \<noteq> fid then Err InvalidData
      else
        (case (frame_type frame, frame_direction frame) of
           (FrameData, ClientToBroker) \<Rightarrow> Ok (Some (frame_payload frame))
         | (FrameClose, ClientToBroker) \<Rightarrow>
             (case fl_close_from_slice libs (frame_payload frame) of
                None \<Rightarrow> Err InvalidData
              | Some (close_id, reason) \<Rightarrow> if close_id \<noteq> fid then Err InvalidData else Ok None)
         | _ \<Rightarrow> Err InvalidData))"

definition poll_next_client_frame ::
  "'u framed_libs \<Rightarrow> 'u framed_flow_io \<Rightarrow> (io_kind, bytes option) result poll \<times> 'u framed_flow_io" where
  "poll_next_client_frame libs io =
     (if ff_client_input_closed io then (PollReady (Ok None), io)
      else
        (case poll_next_frame (fl_uuids libs) (ff_read_state io) (ff_reader io) of
           (p, st, r) \<Rightarrow>
             (let io' = io\<lparr>ff_read_state := st, ff_reader := r\<rparr> in
              case p of
                PollPending \<Rightarrow> (PollPending, io')
              | PollReady (Err k) \<Rightarrow> (PollReady (Err k), io')
              | PollReady (Ok None) \<Rightarrow> (PollReady (Ok None), io'\<lparr>ff_client_input_closed := True\<rparr>)
              | PollReady (Ok (Some frame)) \<Rightarrow>
                  (case classify_client_frame libs (ff_flow_id io) frame of
                     Err k \<Rightarrow> (PollReady (Err k), io')
                   | Ok (Some payload) \<Rightarrow> (PollReady (Ok (Some payload)), io')
                   | Ok None \<Rightarrow> (PollReady (Ok None), io'\<lparr>ff_client_input_closed := True\<rparr>)))))"

text \<open>Every answer of the socket uses up some of its script, so polling ends.\<close>

lemma poll_stream_read_size:
  "poll_stream_read cap r = (p, r') \<Longrightarrow>
     poll_size r' \<le> poll_size r \<and> (p = PollPending \<longrightarrow> poll_size r' < poll_size r)
   \<and> (\<forall>bs. p = PollReady (Ok bs) \<and> bs \<noteq> [] \<longrightarrow> poll_size r' < poll_size r)"
  by (cases "(cap, r)" rule: poll_stream_read.cases) (auto split: if_splits)

lemma poll_read_header_size:
  "poll_read_header st r = (p, st', r') \<Longrightarrow>
     poll_size r' \<le> poll_size r \<and> (p = PollPending \<longrightarrow> poll_size r' < poll_size r)
   \<and> (\<forall>u. p = PollReady (Ok (Some u)) \<longrightarrow> poll_size r' < poll_size r)"
  using poll_stream_read_size [of "FRAME_HEADER_LEN - fr_header_len st" r]
  by (auto simp: poll_read_header_def split: prod.splits poll.splits sum.splits if_splits)

lemma poll_header_loop_size:
  "poll_header_loop st r = (p, st', r') \<Longrightarrow>
     poll_size r' \<le> poll_size r \<and> (p = PollPending \<longrightarrow> poll_size r' < poll_size r)
   \<and> (\<forall>u. p = PollReady (Ok (Some u)) \<and> fr_header_len st < FRAME_HEADER_LEN \<longrightarrow> poll_size r' < poll_size r)"
proof (induction st r rule: poll_header_loop.induct)
  case (1 st r)
  show ?case
  proof (cases "FRAME_HEADER_LEN \<le> fr_header_len st")
    case True
    with "1.prems" show ?thesis by (auto simp: poll_header_loop.simps)
  next
    case False
    obtain q st1 r1 where h: "poll_read_header st r = (q, st1, r1)" by (cases "poll_read_header st r")
    note size = poll_read_header_size [OF h]
    show ?thesis
    proof (cases "\<exists>u. q = PollReady (Ok (Some u))")
      case True
      then obtain u where u: "q = PollReady (Ok (Some u))" by blast
      with "1.prems" False h have "poll_header_loop st1 r1 = (p, st', r')" by (simp add: poll_header_loop.simps [of st])
      from "1.IH" [OF False h [symmetric] u refl refl refl this] size u show ?thesis by fastforce
    next
      case other: False
      with "1.prems" False h have "(q, st1, r1) = (p, st', r')"
        by (subst (asm) poll_header_loop.simps) (auto split: poll.splits sum.splits option.splits)
      with size other show ?thesis by auto
    qed
  qed
qed

lemma poll_read_payload_size:
  "poll_read_payload len st r = (p, st', r') \<Longrightarrow>
     poll_size r' \<le> poll_size r \<and> (p = PollPending \<longrightarrow> poll_size r' < poll_size r)"
proof (induction len st r rule: poll_read_payload.induct)
  case (1 len st r)
  show ?case
  proof (cases "len \<le> fr_payload_offset st")
    case True
    with "1.prems" show ?thesis by (auto simp: poll_read_payload.simps)
  next
    case False
    obtain q r1 where h: "poll_stream_read (length (fr_payload st) - fr_payload_offset st) r = (q, r1)" by fastforce
    note size = poll_stream_read_size [OF h]
    show ?thesis
    proof (cases "\<exists>bs. q = PollReady (Ok bs) \<and> bs \<noteq> []")
      case True
      then obtain bs where q: "q = PollReady (Ok bs)" "bs \<noteq> []" by blast
      with "1.prems" False h have "poll_read_payload len (st\<lparr>fr_payload := fill (fr_payload_offset st) bs (fr_payload st),
          fr_payload_offset := fr_payload_offset st + length bs\<rparr>) r1 = (p, st', r')"
        by (simp add: poll_read_payload.simps [of len st])
      from "1.IH" [OF False h [symmetric] q(1) refl q(2) this] size show ?thesis by linarith
    next
      case other: False
      with "1.prems" False h size show ?thesis
        by (subst (asm) poll_read_payload.simps) (auto split: poll.splits sum.splits if_splits)
    qed
  qed
qed

lemma poll_next_frame_size:
  assumes "poll_next_frame uuids st r = (p, st', r')"
  shows "poll_size r' \<le> poll_size r" and "p = PollPending \<Longrightarrow> poll_size r' < poll_size r"
    and "p = PollReady (Ok (Some f)) \<Longrightarrow> fr_header_len st' = 0 \<and> (fr_header_len st < FRAME_HEADER_LEN \<longrightarrow> poll_size r' < poll_size r)"
proof -
  obtain q st1 r1 where h: "poll_header_loop st r = (q, st1, r1)" by (cases "poll_header_loop st r")
  note hs = poll_header_loop_size [OF h]
  consider "p = PollPending \<and> q = PollPending \<or> (\<exists>k. p = PollReady (Err k)) \<or> p = PollReady (Ok None)" "r' = r1" "q \<noteq> PollReady (Ok (Some ()))"
    | "\<exists>k. p = PollReady (Err k)" "r' = r1" "q = PollReady (Ok (Some ()))"
    | st2 q2 st3 where "q = PollReady (Ok (Some ()))" "poll_read_payload (the (fr_payload_len st2)) st2 r1 = (q2, st3, r')"
      "p = PollPending \<and> q2 = PollPending \<or> (\<exists>k. p = PollReady (Err k))
       \<or> (\<exists>f. p = PollReady (Ok (Some f))) \<and> fr_header_len st' = 0"
    using assms h
    by (auto simp: poll_next_frame_def poll_frame_payload_def reset_frame_def split: prod.splits poll.splits sum.splits option.splits)
  note cases = this
  show "poll_size r' \<le> poll_size r"
    using cases hs by cases (auto dest: poll_read_payload_size)
  show "p = PollPending \<Longrightarrow> poll_size r' < poll_size r"
    using cases hs by cases (auto dest: poll_read_payload_size)
  show "p = PollReady (Ok (Some f)) \<Longrightarrow> fr_header_len st' = 0 \<and> (fr_header_len st < FRAME_HEADER_LEN \<longrightarrow> poll_size r' < poll_size r)"
    using cases hs by cases (auto dest: poll_read_payload_size)
qed

lemma poll_next_client_frame_size:
  assumes "poll_next_client_frame libs io = (p, io')"
  shows "p = PollPending \<Longrightarrow> poll_size (ff_reader io') < poll_size (ff_reader io)"
    and "p = PollReady (Ok (Some payload)) \<Longrightarrow> fr_header_len (ff_read_state io') = 0
      \<and> poll_size (ff_reader io') \<le> poll_size (ff_reader io)
      \<and> (fr_header_len (ff_read_state io) < FRAME_HEADER_LEN \<longrightarrow> poll_size (ff_reader io') < poll_size (ff_reader io))"
proof -
  obtain q st r where f: "poll_next_frame (fl_uuids libs) (ff_read_state io) (ff_reader io) = (q, st, r)"
    by (cases "poll_next_frame (fl_uuids libs) (ff_read_state io) (ff_reader io)")
  note size = poll_next_frame_size [OF f]
  show "p = PollPending \<Longrightarrow> poll_size (ff_reader io') < poll_size (ff_reader io)"
    using assms f size(2)
    by (auto simp: poll_next_client_frame_def Let_def split: if_splits poll.splits sum.splits option.splits)
  show "p = PollReady (Ok (Some payload)) \<Longrightarrow> fr_header_len (ff_read_state io') = 0
      \<and> poll_size (ff_reader io') \<le> poll_size (ff_reader io)
      \<and> (fr_header_len (ff_read_state io) < FRAME_HEADER_LEN \<longrightarrow> poll_size (ff_reader io') < poll_size (ff_reader io))"
    using assms f size(1,3)
    by (auto simp: poll_next_client_frame_def Let_def split: if_splits poll.splits sum.splits option.splits)
qed

lemma copy_ready_header [simp]:
  "copy_ready_payload cap st = (c, st') \<Longrightarrow> fr_header_len st' = fr_header_len st"
  by (auto simp: copy_ready_payload_def Let_def split: if_splits)

function framed_poll_read ::
  "'u framed_libs \<Rightarrow> nat \<Rightarrow> 'u framed_flow_io \<Rightarrow> (io_kind, bytes) result poll \<times> 'u framed_flow_io" where
  "framed_poll_read libs cap io =
     (case copy_ready_payload cap (ff_read_state io) of
        (Some bs, st) \<Rightarrow> (PollReady (Ok bs), io\<lparr>ff_read_state := st\<rparr>)
      | (None, st) \<Rightarrow>
          if cap = 0 then (PollReady (Ok []), io\<lparr>ff_read_state := st\<rparr>)
          else
            (case poll_next_client_frame libs (io\<lparr>ff_read_state := st\<rparr>) of
               (PollPending, io') \<Rightarrow> (PollPending, io')
             | (PollReady (Err k), io') \<Rightarrow> (PollReady (Err k), io')
             | (PollReady (Ok None), io') \<Rightarrow> (PollReady (Ok []), io')
             | (PollReady (Ok (Some payload)), io') \<Rightarrow>
                 framed_poll_read libs cap (io'\<lparr>ff_read_state := set_ready_payload payload (ff_read_state io')\<rparr>)))"
  by pat_completeness auto
termination
proof (relation "inv_image (less_than <*lex*> less_than)
    (\<lambda>(libs, cap, io). (poll_size (ff_reader io), fr_header_len (ff_read_state io)))")
  fix libs cap io c st x y x2 b z
  assume a: "(c, st) = copy_ready_payload cap (ff_read_state io)"
    and "(x, y) = poll_next_client_frame libs (io\<lparr>ff_read_state := st\<rparr>)" "x = PollReady x2" "x2 = Ok b" "b = Some z"
  then have f: "poll_next_client_frame libs (io\<lparr>ff_read_state := st\<rparr>) = (PollReady (Ok (Some z)), y)" by simp
  have "fr_header_len st = fr_header_len (ff_read_state io)" using copy_ready_header [OF a [symmetric]] .
  with poll_next_client_frame_size(2) [OF f refl]
  show "((libs, cap, y\<lparr>ff_read_state := set_ready_payload z (ff_read_state y)\<rparr>), libs, cap, io)
      \<in> inv_image (less_than <*lex*> less_than) (\<lambda>(libs, cap, io). (poll_size (ff_reader io), fr_header_len (ff_read_state io)))"
    by (cases "fr_header_len st < FRAME_HEADER_LEN") (auto simp: set_ready_payload_def FRAME_HEADER_LEN_def le_less)
qed (simp add: wf_lex_prod)

declare framed_poll_read.simps [simp del]

definition WRITE_FRAME_PAYLOAD_CAP :: nat where
  "WRITE_FRAME_PAYLOAD_CAP = 64 * 1024"

definition drain_write ::
  "frame_write_state \<Rightarrow> 'u framed_flow_io \<Rightarrow> (io_kind, nat) result poll \<times> 'u framed_flow_io" where
  "drain_write ws io =
     (case poll_drain ws (ff_writer io) of
        (PollPending, ws', w) \<Rightarrow> (PollPending, io\<lparr>ff_write_state := ws', ff_writer := w\<rparr>)
      | (PollReady (Err k), ws', w) \<Rightarrow> (PollReady (Err k), io\<lparr>ff_write_state := ws', ff_writer := w\<rparr>)
      | (PollReady (Ok u), ws', w) \<Rightarrow>
          (case take_completed_len ws' of
             (n, ws'') \<Rightarrow> (PollReady (Ok n), io\<lparr>ff_write_state := ws'', ff_writer := w\<rparr>)))"

definition framed_poll_write ::
  "'u framed_libs \<Rightarrow> bytes \<Rightarrow> 'u framed_flow_io \<Rightarrow> (io_kind, nat) result poll \<times> 'u framed_flow_io" where
  "framed_poll_write libs buffer io =
     (if buffer = [] then (PollReady (Ok 0), io)
      else if has_pending_frame (ff_write_state io) then drain_write (ff_write_state io) io
      else
        (let payload_len = min (length buffer) WRITE_FRAME_PAYLOAD_CAP;
             frame = broker_to_client (ff_flow_id io) (take payload_len buffer)
         in case queue_frame (fl_uuids libs) frame payload_len (ff_write_state io) of
              Err k \<Rightarrow> (PollReady (Err k), io)
            | Ok ws \<Rightarrow> drain_write ws io))"

definition framed_poll_flush :: "'u framed_flow_io \<Rightarrow> (io_kind, unit) result poll \<times> 'u framed_flow_io" where
  "framed_poll_flush io =
     (case poll_drain (ff_write_state io) (ff_writer io) of
        (PollPending, ws, w) \<Rightarrow> (PollPending, io\<lparr>ff_write_state := ws, ff_writer := w\<rparr>)
      | (PollReady (Err k), ws, w) \<Rightarrow> (PollReady (Err k), io\<lparr>ff_write_state := ws, ff_writer := w\<rparr>)
      | (PollReady (Ok u), ws, w) \<Rightarrow>
          (case poll_stream_flush w of (p, w') \<Rightarrow> (p, io\<lparr>ff_write_state := ws, ff_writer := w'\<rparr>)))"

definition queue_close ::
  "'u framed_libs \<Rightarrow> 'u framed_flow_io \<Rightarrow> (io_kind, frame_write_state) result" where
  "queue_close libs io =
     (if fw_shutdown_queued (ff_write_state io) then Ok (ff_write_state io)
      else
        (case broker_to_client_eof (fl_close_to_vec libs) (ff_flow_id io) ''core_shutdown'' of
           Err e \<Rightarrow> Err InvalidData
         | Ok close \<Rightarrow>
             (case queue_frame (fl_uuids libs) close 0 (ff_write_state io) of
                Err k \<Rightarrow> Err k
              | Ok ws \<Rightarrow> Ok (ws\<lparr>fw_shutdown_queued := True\<rparr>))))"

definition framed_poll_shutdown ::
  "'u framed_libs \<Rightarrow> 'u framed_flow_io \<Rightarrow> (io_kind, unit) result poll \<times> 'u framed_flow_io" where
  "framed_poll_shutdown libs io =
     (case queue_close libs io of
        Err k \<Rightarrow> (PollReady (Err k), io)
      | Ok ws \<Rightarrow>
          (case poll_drain ws (ff_writer io) of
             (PollPending, ws', w) \<Rightarrow> (PollPending, io\<lparr>ff_write_state := ws', ff_writer := w\<rparr>)
           | (PollReady (Err k), ws', w) \<Rightarrow> (PollReady (Err k), io\<lparr>ff_write_state := ws', ff_writer := w\<rparr>)
           | (PollReady (Ok u), ws', w) \<Rightarrow>
               (case poll_stream_shutdown w of (p, w') \<Rightarrow> (p, io\<lparr>ff_write_state := ws', ff_writer := w'\<rparr>))))"

text \<open>An awaited read: polled until it is ready.\<close>

lemma framed_poll_read_pending:
  "framed_poll_read libs cap io = (PollPending, io') \<Longrightarrow> poll_size (ff_reader io') < poll_size (ff_reader io)"
proof (induction libs cap io rule: framed_poll_read.induct)
  case (1 libs cap io)
  obtain st q io1 where c: "copy_ready_payload cap (ff_read_state io) = (None, st)" "cap \<noteq> 0"
    and f: "poll_next_client_frame libs (io\<lparr>ff_read_state := st\<rparr>) = (q, io1)"
    using "1.prems" by (subst (asm) framed_poll_read.simps) (auto split: prod.splits option.splits if_splits)
  show ?case
  proof (cases "\<exists>payload. q = PollReady (Ok (Some payload))")
    case True
    then obtain payload where q: "q = PollReady (Ok (Some payload))" by blast
    let ?io = "io1\<lparr>ff_read_state := set_ready_payload payload (ff_read_state io1)\<rparr>"
    have "framed_poll_read libs cap ?io = (PollPending, io')"
      using "1.prems" c f q by (simp add: framed_poll_read.simps [of libs cap io])
    from "1.IH" [OF c(1) [symmetric] refl c(2) f [symmetric] q refl refl this]
      poll_next_client_frame_size(2) [OF f q]
    show ?thesis by simp
  next
    case False
    with "1.prems" c f have "q = PollPending" "io1 = io'"
      by (subst (asm) framed_poll_read.simps, auto split: poll.splits sum.splits option.splits)+
    with poll_next_client_frame_size(1) [OF f] show ?thesis by simp
  qed
qed

function framed_read ::
  "'u framed_libs \<Rightarrow> nat \<Rightarrow> 'u framed_flow_io \<Rightarrow> (io_kind, bytes) result \<times> 'u framed_flow_io" where
  "framed_read libs cap io =
     (case framed_poll_read libs cap io of
        (PollReady res, io') \<Rightarrow> (res, io')
      | (PollPending, io') \<Rightarrow> framed_read libs cap io')"
  by pat_completeness auto
termination
  by (relation "measure (\<lambda>(libs, cap, io). poll_size (ff_reader io))") (auto dest: framed_poll_read_pending [OF sym])

declare framed_read.simps [simp del]

text \<open>Awaited writes and shutdowns: polled with the same arguments until they are ready.\<close>

lemma poll_drain_loop_steps:
  "poll_drain_loop ws w = (p, ws', w') \<Longrightarrow>
     length (pw_steps w') \<le> length (pw_steps w) \<and> (p = PollPending \<longrightarrow> length (pw_steps w') < length (pw_steps w))
   \<and> pw_shutdowns w' = pw_shutdowns w"
proof (induction ws w rule: poll_drain_loop.induct)
  case (1 ws w)
  show ?case
  proof (cases "length (fw_frame ws) \<le> fw_offset ws")
    case True
    with "1.prems" show ?thesis by (auto simp: poll_drain_loop.simps)
  next
    case False
    obtain q w1 where s: "poll_stream_write (drop (fw_offset ws) (fw_frame ws)) w = (q, w1)" by fastforce
    then have steps: "length (pw_steps w1) \<le> length (pw_steps w) \<and> (q = PollPending \<longrightarrow> length (pw_steps w1) < length (pw_steps w))
       \<and> pw_shutdowns w1 = pw_shutdowns w"
      by (auto simp: poll_stream_write_def split: list.splits poll_write_step.splits)
    show ?thesis
    proof (cases "\<exists>n. q = PollReady (Ok n) \<and> n \<noteq> 0")
      case True
      then obtain n where q: "q = PollReady (Ok n)" "n \<noteq> 0" by blast
      with "1.prems" False s have "poll_drain_loop (ws\<lparr>fw_offset := fw_offset ws + n\<rparr>) w1 = (p, ws', w')"
        by (simp add: poll_drain_loop.simps [of ws])
      from "1.IH" [OF False s [symmetric] q(1) refl q(2) this] steps show ?thesis by auto
    next
      case other: False
      with "1.prems" False s steps show ?thesis
        by (subst (asm) poll_drain_loop.simps) (auto split: poll.splits sum.splits if_splits)
    qed
  qed
qed

lemma poll_drain_steps:
  "poll_drain ws w = (p, ws', w') \<Longrightarrow>
     length (pw_steps w') \<le> length (pw_steps w) \<and> (p = PollPending \<longrightarrow> length (pw_steps w') < length (pw_steps w))
   \<and> pw_shutdowns w' = pw_shutdowns w"
  by (cases "poll_drain_loop ws w")
    (auto simp: poll_drain_def dest: poll_drain_loop_steps split: poll.splits sum.splits)

lemma framed_poll_write_pending:
  "framed_poll_write libs buffer io = (PollPending, io') \<Longrightarrow>
     length (pw_steps (ff_writer io')) < length (pw_steps (ff_writer io))"
  by (auto simp: framed_poll_write_def drain_write_def take_completed_len_def Let_def dest: poll_drain_steps
      split: if_splits prod.splits poll.splits sum.splits)

function framed_write ::
  "'u framed_libs \<Rightarrow> bytes \<Rightarrow> 'u framed_flow_io \<Rightarrow> (io_kind, nat) result \<times> 'u framed_flow_io" where
  "framed_write libs buffer io =
     (case framed_poll_write libs buffer io of
        (PollReady res, io') \<Rightarrow> (res, io')
      | (PollPending, io') \<Rightarrow> framed_write libs buffer io')"
  by pat_completeness auto
termination
  by (relation "measure (\<lambda>(libs, buffer, io). length (pw_steps (ff_writer io)))")
    (auto dest: framed_poll_write_pending [OF sym])

declare framed_write.simps [simp del]

function framed_write_all ::
  "'u framed_libs \<Rightarrow> bytes \<Rightarrow> 'u framed_flow_io \<Rightarrow> (io_kind, unit) result \<times> 'u framed_flow_io" where
  "framed_write_all libs buffer io =
     (if buffer = [] then (Ok (), io)
      else
        (case framed_write libs buffer io of
           (Err k, io') \<Rightarrow> (Err k, io')
         | (Ok n, io') \<Rightarrow> if n = 0 then (Err WriteZero, io') else framed_write_all libs (drop n buffer) io'))"
  by pat_completeness auto
termination
  by (relation "measure (\<lambda>(libs, buffer, io). length buffer)") auto

declare framed_write_all.simps [simp del]

lemma framed_poll_shutdown_pending:
  "framed_poll_shutdown libs io = (PollPending, io') \<Longrightarrow>
     length (pw_steps (ff_writer io')) + length (pw_shutdowns (ff_writer io'))
       < length (pw_steps (ff_writer io)) + length (pw_shutdowns (ff_writer io))"
proof -
  assume "framed_poll_shutdown libs io = (PollPending, io')"
  then obtain ws p ws' w where d: "poll_drain ws (ff_writer io) = (p, ws', w)"
    and r: "p = PollPending \<and> ff_writer io' = w
       \<or> (\<exists>u. p = PollReady (Ok u)) \<and> poll_stream_shutdown w = (PollPending, ff_writer io')"
    by (auto simp: framed_poll_shutdown_def split: sum.splits prod.splits poll.splits)
  note D = poll_drain_steps [OF d]
  from r show ?thesis
  proof
    assume "p = PollPending \<and> ff_writer io' = w"
    with D show ?thesis by simp
  next
    assume "(\<exists>u. p = PollReady (Ok u)) \<and> poll_stream_shutdown w = (PollPending, ff_writer io')"
    then have "pw_steps (ff_writer io') = pw_steps w" "length (pw_shutdowns (ff_writer io')) < length (pw_shutdowns w)"
      by (auto simp: poll_stream_shutdown_def dest: sym split: list.splits)
    with D show ?thesis by simp
  qed
qed

function framed_shutdown ::
  "'u framed_libs \<Rightarrow> 'u framed_flow_io \<Rightarrow> (io_kind, unit) result \<times> 'u framed_flow_io" where
  "framed_shutdown libs io =
     (case framed_poll_shutdown libs io of
        (PollReady res, io') \<Rightarrow> (res, io')
      | (PollPending, io') \<Rightarrow> framed_shutdown libs io')"
  by pat_completeness auto
termination
  by (relation "measure (\<lambda>(libs, io). length (pw_steps (ff_writer io)) + length (pw_shutdowns (ff_writer io)))")
    (auto dest: framed_poll_shutdown_pending [OF sym])

declare framed_shutdown.simps [simp del]

end
