(* ===== verification/Framed_Props.thy ===== *)
theory Framed_Props
  imports Framed_Io Read_Sequence
begin

text \<open>
  The framed stream is a byte stream: its reads deliver exactly the payloads of the client's data frames, in order, for
  every segmentation of the connection and wherever it is not ready; its writes put exactly one well-formed frame per
  chunk on the wire.
\<close>

section \<open>What a client's bytes mean\<close>

function frames_content :: "'u framed_libs \<Rightarrow> 'u \<Rightarrow> bytes \<Rightarrow> bytes" where
  "frames_content libs fid bs =
     (if length bs < FRAME_HEADER_LEN then []
      else
        (case frame_payload_len (fl_uuids libs) (take FRAME_HEADER_LEN bs) of
           Err e \<Rightarrow> []
         | Ok len \<Rightarrow>
             if length bs < FRAME_HEADER_LEN + unat len then []
             else
               (case frame_decode (fl_uuids libs) (take FRAME_HEADER_LEN bs) (take (unat len) (drop FRAME_HEADER_LEN bs)) of
                  Err e \<Rightarrow> []
                | Ok frame \<Rightarrow>
                    (case classify_client_frame libs fid frame of
                       Ok (Some payload) \<Rightarrow> payload @ frames_content libs fid (drop (FRAME_HEADER_LEN + unat len) bs)
                     | _ \<Rightarrow> []))))"
  by pat_completeness auto
termination
  by (relation "measure (\<lambda>(libs, fid, bs). length bs)") (auto simp: FRAME_HEADER_LEN_def)

declare frames_content.simps [simp del]

definition buffered :: "frame_read_state \<Rightarrow> bytes" where
  "buffered st = take (fr_header_len st) (fr_header st) @ take (fr_payload_offset st) (fr_payload st)"

definition frame_read_ok :: "'u uuid_crate \<Rightarrow> frame_read_state \<Rightarrow> bool" where
  "frame_read_ok uuids st \<longleftrightarrow>
     length (fr_header st) = FRAME_HEADER_LEN \<and> fr_header_len st \<le> FRAME_HEADER_LEN
   \<and> (case fr_payload_len st of
        None \<Rightarrow> fr_payload_offset st = 0
      | Some len \<Rightarrow> fr_header_len st = FRAME_HEADER_LEN \<and> map_sum id unat (frame_payload_len uuids (fr_header st)) = Ok len
          \<and> length (fr_payload st) = len \<and> fr_payload_offset st \<le> len)"

section \<open>One poll of the socket\<close>

lemma poll_stream_read_incoming:
  assumes "poll_stream_read cap r = (p, r')" and "0 < cap"
  shows "case p of
      PollPending \<Rightarrow> poll_incoming r' = poll_incoming r
    | PollReady (Err k) \<Rightarrow> poll_incoming r = []
    | PollReady (Ok bs) \<Rightarrow> if bs = [] then poll_incoming r = [] else poll_incoming r = bs @ poll_incoming r' \<and> length bs \<le> cap"
  using assms by (cases "(cap, r)" rule: poll_stream_read.cases) (auto split: if_splits)

lemma fill_take: "off + length bs \<le> length buf \<Longrightarrow> take (off + length bs) (fill off bs buf) = take off buf @ bs"
  by (simp add: fill_def)

lemma fill_length: "off + length bs \<le> length buf \<Longrightarrow> length (fill off bs buf) = length buf"
  by (simp add: fill_def)

lemma poll_header_loop_buffered:
  "\<lbrakk>frame_read_ok uuids st; poll_header_loop st r = (p, st', r')\<rbrakk> \<Longrightarrow>
     frame_read_ok uuids st' \<and> fr_ready_payload st' = fr_ready_payload st
   \<and> fr_ready_payload_offset st' = fr_ready_payload_offset st
   \<and> (case p of
        PollPending \<Rightarrow> buffered st' @ poll_incoming r' = buffered st @ poll_incoming r
      | PollReady (Err k) \<Rightarrow> length (buffered st @ poll_incoming r) < FRAME_HEADER_LEN
      | PollReady (Ok None) \<Rightarrow> buffered st @ poll_incoming r = []
      | PollReady (Ok (Some u)) \<Rightarrow> buffered st' @ poll_incoming r' = buffered st @ poll_incoming r
          \<and> fr_header_len st' = FRAME_HEADER_LEN)"
proof (induction st r rule: poll_header_loop.induct)
  case (1 st r)
  show ?case
  proof (cases "FRAME_HEADER_LEN \<le> fr_header_len st")
    case True
    with "1.prems" show ?thesis by (auto simp: poll_header_loop.simps frame_read_ok_def)
  next
    case False
    then have none: "fr_payload_len st = None" "fr_payload_offset st = 0" "length (fr_header st) = FRAME_HEADER_LEN"
      using "1.prems"(1) by (auto simp: frame_read_ok_def split: option.splits)
    then have buf: "buffered st = take (fr_header_len st) (fr_header st)" "length (buffered st) = fr_header_len st"
      using False by (simp_all add: buffered_def)
    let ?cap = "FRAME_HEADER_LEN - fr_header_len st"
    obtain q r1 where s: "poll_stream_read ?cap r = (q, r1)" by fastforce
    note inc = poll_stream_read_incoming [OF s]
    show ?thesis
    proof (cases "\<exists>bs. q = PollReady (Ok bs) \<and> bs \<noteq> []")
      case True
      then obtain bs where q: "q = PollReady (Ok bs)" "bs \<noteq> []" by blast
      with inc False have bs: "poll_incoming r = bs @ poll_incoming r1" "length bs \<le> ?cap" by auto
      let ?st = "st\<lparr>fr_header := fill (fr_header_len st) bs (fr_header st), fr_header_len := fr_header_len st + length bs\<rparr>"
      have h: "poll_read_header st r = (PollReady (Ok (Some ())), ?st, r1)"
        using s q by (simp add: poll_read_header_def)
      with "1.prems"(2) False have rec: "poll_header_loop ?st r1 = (p, st', r')"
        by (simp add: poll_header_loop.simps [of st])
      have ok: "frame_read_ok uuids ?st" "buffered ?st @ poll_incoming r1 = buffered st @ poll_incoming r"
        using none bs False by (simp_all add: frame_read_ok_def buffered_def fill_take fill_length)
      from "1.IH" [OF False h [symmetric] refl refl refl refl ok(1) rec] show ?thesis
        unfolding ok(2) by simp
    next
      case other: False
      with "1.prems" False s inc buf show ?thesis
        by (subst (asm) poll_header_loop.simps)
          (auto simp: poll_read_header_def split: poll.splits sum.splits if_splits)
    qed
  qed
qed

lemma poll_read_payload_buffered:
  "\<lbrakk>frame_read_ok uuids st; fr_payload_len st = Some len; poll_read_payload len st r = (p, st', r')\<rbrakk> \<Longrightarrow>
     frame_read_ok uuids st' \<and> fr_payload_len st' = Some len \<and> fr_header st' = fr_header st
   \<and> fr_ready_payload st' = fr_ready_payload st \<and> fr_ready_payload_offset st' = fr_ready_payload_offset st
   \<and> (case p of
        PollPending \<Rightarrow> buffered st' @ poll_incoming r' = buffered st @ poll_incoming r
      | PollReady (Err k) \<Rightarrow> length (buffered st @ poll_incoming r) < FRAME_HEADER_LEN + len
      | PollReady (Ok u) \<Rightarrow> buffered st' @ poll_incoming r' = buffered st @ poll_incoming r \<and> fr_payload_offset st' = len)"
proof (induction len st r rule: poll_read_payload.induct)
  case (1 len st r)
  then have pre: "fr_header_len st = FRAME_HEADER_LEN" "length (fr_header st) = FRAME_HEADER_LEN"
    "length (fr_payload st) = len" "fr_payload_offset st \<le> len"
    by (auto simp: frame_read_ok_def)
  show ?case
  proof (cases "len \<le> fr_payload_offset st")
    case True
    with "1.prems" pre show ?thesis by (auto simp: poll_read_payload.simps)
  next
    case False
    obtain q r1 where s: "poll_stream_read (length (fr_payload st) - fr_payload_offset st) r = (q, r1)" by fastforce
    note inc = poll_stream_read_incoming [OF s]
    have len: "length (buffered st) = FRAME_HEADER_LEN + fr_payload_offset st" using pre by (simp add: buffered_def)
    show ?thesis
    proof (cases "\<exists>bs. q = PollReady (Ok bs) \<and> bs \<noteq> []")
      case True
      then obtain bs where q: "q = PollReady (Ok bs)" "bs \<noteq> []" by blast
      with inc False pre have bs: "poll_incoming r = bs @ poll_incoming r1" "length bs \<le> len - fr_payload_offset st" by auto
      let ?st = "st\<lparr>fr_payload := fill (fr_payload_offset st) bs (fr_payload st), fr_payload_offset := fr_payload_offset st + length bs\<rparr>"
      from "1.prems"(3) False s q have rec: "poll_read_payload len ?st r1 = (p, st', r')"
        by (simp add: poll_read_payload.simps [of len st])
      have ok: "frame_read_ok uuids ?st" "buffered ?st @ poll_incoming r1 = buffered st @ poll_incoming r"
        using "1.prems"(1,2) pre bs False by (simp_all add: frame_read_ok_def buffered_def fill_take fill_length)
      from "1.IH" [OF False s [symmetric] q(1) refl q(2) ok(1) _ rec] show ?thesis
        unfolding ok(2) using "1.prems"(2) by simp
    next
      case other: False
      with "1.prems" False s inc pre len show ?thesis
        by (subst (asm) poll_read_payload.simps) (auto split: poll.splits sum.splits if_splits)
    qed
  qed
qed

lemma start_payload_ok:
  assumes "frame_read_ok uuids st" and "fr_header_len st = FRAME_HEADER_LEN" and "start_payload uuids st = Ok st'"
  shows "frame_read_ok uuids st' \<and> buffered st' = buffered st \<and> fr_header st' = fr_header st
    \<and> fr_ready_payload st' = fr_ready_payload st \<and> fr_ready_payload_offset st' = fr_ready_payload_offset st
    \<and> (\<exists>len. fr_payload_len st' = Some (unat len) \<and> frame_payload_len uuids (fr_header st) = Ok len)"
proof (cases "fr_payload_len st")
  case None
  with assms show ?thesis
    by (auto simp: start_payload_def frame_read_ok_def buffered_def split: sum.splits)
next
  case (Some len)
  with assms have "map_sum id unat (frame_payload_len uuids (fr_header st)) = Ok len" by (simp add: frame_read_ok_def)
  then show ?thesis
    using assms Some by (cases "frame_payload_len uuids (fr_header st)") (auto simp: start_payload_def)
qed

lemma buffered_header:
  "frame_read_ok uuids st \<Longrightarrow> fr_header_len st = FRAME_HEADER_LEN \<Longrightarrow> take FRAME_HEADER_LEN (buffered st @ xs) = fr_header st"
  by (simp add: frame_read_ok_def buffered_def)

lemma frame_decode_total:
  "frame_payload_len uuids header = Ok len \<Longrightarrow> \<exists>frame. frame_decode uuids header payload = Ok frame"
  by (auto simp: frame_payload_len_Ok frame_decode_def)

text \<open>What one call of \<^verbatim>\<open>poll_next_frame\<close> does to the bytes that were still to come.\<close>

definition frame_taken :: "'u uuid_crate \<Rightarrow> bytes \<Rightarrow> 'u flow_frame \<Rightarrow> bytes \<Rightarrow> bool" where
  "frame_taken uuids before frame after \<longleftrightarrow>
     (\<exists>len. frame_payload_len uuids (take FRAME_HEADER_LEN before) = Ok len
        \<and> FRAME_HEADER_LEN + unat len \<le> length before
        \<and> frame_decode uuids (take FRAME_HEADER_LEN before) (take (unat len) (drop FRAME_HEADER_LEN before)) = Ok frame
        \<and> after = drop (FRAME_HEADER_LEN + unat len) before)"

definition frame_cut :: "'u uuid_crate \<Rightarrow> bytes \<Rightarrow> bool" where
  "frame_cut uuids bs \<longleftrightarrow>
     length bs < FRAME_HEADER_LEN
   \<or> (case frame_payload_len uuids (take FRAME_HEADER_LEN bs) of
        Err e \<Rightarrow> True | Ok len \<Rightarrow> length bs < FRAME_HEADER_LEN + unat len)"

lemma poll_frame_payload_buffered:
  assumes ok: "frame_read_ok uuids st" and len: "fr_payload_len st = Some (unat len)"
    and header: "frame_payload_len uuids (fr_header st) = Ok len" and run: "poll_frame_payload uuids st r = (p, st', r')"
  shows "frame_read_ok uuids st' \<and> fr_ready_payload st' = fr_ready_payload st
    \<and> fr_ready_payload_offset st' = fr_ready_payload_offset st
    \<and> (case p of
         PollPending \<Rightarrow> buffered st' @ poll_incoming r' = buffered st @ poll_incoming r
       | PollReady (Err k) \<Rightarrow> frame_cut uuids (buffered st @ poll_incoming r)
       | PollReady (Ok None) \<Rightarrow> buffered st @ poll_incoming r = []
       | PollReady (Ok (Some frame)) \<Rightarrow>
           frame_taken uuids (buffered st @ poll_incoming r) frame (buffered st' @ poll_incoming r'))"
proof -
  let ?all = "buffered st @ poll_incoming r"
  obtain q st1 r1 where pl: "poll_read_payload (unat len) st r = (q, st1, r1)"
    by (cases "poll_read_payload (unat len) st r")
  note P = poll_read_payload_buffered [OF ok len pl]
  have hl: "fr_header_len st = FRAME_HEADER_LEN" using ok len by (simp add: frame_read_ok_def)
  have head: "take FRAME_HEADER_LEN ?all = fr_header st" by (rule buffered_header [OF ok hl])
  show ?thesis
  proof (cases "\<exists>u. q = PollReady (Ok u)")
    case False
    with run pl P len header head show ?thesis
      by (auto simp: poll_frame_payload_def frame_cut_def split: poll.splits sum.splits)
  next
    case True
    obtain frame where dec: "frame_decode uuids (fr_header st1) (fr_payload st1) = Ok frame"
      using frame_decode_total header P by metis
    with True run pl len have res: "p = PollReady (Ok (Some frame))" "st' = reset_frame (st1\<lparr>fr_payload := []\<rparr>)" "r' = r1"
      by (auto simp: poll_frame_payload_def)
    have st1: "length (fr_header st1) = FRAME_HEADER_LEN" "fr_header_len st1 = FRAME_HEADER_LEN"
      "length (fr_payload st1) = unat len" "fr_payload_offset st1 = unat len" "fr_header st1 = fr_header st"
      "buffered st1 @ poll_incoming r1 = ?all"
      using P True by (auto simp: frame_read_ok_def)
    then have "?all = fr_header st @ fr_payload st1 @ poll_incoming r1" by (auto simp: buffered_def)
    then have "frame_taken uuids ?all frame (poll_incoming r1)"
      using header head dec st1 by (auto simp: frame_taken_def intro!: exI [of _ len])
    moreover have "buffered st' = []" "frame_read_ok uuids st'"
      by (simp_all add: res buffered_def reset_frame_def frame_read_ok_def)
    ultimately show ?thesis using P by (simp add: res reset_frame_def)
  qed
qed

lemma poll_next_frame_buffered:
  assumes ok: "frame_read_ok uuids st" and run: "poll_next_frame uuids st r = (p, st', r')"
  shows "frame_read_ok uuids st' \<and> fr_ready_payload st' = fr_ready_payload st
    \<and> fr_ready_payload_offset st' = fr_ready_payload_offset st
    \<and> (case p of
         PollPending \<Rightarrow> buffered st' @ poll_incoming r' = buffered st @ poll_incoming r
       | PollReady (Err k) \<Rightarrow> frame_cut uuids (buffered st @ poll_incoming r)
       | PollReady (Ok None) \<Rightarrow> buffered st @ poll_incoming r = []
       | PollReady (Ok (Some frame)) \<Rightarrow>
           frame_taken uuids (buffered st @ poll_incoming r) frame (buffered st' @ poll_incoming r'))"
proof -
  let ?all = "buffered st @ poll_incoming r"
  obtain q st1 r1 where h: "poll_header_loop st r = (q, st1, r1)" by (cases "poll_header_loop st r")
  note H = poll_header_loop_buffered [OF ok h]
  show ?thesis
  proof (cases "\<exists>u. q = PollReady (Ok (Some u))")
    case False
    with run h H show ?thesis
      by (auto simp: poll_next_frame_def frame_cut_def split: poll.splits sum.splits option.splits)
  next
    case True
    then have q: "q = PollReady (Ok (Some ()))" by simp
    with H have st1: "frame_read_ok uuids st1" "fr_header_len st1 = FRAME_HEADER_LEN" "buffered st1 @ poll_incoming r1 = ?all"
      by auto
    have header: "fr_header st1 = take FRAME_HEADER_LEN ?all"
      using buffered_header [OF st1(1,2)] st1(3) by metis
    show ?thesis
    proof (cases "start_payload uuids st1")
      case (Inl k)
      with run h q have "p = PollReady (Err k)" "st' = st1" by (auto simp: poll_next_frame_def)
      moreover have "frame_cut uuids ?all"
        using Inl header by (auto simp: start_payload_def frame_cut_def split: if_splits sum.splits)
      ultimately show ?thesis using H q by simp
    next
      case (Inr st2)
      note S = start_payload_ok [OF st1(1,2) Inr]
      then obtain len where len: "fr_payload_len st2 = Some (unat len)" "frame_payload_len uuids (fr_header st2) = Ok len"
        and st2: "frame_read_ok uuids st2" "buffered st2 = buffered st1" by auto
      have "poll_frame_payload uuids st2 r1 = (p, st', r')" using run h q Inr by (simp add: poll_next_frame_def)
      from poll_frame_payload_buffered [OF st2(1) len this] S H q show ?thesis
        unfolding st2(2) st1(3) by simp
    qed
  qed
qed

section \<open>The stream as a byte source\<close>

definition framed_content :: "'u framed_libs \<Rightarrow> 'u framed_flow_io \<Rightarrow> bytes" where
  "framed_content libs io =
     drop (fr_ready_payload_offset (ff_read_state io)) (fr_ready_payload (ff_read_state io))
     @ (if ff_client_input_closed io then []
        else frames_content libs (ff_flow_id io) (buffered (ff_read_state io) @ poll_incoming (ff_reader io)))"

definition framed_ok :: "'u framed_libs \<Rightarrow> 'u framed_flow_io \<Rightarrow> bool" where
  "framed_ok libs io \<longleftrightarrow> frame_read_ok (fl_uuids libs) (ff_read_state io)"

lemma frames_content_cut: "frame_cut (fl_uuids libs) bs \<Longrightarrow> frames_content libs fid bs = []"
  by (auto simp: frames_content.simps [of libs fid bs] frame_cut_def split: sum.splits)

lemma frames_content_taken:
  "frame_taken (fl_uuids libs) bs frame rest \<Longrightarrow>
     frames_content libs fid bs =
       (case classify_client_frame libs fid frame of Ok (Some payload) \<Rightarrow> payload @ frames_content libs fid rest | _ \<Rightarrow> [])"
  by (auto simp: frames_content.simps [of libs fid bs] frame_taken_def)

text \<open>Everything but the ready payload.\<close>

definition unread_frames :: "'u framed_libs \<Rightarrow> 'u framed_flow_io \<Rightarrow> bytes" where
  "unread_frames libs io =
     (if ff_client_input_closed io then []
      else frames_content libs (ff_flow_id io) (buffered (ff_read_state io) @ poll_incoming (ff_reader io)))"

lemma poll_next_client_frame_content:
  assumes ok: "framed_ok libs io" and run: "poll_next_client_frame libs io = (p, io')"
  shows "framed_ok libs io' \<and> ff_flow_id io' = ff_flow_id io
    \<and> fr_ready_payload (ff_read_state io') = fr_ready_payload (ff_read_state io)
    \<and> fr_ready_payload_offset (ff_read_state io') = fr_ready_payload_offset (ff_read_state io)
    \<and> (case p of
         PollPending \<Rightarrow> unread_frames libs io' = unread_frames libs io
       | PollReady (Err k) \<Rightarrow> unread_frames libs io = []
       | PollReady (Ok None) \<Rightarrow> unread_frames libs io = [] \<and> unread_frames libs io' = []
       | PollReady (Ok (Some payload)) \<Rightarrow> unread_frames libs io = payload @ unread_frames libs io')"
proof (cases "ff_client_input_closed io")
  case True
  with assms show ?thesis by (auto simp: poll_next_client_frame_def unread_frames_def)
next
  case False
  obtain q st r where f: "poll_next_frame (fl_uuids libs) (ff_read_state io) (ff_reader io) = (q, st, r)"
    by (cases "poll_next_frame (fl_uuids libs) (ff_read_state io) (ff_reader io)")
  note N = poll_next_frame_buffered [OF ok [unfolded framed_ok_def] f]
  let ?all = "buffered (ff_read_state io) @ poll_incoming (ff_reader io)"
  show ?thesis
  proof (cases "\<exists>frame. q = PollReady (Ok (Some frame))")
    case True
    then obtain frame where q: "q = PollReady (Ok (Some frame))" by blast
    with N have "frame_taken (fl_uuids libs) ?all frame (buffered st @ poll_incoming r)" by simp
    note T = frames_content_taken [OF this, of "ff_flow_id io"]
    from run f q False N T show ?thesis
      by (auto simp: poll_next_client_frame_def framed_ok_def unread_frames_def Let_def split: sum.splits option.splits)
  next
    case other: False
    have nil: "frames_content libs (ff_flow_id io) [] = []" by (simp add: frames_content.simps FRAME_HEADER_LEN_def)
    from run f other False N nil frames_content_cut [of libs ?all "ff_flow_id io"] show ?thesis
      by (auto simp: poll_next_client_frame_def framed_ok_def unread_frames_def Let_def
          split: poll.splits sum.splits option.splits)
  qed
qed

lemma framed_content_split:
  "framed_content libs io = drop (fr_ready_payload_offset (ff_read_state io)) (fr_ready_payload (ff_read_state io)) @ unread_frames libs io"
  by (simp add: framed_content_def unread_frames_def)

text \<open>The parts of the read state that copying does not touch.\<close>

lemma ready_payload_update [simp]:
  "frame_read_ok uuids (st\<lparr>fr_ready_payload := x\<rparr>) = frame_read_ok uuids st"
  "frame_read_ok uuids (st\<lparr>fr_ready_payload_offset := y\<rparr>) = frame_read_ok uuids st"
  "buffered (st\<lparr>fr_ready_payload := x\<rparr>) = buffered st"
  "buffered (st\<lparr>fr_ready_payload_offset := y\<rparr>) = buffered st"
  by (simp_all add: frame_read_ok_def buffered_def cong: option.case_cong)

lemma copy_ready_payload_facts:
  assumes "copy_ready_payload cap st = (c, st')"
  shows "frame_read_ok uuids st' = frame_read_ok uuids st \<and> buffered st' = buffered st
    \<and> (case c of
         None \<Rightarrow> drop (fr_ready_payload_offset st) (fr_ready_payload st) = []
           \<and> drop (fr_ready_payload_offset st') (fr_ready_payload st') = []
       | Some bs \<Rightarrow> drop (fr_ready_payload_offset st) (fr_ready_payload st)
             = bs @ drop (fr_ready_payload_offset st') (fr_ready_payload st')
           \<and> length bs \<le> cap \<and> (bs = [] \<longrightarrow> cap = 0))"
proof (cases "length (fr_ready_payload st) \<le> fr_ready_payload_offset st")
  case True
  with assms show ?thesis by (auto simp: copy_ready_payload_def)
next
  case False
  let ?rest = "drop (fr_ready_payload_offset st) (fr_ready_payload st)"
  let ?n = "min (length ?rest) cap"
  have "c = Some (take ?n ?rest)" "st' = st\<lparr>fr_ready_payload_offset := fr_ready_payload_offset st + ?n\<rparr>"
    using assms False by (auto simp: copy_ready_payload_def Let_def)
  moreover have "?rest = take ?n ?rest @ drop ?n ?rest" by (rule append_take_drop_id [symmetric])
  ultimately show ?thesis using False by (auto simp: add.commute)
qed

lemma framed_poll_read_content:
  "\<lbrakk>framed_ok libs io; framed_poll_read libs cap io = (p, io')\<rbrakk> \<Longrightarrow>
     framed_ok libs io'
   \<and> (case p of
        PollPending \<Rightarrow> framed_content libs io' = framed_content libs io
      | PollReady (Err k) \<Rightarrow> framed_content libs io = []
      | PollReady (Ok bs) \<Rightarrow>
          if bs = [] then cap = 0 \<or> framed_content libs io = []
          else framed_content libs io = bs @ framed_content libs io' \<and> length bs \<le> cap)"
proof (induction libs cap io rule: framed_poll_read.induct)
  case (1 libs cap io)
  obtain c st where c: "copy_ready_payload cap (ff_read_state io) = (c, st)" by fastforce
  note C = copy_ready_payload_facts [OF c, of "fl_uuids libs"]
  let ?io = "io\<lparr>ff_read_state := st\<rparr>"
  have ok: "framed_ok libs ?io" and unread: "unread_frames libs ?io = unread_frames libs io"
    using C "1.prems"(1) by (simp_all add: framed_ok_def unread_frames_def)
  show ?case
  proof (cases "c = None \<and> cap \<noteq> 0")
    case False
    with "1.prems"(2) c C ok unread show ?thesis
      by (cases c) (auto simp: framed_poll_read.simps [of libs cap io] framed_content_split)
  next
    case True
    obtain q io1 where f: "poll_next_client_frame libs ?io = (q, io1)" by fastforce
    note F = poll_next_client_frame_content [OF ok f]
    have none: "framed_content libs io = unread_frames libs ?io" using C True unread by (simp add: framed_content_split)
    show ?thesis
    proof (cases "\<exists>payload. q = PollReady (Ok (Some payload))")
      case other: False
      with "1.prems"(2) c C True f F none show ?thesis
        by (auto simp: framed_poll_read.simps [of libs cap io] framed_content_split split: poll.splits sum.splits option.splits)
    next
      case some: True
      then obtain payload where q: "q = PollReady (Ok (Some payload))" by blast
      let ?io1 = "io1\<lparr>ff_read_state := set_ready_payload payload (ff_read_state io1)\<rparr>"
      have rec: "framed_poll_read libs cap ?io1 = (p, io')"
        using "1.prems"(2) c True f q by (simp add: framed_poll_read.simps [of libs cap io])
      have "framed_ok libs ?io1" "framed_content libs ?io1 = framed_content libs io"
        using F q none
        by (simp_all add: framed_ok_def set_ready_payload_def framed_content_split) (simp add: unread_frames_def)
      with "1.IH" [OF c [symmetric] _ _ f [symmetric] q refl refl _ rec] True show ?thesis
        by (auto split: poll.splits sum.splits)
    qed
  qed
qed

lemma framed_read_content:
  "\<lbrakk>framed_ok libs io; framed_read libs cap io = (res, io')\<rbrakk> \<Longrightarrow>
     framed_ok libs io'
   \<and> (case res of
        Err k \<Rightarrow> framed_content libs io = []
      | Ok bs \<Rightarrow>
          if bs = [] then cap = 0 \<or> framed_content libs io = []
          else framed_content libs io = bs @ framed_content libs io' \<and> length bs \<le> cap)"
proof (induction libs cap io rule: framed_read.induct)
  case (1 libs cap io)
  obtain p io1 where r: "framed_poll_read libs cap io = (p, io1)" by fastforce
  note R = framed_poll_read_content [OF "1.prems"(1) r]
  show ?case
  proof (cases p)
    case (PollReady x)
    with "1.prems"(2) r R show ?thesis by (auto simp: framed_read.simps [of libs cap io] split: sum.splits)
  next
    case PollPending
    with "1.prems"(2) r have "framed_read libs cap io1 = (res, io')" by (simp add: framed_read.simps [of libs cap io])
    with "1.IH" [OF r [symmetric] PollPending] R PollPending show ?thesis by (cases res) auto
  qed
qed

interpretation framed: byte_source "framed_read libs" "framed_content libs" "framed_ok libs" for libs
proof unfold_locales
  fix s cap bs s'
  assume a: "framed_ok libs s" and r: "framed_read libs cap s = (Ok bs, s')" and "bs \<noteq> []"
  then show "framed_content libs s = bs @ framed_content libs s' \<and> length bs \<le> cap"
    using framed_read_content [OF a r] by simp
next
  fix s cap s'
  assume a: "framed_ok libs s" and r: "framed_read libs cap s = (Ok [], s')" and "0 < cap"
  then show "framed_content libs s = []" using framed_read_content [OF a r] by simp
next
  fix s cap k s'
  assume a: "framed_ok libs s" and r: "framed_read libs cap s = (Err k, s')"
  then show "framed_content libs s = []" using framed_read_content [OF a r] by simp
next
  fix s cap res s'
  assume a: "framed_ok libs s" and r: "framed_read libs cap s = (res, s')"
  then show "framed_ok libs s'" using framed_read_content [OF a r] by simp
qed

section \<open>Reading what the client sent\<close>

text \<open>The wire image of data frames with the given payloads.\<close>

fun data_frames :: "'u uuid_crate \<Rightarrow> 'u \<Rightarrow> bytes list \<Rightarrow> bytes option" where
  "data_frames uuids fid [] = Some []"
| "data_frames uuids fid (p # ps) =
     (case frame_encode uuids (flow_frame_new FrameData ClientToBroker fid p) of
        Err e \<Rightarrow> None
      | Ok bs \<Rightarrow> map_option (\<lambda>rest. bs @ rest) (data_frames uuids fid ps))"

lemma encoded_frame_taken:
  assumes laws: "uuid_laws uuids" and enc: "frame_encode uuids f = Ok bs"
  shows "frame_taken uuids (bs @ rest) f rest"
proof -
  from enc obtain len where len: "unat len = length (frame_payload f)" "validate_payload_len len = Ok ()"
    and bs: "bs = frame_header_bytes uuids (frame_header f len) [CHR 0x00, CHR 0x00] @ frame_payload f" (is "_ = ?h @ _")
    by (auto simp: frame_encode_Ok)
  have h: "length ?h = FRAME_HEADER_LEN" using laws by (simp add: frame_header_bytes_length)
  have dec: "header_decode uuids ?h = Ok (frame_header f len)"
    using header_decode_iff [OF laws h] len(2) by (force simp: frame_header_def)
  then have "frame_payload_len uuids ?h = Ok len" by (simp add: frame_payload_len_Ok frame_header_def)
  with h frame_decode_header [OF dec] show ?thesis by (auto simp: frame_taken_def bs len(1) intro!: exI [of _ len])
qed

lemma frames_content_data:
  "\<lbrakk>uuid_laws (fl_uuids libs); data_frames (fl_uuids libs) fid ps = Some bs\<rbrakk> \<Longrightarrow>
     frames_content libs fid (bs @ tail) = concat ps @ frames_content libs fid tail"
proof (induction ps arbitrary: bs)
  case (Cons p ps)
  let ?f = "flow_frame_new FrameData ClientToBroker fid p"
  from Cons.prems obtain b rest where b: "frame_encode (fl_uuids libs) ?f = Ok b"
    "data_frames (fl_uuids libs) fid ps = Some rest" "bs = b @ rest"
    by (auto split: sum.splits)
  have "classify_client_frame libs fid ?f = Ok (Some p)" by (simp add: classify_client_frame_def flow_frame_new_def)
  with frames_content_taken [OF encoded_frame_taken [OF Cons.prems(1) b(1)]] Cons.IH [OF Cons.prems(1) b(2)]
  show ?case by (simp add: b(3))
qed simp

lemma framed_new_content [simp]:
  "framed_ok libs (framed_flow_io_new r w fid)"
  "framed_content libs (framed_flow_io_new r w fid) = frames_content libs fid (poll_incoming r)"
  by (simp_all add: framed_ok_def frame_read_ok_def framed_content_def buffered_def framed_flow_io_new_def frame_read_new_def)

section \<open>Writing frames\<close>

text \<open>A frame on its way: \<open>enc\<close> is queued, \<open>before\<close> is what the wire had, and part of \<open>enc\<close> has gone out.\<close>

definition mid_frame :: "bytes \<Rightarrow> bytes \<Rightarrow> nat \<Rightarrow> frame_write_state \<Rightarrow> poll_writer \<Rightarrow> bool" where
  "mid_frame before enc n ws w \<longleftrightarrow>
     fw_frame ws = enc \<and> enc \<noteq> [] \<and> fw_offset ws \<le> length enc \<and> fw_consumed_len ws = n
   \<and> pw_written w = before @ take (fw_offset ws) enc"

definition write_idle :: "frame_write_state \<Rightarrow> bool" where
  "write_idle ws \<longleftrightarrow> fw_frame ws = [] \<and> fw_offset ws = 0"

lemma poll_stream_write_written:
  "poll_stream_write bs w = (p, w') \<Longrightarrow>
     (case p of
        PollReady (Ok k) \<Rightarrow> k \<le> length bs \<and> pw_written w' = pw_written w @ take k bs
      | _ \<Rightarrow> pw_written w' = pw_written w)"
  by (auto simp: poll_stream_write_def min_def split: list.splits poll_write_step.splits)

lemma poll_drain_loop_mid:
  "\<lbrakk>mid_frame before enc n ws w; poll_drain_loop ws w = (p, ws', w')\<rbrakk> \<Longrightarrow>
     mid_frame before enc n ws' w' \<and> fw_shutdown_queued ws' = fw_shutdown_queued ws
   \<and> (case p of PollReady (Ok u) \<Rightarrow> fw_offset ws' = length enc | _ \<Rightarrow> True)"
proof (induction ws w rule: poll_drain_loop.induct)
  case (1 ws w)
  then have m: "fw_frame ws = enc" "enc \<noteq> []" "fw_offset ws \<le> length enc" "fw_consumed_len ws = n"
    "pw_written w = before @ take (fw_offset ws) enc" by (auto simp: mid_frame_def)
  show ?case
  proof (cases "length enc \<le> fw_offset ws")
    case True
    with m have "poll_drain_loop ws w = (PollReady (Ok ()), ws, w)" by (simp add: poll_drain_loop.simps [of ws])
    with "1.prems" m True show ?thesis by auto
  next
    case False
    obtain q w1 where s: "poll_stream_write (drop (fw_offset ws) enc) w = (q, w1)" by fastforce
    show ?thesis
    proof (cases "\<exists>k. q = PollReady (Ok k) \<and> k \<noteq> 0")
      case True
      then obtain k where q: "q = PollReady (Ok k)" "k \<noteq> 0" by blast
      with poll_stream_write_written [OF s]
      have k: "k \<le> length enc - fw_offset ws" "pw_written w1 = pw_written w @ take k (drop (fw_offset ws) enc)" by simp_all
      have "poll_drain_loop ws w = poll_drain_loop (ws\<lparr>fw_offset := fw_offset ws + k\<rparr>) w1"
        using False s q m(1) by (subst poll_drain_loop.simps) simp
      with "1.prems"(2) have rec: "poll_drain_loop (ws\<lparr>fw_offset := fw_offset ws + k\<rparr>) w1 = (p, ws', w')" by simp
      have mid: "mid_frame before enc n (ws\<lparr>fw_offset := fw_offset ws + k\<rparr>) w1"
        using m k False by (simp add: mid_frame_def take_add)
      have "\<not> length (fw_frame ws) \<le> fw_offset ws"
        "(q, w1) = poll_stream_write (drop (fw_offset ws) (fw_frame ws)) w" using False m(1) s by simp_all
      from "1.IH" [OF this q(1) refl q(2) mid rec] show ?thesis by simp
    next
      case other: False
      with poll_stream_write_written [OF s] have "pw_written w1 = pw_written w"
        by (cases q) (auto split: sum.splits)
      moreover have "ws' = ws" "w' = w1" "\<And>u. p \<noteq> PollReady (Ok u)"
        using other "1.prems"(2) False s m(1)
        by (subst (asm) poll_drain_loop.simps; auto split: poll.splits sum.splits if_splits)+
      ultimately show ?thesis using m by (auto simp: mid_frame_def split: poll.split sum.split)
    qed
  qed
qed

lemma poll_drain_mid:
  assumes "mid_frame before enc n ws w" and "poll_drain ws w = (p, ws', w')"
  shows "fw_shutdown_queued ws' = fw_shutdown_queued ws
    \<and> (case p of
         PollPending \<Rightarrow> mid_frame before enc n ws' w'
       | PollReady (Err k) \<Rightarrow> mid_frame before enc n ws' w'
       | PollReady (Ok u) \<Rightarrow> write_idle ws' \<and> fw_completed_len ws' = n \<and> pw_written w' = before @ enc)"
proof -
  obtain q ws1 w1 where l: "poll_drain_loop ws w = (q, ws1, w1)" by (cases "poll_drain_loop ws w")
  from poll_drain_loop_mid [OF assms(1) l] assms(2) l show ?thesis
    by (auto simp: poll_drain_def mid_frame_def write_idle_def split: poll.splits sum.splits)
qed

lemma queue_frame_mid:
  assumes "write_idle ws" and "queue_frame uuids frame n ws = Ok ws'"
  shows "\<exists>enc. frame_encode uuids frame = Ok enc \<and> mid_frame (pw_written w) enc n ws' w
    \<and> fw_shutdown_queued ws' = fw_shutdown_queued ws"
proof -
  from assms obtain enc where enc: "frame_encode uuids frame = Ok enc"
    "ws' = ws\<lparr>fw_frame := enc, fw_offset := 0, fw_consumed_len := n, fw_completed_len := 0\<rparr>"
    by (auto simp: queue_frame_def split: if_splits sum.splits)
  have "enc \<noteq> []" using enc(1) by (auto simp: frame_encode_Ok frame_header_bytes_def FRAME_MAGIC_def)
  with enc show ?thesis by (auto simp: mid_frame_def)
qed

text \<open>The frame a write of \<open>buffer\<close> puts on the wire.\<close>

abbreviation chunk_frame :: "'u framed_flow_io \<Rightarrow> bytes \<Rightarrow> 'u flow_frame" where
  "chunk_frame io buffer \<equiv> broker_to_client (ff_flow_id io) (take WRITE_FRAME_PAYLOAD_CAP buffer)"

lemma drain_write_mid:
  assumes "mid_frame before enc n ws (ff_writer io)" and "drain_write ws io = (p, io')"
  shows "ff_flow_id io' = ff_flow_id io
    \<and> (case p of
         PollPending \<Rightarrow> mid_frame before enc n (ff_write_state io') (ff_writer io')
       | PollReady (Err k) \<Rightarrow> mid_frame before enc n (ff_write_state io') (ff_writer io')
       | PollReady (Ok m) \<Rightarrow> m = n \<and> write_idle (ff_write_state io') \<and> pw_written (ff_writer io') = before @ enc)"
proof -
  obtain q ws1 w1 where d: "poll_drain ws (ff_writer io) = (q, ws1, w1)" by (cases "poll_drain ws (ff_writer io)")
  from poll_drain_mid [OF assms(1) d] assms(2) d show ?thesis
    by (auto simp: drain_write_def take_completed_len_def write_idle_def split: poll.splits sum.splits)
qed

lemma framed_write_mid:
  "\<lbrakk>mid_frame before enc n (ff_write_state io) (ff_writer io); buffer \<noteq> []; framed_write libs buffer io = (Ok m, io')\<rbrakk> \<Longrightarrow>
     m = n \<and> write_idle (ff_write_state io') \<and> pw_written (ff_writer io') = before @ enc \<and> ff_flow_id io' = ff_flow_id io"
proof (induction libs buffer io rule: framed_write.induct)
  case (1 libs buffer io)
  obtain p io1 where r: "framed_poll_write libs buffer io = (p, io1)" by fastforce
  have "drain_write (ff_write_state io) io = (p, io1)"
    using r "1.prems"(1,2) by (auto simp: framed_poll_write_def has_pending_frame_def mid_frame_def)
  note D = drain_write_mid [OF "1.prems"(1) this]
  show ?case
  proof (cases p)
    case (PollReady x)
    with "1.prems"(3) r D show ?thesis by (simp add: framed_write.simps [of libs buffer io])
  next
    case PollPending
    with "1.prems"(3) r have "framed_write libs buffer io1 = (Ok m, io')" by (simp add: framed_write.simps [of libs buffer io])
    with "1.IH" [OF r [symmetric] PollPending _ "1.prems"(2)] D PollPending show ?thesis by simp
  qed
qed

lemma framed_write_frame:
  assumes "write_idle (ff_write_state io)" and "buffer \<noteq> []" and "framed_write libs buffer io = (Ok m, io')"
  shows "m = min (length buffer) WRITE_FRAME_PAYLOAD_CAP \<and> write_idle (ff_write_state io') \<and> ff_flow_id io' = ff_flow_id io
    \<and> (\<exists>enc. frame_encode (fl_uuids libs) (chunk_frame io buffer) = Ok enc
         \<and> pw_written (ff_writer io') = pw_written (ff_writer io) @ enc)"
proof -
  let ?n = "min (length buffer) WRITE_FRAME_PAYLOAD_CAP"
  obtain p io1 where r: "framed_poll_write libs buffer io = (p, io1)" by fastforce
  have frame: "take ?n buffer = take WRITE_FRAME_PAYLOAD_CAP buffer" by (simp add: min_def)
  have np: "\<not> has_pending_frame (ff_write_state io)" using assms(1) by (simp add: write_idle_def has_pending_frame_def)
  show ?thesis
  proof (cases "queue_frame (fl_uuids libs) (chunk_frame io buffer) ?n (ff_write_state io)")
    case (Inl k)
    with assms(2) np frame have "framed_poll_write libs buffer io = (PollReady (Err k), io)"
      by (simp add: framed_poll_write_def Let_def)
    with assms(3) show ?thesis by (simp add: framed_write.simps [of libs buffer io])
  next
    case (Inr ws)
    from queue_frame_mid [OF assms(1) Inr] obtain enc where enc: "frame_encode (fl_uuids libs) (chunk_frame io buffer) = Ok enc"
      "mid_frame (pw_written (ff_writer io)) enc ?n ws (ff_writer io)" by blast
    have "drain_write ws io = (p, io1)" using r assms(2) np Inr frame by (auto simp: framed_poll_write_def Let_def)
    note D = drain_write_mid [OF enc(2) this]
    show ?thesis
    proof (cases p)
      case (PollReady x)
      with assms(3) r D enc(1) show ?thesis by (simp add: framed_write.simps [of libs buffer io])
    next
      case PollPending
      with assms(3) r have "framed_write libs buffer io1 = (Ok m, io')" by (simp add: framed_write.simps [of libs buffer io])
      with framed_write_mid [OF _ assms(2) this] D PollPending enc(1) show ?thesis by auto
    qed
  qed
qed

text \<open>The wire image of the frames that carry the given chunks to the client.\<close>

fun broker_frames :: "'u uuid_crate \<Rightarrow> 'u \<Rightarrow> bytes list \<Rightarrow> bytes option" where
  "broker_frames uuids fid [] = Some []"
| "broker_frames uuids fid (p # ps) =
     (case frame_encode uuids (broker_to_client fid p) of
        Err e \<Rightarrow> None
      | Ok bs \<Rightarrow> map_option (\<lambda>rest. bs @ rest) (broker_frames uuids fid ps))"

definition chunk_ok :: "bytes \<Rightarrow> bool" where
  "chunk_ok p \<longleftrightarrow> 0 < length p \<and> length p \<le> WRITE_FRAME_PAYLOAD_CAP"

lemma framed_write_all_frames:
  "\<lbrakk>write_idle (ff_write_state io); framed_write_all libs bs io = (Ok (), io')\<rbrakk> \<Longrightarrow>
     \<exists>ps wire. concat ps = bs \<and> list_all chunk_ok ps \<and> broker_frames (fl_uuids libs) (ff_flow_id io) ps = Some wire
       \<and> pw_written (ff_writer io') = pw_written (ff_writer io) @ wire \<and> write_idle (ff_write_state io')
       \<and> ff_flow_id io' = ff_flow_id io"
proof (induction libs bs io rule: framed_write_all.induct)
  case (1 libs bs io)
  show ?case
  proof (cases "bs = []")
    case True
    with "1.prems" show ?thesis by (intro exI [of _ "[]"]) (simp add: framed_write_all.simps)
  next
    case False
    with "1.prems"(2) obtain n io1 where w: "framed_write libs bs io = (Ok n, io1)" "n \<noteq> 0"
      and rec: "framed_write_all libs (drop n bs) io1 = (Ok (), io')"
      by (subst (asm) framed_write_all.simps) (auto split: prod.splits sum.splits if_splits)
    from framed_write_frame [OF "1.prems"(1) False w(1)] obtain enc where
      n: "n = min (length bs) WRITE_FRAME_PAYLOAD_CAP" and idle: "write_idle (ff_write_state io1)" "ff_flow_id io1 = ff_flow_id io"
      and enc: "frame_encode (fl_uuids libs) (chunk_frame io bs) = Ok enc" "pw_written (ff_writer io1) = pw_written (ff_writer io) @ enc"
      by blast
    from "1.IH" [OF False w(1) [symmetric] refl w(2) idle(1) rec] obtain ps wire where
      ps: "concat ps = drop n bs" "list_all chunk_ok ps" "broker_frames (fl_uuids libs) (ff_flow_id io1) ps = Some wire"
      "pw_written (ff_writer io') = pw_written (ff_writer io1) @ wire" "write_idle (ff_write_state io')" "ff_flow_id io' = ff_flow_id io1"
      by blast
    have t: "take n bs = take WRITE_FRAME_PAYLOAD_CAP bs" using n by (simp add: min_def)
    have "chunk_ok (take n bs)" "concat (take n bs # ps) = bs"
      using False ps(1) n by (auto simp: chunk_ok_def WRITE_FRAME_PAYLOAD_CAP_def)
    with ps enc idle t show ?thesis by (intro exI [of _ "take n bs # ps"] exI [of _ "enc @ wire"]) simp
  qed
qed

section \<open>Shutting down\<close>

text \<open>The close frame is queued, and is on its way or out.\<close>

definition closing :: "bytes \<Rightarrow> bytes \<Rightarrow> 'u framed_flow_io \<Rightarrow> bool" where
  "closing before enc io \<longleftrightarrow>
     fw_shutdown_queued (ff_write_state io)
   \<and> (mid_frame before enc 0 (ff_write_state io) (ff_writer io)
      \<or> write_idle (ff_write_state io) \<and> pw_written (ff_writer io) = before @ enc)"

lemma poll_drain_idle: "write_idle ws \<Longrightarrow> poll_drain ws w = (PollReady (Ok ()), ws, w)"
  by (simp add: poll_drain_def poll_drain_loop.simps write_idle_def)

lemma poll_stream_shutdown_written: "poll_stream_shutdown w = (p, w') \<Longrightarrow> pw_written w' = pw_written w"
  by (auto simp: poll_stream_shutdown_def split: list.splits)

text \<open>Draining a close frame and shutting the socket down.\<close>

lemma closing_step:
  assumes "fw_shutdown_queued ws"
    and "mid_frame before enc 0 ws (ff_writer io) \<or> write_idle ws \<and> pw_written (ff_writer io) = before @ enc"
    and d: "poll_drain ws (ff_writer io) = (q, ws1, w1)"
  shows "case q of
      PollReady (Ok u) \<Rightarrow> poll_stream_shutdown w1 = (p, w2) \<longrightarrow>
        closing before enc (io\<lparr>ff_write_state := ws1, ff_writer := w2\<rparr>) \<and> pw_written w2 = before @ enc
    | _ \<Rightarrow> closing before enc (io\<lparr>ff_write_state := ws1, ff_writer := w1\<rparr>)"
  using assms(2)
proof
  assume m: "mid_frame before enc 0 ws (ff_writer io)"
  from poll_drain_mid [OF m d] assms(1) poll_stream_shutdown_written [of w1 p w2] show ?thesis
    by (auto simp: closing_def split: poll.splits sum.splits)
next
  assume "write_idle ws \<and> pw_written (ff_writer io) = before @ enc"
  with d assms(1) poll_stream_shutdown_written [of w1 p w2] show ?thesis
    by (auto simp: closing_def poll_drain_idle)
qed

lemma framed_poll_shutdown_closing:
  assumes "fw_shutdown_queued (ff_write_state io) \<and> closing before enc io
      \<or> queue_close libs io = Ok ws \<and> fw_shutdown_queued ws \<and> mid_frame before enc 0 ws (ff_writer io)"
    and run: "framed_poll_shutdown libs io = (p, io')"
  shows "closing before enc io' \<and> (p = PollReady (Ok ()) \<longrightarrow> pw_written (ff_writer io') = before @ enc)"
proof -
  from assms(1) obtain ws1 where ws1: "queue_close libs io = Ok ws1" "fw_shutdown_queued ws1"
    "mid_frame before enc 0 ws1 (ff_writer io) \<or> write_idle ws1 \<and> pw_written (ff_writer io) = before @ enc"
    by (auto simp: closing_def queue_close_def)
  obtain q ws2 w2 where d: "poll_drain ws1 (ff_writer io) = (q, ws2, w2)" by (cases "poll_drain ws1 (ff_writer io)")
  obtain p3 w3 where sh: "poll_stream_shutdown w2 = (p3, w3)" by fastforce
  from closing_step [OF ws1(2,3) d, of p3 w3] run ws1(1) d sh show ?thesis
    by (auto simp: framed_poll_shutdown_def split: poll.splits sum.splits)
qed

lemma framed_shutdown_closing:
  "\<lbrakk>closing before enc io; framed_shutdown libs io = (Ok (), io')\<rbrakk> \<Longrightarrow>
     closing before enc io' \<and> pw_written (ff_writer io') = before @ enc"
proof (induction libs io rule: framed_shutdown.induct)
  case (1 libs io)
  obtain p io1 where r: "framed_poll_shutdown libs io = (p, io1)" by fastforce
  have C: "closing before enc io1 \<and> (p = PollReady (Ok ()) \<longrightarrow> pw_written (ff_writer io1) = before @ enc)"
    using "1.prems"(1) r by (intro framed_poll_shutdown_closing) (auto simp: closing_def)
  show ?case
  proof (cases p)
    case (PollReady x)
    with "1.prems"(2) r C show ?thesis by (simp add: framed_shutdown.simps [of libs io])
  next
    case PollPending
    with "1.prems"(2) r have "framed_shutdown libs io1 = (Ok (), io')" by (simp add: framed_shutdown.simps [of libs io])
    with "1.IH" [OF r [symmetric] PollPending] C show ?thesis by blast
  qed
qed

lemma framed_shutdown_idle:
  assumes idle: "write_idle (ff_write_state io)" "\<not> fw_shutdown_queued (ff_write_state io)"
    and run: "framed_shutdown libs io = (Ok (), io')"
  shows "\<exists>close enc. broker_to_client_eof (fl_close_to_vec libs) (ff_flow_id io) ''core_shutdown'' = Ok close
    \<and> frame_encode (fl_uuids libs) close = Ok enc \<and> closing (pw_written (ff_writer io)) enc io'
    \<and> pw_written (ff_writer io') = pw_written (ff_writer io) @ enc"
proof -
  obtain p io1 where r: "framed_poll_shutdown libs io = (p, io1)" by fastforce
  have queued: "\<not> isl (queue_close libs io)"
  proof (cases "queue_close libs io")
    case (Inl k)
    then have "framed_poll_shutdown libs io = (PollReady (Err k), io)" by (simp add: framed_poll_shutdown_def)
    then have "framed_shutdown libs io = (Err k, io)" by (subst framed_shutdown.simps) simp
    with run show ?thesis by simp
  qed simp
  then obtain ws where "queue_close libs io = Ok ws" by (cases "queue_close libs io") auto
  then obtain close ws0 where c: "broker_to_client_eof (fl_close_to_vec libs) (ff_flow_id io) ''core_shutdown'' = Ok close"
    "queue_frame (fl_uuids libs) close 0 (ff_write_state io) = Ok ws0" "queue_close libs io = Ok ws" "ws = ws0\<lparr>fw_shutdown_queued := True\<rparr>"
    using idle(2) by (auto simp: queue_close_def split: sum.splits if_splits)
  from queue_frame_mid [OF idle(1) c(2), of "ff_writer io"] obtain enc where enc: "frame_encode (fl_uuids libs) close = Ok enc"
    "mid_frame (pw_written (ff_writer io)) enc 0 ws (ff_writer io)" by (auto simp: c(4) mid_frame_def)
  have C: "closing (pw_written (ff_writer io)) enc io1 \<and> (p = PollReady (Ok ()) \<longrightarrow> pw_written (ff_writer io1) = pw_written (ff_writer io) @ enc)"
    using c(3,4) enc(2) r by (intro framed_poll_shutdown_closing) auto
  have "closing (pw_written (ff_writer io)) enc io' \<and> pw_written (ff_writer io') = pw_written (ff_writer io) @ enc"
  proof (cases p)
    case (PollReady x)
    with run r C show ?thesis by (simp add: framed_shutdown.simps [of libs io])
  next
    case PollPending
    with run r have "framed_shutdown libs io1 = (Ok (), io')" by (simp add: framed_shutdown.simps [of libs io])
    with C framed_shutdown_closing show ?thesis by blast
  qed
  with c(1) enc(1) show ?thesis by blast
qed

section \<open>Properties\<close>

text \<open>
  C23. A framed flow reads as the byte stream the client meant. However the connection is segmented, wherever it is not
  ready, and whatever the sizes of the reader's buffers, so also when a buffer takes only a part of a frame's payload, every
  read gets the next bytes of the payloads of the client's data frames, at least one and no more than fit; the end of the
  stream or the connection's fault comes only after the last of them. So what has been received is at any time a prefix of
  the payloads in order, never a lost or a repeated byte, and all of it after enough reads.
\<close>

theorem framed_reads_payloads:
  assumes "uuid_laws (fl_uuids libs)" and "data_frames (fl_uuids libs) fid ps = Some bs" and "poll_incoming r = bs"
    and "list_all ((<) 0) caps"
  shows "case run_reads (framed_read libs) caps (framed_flow_io_new r w fid) of
      (rs, io) \<Rightarrow>
        reads_as (concat ps) caps rs \<and> prefix (received rs) (concat ps)
        \<and> (if length (concat ps) \<le> length caps then received rs = concat ps else True)"
proof -
  have "framed_content libs (framed_flow_io_new r w fid) = concat ps"
    using frames_content_data [OF assms(1,2), of "[]"] assms(3) by (simp add: frames_content.simps [of _ _ "[]"] FRAME_HEADER_LEN_def)
  with framed.run_reads_as [of libs "framed_flow_io_new r w fid" caps] assms(4)
  have "reads_as (concat ps) caps (fst (run_reads (framed_read libs) caps (framed_flow_io_new r w fid)))" by simp
  from this reads_as_prefix [OF this] reads_as_complete [OF this] show ?thesis by (auto split: prod.split)
qed

text \<open>Concrete libraries for the witnesses: tuples as UUIDs, a close payload that carries nothing.\<close>

definition sample_libs :: "(word4 \<times> word4 \<times> word4 \<times> word4) framed_libs" where
  "sample_libs =
     \<lparr>fl_uuids = tuple_uuids, fl_close_from_slice = (\<lambda>_. Some (nil_uuid, [])), fl_close_to_vec = (\<lambda>_ _. Some ''{}'')\<rparr>"

definition sample_data_frame :: "byte \<Rightarrow> bytes \<Rightarrow> bytes" where
  "sample_data_frame dir payload =
     FRAME_MAGIC @ [CHR 0x02, dir, CHR 0x00, CHR 0x00] @ nil_uuid_bytes @ [CHR 0x00, CHR 0x00, CHR 0x00, CHR 0x02] @ payload"

lemma validate_small: "validate_payload_len 2 = Ok ()"
  by (simp add: validate_payload_len_def MAX_FRAME_PAYLOAD_LEN_def)

lemma encode_sample:
  "length payload = 2 \<Longrightarrow>
     frame_encode tuple_uuids (flow_frame_new FrameData ClientToBroker nil_uuid payload) = Ok (sample_data_frame (CHR 0x01) payload)"
  "length payload = 2 \<Longrightarrow>
     frame_encode tuple_uuids (flow_frame_new FrameData BrokerToClient nil_uuid payload) = Ok (sample_data_frame (CHR 0x02) payload)"
  using validate_small
  by (auto simp: frame_encode_Ok frame_header_bytes_def frame_header_def flow_frame_new_def sample_data_frame_def
      to_be_bytes_small intro!: exI [of _ 2])

definition sample_writer :: poll_writer where
  "sample_writer =
     \<lparr>pw_written = [], pw_steps = [PollWritePending, PollAccepts 3], pw_flushes = [], pw_shutdowns = [PollPending], pw_closed = False\<rparr>"

definition sample_reader :: poll_reader where
  "sample_reader =
     map (\<lambda>b. PollGot [b]) (sample_data_frame (CHR 0x01) ''ab'') @ [PollReadPending, PollGot (sample_data_frame (CHR 0x01) ''cd'')]"

theorem framed_reads_payloads_witness:
  "\<exists>rs io. run_reads (framed_read sample_libs) [1, 3, 1, 1] (framed_flow_io_new sample_reader sample_writer nil_uuid) = (rs, io)
     \<and> received rs = ''abcd''"
proof -
  have laws: "uuid_laws (fl_uuids sample_libs)" by (simp add: sample_libs_def tuple_uuids_laws)
  have frames: "data_frames (fl_uuids sample_libs) nil_uuid [''ab'', ''cd'']
      = Some (sample_data_frame (CHR 0x01) ''ab'' @ sample_data_frame (CHR 0x01) ''cd'')"
    by (simp add: sample_libs_def encode_sample)
  have "poll_incoming sample_reader = sample_data_frame (CHR 0x01) ''ab'' @ sample_data_frame (CHR 0x01) ''cd''"
    by (simp add: sample_reader_def sample_data_frame_def FRAME_MAGIC_def nil_uuid_bytes_def)
  from framed_reads_payloads [OF laws frames this, of "[1, 3, 1, 1]" sample_writer] show ?thesis
    by (cases "run_reads (framed_read sample_libs) [1, 3, 1, 1] (framed_flow_io_new sample_reader sample_writer nil_uuid)")
      (simp del: run_reads.simps)
qed

text \<open>
  What is written to a framed flow arrives as frames of the flow: a completed \<^verbatim>\<open>write_all\<close>, wherever the connection
  was not ready or took only part of a write, has put exactly the encodings of data frames on the wire whose payloads,
  each between one byte and 64 KiB, concatenate to the written bytes; a completed shutdown then adds exactly one close
  frame, and shutting down again adds nothing.
\<close>

theorem framed_writes_frames:
  assumes "write_idle (ff_write_state io)" and "fw_shutdown_queued (ff_write_state io1) = False"
    and "framed_write_all libs bs io = (Ok (), io1)" and "framed_shutdown libs io1 = (Ok (), io2)"
    and "framed_shutdown libs io2 = (Ok (), io3)"
  shows "\<exists>ps wire close enc. concat ps = bs \<and> list_all chunk_ok ps
    \<and> broker_frames (fl_uuids libs) (ff_flow_id io) ps = Some wire
    \<and> broker_to_client_eof (fl_close_to_vec libs) (ff_flow_id io) ''core_shutdown'' = Ok close
    \<and> frame_encode (fl_uuids libs) close = Ok enc
    \<and> pw_written (ff_writer io1) = pw_written (ff_writer io) @ wire
    \<and> pw_written (ff_writer io2) = pw_written (ff_writer io1) @ enc
    \<and> pw_written (ff_writer io3) = pw_written (ff_writer io2)"
proof -
  from framed_write_all_frames [OF assms(1,3)] obtain ps wire where
    w: "concat ps = bs" "list_all chunk_ok ps" "broker_frames (fl_uuids libs) (ff_flow_id io) ps = Some wire"
    "pw_written (ff_writer io1) = pw_written (ff_writer io) @ wire" "write_idle (ff_write_state io1)" "ff_flow_id io1 = ff_flow_id io"
    by blast
  from framed_shutdown_idle [OF w(5) _ assms(4)] assms(2) obtain close enc where
    c: "broker_to_client_eof (fl_close_to_vec libs) (ff_flow_id io1) ''core_shutdown'' = Ok close"
    "frame_encode (fl_uuids libs) close = Ok enc" "closing (pw_written (ff_writer io1)) enc io2"
    "pw_written (ff_writer io2) = pw_written (ff_writer io1) @ enc" by auto
  from framed_shutdown_closing [OF c(3) assms(5)] w c show ?thesis by metis
qed

lemmas write_eval =
  framed_write_all.simps framed_write.simps framed_poll_write_def drain_write_def poll_drain_def poll_drain_loop.simps
  poll_stream_write_def take_completed_len_def queue_frame_def has_pending_frame_def framed_shutdown.simps
  framed_poll_shutdown_def queue_close_def poll_stream_shutdown_def broker_to_client_eof_def flow_frame_close_def
  broker_to_client_def WRITE_FRAME_PAYLOAD_CAP_def framed_flow_io_new_def frame_write_new_def sample_writer_def sample_libs_def

lemma encode_sample_close:
  "frame_encode tuple_uuids (flow_frame_new FrameClose BrokerToClient nil_uuid ''{}'')
     = Ok (FRAME_MAGIC @ [CHR 0x03, CHR 0x02, CHR 0x00, CHR 0x00] @ nil_uuid_bytes @ [CHR 0x00, CHR 0x00, CHR 0x00, CHR 0x02] @ ''{}'')"
  using validate_small
  by (auto simp: frame_encode_Ok frame_header_bytes_def frame_header_def flow_frame_new_def to_be_bytes_small intro!: exI [of _ 2])

theorem framed_writes_frames_witness:
  "\<exists>io1 io2. framed_write_all sample_libs ''hi'' (framed_flow_io_new [] sample_writer nil_uuid) = (Ok (), io1)
     \<and> framed_shutdown sample_libs io1 = (Ok (), io2)
     \<and> (\<exists>ps wire close enc. concat ps = ''hi'' \<and> list_all chunk_ok ps
          \<and> broker_frames tuple_uuids nil_uuid ps = Some wire \<and> frame_encode tuple_uuids close = Ok enc
          \<and> pw_written (ff_writer io2) = wire @ enc)"
proof -
  define io0 where "io0 = framed_flow_io_new [] sample_writer nil_uuid"
  obtain x1 io1 where 1: "framed_write_all sample_libs ''hi'' io0 = (x1, io1)" by fastforce
  then have x1: "x1 = Ok ()" and q: "fw_shutdown_queued (ff_write_state io1) = False"
    and e1: "io1 = io0\<lparr>ff_writer := sample_writer\<lparr>pw_written := sample_data_frame (CHR 0x02) ''hi'', pw_steps := []\<rparr>\<rparr>"
    by (auto simp: io0_def write_eval encode_sample sample_data_frame_def FRAME_MAGIC_def nil_uuid_bytes_def)
  obtain x2 io2 where 2: "framed_shutdown sample_libs io1 = (x2, io2)" by fastforce
  then have x2: "x2 = Ok ()" and e2: "fw_shutdown_queued (ff_write_state io2)" "write_idle (ff_write_state io2)"
    "pw_shutdowns (ff_writer io2) = []"
    unfolding e1 io0_def
    by (auto simp: write_eval write_idle_def encode_sample_close FRAME_MAGIC_def nil_uuid_bytes_def)
  obtain io3 where 3: "framed_shutdown sample_libs io2 = (Ok (), io3)"
    using e2 by (simp add: framed_shutdown.simps [of _ io2] framed_poll_shutdown_def queue_close_def poll_drain_idle poll_stream_shutdown_def)
  have idle: "write_idle (ff_write_state io0)" and w0: "pw_written (ff_writer io0) = []"
    and ids: "fl_uuids sample_libs = tuple_uuids" "ff_flow_id io0 = nil_uuid"
    by (simp_all add: io0_def framed_flow_io_new_def frame_write_new_def write_idle_def sample_writer_def sample_libs_def)
  from framed_writes_frames [OF idle q 1 [unfolded x1] 2 [unfolded x2] 3] 1 2 x1 x2 w0 ids show ?thesis
    unfolding io0_def [symmetric] by auto
qed

text \<open>
  Two ways of using the stream that \<^verbatim>\<open>AsyncWrite\<close> allows and it does not support. A flush after a pending write sends
  the pending bytes without reporting them, so writing them again repeats them; and a shutdown while a write is pending
  fails instead of finishing the write first.
\<close>

lemma flush_after_pending_repeats:
  "let io0 = framed_flow_io_new [] (sample_writer\<lparr>pw_steps := [PollWritePending]\<rparr>) nil_uuid;
       (p1, io1) = framed_poll_write sample_libs ''hi'' io0;
       (p2, io2) = framed_poll_flush io1;
       (p3, io3) = framed_poll_write sample_libs ''hi'' io2
   in p1 = PollPending \<and> p2 = PollReady (Ok ()) \<and> p3 = PollReady (Ok 2)
      \<and> pw_written (ff_writer io3) = sample_data_frame (CHR 0x02) ''hi'' @ sample_data_frame (CHR 0x02) ''hi''"
  by (simp add: write_eval framed_poll_flush_def poll_stream_flush_def encode_sample sample_data_frame_def FRAME_MAGIC_def
      nil_uuid_bytes_def Let_def)

lemma shutdown_during_pending_write_fails:
  "\<lbrakk>has_pending_frame (ff_write_state io); \<not> fw_shutdown_queued (ff_write_state io)\<rbrakk> \<Longrightarrow>
     framed_poll_shutdown libs io = (PollReady (Err InvalidData), io)"
  by (auto simp: framed_poll_shutdown_def queue_close_def queue_frame_def split: sum.split)

end
