(* ===== verification/Platform_Flow.thy ===== *)
theory Platform_Flow
  imports Accepted_Flow
begin

text \<open>
  The flow a platform adapter produces (\<^verbatim>\<open>crates/abyss-broker/src/ingress/mod.rs\<close>): metadata, the client's
  stream, how the provider is reached and the bytes the adapter has already read, and its conversion into the
  flow the engine accepts.
\<close>

section \<open>Flows\<close>

record platform_flow_metadata =
  pm_flow_id :: nat
  pm_peer_addr :: "socket_addr option"
  pm_local_addr :: "socket_addr option"
  pm_original_destination :: destination_address
  pm_destination_host :: "bytes option"
  pm_source_process :: "source_process option"

text \<open>\<open>fresh_id\<close> is the id \<^verbatim>\<open>FlowId::generate\<close> draws.\<close>

definition metadata_from_destination_parts ::
  "nat \<Rightarrow> socket_addr option \<Rightarrow> socket_addr option \<Rightarrow> destination_address \<Rightarrow> bytes option
   \<Rightarrow> source_process option \<Rightarrow> platform_flow_metadata" where
  "metadata_from_destination_parts fresh_id peer loc destination host process =
     \<lparr>pm_flow_id = fresh_id, pm_peer_addr = peer, pm_local_addr = loc, pm_original_destination = destination,
      pm_destination_host = host, pm_source_process = process\<rparr>"

definition metadata_from_parts ::
  "nat \<Rightarrow> socket_addr option \<Rightarrow> socket_addr option \<Rightarrow> socket_addr \<Rightarrow> bytes option
   \<Rightarrow> source_process option \<Rightarrow> platform_flow_metadata" where
  "metadata_from_parts fresh_id peer loc destination host process =
     metadata_from_destination_parts fresh_id peer loc (Known destination) host process"

definition metadata_with_flow_id :: "nat \<Rightarrow> platform_flow_metadata \<Rightarrow> platform_flow_metadata" where
  "metadata_with_flow_id i m = m\<lparr>pm_flow_id := i\<rparr>"

record platform_flow =
  pf_metadata :: platform_flow_metadata
  pf_io :: boxed_stream
  pf_ingress :: flow_ingress
  pf_prepared_upstream :: "boxed_stream option"
  pf_configured_upstream :: "(http_connect_proxy \<times> target_authority) option"
  pf_read_prefix :: bytes

definition platform_flow_from_boxed :: "boxed_stream \<Rightarrow> platform_flow_metadata \<Rightarrow> platform_flow" where
  "platform_flow_from_boxed io metadata =
     \<lparr>pf_metadata = metadata, pf_io = io, pf_ingress = Transparent Unattributed, pf_prepared_upstream = None,
      pf_configured_upstream = None, pf_read_prefix = []\<rparr>"

definition platform_flow_new :: "duplex \<Rightarrow> platform_flow_metadata \<Rightarrow> platform_flow" where
  "platform_flow_new io metadata = platform_flow_from_boxed \<lparr>bx_stream = io, bx_observers = []\<rparr> metadata"

definition pf_with_ingress :: "flow_ingress \<Rightarrow> platform_flow \<Rightarrow> platform_flow" where
  "pf_with_ingress how f = f\<lparr>pf_ingress := how\<rparr>"

definition pf_with_upstream_proxy ::
  "http_connect_proxy \<Rightarrow> target_authority \<Rightarrow> platform_flow \<Rightarrow> platform_flow" where
  "pf_with_upstream_proxy proxy target f =
     f\<lparr>pf_prepared_upstream := None, pf_configured_upstream := Some (proxy, target)\<rparr>"

definition pf_with_prepared_stream :: "boxed_stream \<Rightarrow> platform_flow \<Rightarrow> platform_flow" where
  "pf_with_prepared_stream u f = f\<lparr>pf_configured_upstream := None, pf_prepared_upstream := Some u\<rparr>"

definition pf_with_read_prefix :: "bytes \<Rightarrow> platform_flow \<Rightarrow> platform_flow" where
  "pf_with_read_prefix p f = f\<lparr>pf_read_prefix := p\<rparr>"

text \<open>\<open>fresh_id\<close> is the id the engine's constructor draws; the adapter's id replaces it.\<close>

definition into_mitm_flow :: "nat \<Rightarrow> platform_flow \<Rightarrow> accepted_tcp_flow" where
  "into_mitm_flow fresh_id f =
     (let m = pf_metadata f;
          base = with_ingress (pf_ingress f)
            (with_destination_host (pm_destination_host m)
              (with_flow_id (pm_flow_id m)
                (from_destination_parts fresh_id (pf_io f) (pm_peer_addr m) (pm_local_addr m)
                   (pm_original_destination m) (pm_source_process m))));
          proxied = (case pf_configured_upstream f of None \<Rightarrow> base | Some (proxy, target) \<Rightarrow> with_upstream_proxy proxy target base);
          prepared = (case pf_prepared_upstream f of None \<Rightarrow> proxied | Some u \<Rightarrow> with_prepared_stream u proxied)
      in with_read_prefix (pf_read_prefix f) prepared)"

section \<open>Properties\<close>

lemmas platform_flow_defs =
  platform_flow_new_def platform_flow_from_boxed_def pf_with_ingress_def pf_with_upstream_proxy_def
  pf_with_prepared_stream_def pf_with_read_prefix_def metadata_from_destination_parts_def

lemma with_read_prefix_keeps [simp]:
  "af_flow_id (with_read_prefix p f) = af_flow_id f" "af_peer_addr (with_read_prefix p f) = af_peer_addr f"
  "af_local_addr (with_read_prefix p f) = af_local_addr f"
  by (simp_all add: with_read_prefix_def)

lemma into_mitm_flow_simps [simp]:
  "af_flow_id (into_mitm_flow i f) = pm_flow_id (pf_metadata f)"
  "af_peer_addr (into_mitm_flow i f) = pm_peer_addr (pf_metadata f)"
  "af_local_addr (into_mitm_flow i f) = pm_local_addr (pf_metadata f)"
  "af_original_destination (into_mitm_flow i f) = pm_original_destination (pf_metadata f)"
  "af_destination_host (into_mitm_flow i f) = pm_destination_host (pf_metadata f)"
  "af_source_process (into_mitm_flow i f) = pm_source_process (pf_metadata f)"
  "af_ingress (into_mitm_flow i f) = pf_ingress f"
  "incoming (rd_side (bx_stream (af_stream (into_mitm_flow i f)))) = pf_read_prefix f @ incoming (rd_side (bx_stream (pf_io f)))"
  "wr_side (bx_stream (af_stream (into_mitm_flow i f))) = wr_side (bx_stream (pf_io f))"
  by (auto simp: into_mitm_flow_def Let_def with_prepared_stream_def with_upstream_proxy_def with_ingress_def
      with_destination_host_def with_flow_id_def from_destination_parts_def split: option.split)

lemma into_mitm_flow_upstream:
  "af_upstream (into_mitm_flow i f) =
     (case pf_prepared_upstream f of
        Some u \<Rightarrow> Prepared u
      | None \<Rightarrow> (case pf_configured_upstream f of Some (proxy, target) \<Rightarrow> ThroughProxy proxy target | None \<Rightarrow> Deferred))"
  by (auto simp: into_mitm_flow_def Let_def with_prepared_stream_def with_upstream_proxy_def with_ingress_def
      with_destination_host_def with_flow_id_def from_destination_parts_def split: option.split)

end
