(* ===== verification/Rust_Path.thy ===== *)
theory Rust_Path
  imports Rust_Str
begin

text \<open>
  What the broker uses of \<^verbatim>\<open>std::path\<close> on Unix (components, \<^verbatim>\<open>file_name\<close>, \<^verbatim>\<open>parent\<close>, \<^verbatim>\<open>is_absolute\<close>, collecting
  components into a \<^verbatim>\<open>PathBuf\<close>) and the lossy conversion of a path to text. A path is its bytes.
\<close>

section \<open>Components\<close>

datatype path_component = RootDir | CurDir | ParentDir | NormalPart bytes

definition path_is_absolute :: "bytes \<Rightarrow> bool" where
  "path_is_absolute p \<longleftrightarrow> p \<noteq> [] \<and> hd p = CHR ''/''"

definition path_parts :: "bytes \<Rightarrow> bytes list" where
  "path_parts p = filter (\<lambda>s. s \<noteq> [] \<and> s \<noteq> ''.'') (str_split CHR ''/'' p)"

definition part_component :: "bytes \<Rightarrow> path_component" where
  "part_component s = (if s = ''..'' then ParentDir else NormalPart s)"

definition path_components :: "bytes \<Rightarrow> path_component list" where
  "path_components p =
     (if path_is_absolute p then [RootDir]
      else if hd (str_split CHR ''/'' p) = ''.'' then [CurDir]
      else []) @ map part_component (path_parts p)"

definition path_file_name :: "bytes \<Rightarrow> bytes option" where
  "path_file_name p =
     (case rev (path_components p) of NormalPart name # _ \<Rightarrow> Some name | _ \<Rightarrow> None)"

fun component_text :: "path_component \<Rightarrow> bytes" where
  "component_text RootDir = ''/''"
| "component_text CurDir = ''.''"
| "component_text ParentDir = ''..''"
| "component_text (NormalPart s) = s"

text \<open>\<^verbatim>\<open>PathBuf::push\<close> of a component, and \<^verbatim>\<open>collect::<PathBuf>()\<close>.\<close>

definition path_push :: "bytes \<Rightarrow> path_component \<Rightarrow> bytes" where
  "path_push buf c =
     (if c = RootDir then ''/''
      else buf @ (if buf = [] \<or> last buf = CHR ''/'' then [] else ''/'') @ component_text c)"

definition path_collect :: "path_component list \<Rightarrow> bytes" where
  "path_collect cs = foldl path_push [] cs"

text \<open>
  \<^verbatim>\<open>Path::parent\<close>: trailing separators and \<^verbatim>\<open>.\<close> components do not count, here on the reversed path.
\<close>

fun trim_path_rev :: "bytes \<Rightarrow> bytes" where
  "trim_path_rev (c # d # r) =
     (if c = CHR ''/'' \<or> c = CHR ''.'' \<and> d = CHR ''/'' then trim_path_rev (d # r) else c # d # r)"
| "trim_path_rev r = r"

definition path_parent :: "bytes \<Rightarrow> bytes option" where
  "path_parent p =
     (let q = trim_path_rev (rev p) in
      if q = [] \<or> q = ''/'' then None
      else Some (rev (trim_path_rev (dropWhile (\<lambda>c. c \<noteq> CHR ''/'') q))))"

text \<open>\<^verbatim>\<open>Path::join\<close>, and \<^verbatim>\<open>Path::with_extension\<close> on a path that has a file name.\<close>

definition path_join :: "bytes \<Rightarrow> bytes \<Rightarrow> bytes" where
  "path_join base p =
     (if path_is_absolute p then p
      else base @ (if base = [] \<or> last base = CHR ''/'' then [] else ''/'') @ p)"

definition file_stem :: "bytes \<Rightarrow> bytes" where
  "file_stem name =
     (let before = takeWhile (\<lambda>c. c \<noteq> CHR ''.'') (rev name) in
      if length before + 1 < length name then rev (drop (length before + 1) (rev name)) else name)"

definition with_extension :: "bytes \<Rightarrow> bytes \<Rightarrow> bytes" where
  "with_extension p ext =
     (case (path_parent p, path_file_name p) of
        (Some parent, Some name) \<Rightarrow> path_join parent (file_stem name @ (if ext = [] then [] else ''.'' @ ext))
      | _ \<Rightarrow> p)"

section \<open>Lossy text\<close>

text \<open>
  One step of \<^verbatim>\<open>String::from_utf8_lossy\<close>: whether a well-formed character starts here, and how many bytes it (or the
  ill-formed sequence that one replacement character stands for) takes.
\<close>

definition second_byte_ok :: "byte \<Rightarrow> byte \<Rightarrow> bool" where
  "second_byte_ok a b \<longleftrightarrow>
     (if code a = 224 then 160 \<le> code b \<and> code b \<le> 191
      else if code a = 237 then 128 \<le> code b \<and> code b \<le> 159
      else if code a = 240 then 144 \<le> code b \<and> code b \<le> 191
      else if code a = 244 then 128 \<le> code b \<and> code b \<le> 143
      else utf8_cont b)"

definition byte_at :: "nat \<Rightarrow> bytes \<Rightarrow> byte" where
  "byte_at i s = (if i < length s then s ! i else CHR 0x00)"

definition utf8_step :: "bytes \<Rightarrow> bool \<times> nat" where
  "utf8_step s =
     (let a = code (byte_at 0 s) in
      if a < 128 then (True, 1)
      else if a < 194 \<or> 244 < a then (False, 1)
      else if \<not> second_byte_ok (byte_at 0 s) (byte_at 1 s) then (False, 1)
      else if a < 224 then (True, 2)
      else if \<not> utf8_cont (byte_at 2 s) then (False, 2)
      else if a < 240 then (True, 3)
      else if \<not> utf8_cont (byte_at 3 s) then (False, 3)
      else (True, 4))"

lemma utf8_step_pos: "0 < snd (utf8_step s)"
  by (simp add: utf8_step_def Let_def)

function from_utf8_lossy :: "bytes \<Rightarrow> bytes" where
  "from_utf8_lossy s =
     (if s = [] then []
      else (if fst (utf8_step s) then take (snd (utf8_step s)) s else [CHR 0xEF, CHR 0xBF, CHR 0xBD])
           @ from_utf8_lossy (drop (snd (utf8_step s)) s))"
  by pat_completeness auto
termination
  by (relation "measure length") (auto simp: utf8_step_pos)

declare from_utf8_lossy.simps [simp del]

section \<open>Facts\<close>

lemma byte_at_Cons [simp]: "byte_at 0 (a # s) = a" "byte_at (Suc i) (a # s) = byte_at i s"
  "byte_at (numeral k) (a # s) = byte_at (pred_numeral k) s" "byte_at i [] = CHR 0x00"
  by (simp_all add: byte_at_def numeral_eq_Suc)

text \<open>The lossy conversion keeps well-formed text.\<close>

lemma from_utf8_lossy_step:
  "\<lbrakk>s \<noteq> []; utf8_step s = (True, n)\<rbrakk> \<Longrightarrow> from_utf8_lossy s = take n s @ from_utf8_lossy (drop n s)"
  by (simp add: from_utf8_lossy.simps [of s])

lemma utf8_step_valid:
  "code a < 128 \<Longrightarrow> utf8_step (a # s) = (True, 1)"
  "\<lbrakk>194 \<le> code a; code a \<le> 223; utf8_cont b\<rbrakk> \<Longrightarrow> utf8_step (a # b # s) = (True, 2)"
  "\<lbrakk>224 \<le> code a; code a \<le> 239; utf8_cont b; utf8_cont c; code a = 224 \<longrightarrow> 160 \<le> code b; code a = 237 \<longrightarrow> code b \<le> 159\<rbrakk>
     \<Longrightarrow> utf8_step (a # b # c # s) = (True, 3)"
  "\<lbrakk>240 \<le> code a; code a \<le> 244; utf8_cont b; utf8_cont c; utf8_cont d; code a = 240 \<longrightarrow> 144 \<le> code b;
    code a = 244 \<longrightarrow> code b \<le> 143\<rbrakk> \<Longrightarrow> utf8_step (a # b # c # d # s) = (True, 4)"
  by (auto simp: utf8_step_def second_byte_ok_def utf8_cont_def Let_def)

lemma from_utf8_lossy_Nil [simp]: "from_utf8_lossy [] = []"
  by (simp add: from_utf8_lossy.simps)

lemma from_utf8_lossy_valid: "utf8_valid s \<Longrightarrow> from_utf8_lossy s = s"
  by (induction s rule: utf8_valid.induct)
    (auto simp: from_utf8_lossy_step utf8_step_valid split: if_splits)

lemma str_split_join:
  "\<lbrakk>ps \<noteq> []; \<forall>p \<in> set ps. d \<notin> set p\<rbrakk> \<Longrightarrow> str_split d (str_join d ps) = ps"
proof (induction ps rule: induct_list012)
  case (3 p q ps)
  then have "str_split d (str_join d (q # ps)) = q # ps" by simp
  moreover have "d \<notin> set p \<Longrightarrow> str_split d (p @ d # s) = p # str_split d s" for s
    by (induction p) auto
  ultimately show ?case using 3 by simp
qed (simp_all add: str_split_no)

definition part_ok :: "bytes \<Rightarrow> bool" where
  "part_ok s \<longleftrightarrow> s \<noteq> [] \<and> s \<noteq> ''.'' \<and> CHR ''/'' \<notin> set s"

lemma part_ok_last: "part_ok s \<Longrightarrow> s \<noteq> [] \<and> last s \<noteq> CHR ''/''"
  by (metis last_in_set part_ok_def)

lemma path_parts_ok: "list_all part_ok (path_parts p)"
  by (auto simp: path_parts_def part_ok_def list_all_iff dest: str_split_pieces)

lemma part_text [simp]: "component_text (part_component s) = s" "part_component s \<noteq> RootDir"
  by (simp_all add: part_component_def)

lemma push_parts:
  "\<lbrakk>list_all part_ok ps; buf \<noteq> []; last buf \<noteq> CHR ''/''\<rbrakk> \<Longrightarrow>
     foldl path_push buf (map part_component ps) = str_join (CHR ''/'') (buf # ps)"
proof (induction ps arbitrary: buf)
  case (Cons p ps)
  then have "last p \<noteq> CHR ''/''" "p \<noteq> []" by (simp_all add: part_ok_last)
  with Cons.IH [of "buf @ ''/'' @ p"] Cons.prems show ?case
    by (cases ps) (simp_all add: path_push_def)
qed simp

lemma collect_absolute:
  "path_is_absolute p \<Longrightarrow> path_collect (path_components p) = CHR ''/'' # str_join (CHR ''/'') (path_parts p)"
proof (cases "path_parts p")
  case (Cons q qs)
  moreover have "list_all part_ok (q # qs)" using path_parts_ok [of p] Cons by simp
  moreover from this have "last q \<noteq> CHR ''/''" "q \<noteq> []" by (simp_all add: part_ok_last)
  moreover assume "path_is_absolute p"
  ultimately show ?thesis
    using push_parts [of qs "CHR ''/'' # q"] by (cases qs) (simp_all add: path_collect_def path_components_def path_push_def)
qed (simp add: path_collect_def path_components_def path_push_def)

text \<open>Collecting the components of an absolute path gives an absolute path with the same components, without empty or
  \<^verbatim>\<open>.\<close> parts.\<close>

lemma collect_absolute_components:
  assumes "path_is_absolute p"
  shows "path_is_absolute (path_collect (path_components p))"
    "path_components (path_collect (path_components p)) = path_components p"
proof -
  let ?q = "path_collect (path_components p)"
  show abs: "path_is_absolute ?q" using assms by (simp add: collect_absolute path_is_absolute_def)
  have ok: "list_all part_ok (path_parts p)" by (rule path_parts_ok)
  have "str_split (CHR ''/'') ?q = [] # (if path_parts p = [] then [[]] else path_parts p)"
    using ok str_split_join [of "path_parts p" "CHR ''/''"] assms
    by (auto simp: collect_absolute part_ok_def list_all_iff)
  then have "path_parts ?q = path_parts p"
    using ok by (auto simp: path_parts_def [of ?q] part_ok_def list_all_iff intro!: filter_True)
  with assms abs show "path_components ?q = path_components p" by (simp add: path_components_def)
qed

text \<open>The name a path is joined with is its file name.\<close>

lemma str_split_append: "str_split d (a @ d # b) = str_split d a @ str_split d b"
  by (induction a) (auto split: list.split)

lemma str_split_not_Nil_append [simp]: "str_split d a @ xs \<noteq> []"
  by simp

definition name_ok :: "bytes \<Rightarrow> bool" where
  "name_ok t \<longleftrightarrow> part_ok t \<and> t \<noteq> ''..''"

lemma file_name_ok: "path_file_name p = Some t \<Longrightarrow> name_ok t"
proof -
  assume "path_file_name p = Some t"
  then obtain cs where cs: "rev (path_components p) = NormalPart t # cs"
    by (auto simp: path_file_name_def split: list.splits path_component.splits)
  then have "NormalPart t \<in> set (path_components p)" by (metis list.set_intros(1) set_rev)
  then obtain s where s: "s \<in> set (path_parts p)" "part_component s = NormalPart t"
    by (auto simp: path_components_def split: if_splits)
  then have "s = t" "t \<noteq> ''..''" by (auto simp: part_component_def split: if_splits)
  with s(1) path_parts_ok [of p] show ?thesis by (auto simp: name_ok_def list_all_iff)
qed

lemma file_name_of_parts: "path_parts p = ps @ [t] \<Longrightarrow> name_ok t \<Longrightarrow> path_file_name p = Some t"
  by (simp add: path_file_name_def path_components_def part_component_def name_ok_def)

lemma file_name_join:
  assumes "name_ok t"
  shows "path_file_name (path_join base t) = Some t"
proof -
  have t: "t \<noteq> []" "t \<noteq> ''.''" "CHR ''/'' \<notin> set t" using assms by (auto simp: name_ok_def part_ok_def)
  then have rel: "\<not> path_is_absolute t" by (cases t) (auto simp: path_is_absolute_def)
  have one: "path_parts t = [t]" using t by (simp add: path_parts_def str_split_no)
  show ?thesis
  proof (cases "base = []")
    case True
    with rel one assms show ?thesis by (simp add: path_join_def file_name_of_parts [of t "[]"])
  next
    case False
    define a where "a = (if last base = CHR ''/'' then butlast base else base)"
    have "path_join base t = a @ CHR ''/'' # t"
      using rel False by (cases base rule: rev_cases) (simp_all add: path_join_def a_def)
    with t have "path_parts (path_join base t) = path_parts a @ [t]" by (simp add: path_parts_def str_split_append str_split_no)
    from file_name_of_parts [OF this assms] show ?thesis .
  qed
qed

end
