(* ===== verification/Process_Context.thy ===== *)
theory Process_Context
  imports Rust_Path Stream_IO
begin

text \<open>
  Where a flow's process comes from (\<^verbatim>\<open>crates/abyss-broker/src/process_context\<close>, macOS build): the parser of the kernel's
  argument block, the recognition of a Node script's path among the arguments, and the parser of the kernel's
  working-directory record. \<^verbatim>\<open>sysctl\<close> and \<^verbatim>\<open>proc_pidinfo\<close> are parameters.
\<close>

section \<open>Process arguments\<close>

record process_arguments =
  pa_executable :: bytes
  pa_argv :: "bytes list"

definition MAX_ARGUMENT_BYTES :: nat where
  "MAX_ARGUMENT_BYTES = 0x00100000"

text \<open>\<^verbatim>\<open>take_string\<close>: the text before the next NUL, and what follows it.\<close>

definition take_string :: "bytes \<Rightarrow> (io_kind, bytes \<times> bytes) result" where
  "take_string remaining =
     (if CHR 0x00 \<notin> set remaining then Err InvalidData
      else
        (let raw = takeWhile (\<lambda>b. b \<noteq> CHR 0x00) remaining in
         if \<not> utf8_valid raw then Err InvalidData
         else Ok (raw, drop (length raw + 1) remaining)))"

primrec take_strings :: "nat \<Rightarrow> bytes \<Rightarrow> (io_kind, bytes list) result" where
  "take_strings 0 remaining = Ok []"
| "take_strings (Suc n) remaining =
     (case take_string remaining of
        Err k \<Rightarrow> Err k
      | Ok (arg, rest) \<Rightarrow> map_sum id (\<lambda>args. arg # args) (take_strings n rest))"

text \<open>\<^verbatim>\<open>i32::from_ne_bytes\<close> on a little-endian machine.\<close>

definition i32_from_ne_bytes :: "bytes \<Rightarrow> int" where
  "i32_from_ne_bytes bs =
     sint (of_nat (foldr (\<lambda>b acc. code b + 256 * acc) bs 0) :: 32 word)"

definition parse_process_arguments :: "bytes \<Rightarrow> (io_kind, process_arguments) result" where
  "parse_process_arguments bs =
     (if length bs < 4 then Err InvalidData
      else
        (let argument_count = i32_from_ne_bytes (take 4 bs) in
         if argument_count < 1 \<or> 4096 < argument_count then Err InvalidData
         else
           (case take_string (drop 4 bs) of
              Err k \<Rightarrow> Err k
            | Ok (executable, remaining) \<Rightarrow>
                if list_all (\<lambda>b. b = CHR 0x00) remaining then Err InvalidData
                else
                  (case take_strings (nat argument_count) (dropWhile (\<lambda>b. b = CHR 0x00) remaining) of
                     Err k \<Rightarrow> Err k
                   | Ok argv \<Rightarrow> Ok \<lparr>pa_executable = executable, pa_argv = argv\<rparr>))))"

text \<open>\<^verbatim>\<open>pid_t::try_from\<close> on a \<^verbatim>\<open>u32\<close>.\<close>

definition native_pid :: "nat \<Rightarrow> nat option" where
  "native_pid pid = (if pid < 2 ^ 31 \<and> 0 < pid then Some pid else None)"

definition read_process_arguments ::
  "(nat \<Rightarrow> nat \<Rightarrow> (io_kind, bytes) result) \<Rightarrow> nat \<Rightarrow> (io_kind, process_arguments) result" where
  "read_process_arguments sysctl_procargs2 pid =
     (case native_pid pid of
        None \<Rightarrow> Err InvalidInput
      | Some native \<Rightarrow>
          (case sysctl_procargs2 native MAX_ARGUMENT_BYTES of
             Err k \<Rightarrow> Err k
           | Ok bs \<Rightarrow> parse_process_arguments bs))"

section \<open>The Node entry point\<close>

definition node_names :: "bytes list" where
  "node_names = [''Electron'', ''electron'', ''electron.exe'', ''node'', ''nodejs'', ''node.exe'']"

definition node_host_names :: "bytes list" where
  "node_host_names = [''WorkBuddy.exe'', ''WorkBuddyAI.exe'']"

text \<open>\<^verbatim>\<open>rsplit(['/', '\\']).next()\<close>.\<close>

definition last_path_name :: "bytes \<Rightarrow> bytes" where
  "last_path_name s = rev (takeWhile (\<lambda>c. c \<noteq> CHR ''/'' \<and> c \<noteq> CHR 0x5C) (rev s))"

definition node_recognizes :: "bytes \<Rightarrow> bool" where
  "node_recognizes executable \<longleftrightarrow>
     (let name = last_path_name executable in
      name \<in> set node_names \<or> list_ex (\<lambda>known. eq_ignore_ascii_case name known) node_host_names)"

definition node_flags :: "bytes list" where
  "node_flags = [''--optimize-for-size'', ''--no-warnings'', ''--enable-source-maps'']"

definition node_size_options :: "bytes list" where
  "node_size_options = [''--max-semi-space-size='', ''--max-old-space-size='']"

definition is_size_option :: "bytes \<Rightarrow> bytes \<Rightarrow> bool" where
  "is_size_option option_text pre \<longleftrightarrow>
     prefix pre option_text
   \<and> (let number = drop (length pre) option_text in number \<noteq> [] \<and> list_all is_ascii_digit number)"

definition node_skips :: "bytes \<Rightarrow> bool" where
  "node_skips arg \<longleftrightarrow> arg \<in> set node_flags \<or> list_ex (is_size_option arg) node_size_options"

text \<open>The loop of \<^verbatim>\<open>parse_command\<close> over what follows the program's name.\<close>

fun scan_node_arguments :: "bytes list \<Rightarrow> bytes option" where
  "scan_node_arguments [] = None"
| "scan_node_arguments (arg # args) =
     (if arg = ''--'' then (case args of [] \<Rightarrow> None | path # _ \<Rightarrow> Some path)
      else if node_skips arg then scan_node_arguments args
      else if prefix ''-'' arg then None
      else Some arg)"

definition node_parse_command :: "process_arguments \<Rightarrow> bytes option" where
  "node_parse_command a = scan_node_arguments (drop 1 (pa_argv a))"

definition script_path_resolve :: "bytes \<Rightarrow> bytes \<Rightarrow> bytes option" where
  "script_path_resolve executable target =
     (if \<not> path_is_absolute executable \<or> \<not> path_is_absolute target then None
      else (let path = path_collect (path_components target) in if utf8_valid path then Some path else None))"

text \<open>A runtime (\<^verbatim>\<open>RuntimeEntryPointResolver\<close>) and the list of those the broker knows.\<close>

record entry_runtime =
  rt_recognizes :: "bytes \<Rightarrow> bool"
  rt_parse_command :: "process_arguments \<Rightarrow> bytes option"
  rt_execution_path :: "bytes \<Rightarrow> bytes \<Rightarrow> bytes option"

definition runtime_resolvers :: "entry_runtime list" where
  "runtime_resolvers =
     [\<lparr>rt_recognizes = node_recognizes, rt_parse_command = node_parse_command, rt_execution_path = script_path_resolve\<rparr>]"

definition entry_point_resolve ::
  "(nat \<Rightarrow> (io_kind, process_arguments) result) \<Rightarrow> nat option \<Rightarrow> bytes option" where
  "entry_point_resolve read pid =
     (case pid of
        None \<Rightarrow> None
      | Some p \<Rightarrow>
          (case read p of
             Err k \<Rightarrow> None
           | Ok arguments \<Rightarrow>
               (case List.find (\<lambda>rt. rt_recognizes rt (pa_executable arguments)) runtime_resolvers of
                  None \<Rightarrow> None
                | Some rt \<Rightarrow>
                    (case rt_parse_command rt arguments of
                       None \<Rightarrow> None
                     | Some target \<Rightarrow> rt_execution_path rt (pa_executable arguments) target))))"

section \<open>The working directory\<close>

text \<open>\<^verbatim>\<open>path_from_native_buffer\<close>: the rows of the kernel's path buffer, flattened up to the first NUL.\<close>

definition path_from_native_buffer :: "bytes list \<Rightarrow> (io_kind, bytes option) result" where
  "path_from_native_buffer buffer =
     (let flat = concat buffer; path = takeWhile (\<lambda>b. b \<noteq> CHR 0x00) flat in
      if CHR 0x00 \<notin> set flat then Err InvalidData
      else if path = [] then Ok None
      else Ok (Some path))"

text \<open>
  \<open>proc_pidinfo\<close> answers the size it wrote and the \<^verbatim>\<open>vip_path\<close> of the record, or the error of the call; \<open>expected\<close> is the
  size of the record.
\<close>

definition process_working_directory ::
  "nat \<Rightarrow> (nat \<Rightarrow> (io_kind, nat \<times> bytes list) result) \<Rightarrow> nat \<Rightarrow> (io_kind, bytes option) result" where
  "process_working_directory expected proc_pidinfo pid =
     (case native_pid pid of
        None \<Rightarrow> Err InvalidInput
      | Some native \<Rightarrow>
          (case proc_pidinfo native of
             Err k \<Rightarrow> Err k
           | Ok (actual, buffer) \<Rightarrow>
               if actual \<noteq> expected then Err UnexpectedEof else path_from_native_buffer buffer))"

definition working_directory_lookup ::
  "nat \<Rightarrow> (nat \<Rightarrow> (io_kind, nat \<times> bytes list) result) \<Rightarrow> nat \<Rightarrow> bytes option" where
  "working_directory_lookup expected proc_pidinfo pid =
     (case process_working_directory expected proc_pidinfo pid of Ok dir \<Rightarrow> dir | Err k \<Rightarrow> None)"

section \<open>Reading the argument block\<close>

lemma take_string_text:
  "\<lbrakk>CHR 0x00 \<notin> set s; utf8_valid s\<rbrakk> \<Longrightarrow> take_string (s @ CHR 0x00 # rest) = Ok (s, rest)"
proof -
  assume "CHR 0x00 \<notin> set s" "utf8_valid s"
  moreover from this have "takeWhile (\<lambda>b. b \<noteq> CHR 0x00) (s @ CHR 0x00 # rest) = s"
    by (subst takeWhile_append2) auto
  ultimately show ?thesis by (simp add: take_string_def)
qed

definition argument_ok :: "bytes \<Rightarrow> bool" where
  "argument_ok s \<longleftrightarrow> CHR 0x00 \<notin> set s \<and> utf8_valid s"

definition nul_terminated :: "bytes list \<Rightarrow> bytes" where
  "nul_terminated args = concat (map (\<lambda>a. a @ [CHR 0x00]) args)"

lemma take_strings_text:
  "list_all argument_ok args \<Longrightarrow> take_strings (length args) (nul_terminated args @ rest) = Ok args"
  by (induction args) (simp_all add: take_string_text argument_ok_def nul_terminated_def)

text \<open>The block the kernel fills: the count, the executable, padding, the arguments, then the environment.\<close>

definition le_count :: "nat \<Rightarrow> bytes" where
  "le_count n = [char_of (n mod 256), char_of (n div 256 mod 256), CHR 0x00, CHR 0x00]"

definition procargs2 :: "process_arguments \<Rightarrow> nat \<Rightarrow> bytes \<Rightarrow> bytes" where
  "procargs2 a padding environment =
     le_count (length (pa_argv a)) @ nul_terminated [pa_executable a] @ replicate padding (CHR 0x00)
     @ nul_terminated (pa_argv a) @ environment"

lemma le_count_value: "n < 65536 \<Longrightarrow> i32_from_ne_bytes (le_count n) = int n"
proof -
  assume n: "n < 65536"
  then have "n mod 256 + 256 * (n div 256 mod 256) = n" by (simp add: div_less_iff_less_mult mod_mult_div_eq)
  then have "i32_from_ne_bytes (le_count n) = sint (of_nat n :: 32 word)"
    by (simp add: i32_from_ne_bytes_def le_count_def code_def)
  also have "\<dots> = int n"
    using n by (simp add: signed_of_nat signed_take_bit_int_eq_self)
  finally show ?thesis .
qed

lemma dropWhile_nul:
  "\<lbrakk>s \<noteq> []; hd s \<noteq> CHR 0x00\<rbrakk> \<Longrightarrow> dropWhile (\<lambda>b. b = CHR 0x00) (replicate n (CHR 0x00) @ s) = s"
  by (induction n) (auto simp: dropWhile_eq_self_iff)

lemma not_all_nul: "\<lbrakk>s \<noteq> []; hd s \<noteq> c\<rbrakk> \<Longrightarrow> \<not> list_all (\<lambda>b. b = c) s"
  by (cases s) simp_all

lemma scan_node_arguments_Some:
  "scan_node_arguments args = Some target \<Longrightarrow>
     \<exists>pre post. list_all node_skips pre
       \<and> (args = pre @ ''--'' # target # post \<or> args = pre @ target # post \<and> prefix ''-'' target = False)"
proof (induction args)
  case (Cons arg args)
  show ?case
  proof (cases "arg \<noteq> ''--'' \<and> node_skips arg")
    case True
    with Cons obtain pre post where "list_all node_skips pre"
      "args = pre @ ''--'' # target # post \<or> args = pre @ target # post \<and> prefix ''-'' target = False" by auto
    with True show ?thesis by (intro exI [of _ "arg # pre"] exI [of _ post]) auto
  next
    case False
    with Cons.prems show ?thesis 
      by (intro exI [of _ "[]"] exI [of _ "if arg = ''--'' then tl args else args"]) (auto split: list.splits if_splits)
  qed
qed simp

section \<open>Properties\<close>

text \<open>
  The parser of the kernel's argument block recovers a process: from the block of a process with one to 4096 arguments in
  UTF-8, the first of them not empty, whatever padding follows the executable and whatever environment follows the
  arguments, it returns exactly the executable and the arguments.
\<close>

theorem procargs_round_trip:
  assumes "list_all argument_ok (pa_executable a # pa_argv a)" and "length (pa_argv a) \<le> 4096"
    and "pa_argv a = first # others" and "first = c # cs"
  shows "parse_process_arguments (procargs2 a padding environment) = Ok a"
proof -
  let ?args = "nul_terminated (pa_argv a) @ environment"
  have first: "?args \<noteq> []" "hd ?args \<noteq> CHR 0x00"
    using assms by (auto simp: nul_terminated_def argument_ok_def)
  then have some: "\<not> list_all (\<lambda>b. b = CHR 0x00) ?args" by (rule not_all_nul)
  have "take_string (drop 4 (procargs2 a padding environment)) = Ok (pa_executable a, replicate padding (CHR 0x00) @ ?args)"
    using assms(1) take_string_text [of "pa_executable a" "replicate padding (CHR 0x00) @ ?args"]
    by (simp add: procargs2_def le_count_def nul_terminated_def argument_ok_def)
  moreover have "i32_from_ne_bytes (take 4 (procargs2 a padding environment)) = int (length (pa_argv a))"
    using assms(2) le_count_value [of "length (pa_argv a)"] by (simp add: procargs2_def le_count_def)
  moreover have "4 \<le> length (procargs2 a padding environment)" by (simp add: procargs2_def le_count_def)
  moreover have "take_strings (length (pa_argv a)) (dropWhile (\<lambda>b. b = CHR 0x00) (replicate padding (CHR 0x00) @ ?args)) = Ok (pa_argv a)"
    unfolding dropWhile_nul [OF first] using assms(1) by (simp add: take_strings_text)
  moreover have "pa_argv a \<noteq> []" using assms(3) by simp
  ultimately show ?thesis using assms(2) some by (simp add: parse_process_arguments_def Let_def Suc_le_eq)
qed

theorem procargs_round_trip_witness:
  "parse_process_arguments (procargs2 \<lparr>pa_executable = ''/n'', pa_argv = [''n'', []]\<rparr> 3 ''E=1'')
     = Ok \<lparr>pa_executable = ''/n'', pa_argv = [''n'', []]\<rparr>"
  by (rule procargs_round_trip) (simp_all add: argument_ok_def code_def)

text \<open>
  Without the condition on the first argument it fails: an empty first argument is taken for padding, so the arguments
  shift by one and the first variable of the environment becomes the last of them.
\<close>

lemma empty_program_name_shifts_arguments:
  "parse_process_arguments (procargs2 \<lparr>pa_executable = ''/n'', pa_argv = [[], ''s'']\<rparr> 2 (''/e'' @ [CHR 0x00]))
     = Ok \<lparr>pa_executable = ''/n'', pa_argv = [''s'', ''/e'']\<rparr>"
  by (simp add: parse_process_arguments_def procargs2_def le_count_def nul_terminated_def take_string_def code_def
      i32_from_ne_bytes_def numeral_2_eq_2)

text \<open>
  An entry point is only ever the script a recognised runtime runs: it is an absolute path with the components of an
  argument that follows options known to take no value (or an explicit end of options), itself no option, in the
  arguments of the very process asked about.
\<close>

theorem entry_point_is_script:
  "case entry_point_resolve read pid of
     None \<Rightarrow> True
   | Some path \<Rightarrow>
       \<exists>p a target pre post. pid = Some p \<and> read p = Ok a \<and> node_recognizes (pa_executable a) \<and> list_all node_skips pre
        \<and> (drop 1 (pa_argv a) = pre @ ''--'' # target # post
           \<or> drop 1 (pa_argv a) = pre @ target # post \<and> prefix ''-'' target = False)
        \<and> path_is_absolute path \<and> path_is_absolute (pa_executable a) \<and> path_components path = path_components target
        \<and> utf8_valid path"
proof (cases "entry_point_resolve read pid")
  case (Some path)
  then obtain p a target where *: "pid = Some p" "read p = Ok a" "node_recognizes (pa_executable a)"
    "scan_node_arguments (drop 1 (pa_argv a)) = Some target" "script_path_resolve (pa_executable a) target = Some path"
    by (auto simp: entry_point_resolve_def runtime_resolvers_def node_parse_command_def
        split: option.splits sum.splits if_splits)
  from *(5) have t: "path_is_absolute target" "path_is_absolute (pa_executable a)" "path = path_collect (path_components target)"
    "utf8_valid path"
    by (auto simp: script_path_resolve_def Let_def split: if_splits)
  from *(4) obtain pre post where "list_all node_skips pre"
    "drop 1 (pa_argv a) = pre @ ''--'' # target # post \<or> drop 1 (pa_argv a) = pre @ target # post \<and> prefix ''-'' target = False"
    by (blast dest: scan_node_arguments_Some)
  with * t Some collect_absolute_components [OF t(1)] show ?thesis by auto
qed simp

end
