(* ===== verification/Process_Cache.thy ===== *)
theory Process_Cache
  imports Process_Context "HOL-Library.AList"
begin

text \<open>
  The working-directory cache (\<^verbatim>\<open>crates/abyss-broker/src/process_context/cache.rs\<close>). Entries are shared between callers
  (\<^verbatim>\<open>Arc<CacheEntry>\<close> with a \<^verbatim>\<open>OnceLock\<close>), so they live in a heap and the map holds references. A call takes an entry
  under the mutex and initialises it, or waits for whoever does, outside of it; calls of several threads interleave
  between the two. An \<^verbatim>\<open>Instant\<close> is a number of nanoseconds up to \<open>imax\<close>.
\<close>

section \<open>Operations\<close>

definition CACHE_TTL :: nat where
  "CACHE_TTL = 60 * 10 ^ 9"

record process_identity =
  pi_pid :: nat
  pi_pid_version :: "nat option"

record cache_entry =
  ce_working_directory :: "bytes option option"
  ce_expires_at :: nat

record process_cache =
  pc_entries :: "(process_identity \<times> nat) list"
  pc_heap :: "cache_entry list"

definition process_cache_new :: process_cache where
  "process_cache_new = \<lparr>pc_entries = [], pc_heap = []\<rparr>"

definition entry_live :: "nat \<Rightarrow> cache_entry list \<Rightarrow> nat \<Rightarrow> bool" where
  "entry_live now heap i \<longleftrightarrow> now < ce_expires_at (heap ! i)"

definition insert_entry :: "nat \<Rightarrow> nat \<Rightarrow> process_identity \<Rightarrow> process_cache \<Rightarrow> nat \<times> process_cache" where
  "insert_entry imax now identity c =
     (let kept = filter (\<lambda>(k, i). entry_live now (pc_heap c) i) (pc_entries c);
          expires_at = (if now + CACHE_TTL \<le> imax then now + CACHE_TTL else now);
          fresh = length (pc_heap c)
      in (fresh,
          \<lparr>pc_entries = AList.update identity fresh kept,
           pc_heap = pc_heap c @ [\<lparr>ce_working_directory = None, ce_expires_at = expires_at\<rparr>]\<rparr>))"

definition cache_entry_at :: "nat \<Rightarrow> nat \<Rightarrow> process_identity \<Rightarrow> process_cache \<Rightarrow> nat \<times> process_cache" where
  "cache_entry_at imax now identity c =
     (case map_of (pc_entries c) identity of
        Some i \<Rightarrow> if entry_live now (pc_heap c) i then (i, c) else insert_entry imax now identity c
      | None \<Rightarrow> insert_entry imax now identity c)"

text \<open>\<^verbatim>\<open>OnceLock::get_or_init\<close> on an entry; the Boolean says whether the provider was asked.\<close>

definition get_or_init :: "bytes option \<Rightarrow> nat \<Rightarrow> process_cache \<Rightarrow> bytes option \<times> bool \<times> process_cache" where
  "get_or_init answer i c =
     (case ce_working_directory (pc_heap c ! i) of
        Some dir \<Rightarrow> (dir, False, c)
      | None \<Rightarrow>
          (answer, True, c\<lparr>pc_heap := (pc_heap c)[i := (pc_heap c ! i)\<lparr>ce_working_directory := Some answer\<rparr>]\<rparr>))"

text \<open>One undisturbed call.\<close>

definition cached_working_directory ::
  "(nat \<Rightarrow> bytes option) \<Rightarrow> nat \<Rightarrow> nat \<Rightarrow> nat option \<Rightarrow> nat option \<Rightarrow> process_cache \<Rightarrow> bytes option \<times> process_cache" where
  "cached_working_directory lookup imax now pid pid_version c =
     (case pid of
        None \<Rightarrow> (None, c)
      | Some p \<Rightarrow>
          (case cache_entry_at imax now \<lparr>pi_pid = p, pi_pid_version = pid_version\<rparr> c of
             (i, c') \<Rightarrow> (case get_or_init (lookup p) i c' of (dir, _, c'') \<Rightarrow> (dir, c''))))"

definition cached_entry_point :: "(nat \<Rightarrow> (io_kind, process_arguments) result) \<Rightarrow> nat option \<Rightarrow> bytes option" where
  "cached_entry_point read pid = entry_point_resolve read pid"

section \<open>Interleaved calls\<close>

text \<open>A call that holds an entry, a lookup that was made, and a call that has returned.\<close>

record cache_call =
  cc_identity :: process_identity
  cc_started :: nat
  cc_entry :: nat

record cache_lookup =
  cl_identity :: process_identity
  cl_time :: nat
  cl_entry :: nat
  cl_answer :: "bytes option"

record cache_run =
  cr_cache :: process_cache
  cr_clock :: nat
  cr_calls :: "cache_call list"
  cr_lookups :: "cache_lookup list"
  cr_returns :: "(cache_call \<times> bytes option) list"

definition run_start :: cache_run where
  "run_start = \<lparr>cr_cache = process_cache_new, cr_clock = 0, cr_calls = [], cr_lookups = [], cr_returns = []\<rparr>"

text \<open>
  The clock does not go back, and provider answers are arbitrary. \<open>take_entry\<close> joins two actions of \<^verbatim>\<open>entry\<close>: it reads the
  clock, and then takes the lock under which it looks up, cleans and inserts.
\<close>

inductive cache_step :: "nat \<Rightarrow> cache_run \<Rightarrow> cache_run \<Rightarrow> bool" for imax where
  tick: "cr_clock s \<le> now \<Longrightarrow> cache_step imax s (s\<lparr>cr_clock := now\<rparr>)"
| take_entry:
    "cache_entry_at imax (cr_clock s) identity (cr_cache s) = (i, c) \<Longrightarrow>
     cache_step imax s
       (s\<lparr>cr_cache := c, cr_calls := \<lparr>cc_identity = identity, cc_started = cr_clock s, cc_entry = i\<rparr> # cr_calls s\<rparr>)"
| finish:
    "\<lbrakk>call \<in> set (cr_calls s); get_or_init answer (cc_entry call) (cr_cache s) = (dir, asked, c)\<rbrakk> \<Longrightarrow>
     cache_step imax s
       (s\<lparr>cr_cache := c, cr_calls := remove1 call (cr_calls s), cr_returns := (call, dir) # cr_returns s,
          cr_lookups :=
            (if asked
             then [\<lparr>cl_identity = cc_identity call, cl_time = cr_clock s, cl_entry = cc_entry call, cl_answer = dir\<rparr>] else [])
            @ cr_lookups s\<rparr>)"

definition cache_reachable :: "nat \<Rightarrow> cache_run \<Rightarrow> bool" where
  "cache_reachable imax s \<longleftrightarrow> (cache_step imax)\<^sup>*\<^sup>* run_start s"

section \<open>The invariant\<close>

text \<open>Who asked for an entry first, and when.\<close>

record entry_origin =
  eo_identity :: process_identity
  eo_time :: nat

definition heap_ok :: "(nat \<Rightarrow> entry_origin) \<Rightarrow> nat \<Rightarrow> process_cache \<Rightarrow> bool" where
  "heap_ok org clock c \<longleftrightarrow>
     (\<forall>(k, i) \<in> set (pc_entries c). i < length (pc_heap c) \<and> eo_identity (org i) = k)
   \<and> (\<forall>i < length (pc_heap c). ce_expires_at (pc_heap c ! i) \<le> eo_time (org i) + CACHE_TTL \<and> eo_time (org i) \<le> clock)"

definition call_ok :: "(nat \<Rightarrow> entry_origin) \<Rightarrow> process_cache \<Rightarrow> cache_call \<Rightarrow> bool" where
  "call_ok org c call \<longleftrightarrow>
     cc_entry call < length (pc_heap c) \<and> eo_identity (org (cc_entry call)) = cc_identity call
   \<and> cc_started call < eo_time (org (cc_entry call)) + CACHE_TTL"

definition lookup_ok :: "(nat \<Rightarrow> entry_origin) \<Rightarrow> process_cache \<Rightarrow> cache_lookup \<Rightarrow> bool" where
  "lookup_ok org c l \<longleftrightarrow>
     cl_entry l < length (pc_heap c) \<and> eo_identity (org (cl_entry l)) = cl_identity l
   \<and> eo_time (org (cl_entry l)) \<le> cl_time l \<and> ce_working_directory (pc_heap c ! cl_entry l) = Some (cl_answer l)"

definition run_ok :: "(nat \<Rightarrow> entry_origin) \<Rightarrow> cache_run \<Rightarrow> bool" where
  "run_ok org s \<longleftrightarrow>
     heap_ok org (cr_clock s) (cr_cache s)
   \<and> list_all (call_ok org (cr_cache s)) (cr_calls s)
   \<and> list_all (lookup_ok org (cr_cache s)) (cr_lookups s)
   \<and> distinct (map cl_entry (cr_lookups s))
   \<and> (\<forall>i < length (pc_heap (cr_cache s)). ce_working_directory (pc_heap (cr_cache s) ! i) = None
        \<longleftrightarrow> i \<notin> cl_entry ` set (cr_lookups s))
   \<and> list_all (\<lambda>(call, dir). call_ok org (cr_cache s) call
        \<and> ce_working_directory (pc_heap (cr_cache s) ! cc_entry call) = Some dir) (cr_returns s)"

lemma CACHE_TTL_pos: "0 < CACHE_TTL"
  by (simp add: CACHE_TTL_def)

lemma set_alist_update: "set (AList.update k v al) \<subseteq> insert (k, v) (set al)"
  by (induction al) auto

text \<open>Taking an entry keeps every entry there is, and gives one that has not been asked for too long ago.\<close>

lemma cache_entry_at_ok:
  assumes ok: "heap_ok org now c" and run: "cache_entry_at imax now identity c = (i, c')"
  shows "\<exists>org' hs. heap_ok org' now c' \<and> pc_heap c' = pc_heap c @ hs \<and> (\<forall>j < length (pc_heap c). org' j = org j)
    \<and> list_all (\<lambda>h. ce_working_directory h = None) hs
    \<and> call_ok org' c' \<lparr>cc_identity = identity, cc_started = now, cc_entry = i\<rparr>"
proof (cases "\<exists>j. map_of (pc_entries c) identity = Some j \<and> entry_live now (pc_heap c) j")
  case True
  then have hit: "map_of (pc_entries c) identity = Some i" "entry_live now (pc_heap c) i" "c' = c"
    using run by (auto simp: cache_entry_at_def)
  from map_of_SomeD [OF hit(1)] ok have "i < length (pc_heap c)" "eo_identity (org i) = identity"
    "ce_expires_at (pc_heap c ! i) \<le> eo_time (org i) + CACHE_TTL" by (auto simp: heap_ok_def)
  with hit ok show ?thesis by (intro exI [of _ org] exI [of _ "[]"]) (auto simp: call_ok_def entry_live_def)
next
  case False
  then have "insert_entry imax now identity c = (i, c')"
    using run by (auto simp: cache_entry_at_def split: option.splits if_splits)
  then obtain e where new: "i = length (pc_heap c)" "pc_heap c' = pc_heap c @ [\<lparr>ce_working_directory = None, ce_expires_at = e\<rparr>]"
    "e \<le> now + CACHE_TTL" "pc_entries c' = AList.update identity i (filter (\<lambda>(k, i). entry_live now (pc_heap c) i) (pc_entries c))"
    by (auto simp: insert_entry_def Let_def)
  let ?org = "org(i := \<lparr>eo_identity = identity, eo_time = now\<rparr>)"
  have "set (pc_entries c') \<subseteq> insert (identity, i) (set (pc_entries c))"
    unfolding new(4) by (rule subset_trans [OF set_alist_update]) auto
  with ok new(1-3) have "heap_ok ?org now c'" by (fastforce simp: heap_ok_def nth_append)
  moreover have "call_ok ?org c' \<lparr>cc_identity = identity, cc_started = now, cc_entry = i\<rparr>"
    using CACHE_TTL_pos by (simp add: call_ok_def new)
  ultimately show ?thesis using new by (intro exI [of _ ?org] exI) auto
qed

lemma call_ok_grows:
  "\<lbrakk>call_ok org c call; pc_heap c' = pc_heap c @ hs; \<forall>j < length (pc_heap c). org' j = org j\<rbrakk> \<Longrightarrow> call_ok org' c' call"
  by (simp add: call_ok_def)

lemma lookup_ok_grows:
  "\<lbrakk>lookup_ok org c l; pc_heap c' = pc_heap c @ hs; \<forall>j < length (pc_heap c). org' j = org j\<rbrakk> \<Longrightarrow> lookup_ok org' c' l"
  by (simp add: lookup_ok_def nth_append)

lemma take_entry_ok:
  assumes ok: "run_ok org s" and run: "cache_entry_at imax (cr_clock s) identity (cr_cache s) = (i, c)"
  shows "\<exists>org'. run_ok org'
    (s\<lparr>cr_cache := c, cr_calls := \<lparr>cc_identity = identity, cc_started = cr_clock s, cc_entry = i\<rparr> # cr_calls s\<rparr>)"
proof -
  from ok have "heap_ok org (cr_clock s) (cr_cache s)" by (simp add: run_ok_def)
  from cache_entry_at_ok [OF this run] obtain org' hs where new: "heap_ok org' (cr_clock s) c"
    "pc_heap c = pc_heap (cr_cache s) @ hs" "\<forall>j < length (pc_heap (cr_cache s)). org' j = org j"
    "list_all (\<lambda>h. ce_working_directory h = None) hs"
    "call_ok org' c \<lparr>cc_identity = identity, cc_started = cr_clock s, cc_entry = i\<rparr>" by blast
  have "list_all (call_ok org' c) (cr_calls s)" "list_all (lookup_ok org' c) (cr_lookups s)"
    using ok call_ok_grows [OF _ new(2,3)] lookup_ok_grows [OF _ new(2,3)] by (auto simp: run_ok_def list_all_iff)
  moreover have "list_all (\<lambda>(call, dir). call_ok org' c call \<and> ce_working_directory (pc_heap c ! cc_entry call) = Some dir) (cr_returns s)"
    using ok call_ok_grows [OF _ new(2,3)] by (fastforce simp: run_ok_def list_all_iff new(2) nth_append call_ok_def)
  moreover have "ce_working_directory (pc_heap c ! j) = None \<longleftrightarrow> j \<notin> cl_entry ` set (cr_lookups s)" if "j < length (pc_heap c)" for j
  proof (cases "j < length (pc_heap (cr_cache s))")
    case True
    with ok show ?thesis by (simp add: run_ok_def new(2) nth_append)
  next
    case False
    then have "ce_working_directory (pc_heap c ! j) = None" using that new(4) by (simp add: new(2) nth_append list_all_length)
    moreover have "j \<notin> cl_entry ` set (cr_lookups s)" using ok False by (auto simp: run_ok_def list_all_iff lookup_ok_def)
    ultimately show ?thesis by simp
  qed
  ultimately show ?thesis using new ok by (intro exI [of _ org']) (simp add: run_ok_def)
qed

text \<open>Filling an entry changes nothing else.\<close>

lemma finish_ok:
  assumes ok: "run_ok org s" and call: "call \<in> set (cr_calls s)"
    and run: "get_or_init answer (cc_entry call) (cr_cache s) = (dir, asked, c)"
  shows "run_ok org
    (s\<lparr>cr_cache := c, cr_calls := remove1 call (cr_calls s), cr_returns := (call, dir) # cr_returns s,
       cr_lookups :=
         (if asked
          then [\<lparr>cl_identity = cc_identity call, cl_time = cr_clock s, cl_entry = cc_entry call, cl_answer = dir\<rparr>] else [])
         @ cr_lookups s\<rparr>)"
proof -
  let ?i = "cc_entry call" and ?h = "pc_heap (cr_cache s)"
  from ok call have i: "call_ok org (cr_cache s) call" "?i < length ?h" by (auto simp: run_ok_def list_all_iff call_ok_def)
  have calls: "list_all P (remove1 call xs)" if "list_all P xs" for P xs
    using that set_remove1_subset [of call xs] by (auto simp: list_all_iff)
  show ?thesis
  proof (cases "ce_working_directory (?h ! ?i)")
    case (Some d)
    with run have "asked = False" "c = cr_cache s" "dir = d" by (auto simp: get_or_init_def)
    with ok i Some calls show ?thesis by (simp add: run_ok_def)
  next
    case None
    with run have c: "asked" "dir = answer" "pc_entries c = pc_entries (cr_cache s)"
      "pc_heap c = ?h[?i := (?h ! ?i)\<lparr>ce_working_directory := Some answer\<rparr>]" by (auto simp: get_or_init_def)
    have new: "?i \<notin> cl_entry ` set (cr_lookups s)" using ok i None by (simp add: run_ok_def)
    have heap: "heap_ok org (cr_clock s) c" using ok i(2) by (auto simp: run_ok_def heap_ok_def c nth_list_update)
    have keep: "call_ok org c x" if "call_ok org (cr_cache s) x" for x using that by (simp add: call_ok_def c)
    have "list_all (lookup_ok org c) (cr_lookups s)"
      using ok new i(2) by (fastforce simp: run_ok_def list_all_iff lookup_ok_def c nth_list_update)
    moreover have "eo_time (org ?i) \<le> cr_clock s" using ok i(2) by (simp add: run_ok_def heap_ok_def)
    moreover have "list_all (\<lambda>(x, d). call_ok org c x \<and> ce_working_directory (pc_heap c ! cc_entry x) = Some d) (cr_returns s)"
      using ok None keep i(2) by (fastforce simp: run_ok_def list_all_iff c nth_list_update call_ok_def)
    moreover have "list_all (call_ok org c) (cr_calls s)" using ok keep by (auto simp: run_ok_def list_all_iff)
    ultimately show ?thesis
      using ok i new heap calls keep by (auto simp: run_ok_def c lookup_ok_def call_ok_def nth_list_update)
  qed
qed

lemma cache_reachable_ok: "cache_reachable imax s \<Longrightarrow> \<exists>org. run_ok org s"
  unfolding cache_reachable_def
proof (induction rule: rtranclp_induct)
  case base
  show ?case by (auto simp: run_ok_def run_start_def process_cache_new_def heap_ok_def)
next
  case (step s s')
  from step.IH obtain org where ok: "run_ok org s" by blast
  from step.hyps(2) show ?case
  proof cases
    case (tick now)
    with ok show ?thesis by (intro exI [of _ org]) (force simp: run_ok_def heap_ok_def)
  next
    case (take_entry identity i c)
    with take_entry_ok [OF ok] show ?thesis by simp
  next
    case (finish call answer dir asked c)
    from finish_ok [OF ok finish(2,3)] show ?thesis unfolding finish(1) by blast
  qed
qed

section \<open>Properties\<close>

text \<open>
  C34. However the calls of several threads interleave and whatever the provider answers, the provider is asked at most once
  per cache entry, and every call returns the answer of a lookup made for the very same process (pid and incarnation),
  no more than a minute before the call began.
\<close>

theorem cache_one_fresh_lookup:
  assumes "cache_reachable imax s"
  shows "distinct (map cl_entry (cr_lookups s))
    \<and> list_all (\<lambda>(call, dir). list_ex (\<lambda>l. cl_entry l = cc_entry call \<and> cl_identity l = cc_identity call \<and> cl_answer l = dir
         \<and> cc_started call < cl_time l + CACHE_TTL) (cr_lookups s)) (cr_returns s)"
proof -
  from cache_reachable_ok [OF assms] obtain org where ok: "run_ok org s" by blast
  have "\<exists>l \<in> set (cr_lookups s). cl_entry l = cc_entry call \<and> cl_identity l = cc_identity call \<and> cl_answer l = dir
      \<and> cc_started call < cl_time l + CACHE_TTL" if "(call, dir) \<in> set (cr_returns s)" for call dir
  proof -
    from ok that have r: "call_ok org (cr_cache s) call"
      "ce_working_directory (pc_heap (cr_cache s) ! cc_entry call) = Some dir" by (auto simp: run_ok_def list_all_iff)
    with ok obtain l where l: "l \<in> set (cr_lookups s)" "cl_entry l = cc_entry call"
      by (fastforce simp: run_ok_def call_ok_def)
    with ok have "lookup_ok org (cr_cache s) l" by (auto simp: run_ok_def list_all_iff)
    with r l show ?thesis by (intro bexI [of _ l]) (auto simp: lookup_ok_def call_ok_def)
  qed
  with ok show ?thesis by (auto simp: run_ok_def list_all_iff list_ex_iff)
qed

text \<open>Two calls share an entry; only the first asks the provider.\<close>

definition sample_identity :: process_identity where
  "sample_identity = \<lparr>pi_pid = 7, pi_pid_version = Some 1\<rparr>"

definition sample_call :: cache_call where
  "sample_call = \<lparr>cc_identity = sample_identity, cc_started = 0, cc_entry = 0\<rparr>"

definition sample_taken :: cache_run where
  "sample_taken =
     run_start\<lparr>cr_cache := snd (cache_entry_at CACHE_TTL 0 sample_identity process_cache_new), cr_calls := [sample_call, sample_call]\<rparr>"

definition sample_shared :: cache_run where
  "sample_shared =
     sample_taken\<lparr>cr_cache := \<lparr>pc_entries = [(sample_identity, 0)],
         pc_heap = [\<lparr>ce_working_directory = Some (Some ''/w''), ce_expires_at = CACHE_TTL\<rparr>]\<rparr>, cr_calls := [],
       cr_returns := [(sample_call, Some ''/w''), (sample_call, Some ''/w'')],
       cr_lookups := [\<lparr>cl_identity = sample_identity, cl_time = 0, cl_entry = 0, cl_answer = Some ''/w''\<rparr>]\<rparr>"

lemmas cache_eval =
  sample_taken_def sample_shared_def sample_call_def run_start_def process_cache_new_def cache_entry_at_def insert_entry_def
  entry_live_def get_or_init_def CACHE_TTL_pos

lemma sample_taken_reachable: "cache_reachable CACHE_TTL sample_taken"
proof -
  let ?s = "run_start\<lparr>cr_cache := snd (cache_entry_at CACHE_TTL 0 sample_identity process_cache_new), cr_calls := [sample_call]\<rparr>"
  have "cache_step CACHE_TTL run_start ?s"
    using cache_step.take_entry [of CACHE_TTL run_start sample_identity 0 "cr_cache ?s"] by (simp add: cache_eval)
  moreover have "cache_step CACHE_TTL ?s sample_taken"
    using cache_step.take_entry [of CACHE_TTL ?s sample_identity 0 "cr_cache ?s"] by (simp add: cache_eval)
  ultimately show ?thesis unfolding cache_reachable_def by (meson converse_rtranclp_into_rtranclp r_into_rtranclp)
qed

lemma sample_shared_reachable: "cache_reachable CACHE_TTL sample_shared"
proof -
  let ?s = "sample_shared\<lparr>cr_calls := [sample_call], cr_returns := [(sample_call, Some ''/w'')]\<rparr>"
  have "cache_step CACHE_TTL sample_taken ?s"
    using cache_step.finish [of sample_call sample_taken "Some ''/w''" "Some ''/w''" True "cr_cache ?s" CACHE_TTL]
    by (simp add: cache_eval)
  moreover have "cache_step CACHE_TTL ?s sample_shared"
    using cache_step.finish [of sample_call ?s None "Some ''/w''" False "cr_cache ?s" CACHE_TTL] by (simp add: cache_eval)
  ultimately show ?thesis
    using sample_taken_reachable unfolding cache_reachable_def by (meson rtranclp.rtrancl_into_rtrancl)
qed

theorem cache_one_fresh_lookup_witness:
  "length (cr_returns sample_shared) = 2 \<and> distinct (map cl_entry (cr_lookups sample_shared))
   \<and> list_all (\<lambda>(call, dir). list_ex (\<lambda>l. cl_identity l = cc_identity call \<and> cl_answer l = dir) (cr_lookups sample_shared))
       (cr_returns sample_shared)"
  using cache_one_fresh_lookup [OF sample_shared_reachable] by (auto simp: sample_shared_def)

end
