(* ===== verification/Macos_Ingress.thy ===== *)
theory Macos_Ingress
  imports Framed_Props Platform_Flow Process_Cache
begin

text \<open>
  The macOS adapter (\<^verbatim>\<open>crates/abyss-broker/src/ingress/macos/mod.rs\<close>): binding the Unix socket, reading the \<^verbatim>\<open>FlowOpen\<close>
  frame of a connection, and building the flow, its metadata, its source process and its way to the provider.
  The file system, the resolver, \<^verbatim>\<open>serde_json\<close> and the conversion of a UUID into a flow id are parameters.
\<close>

section \<open>Errors\<close>

datatype macos_ingress_error =
    CreateSocketDirectory bytes io_kind
  | BindUnixSocket bytes io_kind
  | RemoveStaleUnixSocket bytes io_kind
  | ConfigureUnixSocketPermissions bytes io_kind
  | AcceptUnixSocket bytes io_kind
  | ResolveDestination bytes u16 io_kind
  | InvalidFramedFlow string
  | FramedProtocol string flow_protocol_error
  | IngressTask string

section \<open>Binding the socket\<close>

definition SOCKET_DIRECTORY_MODE :: nat where
  "SOCKET_DIRECTORY_MODE = 2 * 8 ^ 3 + 7 * 8 ^ 2 + 1 * 8"

definition SOCKET_FILE_MODE :: nat where
  "SOCKET_FILE_MODE = 6 * 8 ^ 2 + 6 * 8"

text \<open>What the adapter does to the file system, in order, and what the file system answers.\<close>

datatype fs_action =
    FsTryExists bytes
  | FsCreateDirAll bytes
  | FsSetPermissions bytes nat
  | FsBind bytes
  | FsConnect bytes
  | FsRemoveFile bytes

record socket_fs =
  sf_try_exists :: "(io_kind, bool) result"
  sf_create_dir_all :: "(io_kind, unit) result"
  sf_set_permissions :: "bytes \<Rightarrow> (io_kind, unit) result"
  sf_bind :: "(io_kind, unit) result"
  sf_connect :: "(io_kind, unit) result"
  sf_remove_file :: "(io_kind, unit) result"
  sf_bind_again :: "(io_kind, unit) result"

definition set_mode ::
  "socket_fs \<Rightarrow> bytes \<Rightarrow> nat \<Rightarrow> (macos_ingress_error, unit) result \<times> fs_action list" where
  "set_mode fs path mode =
     (map_sum (ConfigureUnixSocketPermissions path) id (sf_set_permissions fs path), [FsSetPermissions path mode])"

definition create_parent_directory ::
  "socket_fs \<Rightarrow> bytes \<Rightarrow> (macos_ingress_error, unit) result \<times> fs_action list" where
  "create_parent_directory fs socket_path =
     (case path_parent socket_path of
        None \<Rightarrow> (Ok (), [])
      | Some parent \<Rightarrow>
          if parent = [] then (Ok (), [])
          else
            (case sf_try_exists fs of
               Err k \<Rightarrow> (Err (CreateSocketDirectory parent k), [FsTryExists parent])
             | Ok parent_existed \<Rightarrow>
                 (case sf_create_dir_all fs of
                    Err k \<Rightarrow> (Err (CreateSocketDirectory parent k), [FsTryExists parent, FsCreateDirAll parent])
                  | Ok _ \<Rightarrow>
                      if \<not> parent_existed \<or> path_file_name parent = Some ''abyss''
                      then (case set_mode fs parent SOCKET_DIRECTORY_MODE of
                              (res, acts) \<Rightarrow> (res, [FsTryExists parent, FsCreateDirAll parent] @ acts))
                      else (Ok (), [FsTryExists parent, FsCreateDirAll parent]))))"

definition bind_again ::
  "socket_fs \<Rightarrow> bytes \<Rightarrow> (macos_ingress_error, unit) result" where
  "bind_again fs socket_path = map_sum (BindUnixSocket socket_path) id (sf_bind_again fs)"

definition bind_listener ::
  "socket_fs \<Rightarrow> bytes \<Rightarrow> (macos_ingress_error, unit) result \<times> fs_action list" where
  "bind_listener fs socket_path =
     (case sf_bind fs of
        Ok _ \<Rightarrow> (Ok (), [FsBind socket_path])
      | Err bind_error \<Rightarrow>
          if bind_error \<noteq> AddrInUse then (Err (BindUnixSocket socket_path bind_error), [FsBind socket_path])
          else
            (case sf_connect fs of
               Ok _ \<Rightarrow> (Err (BindUnixSocket socket_path bind_error), [FsBind socket_path, FsConnect socket_path])
             | Err k \<Rightarrow>
                 if k = ConnectionRefused
                 then
                   (case sf_remove_file fs of
                      Err e \<Rightarrow>
                        if e \<noteq> NotFound
                        then (Err (RemoveStaleUnixSocket socket_path e),
                              [FsBind socket_path, FsConnect socket_path, FsRemoveFile socket_path])
                        else (bind_again fs socket_path,
                              [FsBind socket_path, FsConnect socket_path, FsRemoveFile socket_path, FsBind socket_path])
                    | Ok _ \<Rightarrow>
                        (bind_again fs socket_path,
                         [FsBind socket_path, FsConnect socket_path, FsRemoveFile socket_path, FsBind socket_path]))
                 else if k = NotFound
                 then (bind_again fs socket_path, [FsBind socket_path, FsConnect socket_path, FsBind socket_path])
                 else (Err (BindUnixSocket socket_path bind_error), [FsBind socket_path, FsConnect socket_path])))"

text \<open>
  The ingress exists once the socket is bound, so a failure to set the permissions drops it, which removes the socket file.
\<close>

definition bind_with_resolver ::
  "socket_fs \<Rightarrow> bytes \<Rightarrow> (macos_ingress_error, unit) result \<times> fs_action list" where
  "bind_with_resolver fs socket_path =
     (case create_parent_directory fs socket_path of
        (Err e, acts) \<Rightarrow> (Err e, acts)
      | (Ok _, acts) \<Rightarrow>
          (case bind_listener fs socket_path of
             (Err e, acts') \<Rightarrow> (Err e, acts @ acts')
           | (Ok _, acts') \<Rightarrow>
               (case set_mode fs socket_path SOCKET_FILE_MODE of
                  (Err e, acts'') \<Rightarrow> (Err e, acts @ acts' @ acts'' @ [FsRemoveFile socket_path])
                | (Ok _, acts'') \<Rightarrow> (Ok (), acts @ acts' @ acts''))))"

section \<open>The open frame\<close>

datatype flow_transport_protocol = TcpTransport

record 'u flow_open_payload =
  op_flow_id :: 'u
  op_platform :: bytes
  op_protocol_name :: flow_transport_protocol
  op_source_pid :: "nat option"
  op_source_pid_version :: "nat option"
  op_source_process :: "bytes option"
  op_source_application_id :: "bytes option"
  op_destination_host :: "bytes option"
  op_destination_ip :: "ip_addr option"
  op_destination_port :: "u16 option"
  op_original_tls_sni :: "bytes option"

record 'u macos_libs =
  ml_framed :: "'u framed_libs"
  ml_open_from_slice :: "bytes \<Rightarrow> 'u flow_open_payload option"
  ml_flow_id :: "'u \<Rightarrow> nat"
  ml_authority :: authority_parser

definition flow_open_decode ::
  "'u macos_libs \<Rightarrow> 'u flow_frame \<Rightarrow> (flow_protocol_error, 'u flow_open_payload) result" where
  "flow_open_decode libs frame =
     (case ml_open_from_slice libs (frame_payload frame) of
        None \<Rightarrow> Err (FrameJson ''decode FlowOpen payload'')
      | Some p \<Rightarrow> Ok p)"

text \<open>An awaited read of the socket: polled until it is ready.\<close>

fun await_read :: "nat \<Rightarrow> poll_reader \<Rightarrow> (io_kind, bytes) result \<times> poll_reader" where
  "await_read cap [] = (Ok [], [])"
| "await_read cap (PollReadPending # r) = await_read cap r"
| "await_read cap (PollReadFails k # r) = (Err k, r)"
| "await_read cap (PollGot bs # r) = (Ok (take cap bs), if length bs \<le> cap then r else PollGot (drop cap bs) # r)"

definition read_open_frame ::
  "'u macos_libs \<Rightarrow> poll_reader \<Rightarrow> (macos_ingress_error, 'u \<times> 'u flow_open_payload) result \<times> poll_reader" where
  "read_open_frame libs r =
     (case read_frame (fl_uuids (ml_framed libs)) await_read r of
        (Err e, r') \<Rightarrow> (Err (FramedProtocol ''read FlowOpen'' e), r')
      | (Ok None, r') \<Rightarrow> (Err (InvalidFramedFlow ''connection closed before FlowOpen''), r')
      | (Ok (Some frame), r') \<Rightarrow>
          if frame_type frame \<noteq> FrameOpen \<or> frame_direction frame \<noteq> DirectionNone
          then (Err (InvalidFramedFlow ''first frame must be FlowOpen''), r')
          else
            (case flow_open_decode libs frame of
               Err e \<Rightarrow> (Err (FramedProtocol ''decode FlowOpen'' e), r')
             | Ok payload \<Rightarrow>
                 if op_flow_id payload \<noteq> frame_flow_id frame
                 then (Err (InvalidFramedFlow ''FlowOpen payload flow_id does not match frame header''), r')
                 else if op_protocol_name payload \<noteq> TcpTransport
                 then (Err (InvalidFramedFlow ''only TCP framed flows are supported''), r')
                 else (Ok (frame_flow_id frame, payload), r')))"

section \<open>Metadata\<close>

text \<open>An empty host counts as none.\<close>

definition open_host :: "'u flow_open_payload \<Rightarrow> bytes option" where
  "open_host p = (case op_destination_host p of Some host \<Rightarrow> if host = [] then None else Some host | None \<Rightarrow> None)"

definition configured_target ::
  "'u macos_libs \<Rightarrow> 'u flow_open_payload \<Rightarrow> (macos_ingress_error, target_authority) result" where
  "configured_target libs p =
     (case (case open_host p of Some host \<Rightarrow> Some host | None \<Rightarrow> map_option show_ip (op_destination_ip p)) of
        None \<Rightarrow> Err (InvalidFramedFlow ''FlowOpen missing target host'')
      | Some host \<Rightarrow>
          (case op_destination_port p of
             None \<Rightarrow> Err (InvalidFramedFlow ''FlowOpen missing destination_port'')
           | Some port \<Rightarrow>
               (case target_from_host_port (ml_authority libs) host port of
                  Err e \<Rightarrow> Err (InvalidFramedFlow ''FlowOpen has an invalid proxy target'')
                | Ok target \<Rightarrow> Ok target)))"

datatype dns_resolution = ResolveLocally | ResolveAtProxy

definition destination_from_open ::
  "(bytes \<Rightarrow> u16 \<Rightarrow> (io_kind, socket_addr list) result) \<Rightarrow> 'u flow_open_payload \<Rightarrow> dns_resolution
   \<Rightarrow> (macos_ingress_error, destination_address) result" where
  "destination_from_open lookup_host p resolution =
     (case op_destination_port p of
        None \<Rightarrow> Err (InvalidFramedFlow ''FlowOpen missing destination_port'')
      | Some port \<Rightarrow>
          (case op_destination_ip p of
             Some ip \<Rightarrow> Ok (Known \<lparr>sa_ip = ip, sa_port = port\<rparr>)
           | None \<Rightarrow>
               (case open_host p of
                  None \<Rightarrow> Err (InvalidFramedFlow ''FlowOpen missing destination_ip and destination_host'')
                | Some host \<Rightarrow>
                    if resolution = ResolveAtProxy then Ok Unknown
                    else
                      (case lookup_host host port of
                         Err k \<Rightarrow> Err (ResolveDestination host port k)
                       | Ok [] \<Rightarrow> Err (InvalidFramedFlow ''destination_host resolved to no addresses'')
                       | Ok (a # _) \<Rightarrow> Ok (Known a)))))"

text \<open>\<^verbatim>\<open>SourceProcess::new\<close> and its builders (\<^verbatim>\<open>hook.rs\<close>).\<close>

definition source_process_new :: "nat option \<Rightarrow> bytes option \<Rightarrow> bytes option \<Rightarrow> source_process" where
  "source_process_new pid name executable_path =
     \<lparr>sp_pid = pid, sp_pid_version = None, sp_name = name, sp_executable_path = executable_path,
      sp_application_id = None, sp_entry_point = None, sp_working_directory = None\<rparr>"

definition sp_with_pid_version :: "nat option \<Rightarrow> source_process \<Rightarrow> source_process" where
  "sp_with_pid_version v sp = sp\<lparr>sp_pid_version := v\<rparr>"

definition sp_with_application_id :: "bytes option \<Rightarrow> source_process \<Rightarrow> source_process" where
  "sp_with_application_id i sp = sp\<lparr>sp_application_id := i\<rparr>"

definition sp_with_entry_point :: "bytes option \<Rightarrow> source_process \<Rightarrow> source_process" where
  "sp_with_entry_point e sp = sp\<lparr>sp_entry_point := e\<rparr>"

definition sp_with_working_directory :: "bytes option \<Rightarrow> source_process \<Rightarrow> source_process" where
  "sp_with_working_directory d sp = sp\<lparr>sp_working_directory := d\<rparr>"

text \<open>The platform behind the process resolver: argument blocks, working directories, the clock.\<close>

record process_platform =
  pp_read_arguments :: "nat \<Rightarrow> (io_kind, process_arguments) result"
  pp_lookup :: "nat \<Rightarrow> bytes option"
  pp_imax :: nat
  pp_now :: nat

definition build_source_process ::
  "process_platform \<Rightarrow> 'u flow_open_payload \<Rightarrow> process_cache \<Rightarrow> source_process option \<times> process_cache" where
  "build_source_process pp p c =
     (if op_source_pid p = None \<and> op_source_process p = None \<and> op_source_application_id p = None then (None, c)
      else
        (let executable_path = op_source_process p;
             name = (case executable_path of None \<Rightarrow> None | Some path \<Rightarrow> path_file_name path)
         in case cached_working_directory (pp_lookup pp) (pp_imax pp) (pp_now pp) (op_source_pid p) (op_source_pid_version p) c of
              (dir, c') \<Rightarrow>
                (Some
                  (sp_with_working_directory (map_option from_utf8_lossy dir)
                    (sp_with_entry_point (cached_entry_point (pp_read_arguments pp) (op_source_pid p))
                      (sp_with_application_id (op_source_application_id p)
                        (sp_with_pid_version (op_source_pid_version p)
                          (source_process_new (op_source_pid p) name executable_path))))), c')))"

text \<open>
  What a connection meets: the resolver, the process platform, whether the blocking task ends normally, and the id that
  is drawn before the flow's own replaces it.
\<close>

record macos_env =
  me_lookup_host :: "bytes \<Rightarrow> u16 \<Rightarrow> (io_kind, socket_addr list) result"
  me_platform :: process_platform
  me_task_fails :: bool
  me_fresh_id :: nat

definition metadata_from_open ::
  "'u macos_libs \<Rightarrow> macos_env \<Rightarrow> 'u flow_open_payload \<Rightarrow> dns_resolution \<Rightarrow> process_cache
   \<Rightarrow> (macos_ingress_error, platform_flow_metadata) result \<times> process_cache" where
  "metadata_from_open libs env p resolution c =
     (case destination_from_open (me_lookup_host env) p resolution of
        Err e \<Rightarrow> (Err e, c)
      | Ok destination \<Rightarrow>
          if me_task_fails env then (Err (IngressTask ''resolve source process context''), c)
          else
            (case build_source_process (me_platform env) p c of
               (process, c') \<Rightarrow>
                 (Ok (metadata_with_flow_id (ml_flow_id libs (op_flow_id p))
                    (metadata_from_destination_parts (me_fresh_id env) None None destination (open_host p) process)), c')))"

section \<open>The flow\<close>

text \<open>The \<^verbatim>\<open>PlatformFlow\<close> over a framed stream.\<close>

record 'u framed_platform_flow =
  fp_io :: "'u framed_flow_io"
  fp_metadata :: platform_flow_metadata
  fp_ingress :: flow_ingress
  fp_configured_upstream :: "(http_connect_proxy \<times> target_authority) option"

definition framed_into_flow ::
  "'u macos_libs \<Rightarrow> macos_env \<Rightarrow> http_connect_proxy option \<Rightarrow> poll_reader \<Rightarrow> poll_writer \<Rightarrow> process_cache
   \<Rightarrow> (macos_ingress_error, 'u framed_platform_flow) result \<times> process_cache" where
  "framed_into_flow libs env proxy r w c =
     (case read_open_frame libs r of
        (Err e, r') \<Rightarrow> (Err e, c)
      | (Ok (fid, payload), r') \<Rightarrow>
          (case (case proxy of None \<Rightarrow> Ok None | Some _ \<Rightarrow> map_sum id Some (configured_target libs payload)) of
             Err e \<Rightarrow> (Err e, c)
           | Ok target \<Rightarrow>
               (case metadata_from_open libs env payload (if proxy \<noteq> None then ResolveAtProxy else ResolveLocally) c of
                  (Err e, c') \<Rightarrow> (Err e, c')
                | (Ok metadata, c') \<Rightarrow>
                    (Ok \<lparr>fp_io = framed_flow_io_new r' w fid, fp_metadata = metadata,
                         fp_ingress = Transparent MacosNetworkExtension,
                         fp_configured_upstream =
                           (case (proxy, target) of (Some pr, Some t) \<Rightarrow> Some (pr, t) | _ \<Rightarrow> None)\<rparr>, c'))))"

section \<open>Facts\<close>

lemma await_read_poll:
  "await_read cap r =
     (case poll_stream_read cap r of (PollReady res, r') \<Rightarrow> (res, r') | (PollPending, r') \<Rightarrow> await_read cap r')"
  by (cases "(cap, r)" rule: poll_stream_read.cases) auto

lemma await_read_facts:
  "await_read cap r = (Ok bs, r') \<Longrightarrow> bs \<noteq> [] \<Longrightarrow> poll_incoming r = bs @ poll_incoming r' \<and> length bs \<le> cap"
  "await_read cap r = (Ok [], r') \<Longrightarrow> 0 < cap \<Longrightarrow> poll_incoming r = []"
  "await_read cap r = (Err k, r') \<Longrightarrow> poll_incoming r = []"
  by (induction cap r rule: await_read.induct) (auto split: if_splits)

interpretation awaited: byte_source await_read poll_incoming "\<lambda>_. True"
proof unfold_locales
  show "poll_incoming s = bs @ poll_incoming s' \<and> length bs \<le> cap"
    if "await_read cap s = (Ok bs, s')" "bs \<noteq> []" for s cap bs s'
    using that by (rule await_read_facts)
qed (auto dest: await_read_facts)

lemma read_open_frame_ok:
  "read_open_frame libs r = (Ok (fid, p), r') \<longleftrightarrow>
     (\<exists>frame. read_frame (fl_uuids (ml_framed libs)) await_read r = (Ok (Some frame), r') \<and> frame_type frame = FrameOpen
        \<and> frame_direction frame = DirectionNone \<and> ml_open_from_slice libs (frame_payload frame) = Some p
        \<and> op_flow_id p = frame_flow_id frame \<and> fid = frame_flow_id frame)"
  by (auto simp: read_open_frame_def flow_open_decode_def flow_transport_protocol.nchotomy [rule_format]
      split: prod.splits sum.splits option.splits if_splits)

lemma destination_at_proxy:
  "destination_from_open f p ResolveAtProxy = destination_from_open g p ResolveAtProxy"
  by (simp add: destination_from_open_def split: option.split)

lemma metadata_at_proxy:
  "metadata_from_open libs (env\<lparr>me_lookup_host := f\<rparr>) p ResolveAtProxy c = metadata_from_open libs env p ResolveAtProxy c"
  using destination_at_proxy [of "me_lookup_host env" p f] by (simp add: metadata_from_open_def split: sum.split)

text \<open>What a flow that was built says about the connection.\<close>

lemma framed_into_flow_ok:
  assumes "framed_into_flow libs env proxy r w c = (Ok flow, c')"
  shows "\<exists>frame r' p. read_frame (fl_uuids (ml_framed libs)) await_read r = (Ok (Some frame), r')
    \<and> frame_type frame = FrameOpen \<and> frame_direction frame = DirectionNone
    \<and> ml_open_from_slice libs (frame_payload frame) = Some p \<and> op_flow_id p = frame_flow_id frame
    \<and> fp_io flow = framed_flow_io_new r' w (frame_flow_id frame)
    \<and> pm_flow_id (fp_metadata flow) = ml_flow_id libs (frame_flow_id frame)
    \<and> pm_destination_host (fp_metadata flow) = open_host p \<and> fp_ingress flow = Transparent MacosNetworkExtension
    \<and> destination_from_open (me_lookup_host env) p (if proxy \<noteq> None then ResolveAtProxy else ResolveLocally)
        = Ok (pm_original_destination (fp_metadata flow))
    \<and> (case proxy of None \<Rightarrow> fp_configured_upstream flow = None
       | Some pr \<Rightarrow> \<exists>t. configured_target libs p = Ok t \<and> fp_configured_upstream flow = Some (pr, t))"
proof -
  from assms obtain fid p r' where opened: "read_open_frame libs r = (Ok (fid, p), r')"
    by (auto simp: framed_into_flow_def split: prod.splits sum.splits)
  then obtain frame where f: "read_frame (fl_uuids (ml_framed libs)) await_read r = (Ok (Some frame), r')"
    "frame_type frame = FrameOpen" "frame_direction frame = DirectionNone" "ml_open_from_slice libs (frame_payload frame) = Some p"
    "op_flow_id p = frame_flow_id frame" "fid = frame_flow_id frame"
    unfolding read_open_frame_ok by blast
  obtain target where target: "(case proxy of None \<Rightarrow> Ok None | Some _ \<Rightarrow> map_sum id Some (configured_target libs p)) = Ok target"
    using assms opened by (cases "case proxy of None \<Rightarrow> Ok None | Some _ \<Rightarrow> map_sum id Some (configured_target libs p)") (auto simp: framed_into_flow_def)
  obtain m where m: "metadata_from_open libs env p (if proxy \<noteq> None then ResolveAtProxy else ResolveLocally) c = (Ok m, c')"
    "fp_metadata flow = m" "fp_io flow = framed_flow_io_new r' w fid" "fp_ingress flow = Transparent MacosNetworkExtension"
    "fp_configured_upstream flow = (case (proxy, target) of (Some pr, Some t) \<Rightarrow> Some (pr, t) | _ \<Rightarrow> None)"
    using assms opened target by (auto simp: framed_into_flow_def split: prod.splits sum.splits)
  from m(1) have meta: "pm_flow_id m = ml_flow_id libs (op_flow_id p)" "pm_destination_host m = open_host p"
    "destination_from_open (me_lookup_host env) p (if proxy \<noteq> None then ResolveAtProxy else ResolveLocally)
        = Ok (pm_original_destination m)"
    by (auto simp: metadata_from_open_def metadata_with_flow_id_def metadata_from_destination_parts_def
        split: sum.splits prod.splits if_splits)
  have "case proxy of None \<Rightarrow> fp_configured_upstream flow = None
       | Some pr \<Rightarrow> \<exists>t. configured_target libs p = Ok t \<and> fp_configured_upstream flow = Some (pr, t)"
    using target m(5) by (cases "configured_target libs p") (auto split: option.splits)
  with f meta m show ?thesis by auto
qed

section \<open>Properties\<close>

text \<open>
  C24. A flow the macOS adapter hands to the engine is exactly the one its open frame announced: it carries that frame's id,
  and what is read from it, however the connection was segmented and wherever it was not ready, is exactly the payloads
  of the data frames that follow, from the first byte on.
\<close>

theorem macos_flow_transparent:
  assumes "uuid_laws (fl_uuids (ml_framed libs))"
    and "frame_encode (fl_uuids (ml_framed libs)) (flow_frame_new FrameOpen DirectionNone fid json) = Ok opening"
    and "data_frames (fl_uuids (ml_framed libs)) fid ps = Some bs" and "poll_incoming r = opening @ bs"
    and "framed_into_flow libs env proxy r w c = (Ok flow, c')"
  shows "pm_flow_id (fp_metadata flow) = ml_flow_id libs fid
    \<and> (\<exists>io. read_exact (framed_read (ml_framed libs)) (length (concat ps)) (fp_io flow) = (Ok (concat ps), io))"
proof -
  let ?frame = "flow_frame_new FrameOpen DirectionNone fid json"
  from awaited.read_frame_complete [OF assms(1) _ assms(2,4)] obtain r' where
    r': "read_frame (fl_uuids (ml_framed libs)) await_read r = (Ok (Some ?frame), r')" "poll_incoming r' = bs" by blast
  from framed_into_flow_ok [OF assms(5)] r'(1) have
    io: "fp_io flow = framed_flow_io_new r' w fid" "pm_flow_id (fp_metadata flow) = ml_flow_id libs fid"
    by (auto simp: flow_frame_new_def)
  have "framed_content (ml_framed libs) (fp_io flow) = concat ps"
    using frames_content_data [OF assms(1,3), of "[]"]
    by (simp add: io(1) r'(2) frames_content.simps [of _ _ "[]"] FRAME_HEADER_LEN_def)
  with framed.read_exact_complete [of "ml_framed libs" "fp_io flow" "length (concat ps)"] io show ?thesis by auto
qed

text \<open>A connection that announces a flow to a known address and sends two bytes.\<close>

definition sample_open :: "(word4 \<times> word4 \<times> word4 \<times> word4) flow_open_payload" where
  "sample_open =
     \<lparr>op_flow_id = nil_uuid, op_platform = ''macos'', op_protocol_name = TcpTransport, op_source_pid = None,
      op_source_pid_version = None, op_source_process = None, op_source_application_id = None, op_destination_host = None,
      op_destination_ip = Some (V4 1 2 3 4), op_destination_port = Some 443, op_original_tls_sni = None\<rparr>"

definition sample_macos :: "(word4 \<times> word4 \<times> word4 \<times> word4) macos_libs" where
  "sample_macos =
     \<lparr>ml_framed = sample_libs, ml_open_from_slice = (\<lambda>_. Some sample_open), ml_flow_id = (\<lambda>_. 5), ml_authority = (\<lambda>_. None)\<rparr>"

definition sample_env :: macos_env where
  "sample_env =
     \<lparr>me_lookup_host = (\<lambda>_ _. Err TimedOut),
      me_platform = \<lparr>pp_read_arguments = (\<lambda>_. Err NotFound), pp_lookup = (\<lambda>_. None), pp_imax = 0, pp_now = 0\<rparr>,
      me_task_fails = False, me_fresh_id = 9\<rparr>"

definition sample_opening :: bytes where
  "sample_opening =
     FRAME_MAGIC @ [CHR 0x01, CHR 0x00, CHR 0x00, CHR 0x00] @ nil_uuid_bytes @ [CHR 0x00, CHR 0x00, CHR 0x00, CHR 0x02] @ ''{}''"

lemma encode_sample_opening:
  "frame_encode tuple_uuids (flow_frame_new FrameOpen DirectionNone nil_uuid ''{}'') = Ok sample_opening"
  using validate_small
  by (auto simp: frame_encode_Ok frame_header_bytes_def frame_header_def flow_frame_new_def to_be_bytes_small sample_opening_def
      intro!: exI [of _ 2])

theorem macos_flow_transparent_witness:
  "\<exists>flow c. framed_into_flow sample_macos sample_env None
      [PollReadPending, PollGot sample_opening, PollGot (sample_data_frame (CHR 0x01) ''ab'')] sample_writer process_cache_new = (Ok flow, c)
    \<and> pm_flow_id (fp_metadata flow) = 5 \<and> (\<exists>io. read_exact (framed_read sample_libs) 2 (fp_io flow) = (Ok ''ab'', io))"
proof -
  let ?r = "[PollReadPending, PollGot sample_opening, PollGot (sample_data_frame (CHR 0x01) ''ab'')]"
  have ids: "ml_framed sample_macos = sample_libs" "fl_uuids sample_libs = tuple_uuids"
    "ml_flow_id sample_macos nil_uuid = 5" by (simp_all add: sample_macos_def sample_libs_def)
  have laws: "uuid_laws (fl_uuids (ml_framed sample_macos))" by (simp add: ids tuple_uuids_laws)
  have enc: "frame_encode (fl_uuids (ml_framed sample_macos)) (flow_frame_new FrameOpen DirectionNone nil_uuid ''{}'') = Ok sample_opening"
    by (simp add: ids encode_sample_opening)
  have data: "data_frames (fl_uuids (ml_framed sample_macos)) nil_uuid [''ab''] = Some (sample_data_frame (CHR 0x01) ''ab'')"
    by (simp add: ids encode_sample)
  have inc: "poll_incoming ?r = sample_opening @ sample_data_frame (CHR 0x01) ''ab''"
    by (simp add: sample_opening_def sample_data_frame_def FRAME_MAGIC_def)
  from awaited.read_frame_complete [OF laws _ enc inc] obtain r' where
    "read_frame (fl_uuids (ml_framed sample_macos)) await_read ?r
       = (Ok (Some (flow_frame_new FrameOpen DirectionNone nil_uuid ''{}'')), r')" by blast
  then have "read_open_frame sample_macos ?r = (Ok (nil_uuid, sample_open), r')"
    by (subst read_open_frame_ok) (simp add: flow_frame_new_def sample_macos_def sample_open_def)
  then obtain flow c where run: "framed_into_flow sample_macos sample_env None ?r sample_writer process_cache_new = (Ok flow, c)"
    by (simp add: framed_into_flow_def metadata_from_open_def destination_from_open_def build_source_process_def sample_open_def
        sample_env_def)
  from macos_flow_transparent [OF laws enc data inc run] run show ?thesis by (auto simp: ids numeral_2_eq_2)
qed

text \<open>
  With an upstream proxy configured, a flow never makes the broker resolve its destination: whatever the local resolver
  would say, the outcome is the same, and the destination is the address the open frame gave or unknown, the proxy being
  asked for the host the frame named.
\<close>

theorem macos_proxied_flow_not_resolved:
  "framed_into_flow libs env (Some pr) r w c = framed_into_flow libs (env\<lparr>me_lookup_host := other_lookup\<rparr>) (Some pr) r w c
   \<and> (case fst (framed_into_flow libs env (Some pr) r w c) of
        Err e \<Rightarrow> True
      | Ok flow \<Rightarrow>
          \<exists>p target. configured_target libs p = Ok target \<and> fp_configured_upstream flow = Some (pr, target)
            \<and> op_flow_id p = ff_flow_id (fp_io flow)
            \<and> pm_original_destination (fp_metadata flow)
                = (case (op_destination_ip p, op_destination_port p) of
                     (Some ip, Some port) \<Rightarrow> Known \<lparr>sa_ip = ip, sa_port = port\<rparr> | _ \<Rightarrow> Unknown))"
proof
  show "framed_into_flow libs env (Some pr) r w c = framed_into_flow libs (env\<lparr>me_lookup_host := other_lookup\<rparr>) (Some pr) r w c"
    by (simp add: framed_into_flow_def metadata_at_proxy split: prod.split sum.split)
next
  obtain res c' where run: "framed_into_flow libs env (Some pr) r w c = (res, c')" by fastforce
  have "\<exists>p target. configured_target libs p = Ok target \<and> fp_configured_upstream flow = Some (pr, target)
      \<and> op_flow_id p = ff_flow_id (fp_io flow)
      \<and> pm_original_destination (fp_metadata flow)
          = (case (op_destination_ip p, op_destination_port p) of
               (Some ip, Some port) \<Rightarrow> Known \<lparr>sa_ip = ip, sa_port = port\<rparr> | _ \<Rightarrow> Unknown)" if "res = Ok flow" for flow
    using framed_into_flow_ok [OF run [unfolded that]]
    by (fastforce simp: destination_from_open_def framed_flow_io_new_def split: option.splits)
  with run show "case fst (framed_into_flow libs env (Some pr) r w c) of Err e \<Rightarrow> True | Ok flow \<Rightarrow>
      \<exists>p target. configured_target libs p = Ok target \<and> fp_configured_upstream flow = Some (pr, target)
        \<and> op_flow_id p = ff_flow_id (fp_io flow)
        \<and> pm_original_destination (fp_metadata flow)
            = (case (op_destination_ip p, op_destination_port p) of
                 (Some ip, Some port) \<Rightarrow> Known \<lparr>sa_ip = ip, sa_port = port\<rparr> | _ \<Rightarrow> Unknown)"
    by (cases res) simp_all
qed

text \<open>
  Binding never takes the socket of a broker that is alive: the only file removed before the socket is bound is one that
  was in use and refused connections; and once binding has succeeded the last thing done to the file was to give it
  the mode 0660.
\<close>

theorem bind_spares_live_listener:
  "case bind_listener fs path of
     (res, acts) \<Rightarrow>
       (if FsRemoveFile path \<in> set acts then sf_bind fs = Err AddrInUse \<and> sf_connect fs = Err ConnectionRefused
        else set acts \<subseteq> {FsBind path, FsConnect path})
     \<and> (case bind_with_resolver fs path of
          (Err e, all_acts) \<Rightarrow> True
        | (Ok u, all_acts) \<Rightarrow> res = Ok () \<and> last all_acts = FsSetPermissions path SOCKET_FILE_MODE)"
proof -
  obtain res acts where b: "bind_listener fs path = (res, acts)" by fastforce
  then have "if FsRemoveFile path \<in> set acts then sf_bind fs = Err AddrInUse \<and> sf_connect fs = Err ConnectionRefused
      else set acts \<subseteq> {FsBind path, FsConnect path}"
    by (auto simp: bind_listener_def split: sum.splits if_splits)
  moreover have "case bind_with_resolver fs path of
      (Err e, all_acts) \<Rightarrow> True
    | (Ok u, all_acts) \<Rightarrow> res = Ok () \<and> last all_acts = FsSetPermissions path SOCKET_FILE_MODE"
    using b by (auto simp: bind_with_resolver_def set_mode_def split: prod.splits sum.splits)
  ultimately show ?thesis using b by simp
qed

end
