(* ===== verification/File_System.thy ===== *)
theory File_System
  imports Rust_Path Stream_IO
begin

text \<open>
  The file operations the components share: a disk maps paths to files, every operation may fail, a failing write may have
  written part of its bytes, and the disk remembers every state it went through, so that what a crash would find can be
  stated. Directories are not represented; making one can only fail.
\<close>

section \<open>Disks\<close>

record stored_file =
  st_content :: bytes
  st_mode :: nat

type_synonym files = "bytes \<Rightarrow> stored_file option"

text \<open>\<open>FsFails k n\<close>: the operation fails with \<open>k\<close>; a write had written \<open>n\<close> bytes.\<close>

datatype fs_fault = FsWorks | FsFails io_kind nat

record disk =
  dk_files :: files
  dk_faults :: "fs_fault list"
  dk_trace :: "files list"

text \<open>Whether a file is missing is not a fault but decided by the disk.\<close>

fun proper_fault :: "fs_fault \<Rightarrow> fs_fault" where
  "proper_fault FsWorks = FsWorks"
| "proper_fault (FsFails k n) = FsFails (if k = NotFound then OtherKind else k) n"

definition next_fault :: "disk \<Rightarrow> fs_fault \<times> disk" where
  "next_fault d = (case dk_faults d of [] \<Rightarrow> (FsWorks, d) | f # fs \<Rightarrow> (proper_fault f, d\<lparr>dk_faults := fs\<rparr>))"

lemma next_fault_not_missing: "next_fault d \<noteq> (FsFails NotFound n, d')"
proof (cases "dk_faults d")
  case (Cons f fs)
  then show ?thesis by (cases f) (auto simp: next_fault_def)
qed (simp add: next_fault_def)

text \<open>The disk goes through the given states, in this order.\<close>

definition disk_goes :: "files list \<Rightarrow> disk \<Rightarrow> disk" where
  "disk_goes states d =
     (if states = [] then d else d\<lparr>dk_files := last states, dk_trace := rev states @ dk_trace d\<rparr>)"

section \<open>Operations\<close>

text \<open>An operation without an effect on files: making or syncing a directory, flushing or syncing a file.\<close>

definition fs_sync :: "disk \<Rightarrow> (io_kind, unit) result \<times> disk" where
  "fs_sync d = (case next_fault d of (FsFails k n, d') \<Rightarrow> (Err k, d') | (FsWorks, d') \<Rightarrow> (Ok (), d'))"

text \<open>Opening a directory or changing its mode; there is no directory with an empty path.\<close>

definition fs_directory :: "bytes \<Rightarrow> disk \<Rightarrow> (io_kind, unit) result \<times> disk" where
  "fs_directory path d = (if path = [] then (Err NotFound, d) else fs_sync d)"

definition fs_read :: "bytes \<Rightarrow> disk \<Rightarrow> (io_kind, bytes) result \<times> disk" where
  "fs_read path d =
     (case next_fault d of
        (FsFails k n, d') \<Rightarrow> (Err k, d')
      | (FsWorks, d') \<Rightarrow>
          (case dk_files d path of None \<Rightarrow> (Err NotFound, d') | Some f \<Rightarrow> (Ok (st_content f), d')))"

text \<open>Opening for writing: \<^verbatim>\<open>create_new\<close>, \<^verbatim>\<open>create\<close> with \<^verbatim>\<open>truncate\<close>, and \<^verbatim>\<open>create\<close> with \<^verbatim>\<open>append\<close>.\<close>

definition fs_create_new :: "bytes \<Rightarrow> nat \<Rightarrow> disk \<Rightarrow> (io_kind, unit) result \<times> disk" where
  "fs_create_new path mode d =
     (case next_fault d of
        (FsFails k n, d') \<Rightarrow> (Err k, d')
      | (FsWorks, d') \<Rightarrow>
          if dk_files d path = None then (Ok (), disk_goes [(dk_files d)(path \<mapsto> \<lparr>st_content = [], st_mode = mode\<rparr>)] d')
          else (Err AlreadyExists, d'))"

definition fs_create_truncate :: "bytes \<Rightarrow> nat \<Rightarrow> disk \<Rightarrow> (io_kind, unit) result \<times> disk" where
  "fs_create_truncate path mode d =
     (case next_fault d of
        (FsFails k n, d') \<Rightarrow> (Err k, d')
      | (FsWorks, d') \<Rightarrow>
          (let m = (case dk_files d path of None \<Rightarrow> mode | Some f \<Rightarrow> st_mode f)
           in (Ok (), disk_goes [(dk_files d)(path \<mapsto> \<lparr>st_content = [], st_mode = m\<rparr>)] d')))"

definition fs_open_append :: "bytes \<Rightarrow> nat \<Rightarrow> disk \<Rightarrow> (io_kind, unit) result \<times> disk" where
  "fs_open_append path mode d =
     (case next_fault d of
        (FsFails k n, d') \<Rightarrow> (Err k, d')
      | (FsWorks, d') \<Rightarrow>
          (case dk_files d path of
             None \<Rightarrow> (Ok (), disk_goes [(dk_files d)(path \<mapsto> \<lparr>st_content = [], st_mode = mode\<rparr>)] d')
           | Some f \<Rightarrow> (Ok (), d')))"

text \<open>\<^verbatim>\<open>write_all\<close> at the end of an open file: the bytes arrive one after the other.\<close>

definition write_states :: "bytes \<Rightarrow> bytes \<Rightarrow> files \<Rightarrow> files list" where
  "write_states path bs files =
     (case files path of
        None \<Rightarrow> []
      | Some f \<Rightarrow> map (\<lambda>n. files(path \<mapsto> f\<lparr>st_content := st_content f @ take n bs\<rparr>)) [0..<Suc (length bs)])"

definition fs_write_all :: "bytes \<Rightarrow> bytes \<Rightarrow> disk \<Rightarrow> (io_kind, unit) result \<times> disk" where
  "fs_write_all path bs d =
     (case next_fault d of
        (FsFails k n, d') \<Rightarrow> (Err k, disk_goes (write_states path (take n bs) (dk_files d)) d')
      | (FsWorks, d') \<Rightarrow> (Ok (), disk_goes (write_states path bs (dk_files d)) d'))"

definition fs_rename :: "bytes \<Rightarrow> bytes \<Rightarrow> disk \<Rightarrow> (io_kind, unit) result \<times> disk" where
  "fs_rename source target d =
     (case next_fault d of
        (FsFails k n, d') \<Rightarrow> (Err k, d')
      | (FsWorks, d') \<Rightarrow>
          (case dk_files d source of
             None \<Rightarrow> (Err NotFound, d')
           | Some f \<Rightarrow> (Ok (), disk_goes [(dk_files d)(source := None, target := Some f)] d')))"

definition fs_remove_file :: "bytes \<Rightarrow> disk \<Rightarrow> (io_kind, unit) result \<times> disk" where
  "fs_remove_file path d =
     (case next_fault d of
        (FsFails k n, d') \<Rightarrow> (Err k, d')
      | (FsWorks, d') \<Rightarrow>
          (case dk_files d path of
             None \<Rightarrow> (Err NotFound, d')
           | Some f \<Rightarrow> (Ok (), disk_goes [(dk_files d)(path := None)] d')))"

definition fs_set_permissions :: "bytes \<Rightarrow> nat \<Rightarrow> disk \<Rightarrow> (io_kind, unit) result \<times> disk" where
  "fs_set_permissions path mode d =
     (case next_fault d of
        (FsFails k n, d') \<Rightarrow> (Err k, d')
      | (FsWorks, d') \<Rightarrow>
          (case dk_files d path of
             None \<Rightarrow> (Err NotFound, d')
           | Some f \<Rightarrow> (Ok (), disk_goes [(dk_files d)(path \<mapsto> f\<lparr>st_mode := mode\<rparr>)] d')))"

text \<open>A step that is only taken after the previous one has succeeded.\<close>

definition fs_then ::
  "('e, unit) result \<times> disk \<Rightarrow> (disk \<Rightarrow> ('e, 'a) result \<times> disk) \<Rightarrow> ('e, 'a) result \<times> disk" where
  "fs_then r f = (case r of (Err e, d) \<Rightarrow> (Err e, d) | (Ok _, d) \<Rightarrow> f d)"

definition fs_err :: "(io_kind \<Rightarrow> 'e) \<Rightarrow> (io_kind, 'a) result \<times> disk \<Rightarrow> ('e, 'a) result \<times> disk" where
  "fs_err g r = (map_sum g id (fst r), snd r)"

lemma fs_then_steps [simp]:
  "fs_then (fs_err g (Err k, d)) f = (Err (g k), d)" "fs_then (fs_err g (Ok u, d)) f = f d" "fs_then (Ok v, d) f' = f' d"
  by (simp_all add: fs_then_def fs_err_def)

text \<open>Readable and writable by the owner only.\<close>

definition PRIVATE_MODE :: nat where
  "PRIVATE_MODE = 6 * 8 ^ 2"

section \<open>What a run leaves alone\<close>

text \<open>Every state between two disks satisfies \<open>P\<close>.\<close>

definition disk_through :: "(files \<Rightarrow> bool) \<Rightarrow> disk \<Rightarrow> disk \<Rightarrow> bool" where
  "disk_through P d d' \<longleftrightarrow>
     (\<exists>states. dk_trace d' = states @ dk_trace d \<and> list_all P states
        \<and> (states = [] \<and> dk_files d' = dk_files d \<or> states \<noteq> [] \<and> dk_files d' = hd states))"

lemma disk_through_refl: "disk_through P d d"
  by (simp add: disk_through_def)

lemma disk_through_trans: "\<lbrakk>disk_through P d d1; disk_through P d1 d2\<rbrakk> \<Longrightarrow> disk_through P d d2"
  unfolding disk_through_def by (elim exE, rule_tac x = "statesa @ states" in exI) (auto simp: hd_append)

lemma disk_through_mono: "\<lbrakk>disk_through P d d'; \<And>f. P f \<Longrightarrow> Q f\<rbrakk> \<Longrightarrow> disk_through Q d d'"
  unfolding disk_through_def by (fastforce simp: list_all_iff)

lemma disk_through_files: "\<lbrakk>disk_through P d d'; P (dk_files d)\<rbrakk> \<Longrightarrow> P (dk_files d')"
  by (auto simp: disk_through_def list_all_iff)

lemma disk_goes_through: "list_all P states \<Longrightarrow> disk_through P d (disk_goes states d)"
  by (auto simp: disk_through_def disk_goes_def hd_rev intro!: exI [of _ "rev states"])

lemma next_fault_through:
  "next_fault d = (f, d') \<Longrightarrow> dk_files d' = dk_files d \<and> dk_trace d' = dk_trace d"
  by (auto simp: next_fault_def split: list.splits)

text \<open>The file at \<open>q\<close> is the same in every state.\<close>

definition keeps :: "bytes \<Rightarrow> disk \<Rightarrow> disk \<Rightarrow> bool" where
  "keeps q d d' \<longleftrightarrow> disk_through (\<lambda>f. f q = dk_files d q) d d'"

lemma keeps_refl [simp]: "keeps q d d"
  by (simp add: keeps_def disk_through_refl)

lemma keeps_same: "keeps q d d' \<Longrightarrow> dk_files d' q = dk_files d q"
  unfolding keeps_def by (erule disk_through_files) simp

lemma keeps_trans: "\<lbrakk>keeps q d d1; keeps q d1 d2\<rbrakk> \<Longrightarrow> keeps q d d2"
  using keeps_same [of q d d1] unfolding keeps_def by (auto intro: disk_through_trans)

lemma keeps_through: "\<lbrakk>keeps q d d'; R (dk_files d q)\<rbrakk> \<Longrightarrow> disk_through (\<lambda>f. R (f q)) d d'"
  unfolding keeps_def by (erule disk_through_mono) simp

lemma keeps_goes: "\<lbrakk>dk_files d1 = dk_files d; dk_trace d1 = dk_trace d; list_all (\<lambda>f. f q = dk_files d q) states\<rbrakk> \<Longrightarrow>
    keeps q d (disk_goes states d1)"
  using disk_goes_through [of "\<lambda>f. f q = dk_files d q" states d1] by (simp add: keeps_def disk_through_def)

lemma keeps_idle: "next_fault d = (f, d') \<Longrightarrow> keeps q d d'"
  using next_fault_through [of d f d'] by (simp add: keeps_def disk_through_def)

lemma write_states_other: "path \<noteq> q \<Longrightarrow> list_all (\<lambda>f. f q = files q) (write_states path bs files)"
  by (auto simp: write_states_def list_all_iff split: option.split)

lemmas fs_defs =
  fs_sync_def fs_read_def fs_create_new_def fs_create_truncate_def fs_open_append_def fs_write_all_def fs_rename_def
  fs_remove_file_def fs_set_permissions_def fs_directory_def

lemma fs_keeps:
  "fs_sync d = (r, d') \<Longrightarrow> keeps q d d'"
  "fs_directory path d = (r, d') \<Longrightarrow> keeps q d d'"
  "fs_read path d = (rb, d') \<Longrightarrow> keeps q d d'"
  "\<lbrakk>fs_create_new path mode d = (r, d'); path \<noteq> q\<rbrakk> \<Longrightarrow> keeps q d d'"
  "\<lbrakk>fs_create_truncate path mode d = (r, d'); path \<noteq> q\<rbrakk> \<Longrightarrow> keeps q d d'"
  "\<lbrakk>fs_open_append path mode d = (r, d'); path \<noteq> q\<rbrakk> \<Longrightarrow> keeps q d d'"
  "\<lbrakk>fs_write_all path bs d = (r, d'); path \<noteq> q\<rbrakk> \<Longrightarrow> keeps q d d'"
  "\<lbrakk>fs_rename source target d = (r, d'); source \<noteq> q; target \<noteq> q\<rbrakk> \<Longrightarrow> keeps q d d'"
  "\<lbrakk>fs_remove_file path d = (r, d'); path \<noteq> q\<rbrakk> \<Longrightarrow> keeps q d d'"
  "\<lbrakk>fs_set_permissions path mode d = (r, d'); path \<noteq> q\<rbrakk> \<Longrightarrow> keeps q d d'"
  by (auto simp: fs_defs write_states_other Let_def intro: keeps_idle keeps_goes
      dest: next_fault_through split: prod.splits fs_fault.splits option.splits if_splits)

text \<open>An operation that fails, a write apart, has changed nothing.\<close>

lemma fs_failed_keeps:
  "fs_rename source target d = (Err k, d') \<Longrightarrow> keeps q d d'"
  "fs_remove_file path d = (Err k, d') \<Longrightarrow> keeps q d d'"
  by (auto simp: fs_defs intro: keeps_idle split: prod.splits fs_fault.splits option.splits)

section \<open>What a successful operation does\<close>

lemma fs_create_new_ok:
  "fs_create_new path mode d = (Ok u, d') \<Longrightarrow>
     dk_files d path = None \<and> dk_files d' = (dk_files d)(path \<mapsto> \<lparr>st_content = [], st_mode = mode\<rparr>)"
  by (auto simp: fs_defs disk_goes_def split: prod.splits fs_fault.splits if_splits)

lemma fs_open_append_ok:
  assumes "fs_open_append path mode d = (Ok u, d')"
  shows "\<exists>f. dk_files d' path = Some f \<and> (case dk_files d path of None \<Rightarrow> st_content f = [] | Some g \<Rightarrow> f = g)"
proof -
  obtain x d1 where n: "next_fault d = (x, d1)" by fastforce
  from next_fault_through [OF n] assms n show ?thesis
    by (cases "dk_files d path") (auto simp: fs_open_append_def disk_goes_def split: fs_fault.splits)
qed

lemma fs_create_truncate_ok:
  assumes "fs_create_truncate path mode d = (Ok u, d')"
  shows "\<exists>m. dk_files d' = (dk_files d)(path \<mapsto> \<lparr>st_content = [], st_mode = m\<rparr>)"
proof -
  obtain x d1 where n: "next_fault d = (x, d1)" by fastforce
  with assms show ?thesis by (auto simp: fs_create_truncate_def disk_goes_def Let_def split: fs_fault.splits)
qed

lemma fs_write_all_ok:
  "\<lbrakk>fs_write_all path bs d = (Ok u, d'); dk_files d path = Some f\<rbrakk> \<Longrightarrow>
     dk_files d' = (dk_files d)(path \<mapsto> f\<lparr>st_content := st_content f @ bs\<rparr>)"
  by (auto simp: fs_defs disk_goes_def write_states_def split: prod.splits fs_fault.splits)

lemma fs_rename_ok:
  assumes "fs_rename source target d = (Ok u, d')"
  obtains f where "dk_files d source = Some f" "dk_files d' = (dk_files d)(source := None, target := Some f)"
    "dk_trace d' = dk_files d' # dk_trace d"
  using assms next_fault_through [of d]
  by (auto simp: fs_defs disk_goes_def split: prod.splits fs_fault.splits option.splits)

lemma fs_sync_ok: "fs_sync d = (r, d') \<Longrightarrow> dk_files d' = dk_files d \<and> dk_trace d' = dk_trace d"
  using next_fault_through [of d] by (auto simp: fs_defs split: prod.splits fs_fault.splits)

lemma fs_sync_snd [simp]: "dk_files (snd (fs_sync d)) = dk_files d"
  using fs_sync_ok [of d] by (metis prod.collapse)

lemma fs_read_missing: "fs_read path d = (Err NotFound, d') \<Longrightarrow> dk_files d path = None"
  by (auto simp: fs_read_def split: prod.splits fs_fault.splits option.splits simp: next_fault_not_missing)

lemma fs_remove_file_ok:
  assumes "fs_remove_file path d = (res, d')" and "case res of Ok u \<Rightarrow> True | Err k \<Rightarrow> k = NotFound"
  shows "dk_files d' path = None \<and> disk_through (\<lambda>g. g path = dk_files d path \<or> g path = None) d d'"
proof -
  obtain x d1 where n: "next_fault d = (x, d1)" by fastforce
  from next_fault_through [OF n] assms n show ?thesis
    by (cases "dk_files d path")
      (auto simp: fs_remove_file_def disk_goes_def disk_through_def split: fs_fault.splits
         simp: next_fault_not_missing)
qed

lemma fs_read_ok:
  "fs_read path d = (r, d') \<Longrightarrow> dk_files d' = dk_files d \<and> dk_trace d' = dk_trace d"
  "fs_read path d = (Ok bs, d') \<Longrightarrow> \<exists>f. dk_files d path = Some f \<and> bs = st_content f"
  using next_fault_through [of d] by (auto simp: fs_defs split: prod.splits fs_fault.splits option.splits)

section \<open>Replacing a file\<close>

text \<open>A file is replaced completely or not at all, in every state the disk goes through.\<close>

definition old_or_new :: "bytes \<Rightarrow> disk \<Rightarrow> disk \<Rightarrow> bool" where
  "old_or_new path d d' \<longleftrightarrow> disk_through (\<lambda>g. g path = dk_files d path \<or> g path = dk_files d' path) d d'"

lemma keeps_old_or_new: "keeps path d d' \<Longrightarrow> old_or_new path d d'"
  using keeps_same [of path d d'] by (auto simp: old_or_new_def keeps_def)

text \<open>A temporary file beside the one it will replace is another file.\<close>

lemma file_stem_cases:
  "file_stem name = name \<or> (\<exists>ext. CHR ''.'' \<notin> set ext \<and> name = file_stem name @ CHR ''.'' # ext)"
proof -
  define b where "b = takeWhile (\<lambda>c. c \<noteq> CHR ''.'') (rev name)"
  show ?thesis
  proof (cases "length b + 1 < length name")
    case True
    have "rev name = b @ dropWhile (\<lambda>c. c \<noteq> CHR ''.'') (rev name)" by (simp add: b_def)
    then have "length name = length b + length (dropWhile (\<lambda>c. c \<noteq> CHR ''.'') (rev name))" by (metis length_append length_rev)
    then obtain c r where r: "dropWhile (\<lambda>c. c \<noteq> CHR ''.'') (rev name) = c # r"
      using True by (cases "dropWhile (\<lambda>c. c \<noteq> CHR ''.'') (rev name)") simp_all
    then have "c = CHR ''.''" using hd_dropWhile [of "\<lambda>c. c \<noteq> CHR ''.''" "rev name"] by simp
    with r have rev: "rev name = b @ CHR ''.'' # r" by (metis b_def takeWhile_dropWhile_id)
    then have "drop (length b + 1) (rev name) = r" by simp
    with True have "file_stem name = rev r" by (simp add: file_stem_def b_def Let_def)
    moreover have "name = rev r @ CHR ''.'' # rev b" using arg_cong [OF rev, of rev] by simp
    moreover have "CHR ''.'' \<notin> set (rev b)" by (auto simp: b_def dest: set_takeWhileD)
    ultimately show ?thesis by (intro disjI2 exI [of _ "rev b"]) simp
  next
    case False
    then show ?thesis by (simp add: file_stem_def b_def Let_def)
  qed
qed

lemma temporary_extension_ne:
  assumes "path_file_name path = Some name" and "path_parent path = Some parent"
  shows "with_extension path (''tmp.'' @ show_nat pid) \<noteq> path"
proof
  let ?t = "file_stem name @ ''.'' @ ''tmp.'' @ show_nat (pid)"
  assume same: "with_extension path (''tmp.'' @ show_nat pid) = path"
  have name: "name_ok name" using assms(1) by (rule file_name_ok)
  have "set (file_stem name) \<subseteq> set name" using file_stem_cases [of name] by (metis Un_iff set_append subsetI)
  with name have "CHR ''/'' \<notin> set ?t"
    by (auto simp: name_ok_def part_ok_def is_ascii_digit_def code_def dest: show_nat_digits)
  then have "name_ok ?t" by (auto simp: name_ok_def part_ok_def)
  from file_name_join [OF this, of parent] same assms have "?t = name"
    by (simp add: with_extension_def)
  from file_stem_cases [of name] show False
  proof (elim disjE exE conjE)
    fix ext
    assume ext: "CHR ''.'' \<notin> set ext" "name = file_stem name @ CHR ''.'' # ext"
    with \<open>?t = name\<close> have "file_stem name @ CHR ''.'' # ''tmp.'' @ show_nat (pid) = file_stem name @ CHR ''.'' # ext" by simp
    then have "ext = ''tmp.'' @ show_nat (pid)" by simp
    with ext(1) show False by simp
  next
    assume "file_stem name = name"
    with \<open>?t = name\<close> show False by simp
  qed
qed

end
