(* ===== verification/Agent_Event.thy ===== *)
theory Agent_Event
  imports Rust_Str "HOL-Library.AList"
begin

text \<open>
  Agent events as plugins receive them (\<^verbatim>\<open>crates/abyss-plugin-protocol/src/event.rs\<close>) and their translation into the upload
  format of the delivery plugin (\<^verbatim>\<open>crates/abyss-delivery-plugin/src/uploader.rs\<close>). Conversations (\<open>'c\<close>), timestamps (\<open>'t\<close>) and
  JSON values (\<open>'v\<close>) are data of libraries; \<^verbatim>\<open>serde_json::to_value\<close> and \<^verbatim>\<open>to_rfc3339\<close> are parameters.
\<close>

section \<open>Events\<close>

datatype content_category = CategoryTokenUsage | CategoryConversationText | CategoryToolContent | CategoryImages

datatype http_header_value = HeaderText bytes | HeaderBase64 bytes

record event_header =
  eh_name :: bytes
  eh_value :: http_header_value

record http_header_wire =
  hw_name :: bytes
  hw_value :: "bytes option"
  hw_value_base64 :: "bytes option"

definition header_try_from :: "http_header_wire \<Rightarrow> (string, event_header) result" where
  "header_try_from wire =
     (case (hw_value wire, hw_value_base64 wire) of
        (Some v, None) \<Rightarrow> Ok \<lparr>eh_name = hw_name wire, eh_value = HeaderText v\<rparr>
      | (None, Some v) \<Rightarrow> Ok \<lparr>eh_name = hw_name wire, eh_value = HeaderBase64 v\<rparr>
      | _ \<Rightarrow> Err ''a header carries exactly one of `value` and `value_base64`'')"

definition header_into_wire :: "event_header \<Rightarrow> http_header_wire" where
  "header_into_wire h =
     (case eh_value h of
        HeaderText v \<Rightarrow> \<lparr>hw_name = eh_name h, hw_value = Some v, hw_value_base64 = None\<rparr>
      | HeaderBase64 v \<Rightarrow> \<lparr>hw_name = eh_name h, hw_value = None, hw_value_base64 = Some v\<rparr>)"

datatype event_purpose = Prewarm | SessionTitle | Compaction

record device_context =
  dc_host_name :: bytes
  dc_platform :: bytes
  dc_os_version :: "bytes option"

record agent_context =
  ac_name :: bytes
  ac_version :: "bytes option"

datatype llm_provider = OpenAi | Anthropic | OtherProvider bytes

definition provider_from_wire_name :: "bytes \<Rightarrow> llm_provider" where
  "provider_from_wire_name name =
     (if name = ''openai'' then OpenAi else if name = ''anthropic'' then Anthropic else OtherProvider name)"

fun provider_wire_name :: "llm_provider \<Rightarrow> bytes" where
  "provider_wire_name OpenAi = ''openai''"
| "provider_wire_name Anthropic = ''anthropic''"
| "provider_wire_name (OtherProvider name) = name"

record llm_context =
  lc_provider :: llm_provider
  lc_model :: bytes

datatype agent_event_side = RequestSide | ResponseSide

fun side_wire_name :: "agent_event_side \<Rightarrow> bytes" where
  "side_wire_name RequestSide = ''request''"
| "side_wire_name ResponseSide = ''response''"

record token_usage =
  tu_input_tokens :: u64
  tu_output_tokens :: u64
  tu_cache_read_tokens :: u64
  tu_cache_write_tokens :: u64
  tu_reasoning_tokens :: u64
  tu_total_tokens :: u64

datatype image_media_type = Png | Jpeg | Webp | Gif

fun media_wire_name :: "image_media_type \<Rightarrow> bytes" where
  "media_wire_name Png = ''image/png''"
| "media_wire_name Jpeg = ''image/jpeg''"
| "media_wire_name Webp = ''image/webp''"
| "media_wire_name Gif = ''image/gif''"

record image_attachment =
  ia_position :: "32 word"
  ia_media_type :: image_media_type
  ia_byte_size :: u64
  ia_sha256 :: bytes
  ia_content_base64 :: "bytes option"

record ('c, 't) agent_event =
  ae_event_id :: bytes
  ae_observed_at :: 't
  ae_device :: device_context
  ae_agent :: agent_context
  ae_session_id :: bytes
  ae_response_id :: "bytes option"
  ae_previous_response_id :: "bytes option"
  ae_subagent_id :: "bytes option"
  ae_parent_subagent_id :: "bytes option"
  ae_turn_id :: "bytes option"
  ae_purpose :: "event_purpose option"
  ae_llm :: llm_context
  ae_side :: agent_event_side
  ae_omitted :: "content_category list"
  ae_conversation :: "'c option"
  ae_path :: bytes
  ae_headers :: "event_header list"
  ae_token_usage :: token_usage
  ae_attachments :: "image_attachment list"

section \<open>The upload format\<close>

record backend_token_usage =
  bt_input_tokens :: int
  bt_output_tokens :: int
  bt_cache_read_tokens :: int
  bt_cache_write_tokens :: int
  bt_reasoning_tokens :: int
  bt_total_tokens :: int

record ingest_image_attachment =
  ii_position :: int
  ii_media_type :: bytes
  ii_byte_size :: u64
  ii_sha256 :: bytes
  ii_content_base64 :: "bytes option"

record ('c, 'v) ingest_usage_event =
  iu_event_id :: bytes
  iu_observed_at :: bytes
  iu_device :: device_context
  iu_agent :: agent_context
  iu_session_id :: bytes
  iu_response_id :: "bytes option"
  iu_previous_response_id :: "bytes option"
  iu_subagent_id :: "bytes option"
  iu_parent_subagent_id :: "bytes option"
  iu_turn_id :: "bytes option"
  iu_llm_provider :: bytes
  iu_llm_model :: bytes
  iu_event_type :: bytes
  iu_conversation :: "'c option"
  iu_token_usage :: backend_token_usage
  iu_metadata :: "(bytes \<times> 'v) list"
  iu_attachments :: "ingest_image_attachment list"

record ('c, 'v) ingest_events_request =
  ir_events :: "('c, 'v) ingest_usage_event list"
  ir_diagnostic_captures :: "'v list"

record ('t, 'v) value_libs =
  vl_rfc3339 :: "'t \<Rightarrow> bytes"
  vl_purpose :: "event_purpose \<Rightarrow> 'v option"
  vl_omitted :: "content_category list \<Rightarrow> 'v option"
  vl_headers :: "event_header list \<Rightarrow> 'v option"
  vl_string :: "bytes \<Rightarrow> 'v"

section \<open>Translation\<close>

text \<open>\<^verbatim>\<open>i64::try_from\<close> on a counter, \<^verbatim>\<open>i32::try_from\<close> on a position.\<close>

definition token_counter :: "string \<Rightarrow> u64 \<Rightarrow> (string, int) result" where
  "token_counter name value = (if unat value < 2 ^ 63 then Ok (int (unat value)) else Err (name @ '' exceeds backend counter range''))"

definition backend_usage_try_from :: "token_usage \<Rightarrow> (string, backend_token_usage) result" where
  "backend_usage_try_from u =
     (case token_counter ''input_tokens'' (tu_input_tokens u) of Err e \<Rightarrow> Err e | Ok i \<Rightarrow>
      case token_counter ''output_tokens'' (tu_output_tokens u) of Err e \<Rightarrow> Err e | Ok out \<Rightarrow>
      case token_counter ''cache_read_tokens'' (tu_cache_read_tokens u) of Err e \<Rightarrow> Err e | Ok cr \<Rightarrow>
      case token_counter ''cache_write_tokens'' (tu_cache_write_tokens u) of Err e \<Rightarrow> Err e | Ok cw \<Rightarrow>
      case token_counter ''reasoning_tokens'' (tu_reasoning_tokens u) of Err e \<Rightarrow> Err e | Ok rs \<Rightarrow>
      case token_counter ''total_tokens'' (tu_total_tokens u) of Err e \<Rightarrow> Err e | Ok tot \<Rightarrow>
        Ok \<lparr>bt_input_tokens = i, bt_output_tokens = out, bt_cache_read_tokens = cr, bt_cache_write_tokens = cw,
            bt_reasoning_tokens = rs, bt_total_tokens = tot\<rparr>)"

definition attachment_try_from :: "image_attachment \<Rightarrow> (string, ingest_image_attachment) result" where
  "attachment_try_from a =
     (if unat (ia_position a) < 2 ^ 31
      then Ok \<lparr>ii_position = int (unat (ia_position a)), ii_media_type = media_wire_name (ia_media_type a),
               ii_byte_size = ia_byte_size a, ii_sha256 = ia_sha256 a, ii_content_base64 = ia_content_base64 a\<rparr>
      else Err ''image attachment position exceeds backend range'')"

text \<open>\<^verbatim>\<open>collect::<Result<_, _>>()\<close>: the first error, or all results in order.\<close>

fun collect_results :: "('e, 'a) result list \<Rightarrow> ('e, 'a list) result" where
  "collect_results [] = Ok []"
| "collect_results (Err e # rs) = Err e"
| "collect_results (Ok x # rs) = map_sum id (\<lambda>xs. x # xs) (collect_results rs)"

definition add_metadata ::
  "bytes \<Rightarrow> 'v option option \<Rightarrow> (bytes \<times> 'v) list \<Rightarrow> (string, (bytes \<times> 'v) list) result" where
  "add_metadata key val m =
     (case val of
        None \<Rightarrow> Ok m
      | Some None \<Rightarrow> Err ''serialize metadata''
      | Some (Some v) \<Rightarrow> Ok (AList.update key v m))"

definition event_metadata :: "('t, 'v) value_libs \<Rightarrow> ('c, 't) agent_event \<Rightarrow> (string, (bytes \<times> 'v) list) result" where
  "event_metadata libs e =
     (case add_metadata ''purpose'' (map_option (vl_purpose libs) (ae_purpose e)) [] of Err x \<Rightarrow> Err x | Ok m1 \<Rightarrow>
      case add_metadata ''omitted'' (if ae_omitted e = [] then None else Some (vl_omitted libs (ae_omitted e))) m1 of Err x \<Rightarrow> Err x | Ok m2 \<Rightarrow>
        add_metadata ''headers'' (if ae_headers e = [] then None else Some (vl_headers libs (ae_headers e)))
          (AList.update ''path'' (vl_string libs (ae_path e)) m2))"

definition ingest_event_try_from ::
  "('t, 'v) value_libs \<Rightarrow> ('c, 't) agent_event \<Rightarrow> (string, ('c, 'v) ingest_usage_event) result" where
  "ingest_event_try_from libs e =
     (case event_metadata libs e of Err x \<Rightarrow> Err x | Ok metadata \<Rightarrow>
      case backend_usage_try_from (ae_token_usage e) of Err x \<Rightarrow> Err x | Ok usage \<Rightarrow>
      case collect_results (map attachment_try_from (ae_attachments e)) of Err x \<Rightarrow> Err x | Ok attachments \<Rightarrow>
        Ok \<lparr>iu_event_id = ae_event_id e, iu_observed_at = vl_rfc3339 libs (ae_observed_at e), iu_device = ae_device e,
            iu_agent = ae_agent e, iu_session_id = ae_session_id e, iu_response_id = ae_response_id e,
            iu_previous_response_id = ae_previous_response_id e, iu_subagent_id = ae_subagent_id e,
            iu_parent_subagent_id = ae_parent_subagent_id e, iu_turn_id = ae_turn_id e,
            iu_llm_provider = provider_wire_name (lc_provider (ae_llm e)), iu_llm_model = lc_model (ae_llm e),
            iu_event_type = side_wire_name (ae_side e), iu_conversation = ae_conversation e, iu_token_usage = usage,
            iu_metadata = metadata, iu_attachments = attachments\<rparr>)"

definition ingest_request_try_from ::
  "('t, 'v) value_libs \<Rightarrow> ('c, 't) agent_event \<Rightarrow> (string, ('c, 'v) ingest_events_request) result" where
  "ingest_request_try_from libs e =
     map_sum id (\<lambda>u. \<lparr>ir_events = [u], ir_diagnostic_captures = []\<rparr>) (ingest_event_try_from libs e)"

section \<open>Properties\<close>

lemma header_wire_round: "header_try_from (header_into_wire h) = Ok h"
  by (cases h) (auto simp: header_try_from_def header_into_wire_def split: http_header_value.split)

lemma header_wire_exact: "header_try_from w = Ok h \<Longrightarrow> header_into_wire h = w"
  by (cases w) (auto simp: header_try_from_def header_into_wire_def split: option.splits)

lemma provider_round: "provider_from_wire_name (provider_wire_name p) = p \<or> (\<exists>name. p = OtherProvider name)"
  by (cases p) (auto simp: provider_from_wire_name_def)

lemma token_counter_Ok: "token_counter name v = Ok i \<longleftrightarrow> unat v < 2 ^ 63 \<and> i = int (unat v)"
  by (auto simp: token_counter_def)

lemma collect_results_map: "collect_results (map Ok xs) = Ok xs"
  by (induction xs) simp_all

lemma collect_results_Ok: "collect_results rs = Ok xs \<Longrightarrow> rs = map Ok xs"
proof (induction rs arbitrary: xs rule: collect_results.induct)
  case (3 x rs)
  then show ?case by (cases "collect_results rs") auto
qed simp_all

lemma attachments_translated:
  "map attachment_try_from xs = map Ok ys \<Longrightarrow>
     map ii_position ys = map (\<lambda>a. int (unat (ia_position a))) xs \<and> map ii_sha256 ys = map ia_sha256 xs"
proof (induction xs arbitrary: ys)
  case (Cons x xs)
  then obtain y zs where ys: "ys = y # zs" "attachment_try_from x = Ok y" "map attachment_try_from xs = map Ok zs" by (cases ys) auto
  then have "ii_position y = int (unat (ia_position x))" "ii_sha256 y = ia_sha256 x"
    by (auto simp: attachment_try_from_def split: if_splits)
  with Cons.IH [OF ys(3)] ys(1) show ?case by simp
qed simp

lemma backend_usage_Ok:
  "backend_usage_try_from t = Ok b \<Longrightarrow>
     bt_input_tokens b = int (unat (tu_input_tokens t)) \<and> bt_output_tokens b = int (unat (tu_output_tokens t))
   \<and> bt_total_tokens b = int (unat (tu_total_tokens t))"
  by (auto simp: backend_usage_try_from_def token_counter_Ok split: sum.splits)

text \<open>What a translated event says about tokens and images is what the event said, number by number.\<close>

lemma ingest_event_numbers:
  assumes "ingest_event_try_from libs e = Ok u"
  shows "bt_input_tokens (iu_token_usage u) = int (unat (tu_input_tokens (ae_token_usage e)))
    \<and> bt_output_tokens (iu_token_usage u) = int (unat (tu_output_tokens (ae_token_usage e)))
    \<and> bt_total_tokens (iu_token_usage u) = int (unat (tu_total_tokens (ae_token_usage e)))
    \<and> map ii_position (iu_attachments u) = map (\<lambda>a. int (unat (ia_position a))) (ae_attachments e)
    \<and> map ii_sha256 (iu_attachments u) = map ia_sha256 (ae_attachments e)"
proof -
  from assms obtain atts where atts: "collect_results (map attachment_try_from (ae_attachments e)) = Ok atts" "iu_attachments u = atts"
    and usage: "backend_usage_try_from (ae_token_usage e) = Ok (iu_token_usage u)"
    by (auto simp: ingest_event_try_from_def split: sum.splits)
  from collect_results_Ok [OF atts(1)] have same: "map attachment_try_from (ae_attachments e) = map Ok atts" .
  note attachments_translated [OF this]
  with usage atts(2) backend_usage_Ok [OF usage] show ?thesis by simp
qed

end
