(* ===== verification/Normalizer.thy ===== *)
theory Normalizer
  imports Agent_Event Http_Types
begin

text \<open>
  From a parsed exchange to the events plugins receive (\<^verbatim>\<open>crates/abyss-agent-hook/src\<close>): conversations, token usage and images
  (\<^verbatim>\<open>protocol/model\<close>), the headers passed along (\<^verbatim>\<open>event/passthrough.rs\<close>), the normaliser (\<^verbatim>\<open>event/normalizer\<close>) with the
  content policy, and the publication (\<^verbatim>\<open>delivery.rs\<close>). Digests, base64, JSON text and RFC 3339 are parameters; instants are
  nanoseconds, an \<^verbatim>\<open>i64\<close> is an integer with its saturation written out.
\<close>

section \<open>Conversations\<close>

datatype entry_role =
    RoleSystem | RoleDeveloper | RoleUser | RoleAssistant | RoleReasoning | RoleToolCall | RoleToolResult | RoleUnknown

datatype content_completeness = ContentComplete | ContentPartial | ContentUnsupported

record conversation_entry =
  ce_role :: entry_role
  ce_text :: bytes
  ce_call_id :: "bytes option"
  ce_name :: "bytes option"
  ce_item_id :: "bytes option"

record conversation =
  cv_entries :: "conversation_entry list"
  cv_completeness :: content_completeness

definition empty_conversation :: conversation where
  "empty_conversation = \<lparr>cv_entries = [], cv_completeness = ContentComplete\<rparr>"

definition completeness_of :: "bool \<Rightarrow> bool \<Rightarrow> content_completeness" where
  "completeness_of decoded truncated =
     (if truncated then ContentPartial else if decoded then ContentComplete else ContentUnsupported)"

definition mark_partial :: "conversation \<Rightarrow> conversation" where
  "mark_partial c = (if cv_completeness c = ContentComplete then c\<lparr>cv_completeness := ContentPartial\<rparr> else c)"

definition entry_role_of :: "bytes \<Rightarrow> entry_role" where
  "entry_role_of value =
     (let name = to_ascii_lowercase (str_trim value) in
      if name = ''system'' then RoleSystem
      else if name = ''developer'' then RoleDeveloper
      else if name = ''user'' \<or> name = ''human'' then RoleUser
      else if name = ''assistant'' then RoleAssistant
      else if name = ''tool'' \<or> name = ''function'' then RoleToolResult
      else RoleUnknown)"

definition text_entry :: "entry_role \<Rightarrow> bytes \<Rightarrow> conversation_entry" where
  "text_entry role text = \<lparr>ce_role = role, ce_text = text, ce_call_id = None, ce_name = None, ce_item_id = None\<rparr>"

definition tool_call_entry :: "bytes option \<Rightarrow> bytes option \<Rightarrow> bytes \<Rightarrow> conversation_entry" where
  "tool_call_entry call_id name input =
     \<lparr>ce_role = RoleToolCall, ce_text = input, ce_call_id = call_id, ce_name = name, ce_item_id = None\<rparr>"

definition tool_result_entry :: "bytes option \<Rightarrow> bytes \<Rightarrow> conversation_entry" where
  "tool_result_entry call_id output =
     \<lparr>ce_role = RoleToolResult, ce_text = output, ce_call_id = call_id, ce_name = None, ce_item_id = None\<rparr>"

definition identify_entries :: "bytes option \<Rightarrow> conversation_entry list \<Rightarrow> conversation_entry list" where
  "identify_entries item_id entries = map (\<lambda>e. e\<lparr>ce_item_id := item_id\<rparr>) entries"

section \<open>Token usage\<close>

definition saturating_add_i64 :: "int \<Rightarrow> int \<Rightarrow> int" where
  "saturating_add_i64 a b = max (- (2 ^ 63)) (min (2 ^ 63 - 1) (a + b))"

record parsed_usage =
  pu_input_tokens :: int
  pu_output_tokens :: int
  pu_cache_read_tokens :: int
  pu_cache_write_tokens :: int
  pu_reasoning_tokens :: int
  pu_total_tokens :: int

definition default_usage :: parsed_usage where
  "default_usage =
     \<lparr>pu_input_tokens = 0, pu_output_tokens = 0, pu_cache_read_tokens = 0, pu_cache_write_tokens = 0,
      pu_reasoning_tokens = 0, pu_total_tokens = 0\<rparr>"

definition usage_from_parts :: "int \<Rightarrow> int \<Rightarrow> int \<Rightarrow> int \<Rightarrow> int \<Rightarrow> parsed_usage" where
  "usage_from_parts input cache_read cache_write output reasoning =
     \<lparr>pu_input_tokens = input, pu_output_tokens = output, pu_cache_read_tokens = cache_read, pu_cache_write_tokens = cache_write,
      pu_reasoning_tokens = reasoning,
      pu_total_tokens =
        saturating_add_i64 (saturating_add_i64 (saturating_add_i64 input cache_read) cache_write) output\<rparr>"

definition usage_is_empty :: "parsed_usage \<Rightarrow> bool" where
  "usage_is_empty u \<longleftrightarrow>
     pu_input_tokens u = 0 \<and> pu_output_tokens u = 0 \<and> pu_cache_read_tokens u = 0 \<and> pu_cache_write_tokens u = 0
     \<and> pu_reasoning_tokens u = 0 \<and> pu_total_tokens u = 0"

definition request_side :: "parsed_usage \<Rightarrow> parsed_usage" where
  "request_side u = usage_from_parts (pu_input_tokens u) (pu_cache_read_tokens u) (pu_cache_write_tokens u) 0 0"

definition response_side :: "parsed_usage \<Rightarrow> parsed_usage" where
  "response_side u = usage_from_parts 0 0 0 (pu_output_tokens u) (pu_reasoning_tokens u)"

section \<open>Images\<close>

definition MAX_IMAGE_ATTACHMENTS_PER_EVENT :: nat where
  "MAX_IMAGE_ATTACHMENTS_PER_EVENT = 8"

definition MAX_IMAGE_ATTACHMENT_BYTES_PER_EVENT :: nat where
  "MAX_IMAGE_ATTACHMENT_BYTES_PER_EVENT = 8 * 1024 * 1024"

datatype parsed_media_type = ParsedPng | ParsedJpeg | ParsedWebp | ParsedGif

definition media_type_parse :: "bytes \<Rightarrow> parsed_media_type option" where
  "media_type_parse value =
     (let name = to_ascii_lowercase (str_trim value) in
      if name = ''image/png'' then Some ParsedPng
      else if name = ''image/jpeg'' \<or> name = ''image/jpg'' then Some ParsedJpeg
      else if name = ''image/webp'' then Some ParsedWebp
      else if name = ''image/gif'' then Some ParsedGif
      else None)"

fun media_as_str :: "parsed_media_type \<Rightarrow> bytes" where
  "media_as_str ParsedPng = ''image/png''"
| "media_as_str ParsedJpeg = ''image/jpeg''"
| "media_as_str ParsedWebp = ''image/webp''"
| "media_as_str ParsedGif = ''image/gif''"

fun matches_signature :: "parsed_media_type \<Rightarrow> bytes \<Rightarrow> bool" where
  "matches_signature ParsedPng bs \<longleftrightarrow> prefix ([CHR 0x89] @ ''PNG'' @ [CHR 0x0D, CHR 0x0A, CHR 0x1A, CHR 0x0A]) bs"
| "matches_signature ParsedJpeg bs \<longleftrightarrow> prefix [CHR 0xFF, CHR 0xD8, CHR 0xFF] bs"
| "matches_signature ParsedWebp bs \<longleftrightarrow> 12 \<le> length bs \<and> prefix ''RIFF'' bs \<and> take 4 (drop 8 bs) = ''WEBP''"
| "matches_signature ParsedGif bs \<longleftrightarrow> prefix ''GIF87a'' bs \<or> prefix ''GIF89a'' bs"

record parsed_image =
  pi_media_type :: parsed_media_type
  pi_bytes :: bytes
  pi_sha256 :: bytes

text \<open>Digests, base64, the JSON text of the entries of a conversation, timestamps, and the path of a URI.\<close>

record normalizer_libs =
  nl_sha256_hex :: "bytes \<Rightarrow> bytes"
  nl_base64 :: "bytes \<Rightarrow> bytes"
  nl_entries_text :: "conversation_entry list \<Rightarrow> bytes"
  nl_rfc3339_micros :: "int \<Rightarrow> bytes"
  nl_parse_rfc3339 :: "bytes \<Rightarrow> int option"
  nl_os :: bytes
  nl_uri_path :: "uri \<Rightarrow> bytes"
  nl_last_time :: int

definition image_from_bytes :: "normalizer_libs \<Rightarrow> bytes \<Rightarrow> bytes \<Rightarrow> parsed_image option" where
  "image_from_bytes libs media_type bs =
     (case media_type_parse media_type of
        None \<Rightarrow> None
      | Some m \<Rightarrow>
          if bs = [] \<or> MAX_IMAGE_ATTACHMENT_BYTES_PER_EVENT < length bs \<or> \<not> matches_signature m bs then None
          else Some \<lparr>pi_media_type = m, pi_bytes = bs, pi_sha256 = nl_sha256_hex libs bs\<rparr>)"

section \<open>Headers passed along\<close>

definition REDACTED_HEADER_VALUE :: bytes where
  "REDACTED_HEADER_VALUE = ''<redacted>''"

text \<open>\<open>contains_word w s\<close>: \<^verbatim>\<open>s.contains(w)\<close>.\<close>

fun contains_word :: "bytes \<Rightarrow> bytes \<Rightarrow> bool" where
  "contains_word w [] \<longleftrightarrow> w = []"
| "contains_word w (c # s) \<longleftrightarrow> prefix w (c # s) \<or> contains_word w s"

definition is_sensitive_header :: "bytes \<Rightarrow> bool" where
  "is_sensitive_header name \<longleftrightarrow>
     List.member [''authorization'', ''proxy-authorization'', ''cookie'', ''set-cookie'', ''api-key'', ''x-api-key'',
       ''x-goog-api-key'', ''anthropic-api-key'', ''chatgpt-account-id''] name
     \<or> contains_word ''token'' name"

definition passthrough_headers :: "normalizer_libs \<Rightarrow> headers \<Rightarrow> event_header list" where
  "passthrough_headers libs hs =
     map (\<lambda>(name, v).
       \<lparr>eh_name = name,
        eh_value =
          (if is_sensitive_header name then HeaderText REDACTED_HEADER_VALUE
           else if utf8_valid (hv_bytes v) then HeaderText (hv_bytes v)
           else HeaderBase64 (nl_base64 libs (hv_bytes v)))\<rparr>) hs"

record exchange_passthrough =
  xp_path :: bytes
  xp_request :: "event_header list"
  xp_response :: "event_header list"

definition passthrough_new :: "normalizer_libs \<Rightarrow> uri \<Rightarrow> headers \<Rightarrow> headers \<Rightarrow> exchange_passthrough" where
  "passthrough_new libs target request response =
     \<lparr>xp_path = (case uri_path_and_query target of None \<Rightarrow> nl_uri_path libs target | Some pq \<Rightarrow> pq),
      xp_request = passthrough_headers libs request, xp_response = passthrough_headers libs response\<rparr>"

section \<open>Content policy and declarations\<close>

record content_config =
  cc_token_usage :: bool
  cc_conversation_text :: bool
  cc_tool_calls :: bool
  cc_images :: bool

definition default_content_config :: content_config where
  "default_content_config =
     \<lparr>cc_token_usage = True, cc_conversation_text = True, cc_tool_calls = True, cc_images = True\<rparr>"

record device_identity =
  di_hostname :: "bytes option"
  di_platform :: "bytes option"
  di_os_version :: "bytes option"

record continuation =
  cn_response_id :: "bytes option"
  cn_previous_response_id :: "bytes option"

record declared =
  dl_purpose :: "event_purpose option"
  dl_response_id :: "bytes option"
  dl_previous_response_id :: "bytes option"
  dl_subagent_id :: "bytes option"
  dl_parent_subagent_id :: "bytes option"
  dl_turn_id :: "bytes option"

record agent_declaration =
  ad_purpose :: "event_purpose option"
  ad_subagent_id :: "bytes option"
  ad_parent_subagent_id :: "bytes option"
  ad_turn_id :: "bytes option"

definition default_declaration :: agent_declaration where
  "default_declaration = \<lparr>ad_purpose = None, ad_subagent_id = None, ad_parent_subagent_id = None, ad_turn_id = None\<rparr>"

record harness_detection =
  hd_harness_id :: bytes
  hd_version :: "bytes option"

section \<open>Normalised events\<close>

record normalized_image =
  ni_position :: int
  ni_media_type :: bytes
  ni_byte_size :: nat
  ni_sha256 :: bytes
  ni_content_base64 :: "bytes option"

record normalized_event =
  ne_event_id :: bytes
  ne_observed_at :: bytes
  ne_device :: device_context
  ne_agent :: agent_context
  ne_session_id :: bytes
  ne_response_id :: "bytes option"
  ne_previous_response_id :: "bytes option"
  ne_subagent_id :: "bytes option"
  ne_parent_subagent_id :: "bytes option"
  ne_turn_id :: "bytes option"
  ne_purpose :: "event_purpose option"
  ne_llm_provider :: bytes
  ne_llm_model :: bytes
  ne_side :: agent_event_side
  ne_omitted :: "content_category list"
  ne_conversation :: "conversation option"
  ne_path :: bytes
  ne_headers :: "event_header list"
  ne_token_usage :: parsed_usage
  ne_attachments :: "normalized_image list"

record event_parts =
  ep_harness_name :: bytes
  ep_harness_version :: "bytes option"
  ep_llm_provider :: bytes
  ep_llm_model :: "bytes option"
  ep_session_id :: bytes
  ep_response_identity :: bytes
  ep_request_conversation :: conversation
  ep_response_conversation :: conversation
  ep_request_images :: "parsed_image list"
  ep_usage :: parsed_usage
  ep_allow_request_without_response :: bool

record event_side =
  es_side :: agent_event_side
  es_conversation :: conversation
  es_token_usage :: parsed_usage
  es_attachments :: "parsed_image list"
  es_path :: bytes
  es_headers :: "event_header list"
  es_content :: content_config
  es_declared :: declared

definition device_payload :: "normalizer_libs \<Rightarrow> device_identity \<Rightarrow> device_context" where
  "device_payload libs device =
     \<lparr>dc_host_name = (case di_hostname device of Some h \<Rightarrow> h | None \<Rightarrow> ''unknown''),
      dc_platform = (case di_platform device of Some p \<Rightarrow> p | None \<Rightarrow> nl_os libs), dc_os_version = di_os_version device\<rparr>"

definition retained_token_usage :: "parsed_usage \<Rightarrow> content_config \<Rightarrow> parsed_usage" where
  "retained_token_usage usage content = (if cc_token_usage content then usage else default_usage)"

definition is_tool_role :: "entry_role \<Rightarrow> bool" where
  "is_tool_role role \<longleftrightarrow> role = RoleToolCall \<or> role = RoleToolResult"

definition retained_entry :: "content_config \<Rightarrow> conversation_entry \<Rightarrow> conversation_entry" where
  "retained_entry content e =
     (if (if is_tool_role (ce_role e) then cc_tool_calls content else cc_conversation_text content) then e
      else e\<lparr>ce_text := []\<rparr>)"

definition retained_conversation :: "conversation \<Rightarrow> content_config \<Rightarrow> conversation" where
  "retained_conversation c content = c\<lparr>cv_entries := map (retained_entry content) (cv_entries c)\<rparr>"

definition omitted_categories :: "content_config \<Rightarrow> content_category list" where
  "omitted_categories content =
     map snd (filter (\<lambda>(kept, category). \<not> kept)
       [(cc_token_usage content, CategoryTokenUsage), (cc_conversation_text content, CategoryConversationText),
        (cc_tool_calls content, CategoryToolContent), (cc_images content, CategoryImages)])"

definition stable_event_id :: "normalizer_libs \<Rightarrow> bytes list \<Rightarrow> bytes" where
  "stable_event_id libs parts = ''evt_'' @ take 32 (nl_sha256_hex libs (concat (map (\<lambda>p. p @ [CHR 0x00]) parts)))"

definition event_content_hash :: "normalizer_libs \<Rightarrow> conversation \<Rightarrow> parsed_image list \<Rightarrow> bytes" where
  "event_content_hash libs c attachments =
     (let entries_hash = nl_sha256_hex libs (nl_entries_text libs (cv_entries c)) in
      if attachments = [] then entries_hash
      else nl_sha256_hex libs (entries_hash @ concat (map (\<lambda>a. CHR 0x00 # pi_sha256 a) attachments)))"

definition normalized_image_attachments :: "normalizer_libs \<Rightarrow> parsed_image list \<Rightarrow> content_config \<Rightarrow> normalized_image list" where
  "normalized_image_attachments libs images content =
     (if \<not> cc_images content then []
      else map (\<lambda>(position, image).
             \<lparr>ni_position = int position, ni_media_type = media_as_str (pi_media_type image), ni_byte_size = length (pi_bytes image),
              ni_sha256 = pi_sha256 image, ni_content_base64 = Some (nl_base64 libs (pi_bytes image))\<rparr>)
           (enumerate 0 images))"

definition usage_event :: "normalizer_libs \<Rightarrow> device_identity \<Rightarrow> event_parts \<Rightarrow> event_side \<Rightarrow> int \<Rightarrow> normalized_event" where
  "usage_event libs device parts side observed_at =
     \<lparr>ne_event_id = stable_event_id libs
        [case di_hostname device of Some h \<Rightarrow> h | None \<Rightarrow> [], ep_harness_name parts, ep_session_id parts,
         side_wire_name (es_side side), ep_response_identity parts,
         event_content_hash libs (es_conversation side) (es_attachments side)],
      ne_observed_at = nl_rfc3339_micros libs observed_at,
      ne_device = device_payload libs device,
      ne_agent = \<lparr>ac_name = ep_harness_name parts, ac_version = ep_harness_version parts\<rparr>,
      ne_session_id = ep_session_id parts,
      ne_response_id = dl_response_id (es_declared side),
      ne_previous_response_id = dl_previous_response_id (es_declared side),
      ne_subagent_id = dl_subagent_id (es_declared side),
      ne_parent_subagent_id = dl_parent_subagent_id (es_declared side),
      ne_turn_id = dl_turn_id (es_declared side),
      ne_purpose = dl_purpose (es_declared side),
      ne_llm_provider = ep_llm_provider parts,
      ne_llm_model = (case ep_llm_model parts of Some m \<Rightarrow> m | None \<Rightarrow> ''unknown''),
      ne_side = es_side side,
      ne_omitted = omitted_categories (es_content side),
      ne_conversation = Some (retained_conversation (es_conversation side) (es_content side)),
      ne_path = es_path side,
      ne_headers = es_headers side,
      ne_token_usage = es_token_usage side,
      ne_attachments = normalized_image_attachments libs (es_attachments side) (es_content side)\<rparr>"

text \<open>
  Timestamps of one exchange never go back: the previous one and the clock give the next (a microsecond later at least, as
  far as the calendar goes).
\<close>

definition next_timestamp :: "normalizer_libs \<Rightarrow> int \<Rightarrow> int option \<Rightarrow> int" where
  "next_timestamp libs now previous =
     (case previous of
        None \<Rightarrow> now
      | Some p \<Rightarrow> max now (if p + 1000 \<le> nl_last_time libs then p + 1000 else p))"

definition request_event_side :: "event_parts \<Rightarrow> content_config \<Rightarrow> declared \<Rightarrow> exchange_passthrough \<Rightarrow> event_side" where
  "request_event_side parts content decl xp =
     \<lparr>es_side = RequestSide, es_conversation = ep_request_conversation parts,
      es_token_usage = retained_token_usage (request_side (ep_usage parts)) content, es_attachments = ep_request_images parts,
      es_path = xp_path xp, es_headers = xp_request xp, es_content = content, es_declared = decl\<rparr>"

definition response_event_side :: "event_parts \<Rightarrow> content_config \<Rightarrow> declared \<Rightarrow> exchange_passthrough \<Rightarrow> event_side" where
  "response_event_side parts content decl xp =
     \<lparr>es_side = ResponseSide, es_conversation = ep_response_conversation parts,
      es_token_usage = retained_token_usage (response_side (ep_usage parts)) content, es_attachments = [],
      es_path = xp_path xp, es_headers = xp_response xp, es_content = content, es_declared = decl\<rparr>"

text \<open>\<open>t1\<close> and \<open>t2\<close> are the answers of the clock, in this order.\<close>

definition events_for_parsed_exchange ::
  "normalizer_libs \<Rightarrow> device_identity \<Rightarrow> int \<Rightarrow> int \<Rightarrow> event_parts \<Rightarrow> content_config \<Rightarrow> declared \<Rightarrow> exchange_passthrough
   \<Rightarrow> normalized_event list" where
  "events_for_parsed_exchange libs device t1 t2 parts content decl xp =
     (let request_has_content = (cv_entries (ep_request_conversation parts) \<noteq> [] \<or> ep_request_images parts \<noteq> []);
          response_has_content = (cv_entries (ep_response_conversation parts) \<noteq> []);
          request_only = (ep_allow_request_without_response parts \<and> request_has_content)
      in
      if \<not> response_has_content \<and> usage_is_empty (ep_usage parts) \<and> \<not> request_only then []
      else
        (let sends_request = (request_has_content \<or> \<not> usage_is_empty (request_side (ep_usage parts)));
             sends_response = (response_has_content \<or> \<not> usage_is_empty (response_side (ep_usage parts)));
             first = next_timestamp libs t1 None
         in (if sends_request then [usage_event libs device parts (request_event_side parts content decl xp) first] else [])
            @ (if sends_response
               then [usage_event libs device parts (response_event_side parts content decl xp)
                       (if sends_request then next_timestamp libs t2 (Some first) else first)]
               else [])))"

text \<open>What the normaliser asks of a parsed exchange.\<close>

record normalizable =
  nz_purpose :: "event_purpose option"
  nz_continuation :: continuation
  nz_parts :: "harness_detection \<Rightarrow> llm_provider \<Rightarrow> event_parts"

definition normalize_exchange ::
  "normalizer_libs \<Rightarrow> device_identity \<Rightarrow> int \<Rightarrow> int \<Rightarrow> normalizable \<Rightarrow> content_config \<Rightarrow> harness_detection \<Rightarrow> llm_provider
   \<Rightarrow> agent_declaration \<Rightarrow> exchange_passthrough \<Rightarrow> normalized_event list" where
  "normalize_exchange libs device t1 t2 parsed content detection provider declaration xp =
     events_for_parsed_exchange libs device t1 t2 (nz_parts parsed detection provider) content
       \<lparr>dl_purpose = (case nz_purpose parsed of Some p \<Rightarrow> Some p | None \<Rightarrow> ad_purpose declaration),
        dl_response_id = cn_response_id (nz_continuation parsed),
        dl_previous_response_id = cn_previous_response_id (nz_continuation parsed),
        dl_subagent_id = ad_subagent_id declaration, dl_parent_subagent_id = ad_parent_subagent_id declaration,
        dl_turn_id = ad_turn_id declaration\<rparr> xp"

section \<open>Publication\<close>

datatype conversion_error =
    InvalidTimestamp bytes
  | NegativeTokenCounter string int
  | UnsupportedImageMediaType bytes
  | InvalidAttachmentPosition int

definition non_negative_counter :: "string \<Rightarrow> int \<Rightarrow> (conversion_error, u64) result" where
  "non_negative_counter name value =
     (if 0 \<le> value then Ok (of_int value) else Err (NegativeTokenCounter name value))"

definition usage_try_from :: "parsed_usage \<Rightarrow> (conversion_error, token_usage) result" where
  "usage_try_from u =
     (case non_negative_counter ''input_tokens'' (pu_input_tokens u) of Err e \<Rightarrow> Err e | Ok a \<Rightarrow>
     (case non_negative_counter ''output_tokens'' (pu_output_tokens u) of Err e \<Rightarrow> Err e | Ok b \<Rightarrow>
     (case non_negative_counter ''cache_read_tokens'' (pu_cache_read_tokens u) of Err e \<Rightarrow> Err e | Ok c \<Rightarrow>
     (case non_negative_counter ''cache_write_tokens'' (pu_cache_write_tokens u) of Err e \<Rightarrow> Err e | Ok d \<Rightarrow>
     (case non_negative_counter ''reasoning_tokens'' (pu_reasoning_tokens u) of Err e \<Rightarrow> Err e | Ok f \<Rightarrow>
     (case non_negative_counter ''total_tokens'' (pu_total_tokens u) of Err e \<Rightarrow> Err e | Ok g \<Rightarrow>
        Ok \<lparr>tu_input_tokens = a, tu_output_tokens = b, tu_cache_read_tokens = c, tu_cache_write_tokens = d,
            tu_reasoning_tokens = f, tu_total_tokens = g\<rparr>))))))"

definition image_try_from :: "normalized_image \<Rightarrow> (conversion_error, image_attachment) result" where
  "image_try_from a =
     (case (if ni_media_type a = ''image/png'' then Some Png
            else if ni_media_type a = ''image/jpeg'' then Some Jpeg
            else if ni_media_type a = ''image/webp'' then Some Webp
            else if ni_media_type a = ''image/gif'' then Some Gif else None) of
        None \<Rightarrow> Err (UnsupportedImageMediaType (ni_media_type a))
      | Some m \<Rightarrow>
          if ni_position a < 0 then Err (InvalidAttachmentPosition (ni_position a))
          else Ok \<lparr>ia_position = of_int (ni_position a), ia_media_type = m, ia_byte_size = of_nat (ni_byte_size a),
              ia_sha256 = ni_sha256 a, ia_content_base64 = ni_content_base64 a\<rparr>)"

definition agent_event_try_from :: "normalizer_libs \<Rightarrow> normalized_event \<Rightarrow> (conversion_error, (conversation, int) agent_event) result" where
  "agent_event_try_from libs e =
     (case nl_parse_rfc3339 libs (ne_observed_at e) of
        None \<Rightarrow> Err (InvalidTimestamp (ne_observed_at e))
      | Some t \<Rightarrow>
          (case usage_try_from (ne_token_usage e) of
             Err x \<Rightarrow> Err x
           | Ok usage \<Rightarrow>
               (case collect_results (map image_try_from (ne_attachments e)) of
                  Err x \<Rightarrow> Err x
                | Ok attachments \<Rightarrow>
                    Ok \<lparr>ae_event_id = ne_event_id e, ae_observed_at = t, ae_device = ne_device e, ae_agent = ne_agent e,
                        ae_session_id = ne_session_id e, ae_response_id = ne_response_id e,
                        ae_previous_response_id = ne_previous_response_id e, ae_subagent_id = ne_subagent_id e,
                        ae_parent_subagent_id = ne_parent_subagent_id e, ae_turn_id = ne_turn_id e, ae_purpose = ne_purpose e,
                        ae_llm = \<lparr>lc_provider = provider_from_wire_name (ne_llm_provider e), lc_model = ne_llm_model e\<rparr>,
                        ae_side = ne_side e, ae_omitted = ne_omitted e, ae_conversation = ne_conversation e,
                        ae_path = ne_path e, ae_headers = ne_headers e, ae_token_usage = usage,
                        ae_attachments = attachments\<rparr>)))"

datatype delivery_failure = ConversionFailure conversion_error | SinkFailure string

text \<open>\<^verbatim>\<open>EventDelivery::deliver\<close>: the events are converted and published one after the other; the first failure ends it.\<close>

fun deliver_normalized ::
  "normalizer_libs \<Rightarrow> ((conversation, int) agent_event \<Rightarrow> (string, unit) result) \<Rightarrow> normalized_event list
   \<Rightarrow> (delivery_failure, unit) result \<times> (conversation, int) agent_event list" where
  "deliver_normalized libs sink [] = (Ok (), [])"
| "deliver_normalized libs sink (e # es) =
     (case agent_event_try_from libs e of
        Err x \<Rightarrow> (Err (ConversionFailure x), [])
      | Ok a \<Rightarrow>
          (case sink a of
             Err x \<Rightarrow> (Err (SinkFailure x), [a])
           | Ok _ \<Rightarrow> (case deliver_normalized libs sink es of (res, published) \<Rightarrow> (res, a # published))))"

section \<open>What events carry\<close>

text \<open>An event keeps to a content policy: denied content is not there, and its categories are named.\<close>

definition entry_respects :: "content_config \<Rightarrow> conversation_entry \<Rightarrow> bool" where
  "entry_respects content e \<longleftrightarrow>
     (if is_tool_role (ce_role e) then cc_tool_calls content else cc_conversation_text content) \<or> ce_text e = []"

definition conversation_respects :: "content_config \<Rightarrow> conversation option \<Rightarrow> bool" where
  "conversation_respects content c = (case c of None \<Rightarrow> True | Some c \<Rightarrow> list_all (entry_respects content) (cv_entries c))"

definition zero_usage :: token_usage where
  "zero_usage =
     \<lparr>tu_input_tokens = 0, tu_output_tokens = 0, tu_cache_read_tokens = 0, tu_cache_write_tokens = 0,
      tu_reasoning_tokens = 0, tu_total_tokens = 0\<rparr>"

definition event_respects :: "content_config \<Rightarrow> (conversation, 't) agent_event \<Rightarrow> bool" where
  "event_respects content a \<longleftrightarrow>
     (cc_token_usage content \<or> ae_token_usage a = zero_usage)
     \<and> (cc_images content \<or> ae_attachments a = [])
     \<and> conversation_respects content (ae_conversation a)
     \<and> ae_omitted a = omitted_categories content"

lemma retained_entry_respects: "entry_respects content (retained_entry content e)"
  by (simp add: entry_respects_def retained_entry_def)

lemma retained_conversation_respects: "conversation_respects content (Some (retained_conversation c content))"
  by (simp add: conversation_respects_def retained_conversation_def list_all_iff retained_entry_respects)

definition side_ok :: "content_config \<Rightarrow> event_side \<Rightarrow> bool" where
  "side_ok content side \<longleftrightarrow>
     es_content side = content \<and> (cc_token_usage content \<or> es_token_usage side = default_usage)"

lemma event_sides_ok:
  "side_ok content (request_event_side parts content decl xp)" "side_ok content (response_event_side parts content decl xp)"
  by (simp_all add: side_ok_def request_event_side_def response_event_side_def retained_token_usage_def)

text \<open>Every event of an exchange is one of its two sides.\<close>

lemma events_are_sides:
  assumes "e \<in> set (normalize_exchange libs device t1 t2 parsed content detection provider declaration xp)"
  obtains parts decl t side where "e = usage_event libs device parts side t"
    "side = request_event_side parts content decl xp \<or> side = response_event_side parts content decl xp"
  using assms unfolding normalize_exchange_def events_for_parsed_exchange_def
  by (auto simp: Let_def split: if_splits)

lemma zero_usage_converted: "usage_try_from default_usage = Ok zero_usage"
  by (simp add: usage_try_from_def default_usage_def non_negative_counter_def zero_usage_def)

lemma converted_respects:
  assumes conv: "agent_event_try_from libs (usage_event libs' device parts side t) = Ok a" and ok: "side_ok content side"
  shows "event_respects content a"
proof -
  let ?e = "usage_event libs' device parts side t"
  from conv obtain u att where
    u: "usage_try_from (ne_token_usage ?e) = Ok u" and att: "collect_results (map image_try_from (ne_attachments ?e)) = Ok att"
    and a: "ae_token_usage a = u" "ae_attachments a = att" "ae_conversation a = ne_conversation ?e" "ae_omitted a = ne_omitted ?e"
    by (auto simp: agent_event_try_from_def split: option.splits sum.splits)
  have "cc_token_usage content \<or> u = zero_usage"
    using ok u by (auto simp: side_ok_def usage_event_def zero_usage_converted)
  moreover have "cc_images content \<or> att = []"
    using ok att by (auto simp: side_ok_def usage_event_def normalized_image_attachments_def split: if_splits)
  ultimately show ?thesis
    using a ok by (simp add: event_respects_def side_ok_def usage_event_def retained_conversation_respects)
qed

lemma published_converted:
  "a \<in> set (snd (deliver_normalized libs sink es)) \<Longrightarrow> \<exists>e \<in> set es. agent_event_try_from libs e = Ok a"
  by (induction libs sink es rule: deliver_normalized.induct) (auto split: sum.splits prod.splits)

section \<open>Counters\<close>

lemma saturating_add_i64_exact: "\<lbrakk>0 \<le> a; 0 \<le> b; a + b < 2 ^ 63\<rbrakk> \<Longrightarrow> saturating_add_i64 a b = a + b"
  by (simp add: saturating_add_i64_def)

lemma usage_from_parts_total:
  assumes "0 \<le> i" "0 \<le> cr" "0 \<le> cw" "0 \<le> out" "i + cr + cw + out < 2 ^ 63"
  shows "pu_total_tokens (usage_from_parts i cr cw out r) = i + cr + cw + out"
  using assms by (simp add: usage_from_parts_def saturating_add_i64_exact)

definition counted :: "(parsed_usage \<Rightarrow> int) \<Rightarrow> normalized_event list \<Rightarrow> int" where
  "counted f es = sum_list (map (\<lambda>e. f (ne_token_usage e)) es)"

lemma counted_exchange:
  assumes keep: "cc_token_usage content" and "f default_usage = 0"
    and split: "f (ep_usage (nz_parts parsed detection provider)) =
      f (request_side (ep_usage (nz_parts parsed detection provider))) + f (response_side (ep_usage (nz_parts parsed detection provider)))"
    and empty: "\<And>u. usage_is_empty u \<Longrightarrow> f u = 0"
  shows "counted f (normalize_exchange libs device t1 t2 parsed content detection provider declaration xp)
    = f (ep_usage (nz_parts parsed detection provider))"
  using assms
  by (auto simp: normalize_exchange_def events_for_parsed_exchange_def counted_def usage_event_def request_event_side_def
      response_event_side_def retained_token_usage_def Let_def)

text \<open>At most one event per side, with that side of the usage.\<close>

lemma exchange_sides:
  assumes "cc_token_usage content"
  shows "distinct (map ne_side (normalize_exchange libs device t1 t2 parsed content detection provider declaration xp))
    \<and> list_all (\<lambda>e. ne_token_usage e =
        (case ne_side e of
           RequestSide \<Rightarrow> request_side (ep_usage (nz_parts parsed detection provider))
         | ResponseSide \<Rightarrow> response_side (ep_usage (nz_parts parsed detection provider))))
      (normalize_exchange libs device t1 t2 parsed content detection provider declaration xp)"
  using assms
  by (auto simp: normalize_exchange_def events_for_parsed_exchange_def usage_event_def request_event_side_def
      response_event_side_def retained_token_usage_def Let_def)

section \<open>Header names\<close>

lemma contains_word_iff: "contains_word w s \<longleftrightarrow> (\<exists>before after. s = before @ w @ after)"
proof (induction w s rule: contains_word.induct)
  case (2 w c s)
  have "(\<exists>before after. c # s = before @ w @ after) \<longleftrightarrow> prefix w (c # s) \<or> (\<exists>before after. s = before @ w @ after)"
    by (auto simp: Cons_eq_append_conv prefix_def)
  with 2 show ?case by simp
qed simp

lemma sensitive_header_iff:
  "is_sensitive_header name \<longleftrightarrow>
     name \<in> {''authorization'', ''proxy-authorization'', ''cookie'', ''set-cookie'', ''api-key'', ''x-api-key'',
       ''x-goog-api-key'', ''anthropic-api-key'', ''chatgpt-account-id''}
     \<or> (\<exists>before after. name = before @ ''token'' @ after)"
  unfolding is_sensitive_header_def contains_word_iff List.member_iff by (simp only: list.set)

section \<open>Properties\<close>

text \<open>
  C17. No credential leaves the machine in a header. Every event that reaches the sink lists the headers of its side of the
  exchange, all of them and in their order; a header that is named \<^verbatim>\<open>authorization\<close>, \<^verbatim>\<open>proxy-authorization\<close>, \<^verbatim>\<open>cookie\<close>,
  \<^verbatim>\<open>set-cookie\<close>, \<^verbatim>\<open>api-key\<close>, \<^verbatim>\<open>x-api-key\<close>, \<^verbatim>\<open>x-goog-api-key\<close>, \<^verbatim>\<open>anthropic-api-key\<close> or \<^verbatim>\<open>chatgpt-account-id\<close>, or has
  \<^verbatim>\<open>token\<close> in its name, has the fixed text \<^verbatim>\<open><redacted>\<close> for its value, whatever the exchange carried, and every other header
  has the value it came with. (Names of a \<^verbatim>\<open>HeaderMap\<close> are in lower case.)
\<close>

theorem credentials_not_published:
  "list_all (\<lambda>a. ae_headers a =
       map (\<lambda>(name, v).
           \<lparr>eh_name = name,
            eh_value =
              (if name \<in> {''authorization'', ''proxy-authorization'', ''cookie'', ''set-cookie'', ''api-key'', ''x-api-key'',
                    ''x-goog-api-key'', ''anthropic-api-key'', ''chatgpt-account-id''}
                  \<or> (\<exists>before after. name = before @ ''token'' @ after)
               then HeaderText ''<redacted>''
               else if utf8_valid (hv_bytes v) then HeaderText (hv_bytes v)
               else HeaderBase64 (nl_base64 libs (hv_bytes v)))\<rparr>)
         (case ae_side a of RequestSide \<Rightarrow> request | ResponseSide \<Rightarrow> response))
     (snd (deliver_normalized libs sink (normalize_exchange libs device t1 t2 parsed content detection provider declaration
       (passthrough_new libs target request response))))"
  unfolding list_all_iff
proof
  let ?xp = "passthrough_new libs target request response"
  fix a
  assume "a \<in> set (snd (deliver_normalized libs sink
    (normalize_exchange libs device t1 t2 parsed content detection provider declaration ?xp)))"
  from published_converted [OF this] obtain e where
    e: "e \<in> set (normalize_exchange libs device t1 t2 parsed content detection provider declaration ?xp)"
      "agent_event_try_from libs e = Ok a" by blast
  from e(1) obtain parts decl t side where "e = usage_event libs device parts side t"
    "side = request_event_side parts content decl ?xp \<or> side = response_event_side parts content decl ?xp" by (rule events_are_sides)
  then have "ne_headers e = passthrough_headers libs (case ne_side e of RequestSide \<Rightarrow> request | ResponseSide \<Rightarrow> response)"
    by (auto simp: usage_event_def request_event_side_def response_event_side_def passthrough_new_def)
  moreover have "ae_headers a = ne_headers e" "ae_side a = ne_side e"
    using e(2) by (auto simp: agent_event_try_from_def split: option.splits sum.splits)
  ultimately show "ae_headers a =
       map (\<lambda>(name, v).
           \<lparr>eh_name = name,
            eh_value =
              (if name \<in> {''authorization'', ''proxy-authorization'', ''cookie'', ''set-cookie'', ''api-key'', ''x-api-key'',
                    ''x-goog-api-key'', ''anthropic-api-key'', ''chatgpt-account-id''}
                  \<or> (\<exists>before after. name = before @ ''token'' @ after)
               then HeaderText ''<redacted>''
               else if utf8_valid (hv_bytes v) then HeaderText (hv_bytes v)
               else HeaderBase64 (nl_base64 libs (hv_bytes v)))\<rparr>)
         (case ae_side a of RequestSide \<Rightarrow> request | ResponseSide \<Rightarrow> response)"
    unfolding passthrough_headers_def sensitive_header_iff REDACTED_HEADER_VALUE_def by simp
qed

text \<open>
  C20. Token usage is counted once and on the right side. An exchange has at most one event per side; the request's event
  carries the input and cache counters and their sum, the response's event the output and reasoning counters and the output as
  its total, and no event any other; over the events of the exchange each counter and the totals add up to the usage the
  provider reported.
\<close>

theorem usage_counted_once:
  assumes "cc_token_usage content"
    and usage: "ep_usage (nz_parts parsed detection provider) = usage_from_parts i cr cw out r"
    and "0 \<le> i" "0 \<le> cr" "0 \<le> cw" "0 \<le> out" "i + cr + cw + out < 2 ^ 63"
  shows "let events = normalize_exchange libs device t1 t2 parsed content detection provider declaration xp in
    counted pu_input_tokens events = i \<and> counted pu_cache_read_tokens events = cr \<and> counted pu_cache_write_tokens events = cw
    \<and> counted pu_output_tokens events = out \<and> counted pu_reasoning_tokens events = r
    \<and> counted pu_total_tokens events = i + cr + cw + out
    \<and> distinct (map ne_side events)
    \<and> list_all (\<lambda>e. ne_token_usage e =
         (case ne_side e of
            RequestSide \<Rightarrow>
              \<lparr>pu_input_tokens = i, pu_output_tokens = 0, pu_cache_read_tokens = cr, pu_cache_write_tokens = cw,
               pu_reasoning_tokens = 0, pu_total_tokens = i + cr + cw\<rparr>
          | ResponseSide \<Rightarrow>
              \<lparr>pu_input_tokens = 0, pu_output_tokens = out, pu_cache_read_tokens = 0, pu_cache_write_tokens = 0,
               pu_reasoning_tokens = r, pu_total_tokens = out\<rparr>)) events"
proof -
  note simps = usage request_side_def response_side_def default_usage_def usage_is_empty_def
  have fields: "pu_input_tokens (usage_from_parts a b c d e) = a" "pu_cache_read_tokens (usage_from_parts a b c d e) = b"
    "pu_cache_write_tokens (usage_from_parts a b c d e) = c" "pu_output_tokens (usage_from_parts a b c d e) = d"
    "pu_reasoning_tokens (usage_from_parts a b c d e) = e" for a b c d e by (simp_all add: usage_from_parts_def)
  have totals: "pu_total_tokens (usage_from_parts i cr cw out r) = i + cr + cw + out"
    "pu_total_tokens (usage_from_parts i cr cw 0 0) = i + cr + cw" "pu_total_tokens (usage_from_parts 0 0 0 out r) = out"
    using assms usage_from_parts_total [of i cr cw out r] usage_from_parts_total [of i cr cw 0 0]
      usage_from_parts_total [of 0 0 0 out r] by simp_all
  have "request_side (usage_from_parts i cr cw out r) = \<lparr>pu_input_tokens = i, pu_output_tokens = 0, pu_cache_read_tokens = cr,
      pu_cache_write_tokens = cw, pu_reasoning_tokens = 0, pu_total_tokens = i + cr + cw\<rparr>"
    "response_side (usage_from_parts i cr cw out r) = \<lparr>pu_input_tokens = 0, pu_output_tokens = out, pu_cache_read_tokens = 0,
      pu_cache_write_tokens = 0, pu_reasoning_tokens = r, pu_total_tokens = out\<rparr>"
    by (simp_all add: request_side_def response_side_def fields totals parsed_usage.equality)
  note sides = exchange_sides [OF assms(1), where parsed = parsed and detection = detection and provider = provider,
      unfolded usage this]
  show ?thesis
    using counted_exchange [of content pu_input_tokens parsed detection provider libs device t1 t2 "declaration" xp]
      counted_exchange [of content pu_cache_read_tokens parsed detection provider libs device t1 t2 "declaration" xp]
      counted_exchange [of content pu_cache_write_tokens parsed detection provider libs device t1 t2 "declaration" xp]
      counted_exchange [of content pu_output_tokens parsed detection provider libs device t1 t2 "declaration" xp]
      counted_exchange [of content pu_reasoning_tokens parsed detection provider libs device t1 t2 "declaration" xp]
      counted_exchange [of content pu_total_tokens parsed detection provider libs device t1 t2 "declaration" xp] assms(1) sides
    by (simp add: simps fields totals Let_def)
qed

definition demo_normalizer_libs :: normalizer_libs where
  "demo_normalizer_libs =
     \<lparr>nl_sha256_hex = id, nl_base64 = id, nl_entries_text = (\<lambda>es. concat (map ce_text es)), nl_rfc3339_micros = (\<lambda>t. ''t''),
      nl_parse_rfc3339 = (\<lambda>s. Some 0), nl_os = ''macos'', nl_uri_path = uri_text, nl_last_time = 10\<rparr>"

definition demo_parsed :: normalizable where
  "demo_parsed =
     \<lparr>nz_purpose = None, nz_continuation = \<lparr>cn_response_id = None, cn_previous_response_id = None\<rparr>,
      nz_parts = (\<lambda>d p. \<lparr>ep_harness_name = hd_harness_id d, ep_harness_version = None, ep_llm_provider = provider_wire_name p,
        ep_llm_model = None, ep_session_id = ''s'', ep_response_identity = ''r'',
        ep_request_conversation = empty_conversation\<lparr>cv_entries := [text_entry RoleUser ''hi'']\<rparr>,
        ep_response_conversation = empty_conversation, ep_request_images = [], ep_usage = usage_from_parts 3 1 0 5 2,
        ep_allow_request_without_response = False\<rparr>)\<rparr>"

theorem usage_counted_once_witness:
  "let events = normalize_exchange demo_normalizer_libs \<lparr>di_hostname = None, di_platform = None, di_os_version = None\<rparr> 0 0 demo_parsed
       default_content_config \<lparr>hd_harness_id = ''codex'', hd_version = None\<rparr> OpenAi default_declaration
       \<lparr>xp_path = [], xp_request = [], xp_response = []\<rparr> in
   length events = 2 \<and> counted pu_total_tokens events = 9 \<and> counted pu_input_tokens events = 3"
proof -
  let ?e = "normalize_exchange demo_normalizer_libs \<lparr>di_hostname = None, di_platform = None, di_os_version = None\<rparr> 0 0 demo_parsed
    default_content_config \<lparr>hd_harness_id = ''codex'', hd_version = None\<rparr> OpenAi default_declaration
    \<lparr>xp_path = [], xp_request = [], xp_response = []\<rparr>"
  have keep: "cc_token_usage default_content_config" by (simp add: default_content_config_def)
  have usage: "ep_usage (nz_parts demo_parsed \<lparr>hd_harness_id = ''codex'', hd_version = None\<rparr> OpenAi) = usage_from_parts 3 1 0 5 2"
    by (simp add: demo_parsed_def)
  have "length ?e = 2" by (simp add: normalize_exchange_def events_for_parsed_exchange_def demo_parsed_def usage_is_empty_def
        response_side_def usage_from_parts_def Let_def)
  with usage_counted_once [OF keep usage, of demo_normalizer_libs "\<lparr>di_hostname = None, di_platform = None, di_os_version = None\<rparr>" "0" "0"
      default_declaration "\<lparr>xp_path = [], xp_request = [], xp_response = []\<rparr>"]
  show ?thesis by (simp add: Let_def)
qed

end
