(* ===== verification/Json_Value.thy ===== *)
theory Json_Value
  imports Normalizer Hook Decrypt_Policy Rust_Path
begin

text \<open>
  What the protocol parsers of the agent hook share (\<^verbatim>\<open>crates/abyss-agent-hook/src/protocol/shared\<close>): JSON values
  (\<^verbatim>\<open>serde_json::Value\<close> keeping the order of members), visible text, server-sent events, request hosts and headers, and the
  collector of images. Reading and writing JSON text, base64 decoding, the host of a URI and the MIME parser are parameters.
\<close>

section \<open>JSON values\<close>

text \<open>Integers outside both \<^verbatim>\<open>i64\<close> and \<^verbatim>\<open>u64\<close> are read as floating point numbers, of which only the text is kept.\<close>

datatype json_number = JsonInt int | JsonFloat bytes

datatype json =
    JsonNull
  | JsonBool bool
  | JsonNumber json_number
  | JsonString bytes
  | JsonArray "json list"
  | JsonObject "(bytes \<times> json) list"

fun json_get :: "json \<Rightarrow> bytes \<Rightarrow> json option" where
  "json_get (JsonObject members) key = map_of members key"
| "json_get _ key = None"

fun json_as_str :: "json \<Rightarrow> bytes option" where
  "json_as_str (JsonString s) = Some s"
| "json_as_str _ = None"

fun json_as_bool :: "json \<Rightarrow> bool option" where
  "json_as_bool (JsonBool b) = Some b"
| "json_as_bool _ = None"

fun json_as_array :: "json \<Rightarrow> json list option" where
  "json_as_array (JsonArray vs) = Some vs"
| "json_as_array _ = None"

fun json_is_object :: "json \<Rightarrow> bool" where
  "json_is_object (JsonObject members) = True"
| "json_is_object _ = False"

fun json_as_i64 :: "json \<Rightarrow> int option" where
  "json_as_i64 (JsonNumber (JsonInt n)) = (if - (2 ^ 63) \<le> n \<and> n < 2 ^ 63 then Some n else None)"
| "json_as_i64 _ = None"

fun json_as_u64 :: "json \<Rightarrow> nat option" where
  "json_as_u64 (JsonNumber (JsonInt n)) = (if 0 \<le> n \<and> n < 2 ^ 64 then Some (nat n) else None)"
| "json_as_u64 _ = None"

definition json_str :: "json \<Rightarrow> bytes \<Rightarrow> bytes option" where
  "json_str value key = Option.bind (json_get value key) json_as_str"

definition json_array :: "json \<Rightarrow> bytes \<Rightarrow> json list option" where
  "json_array value key = Option.bind (json_get value key) json_as_array"

definition json_items :: "json \<Rightarrow> bytes \<Rightarrow> json list" where
  "json_items value key = (case json_array value key of None \<Rightarrow> [] | Some vs \<Rightarrow> vs)"

definition json_u64_or_0 :: "json \<Rightarrow> bytes \<Rightarrow> nat" where
  "json_u64_or_0 value key = (case Option.bind (json_get value key) json_as_u64 of None \<Rightarrow> 0 | Some n \<Rightarrow> n)"

section \<open>Libraries\<close>

record protocol_libs =
  pl_normalizer :: normalizer_libs
  pl_from_slice :: "bytes \<Rightarrow> json option"
  pl_to_string :: "json \<Rightarrow> bytes"
  pl_base64_decode :: "bytes \<Rightarrow> bytes option"
  pl_uri_host :: "uri \<Rightarrow> bytes option"
  pl_mime :: "bytes \<Rightarrow> (bytes \<times> bytes option) option"
  pl_show_flow_id :: "nat \<Rightarrow> bytes"

text \<open>
  \<open>pl_mime\<close> answers the essence of a media type and its \<^verbatim>\<open>boundary\<close> parameter. \<open>pl_to_string\<close> is the compact text of a value:
  writing a \<^typ>\<open>json\<close> cannot fail.
\<close>

definition sha256_hex :: "protocol_libs \<Rightarrow> bytes \<Rightarrow> bytes" where
  "sha256_hex libs value = nl_sha256_hex (pl_normalizer libs) value"

definition uri_path :: "protocol_libs \<Rightarrow> uri \<Rightarrow> bytes" where
  "uri_path libs u = nl_uri_path (pl_normalizer libs) u"

section \<open>Strings, options and ordered maps\<close>

fun find_map :: "('a \<Rightarrow> 'b option) \<Rightarrow> 'a list \<Rightarrow> 'b option" where
  "find_map f [] = None"
| "find_map f (x # xs) = (case f x of Some y \<Rightarrow> Some y | None \<Rightarrow> find_map f xs)"

text \<open>A chain of \<^verbatim>\<open>or_else\<close>.\<close>

definition first_some :: "'a option list \<Rightarrow> 'a option" where
  "first_some os = find_map id os"

definition or_empty :: "bytes option \<Rightarrow> bytes" where
  "or_empty s = (case s of None \<Rightarrow> [] | Some t \<Rightarrow> t)"

text \<open>\<^verbatim>\<open>split\<close> at any of several characters, \<^verbatim>\<open>split_once\<close>, \<^verbatim>\<open>split_whitespace().next()\<close>, \<^verbatim>\<open>ends_with\<close>, \<^verbatim>\<open>trim_matches\<close>.\<close>

fun str_split_any :: "(byte \<Rightarrow> bool) \<Rightarrow> bytes \<Rightarrow> bytes list" where
  "str_split_any d [] = [[]]"
| "str_split_any d (c # cs) =
     (if d c then [] # str_split_any d cs
      else case str_split_any d cs of [] \<Rightarrow> [[c]] | p # ps \<Rightarrow> (c # p) # ps)"

definition split_once :: "byte \<Rightarrow> bytes \<Rightarrow> (bytes \<times> bytes) option" where
  "split_once d s =
     (if List.member s d then Some (takeWhile (\<lambda>c. c \<noteq> d) s, tl (dropWhile (\<lambda>c. c \<noteq> d) s)) else None)"

fun until_white_space :: "bytes \<Rightarrow> bytes" where
  "until_white_space [] = []"
| "until_white_space (c # cs) =
     (if list_ex (\<lambda>w. prefix w (c # cs)) white_space then [] else c # until_white_space cs)"

definition first_word :: "bytes \<Rightarrow> bytes option" where
  "first_word s = (let w = until_white_space (str_trim_start s) in if w = [] then None else Some w)"

definition ends_with :: "bytes \<Rightarrow> bytes \<Rightarrow> bool" where
  "ends_with s t \<longleftrightarrow> prefix (rev t) (rev s)"

definition trim_matches :: "byte \<Rightarrow> bytes \<Rightarrow> bytes" where
  "trim_matches c s = trim_end_matches c (dropWhile (\<lambda>x. x = c) s)"

text \<open>\<^verbatim>\<open>BTreeMap\<close> as the list of its entries in the order of the keys: \<^verbatim>\<open>insert\<close>, and \<^verbatim>\<open>entry(k).or_insert(d)\<close> followed by a change.\<close>

fun btree_insert :: "'k :: linorder \<Rightarrow> 'v \<Rightarrow> ('k \<times> 'v) list \<Rightarrow> ('k \<times> 'v) list" where
  "btree_insert k v [] = [(k, v)]"
| "btree_insert k v ((l, w) # m) =
     (if k < l then (k, v) # (l, w) # m else if k = l then (k, v) # m else (l, w) # btree_insert k v m)"

definition btree_entry :: "'k :: linorder \<Rightarrow> 'v \<Rightarrow> ('v \<Rightarrow> 'v) \<Rightarrow> ('k \<times> 'v) list \<Rightarrow> ('k \<times> 'v) list" where
  "btree_entry k d f m = btree_insert k (f (case map_of m k of None \<Rightarrow> d | Some v \<Rightarrow> v)) m"

lemma btree_insert_last: "\<forall>(l, w) \<in> set m. l < k \<Longrightarrow> btree_insert k v m = m @ [(k, v)]"
  by (induction m) auto

section \<open>Text\<close>

definition MAX_PARSE_DEPTH :: nat where
  "MAX_PARSE_DEPTH = 12"

definition non_empty_trimmed :: "bytes \<Rightarrow> bytes option" where
  "non_empty_trimmed value = (let trimmed = str_trim value in if trimmed = [] then None else Some trimmed)"

fun visible_text :: "nat \<Rightarrow> (bytes \<Rightarrow> bool) \<Rightarrow> json \<Rightarrow> bytes option" where
  "visible_text 0 is_tool value = None"
| "visible_text (Suc depth) is_tool value =
     (case value of
        JsonString text \<Rightarrow> non_empty_trimmed text
      | JsonArray items \<Rightarrow> non_empty_trimmed (str_join CHR 0x0A (List.map_filter (visible_text depth is_tool) items))
      | JsonObject members \<Rightarrow>
          if (case json_str value ''type'' of None \<Rightarrow> False | Some kind \<Rightarrow> is_tool kind) then None
          else Option.bind
            (first_some [json_get value ''text'', json_get value ''content'', json_get value ''input'', json_get value ''output_text''])
            (visible_text depth is_tool)
      | _ \<Rightarrow> None)"

definition json_to_text :: "nat \<Rightarrow> json \<Rightarrow> bytes option" where
  "json_to_text depth value = visible_text depth (\<lambda>_. False) value"

definition verbatim :: "protocol_libs \<Rightarrow> json \<Rightarrow> bytes" where
  "verbatim libs value =
     (case value of JsonString text \<Rightarrow> text | JsonNull \<Rightarrow> [] | v \<Rightarrow> pl_to_string libs v)"

definition conversation_field :: "json \<Rightarrow> bytes \<Rightarrow> bytes option" where
  "conversation_field value key = json_str value key"

section \<open>Fields\<close>

fun collect_string_field :: "bytes \<Rightarrow> json \<Rightarrow> bytes option"
  and collect_in_members :: "bytes \<Rightarrow> (bytes \<times> json) list \<Rightarrow> bytes option"
  and collect_in_items :: "bytes \<Rightarrow> json list \<Rightarrow> bytes option" where
  "collect_string_field key (JsonObject members) =
     (case json_str (JsonObject members) key of Some s \<Rightarrow> Some s | None \<Rightarrow> collect_in_members key members)"
| "collect_string_field key (JsonArray items) = collect_in_items key items"
| "collect_string_field key _ = None"
| "collect_in_members key [] = None"
| "collect_in_members key ((k, child) # rest) =
     (case collect_string_field key child of Some s \<Rightarrow> Some s | None \<Rightarrow> collect_in_members key rest)"
| "collect_in_items key [] = None"
| "collect_in_items key (child # rest) =
     (case collect_string_field key child of Some s \<Rightarrow> Some s | None \<Rightarrow> collect_in_items key rest)"

fun collect_event_types :: "nat \<Rightarrow> json \<Rightarrow> bytes list" where
  "collect_event_types 0 value = []"
| "collect_event_types (Suc depth) value =
     (case value of
        JsonObject members \<Rightarrow>
          (case json_str value ''type'' of None \<Rightarrow> [] | Some kind \<Rightarrow> [kind])
          @ concat (map (\<lambda>(k, child). collect_event_types depth child) members)
      | JsonArray items \<Rightarrow> concat (map (collect_event_types depth) items)
      | _ \<Rightarrow> [])"

definition event_types :: "json \<Rightarrow> bytes list" where
  "event_types value = collect_event_types MAX_PARSE_DEPTH value"

definition string_field :: "json \<Rightarrow> bytes \<Rightarrow> bytes option" where
  "string_field value key = Option.bind (json_str value key) non_empty_trimmed"

definition first_model :: "json list \<Rightarrow> bytes option" where
  "first_model values = find_map (collect_string_field ''model'') values"

text \<open>Counters of a usage object: \<^verbatim>\<open>int_field\<close> and \<^verbatim>\<open>nested_int_field\<close>.\<close>

definition int_field :: "json \<Rightarrow> bytes \<Rightarrow> int option" where
  "int_field object key =
     (case Option.bind (json_get object key) json_as_i64 of
        None \<Rightarrow> None
      | Some n \<Rightarrow> if 0 \<le> n then Some n else None)"

definition nested_int_field :: "json \<Rightarrow> bytes \<Rightarrow> bytes \<Rightarrow> int option" where
  "nested_int_field object parent child =
     (case json_get object parent of
        None \<Rightarrow> None
      | Some nested \<Rightarrow> if json_is_object nested then int_field nested child else None)"

section \<open>Requests\<close>

definition protocol_header :: "headers \<Rightarrow> bytes \<Rightarrow> bytes option" where
  "protocol_header hs name = Option.bind (Option.bind (header_get hs name) hv_str) non_empty_trimmed"

definition normalize_request_host :: "bytes \<Rightarrow> bytes" where
  "normalize_request_host host = to_ascii_lowercase (trim_end_matches CHR ''.'' (str_trim (hd (str_split CHR '':'' host))))"

definition request_host :: "protocol_libs \<Rightarrow> headers \<Rightarrow> uri \<Rightarrow> bytes option" where
  "request_host libs hs u = map_option normalize_request_host (first_some [pl_uri_host libs u, protocol_header hs ''host''])"

definition flow_server_name :: "flow_context \<Rightarrow> bytes option" where
  "flow_server_name flow =
     (case protocol flow of TlsHttp server_name \<Rightarrow> Some (normalize_request_host server_name) | _ \<Rightarrow> None)"

definition opencode_session_id :: "headers \<Rightarrow> bytes option" where
  "opencode_session_id hs =
     first_some [protocol_header hs ''x-opencode-session-id'', protocol_header hs ''x-opencode-session'',
       (case Option.bind (protocol_header hs ''user-agent'') (strip_prefix ''opencode/'') of
          None \<Rightarrow> None
        | Some _ \<Rightarrow> protocol_header hs ''x-session-id'')]"

text \<open>The session Cursor's command line names.\<close>

definition cursor_agent_id :: "headers \<Rightarrow> bytes option" where
  "cursor_agent_id hs =
     (case Option.bind (protocol_header hs ''user-agent'') (strip_prefix ''Cursor-CLI/'') of
        None \<Rightarrow> None
      | Some _ \<Rightarrow> protocol_header hs ''x-agent-id'')"

text \<open>The digest of a request: method, host, path and the lossy text of the body, separated by NUL.\<close>

definition exchange_hash :: "protocol_libs \<Rightarrow> bytes \<Rightarrow> json http_exchange \<Rightarrow> bytes" where
  "exchange_hash libs host ex =
     sha256_hex libs (req_method (ex_request ex) @ [CHR 0x00] @ host @ [CHR 0x00] @ uri_path libs (req_uri (ex_request ex))
       @ [CHR 0x00] @ from_utf8_lossy (cb_bytes (ex_request_body ex)))"

section \<open>Server-sent events\<close>

record sse_documents =
  sse_values :: "json list"
  sse_incomplete :: bool

definition finish_event :: "protocol_libs \<Rightarrow> bytes list \<Rightarrow> sse_documents \<Rightarrow> sse_documents" where
  "finish_event libs data docs =
     (if data = [] then docs
      else
        (let payload = str_join CHR 0x0A data in
         if trim_ascii_whitespace payload = ''[DONE]'' then docs
         else
           (case pl_from_slice libs payload of
              Some value \<Rightarrow> docs\<lparr>sse_values := sse_values docs @ [value]\<rparr>
            | None \<Rightarrow> docs\<lparr>sse_incomplete := True\<rparr>)))"

fun sse_lines :: "protocol_libs \<Rightarrow> bytes list \<Rightarrow> bytes list \<Rightarrow> sse_documents \<Rightarrow> sse_documents" where
  "sse_lines libs [] data docs = docs"
| "sse_lines libs (line # rest) data docs =
     (let line = (case strip_suffix [CHR 0x0D] line of None \<Rightarrow> line | Some l \<Rightarrow> l) in
      if line = [] then sse_lines libs rest [] (finish_event libs data docs)
      else
        (case strip_prefix ''data:'' line of
           None \<Rightarrow> sse_lines libs rest data docs
         | Some value \<Rightarrow> sse_lines libs rest (data @ [case strip_prefix '' '' value of None \<Rightarrow> value | Some v \<Rightarrow> v]) docs))"

definition sse_decode :: "protocol_libs \<Rightarrow> bytes \<Rightarrow> sse_documents" where
  "sse_decode libs bs = sse_lines libs (str_split CHR 0x0A bs @ [[]]) [] \<lparr>sse_values = [], sse_incomplete = False\<rparr>"

definition response_documents :: "protocol_libs \<Rightarrow> json captured_body \<Rightarrow> sse_documents" where
  "response_documents libs body =
     (case cb_json body of
        Some value \<Rightarrow> \<lparr>sse_values = [value], sse_incomplete = cb_truncated body\<rparr>
      | None \<Rightarrow>
          (let decoded = sse_decode libs (cb_bytes body) in
           \<lparr>sse_values = sse_values decoded,
            sse_incomplete = (cb_truncated body \<or> (sse_values decoded \<noteq> [] \<and> sse_incomplete decoded))\<rparr>))"

section \<open>Images\<close>

definition MAX_BASE64_IMAGE_CHARACTERS :: nat where
  "MAX_BASE64_IMAGE_CHARACTERS = 11184812"

record image_collector =
  ic_attachments :: "parsed_image list"
  ic_decoded_bytes :: nat

definition empty_collector :: image_collector where
  "empty_collector = \<lparr>ic_attachments = [], ic_decoded_bytes = 0\<rparr>"

definition collector_is_full :: "image_collector \<Rightarrow> bool" where
  "collector_is_full c \<longleftrightarrow>
     MAX_IMAGE_ATTACHMENTS_PER_EVENT \<le> length (ic_attachments c)
     \<or> MAX_IMAGE_ATTACHMENT_BYTES_PER_EVENT \<le> ic_decoded_bytes c"

definition push_base64 :: "protocol_libs \<Rightarrow> bytes \<Rightarrow> bytes \<Rightarrow> image_collector \<Rightarrow> image_collector" where
  "push_base64 libs media_type encoded c =
     (if collector_is_full c then c
      else
        (case media_type_parse media_type of
           None \<Rightarrow> c
         | Some m \<Rightarrow>
             if MAX_BASE64_IMAGE_CHARACTERS < length encoded then c
             else
               (case pl_base64_decode libs encoded of
                  None \<Rightarrow> c
                | Some bs \<Rightarrow>
                    if bs = [] \<or> MAX_IMAGE_ATTACHMENT_BYTES_PER_EVENT - ic_decoded_bytes c < length bs
                       \<or> \<not> matches_signature m bs
                    then c
                    else c\<lparr>ic_decoded_bytes := ic_decoded_bytes c + length bs,
                           ic_attachments := ic_attachments c
                             @ [\<lparr>pi_media_type = m, pi_bytes = bs, pi_sha256 = sha256_hex libs bs\<rparr>]\<rparr>)))"

definition push_data_url :: "protocol_libs \<Rightarrow> bytes \<Rightarrow> image_collector \<Rightarrow> image_collector" where
  "push_data_url libs data_url c =
     (case Option.bind (strip_prefix ''data:'' data_url) (split_once CHR '','') of
        None \<Rightarrow> c
      | Some (metadata, encoded) \<Rightarrow>
          (let parts = str_split CHR '';'' metadata in
           if list_ex (\<lambda>part. eq_ignore_ascii_case part ''base64'') (tl parts) then push_base64 libs (hd parts) encoded c else c))"

section \<open>Libraries of examples\<close>

text \<open>In the examples every text is the JSON string of itself.\<close>

definition demo_protocol_libs :: protocol_libs where
  "demo_protocol_libs =
     \<lparr>pl_normalizer = demo_normalizer_libs, pl_from_slice = (\<lambda>s. Some (JsonString s)),
      pl_to_string = (\<lambda>v. case v of JsonString s \<Rightarrow> s | _ \<Rightarrow> ''{}''),
      pl_base64_decode = Some, pl_uri_host = (\<lambda>u. None), pl_mime = (\<lambda>s. None), pl_show_flow_id = (\<lambda>n. ''0'')\<rparr>"

end
