(* ===== verification/Harness.thy ===== *)
theory Harness
  imports Json_Value Process_Context
begin

text \<open>
  Which agent produced an exchange (\<^verbatim>\<open>crates/abyss-agent-hook/src/harness\<close>): harness ids, the usage configuration with its checks
  (\<^verbatim>\<open>config/harness.rs\<close>), the built-in detectors, custom matchers, the registry's decision, and what a harness declares about a
  request.
\<close>

section \<open>Harness ids and configuration\<close>

definition harness_reserved :: "bytes \<Rightarrow> bool" where
  "harness_reserved harness_id \<longleftrightarrow>
     List.member [''codex'', ''claude-code'', ''claude-desktop'', ''deepseek-harness'', ''hermes'', ''cursor'', ''workbuddy'', ''opencode'']
       harness_id"

definition harness_id_deserialize :: "bytes \<Rightarrow> (string, bytes) result" where
  "harness_id_deserialize value =
     (let value = (if value = ''claude-cli'' then ''claude-code'' else value) in
      if value = [] \<or> 64 < length value
         \<or> \<not> list_all (\<lambda>b. is_ascii_lower b \<or> is_ascii_digit b \<or> List.member ''._-'' b) value
      then Err ''invalid Harness id'' else Ok value)"

record harness_matcher =
  hm_process_names :: "bytes list"
  hm_application_ids :: "bytes list"

record harness_config =
  hc_enabled :: "bool option"
  hc_content :: "content_config option"
  hc_matchers :: "harness_matcher list"

text \<open>\<^verbatim>\<open>BTreeMap<HarnessId, HarnessConfig>\<close> as the list of its entries in the order of their keys.\<close>

record usage_config =
  uc_content :: content_config
  uc_harnesses :: "(bytes \<times> harness_config) list"

definition enabled_for_harness :: "usage_config \<Rightarrow> bytes \<Rightarrow> bool" where
  "enabled_for_harness config harness_id =
     (case map_of (uc_harnesses config) harness_id of
        Some h \<Rightarrow> (case hc_enabled h of Some b \<Rightarrow> b | None \<Rightarrow> True)
      | None \<Rightarrow> True)"

definition content_for_harness :: "usage_config \<Rightarrow> bytes \<Rightarrow> content_config" where
  "content_for_harness config harness_id =
     (case Option.bind (map_of (uc_harnesses config) harness_id) hc_content of Some c \<Rightarrow> c | None \<Rightarrow> uc_content config)"

fun check_matchers :: "harness_matcher list \<Rightarrow> (string, unit) result" where
  "check_matchers [] = Ok ()"
| "check_matchers (m # ms) =
     (if hm_process_names m = [] \<and> hm_application_ids m = [] then Err ''custom Harness contains an empty matcher''
      else if list_ex (\<lambda>v. str_trim v = []) (hm_process_names m @ hm_application_ids m)
      then Err ''custom Harness contains an empty matcher value''
      else check_matchers ms)"

fun check_harnesses :: "(bytes \<times> harness_config) list \<Rightarrow> (string, unit) result" where
  "check_harnesses [] = Ok ()"
| "check_harnesses ((harness_id, h) # rest) =
     (if harness_reserved harness_id
      then (if hc_matchers h \<noteq> [] then Err ''built-in Harness cannot define custom matchers'' else check_harnesses rest)
      else if hc_matchers h = [] then Err ''custom Harness requires at least one matcher''
      else (case check_matchers (hc_matchers h) of Err e \<Rightarrow> Err e | Ok _ \<Rightarrow> check_harnesses rest))"

definition usage_config_deserialize :: "usage_config \<Rightarrow> (string, usage_config) result" where
  "usage_config_deserialize wire = map_sum id (\<lambda>_. wire) (check_harnesses (uc_harnesses wire))"

text \<open>\<^verbatim>\<open>HooksConfig\<close>: the one compiled-in hook, in its envelope.\<close>

record hooks_config =
  hk_enabled :: bool
  hk_usage :: usage_config

section \<open>Detectors\<close>

text \<open>A header's text without the space around it, unless that leaves nothing.\<close>

definition harness_header :: "headers \<Rightarrow> bytes \<Rightarrow> bytes option" where
  "harness_header hs name =
     (case Option.bind (header_get hs name) hv_str of
        None \<Rightarrow> None
      | Some v \<Rightarrow> (if str_trim v = [] then None else Some (str_trim v)))"

definition client_version :: "bytes \<Rightarrow> bytes list \<Rightarrow> bytes option" where
  "client_version user_agent names =
     find_map (\<lambda>token. find_map (\<lambda>p.
         case strip_prefix p (to_ascii_lowercase token) of
           None \<Rightarrow> None
         | Some version \<Rightarrow> if version = [] then None else Some version) names)
       (str_split_any (\<lambda>c. List.member '' ;)('' c) user_agent)"

definition header_or_empty :: "headers \<Rightarrow> bytes \<Rightarrow> bytes" where
  "header_or_empty hs name = (case harness_header hs name of Some v \<Rightarrow> v | None \<Rightarrow> [])"

definition flow_source_texts :: "source_process \<Rightarrow> bytes list" where
  "flow_source_texts p =
     (case sp_name p of Some n \<Rightarrow> [n] | None \<Rightarrow> []) @ (case sp_executable_path p of Some e \<Rightarrow> [e] | None \<Rightarrow> [])"

definition source_has :: "(source_process \<Rightarrow> bool) \<Rightarrow> flow_context \<Rightarrow> bool" where
  "source_has P flow = (case source_process flow of None \<Rightarrow> False | Some p \<Rightarrow> P p)"

definition is_codex_client :: "bytes \<Rightarrow> bool" where
  "is_codex_client name \<longleftrightarrow>
     (let name = to_ascii_lowercase name in
      List.member [''codex'', ''codex_cli_rs'', ''codex-tui'', ''codex_vscode'', ''codex_exec'', ''codex_atlas'',
        ''codex_chatgpt_desktop''] name \<or> prefix ''codex '' name)"

definition codex_normalize :: "bytes \<Rightarrow> bytes" where
  "codex_normalize value = to_ascii_lowercase (str_trim (last_path_name value))"

definition codex_detect :: "flow_context \<Rightarrow> headers \<Rightarrow> bytes \<Rightarrow> harness_detection option" where
  "codex_detect flow hs path =
     (let user_agent = header_or_empty hs ''user-agent'';
          originator = header_or_empty hs ''originator'';
          process = source_has (\<lambda>p. case sp_name p of None \<Rightarrow> False | Some n \<Rightarrow> codex_normalize n = ''codex'') flow;
          marked = (list_ex (\<lambda>(name, v). prefix ''x-codex-'' (to_ascii_lowercase name)) hs
            \<or> is_codex_client (hd (str_split CHR ''/'' user_agent)) \<or> is_codex_client originator)
      in if \<not> process \<and> \<not> marked then None
         else Some \<lparr>hd_harness_id = ''codex'', hd_version = client_version user_agent [''codex/tui/'', ''codex/desktop/'', ''codex/'']\<rparr>)"

definition is_desktop_process :: "bytes \<Rightarrow> bool" where
  "is_desktop_process value \<longleftrightarrow>
     (let v = to_ascii_lowercase (str_trim value) in v = ''claude helper'' \<or> contains_word ''/claude.app/'' v)"

definition claude_desktop_detect :: "flow_context \<Rightarrow> headers \<Rightarrow> bytes \<Rightarrow> harness_detection option" where
  "claude_desktop_detect flow hs path =
     (let source = source_has (\<lambda>p. sp_application_id p = Some ''com.anthropic.claudefordesktop.helper''
            \<or> list_ex is_desktop_process (flow_source_texts p)) flow;
          marked = (harness_header hs ''anthropic-client-platform'' = Some ''desktop_app''
            \<or> harness_header hs ''anthropic-client-app'' = Some ''com.anthropic.claudefordesktop'')
      in if \<not> source \<and> \<not> marked then None
         else Some \<lparr>hd_harness_id = ''claude-desktop'',
                hd_version = Option.bind (harness_header hs ''user-agent'') (\<lambda>ua. client_version ua [''claude/''])\<rparr>)"

definition is_claude_code_process :: "bytes \<Rightarrow> bool" where
  "is_claude_code_process value \<longleftrightarrow>
     (let v = to_ascii_lowercase (str_trim value) in
      v = ''claude'' \<or> v = ''claude.exe'' \<or> contains_word ''claude-code'' v \<or> contains_word ''claude_code'' v
      \<or> ends_with v ([CHR 0x5C] @ ''claude.exe'') \<or> ends_with v ''/claude'')"

definition claude_web_path :: "bytes \<Rightarrow> bool" where
  "claude_web_path path \<longleftrightarrow> contains_word ''/organizations/'' path \<and> ends_with path ''/completion''"

definition claude_code_detect :: "flow_context \<Rightarrow> headers \<Rightarrow> bytes \<Rightarrow> harness_detection option" where
  "claude_code_detect flow hs path =
     (if claude_web_path path then None
      else
        (let process = source_has (\<lambda>p. list_ex is_claude_code_process (flow_source_texts p)) flow;
             user_agent = header_or_empty hs ''user-agent'';
             originator = header_or_empty hs ''originator'';
             combined = to_ascii_lowercase (path @ '' '' @ user_agent @ '' '' @ originator);
             marked = list_ex (\<lambda>m. contains_word m combined)
               [''claude-code'', ''claude_code'', ''claude-cli'', ''claude/'', ''/api/claude_'']
         in if \<not> process \<and> \<not> marked then None
            else Some \<lparr>hd_harness_id = ''claude-code'',
                   hd_version = client_version user_agent [''claude-code/'', ''claude_code/'', ''claude-cli/'', ''claude_cli/'', ''claude/'']\<rparr>))"

definition deepseek_detect :: "flow_context \<Rightarrow> headers \<Rightarrow> bytes \<Rightarrow> harness_detection option" where
  "deepseek_detect flow hs path =
     (case harness_header hs ''user-agent'' of
        None \<Rightarrow> None
      | Some ua \<Rightarrow>
          if \<not> prefix ''deepseek-harness/'' ua then None
          else Some \<lparr>hd_harness_id = ''deepseek-harness'', hd_version = client_version ua [''deepseek-harness/'']\<rparr>)"

definition hermes_detect :: "flow_context \<Rightarrow> headers \<Rightarrow> bytes \<Rightarrow> harness_detection option" where
  "hermes_detect flow hs path =
     (let user_agent = header_or_empty hs ''user-agent'';
          normalized = to_ascii_lowercase user_agent;
          marked = (harness_header hs ''x-hermes-session-id'' \<noteq> None \<or> prefix ''hermesagent/'' normalized
            \<or> contains_word ''(hermes agent)'' normalized
            \<or> (case harness_header hs ''originator'' of None \<Rightarrow> False | Some v \<Rightarrow> eq_ignore_ascii_case v ''hermes-agent''));
          application = source_has (\<lambda>p. sp_application_id p = Some ''com.nousresearch.hermes.managed-python'') flow
      in if \<not> application \<and> \<not> marked then None
         else Some \<lparr>hd_harness_id = ''hermes'', hd_version = client_version user_agent [''hermesagent/'']\<rparr>)"

definition cursor_detect :: "flow_context \<Rightarrow> headers \<Rightarrow> bytes \<Rightarrow> harness_detection option" where
  "cursor_detect flow hs path =
     (case harness_header hs ''user-agent'' of
        None \<Rightarrow> None
      | Some ua \<Rightarrow>
          if \<not> prefix ''Cursor-CLI/'' ua then None
          else Some \<lparr>hd_harness_id = ''cursor'', hd_version = client_version ua [''cursor-cli/'']\<rparr>)"

definition workbuddy_process_names :: "bytes list" where
  "workbuddy_process_names =
     [''WorkBuddy'', ''WorkBuddy Helper'', ''WorkBuddy Helper (GPU)'', ''WorkBuddy Helper (Plugin)'', ''WorkBuddy Helper (Renderer)'',
      ''WorkBuddy AI Helper'', ''WorkBuddy AI Helper (GPU)'', ''WorkBuddy AI Helper (Plugin)'', ''WorkBuddy AI Helper (Renderer)'']"

definition workbuddy_windows_names :: "bytes list" where
  "workbuddy_windows_names = [''WorkBuddy.exe'', ''WorkBuddyAI.exe'']"

definition workbuddy_application_ids :: "bytes list" where
  "workbuddy_application_ids =
     [''com.tencent.workbuddy.mac'', ''com.tencent.workbuddy.mac.helper'', ''com.tencent.workbuddy.mac.helper.GPU'',
      ''com.tencent.workbuddy.mac.helper.Plugin'', ''com.tencent.workbuddy.mac.helper.Renderer'', ''com.workbuddy.workbuddy-ai'',
      ''com.workbuddy.workbuddy-ai.helper'', ''com.workbuddy.workbuddy-ai.helper.GPU'', ''com.workbuddy.workbuddy-ai.helper.Plugin'',
      ''com.workbuddy.workbuddy-ai.helper.Renderer'']"

definition workbuddy_detect :: "flow_context \<Rightarrow> headers \<Rightarrow> bytes \<Rightarrow> harness_detection option" where
  "workbuddy_detect flow hs path =
     (case source_process flow of
        None \<Rightarrow> None
      | Some source \<Rightarrow>
          (let application = (case sp_application_id source of None \<Rightarrow> False | Some i \<Rightarrow> List.member workbuddy_application_ids i);
               process = list_ex (\<lambda>value. let name = last_path_name value in
                 List.member workbuddy_process_names name \<or> list_ex (eq_ignore_ascii_case name) workbuddy_windows_names)
                 (flow_source_texts source)
           in if \<not> application \<and> \<not> process then None else Some \<lparr>hd_harness_id = ''workbuddy'', hd_version = None\<rparr>))"

definition opencode_version :: "bytes \<Rightarrow> bytes option" where
  "opencode_version user_agent =
     (case Option.bind (first_word user_agent) (strip_prefix ''opencode/'') of
        None \<Rightarrow> None
      | Some value \<Rightarrow>
          if value = [] then None
          else
            (case split_once CHR ''/'' value of
               None \<Rightarrow> Some value
             | Some (chan, tail) \<Rightarrow>
                 (case split_once CHR ''/'' tail of
                    None \<Rightarrow> None
                  | Some (version, client) \<Rightarrow>
                      if chan \<noteq> [] \<and> version \<noteq> [] \<and> client \<noteq> [] \<and> \<not> List.member client CHR ''/'' then Some version else None)))"

definition opencode_detect :: "flow_context \<Rightarrow> headers \<Rightarrow> bytes \<Rightarrow> harness_detection option" where
  "opencode_detect flow hs path =
     (case Option.bind (harness_header hs ''user-agent'') opencode_version of
        None \<Rightarrow> None
      | Some version \<Rightarrow> Some \<lparr>hd_harness_id = ''opencode'', hd_version = Some version\<rparr>)"

section \<open>The registry\<close>

definition matcher_matches :: "harness_matcher \<Rightarrow> flow_context \<Rightarrow> bool" where
  "matcher_matches m flow =
     (if hm_process_names m = [] \<and> hm_application_ids m = [] then False
      else
        (hm_process_names m = []
         \<or> (case Option.bind (source_process flow) sp_name of None \<Rightarrow> False | Some n \<Rightarrow> List.member (hm_process_names m) n))
        \<and> (hm_application_ids m = []
         \<or> (case Option.bind (source_process flow) sp_application_id of None \<Rightarrow> False | Some i \<Rightarrow> List.member (hm_application_ids m) i)))"

definition built_in_detectors :: "(flow_context \<Rightarrow> headers \<Rightarrow> bytes \<Rightarrow> harness_detection option) list" where
  "built_in_detectors =
     [codex_detect, claude_desktop_detect, claude_code_detect, deepseek_detect, hermes_detect, cursor_detect, workbuddy_detect,
      opencode_detect]"

definition built_in_detections :: "flow_context \<Rightarrow> headers \<Rightarrow> bytes \<Rightarrow> harness_detection list" where
  "built_in_detections flow hs path = List.map_filter (\<lambda>detector. detector flow hs path) built_in_detectors"

text \<open>Hermes drives the other command line agents.\<close>

definition prefer_hermes :: "harness_detection list \<Rightarrow> harness_detection list" where
  "prefer_hermes ds =
     (if list_ex (\<lambda>d. hd_harness_id d = ''hermes'') ds
      then filter (\<lambda>d. \<not> (hd_harness_id d = ''codex'' \<or> hd_harness_id d = ''claude-code'')) ds else ds)"

definition custom_detections :: "usage_config \<Rightarrow> flow_context \<Rightarrow> harness_detection list" where
  "custom_detections config flow =
     List.map_filter (\<lambda>(harness_id, h).
       if harness_reserved harness_id \<or> \<not> (case hc_enabled h of Some b \<Rightarrow> b | None \<Rightarrow> True) then None
       else if list_ex (\<lambda>m. matcher_matches m flow) (hc_matchers h)
       then Some \<lparr>hd_harness_id = harness_id, hd_version = None\<rparr> else None) (uc_harnesses config)"

definition registry_detect :: "flow_context \<Rightarrow> headers \<Rightarrow> bytes \<Rightarrow> usage_config \<Rightarrow> harness_detection option" where
  "registry_detect flow hs path config =
     (case filter (\<lambda>d. enabled_for_harness config (hd_harness_id d)) (prefer_hermes (built_in_detections flow hs path))
           @ custom_detections config flow of
        [d] \<Rightarrow> Some d
      | _ \<Rightarrow> None)"

section \<open>What a harness declares\<close>

record declaration_source =
  ds_headers :: "headers option"
  ds_connection_headers :: "headers option"
  ds_client_metadata :: "json option"

definition request_or_connection_headers :: "declaration_source \<Rightarrow> headers option" where
  "request_or_connection_headers source = first_some [ds_headers source, ds_connection_headers source]"

definition request_header :: "declaration_source \<Rightarrow> bytes \<Rightarrow> bytes option" where
  "request_header source name = Option.bind (ds_headers source) (\<lambda>hs. harness_header hs name)"

definition request_or_connection_header :: "declaration_source \<Rightarrow> bytes \<Rightarrow> bytes option" where
  "request_or_connection_header source name =
     Option.bind (request_or_connection_headers source) (\<lambda>hs. harness_header hs name)"

definition codex_string_field :: "json \<Rightarrow> bytes \<Rightarrow> bytes option" where
  "codex_string_field value key =
     (case json_str value key of None \<Rightarrow> None | Some s \<Rightarrow> if str_trim s = [] then None else Some (str_trim s))"

definition codex_metadata :: "protocol_libs \<Rightarrow> declaration_source \<Rightarrow> json option" where
  "codex_metadata libs source =
     (case Option.bind
         (first_some
           [Option.bind (ds_client_metadata source) (\<lambda>client. codex_string_field client ''x-codex-turn-metadata''),
            request_header source ''x-codex-turn-metadata''])
         (pl_from_slice libs) of
        None \<Rightarrow> None
      | Some value \<Rightarrow> if json_is_object value then Some value else None)"

definition codex_declare :: "protocol_libs \<Rightarrow> declaration_source \<Rightarrow> agent_declaration" where
  "codex_declare libs source =
     (let metadata = codex_metadata libs source;
          thread = request_or_connection_header source;
          parent = thread ''x-codex-parent-thread-id''
      in \<lparr>ad_purpose =
            (if Option.bind metadata (\<lambda>m. codex_string_field m ''request_kind'') = Some ''compaction''
             then Some Compaction else None),
          ad_subagent_id = Option.bind parent (\<lambda>_. thread ''thread-id''),
          ad_parent_subagent_id = (if thread ''session-id'' = parent then None else parent),
          ad_turn_id = Option.bind metadata (\<lambda>m. codex_string_field m ''root_turn_id'')\<rparr>)"

definition claude_code_declare :: "declaration_source \<Rightarrow> agent_declaration" where
  "claude_code_declare source =
     (let declared = request_or_connection_header source
      in \<lparr>ad_purpose = (if request_header source ''x-claude-code-request-class'' = Some ''compaction'' then Some Compaction else None),
          ad_subagent_id = declared ''x-claude-code-agent-id'',
          ad_parent_subagent_id = declared ''x-claude-code-parent-agent-id'',
          ad_turn_id = declared ''x-claude-code-prompt-id''\<rparr>)"

definition hermes_declare :: "declaration_source \<Rightarrow> agent_declaration" where
  "hermes_declare source = default_declaration\<lparr>ad_turn_id := request_header source ''x-hermes-turn-id''\<rparr>"

definition cursor_declare :: "declaration_source \<Rightarrow> agent_declaration" where
  "cursor_declare source = default_declaration\<lparr>ad_turn_id := request_header source ''x-request-id''\<rparr>"

definition workbuddy_declare :: "declaration_source \<Rightarrow> agent_declaration" where
  "workbuddy_declare source = default_declaration\<lparr>ad_turn_id := request_header source ''x-conversation-request-id''\<rparr>"

definition opencode_declare :: "declaration_source \<Rightarrow> agent_declaration" where
  "opencode_declare source = default_declaration\<lparr>ad_turn_id := request_header source ''x-opencode-request''\<rparr>"

definition registry_declare :: "protocol_libs \<Rightarrow> bytes \<Rightarrow> declaration_source \<Rightarrow> agent_declaration" where
  "registry_declare libs harness_id source =
     (if harness_id = ''codex'' then codex_declare libs source
      else if harness_id = ''claude-code'' then claude_code_declare source
      else if harness_id = ''hermes'' then hermes_declare source
      else if harness_id = ''cursor'' then cursor_declare source
      else if harness_id = ''workbuddy'' then workbuddy_declare source
      else if harness_id = ''opencode'' then opencode_declare source
      else default_declaration)"

section \<open>Attribution\<close>

lemma built_in_ids:
  "\<lbrakk>detector \<in> set built_in_detectors; detector flow hs path = Some d\<rbrakk> \<Longrightarrow> harness_reserved (hd_harness_id d)"
  by (auto simp: built_in_detectors_def codex_detect_def claude_desktop_detect_def claude_code_detect_def deepseek_detect_def
      hermes_detect_def cursor_detect_def workbuddy_detect_def opencode_detect_def harness_reserved_def Let_def
      split: if_splits option.splits)

lemma built_in_detections_reserved: "d \<in> set (built_in_detections flow hs path) \<Longrightarrow> harness_reserved (hd_harness_id d)"
  by (auto simp: built_in_detections_def map_filter_def built_in_ids)

lemma prefer_hermes_subset: "set (prefer_hermes ds) \<subseteq> set ds"
  by (auto simp: prefer_hermes_def)

text \<open>The candidates of the registry, after the switches of the configuration.\<close>

definition candidates :: "flow_context \<Rightarrow> headers \<Rightarrow> bytes \<Rightarrow> usage_config \<Rightarrow> harness_detection list" where
  "candidates flow hs path config =
     filter (\<lambda>d. enabled_for_harness config (hd_harness_id d)) (prefer_hermes (built_in_detections flow hs path))
     @ custom_detections config flow"

lemma registry_detect_Some:
  "registry_detect flow hs path config = Some d \<longleftrightarrow> candidates flow hs path config = [d]"
  by (auto simp: registry_detect_def candidates_def [symmetric] split: list.splits)

lemma custom_detections_enabled:
  assumes "distinct (map fst (uc_harnesses config))" "d \<in> set (custom_detections config flow)"
  shows "enabled_for_harness config (hd_harness_id d)"
proof -
  from assms(2) obtain i h where "(i, h) \<in> set (uc_harnesses config)" "hc_enabled h \<noteq> Some False" "hd_harness_id d = i"
    by (auto simp: custom_detections_def map_filter_def split: if_splits option.splits)
  moreover from this assms(1) have "map_of (uc_harnesses config) i = Some h" by simp
  ultimately show ?thesis by (auto simp: enabled_for_harness_def split: option.splits)
qed

lemma check_matchers_Ok:
  "check_matchers ms = Ok () \<longleftrightarrow>
     list_all (\<lambda>m. (hm_process_names m \<noteq> [] \<or> hm_application_ids m \<noteq> [])
       \<and> list_all (\<lambda>v. str_trim v \<noteq> []) (hm_process_names m @ hm_application_ids m)) ms"
  by (induction ms) (auto simp: list_all_iff list_ex_iff)

text \<open>A checked configuration: built-in harnesses keep their own detection, every custom harness has selective matchers.\<close>

lemma check_harnesses_Ok:
  "check_harnesses hs = Ok () \<longleftrightarrow>
     list_all (\<lambda>(i, h). if harness_reserved i then hc_matchers h = []
       else hc_matchers h \<noteq> [] \<and> check_matchers (hc_matchers h) = Ok ()) hs"
proof (induction hs)
  case (Cons p hs)
  obtain i h where "p = (i, h)" by (cases p)
  with Cons show ?case by (cases "check_matchers (hc_matchers h)") auto
qed simp

end
