(* ===== verification/Hooks_Config.thy ===== *)
theory Hooks_Config
  imports Harness "HOL-Library.Char_ord" "HOL-Library.List_Lexorder"
begin

text \<open>
  Reading the hooks' configuration (\<^verbatim>\<open>crates/abyss-agent-hook/src/config/mod.rs\<close>, \<^verbatim>\<open>config/harness.rs\<close>, \<^verbatim>\<open>harness/id.rs\<close>): the ids of
  the harnesses, the map they are the keys of, and the checks of the whole. Both the configuration file and the API read it
  this way. What was read once is accepted again and gives the same configuration.
\<close>

section \<open>Reading a configuration\<close>

definition default_usage_config :: usage_config where
  "default_usage_config = \<lparr>uc_content = default_content_config, uc_harnesses = []\<rparr>"

definition default_hooks_config :: hooks_config where
  "default_hooks_config = \<lparr>hk_enabled = True, hk_usage = default_usage_config\<rparr>"

text \<open>The entries as the text lists them, each key read as an id and inserted; \<open>claude-cli\<close> is another name of \<open>claude-code\<close>.\<close>

fun harness_map_deserialize ::
  "(bytes \<times> harness_config) list \<Rightarrow> (bytes \<times> harness_config) list \<Rightarrow> (string, (bytes \<times> harness_config) list) result" where
  "harness_map_deserialize m [] = Ok m"
| "harness_map_deserialize m ((key, h) # entries) =
     (case harness_id_deserialize key of
        Err e \<Rightarrow> Err e
      | Ok harness_id \<Rightarrow> harness_map_deserialize (btree_insert harness_id h m) entries)"

definition hooks_config_deserialize :: "hooks_config \<Rightarrow> (string, hooks_config) result" where
  "hooks_config_deserialize wire =
     (case harness_map_deserialize [] (uc_harnesses (hk_usage wire)) of
        Err e \<Rightarrow> Err e
      | Ok m \<Rightarrow>
          (case usage_config_deserialize ((hk_usage wire)\<lparr>uc_harnesses := m\<rparr>) of
             Err e \<Rightarrow> Err e
           | Ok usage \<Rightarrow> Ok (wire\<lparr>hk_usage := usage\<rparr>)))"

section \<open>Reading it again\<close>

lemma harness_id_again: "harness_id_deserialize key = Ok harness_id \<Longrightarrow> harness_id_deserialize harness_id = Ok harness_id"
  by (auto simp: harness_id_deserialize_def Let_def split: if_splits)

definition harness_map_ok :: "(bytes \<times> harness_config) list \<Rightarrow> bool" where
  "harness_map_ok m \<longleftrightarrow> sorted_wrt (<) (map fst m) \<and> list_all (\<lambda>(k, h). harness_id_deserialize k = Ok k) m"

lemma btree_insert_keys: "fst ` set (btree_insert k v m) = insert k (fst ` set m)"
  by (induction k v m rule: btree_insert.induct) auto

lemma btree_insert_ok:
  "\<lbrakk>harness_id_deserialize k = Ok k; harness_map_ok m\<rbrakk> \<Longrightarrow> harness_map_ok (btree_insert k h m)"
proof (induction k h m rule: btree_insert.induct)
  case (2 k v l w m)
  then have rest: "harness_map_ok m" and below: "\<forall>x \<in> fst ` set m. l < x" by (auto simp: harness_map_ok_def)
  consider "k < l" | "k = l" | "l < k" by fastforce
  then show ?case
  proof cases
    case 3
    with 2 rest have "harness_map_ok (btree_insert k v m)" by auto
    with 3 2(3) below show ?thesis using btree_insert_keys [of k v m] by (auto simp: harness_map_ok_def)
  qed (use 2 below in \<open>auto simp: harness_map_ok_def\<close>)
qed (simp add: harness_map_ok_def)

lemma harness_map_read:
  "\<lbrakk>harness_map_deserialize m entries = Ok m'; harness_map_ok m\<rbrakk> \<Longrightarrow> harness_map_ok m'"
proof (induction m entries rule: harness_map_deserialize.induct)
  case (2 m key h entries)
  then obtain i where i: "harness_id_deserialize key = Ok i" "harness_map_deserialize (btree_insert i h m) entries = Ok m'"
    by (auto split: sum.splits)
  with 2 btree_insert_ok [OF harness_id_again [OF i(1)]] show ?case by blast
qed simp

lemma harness_map_again:
  "\<lbrakk>harness_map_ok (m @ entries)\<rbrakk> \<Longrightarrow> harness_map_deserialize m entries = Ok (m @ entries)"
proof (induction m entries rule: harness_map_deserialize.induct)
  case (2 m key h entries)
  then have key: "harness_id_deserialize key = Ok key" and last: "\<forall>(l, w) \<in> set m. l < key"
    by (auto simp: harness_map_ok_def sorted_wrt_append)
  with 2(1) [OF key] 2(2) show ?case by (simp add: btree_insert_last)
qed simp

lemma hooks_deserialize_Ok:
  "hooks_config_deserialize wire = Ok config \<longleftrightarrow>
     (\<exists>m. harness_map_deserialize [] (uc_harnesses (hk_usage wire)) = Ok m \<and> check_harnesses m = Ok ()
       \<and> config = wire\<lparr>hk_usage := (hk_usage wire)\<lparr>uc_harnesses := m\<rparr>\<rparr>)"
proof (cases "harness_map_deserialize [] (uc_harnesses (hk_usage wire))")
  case (Inr m)
  then show ?thesis
    by (cases "check_harnesses m") (auto simp: hooks_config_deserialize_def usage_config_deserialize_def)
qed (simp add: hooks_config_deserialize_def)

theorem hooks_config_again:
  assumes "hooks_config_deserialize wire = Ok config"
  shows "hooks_config_deserialize config = Ok config"
proof -
  from assms obtain m where m: "harness_map_deserialize [] (uc_harnesses (hk_usage wire)) = Ok m"
    "check_harnesses m = Ok ()" "config = wire\<lparr>hk_usage := (hk_usage wire)\<lparr>uc_harnesses := m\<rparr>\<rparr>"
    by (auto simp: hooks_deserialize_Ok)
  have "harness_map_ok m" using harness_map_read [OF m(1)] by (simp add: harness_map_ok_def)
  with m harness_map_again [of "[]" m] show ?thesis by (simp add: hooks_deserialize_Ok)
qed

lemma hooks_config_checked:
  assumes "hooks_config_deserialize wire = Ok config"
  shows "check_harnesses (uc_harnesses (hk_usage config)) = Ok ()"
  using assms by (auto simp: hooks_deserialize_Ok)

lemma default_hooks_again: "hooks_config_deserialize default_hooks_config = Ok default_hooks_config"
  by (simp add: hooks_config_deserialize_def default_hooks_config_def default_usage_config_def usage_config_deserialize_def)

end
