(* ===== verification/Runtime_Config.thy ===== *)
theory Runtime_Config
  imports Engine File_System Hooks_Config
begin

text \<open>
  The runtime configuration of the broker (\<^verbatim>\<open>crates/abyss-broker/src/runtime_config.rs\<close>, \<^verbatim>\<open>network_config.rs\<close>): the
  policies that can be changed while the broker runs, their file, and the transactions that replace both. The TOML
  encoding of the file's data is a parameter; the hooks' configuration in it is read by the deserializer of \<open>Hooks_Config\<close>.
\<close>

section \<open>Network configuration\<close>

record network_config =
  nc_upstream :: "upstream_proxy_config option"

record network_snapshot =
  ns_config :: network_config
  ns_proxy :: "http_connect_proxy option"

record network_runtime =
  nr_current :: network_snapshot
  nr_persisted :: "network_config option"

definition network_validate :: "authority_parser \<Rightarrow> network_config \<Rightarrow> (string, network_snapshot) result" where
  "network_validate authority config =
     (case nc_upstream config of
        None \<Rightarrow> Ok \<lparr>ns_config = config, ns_proxy = None\<rparr>
      | Some upstream_config \<Rightarrow>
          (case http_connect_proxy_new authority upstream_config of
             Err e \<Rightarrow> Err e
           | Ok proxy \<Rightarrow> Ok \<lparr>ns_config = config, ns_proxy = Some proxy\<rparr>))"

definition network_runtime_new ::
  "authority_parser \<Rightarrow> upstream_proxy_config option \<Rightarrow> network_config option \<Rightarrow> (string, network_runtime) result" where
  "network_runtime_new authority startup_upstream persisted =
     (let config = (case persisted of Some c \<Rightarrow> c | None \<Rightarrow> \<lparr>nc_upstream = startup_upstream\<rparr>) in
      case network_validate authority config of
        Err e \<Rightarrow> Err e
      | Ok snap \<Rightarrow> Ok \<lparr>nr_current = snap, nr_persisted = persisted\<rparr>)"

definition network_publish :: "network_snapshot \<Rightarrow> network_runtime \<Rightarrow> network_runtime" where
  "network_publish snap n = n\<lparr>nr_current := snap\<rparr>"

section \<open>Policies and their file\<close>

definition RUNTIME_POLICY_SCHEMA_VERSION :: nat where
  "RUNTIME_POLICY_SCHEMA_VERSION = 1"

definition RUNTIME_POLICY_FILE_NAME :: bytes where
  "RUNTIME_POLICY_FILE_NAME = ''runtime-policy.toml''"

record mitm_config =
  mc_tls_decryption :: tls_decryption_policy

record runtime_policies =
  rp_mitm :: mitm_config
  rp_hooks :: hooks_config
  rp_network :: "network_config option"

record runtime_policy_file =
  rf_schema_version :: nat
  rf_mitm :: mitm_config
  rf_hooks :: hooks_config
  rf_network :: "network_config option"

datatype runtime_policy_error =
    PolicyNetwork string
  | PolicyRead bytes io_kind
  | PolicyToml bytes
  | PolicyUnsupportedSchema bytes nat nat
  | PolicyMitm policy_error
  | PolicyPersist string bytes io_kind
  | PolicySerialize

datatype broker_config_error =
    BrokerPolicy runtime_policy_error
  | BrokerInvalidConfig string

text \<open>
  \<^verbatim>\<open>toml\<close> between the text and the fields of the policy file, and the parser of authorities. \<open>pl_from_toml\<close> is what the derived
  deserializers see; the checks of the repository's own deserializers follow in \<open>policy_file_deserialize\<close>.
\<close>

record policy_libs =
  pl_from_toml :: "bytes \<Rightarrow> runtime_policy_file option"
  pl_to_toml :: "runtime_policy_file \<Rightarrow> bytes option"
  pl_authority :: authority_parser

definition default_policies :: runtime_policies where
  "default_policies =
     \<lparr>rp_mitm = \<lparr>mc_tls_decryption = default_policy\<rparr>, rp_hooks = default_hooks_config, rp_network = None\<rparr>"

definition policy_file_deserialize :: "policy_libs \<Rightarrow> bytes \<Rightarrow> runtime_policy_file option" where
  "policy_file_deserialize libs text =
     (case pl_from_toml libs text of
        None \<Rightarrow> None
      | Some wire \<Rightarrow>
          (case hooks_config_deserialize (rf_hooks wire) of
             Err e \<Rightarrow> None
           | Ok config \<Rightarrow> Some (wire\<lparr>rf_hooks := config\<rparr>)))"

definition load_policies ::
  "policy_libs \<Rightarrow> bytes \<Rightarrow> disk \<Rightarrow> (runtime_policy_error, runtime_policies) result \<times> disk" where
  "load_policies libs path d =
     (case fs_read path d of
        (Err k, d') \<Rightarrow> (if k = NotFound then Ok default_policies else Err (PolicyRead path k), d')
      | (Ok contents, d') \<Rightarrow>
          if \<not> utf8_valid contents then (Err (PolicyRead path InvalidData), d')
          else
            (case policy_file_deserialize libs contents of
               None \<Rightarrow> (Err (PolicyToml path), d')
             | Some file \<Rightarrow>
                 if rf_schema_version file \<noteq> RUNTIME_POLICY_SCHEMA_VERSION
                 then (Err (PolicyUnsupportedSchema path (rf_schema_version file) RUNTIME_POLICY_SCHEMA_VERSION), d')
                 else
                   (case validate_policy (mc_tls_decryption (rf_mitm file)) of
                      Err e \<Rightarrow> (Err (PolicyMitm e), d')
                    | Ok _ \<Rightarrow>
                        (case (case rf_network file of None \<Rightarrow> None | Some network \<Rightarrow> nc_upstream network) of
                           None \<Rightarrow> (Ok \<lparr>rp_mitm = rf_mitm file, rp_hooks = rf_hooks file, rp_network = rf_network file\<rparr>, d')
                         | Some upstream_config \<Rightarrow>
                             (case config_validate (pl_authority libs) upstream_config of
                                Err e \<Rightarrow> (Err (PolicyNetwork e), d')
                              | Ok _ \<Rightarrow>
                                  (Ok \<lparr>rp_mitm = rf_mitm file, rp_hooks = rf_hooks file, rp_network = rf_network file\<rparr>, d'))))))"

section \<open>Transactions\<close>

text \<open>The policies on disk, the running components, and the file's path.\<close>

record 'j policy_transaction =
  pt_current :: "runtime_policies"
  pt_mitm :: "'j mitm_engine"
  pt_hooks :: hooks_config
  pt_network :: network_runtime
  pt_policy_path :: bytes

definition transaction_new ::
  "'j mitm_engine \<Rightarrow> hooks_config \<Rightarrow> network_runtime \<Rightarrow> bytes \<Rightarrow> 'j policy_transaction" where
  "transaction_new mitm hooks_config network path =
     \<lparr>pt_current = \<lparr>rp_mitm = \<lparr>mc_tls_decryption = en_policy mitm\<rparr>, rp_hooks = hooks_config, rp_network = nr_persisted network\<rparr>,
      pt_mitm = mitm, pt_hooks = hooks_config, pt_network = network, pt_policy_path = path\<rparr>"

definition policy_parent :: "bytes \<Rightarrow> bytes" where
  "policy_parent path = (case path_parent path of None \<Rightarrow> ''.'' | Some parent \<Rightarrow> parent)"

text \<open>\<open>pid\<close> and \<open>rnd\<close> are the process id and the random number of this call.\<close>

definition temporary_path :: "nat \<Rightarrow> nat \<Rightarrow> bytes \<Rightarrow> bytes" where
  "temporary_path pid rnd path =
     path_join (policy_parent path)
       (''.'' @ (case path_file_name path of None \<Rightarrow> RUNTIME_POLICY_FILE_NAME
                 | Some name \<Rightarrow> if utf8_valid name then name else RUNTIME_POLICY_FILE_NAME)
        @ ''.'' @ show_nat pid @ ''-'' @ show_nat rnd @ ''.tmp'')"

definition write_and_replace ::
  "bytes \<Rightarrow> bytes \<Rightarrow> bytes \<Rightarrow> disk \<Rightarrow> (runtime_policy_error, unit) result \<times> disk" where
  "write_and_replace path temporary bs d =
     fs_then (fs_err (PolicyPersist ''open parent directory for syncing'' (policy_parent path)) (fs_directory (policy_parent path) d)) (\<lambda>d.
     fs_then (fs_err (PolicyPersist ''create temporary'' temporary) (fs_create_new temporary PRIVATE_MODE d)) (\<lambda>d.
     fs_then (fs_err (PolicyPersist ''write temporary'' temporary) (fs_write_all temporary bs d)) (\<lambda>d.
     fs_then (fs_err (PolicyPersist ''sync temporary'' temporary) (fs_sync d)) (\<lambda>d.
     fs_then (fs_err (PolicyPersist ''sync temporary parent directory for'' (policy_parent path)) (fs_sync d)) (\<lambda>d.
     fs_then (fs_err (PolicyPersist ''install'' path) (fs_rename temporary path d)) (\<lambda>d.
       (Ok (), snd (fs_sync d))))))))"

definition policy_file_of :: "runtime_policies \<Rightarrow> runtime_policy_file" where
  "policy_file_of p =
     \<lparr>rf_schema_version = RUNTIME_POLICY_SCHEMA_VERSION, rf_mitm = rp_mitm p, rf_hooks = rp_hooks p, rf_network = rp_network p\<rparr>"

text \<open>The Linux build also restricts the directory (\<open>secure\<close>).\<close>

definition persist ::
  "policy_libs \<Rightarrow> bool \<Rightarrow> nat \<Rightarrow> nat \<Rightarrow> bytes \<Rightarrow> runtime_policies \<Rightarrow> disk
   \<Rightarrow> (runtime_policy_error, unit) result \<times> disk" where
  "persist libs secure pid rnd path policies d =
     (case pl_to_toml libs (policy_file_of policies) of
        None \<Rightarrow> (Err PolicySerialize, d)
      | Some text \<Rightarrow>
          fs_then (fs_err (PolicyPersist ''create parent directory for'' (policy_parent path)) (fs_sync d)) (\<lambda>d.
          fs_then (if secure then fs_err (PolicyPersist ''secure parent directory for'' (policy_parent path)) (fs_directory (policy_parent path) d)
                   else (Ok (), d)) (\<lambda>d.
            case write_and_replace path (temporary_path pid rnd path) (text @ [CHR 0x0A]) d of
              (Err e, d') \<Rightarrow> (Err e, snd (fs_remove_file (temporary_path pid rnd path) d'))
            | (Ok _, d') \<Rightarrow> (Ok (), d'))))"

text \<open>A change to one of the three policies, as the API asks for it.\<close>

datatype policy_update =
    UpdateNetwork network_config
  | UpdateMitm mitm_config
  | UpdateHooks hooks_config

definition replace_tls_decryption_policy :: "tls_decryption_policy \<Rightarrow> 'j mitm_engine \<Rightarrow> 'j mitm_engine" where
  "replace_tls_decryption_policy policy en = en\<lparr>en_policy := policy\<rparr>"

definition update_network ::
  "policy_libs \<Rightarrow> bool \<Rightarrow> nat \<Rightarrow> nat \<Rightarrow> network_config \<Rightarrow> 'j policy_transaction \<Rightarrow> disk
   \<Rightarrow> (broker_config_error, unit) result \<times> 'j policy_transaction \<times> disk" where
  "update_network libs secure pid rnd config t d =
     (case network_validate (pl_authority libs) config of
        Err e \<Rightarrow> (Err (BrokerInvalidConfig e), t, d)
      | Ok validated \<Rightarrow>
          (let candidate = (pt_current t)\<lparr>rp_network := Some config\<rparr> in
           case persist libs secure pid rnd (pt_policy_path t) candidate d of
             (Err e, d') \<Rightarrow> (Err (BrokerPolicy e), t, d')
           | (Ok _, d') \<Rightarrow> (Ok (), t\<lparr>pt_network := network_publish validated (pt_network t), pt_current := candidate\<rparr>, d')))"

text \<open>\<open>show_policy_error\<close> is the text of a policy error.\<close>

definition update_mitm ::
  "policy_libs \<Rightarrow> (policy_error \<Rightarrow> string) \<Rightarrow> bool \<Rightarrow> nat \<Rightarrow> nat \<Rightarrow> mitm_config \<Rightarrow> 'j policy_transaction \<Rightarrow> disk
   \<Rightarrow> (broker_config_error, unit) result \<times> 'j policy_transaction \<times> disk" where
  "update_mitm libs show_policy_error secure pid rnd config t d =
     (case validate_policy (mc_tls_decryption config) of
        Err e \<Rightarrow> (Err (BrokerInvalidConfig (show_policy_error e)), t, d)
      | Ok _ \<Rightarrow>
          (let candidate = (pt_current t)\<lparr>rp_mitm := config\<rparr> in
           case persist libs secure pid rnd (pt_policy_path t) candidate d of
             (Err e, d') \<Rightarrow> (Err (BrokerPolicy e), t, d')
           | (Ok _, d') \<Rightarrow>
               (Ok (), t\<lparr>pt_mitm := replace_tls_decryption_policy (mc_tls_decryption config) (pt_mitm t), pt_current := candidate\<rparr>, d')))"

definition update_hooks ::
  "policy_libs \<Rightarrow> bool \<Rightarrow> nat \<Rightarrow> nat \<Rightarrow> hooks_config \<Rightarrow> 'j policy_transaction \<Rightarrow> disk
   \<Rightarrow> (broker_config_error, unit) result \<times> 'j policy_transaction \<times> disk" where
  "update_hooks libs secure pid rnd config t d =
     (let candidate = (pt_current t)\<lparr>rp_hooks := config\<rparr> in
      case persist libs secure pid rnd (pt_policy_path t) candidate d of
        (Err e, d') \<Rightarrow> (Err (BrokerPolicy e), t, d')
      | (Ok _, d') \<Rightarrow> (Ok (), t\<lparr>pt_hooks := config, pt_current := candidate\<rparr>, d'))"

fun update_policies ::
  "policy_libs \<Rightarrow> (policy_error \<Rightarrow> string) \<Rightarrow> bool \<Rightarrow> nat \<Rightarrow> nat \<Rightarrow> policy_update \<Rightarrow> 'j policy_transaction \<Rightarrow> disk
   \<Rightarrow> (broker_config_error, unit) result \<times> 'j policy_transaction \<times> disk" where
  "update_policies libs sh secure pid rnd (UpdateNetwork c) t d = update_network libs secure pid rnd c t d"
| "update_policies libs sh secure pid rnd (UpdateMitm c) t d = update_mitm libs sh secure pid rnd c t d"
| "update_policies libs sh secure pid rnd (UpdateHooks c) t d = update_hooks libs secure pid rnd c t d"

text \<open>\<^verbatim>\<open>RuntimeConfigService\<close>: reading the running configuration.\<close>

definition service_network_config :: "'j policy_transaction \<Rightarrow> network_config" where
  "service_network_config t = ns_config (nr_current (pt_network t))"

definition service_mitm_config :: "'j policy_transaction \<Rightarrow> mitm_config" where
  "service_mitm_config t = \<lparr>mc_tls_decryption = en_policy (pt_mitm t)\<rparr>"

definition service_hooks_config :: "'j policy_transaction \<Rightarrow> hooks_config" where
  "service_hooks_config t = pt_hooks t"

section \<open>Replacing the file\<close>

lemma dash_digits: "c \<in> set (show_nat n) \<Longrightarrow> c \<noteq> CHR ''/''"
  using show_nat_digits [of c n] by (auto simp: is_ascii_digit_def code_def)

text \<open>The temporary file is another one: its name is longer than the policy's.\<close>

lemma temporary_path_ne: "temporary_path pid rnd path \<noteq> path"
proof
  define name where "name = (case path_file_name path of None \<Rightarrow> RUNTIME_POLICY_FILE_NAME
    | Some n \<Rightarrow> if utf8_valid n then n else RUNTIME_POLICY_FILE_NAME)"
  define t where "t = ''.'' @ name @ ''.'' @ show_nat pid @ ''-'' @ show_nat rnd @ ''.tmp''"
  have name: "CHR ''/'' \<notin> set name"
    using file_name_ok [of path] by (auto simp: name_def RUNTIME_POLICY_FILE_NAME_def name_ok_def part_ok_def split: option.splits)
  then have "CHR ''/'' \<notin> set t" using dash_digits by (auto simp: t_def)
  moreover have "t \<noteq> ''..''" "t \<noteq> ''.''" "t \<noteq> []" by (simp_all add: t_def)
  ultimately have "name_ok t" by (simp add: name_ok_def part_ok_def)
  assume "temporary_path pid rnd path = path"
  then have "path_file_name path = Some t"
    using file_name_join [OF \<open>name_ok t\<close>, of "policy_parent path"] by (simp add: temporary_path_def t_def name_def)
  then have "name = t \<or> name = RUNTIME_POLICY_FILE_NAME \<and> \<not> utf8_valid t" by (simp add: name_def)
  then show False
  proof
    assume "name = t"
    then show False by (simp add: t_def)
  next
    assume n: "name = RUNTIME_POLICY_FILE_NAME \<and> \<not> utf8_valid t"
    have digits: "is_ascii (show_nat k)" for k
      by (auto simp: is_ascii_def is_ascii_digit_def list_all_iff dest: show_nat_digits)
    have "is_ascii t" using n digits [of pid] digits [of rnd] by (auto simp: t_def is_ascii_def RUNTIME_POLICY_FILE_NAME_def code_def)
    with n is_ascii_utf8_valid show False by blast
  qed
qed

definition replaced :: "bytes \<Rightarrow> bytes \<Rightarrow> disk \<Rightarrow> disk \<Rightarrow> bool" where
  "replaced path bs d d' \<longleftrightarrow>
     dk_files d' path = Some \<lparr>st_content = bs, st_mode = PRIVATE_MODE\<rparr>
   \<and> disk_through (\<lambda>g. g path = dk_files d path \<or> g path = Some \<lparr>st_content = bs, st_mode = PRIVATE_MODE\<rparr>) d d'"

lemma rename_replaced:
  assumes "fs_rename temporary path d = (Ok u, d')" and "dk_files d temporary = Some \<lparr>st_content = bs, st_mode = PRIVATE_MODE\<rparr>"
    and "dk_files d0 path = dk_files d path" and "keeps path d0 d" and "keeps path d' d''"
  shows "replaced path bs d0 d''"
proof -
  from assms(1,2) have files: "dk_files d' path = Some \<lparr>st_content = bs, st_mode = PRIVATE_MODE\<rparr>"
    and trace: "dk_trace d' = dk_files d' # dk_trace d" by (auto elim!: fs_rename_ok)
  let ?P = "\<lambda>g. g path = dk_files d0 path \<or> g path = Some \<lparr>st_content = bs, st_mode = PRIVATE_MODE\<rparr>"
  have "disk_through ?P d0 d" using keeps_through [OF assms(4), of "\<lambda>x. x = dk_files d0 path \<or> x = Some \<lparr>st_content = bs, st_mode = PRIVATE_MODE\<rparr>"] by simp
  moreover have "disk_through ?P d d'" using files trace by (auto simp: disk_through_def intro!: exI [of _ "[dk_files d']"])
  moreover have "disk_through ?P d' d''"
    using keeps_through [OF assms(5), of "\<lambda>x. x = dk_files d0 path \<or> x = Some \<lparr>st_content = bs, st_mode = PRIVATE_MODE\<rparr>"] files by simp
  ultimately show ?thesis using keeps_same [OF assms(5)] files by (auto simp: replaced_def intro: disk_through_trans)
qed

lemma write_and_replace_spec:
  assumes ne: "temporary \<noteq> path" and run: "write_and_replace path temporary bs d = (res, d')"
  shows "case res of Err e \<Rightarrow> keeps path d d' | Ok _ \<Rightarrow> replaced path bs d d'"
proof -
  obtain r1 d1 where 1: "fs_directory (policy_parent path) d = (r1, d1)" by fastforce
  obtain r2 d2 where 2: "fs_create_new temporary PRIVATE_MODE d1 = (r2, d2)" by fastforce
  obtain r3 d3 where 3: "fs_write_all temporary bs d2 = (r3, d3)" by fastforce
  obtain r4 d4 where 4: "fs_sync d3 = (r4, d4)" by fastforce
  obtain r5 d5 where 5: "fs_sync d4 = (r5, d5)" by fastforce
  obtain r6 d6 where 6: "fs_rename temporary path d5 = (r6, d6)" by fastforce
  obtain r7 d7 where 7: "fs_sync d6 = (r7, d7)" by fastforce
  have k1: "keeps path d d1" using 1 by (rule fs_keeps)
  have k2: "keeps path d d2" using k1 fs_keeps(4) [OF 2 ne] by (rule keeps_trans)
  have k3: "keeps path d d3" using k2 fs_keeps(7) [OF 3 ne] by (rule keeps_trans)
  have k4: "keeps path d d4" using k3 fs_keeps(1) [OF 4] by (rule keeps_trans)
  have k5: "keeps path d d5" using k4 fs_keeps(1) [OF 5] by (rule keeps_trans)
  have k7: "keeps path d6 d7" using fs_keeps(1) [OF 7] .
  have failed: "keeps path d d6" if "r6 = Err k" for k
    using keeps_trans [OF k5 fs_failed_keeps(1)] 6 that by blast
  have finished: "replaced path bs d d7" if "r2 = Ok u2" "r3 = Ok u3" "r6 = Ok u6" for u2 u3 u6
  proof -
    have "dk_files d2 temporary = Some \<lparr>st_content = [], st_mode = PRIVATE_MODE\<rparr>" using fs_create_new_ok 2 that(1) by fastforce
    with fs_write_all_ok 3 that(2) have "dk_files d3 temporary = Some \<lparr>st_content = bs, st_mode = PRIVATE_MODE\<rparr>" by fastforce
    then have "dk_files d5 temporary = Some \<lparr>st_content = bs, st_mode = PRIVATE_MODE\<rparr>" using fs_sync_ok [OF 4] fs_sync_ok [OF 5] by simp
    with rename_replaced [OF 6 [unfolded that(3)] this _ k5 k7] keeps_same [OF k5] show ?thesis by simp
  qed
  show ?thesis
    using run 1 2 3 4 5 6 7 k1 k2 k3 k4 k5 failed finished
    by (cases r1; cases r2; cases r3; cases r4; cases r5; cases r6) (auto simp: write_and_replace_def)
qed

text \<open>What \<^verbatim>\<open>persist\<close> writes.\<close>

definition policy_text :: "policy_libs \<Rightarrow> runtime_policies \<Rightarrow> bytes option" where
  "policy_text libs p = map_option (\<lambda>text. text @ [CHR 0x0A]) (pl_to_toml libs (policy_file_of p))"

lemma replaced_extend:
  assumes "keeps path d d1" and "replaced path bs d1 d2"
  shows "replaced path bs d d2"
proof -
  let ?R = "\<lambda>x. x = dk_files d path \<or> x = Some \<lparr>st_content = bs, st_mode = PRIVATE_MODE\<rparr>"
  have "disk_through (\<lambda>g. ?R (g path)) d d1" using keeps_through [OF assms(1), of ?R] by simp
  with assms keeps_same [OF assms(1)] show ?thesis by (auto simp: replaced_def intro: disk_through_trans)
qed

lemma persist_spec:
  assumes run: "persist libs secure pid rnd path p d = (res, d')"
  shows "case res of Err e \<Rightarrow> keeps path d d' | Ok _ \<Rightarrow> \<exists>bs. policy_text libs p = Some bs \<and> replaced path bs d d'"
proof (cases "pl_to_toml libs (policy_file_of p)")
  case None
  with run show ?thesis by (auto simp: persist_def)
next
  case (Some body)
  let ?t = "temporary_path pid rnd path" and ?bs = "body @ [CHR 0x0A]"
  obtain r1 d1 where 1: "fs_sync d = (r1, d1)" by fastforce
  obtain r2 d2 where 2: "(if secure then fs_directory (policy_parent path) d1 else (Ok (), d1)) = (r2, d2)" by fastforce
  obtain r3 d3 where 3: "write_and_replace path ?t ?bs d2 = (r3, d3)" by fastforce
  obtain r4 d4 where 4: "fs_remove_file ?t d3 = (r4, d4)" by fastforce
  note ne = temporary_path_ne [of pid rnd path]
  have k1: "keeps path d d1" using 1 by (rule fs_keeps)
  have "keeps path d1 d2" using 2 fs_keeps(2) by (cases secure) auto
  with k1 have k2: "keeps path d d2" by (rule keeps_trans)
  note w = write_and_replace_spec [OF ne 3]
  have k4: "keeps path d d4" if "r3 = Err e" for e
    using that w keeps_trans [OF k2] keeps_trans [OF _ fs_keeps(9) [OF 4 ne]] by auto
  have k3: "replaced path ?bs d d3" if "r3 = Ok u" for u
    using that w replaced_extend [OF k2] by simp
  have step: "persist libs secure pid rnd path p d =
    fs_then (fs_err (PolicyPersist ''create parent directory for'' (policy_parent path)) (r1, d1)) (\<lambda>_.
    fs_then (fs_err (PolicyPersist ''secure parent directory for'' (policy_parent path)) (r2, d2)) (\<lambda>_.
      case r3 of Err e \<Rightarrow> (Err e, d4) | Ok u \<Rightarrow> (Ok (), d3)))"
    using 1 2 3 4 Some by (cases r1; cases secure; cases r2; cases r3) (auto simp: persist_def)
  show ?thesis
    using run k1 k2 k3 k4 Some unfolding step
    by (cases r1; cases r2; cases r3) (auto simp: policy_text_def)
qed

section \<open>Updates\<close>

text \<open>What an update asks for.\<close>

fun updated_policies :: "policy_update \<Rightarrow> runtime_policies \<Rightarrow> runtime_policies" where
  "updated_policies (UpdateNetwork c) p = p\<lparr>rp_network := Some c\<rparr>"
| "updated_policies (UpdateMitm c) p = p\<lparr>rp_mitm := c\<rparr>"
| "updated_policies (UpdateHooks h) p = p\<lparr>rp_hooks := h\<rparr>"

text \<open>The policies are valid, and the running components run them.\<close>

definition policies_valid :: "policy_libs \<Rightarrow> runtime_policies \<Rightarrow> bool" where
  "policies_valid libs p \<longleftrightarrow>
     validate_policy (mc_tls_decryption (rp_mitm p)) = Ok ()
   \<and> (case rp_network p of None \<Rightarrow> True | Some network \<Rightarrow>
        (case nc_upstream network of None \<Rightarrow> True | Some u \<Rightarrow> config_validate (pl_authority libs) u = Ok ()))"

definition policies_live :: "'j policy_transaction \<Rightarrow> bool" where
  "policies_live t \<longleftrightarrow>
     service_mitm_config t = rp_mitm (pt_current t) \<and> service_hooks_config t = rp_hooks (pt_current t)
   \<and> (case rp_network (pt_current t) of None \<Rightarrow> True | Some network \<Rightarrow> service_network_config t = network)"

lemma network_validate_Ok:
  "network_validate authority config = Ok snap \<Longrightarrow>
     ns_config snap = config \<and> (case nc_upstream config of None \<Rightarrow> True | Some u \<Rightarrow> config_validate authority u = Ok ())"
  by (auto simp: network_validate_def http_connect_proxy_new_def split: option.splits sum.splits)

lemmas update_defs = update_network_def update_mitm_def update_hooks_def

lemma update_failed:
  "update_policies libs sh secure pid rnd u t d = (Err e, t', d') \<Longrightarrow> t' = t \<and> keeps (pt_policy_path t) d d'"
  by (cases u)
    (auto simp: update_defs Let_def dest!: persist_spec split: sum.splits prod.splits)

lemma update_done:
  assumes "update_policies libs sh secure pid rnd u t d = (Ok v, t', d')"
  shows "pt_current t' = updated_policies u (pt_current t) \<and> pt_policy_path t' = pt_policy_path t
    \<and> (\<exists>bs. policy_text libs (pt_current t') = Some bs \<and> replaced (pt_policy_path t) bs d d')
    \<and> (policies_live t \<longrightarrow> policies_live t') \<and> (policies_valid libs (pt_current t) \<longrightarrow> policies_valid libs (pt_current t'))"
  using assms
  by (cases u)
    (auto simp: update_defs Let_def policies_live_def policies_valid_def service_mitm_config_def service_hooks_config_def
      service_network_config_def replace_tls_decryption_policy_def network_publish_def
      dest!: persist_spec network_validate_Ok split: sum.splits prod.splits option.splits)

text \<open>Updates one after the other, as the transaction's lock orders them, each with its process id and random number.\<close>

fun run_updates ::
  "policy_libs \<Rightarrow> (policy_error \<Rightarrow> string) \<Rightarrow> bool \<Rightarrow> (nat \<times> nat \<times> policy_update) list \<Rightarrow> 'j policy_transaction \<Rightarrow> disk
   \<Rightarrow> 'j policy_transaction \<times> disk" where
  "run_updates libs sh secure [] t d = (t, d)"
| "run_updates libs sh secure ((pid, rnd, u) # us) t d =
     (case update_policies libs sh secure pid rnd u t d of (res, t', d') \<Rightarrow> run_updates libs sh secure us t' d')"

text \<open>
  What \<^verbatim>\<open>toml\<close> promises of text it has written: it is UTF-8 and holds the fields it was written from. Reading these fields as
  a configuration is the repository's code and not part of the law; a value that is no Rust value (a key twice, a string
  that is not UTF-8) has no text.
\<close>

definition toml_laws :: "policy_libs \<Rightarrow> bool" where
  "toml_laws libs \<longleftrightarrow>
     (\<forall>fields text. pl_to_toml libs fields = Some text \<longrightarrow>
        utf8_valid (text @ [CHR 0x0A]) \<and> pl_from_toml libs (text @ [CHR 0x0A]) = Some fields)"

text \<open>A configuration that was read, from the API or from a file, and the changes that carry such configurations.\<close>

definition hooks_config_read :: "hooks_config \<Rightarrow> bool" where
  "hooks_config_read config \<longleftrightarrow> (\<exists>wire. hooks_config_deserialize wire = Ok config)"

fun update_read :: "policy_update \<Rightarrow> bool" where
  "update_read (UpdateHooks config) = hooks_config_read config"
| "update_read u = True"

lemma hooks_config_read_again: "hooks_config_read config \<Longrightarrow> hooks_config_deserialize config = Ok config"
  using hooks_config_again by (auto simp: hooks_config_read_def)

lemma written_fields:
  assumes "toml_laws libs" and "policy_text libs p = Some bs"
  shows "utf8_valid bs \<and> pl_from_toml libs bs = Some (policy_file_of p)"
  using assms by (auto simp: toml_laws_def policy_text_def)

lemma load_written:
  assumes laws: "toml_laws libs" and valid: "policies_valid libs p" and hooks: "hooks_config_read (rp_hooks p)"
    and enc: "policy_text libs p = Some bs"
    and stored: "dk_files d path = Some f" "st_content f = bs" and "dk_faults d = []"
  shows "fst (load_policies libs path d) = Ok p"
proof -
  have "fs_read path d = (Ok bs, d)" using assms by (simp add: fs_read_def next_fault_def)
  moreover have "policy_file_deserialize libs bs = Some (policy_file_of p)"
    using written_fields [OF laws enc] hooks_config_read_again [OF hooks] by (simp add: policy_file_deserialize_def policy_file_of_def)
  moreover have "\<lparr>rp_mitm = rp_mitm p, rp_hooks = rp_hooks p, rp_network = rp_network p\<rparr> = p" by simp
  ultimately show ?thesis
    using valid written_fields [OF laws enc] by (auto simp: load_policies_def policy_file_of_def policies_valid_def split: option.splits)
qed

text \<open>
  \<^verbatim>\<open>update_hooks\<close> checks nothing: a configuration that was built in memory and that the deserializer refuses is written all the
  same, and the file it leaves cannot be loaded.
\<close>

theorem unchecked_hooks_not_loadable:
  assumes "toml_laws libs" and "hooks_config_deserialize (rp_hooks p) = Err e" and "policy_text libs p = Some bs"
    and "dk_files d path = Some f" "st_content f = bs" and "dk_faults d = []"
  shows "fst (load_policies libs path d) = Err (PolicyToml path)"
proof -
  have "fs_read path d = (Ok bs, d)" using assms by (simp add: fs_read_def next_fault_def)
  with written_fields [OF assms(1,3)] assms(2) show ?thesis
    by (simp add: load_policies_def policy_file_deserialize_def policy_file_of_def)
qed

lemma run_updates_invariant:
  "\<lbrakk>run_updates libs sh secure us t d = (t', d'); list_all (\<lambda>(pid, rnd, u). update_read u) us; policies_live t;
     policies_valid libs (pt_current t); hooks_config_read (rp_hooks (pt_current t))\<rbrakk> \<Longrightarrow>
     policies_live t' \<and> policies_valid libs (pt_current t') \<and> hooks_config_read (rp_hooks (pt_current t')) \<and> pt_policy_path t' = pt_policy_path t
   \<and> (pt_current t' = pt_current t \<and> dk_files d' (pt_policy_path t) = dk_files d (pt_policy_path t)
      \<or> (\<exists>bs f. policy_text libs (pt_current t') = Some bs \<and> dk_files d' (pt_policy_path t) = Some f \<and> st_content f = bs))"
proof (induction us arbitrary: t d)
  case (Cons e us)
  obtain pid rnd u where e: "e = (pid, rnd, u)" by (cases e) auto
  obtain res t1 d1 where step: "update_policies libs sh secure pid rnd u t d = (res, t1, d1)" by (metis prod_cases3)
  with Cons.prems(1) e have rec: "run_updates libs sh secure us t1 d1 = (t', d')" by simp
  show ?case
  proof (cases res)
    case (Inl err)
    from update_failed [OF step [unfolded Inl]] have "t1 = t" "dk_files d1 (pt_policy_path t) = dk_files d (pt_policy_path t)"
      by (auto dest: keeps_same)
    with Cons.IH [OF rec] Cons.prems show ?thesis by auto
  next
    case (Inr v)
    have read: "hooks_config_read (rp_hooks (updated_policies u (pt_current t)))" using Cons.prems(2,5) e by (cases u) auto
    from update_done [OF step [unfolded Inr]] Cons.prems(3,4) obtain bs where
      u: "policies_live t1" "policies_valid libs (pt_current t1)" "pt_policy_path t1 = pt_policy_path t"
      "pt_current t1 = updated_policies u (pt_current t)" "policy_text libs (pt_current t1) = Some bs" "replaced (pt_policy_path t) bs d d1" by blast
    then have "\<exists>f. dk_files d1 (pt_policy_path t) = Some f \<and> st_content f = bs" by (auto simp: replaced_def)
    with Cons.IH [OF rec _ u(1,2)] u read Cons.prems(2) show ?thesis by auto
  qed
qed simp

section \<open>Properties\<close>

text \<open>
  C29. Changing a runtime policy is all or nothing, on disk and in memory, wherever a file operation fails and wherever the
  process dies: in every state the disk goes through the policy file is the old one or the complete new one; a failed
  change leaves the file and the running broker as they were; after a successful one the file is the new one, private to its
  owner, and the broker runs the new policies. (States of the disk as the operations leave them; what a power failure does to
  data that was not yet synced is not modelled.)
\<close>

theorem policy_update_atomic:
  "case update_policies libs sh secure pid rnd u t d of
     (Err e, t', d') \<Rightarrow> t' = t \<and> disk_through (\<lambda>g. g (pt_policy_path t) = dk_files d (pt_policy_path t)) d d'
   | (Ok v, t', d') \<Rightarrow>
       pt_current t' = updated_policies u (pt_current t)
     \<and> (\<exists>bs new. policy_text libs (pt_current t') = Some bs \<and> new = \<lparr>st_content = bs, st_mode = PRIVATE_MODE\<rparr>
          \<and> dk_files d' (pt_policy_path t) = Some new
          \<and> disk_through (\<lambda>g. g (pt_policy_path t) = dk_files d (pt_policy_path t) \<or> g (pt_policy_path t) = Some new) d d')
     \<and> (if policies_live t then policies_live t' else True)"
proof -
  obtain res t' d' where run: "update_policies libs sh secure pid rnd u t d = (res, t', d')" by (metis prod_cases3)
  show ?thesis
  proof (cases res)
    case (Inl e)
    with run update_failed [of libs sh secure pid rnd u t d e t' d'] show ?thesis by (auto simp: keeps_def)
  next
    case (Inr v)
    with run update_done [of libs sh secure pid rnd u t d v t' d'] show ?thesis by (auto simp: replaced_def)
  qed
qed

text \<open>
  C30. A broker that restarts finds what it was running. The hooks' configurations, the first one and those of the changes, are
  ones the deserializer has read, as they are when they come from the API or from the file. Whatever sequence of policy
  changes was asked for, whichever of them were refused or failed, the running components run the current policies; the
  current policies are valid, each of the three by its own check; and either nothing was changed or loading the policy
  file, with the checks of the hooks' deserializer and of the loader, gives exactly the current policies.
\<close>

theorem policies_survive_restart:
  assumes "toml_laws libs" and "validate_policy (en_policy mitm) = Ok ()"
    and "network_runtime_new (pl_authority libs) startup persisted = Ok network"
    and "hooks_config_read hooks_config" and "list_all (\<lambda>(pid, rnd, u). update_read u) us"
    and "run_updates libs sh secure us (transaction_new mitm hooks_config network path) d = (t, d')"
  shows "policies_live t
    \<and> validate_policy (mc_tls_decryption (rp_mitm (pt_current t))) = Ok ()
    \<and> (case rp_network (pt_current t) of None \<Rightarrow> True | Some network \<Rightarrow>
         (case nc_upstream network of None \<Rightarrow> True | Some u \<Rightarrow> config_validate (pl_authority libs) u = Ok ()))
    \<and> check_harnesses (uc_harnesses (hk_usage (rp_hooks (pt_current t)))) = Ok ()
    \<and> (pt_current t = pt_current (transaction_new mitm hooks_config network path) \<and> dk_files d' path = dk_files d path
       \<or> fst (load_policies libs path (d'\<lparr>dk_faults := []\<rparr>)) = Ok (pt_current t))"
proof -
  let ?t = "transaction_new mitm hooks_config network path"
  from assms(3) have net: "nr_persisted network = persisted"
    "network_validate (pl_authority libs) (case persisted of Some c \<Rightarrow> c | None \<Rightarrow> \<lparr>nc_upstream = startup\<rparr>) = Ok (nr_current network)"
    by (auto simp: network_runtime_new_def Let_def split: sum.splits)
  have start: "policies_live ?t" "policies_valid libs (pt_current ?t)" "hooks_config_read (rp_hooks (pt_current ?t))"
    using net(1) network_validate_Ok [OF net(2)] assms(2,4)
    by (auto simp: policies_live_def policies_valid_def transaction_new_def service_mitm_config_def service_hooks_config_def
        service_network_config_def split: option.splits)
  from run_updates_invariant [OF assms(6,5) start] have inv: "policies_live t" "policies_valid libs (pt_current t)"
    "hooks_config_read (rp_hooks (pt_current t))"
    and stored: "pt_current t = pt_current ?t \<and> dk_files d' path = dk_files d path
     \<or> (\<exists>bs f. policy_text libs (pt_current t) = Some bs \<and> dk_files d' path = Some f \<and> st_content f = bs)"
    by (auto simp: transaction_new_def)
  have "pt_current t = pt_current ?t \<and> dk_files d' path = dk_files d path
     \<or> fst (load_policies libs path (d'\<lparr>dk_faults := []\<rparr>)) = Ok (pt_current t)"
    using stored load_written [OF assms(1) inv(2,3), of _ "d'\<lparr>dk_faults := []\<rparr>" path] by auto
  with inv hooks_config_read_again [OF inv(3)] show ?thesis
    by (simp add: policies_valid_def hooks_config_checked)
qed

text \<open>
  A broker with the default configuration whose hooks' configuration is changed once, by a text that names a custom harness
  and, under its old name, a built-in one that is disabled; the encoding knows only the resulting file.
\<close>

definition sample_wire :: hooks_config where
  "sample_wire =
     \<lparr>hk_enabled = True, hk_usage = \<lparr>uc_content = default_content_config,
        uc_harnesses = [(''mine'', \<lparr>hc_enabled = None, hc_content = None,
            hc_matchers = [\<lparr>hm_process_names = [''agent''], hm_application_ids = []\<rparr>]\<rparr>),
          (''claude-cli'', \<lparr>hc_enabled = Some False, hc_content = None, hc_matchers = []\<rparr>)]\<rparr>\<rparr>"

definition sample_hooks :: hooks_config where
  "sample_hooks =
     \<lparr>hk_enabled = True, hk_usage = \<lparr>uc_content = default_content_config,
        uc_harnesses = [(''claude-code'', \<lparr>hc_enabled = Some False, hc_content = None, hc_matchers = []\<rparr>),
          (''mine'', \<lparr>hc_enabled = None, hc_content = None,
            hc_matchers = [\<lparr>hm_process_names = [''agent''], hm_application_ids = []\<rparr>]\<rparr>)]\<rparr>\<rparr>"

lemma sample_wire_read: "hooks_config_deserialize sample_wire = Ok sample_hooks"
  by code_simp

definition sample_policies :: runtime_policies where
  "sample_policies = \<lparr>rp_mitm = \<lparr>mc_tls_decryption = default_policy\<rparr>, rp_hooks = sample_hooks, rp_network = None\<rparr>"

definition sample_policy_libs :: policy_libs where
  "sample_policy_libs =
     \<lparr>pl_from_toml = (\<lambda>text. if text = ''x'' @ [CHR 0x0A] then Some (policy_file_of sample_policies) else None),
      pl_to_toml = (\<lambda>file. if file = policy_file_of sample_policies then Some ''x'' else None),
      pl_authority = (\<lambda>_. None)\<rparr>"

definition sample_mitm :: "unit mitm_engine" where
  "sample_mitm =
     \<lparr>en_hooks = dispatcher_with_capacity 1, en_timeouts = default_timeouts, en_max_http1_body_bytes = 1, en_policy = default_policy\<rparr>"

definition sample_network :: network_runtime where
  "sample_network = \<lparr>nr_current = \<lparr>ns_config = \<lparr>nc_upstream = None\<rparr>, ns_proxy = None\<rparr>, nr_persisted = None\<rparr>"

definition empty_disk :: disk where
  "empty_disk = \<lparr>dk_files = (\<lambda>_. None), dk_faults = [], dk_trace = []\<rparr>"

lemma sample_persist: "fst (persist sample_policy_libs False 1 2 ''/p'' sample_policies empty_disk) = Ok ()"
proof -
  have "policy_parent ''/p'' = ''/''" by (simp add: policy_parent_def path_parent_def)
  then show ?thesis
    by (simp add: persist_def sample_policy_libs_def write_and_replace_def empty_disk_def fs_defs next_fault_def disk_goes_def
        write_states_def)
qed

theorem policies_survive_restart_witness:
  "\<exists>t d. run_updates sample_policy_libs (\<lambda>_. []) False [(1, 2, UpdateHooks sample_hooks)]
      (transaction_new sample_mitm default_hooks_config sample_network ''/p'') empty_disk = (t, d)
    \<and> pt_hooks t = sample_hooks \<and> fst (load_policies sample_policy_libs ''/p'' (d\<lparr>dk_faults := []\<rparr>)) = Ok sample_policies"
proof -
  let ?t = "transaction_new sample_mitm default_hooks_config sample_network ''/p''"
  have cur: "(pt_current ?t)\<lparr>rp_hooks := sample_hooks\<rparr> = sample_policies" "pt_policy_path ?t = ''/p''"
    by (simp_all add: transaction_new_def sample_mitm_def sample_network_def sample_policies_def)
  obtain d where "persist sample_policy_libs False 1 2 ''/p'' sample_policies empty_disk = (Ok (), d)"
    using sample_persist by (metis old.unit.exhaust prod.collapse)
  then have run: "run_updates sample_policy_libs (\<lambda>_. []) False [(1, 2, UpdateHooks sample_hooks)] ?t empty_disk
      = (?t\<lparr>pt_hooks := sample_hooks, pt_current := sample_policies\<rparr>, d)"
    using cur by (simp add: update_hooks_def)
  have "toml_laws sample_policy_libs" by (auto simp: toml_laws_def sample_policy_libs_def code_def)
  moreover have "validate_policy (en_policy sample_mitm) = Ok ()"
    by (simp add: sample_mitm_def validate_policy_def default_policy_def)
  moreover have "network_runtime_new (pl_authority sample_policy_libs) None None = Ok sample_network"
    by (simp add: network_runtime_new_def network_validate_def sample_network_def)
  moreover have "hooks_config_read default_hooks_config" using default_hooks_again by (auto simp: hooks_config_read_def)
  moreover have "list_all (\<lambda>(pid :: nat, rnd :: nat, u). update_read u) [(1, 2, UpdateHooks sample_hooks)]"
    using sample_wire_read by (auto simp: hooks_config_read_def)
  ultimately have "fst (load_policies sample_policy_libs ''/p'' (d\<lparr>dk_faults := []\<rparr>)) = Ok sample_policies"
    using policies_survive_restart [OF _ _ _ _ _ run] by (auto simp: transaction_new_def sample_policies_def sample_hooks_def default_hooks_config_def default_usage_config_def)
  with run show ?thesis by simp
qed

text \<open>
  A policy path without a directory, which \<^verbatim>\<open>parent()\<close> answers with an empty path and not with none, can never be written.
\<close>

lemma bare_policy_path_never_persists:
  "path_parent path = Some [] \<Longrightarrow> fst (write_and_replace path temporary bs d) = Err (PolicyPersist ''open parent directory for syncing'' [] NotFound)"
  by (simp add: write_and_replace_def policy_parent_def fs_directory_def)

end
