(* ===== verification/Staged_File.thy ===== *)
theory Staged_File
  imports File_System
begin

text \<open>
  Replacing a file by staging its new content in a temporary file and renaming that: what the components that do so share. A
  stage is any procedure that fills the temporary file and leaves the target alone.
\<close>

locale staged_file =
  fixes stage :: "disk \<Rightarrow> ('e, unit) result \<times> disk" and temporary target content :: bytes
  assumes stage_keeps: "\<lbrakk>stage d = (res, d'); temporary \<noteq> target\<rbrakk> \<Longrightarrow> keeps target d d'"
    and stage_fills: "stage d = (Ok u, d') \<Longrightarrow> \<exists>m. dk_files d' temporary = Some \<lparr>st_content = content, st_mode = m\<rparr>"
begin

text \<open>Until the rename the target is the old file; from then on it is the complete new one.\<close>

lemma install_ok:
  assumes ne: "temporary \<noteq> target" and st: "stage d = (Ok u, d1)" and ren: "fs_rename temporary target d1 = (Ok v, d2)"
  shows "(\<exists>m. dk_files d2 target = Some \<lparr>st_content = content, st_mode = m\<rparr>) \<and> old_or_new target d d2"
proof -
  from stage_fills [OF st] obtain m where m: "dk_files d1 temporary = Some \<lparr>st_content = content, st_mode = m\<rparr>" by blast
  from fs_rename_ok [OF ren] obtain f where f: "dk_files d1 temporary = Some f"
    "dk_files d2 = (dk_files d1)(temporary := None, target := Some f)" "dk_trace d2 = dk_files d2 # dk_trace d1" .
  note k = stage_keeps [OF st ne]
  have "disk_through (\<lambda>g. g target = dk_files d target \<or> g target = Some f) d d1"
    using keeps_through [OF k, of "\<lambda>x. x = dk_files d target \<or> x = Some f"] by simp
  moreover have "disk_through (\<lambda>g. g target = dk_files d target \<or> g target = Some f) d1 d2"
    using f(2,3) by (auto simp: disk_through_def intro!: exI [of _ "[dk_files d2]"])
  ultimately show ?thesis using f(1,2) m by (auto simp: old_or_new_def intro: disk_through_trans)
qed

lemma install_failed:
  assumes ne: "temporary \<noteq> target" and st: "stage d = (res, d1)" and ren: "fs_rename temporary target d1 = (Err k, d2)"
  shows "keeps target d d2"
  using stage_keeps [OF st ne] fs_failed_keeps(1) [OF ren] by (rule keeps_trans)

end

section \<open>Filling a temporary file\<close>

text \<open>
  The stages of the components create or truncate the temporary file, write its content and a final newline, and sync it; they
  differ in the mode and in how they report a fault.
\<close>

locale newline_stage =
  fixes stage :: "disk \<Rightarrow> ('e, unit) result \<times> disk" and temporary body :: bytes
    and mode :: nat and g1 g2 g3 g4 :: "io_kind \<Rightarrow> 'e"
  assumes stage_steps: "stage d =
     fs_then (fs_err g1 (fs_create_truncate temporary mode d)) (\<lambda>d.
     fs_then (fs_err g2 (fs_write_all temporary body d)) (\<lambda>d.
     fs_then (fs_err g3 (fs_write_all temporary [CHR 0x0A] d)) (\<lambda>d. fs_err g4 (fs_sync d))))"

sublocale newline_stage \<subseteq> staged_file stage temporary target "body @ [CHR 0x0A]" for target
proof
  fix d res d'
  assume run: "stage d = (res, d')" and ne: "temporary \<noteq> target"
  obtain r1 d1 where 1: "fs_create_truncate temporary mode d = (r1, d1)" by fastforce
  obtain r2 d2 where 2: "fs_write_all temporary body d1 = (r2, d2)" by fastforce
  obtain r3 d3 where 3: "fs_write_all temporary [CHR 0x0A] d2 = (r3, d3)" by fastforce
  obtain r4 d4 where 4: "fs_sync d3 = (r4, d4)" by fastforce
  note k1 = fs_keeps(5) [OF 1 ne]
  note k2 = keeps_trans [OF k1 fs_keeps(7) [OF 2 ne]]
  note k3 = keeps_trans [OF k2 fs_keeps(7) [OF 3 ne]]
  note k4 = keeps_trans [OF k3 fs_keeps(1) [OF 4]]
  show "keeps target d d'"
    using run 1 2 3 4 k1 k2 k3 k4 by (cases r1; cases r2; cases r3) (auto simp: stage_steps fs_err_def fs_then_def)
next
  fix d u d'
  assume run: "stage d = (Ok u, d')"
  obtain r1 d1 where 1: "fs_create_truncate temporary mode d = (r1, d1)" by fastforce
  obtain r2 d2 where 2: "fs_write_all temporary body d1 = (r2, d2)" by fastforce
  obtain r3 d3 where 3: "fs_write_all temporary [CHR 0x0A] d2 = (r3, d3)" by fastforce
  from run 1 2 3 have ok: "r1 = Ok ()" "r2 = Ok ()" "r3 = Ok ()" "dk_files d' = dk_files d3"
    by (cases r1; cases r2; cases r3; auto simp: stage_steps fs_err_def fs_then_def dest: fs_sync_ok)+
  from fs_create_truncate_ok [OF 1 [unfolded ok(1)]] obtain m where
    "dk_files d1 temporary = Some \<lparr>st_content = [], st_mode = m\<rparr>" by auto
  from fs_write_all_ok [OF 2 [unfolded ok(2)] this] have
    "dk_files d2 temporary = Some \<lparr>st_content = body, st_mode = m\<rparr>" by simp
  from fs_write_all_ok [OF 3 [unfolded ok(3)] this] show
    "\<exists>m. dk_files d' temporary = Some \<lparr>st_content = body @ [CHR 0x0A], st_mode = m\<rparr>" using ok(4) by simp
qed

end
