(* ===== verification/Terminal_Auth.thy ===== *)
theory Terminal_Auth
  imports Staged_File
begin

text \<open>
  Terminal sign-in (\<^verbatim>\<open>crates/abyss-terminal-auth/src\<close>): the PKCE material (\<^verbatim>\<open>pkce.rs\<close>), the polling loop (\<^verbatim>\<open>polling.rs\<close>), the
  endpoints (\<^verbatim>\<open>client.rs\<close>) and the credential file (\<^verbatim>\<open>credentials.rs\<close>). SHA-256, base64, random bytes, \<^verbatim>\<open>serde_json\<close> and the
  control plane's answers are parameters. Instants are milliseconds; \<^verbatim>\<open>Instant\<close>'s range ends at \<open>cp_last_instant\<close>.
\<close>

section \<open>Data\<close>

datatype terminal_auth_error =
    InvalidControlPlaneUrl bytes string
  | ControlPlaneRequest string
  | ControlPlaneStatus nat bytes
  | AuthFilesystem bytes io_kind
  | MissingCredential
  | InvalidCredential
  | CredentialEncoding
  | InvalidCredentialStoreName bytes
  | TerminalLoginTimeout u64
  | InvalidTimeout
  | MissingHomeDirectory

record authenticated_user =
  au_id :: bytes
  au_email :: bytes
  au_name :: "bytes option"
  au_roles :: "bytes list"

record native_session =
  ns_token :: bytes
  ns_expires_at :: int
  ns_user :: authenticated_user

record terminal_start_request =
  sq_state :: bytes
  sq_code_challenge :: bytes

record terminal_start_response =
  sp_attempt_id :: bytes
  sp_poll_token :: bytes
  sp_verification_url :: bytes
  sp_expires_at :: int
  sp_poll_interval_seconds :: u64

record terminal_poll_request =
  pq_attempt_id :: bytes
  pq_poll_token :: bytes

record terminal_exchange_request =
  xq_attempt_id :: bytes
  xq_poll_token :: bytes
  xq_state :: bytes
  xq_code_verifier :: bytes

datatype terminal_poll_response = PollPending | PollCompleted

section \<open>PKCE\<close>

record login_material =
  lm_state :: bytes
  lm_code_verifier :: bytes
  lm_code_challenge :: bytes

record auth_libs =
  al_base64_url :: "bytes \<Rightarrow> bytes"
  al_sha256 :: "bytes \<Rightarrow> bytes"

definition code_challenge_for_verifier :: "auth_libs \<Rightarrow> bytes \<Rightarrow> bytes" where
  "code_challenge_for_verifier libs verifier = al_base64_url libs (al_sha256 libs verifier)"

text \<open>The two arguments are the random bytes drawn for the state and for the verifier.\<close>

definition generate_material :: "auth_libs \<Rightarrow> bytes \<Rightarrow> bytes \<Rightarrow> login_material" where
  "generate_material libs state_bytes verifier_bytes =
     (let verifier = al_base64_url libs verifier_bytes in
      \<lparr>lm_state = al_base64_url libs state_bytes, lm_code_verifier = verifier,
       lm_code_challenge = code_challenge_for_verifier libs verifier\<rparr>)"

section \<open>Signing in\<close>

text \<open>
  The control plane as the client meets it: its answers, the time its \<open>n\<close>-th poll takes and by how much the \<open>n\<close>-th sleep is
  longer than asked for.
\<close>

record control_plane =
  cp_start :: "terminal_start_request \<Rightarrow> (terminal_auth_error, terminal_start_response) result"
  cp_poll :: "nat \<Rightarrow> terminal_poll_request \<Rightarrow> (terminal_auth_error, terminal_poll_response) result"
  cp_poll_time :: "nat \<Rightarrow> nat"
  cp_exchange :: "terminal_exchange_request \<Rightarrow> (terminal_auth_error, native_session) result"
  cp_oversleep :: "nat \<Rightarrow> nat"
  cp_last_instant :: nat

datatype auth_call =
    CallStart terminal_start_request
  | CallPoll terminal_poll_request
  | CallExchange terminal_exchange_request

definition MIN_POLL_INTERVAL_SECONDS :: u64 where
  "MIN_POLL_INTERVAL_SECONDS = 1"

record login_options =
  lo_timeout_seconds :: u64
  lo_poll_interval_seconds :: "u64 option"

record login_attempt =
  la_start :: terminal_start_response
  la_material :: login_material

definition attempt_start ::
  "auth_libs \<Rightarrow> bytes \<Rightarrow> bytes \<Rightarrow> control_plane
   \<Rightarrow> (terminal_auth_error, login_attempt) result \<times> auth_call list" where
  "attempt_start libs state_bytes verifier_bytes cp =
     (let m = generate_material libs state_bytes verifier_bytes;
          request = \<lparr>sq_state = lm_state m, sq_code_challenge = lm_code_challenge m\<rparr>
      in (map_sum id (\<lambda>s. \<lparr>la_start = s, la_material = m\<rparr>) (cp_start cp request), [CallStart request]))"

definition poll_request :: "login_attempt \<Rightarrow> terminal_poll_request" where
  "poll_request a = \<lparr>pq_attempt_id = sp_attempt_id (la_start a), pq_poll_token = sp_poll_token (la_start a)\<rparr>"

definition exchange_request :: "login_attempt \<Rightarrow> terminal_exchange_request" where
  "exchange_request a =
     \<lparr>xq_attempt_id = sp_attempt_id (la_start a), xq_poll_token = sp_poll_token (la_start a),
      xq_state = lm_state (la_material a), xq_code_verifier = lm_code_verifier (la_material a)\<rparr>"

text \<open>The interval the loop sleeps for, in seconds.\<close>

definition poll_interval :: "login_attempt \<Rightarrow> login_options \<Rightarrow> nat" where
  "poll_interval a options =
     unat (max (case lo_poll_interval_seconds options of Some s \<Rightarrow> s | None \<Rightarrow> sp_poll_interval_seconds (la_start a))
       MIN_POLL_INTERVAL_SECONDS)"

lemma poll_interval_pos: "1 \<le> poll_interval a options"
proof -
  have "unat (1 :: u64) \<le> unat (max x 1)" for x :: u64 by (metis max.cobounded2 word_le_nat_alt)
  then show ?thesis by (simp add: poll_interval_def MIN_POLL_INTERVAL_SECONDS_def)
qed

text \<open>The loop: it ends because every turn that does not answer sleeps, and the deadline stays.\<close>

function poll_loop ::
  "control_plane \<Rightarrow> login_attempt \<Rightarrow> login_options \<Rightarrow> nat \<Rightarrow> nat \<Rightarrow> nat
   \<Rightarrow> (terminal_auth_error, native_session) result \<times> auth_call list \<times> nat" where
  "poll_loop cp a options deadline n now =
     (let now' = now + cp_poll_time cp n; call = CallPoll (poll_request a) in
      case cp_poll cp n (poll_request a) of
        Err e \<Rightarrow> (Err e, [call], now')
      | Ok PollCompleted \<Rightarrow> (cp_exchange cp (exchange_request a), [call, CallExchange (exchange_request a)], now')
      | Ok PollPending \<Rightarrow>
          if deadline \<le> now' then (Err (TerminalLoginTimeout (lo_timeout_seconds options)), [call], now')
          else
            (case poll_loop cp a options deadline (Suc n) (now' + 1000 * poll_interval a options + cp_oversleep cp n) of
               (res, calls, t) \<Rightarrow> (res, call # calls, t)))"
  by pat_completeness auto
termination
proof (relation "measure (\<lambda>(cp, a, options, deadline, n, now). deadline - now)")
qed (use poll_interval_pos in \<open>auto simp: diff_less_mono2 Suc_le_eq intro!: diff_less_mono2\<close>)

declare poll_loop.simps [simp del]

definition poll_until_authenticated ::
  "control_plane \<Rightarrow> login_attempt \<Rightarrow> login_options \<Rightarrow> nat
   \<Rightarrow> (terminal_auth_error, native_session) result \<times> auth_call list \<times> nat" where
  "poll_until_authenticated cp a options now =
     (if lo_timeout_seconds options = 0 then (Err InvalidTimeout, [], now)
      else
        (let deadline = now + 1000 * unat (lo_timeout_seconds options) in
         if cp_last_instant cp < deadline then (Err InvalidTimeout, [], now)
         else poll_loop cp a options deadline 0 now))"

text \<open>Starting an attempt and polling it to its end, as the command line does.\<close>

definition sign_in ::
  "auth_libs \<Rightarrow> bytes \<Rightarrow> bytes \<Rightarrow> control_plane \<Rightarrow> login_options \<Rightarrow> nat
   \<Rightarrow> (terminal_auth_error, native_session) result \<times> auth_call list" where
  "sign_in libs state_bytes verifier_bytes cp options now =
     (case attempt_start libs state_bytes verifier_bytes cp of
        (Err e, calls) \<Rightarrow> (Err e, calls)
      | (Ok a, calls) \<Rightarrow>
          (case poll_until_authenticated cp a options now of (res, more_calls, t) \<Rightarrow> (res, calls @ more_calls)))"

text \<open>An endpoint of the control plane.\<close>

definition endpoint_url :: "(bytes \<Rightarrow> 'u option) \<Rightarrow> bytes \<Rightarrow> bytes \<Rightarrow> (terminal_auth_error, 'u) result" where
  "endpoint_url url_parse control_plane path =
     (let candidate = rev (dropWhile (\<lambda>c. c = CHR ''/'') (rev control_plane)) @ ''/'' @ dropWhile (\<lambda>c. c = CHR ''/'') path in
      case url_parse candidate of None \<Rightarrow> Err (InvalidControlPlaneUrl candidate ''parse'') | Some url \<Rightarrow> Ok url)"

definition client_paths :: "bytes list" where
  "client_paths =
     [''auth/terminal/start'', ''auth/terminal/poll'', ''auth/terminal/exchange'', ''auth/native/me'', ''auth/native/logout'']"

text \<open>The client's URLs, in this order; the first that does not parse is the error.\<close>

fun endpoint_urls :: "(bytes \<Rightarrow> 'u option) \<Rightarrow> bytes \<Rightarrow> bytes list \<Rightarrow> (terminal_auth_error, 'u list) result" where
  "endpoint_urls url_parse control_plane [] = Ok []"
| "endpoint_urls url_parse control_plane (p # ps) =
     (case endpoint_url url_parse control_plane p of
        Err e \<Rightarrow> Err e
      | Ok url \<Rightarrow> map_sum id (\<lambda>urls. url # urls) (endpoint_urls url_parse control_plane ps))"

definition client_new :: "(bytes \<Rightarrow> 'u option) \<Rightarrow> bytes \<Rightarrow> (terminal_auth_error, 'u list) result" where
  "client_new url_parse control_plane = endpoint_urls url_parse control_plane client_paths"

section \<open>The credential file\<close>

record credential_file =
  cf_version :: nat
  cf_control_plane :: bytes
  cf_token :: bytes
  cf_expires_at :: int
  cf_user :: authenticated_user

definition from_session :: "bytes \<Rightarrow> native_session \<Rightarrow> credential_file" where
  "from_session control_plane s =
     \<lparr>cf_version = 1, cf_control_plane = control_plane, cf_token = ns_token s, cf_expires_at = ns_expires_at s, cf_user = ns_user s\<rparr>"

text \<open>\<^verbatim>\<open>serde_json\<close> on the credential file, and the process id in the temporary name.\<close>

record credential_libs =
  cl_to_vec :: "credential_file \<Rightarrow> bytes option"
  cl_from_str :: "bytes \<Rightarrow> credential_file option"
  cl_pid :: nat

text \<open>\<^verbatim>\<open>u8::is_ascii_control\<close>.\<close>

definition is_ascii_control :: "byte \<Rightarrow> bool" where
  "is_ascii_control c \<longleftrightarrow> code c < 32 \<or> code c = 127"

definition validated_state_dir_component :: "bytes \<Rightarrow> (terminal_auth_error, bytes) result" where
  "validated_state_dir_component value =
     (if value = [] \<or> list_ex (\<lambda>b. is_ascii_control b \<or> is_ascii_whitespace b) value
         \<or> list_ex (\<lambda>b. b = CHR ''/'' \<or> b = CHR 0x5C) value
      then Err (InvalidCredentialStoreName value) else Ok value)"

text \<open>The macOS directory; \<open>env\<close> looks up environment variables.\<close>

definition home_dir :: "(bytes \<Rightarrow> bytes option) \<Rightarrow> (terminal_auth_error, bytes) result" where
  "home_dir env = (case env ''HOME'' of None \<Rightarrow> Err MissingHomeDirectory | Some h \<Rightarrow> Ok h)"

definition default_state_dir :: "(bytes \<Rightarrow> bytes option) \<Rightarrow> bytes \<Rightarrow> (terminal_auth_error, bytes) result" where
  "default_state_dir env app_name =
     map_sum id (\<lambda>home. path_join (path_join (path_join (path_join home ''Library'') ''Application Support'') ''Abyss'') app_name)
       (home_dir env)"

definition default_credential_file ::
  "(bytes \<Rightarrow> bytes option) \<Rightarrow> bytes \<Rightarrow> bytes \<Rightarrow> (terminal_auth_error, bytes) result" where
  "default_credential_file env app_name env_override =
     (case validated_state_dir_component app_name of
        Err e \<Rightarrow> Err e
      | Ok name \<Rightarrow>
          (case env env_override of
             Some path \<Rightarrow> if utf8_valid path then Ok path
               else map_sum id (\<lambda>dir. path_join dir ''credentials.json'') (default_state_dir env name)
           | None \<Rightarrow> map_sum id (\<lambda>dir. path_join dir ''credentials.json'') (default_state_dir env name)))"

definition store_for_app ::
  "(bytes \<Rightarrow> bytes option) \<Rightarrow> bytes option \<Rightarrow> bytes \<Rightarrow> bytes \<Rightarrow> (terminal_auth_error, bytes) result" where
  "store_for_app env path_override app_name env_override =
     (case path_override of Some path \<Rightarrow> Ok path | None \<Rightarrow> default_credential_file env app_name env_override)"

definition credential_temporary :: "credential_libs \<Rightarrow> bytes \<Rightarrow> bytes" where
  "credential_temporary libs path = with_extension path (''tmp.'' @ show_nat (cl_pid libs))"

text \<open>Creating, writing and syncing the temporary file.\<close>

definition stage_private ::
  "bytes \<Rightarrow> bytes \<Rightarrow> disk \<Rightarrow> (terminal_auth_error, unit) result \<times> disk" where
  "stage_private temporary bs d =
     fs_then (fs_err (AuthFilesystem temporary) (fs_create_truncate temporary PRIVATE_MODE d)) (\<lambda>d.
     fs_then (fs_err (AuthFilesystem temporary) (fs_write_all temporary bs d)) (\<lambda>d.
     fs_then (fs_err (AuthFilesystem temporary) (fs_write_all temporary [CHR 0x0A] d)) (\<lambda>d.
       fs_err (AuthFilesystem temporary) (fs_sync d))))"

definition write_private_json ::
  "credential_libs \<Rightarrow> bytes \<Rightarrow> credential_file \<Rightarrow> disk \<Rightarrow> (terminal_auth_error, unit) result \<times> disk" where
  "write_private_json libs path c d =
     (case cl_to_vec libs c of
        None \<Rightarrow> (Err CredentialEncoding, d)
      | Some bs \<Rightarrow>
          fs_then (stage_private (credential_temporary libs path) bs d) (\<lambda>d.
            case fs_rename (credential_temporary libs path) path d of
              (Err k, d') \<Rightarrow> (Err (AuthFilesystem path k), snd (fs_remove_file (credential_temporary libs path) d'))
            | (Ok _, d') \<Rightarrow> fs_err (AuthFilesystem path) (fs_set_permissions path PRIVATE_MODE d')))"

definition store_write ::
  "credential_libs \<Rightarrow> bytes \<Rightarrow> credential_file \<Rightarrow> disk \<Rightarrow> (terminal_auth_error, unit) result \<times> disk" where
  "store_write libs path c d =
     (case path_parent path of
        None \<Rightarrow> (Err (AuthFilesystem path InvalidInput), d)
      | Some parent \<Rightarrow> fs_then (fs_err (AuthFilesystem parent) (fs_sync d)) (write_private_json libs path c))"

definition store_read ::
  "credential_libs \<Rightarrow> bytes \<Rightarrow> disk \<Rightarrow> (terminal_auth_error, credential_file) result \<times> disk" where
  "store_read libs path d =
     (case fs_read path d of
        (Err k, d') \<Rightarrow> (Err (if k = NotFound then MissingCredential else AuthFilesystem path k), d')
      | (Ok bs, d') \<Rightarrow>
          (if \<not> utf8_valid bs then Err (AuthFilesystem path InvalidData)
           else (case cl_from_str libs bs of None \<Rightarrow> Err InvalidCredential | Some c \<Rightarrow> Ok c), d'))"

definition store_remove :: "bytes \<Rightarrow> disk \<Rightarrow> (terminal_auth_error, unit) result \<times> disk" where
  "store_remove path d =
     (case fs_remove_file path d of
        (Ok _, d') \<Rightarrow> (Ok (), d')
      | (Err k, d') \<Rightarrow> (if k = NotFound then Ok () else Err (AuthFilesystem path k), d'))"

section \<open>How long signing in takes and what it says\<close>

fun is_poll :: "auth_call \<Rightarrow> bool" where
  "is_poll (CallPoll q) = True"
| "is_poll _ = False"

text \<open>A turn that is not the last one uses up at least one interval of the time left.\<close>

lemma poll_loop_count:
  "poll_loop cp a options deadline n now = (res, calls, t) \<Longrightarrow>
     length (filter is_poll calls) \<le> (deadline - 1 - now) div (1000 * poll_interval a options) + 2"
proof (induction cp a options deadline n now arbitrary: res calls t rule: poll_loop.induct)
  case (1 cp a options deadline n now)
  let ?now = "now + cp_poll_time cp n" and ?step = "1000 * poll_interval a options"
  let ?next = "?now + ?step + cp_oversleep cp n"
  show ?case
  proof (cases "cp_poll cp n (poll_request a) = Ok PollPending \<and> \<not> deadline \<le> ?now")
    case True
    obtain res' calls' t' where rec: "poll_loop cp a options deadline (Suc n) ?next = (res', calls', t')" by (metis prod_cases3)
    have calls: "calls = CallPoll (poll_request a) # calls'"
      using "1.prems" True rec by (subst (asm) poll_loop.simps) (auto simp: Let_def)
    have len: "length (filter is_poll calls') \<le> (deadline - 1 - ?next) div ?step + 2"
      using "1.IH" [OF refl refl _ _ _ rec] True by auto
    have pos: "0 < ?step" using poll_interval_pos [of a options] by simp
    show ?thesis
    proof (cases "?step \<le> deadline - 1 - now")
      case True
      have "(deadline - 1 - ?next) div ?step \<le> (deadline - 1 - now - ?step) div ?step" by (intro div_le_mono) simp
      also have "\<dots> + 1 = (deadline - 1 - now) div ?step" using True pos by (simp add: le_div_geq)
      finally show ?thesis using len calls by simp
    next
      case False
      then have "deadline \<le> ?next" by simp
      then have "length calls' = 1 \<or> length (filter is_poll calls') \<le> 1"
        using rec by (subst (asm) poll_loop.simps) (auto simp: Let_def split: sum.splits terminal_poll_response.splits if_splits)
      then have "length (filter is_poll calls') \<le> 1" by (metis filter_eq_length_le le_trans order_refl)
      then show ?thesis using calls by simp
    qed
  next
    case False
    then show ?thesis using "1.prems"
      by (subst (asm) poll_loop.simps) (auto simp: Let_def split: sum.splits terminal_poll_response.splits if_splits)
  qed
qed

text \<open>The calls of the loop: polls of this attempt, and at the end the exchange if a poll said so.\<close>

lemma poll_loop_calls:
  "poll_loop cp a options deadline n now = (res, calls, t) \<Longrightarrow>
     \<exists>k. list_all (\<lambda>i. cp_poll cp i (poll_request a) = Ok PollPending) [n..<n + k]
       \<and> calls = replicate (Suc k) (CallPoll (poll_request a))
         @ (if cp_poll cp (n + k) (poll_request a) = Ok PollCompleted then [CallExchange (exchange_request a)] else [])
       \<and> (if cp_poll cp (n + k) (poll_request a) = Ok PollCompleted then res = cp_exchange cp (exchange_request a)
          else \<exists>e. res = Err e)"
proof (induction cp a options deadline n now arbitrary: res calls t rule: poll_loop.induct)
  case (1 cp a options deadline n now)
  let ?now = "now + cp_poll_time cp n"
  let ?next = "?now + 1000 * poll_interval a options + cp_oversleep cp n"
  show ?case
  proof (cases "cp_poll cp n (poll_request a) = Ok PollPending \<and> \<not> deadline \<le> ?now")
    case True
    obtain res' calls' t' where rec: "poll_loop cp a options deadline (Suc n) ?next = (res', calls', t')" by (metis prod_cases3)
    have calls: "calls = CallPoll (poll_request a) # calls'" "res = res'"
      using "1.prems" True rec by (subst (asm) poll_loop.simps, auto simp: Let_def)+
    from "1.IH" [OF refl refl _ _ _ rec] True obtain k where
      "list_all (\<lambda>i. cp_poll cp i (poll_request a) = Ok PollPending) [Suc n..<Suc n + k]"
      "calls' = replicate (Suc k) (CallPoll (poll_request a))
         @ (if cp_poll cp (Suc n + k) (poll_request a) = Ok PollCompleted then [CallExchange (exchange_request a)] else [])"
      "if cp_poll cp (Suc n + k) (poll_request a) = Ok PollCompleted then res' = cp_exchange cp (exchange_request a)
       else \<exists>e. res' = Err e" by auto
    moreover have "[n..<n + Suc k] = n # [Suc n..<Suc n + k]" by (simp add: upt_rec)
    ultimately show ?thesis using calls True by (intro exI [of _ "Suc k"]) (simp split: if_splits)
  next
    case False
    then show ?thesis using "1.prems"
      by (intro exI [of _ 0], subst (asm) poll_loop.simps)
        (auto simp: Let_def split: sum.splits terminal_poll_response.splits if_splits)
  qed
qed

section \<open>The credential file is replaced as a whole\<close>

interpretation credential_stage: newline_stage "stage_private temporary bs" temporary bs PRIVATE_MODE
  "AuthFilesystem temporary" "AuthFilesystem temporary" "AuthFilesystem temporary" "AuthFilesystem temporary" for temporary bs
  by unfold_locales (rule stage_private_def)

text \<open>The file holds one of two contents; its mode may change on the way.\<close>

definition content_old_or_new :: "bytes \<Rightarrow> bytes \<Rightarrow> disk \<Rightarrow> disk \<Rightarrow> bool" where
  "content_old_or_new path bs d d' \<longleftrightarrow>
     disk_through (\<lambda>g. g path = dk_files d path \<or> (case g path of None \<Rightarrow> False | Some f \<Rightarrow> st_content f = bs)) d d'"

lemma set_permissions_content:
  assumes "fs_set_permissions path mode d = (res, d')" and "dk_files d path = Some \<lparr>st_content = bs, st_mode = m\<rparr>"
  shows "disk_through (\<lambda>g. case g path of None \<Rightarrow> False | Some f \<Rightarrow> st_content f = bs) d d'
    \<and> (case res of Ok u \<Rightarrow> dk_files d' path = Some \<lparr>st_content = bs, st_mode = mode\<rparr> | Err k \<Rightarrow> True)"
proof -
  obtain x d1 where n: "next_fault d = (x, d1)" by fastforce
  from next_fault_through [OF n] assms n show ?thesis
    by (auto simp: fs_set_permissions_def disk_goes_def disk_through_def split: fs_fault.splits)
qed

lemma write_private_spec:
  assumes ne: "credential_temporary libs path \<noteq> path" and run: "write_private_json libs path c d = (res, d')"
  shows "case res of
      Ok u \<Rightarrow> \<exists>bs. cl_to_vec libs c = Some bs
        \<and> dk_files d' path = Some \<lparr>st_content = bs @ [CHR 0x0A], st_mode = PRIVATE_MODE\<rparr>
        \<and> content_old_or_new path (bs @ [CHR 0x0A]) d d'
    | Err e \<Rightarrow> (case cl_to_vec libs c of None \<Rightarrow> d' = d | Some bs \<Rightarrow> content_old_or_new path (bs @ [CHR 0x0A]) d d')"
proof (cases "cl_to_vec libs c")
  case None
  with run show ?thesis by (auto simp: write_private_json_def)
next
  case (Some bs)
  let ?t = "credential_temporary libs path" and ?bs = "bs @ [CHR 0x0A]"
  obtain r1 d1 where 1: "stage_private ?t bs d = (r1, d1)" by fastforce
  obtain r2 d2 where 2: "fs_rename ?t path d1 = (r2, d2)" by fastforce
  obtain r3 d3 where 3: "fs_set_permissions path PRIVATE_MODE d2 = (r3, d3)" by fastforce
  obtain r4 d4 where 4: "fs_remove_file ?t d2 = (r4, d4)" by fastforce
  have old: "content_old_or_new path ?bs d e" if "keeps path d e" for e
    using keeps_through [OF that, of "\<lambda>x. x = dk_files d path \<or> (case x of None \<Rightarrow> False | Some f \<Rightarrow> st_content f = ?bs)"]
    by (simp add: content_old_or_new_def)
  have failed: "content_old_or_new path ?bs d d4" if "r2 = Err k" for k
    using credential_stage.install_failed [OF ne 1] 2 that fs_keeps(9) [OF 4 ne] by (blast intro: old keeps_trans)
  have installed: "content_old_or_new path ?bs d d3
      \<and> (case r3 of Ok u \<Rightarrow> dk_files d3 path = Some \<lparr>st_content = ?bs, st_mode = PRIVATE_MODE\<rparr> | Err k \<Rightarrow> True)"
    if ok: "r1 = Ok u1" "r2 = Ok u2" for u1 u2
  proof -
    from credential_stage.install_ok [OF ne 1 [unfolded ok] 2 [unfolded ok]] obtain m where
      m: "dk_files d2 path = Some \<lparr>st_content = ?bs, st_mode = m\<rparr>" "old_or_new path d d2" by blast
    have "content_old_or_new path ?bs d d2"
      using m(2) unfolding old_or_new_def content_old_or_new_def by (rule disk_through_mono) (auto simp: m(1))
    with set_permissions_content [OF 3 m(1)] show ?thesis
      by (auto simp: content_old_or_new_def intro: disk_through_trans disk_through_mono)
  qed
  show ?thesis
    using run Some 1 2 3 4 failed installed old [OF credential_stage.stage_keeps [OF 1 ne]]
    by (cases r1; cases r2; cases r3) (auto simp: write_private_json_def fs_then_def fs_err_def)
qed

text \<open>What \<^verbatim>\<open>serde_json\<close> promises of a credential it has written, with the newline behind it: it is read back.\<close>

definition credential_laws :: "credential_libs \<Rightarrow> bool" where
  "credential_laws libs \<longleftrightarrow>
     (\<forall>c bs. cl_to_vec libs c = Some bs \<longrightarrow> utf8_valid (bs @ [CHR 0x0A]) \<and> cl_from_str libs (bs @ [CHR 0x0A]) = Some c)"

definition holds_credential :: "credential_libs \<Rightarrow> bytes \<Rightarrow> credential_file \<Rightarrow> files \<Rightarrow> bool" where
  "holds_credential libs path c files \<longleftrightarrow>
     (case files path of None \<Rightarrow> False | Some f \<Rightarrow> utf8_valid (st_content f) \<and> cl_from_str libs (st_content f) = Some c)"

lemma store_read_held:
  assumes "holds_credential libs path c (dk_files d)" and "dk_faults d = []"
  shows "store_read libs path d = (Ok c, d)"
  using assms by (auto simp: holds_credential_def store_read_def fs_read_def next_fault_def split: option.splits)

lemma store_write_spec:
  assumes laws: "credential_laws libs" and name: "path_file_name path = Some name" and run: "store_write libs path c d = (res, d')"
  shows "disk_through (\<lambda>g. g path = dk_files d path \<or> holds_credential libs path c g) d d'
    \<and> (case res of
         Err e \<Rightarrow> True
       | Ok u \<Rightarrow> holds_credential libs path c (dk_files d')
           \<and> (case dk_files d' path of None \<Rightarrow> False | Some f \<Rightarrow> st_mode f = PRIVATE_MODE))"
proof (cases "path_parent path")
  case None
  with run show ?thesis by (auto simp: store_write_def disk_through_refl)
next
  case (Some parent)
  let ?P = "\<lambda>g. g path = dk_files d path \<or> holds_credential libs path c g"
  have ne: "credential_temporary libs path \<noteq> path"
    using temporary_extension_ne [OF name Some] by (simp add: credential_temporary_def)
  obtain r1 d1 where s: "fs_sync d = (r1, d1)" by fastforce
  note k = fs_keeps(1) [OF s, of path]
  have through: "disk_through ?P d e" if "content_old_or_new path (bs @ [CHR 0x0A]) d1 e" "cl_to_vec libs c = Some bs" for bs e
  proof -
    have "disk_through ?P d1 e"
      using that(1) unfolding content_old_or_new_def
    proof (rule disk_through_mono)
      fix g assume "g path = dk_files d1 path \<or> (case g path of None \<Rightarrow> False | Some f \<Rightarrow> st_content f = bs @ [CHR 0x0A])"
      with laws that(2) keeps_same [OF k] show "?P g"
        by (auto simp: holds_credential_def credential_laws_def split: option.splits)
    qed
    moreover have "disk_through ?P d d1" using k unfolding keeps_def by (rule disk_through_mono) simp
    ultimately show ?thesis by (blast intro: disk_through_trans)
  qed
  have idle: "disk_through ?P d d1" using k unfolding keeps_def by (rule disk_through_mono) simp
  show ?thesis
  proof (cases r1)
    case (Inl e)
    with run s Some idle show ?thesis by (auto simp: store_write_def)
  next
    case (Inr u)
    with run s Some have w: "write_private_json libs path c d1 = (res, d')" by (simp add: store_write_def)
    note W = write_private_spec [OF ne w]
    show ?thesis
      using W through idle laws
      by (cases res; cases "cl_to_vec libs c") (auto simp: holds_credential_def credential_laws_def)
  qed
qed

section \<open>Properties\<close>

text \<open>
  C32. Signing in ends: whatever the control plane answers, however long its answers take and however short the interval it
  asks for, an attempt polls at most once per interval within its timeout, and twice more, before it answers or gives up.
\<close>

theorem sign_in_terminates:
  "case poll_until_authenticated cp a options now of
     (res, calls, t) \<Rightarrow>
       length (filter is_poll calls) \<le> (unat (lo_timeout_seconds options) - 1) div poll_interval a options + 2"
proof -
  let ?T = "unat (lo_timeout_seconds options)"
  obtain res calls t where run: "poll_until_authenticated cp a options now = (res, calls, t)" by (metis prod_cases3)
  show ?thesis
  proof (cases "calls = []")
    case False
    with run have pos: "lo_timeout_seconds options \<noteq> 0" and
      loop: "poll_loop cp a options (now + 1000 * ?T) 0 now = (res, calls, t)"
      by (auto simp: poll_until_authenticated_def Let_def split: if_splits)
    from pos have "0 < ?T" by (simp add: unat_gt_0)
    then have "(1000 * ?T - 1) div 1000 = ?T - 1" by (cases ?T) simp_all
    moreover have "now + 1000 * ?T - 1 - now = 1000 * ?T - 1" by simp
    ultimately show ?thesis using poll_loop_count [OF loop] run by (simp only: div_mult2_eq) simp
  qed (use run in simp)
qed

text \<open>
  C33. What a sign-in says. The control plane is first told the state and the challenge of the verifier that was just drawn. If
  it refuses, nothing more is said. Otherwise every poll holds the attempt's id and the poll token of this answer and nothing
  else; each poll but the last was answered with pending; and there is an exchange exactly if the last poll was answered with
  completed. The exchange is the only call with the verifier, it is the last call, and its answer is the result; without it
  the sign-in fails.
\<close>

theorem sign_in_protocol:
  "let state = al_base64_url libs state_bytes;
       verifier = al_base64_url libs verifier_bytes;
       start = \<lparr>sq_state = state, sq_code_challenge = al_base64_url libs (al_sha256 libs verifier)\<rparr> in
   case sign_in libs state_bytes verifier_bytes cp options now of
     (res, calls) \<Rightarrow>
       (case cp_start cp start of
          Err e \<Rightarrow> res = Err e \<and> calls = [CallStart start]
        | Ok answer \<Rightarrow>
            (let poll = \<lparr>pq_attempt_id = sp_attempt_id answer, pq_poll_token = sp_poll_token answer\<rparr>;
                 exchange = \<lparr>xq_attempt_id = sp_attempt_id answer, xq_poll_token = sp_poll_token answer,
                   xq_state = state, xq_code_verifier = verifier\<rparr> in
             \<exists>k exchanged.
               calls = CallStart start # replicate k (CallPoll poll) @ (if exchanged then [CallExchange exchange] else [])
             \<and> list_all (\<lambda>i. cp_poll cp i poll = Ok PollPending) [0..<k - 1]
             \<and> exchanged = (0 < k \<and> cp_poll cp (k - 1) poll = Ok PollCompleted)
             \<and> (if exchanged then res = cp_exchange cp exchange else \<exists>e. res = Err e)))"
proof -
  let ?m = "generate_material libs state_bytes verifier_bytes"
  let ?q = "\<lparr>sq_state = al_base64_url libs state_bytes,
    sq_code_challenge = al_base64_url libs (al_sha256 libs (al_base64_url libs verifier_bytes))\<rparr>"
  have start: "attempt_start libs state_bytes verifier_bytes cp
      = (map_sum id (\<lambda>s. \<lparr>la_start = s, la_material = ?m\<rparr>) (cp_start cp ?q), [CallStart ?q])"
    by (simp add: attempt_start_def generate_material_def code_challenge_for_verifier_def Let_def)
  show ?thesis
  proof (cases "cp_start cp ?q")
    case (Inl e)
    with start show ?thesis by (simp add: sign_in_def Let_def)
  next
    case (Inr s)
    let ?a = "\<lparr>la_start = s, la_material = ?m\<rparr>"
    have requests: "poll_request ?a = \<lparr>pq_attempt_id = sp_attempt_id s, pq_poll_token = sp_poll_token s\<rparr>"
      "exchange_request ?a = \<lparr>xq_attempt_id = sp_attempt_id s, xq_poll_token = sp_poll_token s,
         xq_state = al_base64_url libs state_bytes, xq_code_verifier = al_base64_url libs verifier_bytes\<rparr>"
      by (simp_all add: poll_request_def exchange_request_def generate_material_def Let_def)
    obtain res calls t where p: "poll_until_authenticated cp ?a options now = (res, calls, t)" by (metis prod_cases3)
    have run: "sign_in libs state_bytes verifier_bytes cp options now = (res, CallStart ?q # calls)"
      using Inr p start by (simp add: sign_in_def)
    consider "calls = []" "res = Err InvalidTimeout" | deadline where "poll_loop cp ?a options deadline 0 now = (res, calls, t)"
      using p by (auto simp: poll_until_authenticated_def Let_def split: if_splits)
    then obtain k exchanged where
      "calls = replicate k (CallPoll (poll_request ?a)) @ (if exchanged then [CallExchange (exchange_request ?a)] else [])"
      "list_all (\<lambda>i. cp_poll cp i (poll_request ?a) = Ok PollPending) [0..<k - 1]"
      "exchanged = (0 < k \<and> cp_poll cp (k - 1) (poll_request ?a) = Ok PollCompleted)"
      "if exchanged then res = cp_exchange cp (exchange_request ?a) else \<exists>e. res = Err e"
    proof cases
      case 1
      then show ?thesis using that [of 0 False] by simp
    next
      case (2 deadline)
      from poll_loop_calls [OF 2] obtain k where k: "list_all (\<lambda>i. cp_poll cp i (poll_request ?a) = Ok PollPending) [0..<k]"
        "calls = replicate (Suc k) (CallPoll (poll_request ?a))
           @ (if cp_poll cp k (poll_request ?a) = Ok PollCompleted then [CallExchange (exchange_request ?a)] else [])"
        "if cp_poll cp k (poll_request ?a) = Ok PollCompleted then res = cp_exchange cp (exchange_request ?a) else \<exists>e. res = Err e"
        unfolding add_0 by blast
      show ?thesis
        by (rule that [of "Suc k" "cp_poll cp k (poll_request ?a) = Ok PollCompleted"]) (rule k(2), simp add: k(1), simp, rule k(3))
    qed
    then have "\<exists>k exchanged.
        calls = replicate k (CallPoll (poll_request ?a)) @ (if exchanged then [CallExchange (exchange_request ?a)] else [])
      \<and> list_all (\<lambda>i. cp_poll cp i (poll_request ?a) = Ok PollPending) [0..<k - 1]
      \<and> exchanged = (0 < k \<and> cp_poll cp (k - 1) (poll_request ?a) = Ok PollCompleted)
      \<and> (if exchanged then res = cp_exchange cp (exchange_request ?a) else \<exists>e. res = Err e)" by blast
    then show ?thesis unfolding requests by (simp only: Let_def run Inr sum.case prod.case list.inject simp_thms)
  qed
qed

text \<open>
  Storing a credential is all or nothing: in every state the disk goes through, also when a file operation fails or the
  process dies, the credential file is the one from before or reads back as the new credential; after a success it reads back
  as the new one and is private to its owner.
\<close>

theorem credential_stored_whole:
  assumes "credential_laws libs" and "path_file_name path = Some name" and "store_write libs path c d = (res, d')"
  shows "disk_through (\<lambda>g. g path = dk_files d path \<or> holds_credential libs path c g) d d'
    \<and> (case res of
         Err e \<Rightarrow> True
       | Ok u \<Rightarrow> store_read libs path (d'\<lparr>dk_faults := []\<rparr>) = (Ok c, d'\<lparr>dk_faults := []\<rparr>)
           \<and> (case dk_files d' path of None \<Rightarrow> False | Some f \<Rightarrow> st_mode f = PRIVATE_MODE))"
  using store_write_spec [OF assms] by (auto simp: store_read_held split: sum.splits)

definition demo_native_session :: native_session where
  "demo_native_session = \<lparr>ns_token = ''t'', ns_expires_at = 5,
     ns_user = \<lparr>au_id = ''u'', au_email = ''e'', au_name = None, au_roles = []\<rparr>\<rparr>"

definition demo_credential :: credential_file where
  "demo_credential = from_session ''https://d'' demo_native_session"

definition demo_credential_libs :: credential_libs where
  "demo_credential_libs =
     \<lparr>cl_to_vec = (\<lambda>c. if c = demo_credential then Some ''{}'' else None),
      cl_from_str = (\<lambda>bs. if bs = ''{}'' @ [CHR 0x0A] then Some demo_credential else None), cl_pid = 9\<rparr>"

lemma demo_credential_laws: "credential_laws demo_credential_libs"
proof -
  have "utf8_valid (''{}'' @ [CHR 0x0A])" by code_simp
  then show ?thesis by (auto simp: credential_laws_def demo_credential_libs_def split: if_splits)
qed

theorem credential_stored_whole_witness:
  "let d = \<lparr>dk_files = Map.empty, dk_faults = [], dk_trace = []\<rparr>;
       d' = snd (store_write demo_credential_libs ''/h/credentials.json'' demo_credential d) in
   store_read demo_credential_libs ''/h/credentials.json'' d' = (Ok demo_credential, d')"
proof -
  let ?d = "\<lparr>dk_files = Map.empty, dk_faults = [], dk_trace = []\<rparr>" and ?p = "''/h/credentials.json''"
  let ?r = "store_write demo_credential_libs ?p demo_credential ?d"
  have name: "path_file_name ?p = Some ''credentials.json''" by code_simp
  have run: "?r = (Ok (), snd ?r)"
  proof -
    have "fst ?r = Ok ()" by code_simp
    then show ?thesis by (cases ?r) simp
  qed
  have "dk_faults (snd ?r) = []" by code_simp
  then have same: "snd ?r\<lparr>dk_faults := []\<rparr> = snd ?r" by simp
  from credential_stored_whole [OF demo_credential_laws name run] same show ?thesis by (simp add: Let_def)
qed

end
