(* ===== verification/Delivery.thy ===== *)
theory Delivery
  imports Agent_Event File_System
begin

text \<open>
  The delivery plugin (\<^verbatim>\<open>crates/abyss-delivery-plugin/src\<close>): its credentials (\<^verbatim>\<open>authentication.rs\<close>), the upload of events with
  a spool for those that could not be delivered (\<^verbatim>\<open>uploader.rs\<close>), the worker's loop (\<^verbatim>\<open>main.rs\<close>) and the handlers of the
  control API (\<^verbatim>\<open>control.rs\<close>). A request is a value of type \<open>'q\<close> here; \<^verbatim>\<open>reqwest\<close> is a script of replies, URL parsing and
  \<^verbatim>\<open>serde_json\<close> are parameters.
\<close>

section \<open>Errors\<close>

datatype delivery_error =
    InvalidDeliveryEndpoint string
  | InvalidCredentialUpdate string
  | AuthenticationMutationUnsupported
  | AuthenticationUnavailable
  | ReadCredential bytes io_kind
  | Translate string
  | RequestFailed string
  | HttpStatus nat
  | ResponseUndecodable string
  | Rejected nat "bytes list"
  | SpoolError bytes string
  | PluginFailure string
  | StartupInfoFailure string

section \<open>Credentials\<close>

record delivery_authentication =
  da_authorization_header :: "bytes option"
  da_cookie_header :: "bytes option"

definition authentication_none :: delivery_authentication where
  "authentication_none = \<lparr>da_authorization_header = None, da_cookie_header = None\<rparr>"

definition from_bearer :: "bytes \<Rightarrow> delivery_authentication" where
  "from_bearer token = \<lparr>da_authorization_header = Some (''Bearer '' @ token), da_cookie_header = None\<rparr>"

datatype authentication_config = ConfigNone | ConfigAuthorizationHeaderFile bytes | ConfigCookieHeaderFile bytes | ConfigManagedBearer

datatype authentication_mode = ModeNone | ModeAuthorizationHeaderFile | ModeCookieHeaderFile | ModeManagedBearer

datatype authentication_state = NotRequired | Configured | CredentialMissing | AuthRequired

record authentication_manager =
  am_mode :: authentication_mode
  am_endpoint_origin :: bytes
  am_authentication :: delivery_authentication
  am_state :: authentication_state

text \<open>What the plugin uses of a parsed URL: its scheme and the text of its origin.\<close>

record parsed_url =
  pu_scheme :: bytes
  pu_origin :: bytes

definition http_origin :: "(bytes \<Rightarrow> parsed_url option) \<Rightarrow> bytes \<Rightarrow> (delivery_error, bytes) result" where
  "http_origin url_parse value =
     (case url_parse value of
        None \<Rightarrow> Err (InvalidDeliveryEndpoint ''parse'')
      | Some url \<Rightarrow>
          if pu_scheme url \<noteq> ''http'' \<and> pu_scheme url \<noteq> ''https''
          then Err (InvalidDeliveryEndpoint ''only http and https URLs are supported'')
          else if pu_origin url = ''null'' then Err (InvalidDeliveryEndpoint ''URL does not have a network origin'')
          else Ok (pu_origin url))"

definition read_credential :: "bytes \<Rightarrow> disk \<Rightarrow> (delivery_error, bytes) result \<times> disk" where
  "read_credential path d =
     (case fs_read path d of
        (Err k, d') \<Rightarrow> (Err (ReadCredential path k), d')
      | (Ok bs, d') \<Rightarrow> (if utf8_valid bs then Ok (str_trim bs) else Err (ReadCredential path InvalidData), d'))"

definition load_authentication :: "authentication_config \<Rightarrow> disk \<Rightarrow> (delivery_error, delivery_authentication) result \<times> disk" where
  "load_authentication config d =
     (case config of
        ConfigNone \<Rightarrow> (Ok authentication_none, d)
      | ConfigManagedBearer \<Rightarrow> (Ok authentication_none, d)
      | ConfigAuthorizationHeaderFile path \<Rightarrow>
          (case read_credential path d of
             (res, d') \<Rightarrow> (map_sum id (\<lambda>v. \<lparr>da_authorization_header = Some v, da_cookie_header = None\<rparr>) res, d'))
      | ConfigCookieHeaderFile path \<Rightarrow>
          (case read_credential path d of
             (res, d') \<Rightarrow> (map_sum id (\<lambda>v. \<lparr>da_authorization_header = None, da_cookie_header = Some v\<rparr>) res, d')))"

fun mode_of_config :: "authentication_config \<Rightarrow> authentication_mode" where
  "mode_of_config ConfigNone = ModeNone"
| "mode_of_config (ConfigAuthorizationHeaderFile path) = ModeAuthorizationHeaderFile"
| "mode_of_config (ConfigCookieHeaderFile path) = ModeCookieHeaderFile"
| "mode_of_config ConfigManagedBearer = ModeManagedBearer"

fun initial_state :: "authentication_config \<Rightarrow> authentication_state" where
  "initial_state ConfigNone = NotRequired"
| "initial_state (ConfigAuthorizationHeaderFile path) = Configured"
| "initial_state (ConfigCookieHeaderFile path) = Configured"
| "initial_state ConfigManagedBearer = CredentialMissing"

definition manager_load ::
  "(bytes \<Rightarrow> parsed_url option) \<Rightarrow> bytes \<Rightarrow> authentication_config \<Rightarrow> disk
   \<Rightarrow> (delivery_error, authentication_manager) result \<times> disk" where
  "manager_load url_parse endpoint config d =
     (case http_origin url_parse endpoint of
        Err e \<Rightarrow> (Err e, d)
      | Ok origin \<Rightarrow>
          (case load_authentication config d of
             (Err e, d') \<Rightarrow> (Err e, d')
           | (Ok a, d') \<Rightarrow>
               (Ok \<lparr>am_mode = mode_of_config config, am_endpoint_origin = origin, am_authentication = a,
                    am_state = initial_state config\<rparr>, d')))"

definition for_request :: "authentication_manager \<Rightarrow> delivery_authentication option" where
  "for_request m =
     (if am_mode m = ModeManagedBearer \<and> am_state m \<noteq> Configured then None else Some (am_authentication m))"

definition set_managed_bearer ::
  "(bytes \<Rightarrow> parsed_url option) \<Rightarrow> bytes \<Rightarrow> bytes \<Rightarrow> authentication_manager
   \<Rightarrow> (delivery_error, authentication_manager) result" where
  "set_managed_bearer url_parse token audience m =
     (if am_mode m \<noteq> ModeManagedBearer then Err AuthenticationMutationUnsupported
      else if str_trim token = [] then Err (InvalidCredentialUpdate ''bearer_token must not be empty'')
      else
        (case http_origin url_parse audience of
           Err e \<Rightarrow> Err e
         | Ok origin \<Rightarrow>
             if origin \<noteq> am_endpoint_origin m then Err (InvalidCredentialUpdate ''audience mismatch'')
             else Ok (m\<lparr>am_authentication := from_bearer (str_trim token), am_state := Configured\<rparr>)))"

definition clear_managed_bearer :: "authentication_manager \<Rightarrow> (delivery_error, authentication_manager) result" where
  "clear_managed_bearer m =
     (if am_mode m \<noteq> ModeManagedBearer then Err AuthenticationMutationUnsupported
      else Ok (m\<lparr>am_authentication := authentication_none, am_state := CredentialMissing\<rparr>))"

definition mark_unauthorized :: "authentication_manager \<Rightarrow> authentication_manager" where
  "mark_unauthorized m =
     (if am_mode m \<noteq> ModeManagedBearer then m
      else m\<lparr>am_authentication := authentication_none, am_state := AuthRequired\<rparr>)"

section \<open>Uploading\<close>

datatype post_reply =
    SendFails string
  | Replied nat "(nat \<times> bytes list) option"

text \<open>
  The plugin's world: credentials, disk, the replies of the destination still to come, what was sent with which
  credentials, and the answer each sent request got.
\<close>

record 'q delivery_world =
  dw_manager :: authentication_manager
  dw_disk :: disk
  dw_replies :: "post_reply list"
  dw_sent :: "(delivery_authentication \<times> 'q) list"
  dw_answers :: "('q \<times> post_reply) list"

record uploader =
  up_endpoint :: bytes
  up_spool_enabled :: bool
  up_spool_path :: bytes

record 'q spool_record =
  sr_reason :: string
  sr_request :: 'q

text \<open>\<^verbatim>\<open>serde_json\<close> on a line of the spool, and the text of an error.\<close>

record 'q spool_libs =
  sl_from_slice :: "bytes \<Rightarrow> 'q spool_record option"
  sl_to_vec :: "'q spool_record \<Rightarrow> bytes option"
  sl_error_text :: "delivery_error \<Rightarrow> string"
  sl_pid :: nat
  sl_mode :: nat

definition status_success :: "nat \<Rightarrow> bool" where
  "status_success status \<longleftrightarrow> 200 \<le> status \<and> status < 300"

text \<open>A request on the wire and the destination's answer to it.\<close>

definition send_request :: "delivery_authentication \<Rightarrow> 'q \<Rightarrow> 'q delivery_world \<Rightarrow> post_reply \<times> 'q delivery_world" where
  "send_request a q w =
     (case (case dw_replies w of [] \<Rightarrow> (SendFails ''no route'', []) | r # rs \<Rightarrow> (r, rs)) of
        (r, rs) \<Rightarrow>
          (r, w\<lparr>dw_replies := rs, dw_sent := dw_sent w @ [(a, q)], dw_answers := dw_answers w @ [(q, r)]\<rparr>))"

definition post :: "'q \<Rightarrow> 'q delivery_world \<Rightarrow> (delivery_error, unit) result \<times> 'q delivery_world" where
  "post q w =
     (case for_request (dw_manager w) of
        None \<Rightarrow> (Err AuthenticationUnavailable, w)
      | Some a \<Rightarrow>
          (case send_request a q w of
             (SendFails e, w') \<Rightarrow> (Err (RequestFailed e), w')
           | (Replied status body, w') \<Rightarrow>
               (let w'' = (if status = 401 then w'\<lparr>dw_manager := mark_unauthorized (dw_manager w')\<rparr> else w') in
                if \<not> status_success status then (Err (HttpStatus status), w'')
                else
                  (case body of
                     None \<Rightarrow> (Err (ResponseUndecodable ''json''), w'')
                   | Some (rejected, errors) \<Rightarrow>
                       if 0 < rejected \<or> errors \<noteq> [] then (Err (Rejected rejected errors), w'')
                       else (Ok (), w'')))))"

text \<open>A file operation of the plugin: its failure is a spool error.\<close>

definition spool_io ::
  "uploader \<Rightarrow> (disk \<Rightarrow> (io_kind, 'a) result \<times> disk) \<Rightarrow> disk \<Rightarrow> (delivery_error, 'a) result \<times> disk" where
  "spool_io up f d = fs_err (\<lambda>k. SpoolError (up_spool_path up) ''io'') (f d)"

definition spool ::
  "'q spool_libs \<Rightarrow> uploader \<Rightarrow> 'q \<Rightarrow> string \<Rightarrow> disk \<Rightarrow> (delivery_error, unit) result \<times> disk" where
  "spool libs up q reason d =
     fs_then (if path_parent (up_spool_path up) = None then (Ok (), d) else spool_io up fs_sync d) (\<lambda>d.
     fs_then (spool_io up (fs_open_append (up_spool_path up) (sl_mode libs)) d) (\<lambda>d.
       case sl_to_vec libs \<lparr>sr_reason = reason, sr_request = q\<rparr> of
         None \<Rightarrow> (Err (SpoolError (up_spool_path up) ''json''), d)
       | Some line \<Rightarrow>
           fs_then (spool_io up (fs_write_all (up_spool_path up) (line @ [CHR 0x0A])) d) (\<lambda>d.
             spool_io up fs_sync d)))"

definition deliver_request ::
  "'q spool_libs \<Rightarrow> uploader \<Rightarrow> 'q \<Rightarrow> 'q delivery_world \<Rightarrow> (delivery_error, unit) result \<times> 'q delivery_world" where
  "deliver_request libs up q w =
     (case post q w of
        (Ok _, w') \<Rightarrow> (Ok (), w')
      | (Err e, w') \<Rightarrow>
          if up_spool_enabled up
          then (case spool libs up q (sl_error_text libs e) (dw_disk w') of (res, d') \<Rightarrow> (res, w'\<lparr>dw_disk := d'\<rparr>))
          else (Err e, w'))"

definition deliver ::
  "'q spool_libs \<Rightarrow> uploader \<Rightarrow> ('e \<Rightarrow> (string, 'q) result) \<Rightarrow> 'e \<Rightarrow> 'q delivery_world
   \<Rightarrow> (delivery_error, unit) result \<times> 'q delivery_world" where
  "deliver libs up try_from event w =
     (case try_from event of
        Err e \<Rightarrow> (Err (Translate e), w)
      | Ok q \<Rightarrow> deliver_request libs up q w)"

text \<open>The lines of the spool, and the records they hold: the first line that cannot be read is an error.\<close>

definition spool_lines :: "bytes \<Rightarrow> bytes list" where
  "spool_lines body = filter (\<lambda>line. line \<noteq> []) (str_split (CHR 0x0A) body)"

fun decode_lines :: "'q spool_libs \<Rightarrow> bytes list \<Rightarrow> 'q spool_record list option" where
  "decode_lines libs [] = Some []"
| "decode_lines libs (line # rest) =
     (case sl_from_slice libs line of
        None \<Rightarrow> None
      | Some r \<Rightarrow> map_option (\<lambda>rs. r # rs) (decode_lines libs rest))"

text \<open>The loop over the records: how many were delivered before the first failure.\<close>

fun replay_records :: "'q spool_record list \<Rightarrow> 'q delivery_world \<Rightarrow> nat \<times> 'q delivery_world" where
  "replay_records [] w = (0, w)"
| "replay_records (r # rs) w =
     (case post (sr_request r) w of
        (Err e, w') \<Rightarrow> (0, w')
      | (Ok _, w') \<Rightarrow> (case replay_records rs w' of (n, w'') \<Rightarrow> (Suc n, w'')))"

fun write_records ::
  "'q spool_libs \<Rightarrow> uploader \<Rightarrow> bytes \<Rightarrow> 'q spool_record list \<Rightarrow> disk \<Rightarrow> (delivery_error, unit) result \<times> disk" where
  "write_records libs up path [] d = (Ok (), d)"
| "write_records libs up path (r # rs) d =
     (case sl_to_vec libs r of
        None \<Rightarrow> (Err (SpoolError (up_spool_path up) ''json''), d)
      | Some line \<Rightarrow> fs_then (spool_io up (fs_write_all path (line @ [CHR 0x0A])) d) (write_records libs up path rs))"

definition replacement_path :: "'q spool_libs \<Rightarrow> uploader \<Rightarrow> bytes" where
  "replacement_path libs up = with_extension (up_spool_path up) (''tmp.'' @ show_nat (sl_pid libs))"

definition write_replacement ::
  "'q spool_libs \<Rightarrow> uploader \<Rightarrow> 'q spool_record list \<Rightarrow> disk \<Rightarrow> (delivery_error, unit) result \<times> disk" where
  "write_replacement libs up rs d =
     fs_then (spool_io up (fs_create_truncate (replacement_path libs up) PRIVATE_MODE) d) (\<lambda>d.
     fs_then (write_records libs up (replacement_path libs up) rs d) (\<lambda>d.
     fs_then (spool_io up fs_sync d) (\<lambda>d.
       spool_io up (fs_rename (replacement_path libs up) (up_spool_path up)) d)))"

definition replace_spool ::
  "'q spool_libs \<Rightarrow> uploader \<Rightarrow> 'q spool_record list \<Rightarrow> disk \<Rightarrow> (delivery_error, unit) result \<times> disk" where
  "replace_spool libs up rs d =
     (if rs = []
      then (case fs_remove_file (up_spool_path up) d of
              (Ok _, d') \<Rightarrow> (Ok (), d')
            | (Err k, d') \<Rightarrow> (if k = NotFound then Ok () else Err (SpoolError (up_spool_path up) ''io''), d'))
      else if path_parent (up_spool_path up) = None
      then (Err (SpoolError (up_spool_path up) ''spool path has no parent directory''), d)
      else
        fs_then (spool_io up fs_sync d) (\<lambda>d.
          case write_replacement libs up rs d of
            (Err e, d') \<Rightarrow> (Err e, snd (fs_remove_file (replacement_path libs up) d'))
          | (Ok _, d') \<Rightarrow> (Ok (), d')))"

record replay_summary =
  rs_replayed :: nat
  rs_remaining :: nat

definition replay_spool_locked ::
  "'q spool_libs \<Rightarrow> uploader \<Rightarrow> 'q delivery_world \<Rightarrow> (delivery_error, replay_summary) result \<times> 'q delivery_world" where
  "replay_spool_locked libs up w =
     (case fs_read (up_spool_path up) (dw_disk w) of
        (Err k, d) \<Rightarrow>
          (if k = NotFound then Ok \<lparr>rs_replayed = 0, rs_remaining = 0\<rparr> else Err (SpoolError (up_spool_path up) ''io''),
           w\<lparr>dw_disk := d\<rparr>)
      | (Ok body, d) \<Rightarrow>
          (case decode_lines libs (spool_lines body) of
             None \<Rightarrow> (Err (SpoolError (up_spool_path up) ''json''), w\<lparr>dw_disk := d\<rparr>)
           | Some records \<Rightarrow>
               (case replay_records records (w\<lparr>dw_disk := d\<rparr>) of
                  (replayed, w') \<Rightarrow>
                    (case replace_spool libs up (drop replayed records) (dw_disk w') of
                       (Err e, d') \<Rightarrow> (Err e, w'\<lparr>dw_disk := d'\<rparr>)
                     | (Ok _, d') \<Rightarrow>
                         (Ok \<lparr>rs_replayed = replayed, rs_remaining = length (drop replayed records)\<rparr>, w'\<lparr>dw_disk := d'\<rparr>)))))"

definition set_managed_bearer_and_replay ::
  "'q spool_libs \<Rightarrow> (bytes \<Rightarrow> parsed_url option) \<Rightarrow> uploader \<Rightarrow> bytes \<Rightarrow> bytes \<Rightarrow> 'q delivery_world
   \<Rightarrow> (delivery_error, replay_summary) result \<times> 'q delivery_world" where
  "set_managed_bearer_and_replay libs url_parse up token audience w =
     (case set_managed_bearer url_parse token audience (dw_manager w) of
        Err e \<Rightarrow> (Err e, w)
      | Ok m \<Rightarrow> replay_spool_locked libs up (w\<lparr>dw_manager := m\<rparr>))"

definition uploader_clear_managed_bearer :: "'q delivery_world \<Rightarrow> (delivery_error, unit) result \<times> 'q delivery_world" where
  "uploader_clear_managed_bearer w =
     (case clear_managed_bearer (dw_manager w) of
        Err e \<Rightarrow> (Err e, w)
      | Ok m \<Rightarrow> (Ok (), w\<lparr>dw_manager := m\<rparr>))"

definition spooled_event_count ::
  "uploader \<Rightarrow> 'q delivery_world \<Rightarrow> (delivery_error, nat) result \<times> 'q delivery_world" where
  "spooled_event_count up w =
     (case fs_read (up_spool_path up) (dw_disk w) of
        (Ok body, d) \<Rightarrow> (Ok (length (spool_lines body)), w\<lparr>dw_disk := d\<rparr>)
      | (Err k, d) \<Rightarrow> (if k = NotFound then Ok 0 else Err (SpoolError (up_spool_path up) ''io''), w\<lparr>dw_disk := d\<rparr>))"

section \<open>The worker\<close>

text \<open>
  What the broker's side of the plugin connection does, as the worker sees it through the plugin SDK: whether connecting and
  publishing the startup information succeed, the items of the event stream, and whether the stream ended with a close.
\<close>

record 'e broker_session =
  bs_connect :: "(string, unit) result"
  bs_startup :: "(string, unit) result"
  bs_items :: "(string, 'e) result list"
  bs_closed :: bool

text \<open>The loop of \<^verbatim>\<open>run_worker\<close> over the event stream.\<close>

fun deliver_events ::
  "'q spool_libs \<Rightarrow> uploader \<Rightarrow> ('e \<Rightarrow> (string, 'q) result) \<Rightarrow> (string, 'e) result list \<Rightarrow> 'q delivery_world
   \<Rightarrow> (delivery_error, unit) result \<times> 'q delivery_world" where
  "deliver_events libs up try_from [] w = (Ok (), w)"
| "deliver_events libs up try_from (Err e # es) w = (Err (PluginFailure e), w)"
| "deliver_events libs up try_from (Ok e # es) w =
     (case deliver libs up try_from e w of
        (Err x, w') \<Rightarrow> (Err x, w')
      | (Ok _, w') \<Rightarrow> deliver_events libs up try_from es w')"

definition run_worker ::
  "'q spool_libs \<Rightarrow> uploader \<Rightarrow> ('e \<Rightarrow> (string, 'q) result) \<Rightarrow> 'e broker_session \<Rightarrow> 'q delivery_world
   \<Rightarrow> (delivery_error, unit) result \<times> 'q delivery_world" where
  "run_worker libs up try_from session w =
     (case replay_spool_locked libs up w of
        (Err e, w') \<Rightarrow> (Err e, w')
      | (Ok _, w') \<Rightarrow>
          (case bs_connect session of
             Err e \<Rightarrow> (Err (PluginFailure e), w')
           | Ok _ \<Rightarrow>
               (case bs_startup session of
                  Err e \<Rightarrow> (Err (StartupInfoFailure e), w')
                | Ok _ \<Rightarrow>
                    (case deliver_events libs up try_from (bs_items session) w' of
                       (Err e, w'') \<Rightarrow> (Err e, w'')
                     | (Ok _, w'') \<Rightarrow>
                         (if bs_closed session then Ok () else Err (PluginFailure ''unexpected eof''), w'')))))"

section \<open>The control API\<close>

datatype 'q control_request =
    GetStatus
  | PutCredential bytes bytes
  | DeleteCredential

datatype control_reply =
    ControlError nat string
  | ControlStatus bytes authentication_mode authentication_state nat
  | ControlUpdated authentication_state replay_summary
  | ControlCleared authentication_state

fun credential_error :: "delivery_error \<Rightarrow> control_reply" where
  "credential_error AuthenticationMutationUnsupported = ControlError 409 ''authentication mode is not managed_bearer''"
| "credential_error (InvalidCredentialUpdate e) = ControlError 400 ''invalid credential update''"
| "credential_error (InvalidDeliveryEndpoint e) = ControlError 400 ''invalid credential update''"
| "credential_error _ = ControlError 500 ''credential update failed''"

text \<open>\<open>expected\<close> is the value of the authorization header the server was started with.\<close>

definition control_authorized :: "bytes \<Rightarrow> bytes option \<Rightarrow> bool" where
  "control_authorized expected header = (case header of None \<Rightarrow> False | Some received \<Rightarrow> expected = received)"

definition control_handle ::
  "'q spool_libs \<Rightarrow> (bytes \<Rightarrow> parsed_url option) \<Rightarrow> uploader \<Rightarrow> bytes \<Rightarrow> bytes option \<Rightarrow> 'q control_request
   \<Rightarrow> 'q delivery_world \<Rightarrow> control_reply \<times> 'q delivery_world" where
  "control_handle libs url_parse up expected header request w =
     (if \<not> control_authorized expected header then (ControlError 401 ''unauthorized'', w)
      else
        (case request of
           GetStatus \<Rightarrow>
             (case spooled_event_count up w of
                (Err e, w') \<Rightarrow> (ControlError 500 ''status unavailable'', w')
              | (Ok n, w') \<Rightarrow> (ControlStatus (up_endpoint up) (am_mode (dw_manager w')) (am_state (dw_manager w')) n, w'))
         | PutCredential token audience \<Rightarrow>
             (case set_managed_bearer_and_replay libs url_parse up token audience w of
                (Err e, w') \<Rightarrow> (credential_error e, w')
              | (Ok summary, w') \<Rightarrow> (ControlUpdated (am_state (dw_manager w')) summary, w'))
         | DeleteCredential \<Rightarrow>
             (case uploader_clear_managed_bearer w of
                (Err e, w') \<Rightarrow> (credential_error e, w')
              | (Ok _, w') \<Rightarrow> (ControlCleared (am_state (dw_manager w')), w'))))"

end
