(* ===== verification/Delivery_Props.thy ===== *)
theory Delivery_Props
  imports Delivery "HOL-Library.Multiset"
begin

text \<open>
  What the delivery plugin guarantees: nothing that was accepted for delivery is lost between the destination and the spool,
  replaying is all or nothing on disk, and managed credentials go to their audience only.
\<close>

section \<open>The spool as a list of records\<close>

text \<open>What \<^verbatim>\<open>serde_json\<close> promises of a line it has written: not empty, no newline, and read back.\<close>

definition spool_laws :: "'q spool_libs \<Rightarrow> bool" where
  "spool_laws libs \<longleftrightarrow>
     (\<forall>r line. sl_to_vec libs r = Some line \<longrightarrow> line \<noteq> [] \<and> CHR 0x0A \<notin> set line \<and> sl_from_slice libs line = Some r)"

fun encode_records :: "'q spool_libs \<Rightarrow> 'q spool_record list \<Rightarrow> bytes option" where
  "encode_records libs [] = Some []"
| "encode_records libs (r # rs) =
     (case sl_to_vec libs r of
        None \<Rightarrow> None
      | Some line \<Rightarrow> map_option (\<lambda>rest. line @ CHR 0x0A # rest) (encode_records libs rs))"

definition spool_holds :: "'q spool_libs \<Rightarrow> bytes \<Rightarrow> disk \<Rightarrow> 'q spool_record list \<Rightarrow> bool" where
  "spool_holds libs path d rs \<longleftrightarrow>
     (case dk_files d path of None \<Rightarrow> rs = [] | Some f \<Rightarrow> encode_records libs rs = Some (st_content f))"

lemma spool_line:
  "\<lbrakk>line \<noteq> []; CHR 0x0A \<notin> set line\<rbrakk> \<Longrightarrow> spool_lines (line @ CHR 0x0A # rest) = line # spool_lines rest"
  by (simp add: spool_lines_def str_split_append str_split_no)

lemma decode_encoded:
  assumes "spool_laws libs"
  shows "encode_records libs rs = Some bs \<Longrightarrow> decode_lines libs (spool_lines bs) = Some rs"
proof (induction rs arbitrary: bs)
  case Nil
  then show ?case by (simp add: spool_lines_def)
next
  case (Cons r rs)
  then obtain line rest where l: "sl_to_vec libs r = Some line" "encode_records libs rs = Some rest" "bs = line @ CHR 0x0A # rest"
    by (auto split: option.splits)
  with assms have "line \<noteq> []" "CHR 0x0A \<notin> set line" "sl_from_slice libs line = Some r" by (auto simp: spool_laws_def)
  with Cons.IH [OF l(2)] l(3) show ?case by (simp add: spool_line)
qed

lemma encode_append:
  "encode_records libs (rs @ qs) =
     (case encode_records libs rs of None \<Rightarrow> None | Some a \<Rightarrow> map_option (\<lambda>b. a @ b) (encode_records libs qs))"
  by (induction rs; cases "encode_records libs qs") (auto split: option.splits)

text \<open>The file that replaces the spool is another one.\<close>

lemma replacement_path_ne:
  assumes "path_file_name (up_spool_path up) = Some name" and "path_parent (up_spool_path up) = Some parent"
  shows "replacement_path libs up \<noteq> up_spool_path up"
  using temporary_extension_ne [OF assms] by (simp add: replacement_path_def)

section \<open>Delivering\<close>

text \<open>
  What the destination has accepted, by its own answers: the requests it answered with a 2xx status and a readable body that
  reports no rejected event and no error.
\<close>

definition accepts :: "post_reply \<Rightarrow> bool" where
  "accepts reply \<longleftrightarrow>
     (case reply of
        SendFails e \<Rightarrow> False
      | Replied status body \<Rightarrow>
          (case body of
             None \<Rightarrow> False
           | Some (rejected, errors) \<Rightarrow> 200 \<le> status \<and> status < 300 \<and> rejected = 0 \<and> errors = []))"

definition dw_accepted :: "'q delivery_world \<Rightarrow> 'q list" where
  "dw_accepted w = map fst (filter (\<lambda>(q, reply). accepts reply) (dw_answers w))"

lemma dw_accepted_disk [simp]: "dw_accepted (w\<lparr>dw_disk := d\<rparr>) = dw_accepted w"
  by (simp add: dw_accepted_def)

lemma post_outcome:
  assumes "post q w = (res, w')"
  shows "dw_disk w' = dw_disk w \<and> dw_accepted w' = dw_accepted w @ (case res of Ok _ \<Rightarrow> [q] | Err e \<Rightarrow> [])"
  using assms by (auto simp: post_def send_request_def dw_accepted_def accepts_def status_success_def Let_def
      split: option.splits list.splits post_reply.splits if_splits prod.splits)

lemma spool_io_simps [simp]:
  "fs_then (spool_io up f d) g = fs_then (fs_err (\<lambda>k. SpoolError (up_spool_path up) ''io'') (f d)) g"
  by (simp add: spool_io_def)

text \<open>A record that was spooled follows those that were there.\<close>

lemma spool_appends:
  assumes holds: "spool_holds libs (up_spool_path up) d rs" and run: "spool libs up q reason d = (Ok u, d')"
  shows "spool_holds libs (up_spool_path up) d' (rs @ [\<lparr>sr_reason = reason, sr_request = q\<rparr>])"
proof -
  let ?p = "up_spool_path up"
  obtain r1 d1 where 1: "(if path_parent ?p = None then (Ok (), d) else spool_io up fs_sync d) = (r1, d1)" by fastforce
  obtain r2 d2 where 2: "fs_open_append ?p (sl_mode libs) d1 = (r2, d2)" by fastforce
  from run 1 2 obtain line where line: "r1 = Ok ()" "r2 = Ok ()" "sl_to_vec libs \<lparr>sr_reason = reason, sr_request = q\<rparr> = Some line"
    by (cases r1; cases r2) (auto simp: spool_def spool_io_def fs_then_def fs_err_def split: option.splits)
  obtain r3 d3 where 3: "fs_write_all ?p (line @ [CHR 0x0A]) d2 = (r3, d3)" by fastforce
  from run 1 2 3 line have 4: "r3 = Ok ()" "spool_io up fs_sync d3 = (Ok u, d')"
    by (cases r3; simp add: spool_def spool_io_def)+
  have "dk_files d1 = dk_files d" using 1 fs_sync_ok by (auto simp: spool_io_def fs_err_def split: if_splits)
  then have files: "\<exists>f. dk_files d2 ?p = Some f \<and> encode_records libs rs = Some (st_content f)"
    using fs_open_append_ok [OF 2 [unfolded line(2)]] holds by (auto simp: spool_holds_def split: option.splits)
  then obtain f where f: "dk_files d2 ?p = Some f" "encode_records libs rs = Some (st_content f)" by blast
  have "dk_files d3 ?p = Some (f\<lparr>st_content := st_content f @ line @ [CHR 0x0A]\<rparr>)"
    using fs_write_all_ok [OF 3 [unfolded 4(1)] f(1)] by simp
  moreover have "dk_files d' = dk_files d3" using 4(2) fs_sync_ok by (auto simp: spool_io_def fs_err_def)
  ultimately show ?thesis using f(2) line(3) by (simp add: spool_holds_def encode_append)
qed

lemma deliver_request_ok:
  assumes holds: "spool_holds libs (up_spool_path up) (dw_disk w) rs" and run: "deliver_request libs up q w = (Ok u, w')"
  shows "\<exists>rs'. spool_holds libs (up_spool_path up) (dw_disk w') rs'
    \<and> mset (dw_accepted w') + mset (map sr_request rs') = mset (dw_accepted w) + mset (map sr_request rs) + {#q#}"
proof -
  obtain res w1 where p: "post q w = (res, w1)" by fastforce
  note P = post_outcome [OF p]
  show ?thesis
  proof (cases res)
    case (Inr v)
    with run p have "w' = w1" by (auto simp: deliver_request_def)
    with P Inr holds show ?thesis by (intro exI [of _ rs]) auto
  next
    case (Inl e)
    with run p obtain d' where s: "spool libs up q (sl_error_text libs e) (dw_disk w1) = (Ok u, d')" "w' = w1\<lparr>dw_disk := d'\<rparr>"
      by (auto simp: deliver_request_def split: if_splits prod.splits)
    with spool_appends [OF _ s(1)] P Inl holds show ?thesis
      by (intro exI [of _ "rs @ [\<lparr>sr_reason = sl_error_text libs e, sr_request = q\<rparr>]"]) auto
  qed
qed

section \<open>Replaying\<close>

lemma replay_records_prefix:
  "replay_records rs w = (n, w') \<Longrightarrow>
     n \<le> length rs \<and> dw_disk w' = dw_disk w \<and> dw_accepted w' = dw_accepted w @ map sr_request (take n rs)"
proof (induction rs arbitrary: w n w')
  case (Cons r rs)
  obtain res w1 where p: "post (sr_request r) w = (res, w1)" by fastforce
  note P = post_outcome [OF p]
  show ?case
  proof (cases res)
    case (Inl e)
    with Cons.prems p P show ?thesis by auto
  next
    case (Inr u)
    obtain m w2 where rec: "replay_records rs w1 = (m, w2)" by fastforce
    with Cons.prems p Inr Cons.IH [OF rec] P show ?thesis by auto
  qed
qed simp

lemma write_records_keeps:
  "\<lbrakk>write_records libs up p rs d = (res, d'); p \<noteq> q\<rbrakk> \<Longrightarrow> keeps q d d'"
proof (induction rs arbitrary: d)
  case (Cons r rs)
  show ?case
  proof (cases "sl_to_vec libs r")
    case None
    with Cons.prems show ?thesis by simp
  next
    case (Some line)
    obtain r1 d1 where w: "fs_write_all p (line @ [CHR 0x0A]) d = (r1, d1)" by fastforce
    note k = fs_keeps(7) [OF w Cons.prems(2)]
    show ?thesis
    proof (cases r1)
      case (Inl x)
      with Cons.prems(1) Some w k show ?thesis by simp
    next
      case (Inr u)
      with Cons.prems(1) Some w have "write_records libs up p rs d1 = (res, d')" by simp
      with Cons.IH Cons.prems(2) k show ?thesis by (blast intro: keeps_trans)
    qed
  qed
qed simp

lemma write_records_ok:
  "\<lbrakk>write_records libs up p rs d = (Ok u, d'); dk_files d p = Some f\<rbrakk> \<Longrightarrow>
     \<exists>bs. encode_records libs rs = Some bs \<and> dk_files d' p = Some (f\<lparr>st_content := st_content f @ bs\<rparr>)"
proof (induction rs arbitrary: d f)
  case (Cons r rs)
  then obtain line where line: "sl_to_vec libs r = Some line" by (auto split: option.splits)
  obtain r1 d1 where w: "fs_write_all p (line @ [CHR 0x0A]) d = (r1, d1)" by fastforce
  with Cons.prems(1) line have r1: "r1 = Ok ()" "write_records libs up p rs d1 = (Ok u, d')" by (cases r1; simp)+
  from fs_write_all_ok [OF w [unfolded r1(1)] Cons.prems(2)]
  have "dk_files d1 p = Some (f\<lparr>st_content := st_content f @ line @ [CHR 0x0A]\<rparr>)" by simp
  from Cons.IH [OF r1(2) this] line show ?case by auto
qed simp

text \<open>The spool is replaced completely or not at all.\<close>

lemma write_replacement_spec:
  assumes ne: "replacement_path libs up \<noteq> up_spool_path up" and run: "write_replacement libs up rs d = (res, d')"
  shows "case res of
      Err e \<Rightarrow> keeps (up_spool_path up) d d'
    | Ok u \<Rightarrow> (\<exists>f. dk_files d' (up_spool_path up) = Some f \<and> encode_records libs rs = Some (st_content f))
        \<and> old_or_new (up_spool_path up) d d'"
proof -
  let ?t = "replacement_path libs up" and ?p = "up_spool_path up"
  obtain r1 d1 where 1: "fs_create_truncate ?t PRIVATE_MODE d = (r1, d1)" by fastforce
  obtain r2 d2 where 2: "write_records libs up ?t rs d1 = (r2, d2)" by fastforce
  obtain r3 d3 where 3: "fs_sync d2 = (r3, d3)" by fastforce
  obtain r4 d4 where 4: "fs_rename ?t ?p d3 = (r4, d4)" by fastforce
  have k1: "keeps ?p d d1" using fs_keeps(5) [OF 1 ne] .
  have k2: "keeps ?p d d2" using k1 write_records_keeps [OF 2 ne] by (rule keeps_trans)
  have k3: "keeps ?p d d3" using k2 fs_keeps(1) [OF 3] by (rule keeps_trans)
  have failed: "keeps ?p d d4" if "r4 = Err k" for k using keeps_trans [OF k3 fs_failed_keeps(1)] 4 that by blast
  have finished: "(\<exists>f. dk_files d4 ?p = Some f \<and> encode_records libs rs = Some (st_content f)) \<and> old_or_new ?p d d4"
    if ok: "r1 = Ok u1" "r2 = Ok u2" "r4 = Ok u4" for u1 u2 u4
  proof -
    from fs_create_truncate_ok [OF 1 [unfolded ok(1)]] obtain m where "dk_files d1 ?t = Some \<lparr>st_content = [], st_mode = m\<rparr>" by auto
    from write_records_ok [OF 2 [unfolded ok(2)] this] obtain bs where
      bs: "encode_records libs rs = Some bs" "dk_files d2 ?t = Some \<lparr>st_content = bs, st_mode = m\<rparr>" by auto
    from fs_rename_ok [OF 4 [unfolded ok(3)]] obtain f where
      f: "dk_files d3 ?t = Some f" "dk_files d4 = (dk_files d3)(?t := None, ?p := Some f)" "dk_trace d4 = dk_files d4 # dk_trace d3" .
    have "f = \<lparr>st_content = bs, st_mode = m\<rparr>" using f(1) bs(2) fs_sync_ok [OF 3] by simp
    moreover have "disk_through (\<lambda>g. g ?p = dk_files d ?p \<or> g ?p = Some f) d d3"
      using keeps_through [OF k3, of "\<lambda>x. x = dk_files d ?p \<or> x = Some f"] by simp
    moreover have "disk_through (\<lambda>g. g ?p = dk_files d ?p \<or> g ?p = Some f) d3 d4"
      using f(2,3) by (auto simp: disk_through_def intro!: exI [of _ "[dk_files d4]"])
    ultimately show ?thesis using f(2) bs(1) by (auto simp: old_or_new_def intro: disk_through_trans)
  qed
  have chain: "write_replacement libs up rs d =
     fs_then (fs_err (\<lambda>k. SpoolError ?p ''io'') (r1, d1)) (\<lambda>_. fs_then (r2, d2) (\<lambda>_.
       fs_then (fs_err (\<lambda>k. SpoolError ?p ''io'') (r3, d3)) (\<lambda>_. fs_err (\<lambda>k. SpoolError ?p ''io'') (r4, d4))))"
    using 1 2 3 4 by (cases r1; cases r2; cases r3) (simp_all add: write_replacement_def spool_io_def fs_then_def fs_err_def)
  show ?thesis
    using run k1 k2 k3 failed finished unfolding chain
    by (cases r1; cases r2; cases r3; cases r4) (auto simp: fs_err_def fs_then_def)
qed

lemma replace_spool_spec:
  assumes name: "path_file_name (up_spool_path up) = Some name" and run: "replace_spool libs up rs d = (res, d')"
  shows "old_or_new (up_spool_path up) d d'
    \<and> (case res of Err e \<Rightarrow> dk_files d' (up_spool_path up) = dk_files d (up_spool_path up)
       | Ok u \<Rightarrow> spool_holds libs (up_spool_path up) d' rs)"
proof -
  let ?p = "up_spool_path up" and ?t = "replacement_path libs up"
  consider "rs = []" | "rs \<noteq> []" "path_parent ?p = None" | parent where "rs \<noteq> []" "path_parent ?p = Some parent" by fastforce
  then show ?thesis
  proof cases
    case 1
    obtain r1 d1 where r: "fs_remove_file ?p d = (r1, d1)" by fastforce
    show ?thesis
    proof (cases "case r1 of Ok u \<Rightarrow> True | Err k \<Rightarrow> k = NotFound")
      case True
      with run 1 r have "d' = d1" "res = Ok ()" by (auto simp: replace_spool_def split: sum.splits)
      with fs_remove_file_ok [OF r True] 1 show ?thesis by (simp add: old_or_new_def spool_holds_def)
    next
      case False
      then obtain k where "r1 = Err k" "k \<noteq> NotFound" by (auto split: sum.splits)
      with run 1 r fs_failed_keeps(2) [of ?p d k d1 ?p] show ?thesis
        by (auto simp: replace_spool_def keeps_old_or_new keeps_same)
    qed
  next
    case 2
    with run show ?thesis by (auto simp: replace_spool_def keeps_old_or_new)
  next
    case 3
    note ne = replacement_path_ne [OF name 3(2), of libs]
    obtain r1 d1 where s: "fs_sync d = (r1, d1)" by fastforce
    have k1: "keeps ?p d d1" using fs_keeps(1) [OF s] .
    obtain r2 d2 where w: "write_replacement libs up rs d1 = (r2, d2)" by fastforce
    obtain r3 d3 where m: "fs_remove_file ?t d2 = (r3, d3)" by fastforce
    note W = write_replacement_spec [OF ne w]
    have failed: "keeps ?p d d3" if "r2 = Err e" for e
      using that W keeps_trans [OF k1] keeps_trans [OF _ fs_keeps(9) [OF m ne]] by auto
    have finished: "old_or_new ?p d d2 \<and> spool_holds libs ?p d2 rs" if "r2 = Ok u" for u
    proof -
      from W that obtain f where f: "dk_files d2 ?p = Some f" "encode_records libs rs = Some (st_content f)" "old_or_new ?p d1 d2" by auto
      from keeps_through [OF k1, of "\<lambda>x. x = dk_files d ?p \<or> x = dk_files d2 ?p"]
      have "disk_through (\<lambda>g. g ?p = dk_files d ?p \<or> g ?p = dk_files d2 ?p) d d1" by simp
      with f keeps_same [OF k1] show ?thesis by (auto simp: old_or_new_def spool_holds_def intro: disk_through_trans)
    qed
    show ?thesis
      using run 3 s w m k1 failed finished
      by (cases r1; cases r2) (auto simp: replace_spool_def keeps_old_or_new keeps_same)
  qed
qed

lemma replay_spool_spec:
  assumes laws: "spool_laws libs" and name: "path_file_name (up_spool_path up) = Some name"
    and holds: "spool_holds libs (up_spool_path up) (dw_disk w) rs" and run: "replay_spool_locked libs up w = (res, w')"
  shows "old_or_new (up_spool_path up) (dw_disk w) (dw_disk w')
    \<and> (\<exists>k \<le> length rs. dw_accepted w' = dw_accepted w @ map sr_request (take k rs)
        \<and> (case res of
             Err e \<Rightarrow> dk_files (dw_disk w') (up_spool_path up) = dk_files (dw_disk w) (up_spool_path up)
           | Ok s \<Rightarrow> spool_holds libs (up_spool_path up) (dw_disk w') (drop k rs)
               \<and> s = \<lparr>rs_replayed = k, rs_remaining = length rs - k\<rparr>))"
proof -
  let ?p = "up_spool_path up"
  obtain r d where rd: "fs_read ?p (dw_disk w) = (r, d)" by fastforce
  note same = fs_read_ok(1) [OF rd]
  show ?thesis
  proof (cases r)
    case (Inl k)
    with run rd have w': "w' = w\<lparr>dw_disk := d\<rparr>"
      and res: "res = (if k = NotFound then Ok \<lparr>rs_replayed = 0, rs_remaining = 0\<rparr> else Err (SpoolError ?p ''io''))"
      by (auto simp: replay_spool_locked_def)
    have "rs = []" if "k = NotFound" using fs_read_missing [OF rd [unfolded Inl that]] holds by (simp add: spool_holds_def)
    with w' res same holds show ?thesis
      by (intro conjI exI [of _ 0]) (auto simp: old_or_new_def disk_through_def spool_holds_def)
  next
    case (Inr body)
    from fs_read_ok(2) [OF rd [unfolded Inr]] holds have "encode_records libs rs = Some body" by (auto simp: spool_holds_def)
    note dec = decode_encoded [OF laws this]
    obtain k w1 where p: "replay_records rs (w\<lparr>dw_disk := d\<rparr>) = (k, w1)" by fastforce
    note P = replay_records_prefix [OF p]
    obtain r2 d2 where s: "replace_spool libs up (drop k rs) (dw_disk w1) = (r2, d2)" by fastforce
    note S = replace_spool_spec [OF name s]
    have w': "w' = w1\<lparr>dw_disk := d2\<rparr>"
      and res: "res = (case r2 of Err e \<Rightarrow> Err e | Ok u \<Rightarrow> Ok \<lparr>rs_replayed = k, rs_remaining = length (drop k rs)\<rparr>)"
      using run rd Inr dec p s by (auto simp: replay_spool_locked_def split: sum.splits)
    from S P same have "old_or_new ?p (dw_disk w) d2" by (auto simp: old_or_new_def disk_through_def)
    with S P same w' res show ?thesis by (auto simp: intro!: exI [of _ k] split: sum.splits)
  qed
qed

section \<open>Nothing is lost\<close>

text \<open>
  The requests a world still owes or has delivered: what the destination accepted and what the spool holds.
\<close>

lemma replay_conserves:
  assumes "spool_laws libs" and "path_file_name (up_spool_path up) = Some name"
    and "spool_holds libs (up_spool_path up) (dw_disk w) rs" and "replay_spool_locked libs up w = (Ok s, w')"
  shows "\<exists>rs'. spool_holds libs (up_spool_path up) (dw_disk w') rs'
    \<and> mset (dw_accepted w') + mset (map sr_request rs') = mset (dw_accepted w) + mset (map sr_request rs)"
proof -
  from replay_spool_spec [OF assms] obtain k where k: "dw_accepted w' = dw_accepted w @ map sr_request (take k rs)"
    "spool_holds libs (up_spool_path up) (dw_disk w') (drop k rs)" by auto
  have "mset (take k rs) + mset (drop k rs) = mset rs" by (metis append_take_drop_id mset_append)
  then have "image_mset sr_request (mset (take k rs)) + image_mset sr_request (mset (drop k rs)) = image_mset sr_request (mset rs)"
    by (metis image_mset_union)
  with k show ?thesis by (intro exI [of _ "drop k rs"]) (simp add: ac_simps)
qed

lemma deliver_events_conserves:
  "\<lbrakk>deliver_events libs up try_from es w = (Ok u, w'); spool_holds libs (up_spool_path up) (dw_disk w) rs\<rbrakk> \<Longrightarrow>
     \<exists>events qs rs'. es = map Ok events \<and> map try_from events = map Ok qs
       \<and> spool_holds libs (up_spool_path up) (dw_disk w') rs'
       \<and> mset (dw_accepted w') + mset (map sr_request rs') = mset (dw_accepted w) + mset (map sr_request rs) + mset qs"
proof (induction libs up try_from es w arbitrary: rs rule: deliver_events.induct)
  case (3 libs up try_from e es w)
  obtain r w1 where d: "deliver libs up try_from e w = (r, w1)" by fastforce
  with "3.prems"(1) obtain v where r: "r = Ok v" "deliver_events libs up try_from es w1 = (Ok u, w')" by (cases r) auto
  from d r(1) obtain q where q: "try_from e = Ok q" "deliver_request libs up q w = (Ok v, w1)"
    by (auto simp: deliver_def split: sum.splits)
  from deliver_request_ok [OF "3.prems"(2) q(2)] obtain rs1 where
    1: "spool_holds libs (up_spool_path up) (dw_disk w1) rs1"
      "mset (dw_accepted w1) + mset (map sr_request rs1) = mset (dw_accepted w) + mset (map sr_request rs) + {#q#}" by blast
  from "3.IH" [OF d [symmetric] r(1) r(2) 1(1)] obtain events qs rs' where
    2: "es = map Ok events" "map try_from events = map Ok qs" "spool_holds libs (up_spool_path up) (dw_disk w') rs'"
      "mset (dw_accepted w') + mset (map sr_request rs') = mset (dw_accepted w1) + mset (map sr_request rs1) + mset qs" by blast
  then have "mset (dw_accepted w') + mset (map sr_request rs') = mset (dw_accepted w) + mset (map sr_request rs) + mset (q # qs)"
    using 1(2) by (simp only: mset.simps add.assoc) simp
  with q(1) 2(1-3) show ?case by (intro exI [of _ "e # events"] exI [of _ "q # qs"] exI [of _ rs']) simp
qed auto

lemma run_worker_conserves:
  assumes laws: "spool_laws libs" "path_file_name (up_spool_path up) = Some name"
    and holds: "spool_holds libs (up_spool_path up) (dw_disk w) rs"
    and run: "run_worker libs up try_from session w = (Ok u, w')"
  shows "\<exists>events qs rs'. bs_items session = map Ok events \<and> map try_from events = map Ok qs
    \<and> spool_holds libs (up_spool_path up) (dw_disk w') rs'
    \<and> mset (dw_accepted w') + mset (map sr_request rs') = mset (dw_accepted w) + mset (map sr_request rs) + mset qs"
proof -
  obtain r w1 where rep: "replay_spool_locked libs up w = (r, w1)" by fastforce
  obtain r2 w2 where del: "deliver_events libs up try_from (bs_items session) w1 = (r2, w2)" by fastforce
  from run rep del obtain s v where ok: "r = Ok s" "r2 = Ok v" "w2 = w'"
    by (auto simp: run_worker_def split: sum.splits if_splits)
  from replay_conserves [OF laws holds rep [unfolded ok]] obtain rs1 where
    1: "spool_holds libs (up_spool_path up) (dw_disk w1) rs1"
      "mset (dw_accepted w1) + mset (map sr_request rs1) = mset (dw_accepted w) + mset (map sr_request rs)" by blast
  from deliver_events_conserves [OF del [unfolded ok] 1(1)] 1(2) show ?thesis by simp
qed

section \<open>A credential that was refused\<close>

text \<open>Without a credential nothing is sent: a request fails at once, and what the worker does changes files only.\<close>

lemma post_without_credential: "for_request (dw_manager w) = None \<Longrightarrow> post q w = (Err AuthenticationUnavailable, w)"
  by (simp add: post_def)

definition same_network :: "'q delivery_world \<Rightarrow> 'q delivery_world \<Rightarrow> bool" where
  "same_network w w' \<longleftrightarrow> (\<exists>d. w' = w\<lparr>dw_disk := d\<rparr>)"

lemma same_network_disk [simp]: "same_network w (w\<lparr>dw_disk := d\<rparr>)" "same_network w w"
  by (auto simp: same_network_def intro: exI [of _ "dw_disk w"])

lemma same_network_trans [trans]: "\<lbrakk>same_network w w1; same_network w1 w2\<rbrakk> \<Longrightarrow> same_network w w2"
  by (auto simp: same_network_def)

lemma replay_without_credential:
  assumes "for_request (dw_manager w) = None"
  shows "same_network w (snd (replay_spool_locked libs up w))"
proof -
  have stop: "replay_records rs v = (0, v)" if "dw_manager v = dw_manager w" for rs and v :: "'a delivery_world"
    using assms that by (cases rs) (simp_all add: post_without_credential)
  show ?thesis
    by (auto simp: replay_spool_locked_def stop split: prod.splits sum.splits option.splits)
qed

lemma deliver_events_without_credential:
  "for_request (dw_manager w) = None \<Longrightarrow> same_network w (snd (deliver_events libs up try_from es w))"
proof (induction libs up try_from es w rule: deliver_events.induct)
  case (3 libs up try_from e es w)
  obtain r w1 where d: "deliver libs up try_from e w = (r, w1)" by fastforce
  with "3.prems" have n: "same_network w w1"
    by (auto simp: deliver_def deliver_request_def post_without_credential split: sum.splits prod.splits if_splits)
  with "3.prems" have "for_request (dw_manager w1) = None" by (auto simp: same_network_def)
  with "3.IH" [OF d [symmetric]] d n show ?case by (cases r) (auto intro: same_network_trans)
qed auto

lemma run_worker_without_credential:
  assumes "for_request (dw_manager w) = None"
  shows "same_network w (snd (run_worker libs up try_from session w))"
proof -
  obtain r w1 where rep: "replay_spool_locked libs up w = (r, w1)" by fastforce
  with replay_without_credential [OF assms, of libs up] have 1: "same_network w w1" by simp
  with assms have "for_request (dw_manager w1) = None" by (auto simp: same_network_def)
  from deliver_events_without_credential [OF this] have
    "same_network w1 (snd (deliver_events libs up try_from (bs_items session) w1))" .
  with 1 rep show ?thesis
    by (auto simp: run_worker_def split: sum.splits prod.splits intro: same_network_trans)
qed

lemma post_unauthorized:
  assumes "am_mode (dw_manager w) = ModeManagedBearer" and "post q w = (Err (HttpStatus 401), w')"
  shows "for_request (dw_manager w') = None"
  using assms
  by (auto simp: post_def send_request_def Let_def mark_unauthorized_def for_request_def status_success_def
      split: option.splits list.splits post_reply.splits if_splits)

section \<open>Where credentials go\<close>

text \<open>
  What can happen to a plugin that was configured with managed credentials: events arrive, the spool is replayed, and the
  control API is called, in any order. The list holds the credentials that authorised calls have brought.
\<close>

inductive delivery_reach ::
  "'q spool_libs \<Rightarrow> (bytes \<Rightarrow> parsed_url option) \<Rightarrow> uploader \<Rightarrow> ('e \<Rightarrow> (string, 'q) result) \<Rightarrow> bytes
   \<Rightarrow> (bytes \<times> bytes) list \<Rightarrow> 'q delivery_world \<Rightarrow> bool"
  for libs url_parse up try_from expected
where
  start: "\<lbrakk>manager_load url_parse (up_endpoint up) ConfigManagedBearer d = (Ok m, d'); dw_manager w = m; dw_sent w = []\<rbrakk>
    \<Longrightarrow> delivery_reach libs url_parse up try_from expected [] w"
| delivers: "\<lbrakk>delivery_reach libs url_parse up try_from expected creds w; deliver libs up try_from event w = (res, w')\<rbrakk>
    \<Longrightarrow> delivery_reach libs url_parse up try_from expected creds w'"
| replays: "\<lbrakk>delivery_reach libs url_parse up try_from expected creds w; replay_spool_locked libs up w = (res, w')\<rbrakk>
    \<Longrightarrow> delivery_reach libs url_parse up try_from expected creds w'"
| controls: "\<lbrakk>delivery_reach libs url_parse up try_from expected creds w;
      control_handle libs url_parse up expected header request w = (reply, w');
      creds' = creds @ (case request of
        PutCredential token audience \<Rightarrow> if control_authorized expected header then [(token, audience)] else []
      | _ \<Rightarrow> [])\<rbrakk>
    \<Longrightarrow> delivery_reach libs url_parse up try_from expected creds' w'"

definition issued_for ::
  "(bytes \<Rightarrow> parsed_url option) \<Rightarrow> bytes \<Rightarrow> (bytes \<times> bytes) list \<Rightarrow> delivery_authentication \<Rightarrow> bool" where
  "issued_for url_parse endpoint creds a \<longleftrightarrow>
     list_ex (\<lambda>(token, audience). a = from_bearer (str_trim token) \<and> str_trim token \<noteq> []
       \<and> (case (http_origin url_parse audience, http_origin url_parse endpoint) of
            (Ok x, Ok y) \<Rightarrow> x = y
          | _ \<Rightarrow> False)) creds"

definition credentials_ok ::
  "(bytes \<Rightarrow> parsed_url option) \<Rightarrow> bytes \<Rightarrow> (bytes \<times> bytes) list \<Rightarrow> 'q delivery_world \<Rightarrow> bool" where
  "credentials_ok url_parse endpoint creds w \<longleftrightarrow>
     am_mode (dw_manager w) = ModeManagedBearer
     \<and> http_origin url_parse endpoint = Ok (am_endpoint_origin (dw_manager w))
     \<and> (am_state (dw_manager w) = Configured \<longrightarrow> issued_for url_parse endpoint creds (am_authentication (dw_manager w)))
     \<and> list_all (\<lambda>(a, q). issued_for url_parse endpoint creds a) (dw_sent w)"

lemma issued_for_more: "issued_for url_parse endpoint creds a \<Longrightarrow> issued_for url_parse endpoint (creds @ later) a"
  by (simp add: issued_for_def)

lemma credentials_ok_more: "credentials_ok url_parse endpoint creds w \<Longrightarrow> credentials_ok url_parse endpoint (creds @ later) w"
  by (auto simp: credentials_ok_def list_all_iff intro: issued_for_more)

lemma credentials_ok_disk [simp]:
  "credentials_ok url_parse endpoint creds (w\<lparr>dw_disk := d\<rparr>) = credentials_ok url_parse endpoint creds w"
  by (simp add: credentials_ok_def)

lemma credentials_ok_post:
  "\<lbrakk>credentials_ok url_parse endpoint creds w; post q w = (res, w')\<rbrakk> \<Longrightarrow> credentials_ok url_parse endpoint creds w'"
  by (auto simp: post_def send_request_def credentials_ok_def Let_def for_request_def mark_unauthorized_def
      split: option.splits list.splits post_reply.splits if_splits)

lemma credentials_ok_records:
  "\<lbrakk>credentials_ok url_parse endpoint creds w; replay_records rs w = (n, w')\<rbrakk> \<Longrightarrow> credentials_ok url_parse endpoint creds w'"
proof (induction rs arbitrary: w n w')
  case (Cons r rs)
  obtain res w1 where p: "post (sr_request r) w = (res, w1)" by fastforce
  from credentials_ok_post [OF Cons.prems(1) p] Cons.IH [of w1] Cons.prems(2) p show ?case
    by (auto split: sum.splits prod.splits)
qed simp

lemma credentials_ok_replay:
  assumes ok: "credentials_ok url_parse endpoint creds w" and run: "replay_spool_locked libs up w = (res, w')"
  shows "credentials_ok url_parse endpoint creds w'"
proof -
  have "credentials_ok url_parse endpoint creds w1" if "replay_records rs (w\<lparr>dw_disk := d\<rparr>) = (n, w1)" for rs d n w1
    using credentials_ok_records [OF _ that] ok by simp
  with ok run show ?thesis
    by (auto simp: replay_spool_locked_def split: sum.splits prod.splits option.splits)
qed

lemma credentials_ok_deliver:
  "\<lbrakk>credentials_ok url_parse endpoint creds w; deliver libs up try_from event w = (res, w')\<rbrakk> \<Longrightarrow>
     credentials_ok url_parse endpoint creds w'"
  by (auto simp: deliver_def deliver_request_def dest: credentials_ok_post split: sum.splits prod.splits if_splits)

lemma credentials_ok_set:
  assumes "credentials_ok url_parse endpoint creds w" and "set_managed_bearer url_parse token audience (dw_manager w) = Ok m"
  shows "credentials_ok url_parse endpoint (creds @ [(token, audience)]) (w\<lparr>dw_manager := m\<rparr>)"
  using assms credentials_ok_more [OF assms(1), of "[(token, audience)]"]
  by (auto simp: set_managed_bearer_def credentials_ok_def issued_for_def split: if_splits sum.splits)

lemma credentials_ok_put:
  assumes ok: "credentials_ok url_parse endpoint creds w"
    and run: "set_managed_bearer_and_replay libs url_parse up token audience w = (res, w')"
  shows "credentials_ok url_parse endpoint (creds @ [(token, audience)]) w'"
proof (cases "set_managed_bearer url_parse token audience (dw_manager w)")
  case (Inl e)
  with ok run show ?thesis by (auto simp: set_managed_bearer_and_replay_def intro: credentials_ok_more)
next
  case (Inr m)
  with run have "replay_spool_locked libs up (w\<lparr>dw_manager := m\<rparr>) = (res, w')" by (simp add: set_managed_bearer_and_replay_def)
  with credentials_ok_replay credentials_ok_set [OF ok Inr] show ?thesis by blast
qed

lemma credentials_ok_clear:
  "\<lbrakk>credentials_ok url_parse endpoint creds w; uploader_clear_managed_bearer w = (res, w')\<rbrakk> \<Longrightarrow>
     credentials_ok url_parse endpoint creds w'"
  by (auto simp: uploader_clear_managed_bearer_def clear_managed_bearer_def credentials_ok_def split: if_splits sum.splits)

lemma credentials_ok_count:
  "\<lbrakk>credentials_ok url_parse endpoint creds w; spooled_event_count up w = (res, w')\<rbrakk> \<Longrightarrow>
     credentials_ok url_parse endpoint creds w'"
  by (auto simp: spooled_event_count_def split: if_splits sum.splits prod.splits)

lemma credentials_ok_control:
  assumes "credentials_ok url_parse endpoint creds w"
    and "control_handle libs url_parse up expected header request w = (reply, w')"
  shows "credentials_ok url_parse endpoint (creds @ (case request of
      PutCredential token audience \<Rightarrow> if control_authorized expected header then [(token, audience)] else []
    | _ \<Rightarrow> [])) w'"
  using assms
  by (cases request)
    (auto simp: control_handle_def split: if_splits sum.splits prod.splits
       intro: credentials_ok_put credentials_ok_clear credentials_ok_count)

lemma delivery_reach_ok:
  "delivery_reach libs url_parse up try_from expected creds w \<Longrightarrow> credentials_ok url_parse (up_endpoint up) creds w"
proof (induction rule: delivery_reach.induct)
  case (start d m d' w)
  then obtain origin where "http_origin url_parse (up_endpoint up) = Ok origin"
    "dw_manager w = \<lparr>am_mode = ModeManagedBearer, am_endpoint_origin = origin, am_authentication = authentication_none,
       am_state = CredentialMissing\<rparr>"
    by (auto simp: manager_load_def load_authentication_def split: sum.splits)
  with start(3) show ?case by (simp add: credentials_ok_def)
next
  case (controls creds w header request reply w' creds')
  then show ?case by (simp add: credentials_ok_control)
qed (auto intro: credentials_ok_deliver credentials_ok_replay)

section \<open>Properties\<close>

text \<open>A plugin for the witnesses: its lines are \<open>r\<close>, the request and a closing brace.\<close>

definition demo_libs :: "bytes spool_libs" where
  "demo_libs =
     \<lparr>sl_from_slice = (\<lambda>line.
        if 2 \<le> length line \<and> hd line = CHR ''r'' \<and> last line = CHR ''}''
        then Some \<lparr>sr_reason = ''r'', sr_request = butlast (tl line)\<rparr> else None),
      sl_to_vec = (\<lambda>r.
        if sr_reason r = ''r'' \<and> CHR 0x0A \<notin> set (sr_request r) then Some (''r'' @ sr_request r @ ''}'') else None),
      sl_error_text = (\<lambda>e. ''r''), sl_pid = 7, sl_mode = 420\<rparr>"

definition demo_uploader :: uploader where
  "demo_uploader = \<lparr>up_endpoint = ''https://d/in'', up_spool_enabled = True, up_spool_path = ''/s/spool.jsonl''\<rparr>"

definition demo_url :: "bytes \<Rightarrow> parsed_url option" where
  "demo_url url = (if take 9 url = ''https://d'' then Some \<lparr>pu_scheme = ''https'', pu_origin = ''https://d''\<rparr> else None)"

definition demo_manager :: authentication_manager where
  "demo_manager = \<lparr>am_mode = ModeManagedBearer, am_endpoint_origin = ''https://d'', am_authentication = from_bearer ''t'',
     am_state = Configured\<rparr>"

definition demo_world :: "files \<Rightarrow> fs_fault list \<Rightarrow> post_reply list \<Rightarrow> bytes delivery_world" where
  "demo_world files faults replies =
     \<lparr>dw_manager = demo_manager, dw_disk = \<lparr>dk_files = files, dk_faults = faults, dk_trace = []\<rparr>, dw_replies = replies,
      dw_sent = [], dw_answers = []\<rparr>"

definition demo_session :: "bytes list \<Rightarrow> bytes broker_session" where
  "demo_session events = \<lparr>bs_connect = Ok (), bs_startup = Ok (), bs_items = map Ok events, bs_closed = True\<rparr>"

lemma demo_laws: "spool_laws demo_libs"
  by (auto simp: spool_laws_def demo_libs_def butlast_append split: if_splits)

lemma demo_path: "path_file_name (up_spool_path demo_uploader) = Some ''spool.jsonl''"
  by code_simp

lemma pair_of_fst: "fst p = a \<Longrightarrow> p = (a, snd p)"
  by (cases p) simp

text \<open>
  C25. A run of the delivery worker that ends normally has lost nothing and invented nothing: what the destination has
  accepted together with what the spool holds is, as a multiset, what it was before plus one request for every event
  received, in spite of failing sends, refused requests and a changing spool. Accepted is what the destination's own answer
  accepts: a request that could not be sent, or was answered with 401, 503 or another status, with a body that cannot be
  read, or with rejected events, is in the spool.
\<close>

theorem worker_loses_nothing:
  assumes "spool_laws libs" "path_file_name (up_spool_path up) = Some name"
    and "spool_holds libs (up_spool_path up) (dw_disk w) rs"
    and "run_worker libs up try_from session w = (Ok u, w')"
  shows "\<exists>events qs rs'. bs_items session = map Ok events \<and> map try_from events = map Ok qs
    \<and> spool_holds libs (up_spool_path up) (dw_disk w') rs'
    \<and> mset (dw_accepted w') + mset (map sr_request rs') = mset (dw_accepted w) + mset (map sr_request rs) + mset qs"
  using assms by (rule run_worker_conserves)

theorem worker_loses_nothing_witness:
  "let w = demo_world Map.empty [] [Replied 503 None, Replied 200 (Some (0, []))];
       w' = snd (run_worker demo_libs demo_uploader Ok (demo_session [''a'', ''b'']) w) in
   dw_accepted w' = [''b'']
   \<and> (\<exists>rs'. spool_holds demo_libs ''/s/spool.jsonl'' (dw_disk w') rs' \<and> mset (map sr_request rs') = {#''a''#})"
proof -
  let ?w = "demo_world Map.empty [] [Replied 503 None, Replied 200 (Some (0, []))]"
  let ?r = "run_worker demo_libs demo_uploader Ok (demo_session [''a'', ''b'']) ?w"
  have run: "fst ?r = Ok ()" by code_simp
  have acc: "dw_accepted (snd ?r) = [''b'']" by code_simp
  have holds: "spool_holds demo_libs (up_spool_path demo_uploader) (dw_disk ?w) []"
    by (simp add: spool_holds_def demo_world_def)
  from worker_loses_nothing [OF demo_laws demo_path holds pair_of_fst [OF run]] obtain events qs rs' where
    all: "bs_items (demo_session [''a'', ''b'']) = map Ok events" "map Ok events = (map Ok qs :: (string, bytes) result list)"
      "spool_holds demo_libs (up_spool_path demo_uploader) (dw_disk (snd ?r)) rs'"
      "mset (dw_accepted (snd ?r)) + mset (map sr_request rs') = mset (dw_accepted ?w) + mset (map sr_request ([] :: bytes spool_record list)) + mset qs"
    by blast
  have "events = [''a'', ''b'']" using all(1) by (auto simp: demo_session_def map_eq_Cons_conv)
  with all(2) have "qs = [''a'', ''b'']" by (auto simp: map_eq_Cons_conv)
  moreover have "dw_accepted ?w = []" by (simp add: demo_world_def dw_accepted_def)
  ultimately have "mset (map sr_request rs') = {#''a''#}" using all(4) unfolding acc by simp
  with all(3) acc show ?thesis by (auto simp: demo_uploader_def Let_def intro!: exI [of _ rs'])
qed

text \<open>
  C26. Replaying delivers a prefix of the spooled requests in their order and keeps exactly the rest, as the summary says; when
  it fails, the spool is the one from before. In every state the disk goes through on the way, so after the process dies at any
  point, the spool is the complete old one or the complete new one. (States of the disk as the operations leave them; what a
  power failure does to data that was not yet synced is not modelled.)
\<close>

theorem replay_all_or_nothing:
  assumes "spool_laws libs" and "path_file_name (up_spool_path up) = Some name"
    and "spool_holds libs (up_spool_path up) (dw_disk w) rs" and "replay_spool_locked libs up w = (res, w')"
  shows "old_or_new (up_spool_path up) (dw_disk w) (dw_disk w')
    \<and> (\<exists>k \<le> length rs. dw_accepted w' = dw_accepted w @ map sr_request (take k rs)
        \<and> (case res of
             Err e \<Rightarrow> dk_files (dw_disk w') (up_spool_path up) = dk_files (dw_disk w) (up_spool_path up)
           | Ok s \<Rightarrow> spool_holds libs (up_spool_path up) (dw_disk w') (drop k rs)
               \<and> s = \<lparr>rs_replayed = k, rs_remaining = length rs - k\<rparr>))"
  using assms by (rule replay_spool_spec)

definition demo_spool :: files where
  "demo_spool = [''/s/spool.jsonl'' \<mapsto> \<lparr>st_content = ''ra}'' @ CHR 0x0A # ''rb}'' @ [CHR 0x0A], st_mode = 420\<rparr>]"

theorem replay_all_or_nothing_witness:
  "let w = demo_world demo_spool [] [Replied 200 (Some (0, [])), Replied 401 None];
       w' = snd (replay_spool_locked demo_libs demo_uploader w) in
   old_or_new ''/s/spool.jsonl'' (dw_disk w) (dw_disk w') \<and> dw_accepted w' = [''a'']
   \<and> spool_holds demo_libs ''/s/spool.jsonl'' (dw_disk w') [\<lparr>sr_reason = ''r'', sr_request = ''b''\<rparr>]"
proof -
  let ?w = "demo_world demo_spool [] [Replied 200 (Some (0, [])), Replied 401 None]"
  let ?r = "replay_spool_locked demo_libs demo_uploader ?w"
  let ?rs = "[\<lparr>sr_reason = ''r'', sr_request = ''a''\<rparr>, \<lparr>sr_reason = ''r'', sr_request = ''b''\<rparr>]"
  have run: "fst ?r = Ok \<lparr>rs_replayed = 1, rs_remaining = 1\<rparr>" by code_simp
  have holds: "spool_holds demo_libs (up_spool_path demo_uploader) (dw_disk ?w) ?rs"
    by (simp add: spool_holds_def demo_world_def demo_spool_def demo_uploader_def demo_libs_def)
  from replay_all_or_nothing [OF demo_laws demo_path holds pair_of_fst [OF run]] show ?thesis
    by (auto simp: demo_uploader_def demo_world_def dw_accepted_def Let_def)
qed

text \<open>
  A managed credential that the destination has refused with 401 is not used again: whatever the worker does afterwards,
  with any spool and any events, it sends nothing and keeps waiting for a new credential.
\<close>

theorem refused_credential_not_reused:
  assumes "am_mode (dw_manager w) = ModeManagedBearer" and "post q w = (Err (HttpStatus 401), w')"
  shows "let w'' = snd (run_worker libs up try_from session w') in
    dw_sent w'' = dw_sent w' \<and> for_request (dw_manager w'') = None"
  using run_worker_without_credential [OF post_unauthorized [OF assms], of libs up try_from session] post_unauthorized [OF assms]
  by (auto simp: same_network_def Let_def)

theorem refused_credential_not_reused_witness:
  "let w' = snd (post ''q'' (demo_world demo_spool [] [Replied 401 None, Replied 200 (Some (0, []))])) in
   dw_sent (snd (run_worker demo_libs demo_uploader Ok (demo_session [''a'']) w')) = [(from_bearer ''t'', ''q'')]"
proof -
  let ?w = "demo_world demo_spool [] [Replied 401 None, Replied 200 (Some (0, []))]"
  have mode: "am_mode (dw_manager ?w) = ModeManagedBearer" by (simp add: demo_world_def demo_manager_def)
  have run: "fst (post ''q'' ?w) = Err (HttpStatus 401)" by code_simp
  have "dw_sent (snd (post ''q'' ?w)) = [(from_bearer ''t'', ''q'')]" by code_simp
  with refused_credential_not_reused [OF mode pair_of_fst [OF run], of demo_libs demo_uploader Ok "demo_session [''a'']"]
  show ?thesis by (simp add: Let_def)
qed

text \<open>
  C27. In a plugin configured with managed credentials, every request that is ever sent carries a bearer token that an
  authorised call of the control API has brought for an audience with the origin of the delivery endpoint, whatever the order
  of events, replays, refusals and control calls.
\<close>

theorem credentials_scoped:
  assumes "delivery_reach libs url_parse up try_from expected creds w"
  shows "list_all (\<lambda>(a, q). issued_for url_parse (up_endpoint up) creds a) (dw_sent w)"
  using delivery_reach_ok [OF assms] by (simp add: credentials_ok_def)

definition demo_start :: "bytes delivery_world" where
  "demo_start = (demo_world demo_spool [] [Replied 200 (Some (0, []))])
     \<lparr>dw_manager := \<lparr>am_mode = ModeManagedBearer, am_endpoint_origin = ''https://d'', am_authentication = authentication_none,
        am_state = CredentialMissing\<rparr>\<rparr>"

definition demo_put :: "bytes delivery_world" where
  "demo_put = snd (control_handle demo_libs demo_url demo_uploader ''Bearer c'' (Some ''Bearer c'')
     (PutCredential '' t '' ''https://d'') demo_start)"

lemma demo_put_reach:
  "delivery_reach demo_libs demo_url demo_uploader (Ok :: bytes \<Rightarrow> (string, bytes) result) ''Bearer c'' [('' t '', ''https://d'')] demo_put"
proof -
  have "delivery_reach demo_libs demo_url demo_uploader (Ok :: bytes \<Rightarrow> (string, bytes) result) ''Bearer c'' [] demo_start"
    by (rule delivery_reach.start)
      (auto simp: manager_load_def load_authentication_def http_origin_def demo_uploader_def demo_url_def demo_start_def demo_world_def)
  from delivery_reach.controls [OF this prod.collapse [symmetric], of _ "Some ''Bearer c''" "PutCredential '' t '' ''https://d''"]
  show ?thesis by (simp add: demo_put_def control_authorized_def)
qed

theorem credentials_scoped_witness:
  "map fst (dw_sent demo_put) = [from_bearer ''t'', from_bearer ''t'']
   \<and> list_all (\<lambda>(a, q). issued_for demo_url ''https://d/in'' [('' t '', ''https://d'')] a) (dw_sent demo_put)"
proof
  show "map fst (dw_sent demo_put) = [from_bearer ''t'', from_bearer ''t'']" by code_simp
  show "list_all (\<lambda>(a, q). issued_for demo_url ''https://d/in'' [('' t '', ''https://d'')] a) (dw_sent demo_put)"
    using credentials_scoped [OF demo_put_reach] by (simp add: demo_uploader_def)
qed

text \<open>
  C28. A line of the spool that cannot be decoded stops the worker: with it in the file, every start ends with a spool error
  before anything is sent and before the broker is connected to, no event is delivered, and the file stays as it is.
\<close>

theorem damaged_spool_stops_worker:
  assumes "dk_faults (dw_disk w) = []" and "dk_files (dw_disk w) (up_spool_path up) = Some f"
    and "decode_lines libs (spool_lines (st_content f)) = None"
  shows "run_worker libs up try_from session w = (Err (SpoolError (up_spool_path up) ''json''), w)"
  using assms by (simp add: run_worker_def replay_spool_locked_def fs_read_def next_fault_def)

theorem damaged_spool_stops_worker_witness:
  "let w = snd (deliver_request demo_libs demo_uploader ''abc'' (demo_world Map.empty [FsWorks, FsWorks, FsFails OtherKind 3] [])) in
   run_worker demo_libs demo_uploader Ok (demo_session [''b'']) w = (Err (SpoolError ''/s/spool.jsonl'' ''json''), w)"
proof -
  let ?w = "snd (deliver_request demo_libs demo_uploader ''abc'' (demo_world Map.empty [FsWorks, FsWorks, FsFails OtherKind 3] []))"
  let ?f = "\<lparr>st_content = ''rab'', st_mode = 420\<rparr>"
  have "dk_faults (dw_disk ?w) = []" by code_simp
  moreover have "dk_files (dw_disk ?w) (up_spool_path demo_uploader) = Some ?f" by code_simp
  moreover have "decode_lines demo_libs (spool_lines (st_content ?f)) = None" by code_simp
  ultimately show ?thesis
    using damaged_spool_stops_worker [of ?w demo_uploader ?f demo_libs Ok "demo_session [''b'']"]
    by (simp add: Let_def demo_uploader_def)
qed

end
