(* ===== verification/Cli_Login.thy ===== *)
theory Cli_Login
  imports Terminal_Auth Delivery_Props
begin

text \<open>
  Signing in and out with the command line (\<^verbatim>\<open>crates/abyss-cli/src/auth.rs\<close>) and its connection to a running delivery worker
  (\<^verbatim>\<open>crates/abyss-cli/src/delivery.rs\<close>). Command line and worker share one disk; a control request reaches the worker's handler
  of \<^verbatim>\<open>Delivery\<close>, unless the transport loses the request or its answer.
\<close>

section \<open>Paths and errors\<close>

definition credential_path :: "bytes \<Rightarrow> bytes" where
  "credential_path root = path_join (path_join root ''auth'') ''credentials.json''"

definition delivery_worker_startup_info_file :: "bytes \<Rightarrow> bytes" where
  "delivery_worker_startup_info_file root = path_join (path_join root ''runtime'') ''delivery-worker-startup.json''"

definition delivery_control_token_file :: "bytes \<Rightarrow> bytes" where
  "delivery_control_token_file root = path_join (path_join root ''runtime'') ''delivery-control.token''"

datatype cli_error =
    CliTerminalAuth terminal_auth_error
  | CliFilesystem string bytes io_kind
  | CliDeliveryRequest
  | CliDeliveryStatus string nat
  | CliDeliveryCredentialRejected
  | CliInvalidConfiguration string

section \<open>The connection to the worker\<close>

record worker_startup_info =
  wi_worker_pid :: nat
  wi_broker_pid :: nat
  wi_control_endpoint :: bytes
  wi_control_token_file :: bytes

record delivery_connection =
  dc_endpoint :: bytes
  dc_authorization :: bytes

text \<open>What the command line uses of a parsed URL, and \<^verbatim>\<open>serde_json\<close> on the startup information.\<close>

record cli_libs =
  ci_startup_info :: "bytes \<Rightarrow> worker_startup_info option"
  ci_url :: "bytes \<Rightarrow> (bytes \<times> bytes option) option"

definition read_startup_info ::
  "cli_libs \<Rightarrow> bytes \<Rightarrow> disk \<Rightarrow> (cli_error, worker_startup_info option) result \<times> disk" where
  "read_startup_info libs root d =
     (case fs_read (delivery_worker_startup_info_file root) d of
        (Err k, d') \<Rightarrow>
          (if k = NotFound then Ok None
           else Err (CliFilesystem ''read delivery worker startup info'' (delivery_worker_startup_info_file root) k), d')
      | (Ok body, d') \<Rightarrow>
          (case ci_startup_info libs body of
             None \<Rightarrow> Err (CliInvalidConfiguration ''delivery worker startup info is invalid'')
           | Some info \<Rightarrow> Ok (Some info), d'))"

definition from_startup_info ::
  "cli_libs \<Rightarrow> bytes \<Rightarrow> worker_startup_info \<Rightarrow> disk \<Rightarrow> (cli_error, delivery_connection) result \<times> disk" where
  "from_startup_info libs root info d =
     (if wi_control_token_file info \<noteq> delivery_control_token_file root
      then (Err (CliInvalidConfiguration ''unexpected control token path''), d)
      else
        (case ci_url libs (wi_control_endpoint info) of
           None \<Rightarrow> (Err (CliInvalidConfiguration ''invalid control endpoint''), d)
         | Some (scheme, host) \<Rightarrow>
             if scheme \<noteq> ''http'' \<or> host \<noteq> Some ''127.0.0.1''
             then (Err (CliInvalidConfiguration ''control endpoint must use IPv4 loopback HTTP''), d)
             else
               (case fs_read (wi_control_token_file info) d of
                  (Err k, d') \<Rightarrow> (Err (CliFilesystem ''read delivery worker control token'' (wi_control_token_file info) k), d')
                | (Ok bs, d') \<Rightarrow>
                    if \<not> utf8_valid bs
                    then (Err (CliFilesystem ''read delivery worker control token'' (wi_control_token_file info) InvalidData), d')
                    else if str_trim bs = [] then (Err (CliInvalidConfiguration ''control token is empty''), d')
                    else (Ok \<lparr>dc_endpoint = wi_control_endpoint info, dc_authorization = ''Bearer '' @ str_trim bs\<rparr>, d'))))"

definition discover ::
  "cli_libs \<Rightarrow> bytes \<Rightarrow> disk \<Rightarrow> (cli_error, delivery_connection option) result \<times> disk" where
  "discover libs root d =
     (case read_startup_info libs root d of
        (Err e, d') \<Rightarrow> (Err e, d')
      | (Ok None, d') \<Rightarrow> (Ok None, d')
      | (Ok (Some info), d') \<Rightarrow> (case from_startup_info libs root info d' of (res, d'') \<Rightarrow> (map_sum id Some res, d'')))"

text \<open>
  The worker behind the endpoint, and what happens to the requests to come: one is handled, or never arrives, or its answer
  is lost. \<open>cw_revoked\<close> collects the tokens the control plane was asked to revoke.
\<close>

datatype transport = Handled | RequestLost | ReplyLost

record ('q, 'e) worker =
  wk_libs :: "'q spool_libs"
  wk_url_parse :: "bytes \<Rightarrow> parsed_url option"
  wk_uploader :: uploader
  wk_expected :: bytes

record 'q cli_world =
  cw_delivery :: "'q delivery_world"
  cw_transport :: "transport list"
  cw_revoked :: "bytes list"

definition next_transport :: "'q cli_world \<Rightarrow> transport \<times> 'q cli_world" where
  "next_transport w = (case cw_transport w of [] \<Rightarrow> (RequestLost, w) | t # ts \<Rightarrow> (t, w\<lparr>cw_transport := ts\<rparr>))"

definition send_control ::
  "('q, 'e) worker \<Rightarrow> delivery_connection \<Rightarrow> 'q control_request \<Rightarrow> 'q cli_world
   \<Rightarrow> (cli_error, control_reply) result \<times> 'q cli_world" where
  "send_control wk c request w =
     (case next_transport w of
        (RequestLost, w') \<Rightarrow> (Err CliDeliveryRequest, w')
      | (t, w') \<Rightarrow>
          (case control_handle (wk_libs wk) (wk_url_parse wk) (wk_uploader wk) (wk_expected wk) (Some (dc_authorization c)) request
              (cw_delivery w') of
             (reply, dw) \<Rightarrow> (if t = Handled then Ok reply else Err CliDeliveryRequest, w'\<lparr>cw_delivery := dw\<rparr>)))"

definition success_response :: "string \<Rightarrow> control_reply \<Rightarrow> (cli_error, control_reply) result" where
  "success_response operation reply =
     (case reply of ControlError status msg \<Rightarrow> Err (CliDeliveryStatus operation status) | _ \<Rightarrow> Ok reply)"

text \<open>An answer of another shape does not decode.\<close>

definition connection_mode ::
  "('q, 'e) worker \<Rightarrow> delivery_connection \<Rightarrow> 'q cli_world \<Rightarrow> (cli_error, authentication_mode) result \<times> 'q cli_world" where
  "connection_mode wk c w =
     (case send_control wk c GetStatus w of
        (Err e, w') \<Rightarrow> (Err e, w')
      | (Ok reply, w') \<Rightarrow>
          (case success_response ''read delivery status'' reply of
             Err e \<Rightarrow> (Err e, w')
           | Ok (ControlStatus endpoint mode state n) \<Rightarrow> (Ok mode, w')
           | Ok _ \<Rightarrow> (Err CliDeliveryRequest, w')))"

definition require_active_credential :: "authentication_state \<Rightarrow> (cli_error, unit) result" where
  "require_active_credential state = (if state = Configured then Ok () else Err CliDeliveryCredentialRejected)"

definition set_bearer_if_managed ::
  "('q, 'e) worker \<Rightarrow> delivery_connection \<Rightarrow> bytes \<Rightarrow> bytes \<Rightarrow> 'q cli_world \<Rightarrow> (cli_error, unit) result \<times> 'q cli_world" where
  "set_bearer_if_managed wk c token audience w =
     (case connection_mode wk c w of
        (Err e, w') \<Rightarrow> (Err e, w')
      | (Ok mode, w') \<Rightarrow>
          if mode \<noteq> ModeManagedBearer then (Ok (), w')
          else
            (case send_control wk c (PutCredential token audience) w' of
               (Err e, w'') \<Rightarrow> (Err e, w'')
             | (Ok reply, w'') \<Rightarrow>
                 (case success_response ''set delivery credential'' reply of
                    Err e \<Rightarrow> (Err e, w'')
                  | Ok (ControlUpdated state summary) \<Rightarrow> (require_active_credential state, w'')
                  | Ok _ \<Rightarrow> (Err CliDeliveryRequest, w''))))"

definition clear_bearer_if_managed ::
  "('q, 'e) worker \<Rightarrow> delivery_connection \<Rightarrow> 'q cli_world \<Rightarrow> (cli_error, unit) result \<times> 'q cli_world" where
  "clear_bearer_if_managed wk c w =
     (case connection_mode wk c w of
        (Err e, w') \<Rightarrow> (Err e, w')
      | (Ok mode, w') \<Rightarrow>
          if mode \<noteq> ModeManagedBearer then (Ok (), w')
          else
            (case send_control wk c DeleteCredential w' of
               (Err e, w'') \<Rightarrow> (Err e, w'')
             | (Ok reply, w'') \<Rightarrow> (map_sum id (\<lambda>_. ()) (success_response ''clear delivery credential'' reply), w'')))"

section \<open>The commands\<close>

definition resolve_control_plane :: "bytes option \<Rightarrow> bytes option \<Rightarrow> (cli_error, bytes) result" where
  "resolve_control_plane value configured =
     (case Option.bind value (\<lambda>v. if str_trim v = [] then None else Some (str_trim v)) of
        Some v \<Rightarrow> Ok v
      | None \<Rightarrow>
          (case configured of
             Some v \<Rightarrow> Ok v
           | None \<Rightarrow> Err (CliInvalidConfiguration ''product.control_plane is required'')))"

text \<open>The disk operations of the command line, on the disk it shares with the worker.\<close>

definition on_disk :: "(disk \<Rightarrow> 'a \<times> disk) \<Rightarrow> 'q cli_world \<Rightarrow> 'a \<times> 'q cli_world" where
  "on_disk f w =
     (case f (dw_disk (cw_delivery w)) of (res, d) \<Rightarrow> (res, w\<lparr>cw_delivery := (cw_delivery w)\<lparr>dw_disk := d\<rparr>\<rparr>))"

text \<open>
  Signing in after the control plane has been resolved and an attempt has been started and polled (\<open>session\<close> is the result
  of \<^const>\<open>sign_in\<close>): the credential is stored, then handed to a worker that is there.
\<close>

definition login_with_session ::
  "cli_libs \<Rightarrow> credential_libs \<Rightarrow> ('q, 'e) worker \<Rightarrow> bytes \<Rightarrow> bytes \<Rightarrow> (terminal_auth_error, native_session) result
   \<Rightarrow> 'q cli_world \<Rightarrow> (cli_error, unit) result \<times> 'q cli_world" where
  "login_with_session libs clibs wk root control_plane session w =
     (case session of
        Err e \<Rightarrow> (Err (CliTerminalAuth e), w)
      | Ok s \<Rightarrow>
          (case on_disk (store_write clibs (credential_path root) (from_session control_plane s)) w of
             (Err e, w1) \<Rightarrow> (Err (CliTerminalAuth e), w1)
           | (Ok _, w1) \<Rightarrow>
               (case on_disk (discover libs root) w1 of
                  (Err e, w2) \<Rightarrow> (Err e, w2)
                | (Ok None, w2) \<Rightarrow> (Ok (), w2)
                | (Ok (Some c), w2) \<Rightarrow>
                    (case on_disk (store_read clibs (credential_path root)) w2 of
                       (Err e, w3) \<Rightarrow> (Err (CliTerminalAuth e), w3)
                     | (Ok cred, w3) \<Rightarrow> set_bearer_if_managed wk c (cf_token cred) (cf_control_plane cred) w3))))"

definition cli_login ::
  "cli_libs \<Rightarrow> credential_libs \<Rightarrow> auth_libs \<Rightarrow> (bytes \<Rightarrow> 'u option) \<Rightarrow> ('q, 'e) worker \<Rightarrow> bytes
   \<Rightarrow> bytes option \<Rightarrow> (cli_error, bytes option) result \<Rightarrow> bytes \<Rightarrow> bytes \<Rightarrow> control_plane \<Rightarrow> login_options \<Rightarrow> nat
   \<Rightarrow> 'q cli_world \<Rightarrow> (cli_error, unit) result \<times> 'q cli_world" where
  "cli_login libs clibs alibs url wk root value product_config state_bytes verifier_bytes cp options now w =
     (case product_config of
        Err e \<Rightarrow> (Err e, w)
      | Ok configured \<Rightarrow>
          (case resolve_control_plane value configured of
             Err e \<Rightarrow> (Err e, w)
           | Ok plane \<Rightarrow>
               (case client_new url plane of
                  Err e \<Rightarrow> (Err (CliTerminalAuth e), w)
                | Ok _ \<Rightarrow>
                    login_with_session libs clibs wk root plane (fst (sign_in alibs state_bytes verifier_bytes cp options now)) w)))"

text \<open>Whether the control plane could be told to revoke the token is only reported.\<close>

definition cli_logout ::
  "cli_libs \<Rightarrow> credential_libs \<Rightarrow> (bytes \<Rightarrow> 'u option) \<Rightarrow> ('q, 'e) worker \<Rightarrow> bytes \<Rightarrow> bytes option
   \<Rightarrow> 'q cli_world \<Rightarrow> (cli_error, unit) result \<times> 'q cli_world" where
  "cli_logout libs clibs url wk root value w =
     (case on_disk (store_read clibs (credential_path root)) w of
        (Err e, w1) \<Rightarrow> (Err (CliTerminalAuth e), w1)
      | (Ok cred, w1) \<Rightarrow>
          (case client_new url (case value of Some v \<Rightarrow> v | None \<Rightarrow> cf_control_plane cred) of
             Err e \<Rightarrow> (Err (CliTerminalAuth e), w1)
           | Ok _ \<Rightarrow>
               (case on_disk (discover libs root) w1 of
                  (Err e, w2) \<Rightarrow> (Err e, w2)
                | (Ok found, w2) \<Rightarrow>
                    (case (case found of None \<Rightarrow> (Ok (), w2) | Some c \<Rightarrow> clear_bearer_if_managed wk c w2) of
                       (Err e, w3) \<Rightarrow> (Err e, w3)
                     | (Ok _, w3) \<Rightarrow>
                         (case on_disk (store_remove (credential_path root)) w3 of
                            (Err e, w4) \<Rightarrow> (Err (CliTerminalAuth e), w4)
                          | (Ok _, w4) \<Rightarrow> (Ok (), w4\<lparr>cw_revoked := cw_revoked w4 @ [cf_token cred]\<rparr>))))))"

section \<open>What the commands leave alone\<close>

lemma credential_name: "path_file_name (credential_path root) = Some ''credentials.json''"
  unfolding credential_path_def by (rule file_name_join) code_simp

lemma startup_name: "path_file_name (delivery_worker_startup_info_file root) = Some ''delivery-worker-startup.json''"
  unfolding delivery_worker_startup_info_file_def by (rule file_name_join) code_simp

lemma temporary_name:
  "path_file_name (credential_temporary libs (credential_path root)) \<noteq> Some ''delivery-worker-startup.json''"
proof (cases "path_parent (credential_path root)")
  case None
  then show ?thesis by (simp add: credential_temporary_def with_extension_def credential_name)
next
  case (Some parent)
  let ?t = "''credentials'' @ ''.'' @ ''tmp.'' @ show_nat (cl_pid libs)"
  have stem: "file_stem ''credentials.json'' = ''credentials''" by code_simp
  have "CHR ''/'' \<notin> set (show_nat (cl_pid libs))"
    by (auto simp: is_ascii_digit_def code_def dest: show_nat_digits)
  then have "name_ok ?t" by (auto simp: name_ok_def part_ok_def)
  from file_name_join [OF this, of parent] Some show ?thesis
    by (simp add: credential_temporary_def with_extension_def credential_name stem)
qed

lemma startup_path_ne:
  "delivery_worker_startup_info_file root \<noteq> credential_path root"
  "delivery_worker_startup_info_file root \<noteq> credential_temporary libs (credential_path root)"
  using credential_name [of root] startup_name [of root] temporary_name [of libs root] by auto

lemma stage_private_keeps: "\<lbrakk>stage_private temporary bs d = (res, d'); temporary \<noteq> q\<rbrakk> \<Longrightarrow> keeps q d d'"
  by (rule credential_stage.stage_keeps)

lemma write_private_keeps:
  assumes run: "write_private_json libs path c d = (res, d')" and ne: "q \<noteq> path" "q \<noteq> credential_temporary libs path"
  shows "keeps q d d'"
proof (cases "cl_to_vec libs c")
  case None
  with run show ?thesis by (auto simp: write_private_json_def)
next
  case (Some bs)
  let ?t = "credential_temporary libs path"
  obtain r1 d1 where 1: "stage_private ?t bs d = (r1, d1)" by fastforce
  obtain r2 d2 where 2: "fs_rename ?t path d1 = (r2, d2)" by fastforce
  obtain r3 d3 where 3: "fs_set_permissions path PRIVATE_MODE d2 = (r3, d3)" by fastforce
  obtain r4 d4 where 4: "fs_remove_file ?t d2 = (r4, d4)" by fastforce
  have k1: "keeps q d d1" using stage_private_keeps [OF 1] ne by auto
  have k2: "keeps q d d2" using keeps_trans [OF k1 fs_keeps(8) [OF 2]] ne by auto
  have k3: "keeps q d d3" using keeps_trans [OF k2 fs_keeps(10) [OF 3]] ne by auto
  have k4: "keeps q d d4" using keeps_trans [OF k2 fs_keeps(9) [OF 4]] ne by auto
  show ?thesis
    using run Some 1 2 3 4 k1 k3 k4 by (cases r1; cases r2) (auto simp: write_private_json_def fs_then_def fs_err_def)
qed

lemma store_write_keeps:
  assumes "store_write libs path c d = (res, d')" and "q \<noteq> path" "q \<noteq> credential_temporary libs path"
  shows "keeps q d d'"
proof (cases "path_parent path")
  case None
  with assms(1) show ?thesis by (auto simp: store_write_def)
next
  case (Some parent)
  obtain r1 d1 where s: "fs_sync d = (r1, d1)" by fastforce
  note k = fs_keeps(1) [OF s, of q]
  show ?thesis
  proof (cases r1)
    case (Inl e)
    with assms(1) s Some k show ?thesis by (auto simp: store_write_def)
  next
    case (Inr u)
    with assms(1) s Some have "write_private_json libs path c d1 = (res, d')" by (simp add: store_write_def)
    from keeps_trans [OF k write_private_keeps [OF this assms(2,3)]] show ?thesis .
  qed
qed

text \<open>Reading changes no file.\<close>

lemma fs_read_same: "fs_read path d = (r, d') \<Longrightarrow> dk_files d' = dk_files d"
  using fs_read_ok(1) [of path d r d'] by simp

lemma store_read_same: "store_read libs path d = (r, d') \<Longrightarrow> dk_files d' = dk_files d"
  by (auto simp: store_read_def split: prod.splits sum.splits dest: fs_read_same)

lemma discover_same:
  assumes "discover libs root d = (r, d')"
  shows "dk_files d' = dk_files d"
proof -
  obtain r1 d1 where 1: "read_startup_info libs root d = (r1, d1)" by fastforce
  then have s1: "dk_files d1 = dk_files d"
    by (auto simp: read_startup_info_def split: prod.splits sum.splits dest: fs_read_same)
  have s2: "dk_files d2 = dk_files d1" if "from_startup_info libs root info d1 = (r2, d2)" for info r2 d2
    using that by (auto simp: from_startup_info_def split: prod.splits sum.splits if_splits option.splits dest: fs_read_same)
  from assms 1 s1 s2 show ?thesis
    by (auto simp: discover_def split: prod.splits sum.splits option.splits)
qed

lemma map_sum_Ok: "map_sum f g x = Ok y \<longleftrightarrow> (\<exists>z. x = Ok z \<and> y = g z)"
  by (cases x) auto

lemma discover_found:
  assumes "discover libs root d = (Ok found, d')"
  shows "found = None \<longleftrightarrow> dk_files d (delivery_worker_startup_info_file root) = None"
proof -
  obtain r b where r: "fs_read (delivery_worker_startup_info_file root) d = (r, b)" by fastforce
  from assms r fs_read_missing [of "delivery_worker_startup_info_file root" d b]
    fs_read_ok(2) [of "delivery_worker_startup_info_file root" d _ b] show ?thesis
    by (cases r) (auto simp: discover_def read_startup_info_def map_sum_Ok split: prod.splits sum.splits option.splits if_splits)
qed

section \<open>What the worker does for a control request\<close>

text \<open>Replaying leaves the credentials alone, or a refusal takes them away.\<close>

lemma post_manager:
  "post q w = (res, w') \<Longrightarrow> dw_manager w' = dw_manager w \<or> am_state (dw_manager w') = AuthRequired"
  by (auto simp: post_def send_request_def Let_def mark_unauthorized_def
      split: option.splits list.splits post_reply.splits if_splits)

lemma replay_records_manager:
  "replay_records rs w = (n, w') \<Longrightarrow> dw_manager w' = dw_manager w \<or> am_state (dw_manager w') = AuthRequired"
proof (induction rs arbitrary: w n w')
  case (Cons r rs)
  obtain res w1 where p: "post (sr_request r) w = (res, w1)" by fastforce
  note P = post_manager [OF p]
  show ?case
  proof (cases res)
    case (Inl e)
    with Cons.prems p P show ?thesis by auto
  next
    case (Inr u)
    obtain m w2 where rec: "replay_records rs w1 = (m, w2)" by fastforce
    from Cons.prems p Inr rec have "w' = w2" by simp
    with Cons.IH [OF rec] P show ?thesis by auto
  qed
qed simp

lemma replay_spool_manager:
  "replay_spool_locked libs up w = (res, w') \<Longrightarrow> dw_manager w' = dw_manager w \<or> am_state (dw_manager w') = AuthRequired"
  by (auto simp: replay_spool_locked_def split: prod.splits sum.splits option.splits dest!: replay_records_manager)

lemma write_replacement_keeps:
  assumes run: "write_replacement libs up rs d = (res, d')" and ne: "q \<noteq> up_spool_path up" "q \<noteq> replacement_path libs up"
  shows "keeps q d d'"
proof -
  let ?t = "replacement_path libs up" and ?p = "up_spool_path up"
  obtain r1 d1 where 1: "fs_create_truncate ?t PRIVATE_MODE d = (r1, d1)" by fastforce
  obtain r2 d2 where 2: "write_records libs up ?t rs d1 = (r2, d2)" by fastforce
  obtain r3 d3 where 3: "fs_sync d2 = (r3, d3)" by fastforce
  obtain r4 d4 where 4: "fs_rename ?t ?p d3 = (r4, d4)" by fastforce
  have k1: "keeps q d d1" using fs_keeps(5) [OF 1] ne by auto
  have k2: "keeps q d d2" using keeps_trans [OF k1 write_records_keeps [OF 2]] ne by auto
  have k3: "keeps q d d3" using k2 fs_keeps(1) [OF 3] by (rule keeps_trans)
  have k4: "keeps q d d4" using keeps_trans [OF k3 fs_keeps(8) [OF 4]] ne by auto
  show ?thesis
    using run 1 2 3 4 k1 k2 k3 k4 by (cases r1; cases r2; cases r3) (auto simp: write_replacement_def spool_io_def fs_then_def fs_err_def)
qed

lemma replace_spool_keeps:
  assumes run: "replace_spool libs up rs d = (res, d')" and ne: "q \<noteq> up_spool_path up" "q \<noteq> replacement_path libs up"
  shows "keeps q d d'"
proof -
  obtain r1 d1 where 1: "fs_remove_file (up_spool_path up) d = (r1, d1)" by fastforce
  obtain r2 d2 where 2: "fs_sync d = (r2, d2)" by fastforce
  obtain r3 d3 where 3: "write_replacement libs up rs d2 = (r3, d3)" by fastforce
  obtain r4 d4 where 4: "fs_remove_file (replacement_path libs up) d3 = (r4, d4)" by fastforce
  have k1: "keeps q d d1" using fs_keeps(9) [OF 1] ne by auto
  have k2: "keeps q d d2" using fs_keeps(1) [OF 2] .
  have k3: "keeps q d d3" using keeps_trans [OF k2 write_replacement_keeps [OF 3 ne]] .
  have k4: "keeps q d d4" using keeps_trans [OF k3 fs_keeps(9) [OF 4]] ne by auto
  show ?thesis
    using run 1 2 3 4 k1 k2 k3 k4
    by (cases r1; cases r2; cases r3) (auto simp: replace_spool_def spool_io_def fs_then_def fs_err_def split: if_splits)
qed

lemma replay_spool_keeps:
  assumes run: "replay_spool_locked libs up w = (res, w')" and ne: "q \<noteq> up_spool_path up" "q \<noteq> replacement_path libs up"
  shows "dk_files (dw_disk w') q = dk_files (dw_disk w) q"
proof -
  obtain r d where rd: "fs_read (up_spool_path up) (dw_disk w) = (r, d)" by fastforce
  note same = fs_read_same [OF rd]
  have disk: "dw_disk w1 = d" if "replay_records rs (w\<lparr>dw_disk := d\<rparr>) = (n, w1)" for rs n w1
    using replay_records_prefix [OF that] by simp
  have "dk_files d2 q = dk_files d q" if "replace_spool libs up rs d = (r2, d2)" for rs r2 d2
    using keeps_same [OF replace_spool_keeps [OF that ne]] .
  with run rd same disk show ?thesis
    by (cases r) (auto simp: replay_spool_locked_def split: prod.splits sum.splits option.splits)
qed

lemma put_credential_keeps:
  assumes run: "set_managed_bearer_and_replay libs url_parse up token audience w = (res, w')"
    and ne: "q \<noteq> up_spool_path up" "q \<noteq> replacement_path libs up"
  shows "dk_files (dw_disk w') q = dk_files (dw_disk w) q"
proof (cases "set_managed_bearer url_parse token audience (dw_manager w)")
  case (Inr m)
  with run have "replay_spool_locked libs up (w\<lparr>dw_manager := m\<rparr>) = (res, w')" by (simp add: set_managed_bearer_and_replay_def)
  from replay_spool_keeps [OF this ne] show ?thesis by simp
qed (use run in \<open>auto simp: set_managed_bearer_and_replay_def\<close>)

lemma put_credential_active:
  assumes run: "set_managed_bearer_and_replay libs url_parse up token audience w = (Ok summary, w')"
    and active: "am_state (dw_manager w') = Configured"
  shows "am_authentication (dw_manager w') = from_bearer (str_trim token)"
proof -
  from run obtain m where m: "set_managed_bearer url_parse token audience (dw_manager w) = Ok m"
    and rep: "replay_spool_locked libs up (w\<lparr>dw_manager := m\<rparr>) = (Ok summary, w')"
    by (auto simp: set_managed_bearer_and_replay_def split: sum.splits)
  have "am_authentication m = from_bearer (str_trim token)"
    using m by (auto simp: set_managed_bearer_def split: if_splits sum.splits)
  moreover from replay_spool_manager [OF rep] active have "dw_manager w' = m" by auto
  ultimately show ?thesis by simp
qed

lemma status_answer:
  assumes "connection_mode wk c w = (Ok mode, w')"
  shows "dk_files (dw_disk (cw_delivery w')) = dk_files (dw_disk (cw_delivery w))
    \<and> dw_manager (cw_delivery w') = dw_manager (cw_delivery w) \<and> mode = am_mode (dw_manager (cw_delivery w))
    \<and> cw_revoked w' = cw_revoked w"
proof -
  obtain r w1 where s: "send_control wk c GetStatus w = (r, w1)" by fastforce
  with assms obtain endpoint state n where r: "r = Ok (ControlStatus endpoint mode state n)" "w1 = w'"
    by (auto simp: connection_mode_def success_response_def split: sum.splits control_reply.splits)
  obtain t w0 where t: "next_transport w = (t, w0)" by fastforce
  then have w0: "cw_delivery w0 = cw_delivery w" "cw_revoked w0 = cw_revoked w"
    by (auto simp: next_transport_def split: list.splits)
  obtain rb b where rb: "fs_read (up_spool_path (wk_uploader wk)) (dw_disk (cw_delivery w)) = (rb, b)" by fastforce
  from s t r w0 rb fs_read_same [OF rb] show ?thesis
    by (cases t; cases rb)
      (auto simp: send_control_def control_handle_def spooled_event_count_def split: if_splits)
qed

lemma put_answer:
  assumes run: "send_control wk c (PutCredential token audience) w = (Ok (ControlUpdated state summary), w')"
  shows "state = am_state (dw_manager (cw_delivery w'))
    \<and> (if state = Configured then am_authentication (dw_manager (cw_delivery w')) = from_bearer (str_trim token) else True)
    \<and> (if q \<noteq> up_spool_path (wk_uploader wk) \<and> q \<noteq> replacement_path (wk_libs wk) (wk_uploader wk)
       then dk_files (dw_disk (cw_delivery w')) q = dk_files (dw_disk (cw_delivery w)) q else True)"
proof -
  obtain t w0 where t: "next_transport w = (t, w0)" by fastforce
  then have w0: "cw_delivery w0 = cw_delivery w" by (auto simp: next_transport_def split: list.splits)
  obtain r dw where p: "set_managed_bearer_and_replay (wk_libs wk) (wk_url_parse wk) (wk_uploader wk) token audience
    (cw_delivery w) = (r, dw)" by fastforce
  have r: "r = Ok summary" and state: "state = am_state (dw_manager dw)" and w': "cw_delivery w' = dw"
    using run t w0 p by (cases t; cases r; auto simp: send_control_def control_handle_def split: if_splits delivery_error.splits
        elim!: credential_error.elims)+
  show ?thesis
    using put_credential_keeps [OF p, of q] put_credential_active [OF p [unfolded r]] state w' by auto
qed

lemma delete_answer:
  assumes run: "send_control wk c DeleteCredential w = (Ok reply, w')" and ok: "success_response operation reply = Ok r"
  shows "for_request (dw_manager (cw_delivery w')) = None \<and> dw_disk (cw_delivery w') = dw_disk (cw_delivery w)
    \<and> cw_revoked w' = cw_revoked w"
proof -
  obtain t w0 where t: "next_transport w = (t, w0)" by fastforce
  then have w0: "cw_delivery w0 = cw_delivery w" "cw_revoked w0 = cw_revoked w"
    by (auto simp: next_transport_def split: list.splits)
  show ?thesis
    using run ok t w0
    by (cases t) (auto simp: send_control_def control_handle_def uploader_clear_managed_bearer_def clear_managed_bearer_def
        success_response_def for_request_def split: if_splits control_reply.splits)
qed

lemma set_bearer_spec:
  assumes run: "set_bearer_if_managed wk c token audience w = (Ok u, w')"
    and ne: "q \<noteq> up_spool_path (wk_uploader wk)" "q \<noteq> replacement_path (wk_libs wk) (wk_uploader wk)"
  shows "dk_files (dw_disk (cw_delivery w')) q = dk_files (dw_disk (cw_delivery w)) q
    \<and> (if am_mode (dw_manager (cw_delivery w)) = ModeManagedBearer
       then am_state (dw_manager (cw_delivery w')) = Configured
         \<and> am_authentication (dw_manager (cw_delivery w')) = from_bearer (str_trim token)
       else dw_manager (cw_delivery w') = dw_manager (cw_delivery w))"
proof -
  obtain rm w1 where m: "connection_mode wk c w = (rm, w1)" by fastforce
  with run obtain mode where mode: "rm = Ok mode" by (cases rm) (auto simp: set_bearer_if_managed_def)
  note M = status_answer [OF m [unfolded mode]]
  show ?thesis
  proof (cases "mode = ModeManagedBearer")
    case False
    with run m mode M show ?thesis by (auto simp: set_bearer_if_managed_def)
  next
    case True
    obtain rs w2 where s: "send_control wk c (PutCredential token audience) w1 = (rs, w2)" by fastforce
    from run m mode True s obtain state summary where rs: "rs = Ok (ControlUpdated state summary)" "w2 = w'" "state = Configured"
      by (auto simp: set_bearer_if_managed_def success_response_def require_active_credential_def
          split: sum.splits control_reply.splits if_splits)
    from put_answer [OF s [unfolded rs(1)], of q] rs ne M True show ?thesis by auto
  qed
qed

lemma clear_bearer_spec:
  assumes run: "clear_bearer_if_managed wk c w = (Ok u, w')"
  shows "dk_files (dw_disk (cw_delivery w')) = dk_files (dw_disk (cw_delivery w)) \<and> cw_revoked w' = cw_revoked w
    \<and> (if am_mode (dw_manager (cw_delivery w)) = ModeManagedBearer then for_request (dw_manager (cw_delivery w')) = None
       else dw_manager (cw_delivery w') = dw_manager (cw_delivery w))"
proof -
  obtain rm w1 where m: "connection_mode wk c w = (rm, w1)" by fastforce
  with run obtain mode where mode: "rm = Ok mode" by (cases rm) (auto simp: clear_bearer_if_managed_def)
  note M = status_answer [OF m [unfolded mode]]
  show ?thesis
  proof (cases "mode = ModeManagedBearer")
    case False
    with run m mode M show ?thesis by (auto simp: clear_bearer_if_managed_def)
  next
    case True
    obtain rs w2 where s: "send_control wk c DeleteCredential w1 = (rs, w2)" by fastforce
    from run m mode True s obtain reply r where rs: "rs = Ok reply" "w2 = w'"
      "success_response ''clear delivery credential'' reply = Ok r"
      by (auto simp: clear_bearer_if_managed_def map_sum_Ok split: sum.splits)
    from delete_answer [OF s [unfolded rs(1)] rs(3)] rs(2) M True show ?thesis by auto
  qed
qed

lemma on_disk_case:
  assumes "on_disk f w = (r, w')"
  obtains d where "f (dw_disk (cw_delivery w)) = (r, d)" "w' = w\<lparr>cw_delivery := (cw_delivery w)\<lparr>dw_disk := d\<rparr>\<rparr>"
  using assms by (auto simp: on_disk_def split: prod.splits)

lemma login_spec:
  assumes laws: "credential_laws clibs"
    and ne: "credential_path root \<noteq> up_spool_path (wk_uploader wk)"
      "credential_path root \<noteq> replacement_path (wk_libs wk) (wk_uploader wk)"
    and run: "login_with_session libs clibs wk root plane (Ok s) w = (Ok u, w')"
  shows "holds_credential clibs (credential_path root) (from_session plane s) (dk_files (dw_disk (cw_delivery w')))
    \<and> (if dk_files (dw_disk (cw_delivery w)) (delivery_worker_startup_info_file root) \<noteq> None
          \<and> am_mode (dw_manager (cw_delivery w)) = ModeManagedBearer
       then am_state (dw_manager (cw_delivery w')) = Configured
         \<and> am_authentication (dw_manager (cw_delivery w')) = from_bearer (str_trim (ns_token s))
       else dw_manager (cw_delivery w') = dw_manager (cw_delivery w))"
proof -
  let ?p = "credential_path root" and ?i = "delivery_worker_startup_info_file root" and ?c = "from_session plane s"
  obtain r1 w1 where 1: "on_disk (store_write clibs ?p ?c) w = (r1, w1)" by fastforce
  with run have r1: "r1 = Ok ()" by (cases r1) (auto simp: login_with_session_def)
  obtain d1 where d1: "store_write clibs ?p ?c (dw_disk (cw_delivery w)) = (r1, d1)"
    "w1 = w\<lparr>cw_delivery := (cw_delivery w)\<lparr>dw_disk := d1\<rparr>\<rparr>" using 1 by (rule on_disk_case)
  from store_write_spec [OF laws credential_name d1(1)] r1 have held: "holds_credential clibs ?p ?c (dk_files d1)" by simp
  have info: "dk_files d1 ?i = dk_files (dw_disk (cw_delivery w)) ?i"
    using keeps_same [OF store_write_keeps [OF d1(1) startup_path_ne]] .
  obtain r2 w2 where 2: "on_disk (discover libs root) w1 = (r2, w2)" by fastforce
  with run 1 r1 obtain found where r2: "r2 = Ok found" by (cases r2) (auto simp: login_with_session_def)
  obtain d2 where d2: "discover libs root d1 = (r2, d2)" "w2 = w1\<lparr>cw_delivery := (cw_delivery w1)\<lparr>dw_disk := d2\<rparr>\<rparr>"
    using 2 d1(2) by (auto elim: on_disk_case)
  note same2 = discover_same [OF d2(1)] and found = discover_found [OF d2(1) [unfolded r2]]
  show ?thesis
  proof (cases found)
    case None
    with run 1 2 r1 r2 have "w' = w2" by (simp add: login_with_session_def)
    with None found held same2 info d1(2) d2(2) show ?thesis by simp
  next
    case (Some c)
    obtain r3 w3 where 3: "on_disk (store_read clibs ?p) w2 = (r3, w3)" by fastforce
    with run 1 2 r1 r2 Some obtain cred where r3: "r3 = Ok cred"
      and set: "set_bearer_if_managed wk c (cf_token cred) (cf_control_plane cred) w3 = (Ok u, w')"
      by (cases r3) (auto simp: login_with_session_def)
    obtain d3 where d3: "store_read clibs ?p d2 = (r3, d3)" "w3 = w2\<lparr>cw_delivery := (cw_delivery w2)\<lparr>dw_disk := d3\<rparr>\<rparr>"
      using 3 d2(2) by (auto elim: on_disk_case)
    have held2: "holds_credential clibs ?p ?c (dk_files d2)" using held same2 by simp
    have cred: "cred = ?c"
      using d3(1) r3 held2 by (auto simp: store_read_def holds_credential_def fs_read_def
          split: prod.splits sum.splits option.splits if_splits fs_fault.splits dest!: next_fault_through)
    have "dk_files (dw_disk (cw_delivery w')) ?p = dk_files d2 ?p"
      using set_bearer_spec [OF set ne] store_read_same [OF d3(1)] d3(2) by simp
    then have "holds_credential clibs ?p ?c (dk_files (dw_disk (cw_delivery w')))"
      using held2 by (simp add: holds_credential_def)
    moreover have "dk_files (dw_disk (cw_delivery w)) ?i \<noteq> None" using found Some info by simp
    ultimately show ?thesis
      using set_bearer_spec [OF set ne] cred d1(2) d2(2) d3(2) by (simp add: from_session_def)
  qed
qed

lemma store_remove_ok:
  assumes "store_remove path d = (Ok u, d')"
  shows "dk_files d' path = None"
proof -
  obtain r d1 where r: "fs_remove_file path d = (r, d1)" by fastforce
  with assms have "case r of Ok u \<Rightarrow> True | Err k \<Rightarrow> k = NotFound" "d1 = d'"
    by (auto simp: store_remove_def split: sum.splits if_splits)
  with fs_remove_file_ok [OF r] show ?thesis by blast
qed

lemma logout_spec:
  assumes run: "cli_logout libs clibs url wk root value w = (Ok u, w')"
  shows "\<exists>cred. (case dk_files (dw_disk (cw_delivery w)) (credential_path root) of
        None \<Rightarrow> False | Some f \<Rightarrow> cl_from_str clibs (st_content f) = Some cred)
    \<and> dk_files (dw_disk (cw_delivery w')) (credential_path root) = None
    \<and> cw_revoked w' = cw_revoked w @ [cf_token cred]
    \<and> (if dk_files (dw_disk (cw_delivery w)) (delivery_worker_startup_info_file root) \<noteq> None
          \<and> am_mode (dw_manager (cw_delivery w)) = ModeManagedBearer
       then for_request (dw_manager (cw_delivery w')) = None
       else dw_manager (cw_delivery w') = dw_manager (cw_delivery w))"
proof -
  let ?p = "credential_path root" and ?i = "delivery_worker_startup_info_file root"
  obtain r1 w1 where 1: "on_disk (store_read clibs ?p) w = (r1, w1)" by fastforce
  with run obtain cred where r1: "r1 = Ok cred" by (cases r1) (auto simp: cli_logout_def)
  obtain d1 where d1: "store_read clibs ?p (dw_disk (cw_delivery w)) = (r1, d1)"
    "w1 = w\<lparr>cw_delivery := (cw_delivery w)\<lparr>dw_disk := d1\<rparr>\<rparr>" using 1 by (rule on_disk_case)
  have cred: "case dk_files (dw_disk (cw_delivery w)) ?p of None \<Rightarrow> False | Some f \<Rightarrow> cl_from_str clibs (st_content f) = Some cred"
    using d1(1) r1 by (auto simp: store_read_def fs_read_def
        split: prod.splits sum.splits option.splits if_splits fs_fault.splits)
  obtain r2 w2 where 2: "on_disk (discover libs root) w1 = (r2, w2)" by fastforce
  from run 1 r1 2 obtain found where r2: "r2 = Ok found" by (cases r2) (auto simp: cli_logout_def split: sum.splits)
  obtain d2 where d2: "discover libs root d1 = (r2, d2)" "w2 = w1\<lparr>cw_delivery := (cw_delivery w1)\<lparr>dw_disk := d2\<rparr>\<rparr>"
    using 2 d1(2) by (auto elim: on_disk_case)
  have found: "found = None \<longleftrightarrow> dk_files (dw_disk (cw_delivery w)) ?i = None"
    using discover_found [OF d2(1) [unfolded r2]] store_read_same [OF d1(1)] by simp
  obtain r3 w3 where 3: "(case found of None \<Rightarrow> (Ok (), w2) | Some c \<Rightarrow> clear_bearer_if_managed wk c w2) = (r3, w3)" by fastforce
  obtain r4 w4 where 4: "on_disk (store_remove ?p) w3 = (r4, w4)" by fastforce
  from run 1 r1 2 r2 3 4 have ok: "r3 = Ok ()" "r4 = Ok ()" "w' = w4\<lparr>cw_revoked := cw_revoked w4 @ [cf_token cred]\<rparr>"
    by (auto simp: cli_logout_def split: sum.splits)
  obtain d4 where d4: "store_remove ?p (dw_disk (cw_delivery w3)) = (r4, d4)"
    "w4 = w3\<lparr>cw_delivery := (cw_delivery w3)\<lparr>dw_disk := d4\<rparr>\<rparr>" using 4 by (rule on_disk_case)
  have "dk_files d4 ?p = None" using store_remove_ok d4(1) ok(2) by blast
  moreover have "cw_revoked w3 = cw_revoked w \<and>
      (if found \<noteq> None \<and> am_mode (dw_manager (cw_delivery w)) = ModeManagedBearer
       then for_request (dw_manager (cw_delivery w3)) = None
       else dw_manager (cw_delivery w3) = dw_manager (cw_delivery w))"
    using 3 ok(1) clear_bearer_spec [of wk _ w2 "()" w3] d1(2) d2(2) by (cases found) auto
  ultimately show ?thesis using cred found ok(3) d4(2) by (intro exI [of _ cred]) auto
qed

section \<open>Properties\<close>

text \<open>A command line with a managed worker beside it, for the witnesses.\<close>

definition demo_root :: bytes where
  "demo_root = ''/r''"

definition demo_cli_libs :: cli_libs where
  "demo_cli_libs =
     \<lparr>ci_startup_info = (\<lambda>bs. Some \<lparr>wi_worker_pid = 1, wi_broker_pid = 2, wi_control_endpoint = ''http://127.0.0.1:9'',
        wi_control_token_file = delivery_control_token_file demo_root\<rparr>),
      ci_url = (\<lambda>url. Some (''http'', Some ''127.0.0.1''))\<rparr>"

definition demo_worker :: "(bytes, bytes) worker" where
  "demo_worker = \<lparr>wk_libs = demo_libs, wk_url_parse = demo_url, wk_uploader = demo_uploader, wk_expected = ''Bearer k''\<rparr>"

definition demo_control_plane :: control_plane where
  "demo_control_plane =
     \<lparr>cp_start = (\<lambda>q. Ok \<lparr>sp_attempt_id = ''1'', sp_poll_token = ''p'', sp_verification_url = ''v'', sp_expires_at = 9,
        sp_poll_interval_seconds = 0\<rparr>),
      cp_poll = (\<lambda>n q. Ok (if n = 0 then PollPending else PollCompleted)), cp_poll_time = (\<lambda>n. 5),
      cp_exchange = (\<lambda>q. Ok demo_native_session), cp_oversleep = (\<lambda>n. 1), cp_last_instant = 1000000\<rparr>"

definition demo_auth_libs :: auth_libs where
  "demo_auth_libs = \<lparr>al_base64_url = id, al_sha256 = rev\<rparr>"

definition demo_cli_world :: "files \<Rightarrow> bytes cli_world" where
  "demo_cli_world files =
     \<lparr>cw_delivery = demo_start\<lparr>dw_disk := \<lparr>dk_files = files, dk_faults = [], dk_trace = []\<rparr>\<rparr>,
      cw_transport = [Handled, Handled], cw_revoked = []\<rparr>"

definition demo_runtime_files :: files where
  "demo_runtime_files =
     [delivery_worker_startup_info_file demo_root \<mapsto> \<lparr>st_content = ''i'', st_mode = 0\<rparr>,
      delivery_control_token_file demo_root \<mapsto> \<lparr>st_content = ''k'', st_mode = 0\<rparr>]"

text \<open>
  C31. A login that reports success has stored the session it obtained, readable for the next command, and a running delivery
  worker with managed credentials now sends with exactly this session's token; a worker that is not managed, or not there, is
  left alone.
\<close>

theorem login_hands_over_session:
  assumes "credential_laws clibs"
    and "credential_path root \<noteq> up_spool_path (wk_uploader wk)"
    and "credential_path root \<noteq> replacement_path (wk_libs wk) (wk_uploader wk)"
    and run: "cli_login libs clibs alibs url wk root value product_config sb vb cp options now w = (Ok u, w')"
  shows "\<exists>s plane. fst (sign_in alibs sb vb cp options now) = Ok s
    \<and> holds_credential clibs (credential_path root) (from_session plane s) (dk_files (dw_disk (cw_delivery w')))
    \<and> (if dk_files (dw_disk (cw_delivery w)) (delivery_worker_startup_info_file root) \<noteq> None
          \<and> am_mode (dw_manager (cw_delivery w)) = ModeManagedBearer
       then for_request (dw_manager (cw_delivery w')) = Some (from_bearer (str_trim (ns_token s)))
       else dw_manager (cw_delivery w') = dw_manager (cw_delivery w))"
proof -
  from run obtain plane where l: "login_with_session libs clibs wk root plane (fst (sign_in alibs sb vb cp options now)) w = (Ok u, w')"
    by (auto simp: cli_login_def split: sum.splits)
  then obtain s where s: "fst (sign_in alibs sb vb cp options now) = Ok s"
    by (cases "fst (sign_in alibs sb vb cp options now)") (auto simp: login_with_session_def)
  from login_spec [OF assms(1-3) l [unfolded s]] s show ?thesis
    by (intro exI [of _ s] exI [of _ plane]) (auto simp: for_request_def)
qed

theorem login_hands_over_session_witness:
  "let w' = snd (cli_login demo_cli_libs demo_credential_libs demo_auth_libs Some demo_worker demo_root (Some '' https://d '') (Ok None)
       ''a'' ''b'' demo_control_plane \<lparr>lo_timeout_seconds = 2, lo_poll_interval_seconds = None\<rparr> 0 (demo_cli_world demo_runtime_files)) in
   for_request (dw_manager (cw_delivery w')) = Some (from_bearer ''t'')"
proof -
  let ?w = "demo_cli_world demo_runtime_files" and ?o = "\<lparr>lo_timeout_seconds = 2, lo_poll_interval_seconds = None\<rparr>"
  let ?r = "cli_login demo_cli_libs demo_credential_libs demo_auth_libs Some demo_worker demo_root (Some '' https://d '') (Ok None)
    ''a'' ''b'' demo_control_plane ?o 0 ?w"
  have sess: "fst (sign_in demo_auth_libs ''a'' ''b'' demo_control_plane ?o 0) = Ok demo_native_session"
    by (simp add: sign_in_def attempt_start_def poll_until_authenticated_def demo_control_plane_def poll_loop.simps Let_def
        poll_interval_def)
  have "resolve_control_plane (Some '' https://d '') None = Ok ''https://d''" by code_simp
  moreover have "\<exists>urls. client_new Some ''https://d'' = Ok urls" by (simp add: client_new_def client_paths_def endpoint_url_def)
  moreover have "fst (login_with_session demo_cli_libs demo_credential_libs demo_worker demo_root ''https://d''
    (Ok demo_native_session) ?w) = Ok ()" by code_simp
  ultimately have run: "fst ?r = Ok ()" using sess by (auto simp: cli_login_def)
  have ne: "credential_path demo_root \<noteq> up_spool_path (wk_uploader demo_worker)"
    "credential_path demo_root \<noteq> replacement_path (wk_libs demo_worker) (wk_uploader demo_worker)" by code_simp+
  have there: "dk_files (dw_disk (cw_delivery ?w)) (delivery_worker_startup_info_file demo_root) \<noteq> None" by code_simp
  have mode: "am_mode (dw_manager (cw_delivery ?w)) = ModeManagedBearer" by code_simp
  have tok: "str_trim (ns_token demo_native_session) = ''t''" by code_simp
  from login_hands_over_session [OF demo_credential_laws ne pair_of_fst [OF run]] sess there mode tok
  show ?thesis by (auto simp: Let_def)
qed

text \<open>
  After a logout that reports success the credential file is gone, the control plane was asked to revoke the token it
  held, and a running delivery worker with managed credentials has none to send any more.
\<close>

theorem logout_forgets_session:
  assumes "cli_logout libs clibs url wk root value w = (Ok u, w')"
  shows "\<exists>cred. (case dk_files (dw_disk (cw_delivery w)) (credential_path root) of
        None \<Rightarrow> False | Some f \<Rightarrow> cl_from_str clibs (st_content f) = Some cred)
    \<and> dk_files (dw_disk (cw_delivery w')) (credential_path root) = None
    \<and> cw_revoked w' = cw_revoked w @ [cf_token cred]
    \<and> (if dk_files (dw_disk (cw_delivery w)) (delivery_worker_startup_info_file root) \<noteq> None
          \<and> am_mode (dw_manager (cw_delivery w)) = ModeManagedBearer
       then for_request (dw_manager (cw_delivery w')) = None
       else dw_manager (cw_delivery w') = dw_manager (cw_delivery w))"
  using assms by (rule logout_spec)

theorem logout_forgets_session_witness:
  "let w' = snd (cli_logout demo_cli_libs demo_credential_libs Some demo_worker demo_root None
       (demo_cli_world (demo_runtime_files(credential_path demo_root \<mapsto> \<lparr>st_content = ''{}'' @ [CHR 0x0A], st_mode = 0\<rparr>)))) in
   dk_files (dw_disk (cw_delivery w')) (credential_path demo_root) = None \<and> cw_revoked w' = [''t'']
   \<and> for_request (dw_manager (cw_delivery w')) = None"
proof -
  let ?w = "demo_cli_world (demo_runtime_files(credential_path demo_root \<mapsto> \<lparr>st_content = ''{}'' @ [CHR 0x0A], st_mode = 0\<rparr>))"
  let ?r = "cli_logout demo_cli_libs demo_credential_libs Some demo_worker demo_root None ?w"
  have run: "fst ?r = Ok ()" by code_simp
  have there: "dk_files (dw_disk (cw_delivery ?w)) (delivery_worker_startup_info_file demo_root) \<noteq> None" by code_simp
  have mode: "am_mode (dw_manager (cw_delivery ?w)) = ModeManagedBearer" by code_simp
  have cred: "(case dk_files (dw_disk (cw_delivery ?w)) (credential_path demo_root) of
      None \<Rightarrow> None | Some f \<Rightarrow> map_option cf_token (cl_from_str demo_credential_libs (st_content f))) = Some ''t''" by code_simp
  have none: "cw_revoked ?w = []" by code_simp
  from logout_forgets_session [OF pair_of_fst [OF run]] there mode cred none
  show ?thesis by (auto simp: Let_def split: option.splits)
qed

text \<open>A worker that has died without removing its startup information keeps the user from logging out.\<close>

lemma dead_worker_blocks_logout:
  "let w = demo_cli_world (demo_runtime_files(credential_path demo_root \<mapsto> \<lparr>st_content = ''{}'' @ [CHR 0x0A], st_mode = 0\<rparr>))
         \<lparr>cw_transport := []\<rparr>;
       r = cli_logout demo_cli_libs demo_credential_libs Some demo_worker demo_root None w in
   fst r = Err CliDeliveryRequest
   \<and> dk_files (dw_disk (cw_delivery (snd r))) (credential_path demo_root) = Some \<lparr>st_content = ''{}'' @ [CHR 0x0A], st_mode = 0\<rparr>"
  by code_simp

end
