(* ===== verification/Openai_Chat.thy ===== *)
theory Openai_Chat
  imports Json_Value
begin

text \<open>
  Exchanges in OpenAI's protocols (\<^verbatim>\<open>crates/abyss-agent-hook/src/protocol/openai\<close>): the parts the two protocols share
  (\<^verbatim>\<open>shared\<close>) and chat completions (\<^verbatim>\<open>chat_completions\<close>). A response is assembled from its documents, the events of a stream
  or the one JSON body; a \<^verbatim>\<open>u64\<close> index is a natural number.
\<close>

section \<open>Content\<close>

definition is_tool_type :: "bytes \<Rightarrow> bool" where
  "is_tool_type kind \<longleftrightarrow>
     List.member [''tool_call'', ''tool_result'', ''tool_use''] kind \<or> ends_with kind ''_call'' \<or> ends_with kind ''_call_output''"

definition openai_visible_text :: "json \<Rightarrow> bytes option" where
  "openai_visible_text value = visible_text MAX_PARSE_DEPTH is_tool_type value"

definition part_entry :: "json \<Rightarrow> entry_role \<Rightarrow> conversation_entry option" where
  "part_entry part role =
     (case part of
        JsonString text \<Rightarrow> Some (text_entry role text)
      | _ \<Rightarrow>
          (let otherwise = map_option (text_entry role) (openai_visible_text part) in
           case json_str part ''type'' of
             None \<Rightarrow> otherwise
           | Some kind \<Rightarrow>
               if List.member [''input_text'', ''output_text'', ''text'', ''summary_text'', ''reasoning_text''] kind
               then Some (text_entry role (or_empty (conversation_field part ''text'')))
               else if kind = ''refusal'' then Some (text_entry RoleAssistant (or_empty (conversation_field part ''refusal'')))
               else otherwise))"

definition content_entries :: "json option \<Rightarrow> entry_role \<Rightarrow> conversation_entry list" where
  "content_entries content role =
     (case content of
        Some (JsonString text) \<Rightarrow> [text_entry role text]
      | Some (JsonArray parts) \<Rightarrow> List.map_filter (\<lambda>part. part_entry part role) parts
      | _ \<Rightarrow> [])"

definition output_text :: "protocol_libs \<Rightarrow> json \<Rightarrow> bytes" where
  "output_text libs output =
     (case output of
        JsonString text \<Rightarrow> text
      | value \<Rightarrow> (case json_to_text MAX_PARSE_DEPTH value of Some t \<Rightarrow> t | None \<Rightarrow> verbatim libs value))"

definition response_part_text :: "json \<Rightarrow> bytes option" where
  "response_part_text part =
     (case part of
        JsonString text \<Rightarrow> Some text
      | JsonObject members \<Rightarrow>
          if (case json_str part ''type'' of
                None \<Rightarrow> True
              | Some kind \<Rightarrow> List.member [''output_text'', ''text'', ''summary_text'', ''reasoning_text'', ''input_text''] kind)
          then json_str part ''text'' else None
      | _ \<Rightarrow> None)"

section \<open>Output under assembly\<close>

definition reconcile :: "bytes \<Rightarrow> bytes \<Rightarrow> bytes" where
  "reconcile text authoritative =
     (if authoritative = [] then text
      else case strip_prefix text authoritative of Some added \<Rightarrow> text @ added | None \<Rightarrow> authoritative)"

datatype message_part = PartText bytes | PartRefusal bytes

type_synonym message_parts = "(nat \<times> message_part) list"

text \<open>\<^verbatim>\<open>MessageParts::text_part\<close> and a change of the text it answers; a refusal is left alone.\<close>

definition change_text_part :: "nat \<Rightarrow> (bytes \<Rightarrow> bytes) \<Rightarrow> message_parts \<Rightarrow> message_parts" where
  "change_text_part index f parts =
     btree_entry index (PartText []) (\<lambda>p. case p of PartText text \<Rightarrow> PartText (f text) | PartRefusal r \<Rightarrow> PartRefusal r) parts"

definition reconcile_part :: "nat \<Rightarrow> bytes \<Rightarrow> message_parts \<Rightarrow> message_parts" where
  "reconcile_part index authoritative parts =
     (if authoritative \<noteq> [] then change_text_part index (\<lambda>text. reconcile text authoritative) parts else parts)"

definition reconcile_content_part :: "nat \<times> json \<Rightarrow> message_parts \<Rightarrow> message_parts" where
  "reconcile_content_part ip parts =
     (case ip of (index, part) \<Rightarrow>
        case response_part_text part of
          Some text \<Rightarrow> reconcile_part index text parts
        | None \<Rightarrow>
            if json_str part ''type'' = Some ''refusal''
            then (case json_str part ''refusal'' of
                    Some refusal \<Rightarrow> btree_insert index (PartRefusal refusal) parts
                  | None \<Rightarrow> parts)
            else parts)"

definition reconcile_content :: "json \<Rightarrow> message_parts \<Rightarrow> message_parts" where
  "reconcile_content message parts =
     (case json_get message ''content'' of
        Some (JsonArray ps) \<Rightarrow> fold reconcile_content_part (enumerate 0 ps) parts
      | Some (JsonString text) \<Rightarrow> reconcile_part 0 text parts
      | _ \<Rightarrow> (case json_str message ''output_text'' of Some text \<Rightarrow> reconcile_part 0 text parts | None \<Rightarrow> parts))"

definition parts_entries :: "entry_role \<Rightarrow> message_parts \<Rightarrow> conversation_entry list" where
  "parts_entries role parts =
     map (\<lambda>(index, part). case part of PartText text \<Rightarrow> text_entry role text | PartRefusal text \<Rightarrow> text_entry RoleAssistant text)
       parts"

record call_slot =
  cs_call_id :: "bytes option"
  cs_name :: "bytes option"
  cs_input :: bytes
  cs_streamed :: bytes

definition empty_call_slot :: call_slot where
  "empty_call_slot = \<lparr>cs_call_id = None, cs_name = None, cs_input = [], cs_streamed = []\<rparr>"

definition call_slot_entry :: "call_slot \<Rightarrow> conversation_entry" where
  "call_slot_entry c =
     tool_call_entry (cs_call_id c) (cs_name c) (if cs_input c = [] then cs_streamed c else cs_input c)"

record openai_response =
  or_empty_response :: bool
  or_entries :: "conversation_entry list"
  or_completeness :: content_completeness

definition openai_conversation :: "openai_response \<Rightarrow> conversation" where
  "openai_conversation r = \<lparr>cv_entries = or_entries r, cv_completeness = or_completeness r\<rparr>"

section \<open>Usage\<close>

definition saturating_sub_i64 :: "int \<Rightarrow> int \<Rightarrow> int" where
  "saturating_sub_i64 a b = max (- (2 ^ 63)) (min (2 ^ 63 - 1) (a - b))"

definition or_zero :: "int option \<Rightarrow> int" where
  "or_zero n = (case n of None \<Rightarrow> 0 | Some v \<Rightarrow> v)"

definition openai_usage_from_object :: "json \<Rightarrow> parsed_usage option" where
  "openai_usage_from_object object =
     (let input = first_some [int_field object ''input_tokens'', int_field object ''prompt_tokens''];
          output = first_some [int_field object ''output_tokens'', int_field object ''completion_tokens''];
          cache_read = or_zero (first_some
            [nested_int_field object ''input_tokens_details'' ''cached_tokens'',
             nested_int_field object ''prompt_tokens_details'' ''cached_tokens'', int_field object ''cached_tokens'']);
          cache_write = or_zero (first_some
            [nested_int_field object ''input_tokens_details'' ''cache_creation_tokens'',
             nested_int_field object ''prompt_tokens_details'' ''cache_creation_tokens'',
             nested_int_field object ''input_tokens_details'' ''cache_write_tokens'',
             nested_int_field object ''prompt_tokens_details'' ''cache_write_tokens'']);
          reasoning = or_zero (first_some
            [nested_int_field object ''output_tokens_details'' ''reasoning_tokens'',
             nested_int_field object ''completion_tokens_details'' ''reasoning_tokens'', int_field object ''reasoning_tokens'']);
          input = max 0 (saturating_sub_i64 (saturating_sub_i64 (or_zero input) cache_read) cache_write);
          usage = usage_from_parts input cache_read cache_write (or_zero output) reasoning
      in if usage_is_empty usage then None else Some usage)"

fun find_usage :: "nat \<Rightarrow> json \<Rightarrow> parsed_usage list" where
  "find_usage 0 value = []"
| "find_usage (Suc depth) value =
     (case value of
        JsonObject members \<Rightarrow>
          (case openai_usage_from_object value of Some u \<Rightarrow> [u] | None \<Rightarrow> [])
          @ (case json_get value ''usage'' of
               None \<Rightarrow> []
             | Some object \<Rightarrow>
                 if json_is_object object then (case openai_usage_from_object object of Some u \<Rightarrow> [u] | None \<Rightarrow> []) else [])
          @ concat (map (\<lambda>(k, child). find_usage depth child) members)
      | JsonArray items \<Rightarrow> concat (map (find_usage depth) items)
      | _ \<Rightarrow> [])"

text \<open>\<^verbatim>\<open>max_by_key\<close>: of several greatest the last.\<close>

fun max_by_total :: "parsed_usage list \<Rightarrow> parsed_usage option" where
  "max_by_total [] = None"
| "max_by_total (u # us) =
     (case max_by_total us of
        None \<Rightarrow> Some u
      | Some best \<Rightarrow> if pu_total_tokens u \<le> pu_total_tokens best then Some best else Some u)"

definition openai_best_usage :: "json list \<Rightarrow> parsed_usage option" where
  "openai_best_usage values = max_by_total (concat (map (find_usage MAX_PARSE_DEPTH) values))"

section \<open>Images\<close>

definition image_data_url :: "json \<Rightarrow> bytes option" where
  "image_data_url object =
     (case json_get object ''image_url'' of
        None \<Rightarrow> None
      | Some value \<Rightarrow> first_some [json_as_str value, json_str value ''url''])"

text \<open>
  A user message's content is searched with the same function, and its items again where they are user messages; the loop
  over items stops at the limits of the collector.
\<close>

fun collect_openai_input_item :: "protocol_libs \<Rightarrow> json \<Rightarrow> image_collector \<Rightarrow> image_collector"
  and collect_openai_items :: "protocol_libs \<Rightarrow> json list \<Rightarrow> image_collector \<Rightarrow> image_collector"
  and collect_openai_members :: "protocol_libs \<Rightarrow> (bytes \<times> json) list \<Rightarrow> image_collector \<Rightarrow> image_collector" where
  "collect_openai_input_item libs (JsonObject members) c =
     (let value = JsonObject members; item_type = json_str value ''type'' in
      if item_type = Some ''input_image'' \<or> item_type = Some ''image_url''
      then (case image_data_url value of Some url \<Rightarrow> push_data_url libs url c | None \<Rightarrow> c)
      else if json_str value ''role'' = Some ''user'' then collect_openai_members libs members c
      else c)"
| "collect_openai_input_item libs _ c = c"
| "collect_openai_items libs [] c = c"
| "collect_openai_items libs (item # rest) c =
     (let c' = collect_openai_input_item libs item c in
      if collector_is_full c' then c' else collect_openai_items libs rest c')"
| "collect_openai_members libs [] c = c"
| "collect_openai_members libs ((key, child) # rest) c =
     (if key = ''content''
      then (case child of
              JsonArray items \<Rightarrow> collect_openai_items libs items c
            | JsonObject _ \<Rightarrow> collect_openai_input_item libs child c
            | _ \<Rightarrow> c)
      else collect_openai_members libs rest c)"

text \<open>\<open>collect_openai_members\<close> is the lookup of the member \<^verbatim>\<open>content\<close> followed by the search of what it finds.\<close>

definition collect_openai_input :: "protocol_libs \<Rightarrow> json \<Rightarrow> image_collector \<Rightarrow> image_collector" where
  "collect_openai_input libs value c =
     (case value of
        JsonArray items \<Rightarrow> collect_openai_items libs items c
      | JsonObject _ \<Rightarrow> collect_openai_input_item libs value c
      | _ \<Rightarrow> c)"

lemma collect_openai_members_content:
  "collect_openai_members libs members c =
     (case map_of members ''content'' of Some child \<Rightarrow> collect_openai_input libs child c | None \<Rightarrow> c)"
  by (induction members) (auto simp: collect_openai_input_def split: json.splits)

definition extract_openai_request_images :: "protocol_libs \<Rightarrow> json \<Rightarrow> parsed_image list" where
  "extract_openai_request_images libs payload =
     (let c = (case json_get payload ''input'' of Some v \<Rightarrow> collect_openai_input libs v empty_collector | None \<Rightarrow> empty_collector);
          c = (case json_get payload ''messages'' of Some v \<Rightarrow> collect_openai_input libs v c | None \<Rightarrow> c)
      in ic_attachments c)"

section \<open>Identities\<close>

definition response_id :: "json list \<Rightarrow> bytes option" where
  "response_id values =
     find_map (\<lambda>value.
       Option.bind
         (if json_get value ''type'' \<noteq> None then Option.bind (json_get value ''response'') (\<lambda>r. json_get r ''id'')
          else json_get value ''id'') json_as_str) values"

definition metadata_header_value :: "protocol_libs \<Rightarrow> headers \<Rightarrow> bytes \<Rightarrow> bytes option" where
  "metadata_header_value libs hs key =
     (case Option.bind (protocol_header hs ''x-codex-turn-metadata'') (pl_from_slice libs) of
        None \<Rightarrow> None
      | Some value \<Rightarrow> string_field value key)"

definition openai_session_id :: "protocol_libs \<Rightarrow> headers \<Rightarrow> bytes option" where
  "openai_session_id libs hs =
     first_some
       [protocol_header hs ''session-id'', protocol_header hs ''session_id'', protocol_header hs ''thread-id'',
        metadata_header_value libs hs ''session_id'', metadata_header_value libs hs ''thread_id'',
        protocol_header hs ''x-deepseek-harness-session-id'', protocol_header hs ''x-hermes-session-id'',
        opencode_session_id hs, cursor_agent_id hs, protocol_header hs ''x-conversation-id'']"

section \<open>Parsed exchanges\<close>

record parsed_openai =
  po_generates_output :: "bool option"
  po_session_id :: bytes
  po_request_hash :: bytes
  po_request_conversation :: conversation
  po_response_conversation :: conversation
  po_request_images :: "parsed_image list"
  po_usage :: parsed_usage
  po_response_id :: "bytes option"
  po_previous_response_id :: "bytes option"
  po_client_metadata :: "json option"
  po_model :: "bytes option"
  po_event_types :: "bytes list"

definition openai_finish ::
  "protocol_libs \<Rightarrow> json http_exchange \<Rightarrow> sse_documents \<Rightarrow> conversation \<Rightarrow> parsed_image list \<Rightarrow> openai_response
   \<Rightarrow> parsed_openai option" where
  "openai_finish libs ex documents request_conversation request_images response =
     (case request_host libs (req_headers (ex_request ex)) (req_uri (ex_request ex)) of
        None \<Rightarrow> None
      | Some host \<Rightarrow>
          (let response_conversation = openai_conversation response;
               request_json = cb_json (ex_request_body ex);
               usage = (case openai_best_usage (sse_values documents) of
                          Some u \<Rightarrow> u
                        | None \<Rightarrow>
                            (case Option.bind request_json (\<lambda>json. openai_best_usage [json]) of
                               Some u \<Rightarrow> u | None \<Rightarrow> default_usage));
               body_was_truncated = (cb_truncated (ex_request_body ex) \<or> cb_truncated (ex_response_body ex))
           in
           if cv_entries request_conversation = [] \<and> request_images = [] \<and> cv_entries response_conversation = []
              \<and> usage_is_empty usage \<and> \<not> body_was_truncated
           then None
           else
             (let request_hash = exchange_hash libs host ex in
              Some \<lparr>po_generates_output = None,
                    po_session_id = (case openai_session_id libs (req_headers (ex_request ex)) of
                       Some s \<Rightarrow> s | None \<Rightarrow> ''flow-'' @ take 16 request_hash),
                    po_request_hash = request_hash,
                    po_request_conversation = request_conversation,
                    po_response_conversation = response_conversation,
                    po_request_images = request_images,
                    po_usage = usage,
                    po_response_id = response_id (sse_values documents),
                    po_previous_response_id = Option.bind request_json (\<lambda>json. string_field json ''previous_response_id''),
                    po_client_metadata = Option.bind request_json (\<lambda>json. json_get json ''client_metadata''),
                    po_model = first_some [first_model (sse_values documents),
                      Option.bind request_json (\<lambda>json. string_field json ''model'')],
                    po_event_types = concat (map event_types (sse_values documents))\<rparr>)))"

section \<open>Chat completions\<close>

definition call_payload :: "json \<Rightarrow> (json \<times> bytes) option" where
  "call_payload call =
     first_some [map_option (\<lambda>f. (f, ''arguments'')) (json_get call ''function''),
                 map_option (\<lambda>x. (x, ''input'')) (json_get call ''custom'')]"

definition chat_call_name :: "json \<Rightarrow> bytes option" where
  "chat_call_name call = Option.bind (call_payload call) (\<lambda>(payload, _). json_str payload ''name'')"

definition chat_call_input :: "json \<Rightarrow> json option" where
  "chat_call_input call = Option.bind (call_payload call) (\<lambda>(payload, key). json_get payload key)"

definition verbatim_or_empty :: "protocol_libs \<Rightarrow> json option \<Rightarrow> bytes" where
  "verbatim_or_empty libs v = (case v of None \<Rightarrow> [] | Some value \<Rightarrow> verbatim libs value)"

definition tool_message_entry :: "protocol_libs \<Rightarrow> json \<Rightarrow> conversation_entry" where
  "tool_message_entry libs message =
     tool_result_entry (conversation_field message ''tool_call_id'')
       (case json_get message ''content'' of None \<Rightarrow> [] | Some content \<Rightarrow> output_text libs content)"

definition message_call_entries :: "protocol_libs \<Rightarrow> json \<Rightarrow> conversation_entry list" where
  "message_call_entries libs message =
     map (\<lambda>call. tool_call_entry (conversation_field call ''id'') (chat_call_name call) (verbatim_or_empty libs (chat_call_input call)))
       (json_items message ''tool_calls'')"

definition chat_message_entries :: "protocol_libs \<Rightarrow> json \<Rightarrow> conversation_entry list" where
  "chat_message_entries libs message =
     (let role = (case json_str message ''role'' of None \<Rightarrow> RoleUnknown | Some r \<Rightarrow> entry_role_of r) in
      if role = RoleToolResult then [tool_message_entry libs message]
      else
        (case json_str message ''reasoning_content'' of
           Some reasoning \<Rightarrow> if role = RoleAssistant \<and> reasoning \<noteq> [] then [text_entry RoleReasoning reasoning] else []
         | None \<Rightarrow> [])
        @ content_entries (json_get message ''content'') role
        @ (case json_str message ''refusal'' of Some refusal \<Rightarrow> [text_entry RoleAssistant refusal] | None \<Rightarrow> [])
        @ message_call_entries libs message)"

text \<open>The entry of a \<^verbatim>\<open>prompt\<close> that is not blank.\<close>

definition prompt_entries :: "json \<Rightarrow> conversation_entry list" where
  "prompt_entries payload =
     (case json_str payload ''prompt'' of
        None \<Rightarrow> []
      | Some prompt \<Rightarrow> if non_empty_trimmed prompt \<noteq> None then [text_entry RoleUser prompt] else [])"

definition chat_request :: "protocol_libs \<Rightarrow> json option \<Rightarrow> bool \<Rightarrow> conversation" where
  "chat_request libs payload truncated =
     \<lparr>cv_entries = (case payload of
        None \<Rightarrow> []
      | Some p \<Rightarrow> concat (map (chat_message_entries libs) (json_items p ''messages'')) @ prompt_entries p),
      cv_completeness = completeness_of (payload \<noteq> None) truncated\<rparr>"

type_synonym chat_tool_calls = "(nat \<times> call_slot) list"

definition apply_call_delta :: "json \<Rightarrow> call_slot \<Rightarrow> call_slot" where
  "apply_call_delta call slot =
     (let slot = (case conversation_field call ''id'' of
            Some i \<Rightarrow> if i \<noteq> [] then slot\<lparr>cs_call_id := Some i\<rparr> else slot | None \<Rightarrow> slot);
          slot = (case chat_call_name call of
            Some n \<Rightarrow> if n \<noteq> [] then slot\<lparr>cs_name := Some n\<rparr> else slot | None \<Rightarrow> slot)
      in (case Option.bind (chat_call_input call) json_as_str of
            Some input \<Rightarrow> slot\<lparr>cs_streamed := cs_streamed slot @ input\<rparr> | None \<Rightarrow> slot))"

definition tools_apply_delta :: "json \<Rightarrow> chat_tool_calls \<Rightarrow> chat_tool_calls" where
  "tools_apply_delta delta calls =
     fold (\<lambda>call. btree_entry (json_u64_or_0 call ''index'') empty_call_slot (apply_call_delta call))
       (json_items delta ''tool_calls'') calls"

definition tools_reconcile :: "protocol_libs \<Rightarrow> json \<Rightarrow> chat_tool_calls \<Rightarrow> chat_tool_calls" where
  "tools_reconcile libs message calls =
     (case json_array message ''tool_calls'' of
        None \<Rightarrow> calls
      | Some cs \<Rightarrow>
          map (\<lambda>(position, call). (position,
            \<lparr>cs_call_id = conversation_field call ''id'', cs_name = chat_call_name call,
             cs_input = verbatim_or_empty libs (chat_call_input call), cs_streamed = []\<rparr>)) (enumerate 0 cs))"

record chat_choice =
  co_reasoning :: bytes
  co_content :: message_parts
  co_refusal :: bytes
  co_tools :: chat_tool_calls

definition empty_choice :: chat_choice where
  "empty_choice = \<lparr>co_reasoning = [], co_content = [], co_refusal = [], co_tools = []\<rparr>"

definition choice_reconcile :: "protocol_libs \<Rightarrow> json \<Rightarrow> chat_choice \<Rightarrow> chat_choice" where
  "choice_reconcile libs message c =
     \<lparr>co_reasoning = reconcile (co_reasoning c) (or_empty (json_str message ''reasoning_content'')),
      co_content = reconcile_content message (co_content c),
      co_refusal = reconcile (co_refusal c) (or_empty (json_str message ''refusal'')),
      co_tools = tools_reconcile libs message (co_tools c)\<rparr>"

definition push_fragment :: "bytes option \<Rightarrow> message_parts \<Rightarrow> message_parts" where
  "push_fragment fragment parts =
     (case fragment of
        Some content \<Rightarrow> if content \<noteq> [] then change_text_part 0 (\<lambda>text. text @ content) parts else parts
      | None \<Rightarrow> parts)"

definition choice_apply_delta :: "json \<Rightarrow> chat_choice \<Rightarrow> chat_choice" where
  "choice_apply_delta delta c =
     \<lparr>co_reasoning = co_reasoning c @ or_empty (json_str delta ''reasoning_content''),
      co_content = push_fragment (json_str delta ''content'') (co_content c),
      co_refusal = co_refusal c @ or_empty (json_str delta ''refusal''),
      co_tools = tools_apply_delta delta (co_tools c)\<rparr>"

definition choice_entries :: "chat_choice \<Rightarrow> conversation_entry list" where
  "choice_entries c =
     (if co_reasoning c \<noteq> [] then [text_entry RoleReasoning (co_reasoning c)] else [])
     @ parts_entries RoleAssistant (co_content c)
     @ (if co_refusal c \<noteq> [] then [text_entry RoleAssistant (co_refusal c)] else [])
     @ map (\<lambda>(index, call). call_slot_entry call) (co_tools c)"

definition choice_step :: "protocol_libs \<Rightarrow> json \<Rightarrow> chat_choice \<Rightarrow> chat_choice" where
  "choice_step libs choice c =
     (let c = (case json_get choice ''message'' of Some message \<Rightarrow> choice_reconcile libs message c | None \<Rightarrow> c);
          c = (case json_get choice ''delta'' of Some delta \<Rightarrow> choice_apply_delta delta c | None \<Rightarrow> c)
      in c\<lparr>co_content := push_fragment (json_str choice ''text'') (co_content c)\<rparr>)"

definition chat_choices :: "protocol_libs \<Rightarrow> json list \<Rightarrow> (nat \<times> chat_choice) list" where
  "chat_choices libs values =
     fold (\<lambda>choice. btree_entry (json_u64_or_0 choice ''index'') empty_choice (choice_step libs choice))
       (concat (map (\<lambda>value. json_items value ''choices'') values)) []"

definition chat_response :: "protocol_libs \<Rightarrow> json list \<Rightarrow> bool \<Rightarrow> openai_response" where
  "chat_response libs values incomplete =
     (let choices = chat_choices libs values in
      \<lparr>or_empty_response = (choices = []), or_entries = concat (map (\<lambda>(index, c). choice_entries c) choices),
       or_completeness = completeness_of (values \<noteq> []) incomplete\<rparr>)"

definition openai_request_images :: "protocol_libs \<Rightarrow> json http_exchange \<Rightarrow> parsed_image list" where
  "openai_request_images libs ex =
     (case cb_json (ex_request_body ex) of None \<Rightarrow> [] | Some payload \<Rightarrow> extract_openai_request_images libs payload)"

definition parse_chat_completions_exchange :: "protocol_libs \<Rightarrow> json http_exchange \<Rightarrow> parsed_openai option" where
  "parse_chat_completions_exchange libs ex =
     (let request = chat_request libs (cb_json (ex_request_body ex)) (cb_truncated (ex_request_body ex));
          documents = response_documents libs (ex_response_body ex);
          response = chat_response libs (sse_values documents) (sse_incomplete documents)
      in openai_finish libs ex documents request (openai_request_images libs ex) response)"

end
