(* ===== verification/Openai_Responses.thy ===== *)
theory Openai_Responses
  imports Openai_Chat
begin

text \<open>
  The Responses protocol (\<^verbatim>\<open>crates/abyss-agent-hook/src/protocol/openai/responses\<close>): requests, the assembly of a response
  from output items and streamed events, frames of a WebSocket, and the accumulator that collects the frames of a turn.
  Instants are nanoseconds; the pending turns of the accumulator are a list of flows and turns in the order the map has them.
\<close>

section \<open>Tools and reasoning\<close>

definition responses_call_input :: "protocol_libs \<Rightarrow> json \<Rightarrow> bytes" where
  "responses_call_input libs item =
     verbatim_or_empty libs (find_map (json_get item) [''arguments'', ''input'', ''action'', ''code'', ''queries'', ''operation''])"

definition call_entry :: "protocol_libs \<Rightarrow> json \<Rightarrow> conversation_entry" where
  "call_entry libs item =
     tool_call_entry (conversation_field item ''call_id'') (conversation_field item ''name'') (responses_call_input libs item)"

definition output_entry :: "protocol_libs \<Rightarrow> json \<Rightarrow> conversation_entry" where
  "output_entry libs item =
     tool_result_entry (conversation_field item ''call_id'')
       (case json_get item ''output'' of None \<Rightarrow> [] | Some output \<Rightarrow> output_text libs output)"

definition reconcile_call :: "protocol_libs \<Rightarrow> json \<Rightarrow> call_slot \<Rightarrow> call_slot" where
  "reconcile_call libs item call =
     (let input = responses_call_input libs item in
      call\<lparr>cs_call_id := first_some [conversation_field item ''call_id'', cs_call_id call],
           cs_name := first_some [conversation_field item ''name'', cs_name call],
           cs_input := (if input \<noteq> [] then input else cs_input call)\<rparr>)"

definition reasoning_parts_of :: "json \<Rightarrow> bytes \<Rightarrow> (nat \<times> bytes) list option" where
  "reasoning_parts_of item key =
     (case json_array item key of
        None \<Rightarrow> None
      | Some vs \<Rightarrow>
          (let parts = List.map_filter (\<lambda>(index, part).
                 case json_str part ''text'' of None \<Rightarrow> None | Some text \<Rightarrow> if text = [] then None else Some (index, text))
               (enumerate 0 vs)
           in if parts = [] then None else Some parts))"

definition reasoning_parts :: "json \<Rightarrow> (nat \<times> bytes) list option" where
  "reasoning_parts item = find_map (reasoning_parts_of item) [''content'', ''summary'']"

definition reasoning_text :: "json \<Rightarrow> bytes option" where
  "reasoning_text item = map_option (\<lambda>parts. str_join CHR 0x0A (map snd parts)) (reasoning_parts item)"

section \<open>Requests\<close>

definition responses_message_entries :: "json \<Rightarrow> entry_role \<Rightarrow> conversation_entry list" where
  "responses_message_entries item default_role =
     (let role = (case json_str item ''role'' of None \<Rightarrow> default_role | Some r \<Rightarrow> entry_role_of r);
          visible = (case openai_visible_text item of Some text \<Rightarrow> [text_entry role text] | None \<Rightarrow> [])
      in (case json_get item ''content'' of
            Some (JsonString s) \<Rightarrow> content_entries (Some (JsonString s)) role
          | Some (JsonArray vs) \<Rightarrow> content_entries (Some (JsonArray vs)) role
          | _ \<Rightarrow> visible))"

definition item_entries :: "protocol_libs \<Rightarrow> json \<Rightarrow> entry_role \<Rightarrow> conversation_entry list" where
  "item_entries libs item default_role =
     (case item of
        JsonString text \<Rightarrow> [text_entry default_role text]
      | _ \<Rightarrow>
          identify_entries (json_str item ''id'')
            (case json_str item ''type'' of
               None \<Rightarrow> responses_message_entries item default_role
             | Some kind \<Rightarrow>
                 if kind = ''reasoning'' then [text_entry RoleReasoning (or_empty (reasoning_text item))]
                 else if ends_with kind ''_call'' then [call_entry libs item]
                 else if ends_with kind ''_output'' then [output_entry libs item]
                 else responses_message_entries item default_role))"

record responses_request =
  rr_carries_messages :: bool
  rr_entries :: "conversation_entry list"
  rr_completeness :: content_completeness

text \<open>\<open>push_instructions\<close> and \<open>push_input\<close> answer whether there are messages, and their entries.\<close>

definition push_instructions :: "protocol_libs \<Rightarrow> json option \<Rightarrow> bool \<times> conversation_entry list" where
  "push_instructions libs instructions =
     (case instructions of
        None \<Rightarrow> (False, [])
      | Some JsonNull \<Rightarrow> (False, [])
      | Some (JsonString text) \<Rightarrow> (True, [text_entry RoleDeveloper text])
      | Some (JsonArray items) \<Rightarrow> (True, concat (map (\<lambda>item. item_entries libs item RoleDeveloper) items))
      | Some other \<Rightarrow>
          (True, case openai_visible_text other of Some text \<Rightarrow> [text_entry RoleDeveloper text] | None \<Rightarrow> []))"

fun json_is_string :: "json \<Rightarrow> bool" where
  "json_is_string (JsonString s) = True"
| "json_is_string _ = False"

definition push_input :: "protocol_libs \<Rightarrow> json option \<Rightarrow> bool \<times> conversation_entry list" where
  "push_input libs input =
     (case input of
        Some (JsonArray items) \<Rightarrow>
          (items \<noteq> [],
           concat (map (\<lambda>item. item_entries libs item (if json_is_string item then RoleUser else RoleUnknown)) items))
      | Some (JsonString text) \<Rightarrow> (True, [text_entry RoleUser text])
      | Some (JsonObject members) \<Rightarrow> (True, item_entries libs (JsonObject members) RoleUnknown)
      | _ \<Rightarrow> (False, []))"

definition responses_request_parse :: "protocol_libs \<Rightarrow> json option \<Rightarrow> bool \<Rightarrow> responses_request" where
  "responses_request_parse libs payload truncated =
     (let completeness = completeness_of (payload \<noteq> None) truncated in
      case payload of
        None \<Rightarrow> \<lparr>rr_carries_messages = False, rr_entries = [], rr_completeness = completeness\<rparr>
      | Some p \<Rightarrow>
          (let (m1, e1) = push_instructions libs (json_get p ''instructions'');
               (m2, e2) = push_input libs (json_get p ''input'');
               e3 = prompt_entries p
           in \<lparr>rr_carries_messages = (m1 \<or> m2 \<or> e3 \<noteq> []), rr_entries = e1 @ e2 @ e3, rr_completeness = completeness\<rparr>))"

definition responses_conversation :: "responses_request \<Rightarrow> conversation" where
  "responses_conversation r = \<lparr>cv_entries = rr_entries r, cv_completeness = rr_completeness r\<rparr>"

section \<open>Responses\<close>

datatype slot_body =
    SlotMessage message_parts
  | SlotReasoning "(nat \<times> bytes) list"
  | SlotToolCall call_slot
  | SlotToolResult conversation_entry

definition slot_body_for_item :: "bytes option \<Rightarrow> slot_body" where
  "slot_body_for_item item_type =
     (case item_type of
        None \<Rightarrow> SlotMessage []
      | Some kind \<Rightarrow>
          if kind = ''reasoning'' then SlotReasoning []
          else if ends_with kind ''_call'' then SlotToolCall empty_call_slot
          else if ends_with kind ''_output'' then SlotToolResult (tool_result_entry None [])
          else SlotMessage [])"

fun same_slot_kind :: "slot_body \<Rightarrow> slot_body \<Rightarrow> bool" where
  "same_slot_kind (SlotMessage _) (SlotMessage _) = True"
| "same_slot_kind (SlotReasoning _) (SlotReasoning _) = True"
| "same_slot_kind (SlotToolCall _) (SlotToolCall _) = True"
| "same_slot_kind (SlotToolResult _) (SlotToolResult _) = True"
| "same_slot_kind _ _ = False"

record responses_slot =
  rs_item_id :: "bytes option"
  rs_role :: entry_role
  rs_body :: slot_body

definition slot_new :: "slot_body \<Rightarrow> responses_slot" where
  "slot_new body = \<lparr>rs_item_id = None, rs_role = RoleAssistant, rs_body = body\<rparr>"

definition slot_for_text_event :: "bytes \<Rightarrow> responses_slot" where
  "slot_for_text_event kind = slot_new (if prefix ''response.reasoning'' kind then SlotReasoning [] else SlotMessage [])"

text \<open>\<^verbatim>\<open>ResponsesSlot::text_part\<close> and a change of the text it answers.\<close>

definition change_slot_text :: "nat \<Rightarrow> (bytes \<Rightarrow> bytes) \<Rightarrow> responses_slot \<Rightarrow> responses_slot" where
  "change_slot_text index f slot =
     (case rs_body slot of
        SlotMessage parts \<Rightarrow> slot\<lparr>rs_body := SlotMessage (change_text_part index f parts)\<rparr>
      | SlotReasoning parts \<Rightarrow> slot\<lparr>rs_body := SlotReasoning (btree_entry index [] f parts)\<rparr>
      | _ \<Rightarrow> slot)"

definition slot_reconcile :: "nat \<Rightarrow> bytes \<Rightarrow> responses_slot \<Rightarrow> responses_slot" where
  "slot_reconcile index authoritative slot =
     (if authoritative \<noteq> [] then change_slot_text index (\<lambda>text. reconcile text authoritative) slot else slot)"

definition slot_reconcile_item :: "protocol_libs \<Rightarrow> json \<Rightarrow> responses_slot \<Rightarrow> responses_slot" where
  "slot_reconcile_item libs item slot =
     (let body = slot_body_for_item (json_str item ''type'');
          slot = (if same_slot_kind body (rs_body slot) then slot else slot\<lparr>rs_body := body\<rparr>);
          slot = slot\<lparr>rs_role := (case json_str item ''role'' of None \<Rightarrow> RoleAssistant | Some r \<Rightarrow> entry_role_of r)\<rparr>
      in (case rs_body slot of
            SlotMessage parts \<Rightarrow> slot\<lparr>rs_body := SlotMessage (reconcile_content item parts)\<rparr>
          | SlotReasoning parts \<Rightarrow>
              fold (\<lambda>(index, text). slot_reconcile index text)
                (case reasoning_parts item of None \<Rightarrow> [] | Some ps \<Rightarrow> ps) slot
          | SlotToolCall call \<Rightarrow> slot\<lparr>rs_body := SlotToolCall (reconcile_call libs item call)\<rparr>
          | SlotToolResult e \<Rightarrow> slot\<lparr>rs_body := SlotToolResult (output_entry libs item)\<rparr>))"

definition slot_entries :: "responses_slot \<Rightarrow> conversation_entry list" where
  "slot_entries slot =
     identify_entries (rs_item_id slot)
       (case rs_body slot of
          SlotMessage parts \<Rightarrow> parts_entries (rs_role slot) parts
        | SlotReasoning parts \<Rightarrow> [text_entry RoleReasoning (str_join CHR 0x0A (map snd parts))]
        | SlotToolCall call \<Rightarrow> [call_slot_entry call]
        | SlotToolResult e \<Rightarrow> [e])"

type_synonym response_slots = "(nat \<times> responses_slot) list"

definition change_slot :: "nat \<Rightarrow> (responses_slot \<Rightarrow> responses_slot) \<Rightarrow> response_slots \<Rightarrow> response_slots" where
  "change_slot index f slots = btree_entry index (slot_new (SlotMessage [])) f slots"

definition reconcile_output_item :: "protocol_libs \<Rightarrow> nat \<Rightarrow> json \<Rightarrow> response_slots \<Rightarrow> response_slots" where
  "reconcile_output_item libs index item slots =
     change_slot index (\<lambda>slot. let slot = slot_reconcile_item libs item slot in
       slot\<lparr>rs_item_id := first_some [conversation_field item ''id'', rs_item_id slot]\<rparr>) slots"

definition apply_output :: "protocol_libs \<Rightarrow> json list \<Rightarrow> response_slots \<Rightarrow> response_slots" where
  "apply_output libs output slots = fold (\<lambda>(index, item). reconcile_output_item libs index item) (enumerate 0 output) slots"

definition apply_document :: "protocol_libs \<Rightarrow> json \<Rightarrow> response_slots \<Rightarrow> response_slots" where
  "apply_document libs value slots =
     (case json_array value ''output'' of
        Some output \<Rightarrow> apply_output libs output slots
      | None \<Rightarrow>
          if json_get value ''output_text'' \<noteq> None \<or> json_get value ''content'' \<noteq> None
          then change_slot 0 (slot_reconcile_item libs value) slots else slots)"

definition event_part_index :: "json \<Rightarrow> nat" where
  "event_part_index value =
     (case Option.bind (first_some [json_get value ''content_index'', json_get value ''summary_index'']) json_as_u64 of
        None \<Rightarrow> 0 | Some n \<Rightarrow> n)"

definition push_call_delta :: "bytes \<Rightarrow> responses_slot \<Rightarrow> responses_slot" where
  "push_call_delta delta slot =
     (case rs_body slot of
        SlotToolCall call \<Rightarrow> slot\<lparr>rs_body := SlotToolCall (call\<lparr>cs_streamed := cs_streamed call @ delta\<rparr>)\<rparr>
      | _ \<Rightarrow> slot)"

text \<open>\<^verbatim>\<open>apply_event\<close>: the slots after an event, or \<^const>\<open>None\<close> where the value is not one of the events.\<close>

definition apply_event :: "protocol_libs \<Rightarrow> json \<Rightarrow> response_slots \<Rightarrow> response_slots option" where
  "apply_event libs value slots =
     (let output_index = json_u64_or_0 value ''output_index'';
          part_index = event_part_index value;
          kind = or_empty (json_str value ''type'')
      in
      if List.member [''response.output_text.delta'', ''response.reasoning_summary_text.delta'', ''response.reasoning_text.delta''] kind
      then Some (case json_str value ''delta'' of
             Some delta \<Rightarrow> btree_entry output_index (slot_for_text_event kind) (change_slot_text part_index (\<lambda>t. t @ delta)) slots
           | None \<Rightarrow> slots)
      else if List.member [''response.output_text.done'', ''response.reasoning_summary_text.done'', ''response.reasoning_text.done''] kind
      then Some (case json_str value ''text'' of
             Some text \<Rightarrow> btree_entry output_index (slot_for_text_event kind) (slot_reconcile part_index text) slots
           | None \<Rightarrow> slots)
      else if List.member [''response.content_part.done'', ''response.reasoning_summary_part.done''] kind
      then Some (case Option.bind (json_get value ''part'') response_part_text of
             Some text \<Rightarrow> btree_entry output_index (slot_for_text_event kind) (slot_reconcile part_index text) slots
           | None \<Rightarrow> slots)
      else if List.member [''response.function_call_arguments.delta'', ''response.custom_tool_call_input.delta''] kind
      then Some (case json_str value ''delta'' of
             Some delta \<Rightarrow> btree_entry output_index (slot_new (SlotToolCall empty_call_slot)) (push_call_delta delta) slots
           | None \<Rightarrow> slots)
      else if List.member [''response.output_item.added'', ''response.output_item.done''] kind
      then Some (case json_get value ''item'' of
             Some item \<Rightarrow> reconcile_output_item libs output_index item slots
           | None \<Rightarrow> slots)
      else if List.member [''response.completed'', ''response.done''] kind
      then Some (case Option.bind (json_get value ''response'') (\<lambda>r. json_array r ''output'') of
             Some output \<Rightarrow> apply_output libs output slots
           | None \<Rightarrow> slots)
      else None)"

definition apply_value :: "protocol_libs \<Rightarrow> json \<Rightarrow> response_slots \<Rightarrow> response_slots" where
  "apply_value libs value slots =
     (case apply_event libs value slots of Some slots' \<Rightarrow> slots' | None \<Rightarrow> apply_document libs value slots)"

definition responses_response :: "protocol_libs \<Rightarrow> json list \<Rightarrow> bool \<Rightarrow> openai_response" where
  "responses_response libs values incomplete =
     (let slots = fold (apply_value libs) values [] in
      \<lparr>or_empty_response = (slots = []), or_entries = concat (map (\<lambda>(index, slot). slot_entries slot) slots),
       or_completeness = completeness_of (values \<noteq> []) incomplete\<rparr>)"

definition parse_responses_exchange :: "protocol_libs \<Rightarrow> json http_exchange \<Rightarrow> parsed_openai option" where
  "parse_responses_exchange libs ex =
     (let request = responses_request_parse libs (cb_json (ex_request_body ex)) (cb_truncated (ex_request_body ex));
          documents = response_documents libs (ex_response_body ex);
          response = responses_response libs (sse_values documents) (sse_incomplete documents)
      in openai_finish libs ex documents (responses_conversation request) (openai_request_images libs ex) response)"

datatype openai_protocol = Responses | ChatCompletions

fun parse_openai_exchange :: "protocol_libs \<Rightarrow> json http_exchange \<Rightarrow> openai_protocol \<Rightarrow> parsed_openai option" where
  "parse_openai_exchange libs ex ChatCompletions = parse_chat_completions_exchange libs ex"
| "parse_openai_exchange libs ex Responses = parse_responses_exchange libs ex"

section \<open>WebSocket frames\<close>

record openai_ws_response =
  wr_exchange :: parsed_openai
  wr_document :: json
  wr_byte_len :: nat

datatype openai_ws_frame =
    WsRequest parsed_openai
  | WsResponse openai_ws_response
  | WsIrrelevant
  | WsUndecodable websocket_direction

definition is_terminal_event :: "bytes \<Rightarrow> bool" where
  "is_terminal_event kind \<longleftrightarrow> List.member [''response.completed'', ''response.failed'', ''response.incomplete'', ''error''] kind"

definition websocket_json_payload :: "protocol_libs \<Rightarrow> websocket_message \<Rightarrow> json option" where
  "websocket_json_payload libs m =
     (case wm_text m of
        Some text \<Rightarrow> pl_from_slice libs text
      | None \<Rightarrow> Option.bind (wm_binary m) (pl_from_slice libs))"

definition websocket_session_id :: "protocol_libs \<Rightarrow> websocket_message \<Rightarrow> json \<Rightarrow> bytes" where
  "websocket_session_id libs m payload =
     (let hs = req_headers (wm_upgrade_request m) in
      case first_some
        [protocol_header hs ''session-id'', protocol_header hs ''session_id'', protocol_header hs ''thread-id'',
         protocol_header hs ''x-hermes-session-id'', opencode_session_id hs,
         collect_string_field ''session_id'' payload, collect_string_field ''thread_id'' payload,
         collect_string_field ''conversation_id'' payload, collect_string_field ''response_id'' payload,
         response_id [payload], protocol_header hs ''x-conversation-id''] of
        Some s \<Rightarrow> s
      | None \<Rightarrow> ''flow-'' @ pl_show_flow_id libs (flow_id (wm_flow m)))"

fun direction_debug :: "websocket_direction \<Rightarrow> bytes" where
  "direction_debug ClientToServer = ''ClientToServer''"
| "direction_debug ServerToClient = ''ServerToClient''"

definition ws_frame_hash :: "protocol_libs \<Rightarrow> websocket_message \<Rightarrow> bytes \<Rightarrow> json \<Rightarrow> bytes" where
  "ws_frame_hash libs m host payload =
     sha256_hex libs (direction_debug (wm_direction m) @ [CHR 0x00] @ host @ [CHR 0x00]
       @ uri_path libs (req_uri (wm_upgrade_request m)) @ [CHR 0x00] @ show_nat (unat (wm_sequence m)) @ [CHR 0x00]
       @ pl_to_string libs payload)"

text \<open>A frame from the client, and one from the server.\<close>

definition client_frame :: "protocol_libs \<Rightarrow> websocket_message \<Rightarrow> bytes \<Rightarrow> json \<Rightarrow> openai_ws_frame" where
  "client_frame libs m host payload =
     (let request_payload = (case json_get payload ''response'' of Some r \<Rightarrow> r | None \<Rightarrow> payload);
          request = responses_request_parse libs (Some request_payload) False;
          request_images = extract_openai_request_images libs request_payload
      in
      if \<not> rr_carries_messages request \<and> request_images = [] then WsIrrelevant
      else WsRequest
        \<lparr>po_generates_output = Some (string_field payload ''type'' \<noteq> Some ''response.create''
             \<or> Option.bind (json_get request_payload ''generate'') json_as_bool \<noteq> Some False),
         po_session_id = websocket_session_id libs m payload,
         po_request_hash = ws_frame_hash libs m host payload,
         po_request_conversation = responses_conversation request,
         po_response_conversation = empty_conversation,
         po_request_images = request_images,
         po_usage = default_usage,
         po_response_id = None,
         po_previous_response_id = string_field request_payload ''previous_response_id'',
         po_client_metadata = json_get request_payload ''client_metadata'',
         po_model = first_model [payload],
         po_event_types = []\<rparr>)"

definition server_frame :: "protocol_libs \<Rightarrow> websocket_message \<Rightarrow> bytes \<Rightarrow> json \<Rightarrow> openai_ws_frame" where
  "server_frame libs m host payload =
     (let request_payload = (case json_get payload ''response'' of Some r \<Rightarrow> r | None \<Rightarrow> payload);
          usage = (case openai_best_usage [payload] of Some u \<Rightarrow> u | None \<Rightarrow> default_usage);
          relevant = (\<not> or_empty_response (responses_response libs [payload] False) \<or> \<not> usage_is_empty usage
            \<or> (case string_field payload ''type'' of None \<Rightarrow> False | Some kind \<Rightarrow> is_terminal_event kind))
      in
      if \<not> relevant then WsIrrelevant
      else WsResponse
        \<lparr>wr_exchange =
           \<lparr>po_generates_output = None,
            po_session_id = websocket_session_id libs m payload,
            po_request_hash = ws_frame_hash libs m host payload,
            po_request_conversation = responses_conversation (responses_request_parse libs None False),
            po_response_conversation = empty_conversation,
            po_request_images = [],
            po_usage = usage,
            po_response_id = response_id [payload],
            po_previous_response_id = string_field request_payload ''previous_response_id'',
            po_client_metadata = None,
            po_model = first_model [payload],
            po_event_types = event_types payload\<rparr>,
         wr_document = payload,
         wr_byte_len = (case wm_text m of
            Some text \<Rightarrow> length text
          | None \<Rightarrow> (case wm_binary m of Some bs \<Rightarrow> length bs | None \<Rightarrow> 0))\<rparr>)"

definition parse_openai_websocket_message :: "protocol_libs \<Rightarrow> websocket_message \<Rightarrow> openai_ws_frame" where
  "parse_openai_websocket_message libs m =
     (case websocket_json_payload libs m of
        None \<Rightarrow> WsUndecodable (wm_direction m)
      | Some payload \<Rightarrow>
          (case first_some [request_host libs (req_headers (wm_upgrade_request m)) (req_uri (wm_upgrade_request m)),
                 flow_server_name (wm_flow m)] of
             None \<Rightarrow> WsIrrelevant
           | Some host \<Rightarrow>
               (case wm_direction m of
                  ClientToServer \<Rightarrow> client_frame libs m host payload
                | ServerToClient \<Rightarrow> server_frame libs m host payload)))"

section \<open>Turns of a WebSocket\<close>

definition PENDING_TURN_TTL :: nat where
  "PENDING_TURN_TTL = 60 * 10 ^ 9"

definition MAX_PENDING_TURNS :: nat where
  "MAX_PENDING_TURNS = 64"

definition MAX_RESPONSE_DOCUMENTS :: nat where
  "MAX_RESPONSE_DOCUMENTS = 4096"

definition MAX_RESPONSE_DOCUMENT_BYTES :: nat where
  "MAX_RESPONSE_DOCUMENT_BYTES = 16 * 1024 * 1024"

record pending_turn =
  pt_exchange :: "parsed_openai option"
  pt_request_conversation :: "conversation option"
  pt_response_documents :: "json list"
  pt_response_document_bytes :: nat
  pt_response_overflowed :: bool
  pt_request_decode_failed :: bool
  pt_response_decode_failed :: bool
  pt_updated_at :: nat

definition pending_turn_new :: "nat \<Rightarrow> pending_turn" where
  "pending_turn_new now =
     \<lparr>pt_exchange = None, pt_request_conversation = None, pt_response_documents = [], pt_response_document_bytes = 0,
      pt_response_overflowed = False, pt_request_decode_failed = False, pt_response_decode_failed = False, pt_updated_at = now\<rparr>"

definition carries_request_content :: "pending_turn \<Rightarrow> bool" where
  "carries_request_content turn \<longleftrightarrow>
     (case pt_request_conversation turn of None \<Rightarrow> False | Some c \<Rightarrow> cv_entries c \<noteq> [])
     \<or> (case pt_exchange turn of None \<Rightarrow> False | Some ex \<Rightarrow> po_request_images ex \<noteq> [])"

definition merge_request_conversation :: "conversation \<Rightarrow> pending_turn \<Rightarrow> pending_turn" where
  "merge_request_conversation nxt turn =
     (case pt_request_conversation turn of
        None \<Rightarrow> turn\<lparr>pt_request_conversation := Some nxt\<rparr>
      | Some current \<Rightarrow>
          (let current = current\<lparr>cv_entries := cv_entries current @ cv_entries nxt\<rparr>
           in turn\<lparr>pt_request_conversation :=
                Some (if cv_completeness nxt \<noteq> ContentComplete then mark_partial current else current)\<rparr>))"

text \<open>The sum of two lengths of documents stays below \<^verbatim>\<open>usize::MAX\<close>, so the saturating addition is the addition.\<close>

definition buffer_response_document :: "json \<Rightarrow> nat \<Rightarrow> pending_turn \<Rightarrow> pending_turn" where
  "buffer_response_document document byte_len turn =
     (if pt_response_overflowed turn then turn
      else
        (let bs = pt_response_document_bytes turn + byte_len in
         if MAX_RESPONSE_DOCUMENTS \<le> length (pt_response_documents turn) \<or> MAX_RESPONSE_DOCUMENT_BYTES < bs
         then turn\<lparr>pt_response_overflowed := True\<rparr>
         else turn\<lparr>pt_response_document_bytes := bs, pt_response_documents := pt_response_documents turn @ [document]\<rparr>))"

definition append_unique :: "bytes list \<Rightarrow> bytes list \<Rightarrow> bytes list" where
  "append_unique source target = fold (\<lambda>v target. if List.member target v then target else target @ [v]) source target"

definition merge_exchange :: "parsed_openai \<Rightarrow> bool \<Rightarrow> pending_turn \<Rightarrow> pending_turn" where
  "merge_exchange nxt identifies_turn turn =
     (case pt_exchange turn of
        None \<Rightarrow> turn\<lparr>pt_exchange := Some nxt\<rparr>
      | Some current \<Rightarrow>
          (let current = (case po_generates_output nxt of
                 None \<Rightarrow> current
               | Some g \<Rightarrow> current\<lparr>po_generates_output := Some (po_generates_output current = Some True \<or> g)\<rparr>);
               current = (if identifies_turn
                 then current\<lparr>po_session_id := po_session_id nxt, po_request_hash := po_request_hash nxt\<rparr> else current);
               current = (if po_request_images current = [] then current\<lparr>po_request_images := po_request_images nxt\<rparr> else current);
               current = current\<lparr>po_event_types := append_unique (po_event_types nxt) (po_event_types current)\<rparr>;
               current = (if \<not> usage_is_empty (po_usage nxt)
                   \<and> pu_total_tokens (po_usage current) \<le> pu_total_tokens (po_usage nxt)
                 then current\<lparr>po_usage := po_usage nxt\<rparr> else current);
               current = (if po_response_id nxt \<noteq> None then current\<lparr>po_response_id := po_response_id nxt\<rparr> else current);
               current = (if po_previous_response_id current = None
                 then current\<lparr>po_previous_response_id := po_previous_response_id nxt\<rparr> else current);
               current = (if po_client_metadata current = None
                 then current\<lparr>po_client_metadata := po_client_metadata nxt\<rparr> else current);
               current = (if po_model current = None then current\<lparr>po_model := po_model nxt\<rparr> else current)
           in turn\<lparr>pt_exchange := Some current\<rparr>))"

definition turn_record :: "openai_ws_frame \<Rightarrow> pending_turn \<Rightarrow> pending_turn" where
  "turn_record frame turn =
     (case frame of
        WsRequest ex \<Rightarrow>
          (let conversation = po_request_conversation ex;
               ex = ex\<lparr>po_request_conversation := empty_conversation\<rparr>;
               identifies_turn = (\<not> carries_request_content turn
                 \<and> (cv_entries conversation \<noteq> [] \<or> po_request_images ex \<noteq> []))
           in merge_exchange ex identifies_turn (merge_request_conversation conversation turn))
      | WsResponse response \<Rightarrow>
          merge_exchange (wr_exchange response) False
            (buffer_response_document (wr_document response) (wr_byte_len response) turn)
      | WsUndecodable ClientToServer \<Rightarrow> turn\<lparr>pt_request_decode_failed := True\<rparr>
      | WsUndecodable ServerToClient \<Rightarrow> turn\<lparr>pt_response_decode_failed := True\<rparr>
      | WsIrrelevant \<Rightarrow> turn)"

definition is_terminal_response :: "parsed_openai \<Rightarrow> bool" where
  "is_terminal_response parsed \<longleftrightarrow> list_ex is_terminal_event (po_event_types parsed)"

definition turn_complete :: "protocol_libs \<Rightarrow> pending_turn \<Rightarrow> parsed_openai option" where
  "turn_complete libs turn =
     (case pt_exchange turn of
        None \<Rightarrow> None
      | Some ex \<Rightarrow>
          (let response = responses_response libs (pt_response_documents turn)
                 (pt_response_overflowed turn \<or> pt_response_decode_failed turn);
               request = (case pt_request_conversation turn of
                 Some c \<Rightarrow> c | None \<Rightarrow> empty_conversation\<lparr>cv_completeness := ContentUnsupported\<rparr>);
               ex = ex\<lparr>po_response_conversation := openai_conversation response, po_request_conversation := request\<rparr>
           in Some (if pt_request_decode_failed turn
                then ex\<lparr>po_request_conversation := mark_partial request, po_generates_output := None\<rparr> else ex)))"

type_synonym pending_turns = "(nat \<times> pending_turn) list"

text \<open>\<^verbatim>\<open>min_by_key\<close> over the pending turns, which is never asked of no turns.\<close>

fun oldest_turn :: "pending_turns \<Rightarrow> nat option" where
  "oldest_turn [] = None"
| "oldest_turn ((i, t) # ts) =
     (case oldest_turn ts of
        None \<Rightarrow> Some i
      | Some j \<Rightarrow>
          (case map_of ts j of
             Some u \<Rightarrow> if pt_updated_at t \<le> pt_updated_at u then Some i else Some j
           | None \<Rightarrow> Some i))"

definition drop_turn :: "nat \<Rightarrow> pending_turns \<Rightarrow> pending_turns" where
  "drop_turn i ts = filter (\<lambda>(j, t). j \<noteq> i) ts"

definition accumulator_push ::
  "protocol_libs \<Rightarrow> nat \<Rightarrow> nat \<Rightarrow> openai_ws_frame \<Rightarrow> pending_turns \<Rightarrow> parsed_openai option \<times> pending_turns" where
  "accumulator_push libs now fid frame turns =
     (if frame = WsIrrelevant then (None, turns)
      else
        (let turns = filter (\<lambda>(i, turn). now - pt_updated_at turn \<le> PENDING_TURN_TTL) turns;
             turn = (case map_of turns fid of Some t \<Rightarrow> t | None \<Rightarrow> pending_turn_new now);
             turns = drop_turn fid turns;
             turn = turn_record frame turn
         in
         if (case pt_exchange turn of None \<Rightarrow> False | Some ex \<Rightarrow> is_terminal_response ex)
         then (turn_complete libs turn, turns)
         else
           (let turn = turn\<lparr>pt_updated_at := now\<rparr>;
                turns = (if MAX_PENDING_TURNS \<le> length turns
                  then (case oldest_turn turns of Some i \<Rightarrow> drop_turn i turns | None \<Rightarrow> turns) else turns)
            in (None, (fid, turn) # turns))))"

end
