(* ===== verification/Anthropic_Protocol.thy ===== *)
theory Anthropic_Protocol
  imports Openai_Chat
begin

text \<open>
  Exchanges in Anthropic's protocols (\<^verbatim>\<open>crates/abyss-agent-hook/src/protocol/anthropic\<close>): content blocks and the assembly of
  a response (\<^verbatim>\<open>shared\<close>), the Messages protocol (\<^verbatim>\<open>messages\<close>), and Claude's web client (\<^verbatim>\<open>claude_web\<close>) with the cache that
  relates uploaded images to the completion that names them. Instants are nanoseconds.
\<close>

section \<open>Content blocks\<close>

definition is_tool_block :: "bytes \<Rightarrow> bool" where
  "is_tool_block block_type \<longleftrightarrow>
     List.member [''tool_use'', ''tool_result''] block_type \<or> ends_with block_type ''_tool_use'' \<or> ends_with block_type ''_tool_result''"

definition anthropic_text :: "nat \<Rightarrow> json \<Rightarrow> bytes option" where
  "anthropic_text depth value = visible_text depth is_tool_block value"

definition tool_result_part :: "protocol_libs \<Rightarrow> json \<Rightarrow> bytes option" where
  "tool_result_part libs value =
     (if \<not> json_is_object value then None
      else if json_str value ''type'' = Some ''image''
      then (let media_type = (case json_get value ''source'' of
                  None \<Rightarrow> None
                | Some source \<Rightarrow> if json_is_object source then json_str source ''media_type'' else None)
            in Some (''[image attachment: '' @ (case media_type of None \<Rightarrow> ''unknown'' | Some m \<Rightarrow> m) @ '']''))
      else first_some [json_to_text MAX_PARSE_DEPTH value, Some (pl_to_string libs value)])"

definition tool_result_output :: "protocol_libs \<Rightarrow> json \<Rightarrow> bytes" where
  "tool_result_output libs content =
     (case content of
        JsonString text \<Rightarrow> text
      | JsonArray items \<Rightarrow> str_join CHR 0x0A (List.map_filter (tool_result_part libs) items)
      | JsonObject _ \<Rightarrow> or_empty (tool_result_part libs content)
      | _ \<Rightarrow> [])"

datatype content_block =
    BlockText bytes
  | BlockReasoning bytes bytes
  | BlockToolCall "bytes option" "bytes option" bytes bytes
  | BlockToolResult "bytes option" bytes
  | BlockOther "bytes option"

definition block_from_value :: "protocol_libs \<Rightarrow> json \<Rightarrow> content_block" where
  "block_from_value libs block =
     (case block of
        JsonString text \<Rightarrow> BlockText text
      | _ \<Rightarrow>
          (let field = conversation_field block; other = BlockOther (anthropic_text MAX_PARSE_DEPTH block) in
           case json_str block ''type'' of
             None \<Rightarrow> other
           | Some kind \<Rightarrow>
               if kind = ''text'' then BlockText (or_empty (field ''text''))
               else if kind = ''thinking'' then BlockReasoning (or_empty (field ''thinking'')) (or_empty (field ''signature''))
               else if kind = ''redacted_thinking'' then BlockReasoning [] (or_empty (field ''data''))
               else if List.member [''tool_use'', ''server_tool_use'', ''mcp_tool_use''] kind
               then BlockToolCall (field ''id'') (field ''name'') (verbatim_or_empty libs (json_get block ''input'')) []
               else if kind = ''tool_result'' \<or> ends_with kind ''_tool_result''
               then BlockToolResult (field ''tool_use_id'')
                 (case json_get block ''content'' of None \<Rightarrow> [] | Some content \<Rightarrow> tool_result_output libs content)
               else other))"

text \<open>A streamed delta: it extends a block of its kind, starts one where there is none, and is dropped on a block of another kind.\<close>

definition push_delta :: "nat \<Rightarrow> json \<Rightarrow> (nat \<times> content_block) list \<Rightarrow> (nat \<times> content_block) list" where
  "push_delta index delta blocks =
     (let fragment = (\<lambda>key. or_empty (json_str delta key)) in
      case json_str delta ''type'' of
        None \<Rightarrow> blocks
      | Some kind \<Rightarrow>
          if kind = ''text_delta''
          then (case map_of blocks index of
                  None \<Rightarrow> btree_insert index (BlockText (fragment ''text'')) blocks
                | Some (BlockText text) \<Rightarrow> btree_insert index (BlockText (text @ fragment ''text'')) blocks
                | _ \<Rightarrow> blocks)
          else if kind = ''thinking_delta''
          then (case map_of blocks index of
                  None \<Rightarrow> btree_insert index (BlockReasoning (fragment ''thinking'') []) blocks
                | Some (BlockReasoning text sig) \<Rightarrow> btree_insert index (BlockReasoning (text @ fragment ''thinking'') sig) blocks
                | _ \<Rightarrow> blocks)
          else if kind = ''signature_delta''
          then (case map_of blocks index of
                  None \<Rightarrow> btree_insert index (BlockReasoning [] (fragment ''signature'')) blocks
                | Some (BlockReasoning text sig) \<Rightarrow> btree_insert index (BlockReasoning text (sig @ fragment ''signature'')) blocks
                | _ \<Rightarrow> blocks)
          else if kind = ''input_json_delta''
          then (case map_of blocks index of
                  None \<Rightarrow> btree_insert index (BlockToolCall None None [] (fragment ''partial_json'')) blocks
                | Some (BlockToolCall call_id name input streamed) \<Rightarrow>
                    btree_insert index (BlockToolCall call_id name input (streamed @ fragment ''partial_json'')) blocks
                | _ \<Rightarrow> blocks)
          else blocks)"

definition thinking_identity :: "protocol_libs \<Rightarrow> bytes \<Rightarrow> bytes option" where
  "thinking_identity libs signature = (if signature = [] then None else Some (''thinking:'' @ sha256_hex libs signature))"

fun block_entry :: "protocol_libs \<Rightarrow> entry_role \<Rightarrow> content_block \<Rightarrow> conversation_entry option" where
  "block_entry libs role (BlockText text) = Some (text_entry role text)"
| "block_entry libs role (BlockReasoning text signature) =
     Some ((text_entry RoleReasoning text)\<lparr>ce_item_id := thinking_identity libs signature\<rparr>)"
| "block_entry libs role (BlockToolCall call_id name input streamed_input) =
     Some (tool_call_entry call_id name (if streamed_input = [] then input else streamed_input))"
| "block_entry libs role (BlockToolResult call_id output) = Some (tool_result_entry call_id output)"
| "block_entry libs role (BlockOther text) = map_option (text_entry role) text"

definition content_blocks :: "protocol_libs \<Rightarrow> json \<Rightarrow> content_block list" where
  "content_blocks libs content =
     (case content of
        JsonArray items \<Rightarrow> map (block_from_value libs) items
      | JsonNull \<Rightarrow> []
      | value \<Rightarrow> [block_from_value libs value])"

definition block_entries :: "protocol_libs \<Rightarrow> content_block list \<Rightarrow> entry_role \<Rightarrow> conversation_entry list" where
  "block_entries libs blocks role = List.map_filter (block_entry libs role) blocks"

section \<open>Requests and responses\<close>

definition anthropic_message_entries :: "protocol_libs \<Rightarrow> json \<Rightarrow> conversation_entry list" where
  "anthropic_message_entries libs message =
     block_entries libs
       (content_blocks libs (case json_get message ''content'' of Some c \<Rightarrow> c | None \<Rightarrow> JsonNull))
       (case json_str message ''role'' of None \<Rightarrow> RoleUnknown | Some r \<Rightarrow> entry_role_of r)"

definition anthropic_request :: "protocol_libs \<Rightarrow> json \<Rightarrow> bool \<Rightarrow> conversation" where
  "anthropic_request libs payload truncated =
     \<lparr>cv_entries =
        (case json_get payload ''system'' of
           None \<Rightarrow> [] | Some system \<Rightarrow> block_entries libs (content_blocks libs system) RoleSystem)
        @ prompt_entries payload
        @ (case json_get payload ''input'' of
             None \<Rightarrow> []
           | Some input \<Rightarrow>
               block_entries libs (content_blocks libs input)
                 (case input of JsonString _ \<Rightarrow> RoleUser | _ \<Rightarrow> RoleUnknown))
        @ concat (map (anthropic_message_entries libs) (json_items payload ''messages'')),
      cv_completeness = completeness_of True truncated\<rparr>"

record anthropic_assembly =
  as_blocks :: "(nat \<times> content_block) list"
  as_snapshot :: "content_block list option"
  as_id :: "bytes option"

definition assemble_message :: "protocol_libs \<Rightarrow> json \<Rightarrow> anthropic_assembly \<Rightarrow> anthropic_assembly" where
  "assemble_message libs value s =
     (case json_get value ''message'' of
        None \<Rightarrow> s
      | Some message \<Rightarrow>
          s\<lparr>as_id := first_some [json_str message ''id'', as_id s],
            as_blocks := fold (\<lambda>(index, block). btree_insert index (block_from_value libs block))
              (enumerate 0 (json_items message ''content'')) (as_blocks s)\<rparr>)"

definition assemble_snapshot :: "protocol_libs \<Rightarrow> json \<Rightarrow> anthropic_assembly \<Rightarrow> anthropic_assembly" where
  "assemble_snapshot libs value s =
     (case json_array value ''content'' of
        None \<Rightarrow> s
      | Some content \<Rightarrow>
          s\<lparr>as_snapshot := Some (map (block_from_value libs) content), as_id := first_some [json_str value ''id'', as_id s]\<rparr>)"

definition push_completion :: "bytes \<Rightarrow> content_block \<Rightarrow> content_block" where
  "push_completion completion block = (case block of BlockText text \<Rightarrow> BlockText (text @ completion) | b \<Rightarrow> b)"

definition assemble_event :: "protocol_libs \<Rightarrow> json \<Rightarrow> anthropic_assembly \<Rightarrow> anthropic_assembly" where
  "assemble_event libs value s =
     (let index = json_u64_or_0 value ''index'' in
      if json_str value ''type'' = Some ''content_block_start''
      then (case json_get value ''content_block'' of
              Some block \<Rightarrow> s\<lparr>as_blocks := btree_insert index (block_from_value libs block) (as_blocks s)\<rparr>
            | None \<Rightarrow> s)
      else if json_str value ''type'' = Some ''content_block_delta''
      then s\<lparr>as_blocks := push_delta index (case json_get value ''delta'' of Some d \<Rightarrow> d | None \<Rightarrow> JsonNull) (as_blocks s)\<rparr>
      else (case json_str value ''completion'' of
              Some completion \<Rightarrow> s\<lparr>as_blocks := btree_entry 0 (BlockText []) (push_completion completion) (as_blocks s)\<rparr>
            | None \<Rightarrow> s))"

definition assemble_value :: "protocol_libs \<Rightarrow> json \<Rightarrow> anthropic_assembly \<Rightarrow> anthropic_assembly" where
  "assemble_value libs value s = assemble_event libs value (assemble_snapshot libs value (assemble_message libs value s))"

record anthropic_response =
  ar_id :: "bytes option"
  ar_conversation :: conversation

definition anthropic_assemble :: "protocol_libs \<Rightarrow> json list \<Rightarrow> bool \<Rightarrow> anthropic_response" where
  "anthropic_assemble libs values incomplete =
     (let s = fold (assemble_value libs) values \<lparr>as_blocks = [], as_snapshot = None, as_id = None\<rparr>;
          blocks = (case as_snapshot s of Some bs \<Rightarrow> bs | None \<Rightarrow> map snd (as_blocks s))
      in \<lparr>ar_id = as_id s,
          ar_conversation = \<lparr>cv_entries = block_entries libs blocks RoleAssistant,
            cv_completeness = completeness_of (values \<noteq> []) incomplete\<rparr>\<rparr>)"

section \<open>Images\<close>

definition collect_anthropic_image :: "protocol_libs \<Rightarrow> json \<Rightarrow> image_collector \<Rightarrow> image_collector" where
  "collect_anthropic_image libs img c =
     (case json_get img ''source'' of
        None \<Rightarrow> c
      | Some source \<Rightarrow>
          if json_str source ''type'' \<noteq> Some ''base64'' then c
          else
            (case json_str source ''media_type'' of
               None \<Rightarrow> c
             | Some media_type \<Rightarrow>
                 (case json_str source ''data'' of None \<Rightarrow> c | Some data \<Rightarrow> push_base64 libs media_type data c)))"

fun collect_anthropic_content :: "protocol_libs \<Rightarrow> json \<Rightarrow> image_collector \<Rightarrow> image_collector"
  and collect_anthropic_items :: "protocol_libs \<Rightarrow> json list \<Rightarrow> image_collector \<Rightarrow> image_collector"
  and collect_anthropic_members :: "protocol_libs \<Rightarrow> (bytes \<times> json) list \<Rightarrow> image_collector \<Rightarrow> image_collector" where
  "collect_anthropic_content libs (JsonArray items) c = collect_anthropic_items libs items c"
| "collect_anthropic_content libs (JsonObject members) c =
     (let value = JsonObject members in
      if json_str value ''type'' = Some ''image'' then collect_anthropic_image libs value c
      else if json_str value ''type'' = Some ''tool_result'' then collect_anthropic_members libs members c
      else c)"
| "collect_anthropic_content libs _ c = c"
| "collect_anthropic_items libs [] c = c"
| "collect_anthropic_items libs (item # rest) c =
     (let c' = collect_anthropic_content libs item c in
      if collector_is_full c' then c' else collect_anthropic_items libs rest c')"
| "collect_anthropic_members libs [] c = c"
| "collect_anthropic_members libs ((key, child) # rest) c =
     (if key = ''content'' then collect_anthropic_content libs child c else collect_anthropic_members libs rest c)"

lemma collect_anthropic_members_content:
  "collect_anthropic_members libs members c =
     (case map_of members ''content'' of Some child \<Rightarrow> collect_anthropic_content libs child c | None \<Rightarrow> c)"
  by (induction members) auto

definition collect_anthropic_message :: "protocol_libs \<Rightarrow> json \<Rightarrow> image_collector \<Rightarrow> image_collector" where
  "collect_anthropic_message libs value c =
     (if json_str value ''role'' \<noteq> Some ''user'' then c
      else case json_get value ''content'' of None \<Rightarrow> c | Some content \<Rightarrow> collect_anthropic_content libs content c)"

text \<open>Of a list of messages only the last one of the user is searched.\<close>

definition collect_anthropic_messages :: "protocol_libs \<Rightarrow> json \<Rightarrow> image_collector \<Rightarrow> image_collector" where
  "collect_anthropic_messages libs value c =
     (case value of
        JsonArray items \<Rightarrow>
          (case List.find (\<lambda>item. json_str item ''role'' = Some ''user'') (rev items) of
             None \<Rightarrow> c | Some item \<Rightarrow> collect_anthropic_message libs item c)
      | JsonObject _ \<Rightarrow> collect_anthropic_message libs value c
      | _ \<Rightarrow> c)"

definition extract_anthropic_request_images :: "protocol_libs \<Rightarrow> json \<Rightarrow> parsed_image list" where
  "extract_anthropic_request_images libs payload =
     (let c = (case json_get payload ''messages'' of
            Some v \<Rightarrow> collect_anthropic_messages libs v empty_collector | None \<Rightarrow> empty_collector);
          c = (case json_get payload ''input'' of Some v \<Rightarrow> collect_anthropic_messages libs v c | None \<Rightarrow> c)
      in ic_attachments c)"

section \<open>Usage\<close>

record usage_counters =
  ct_input :: "int option"
  ct_output :: "int option"
  ct_native_cache_read :: "int option"
  ct_native_cache_write :: "int option"
  ct_detail_cache_read :: "int option"
  ct_detail_cache_write :: "int option"
  ct_reasoning :: "int option"

definition empty_counters :: usage_counters where
  "empty_counters =
     \<lparr>ct_input = None, ct_output = None, ct_native_cache_read = None, ct_native_cache_write = None,
      ct_detail_cache_read = None, ct_detail_cache_write = None, ct_reasoning = None\<rparr>"

definition counters_apply :: "json \<Rightarrow> usage_counters \<Rightarrow> usage_counters" where
  "counters_apply object c =
     \<lparr>ct_input = first_some [int_field object ''input_tokens'', ct_input c],
      ct_output = first_some [int_field object ''output_tokens'', ct_output c],
      ct_native_cache_read = first_some [int_field object ''cache_read_input_tokens'', ct_native_cache_read c],
      ct_native_cache_write = first_some [int_field object ''cache_creation_input_tokens'', ct_native_cache_write c],
      ct_detail_cache_read =
        first_some [nested_int_field object ''input_tokens_details'' ''cached_tokens'', ct_detail_cache_read c],
      ct_detail_cache_write =
        first_some [nested_int_field object ''input_tokens_details'' ''cache_creation_tokens'', ct_detail_cache_write c],
      ct_reasoning =
        first_some [nested_int_field object ''output_tokens_details'' ''thinking_tokens'', int_field object ''thinking_tokens'',
          int_field object ''reasoning_tokens'', ct_reasoning c]\<rparr>"

fun counters_visit :: "nat \<Rightarrow> json \<Rightarrow> usage_counters \<Rightarrow> usage_counters" where
  "counters_visit 0 value c = c"
| "counters_visit (Suc depth) value c =
     (case value of
        JsonObject members \<Rightarrow> fold (\<lambda>(k, child). counters_visit depth child) members (counters_apply value c)
      | JsonArray items \<Rightarrow> fold (counters_visit depth) items c
      | _ \<Rightarrow> c)"

definition counters_into_usage :: "usage_counters \<Rightarrow> parsed_usage" where
  "counters_into_usage c =
     (let detail_cache_read = (if ct_native_cache_read c = None then or_zero (ct_detail_cache_read c) else 0);
          detail_cache_write = (if ct_native_cache_write c = None then or_zero (ct_detail_cache_write c) else 0)
      in usage_from_parts
           (max 0 (saturating_sub_i64 (saturating_sub_i64 (or_zero (ct_input c)) detail_cache_read) detail_cache_write))
           (case ct_native_cache_read c of Some n \<Rightarrow> n | None \<Rightarrow> detail_cache_read)
           (case ct_native_cache_write c of Some n \<Rightarrow> n | None \<Rightarrow> detail_cache_write)
           (or_zero (ct_output c))
           (or_zero (ct_reasoning c)))"

definition anthropic_best_usage :: "json list \<Rightarrow> parsed_usage option" where
  "anthropic_best_usage values =
     (let usage = counters_into_usage (fold (counters_visit MAX_PARSE_DEPTH) values empty_counters)
      in if usage_is_empty usage then None else Some usage)"

text \<open>The lengths of the texts in memory add up below \<^verbatim>\<open>usize::MAX\<close>.\<close>

definition estimate_visible_tokens :: "conversation \<Rightarrow> int" where
  "estimate_visible_tokens c =
     (let byte_count = sum_list (map (\<lambda>e.
            (if ce_role e = RoleToolCall then (case ce_name e of None \<Rightarrow> 0 | Some n \<Rightarrow> length n) else 0)
            + length (str_trim (ce_text e))) (cv_entries c))
      in if byte_count = 0 then 0 else min (2 ^ 63 - 1) (int ((byte_count + 3) div 4)))"

definition estimated_visible_usage :: "conversation \<Rightarrow> conversation \<Rightarrow> parsed_usage" where
  "estimated_visible_usage request response =
     usage_from_parts (estimate_visible_tokens request) 0 0 (estimate_visible_tokens response) 0"

section \<open>Messages\<close>

record parsed_anthropic =
  pa_session_id :: bytes
  pa_request_hash :: bytes
  pa_request_conversation :: conversation
  pa_response_conversation :: conversation
  pa_request_images :: "parsed_image list"
  pa_previous_response_id :: "bytes option"
  pa_usage :: parsed_usage
  pa_message_id :: "bytes option"
  pa_model :: "bytes option"

definition metadata_session_id :: "protocol_libs \<Rightarrow> json \<Rightarrow> bytes option" where
  "metadata_session_id libs payload =
     (case Option.bind (json_get payload ''metadata'') (\<lambda>metadata. string_field metadata ''user_id'') of
        None \<Rightarrow> None
      | Some user_id \<Rightarrow> Option.bind (pl_from_slice libs user_id) (\<lambda>metadata. string_field metadata ''session_id''))"

definition provider_session_id :: "protocol_libs \<Rightarrow> headers \<Rightarrow> json \<Rightarrow> bytes option" where
  "provider_session_id libs hs payload =
     first_some
       [protocol_header hs ''x-claude-code-session-id'', protocol_header hs ''x-claude-session-id'',
        protocol_header hs ''x-deepseek-harness-session-id'', protocol_header hs ''x-hermes-session-id'',
        opencode_session_id hs, metadata_session_id libs payload, collect_string_field ''session_id'' payload,
        protocol_header hs ''session-id'', protocol_header hs ''session_id'', protocol_header hs ''thread-id'',
        collect_string_field ''thread_id'' payload, collect_string_field ''conversation_id'' payload,
        cursor_agent_id hs, protocol_header hs ''x-conversation-id'']"

text \<open>
  Lower case letters and digits stay, everything between them becomes one dash. A character outside ASCII is a separator,
  byte by byte, except the two whose lower case has an ASCII letter: the Kelvin sign (\<^verbatim>\<open>k\<close>) and the dotted capital I
  (\<^verbatim>\<open>i\<close> and a combining dot).
\<close>

fun sanitize_scan :: "bytes \<Rightarrow> bool \<Rightarrow> bytes" where
  "sanitize_scan [] sep = []"
| "sanitize_scan (c # cs) sep =
     (if prefix [CHR 0xE2, CHR 0x84, CHR 0xAA] (c # cs) then CHR ''k'' # sanitize_scan (drop 2 cs) False
      else if prefix [CHR 0xC4, CHR 0xB0] (c # cs) then CHR ''i'' # CHR ''-'' # sanitize_scan (drop 1 cs) True
      else if is_ascii_alphanumeric c then to_lower c # sanitize_scan cs False
      else if sep then sanitize_scan cs True
      else CHR ''-'' # sanitize_scan cs True)"

definition sanitize_session_component :: "bytes \<Rightarrow> bytes" where
  "sanitize_session_component value = trim_matches CHR ''-'' (sanitize_scan value False)"

definition anthropic_session_id :: "protocol_libs \<Rightarrow> headers \<Rightarrow> json \<Rightarrow> bytes \<Rightarrow> bytes" where
  "anthropic_session_id libs hs payload host =
     (case provider_session_id libs hs payload of
        Some s \<Rightarrow> s | None \<Rightarrow> ''anthropic-unattributed-'' @ sanitize_session_component host)"

definition exchange_host :: "protocol_libs \<Rightarrow> json http_exchange \<Rightarrow> bytes option" where
  "exchange_host libs ex =
     first_some [request_host libs (req_headers (ex_request ex)) (req_uri (ex_request ex)), flow_server_name (ex_flow ex)]"

definition previous_message_id :: "json \<Rightarrow> bytes option" where
  "previous_message_id request_json =
     (case json_get request_json ''thread'' of
        None \<Rightarrow> None
      | Some thread \<Rightarrow>
          if string_field thread ''type'' = Some ''continue'' then string_field thread ''previous_message_id'' else None)"

definition parse_anthropic_messages_exchange :: "protocol_libs \<Rightarrow> json http_exchange \<Rightarrow> parsed_anthropic option" where
  "parse_anthropic_messages_exchange libs ex =
     (case exchange_host libs ex of
        None \<Rightarrow> None
      | Some host \<Rightarrow>
          (case cb_json (ex_request_body ex) of
             None \<Rightarrow> None
           | Some request_json \<Rightarrow>
               (let request_conversation = anthropic_request libs request_json (cb_truncated (ex_request_body ex));
                    request_images = extract_anthropic_request_images libs request_json
                in
                if cv_entries request_conversation = [] \<and> request_images = [] then None
                else
                  (let documents = response_documents libs (ex_response_body ex);
                       response = anthropic_assemble libs (sse_values documents) (sse_incomplete documents)
                   in Some
                     \<lparr>pa_session_id = anthropic_session_id libs (req_headers (ex_request ex)) request_json host,
                      pa_request_hash = exchange_hash libs host ex,
                      pa_request_conversation = request_conversation,
                      pa_response_conversation = ar_conversation response,
                      pa_request_images = request_images,
                      pa_previous_response_id = previous_message_id request_json,
                      pa_usage = (case first_some [anthropic_best_usage (sse_values documents), anthropic_best_usage [request_json]] of
                        Some u \<Rightarrow> u | None \<Rightarrow> default_usage),
                      pa_message_id = ar_id response,
                      pa_model = first_some [first_model (sse_values documents), string_field request_json ''model'']\<rparr>))))"

section \<open>Uploads of the web client\<close>

definition MAX_CACHED_UPLOADS :: nat where
  "MAX_CACHED_UPLOADS = 64"

definition MAX_CACHED_UPLOAD_BYTES :: nat where
  "MAX_CACHED_UPLOAD_BYTES = 32 * 1024 * 1024"

definition MAX_MULTIPART_PARTS :: nat where
  "MAX_MULTIPART_PARTS = 16"

definition MAX_MULTIPART_HEADER_BYTES :: nat where
  "MAX_MULTIPART_HEADER_BYTES = 16 * 1024"

definition MAX_BOUNDARY_BYTES :: nat where
  "MAX_BOUNDARY_BYTES = 70"

definition UPLOAD_TTL :: nat where
  "UPLOAD_TTL = 30 * 60 * 10 ^ 9"

type_synonym upload_key = "bytes \<times> bytes"

record cached_upload =
  cu_image :: parsed_image
  cu_captured_at :: nat

record upload_cache =
  wu_uploads :: "(upload_key \<times> cached_upload) list"
  wu_insertion_order :: "upload_key list"
  wu_cached_bytes :: nat

definition empty_upload_cache :: upload_cache where
  "empty_upload_cache = \<lparr>wu_uploads = [], wu_insertion_order = [], wu_cached_bytes = 0\<rparr>"

record parsed_upload =
  pd_session_id :: bytes
  pd_file_uuid :: bytes
  pd_image :: parsed_image

definition byte_size :: "parsed_image \<Rightarrow> nat" where
  "byte_size img = length (pi_bytes img)"

text \<open>Removing a key from the map of uploads; \<^verbatim>\<open>saturating_sub\<close> is the subtraction of natural numbers.\<close>

definition uploads_without :: "upload_key \<Rightarrow> (upload_key \<times> cached_upload) list \<Rightarrow> (upload_key \<times> cached_upload) list" where
  "uploads_without key uploads = filter (\<lambda>(k, u). k \<noteq> key) uploads"

definition cache_remove :: "upload_key \<Rightarrow> upload_cache \<Rightarrow> upload_cache" where
  "cache_remove key cache =
     (case map_of (wu_uploads cache) key of
        None \<Rightarrow> cache
      | Some upload \<Rightarrow>
          cache\<lparr>wu_uploads := uploads_without key (wu_uploads cache),
                wu_cached_bytes := wu_cached_bytes cache - byte_size (cu_image upload)\<rparr>)"

definition over_capacity :: "upload_cache \<Rightarrow> bool" where
  "over_capacity cache \<longleftrightarrow>
     MAX_CACHED_UPLOADS < length (wu_uploads cache) \<or> MAX_CACHED_UPLOAD_BYTES < wu_cached_bytes cache"

lemma cache_remove_order [simp]: "wu_insertion_order (cache_remove key cache) = wu_insertion_order cache"
  by (simp add: cache_remove_def split: option.split)

function enforce_capacity :: "upload_cache \<Rightarrow> upload_cache" where
  "enforce_capacity cache =
     (if over_capacity cache
      then (case wu_insertion_order cache of
              [] \<Rightarrow> cache
            | key # rest \<Rightarrow> enforce_capacity (cache_remove key (cache\<lparr>wu_insertion_order := rest\<rparr>)))
      else cache)"
  by auto
termination by (relation "measure (\<lambda>cache. length (wu_insertion_order cache))") auto

declare enforce_capacity.simps [simp del]

definition upload_expired :: "nat \<Rightarrow> upload_key \<Rightarrow> upload_cache \<Rightarrow> bool" where
  "upload_expired now key cache =
     (case map_of (wu_uploads cache) key of
        None \<Rightarrow> True
      | Some upload \<Rightarrow> cu_captured_at upload \<le> now \<and> UPLOAD_TTL \<le> now - cu_captured_at upload)"

function prune_expired :: "nat \<Rightarrow> upload_cache \<Rightarrow> upload_cache" where
  "prune_expired now cache =
     (case wu_insertion_order cache of
        [] \<Rightarrow> cache
      | key # rest \<Rightarrow>
          if upload_expired now key cache
          then prune_expired now (cache_remove key (cache\<lparr>wu_insertion_order := rest\<rparr>))
          else cache)"
  by auto
termination by (relation "measure (\<lambda>(now, cache). length (wu_insertion_order cache))") auto

declare prune_expired.simps [simp del]

definition cache_insert :: "parsed_upload \<Rightarrow> nat \<Rightarrow> upload_cache \<Rightarrow> upload_cache" where
  "cache_insert upload captured_at cache =
     (let key = (pd_session_id upload, pd_file_uuid upload);
          cache = (case map_of (wu_uploads cache) key of
            None \<Rightarrow> cache
          | Some _ \<Rightarrow>
              (cache_remove key cache)\<lparr>wu_insertion_order := filter (\<lambda>k. k \<noteq> key) (wu_insertion_order cache)\<rparr>)
      in enforce_capacity
           (cache\<lparr>wu_cached_bytes := wu_cached_bytes cache + byte_size (pd_image upload),
                  wu_insertion_order := wu_insertion_order cache @ [key],
                  wu_uploads := (key, \<lparr>cu_image = pd_image upload, cu_captured_at = captured_at\<rparr>) # wu_uploads cache\<rparr>))"

section \<open>Reading an upload\<close>

function split_crlf :: "bytes \<Rightarrow> bytes list" where
  "split_crlf s =
     (case window_position CRLF s of
        None \<Rightarrow> [s]
      | Some i \<Rightarrow> take i s # split_crlf (drop (i + 2) s))"
  by auto
termination
proof (relation "measure length")
  fix s :: bytes and i
  assume "window_position CRLF s = Some i"
  then show "(drop (i + 2) s, s) \<in> measure length" using window_position_bound [of CRLF s i] by simp
qed simp

declare split_crlf.simps [simp del]

definition part_header :: "bytes \<Rightarrow> bytes \<Rightarrow> bytes option" where
  "part_header hs expected_name =
     (if \<not> utf8_valid hs then None
      else find_map (\<lambda>line.
        case split_once CHR '':'' line of
          None \<Rightarrow> None
        | Some (name, val) \<Rightarrow>
            if eq_ignore_ascii_case (str_trim name) expected_name then Some (str_trim val) else None) (split_crlf hs))"

definition is_file_part :: "bytes \<Rightarrow> bool" where
  "is_file_part hs =
     (case part_header hs ''content-disposition'' of
        None \<Rightarrow> False
      | Some val \<Rightarrow>
          list_ex (\<lambda>parameter.
            case split_once CHR ''='' parameter of
              None \<Rightarrow> False
            | Some (name, v) \<Rightarrow>
                eq_ignore_ascii_case (str_trim name) ''name''
                \<and> eq_ignore_ascii_case (trim_matches CHR 0x22 (str_trim v)) ''file'')
            (tl (str_split CHR '';'' val)))"

fun multipart_parts :: "protocol_libs \<Rightarrow> nat \<Rightarrow> bytes \<Rightarrow> bytes \<Rightarrow> parsed_image option" where
  "multipart_parts libs 0 delimiter body = None"
| "multipart_parts libs (Suc n) delimiter body =
     (let body = drop (length delimiter) body in
      if take 2 body = ''--'' then None
      else if take 2 body \<noteq> CRLF then None
      else
        (let body = drop 2 body in
         case window_position (CRLF @ CRLF) body of
           None \<Rightarrow> None
         | Some header_length \<Rightarrow>
             if MAX_MULTIPART_HEADER_BYTES < header_length then None
             else
               (let hs = take header_length body;
                    body = drop (header_length + 4) body
                in case window_position (CRLF @ delimiter) body of
                     None \<Rightarrow> None
                   | Some part_length \<Rightarrow>
                       if is_file_part hs
                       then (case part_header hs ''content-type'' of
                               None \<Rightarrow> None
                             | Some media_type \<Rightarrow>
                                 image_from_bytes (pl_normalizer libs) media_type (take part_length body))
                       else multipart_parts libs n delimiter (drop (part_length + 2) body))))"

definition multipart_image :: "protocol_libs \<Rightarrow> bytes \<Rightarrow> bytes \<Rightarrow> parsed_image option" where
  "multipart_image libs content_type body =
     (case pl_mime libs content_type of
        None \<Rightarrow> None
      | Some (essence, boundary) \<Rightarrow>
          if essence \<noteq> ''multipart/form-data'' then None
          else
            (case boundary of
               None \<Rightarrow> None
             | Some boundary \<Rightarrow>
                 if boundary = [] \<or> MAX_BOUNDARY_BYTES < length boundary then None
                 else if \<not> prefix (''--'' @ boundary) body then None
                 else multipart_parts libs MAX_MULTIPART_PARTS (''--'' @ boundary) body))"

definition raw_header :: "headers \<Rightarrow> bytes \<Rightarrow> bytes option" where
  "raw_header hs name = Option.bind (header_get hs name) hv_str"

definition is_claude_web_host :: "headers \<Rightarrow> bool" where
  "is_claude_web_host hs =
     (case raw_header hs ''host'' of
        None \<Rightarrow> False
      | Some host \<Rightarrow>
          (let host = to_ascii_lowercase (trim_end_matches CHR ''.'' (hd (str_split CHR '':'' host)))
           in host = ''claude.ai'' \<or> ends_with host ''.claude.ai''))"

definition upload_conversation_id :: "bytes \<Rightarrow> bytes option" where
  "upload_conversation_id path =
     (case str_split CHR ''/'' (trim_matches CHR ''/'' path) of
        [a, b, organization_id, c, conversation_id, d, e] \<Rightarrow>
          if a = ''api'' \<and> b = ''organizations'' \<and> c = ''conversations'' \<and> d = ''wiggle'' \<and> e = ''upload-file''
             \<and> organization_id \<noteq> [] \<and> conversation_id \<noteq> []
          then Some conversation_id else None
      | _ \<Rightarrow> None)"

definition upload_from_exchange :: "protocol_libs \<Rightarrow> json http_exchange \<Rightarrow> parsed_upload option" where
  "upload_from_exchange libs ex =
     (if req_method (ex_request ex) \<noteq> ''POST'' \<or> \<not> (200 \<le> res_status (ex_response ex) \<and> res_status (ex_response ex) < 300)
         \<or> cb_truncated (ex_request_body ex) \<or> cb_truncated (ex_response_body ex)
         \<or> \<not> is_claude_web_host (req_headers (ex_request ex))
      then None
      else
        (case upload_conversation_id (uri_path libs (req_uri (ex_request ex))) of
           None \<Rightarrow> None
         | Some session_id \<Rightarrow>
             (case cb_json (ex_response_body ex) of
                None \<Rightarrow> None
              | Some response \<Rightarrow>
                  if \<not> json_is_object response \<or> Option.bind (json_get response ''success'') json_as_bool = Some False then None
                  else
                    (case Option.bind (first_some [json_get response ''file_uuid'', json_get response ''uuid'']) json_as_str of
                       None \<Rightarrow> None
                     | Some file_uuid \<Rightarrow>
                         (case raw_header (req_headers (ex_request ex)) ''content-type'' of
                            None \<Rightarrow> None
                          | Some content_type \<Rightarrow>
                              map_option (\<lambda>img. \<lparr>pd_session_id = session_id, pd_file_uuid = file_uuid, pd_image = img\<rparr>)
                                (multipart_image libs content_type (cb_bytes (ex_request_body ex))))))))"

definition record_upload :: "protocol_libs \<Rightarrow> nat \<Rightarrow> json http_exchange \<Rightarrow> upload_cache \<Rightarrow> bool \<times> upload_cache" where
  "record_upload libs now ex cache =
     (case upload_from_exchange libs ex of
        None \<Rightarrow> (False, cache)
      | Some upload \<Rightarrow> (True, cache_insert upload now (prune_expired now cache)))"

section \<open>Completions of the web client\<close>

record parsed_claude_web =
  pw_session_id :: bytes
  pw_request_hash :: bytes
  pw_request_conversation :: conversation
  pw_response_conversation :: conversation
  pw_request_images :: "parsed_image list"
  pw_request_file_uuids :: "bytes list"
  pw_usage :: parsed_usage
  pw_message_id :: "bytes option"
  pw_model :: "bytes option"
  pw_assistant_message_uuid :: "bytes option"

definition assistant_message_uuid :: "json \<Rightarrow> bytes option" where
  "assistant_message_uuid payload =
     Option.bind (json_get payload ''turn_message_uuids'') (\<lambda>uuids. string_field uuids ''assistant_message_uuid'')"

definition claude_web_file_uuids :: "json \<Rightarrow> bytes list" where
  "claude_web_file_uuids payload =
     fold (\<lambda>f uuids. case Option.bind (json_as_str f) non_empty_trimmed of
         None \<Rightarrow> uuids
       | Some uuid \<Rightarrow> if List.member uuids uuid then uuids else uuids @ [uuid]) (json_items payload ''files'') []"

definition completion_conversation_id :: "bytes \<Rightarrow> bytes option" where
  "completion_conversation_id path =
     (case str_split CHR ''/'' path of
        [root, a, b, organization, c, conversation, d] \<Rightarrow>
          if root = [] \<and> a = ''api'' \<and> b = ''organizations'' \<and> non_empty_trimmed organization \<noteq> None
             \<and> c = ''chat_conversations'' \<and> d = ''completion''
          then non_empty_trimmed conversation else None
      | _ \<Rightarrow> None)"

definition parse_claude_web_exchange :: "protocol_libs \<Rightarrow> json http_exchange \<Rightarrow> parsed_claude_web option" where
  "parse_claude_web_exchange libs ex =
     (if req_method (ex_request ex) \<noteq> ''POST'' then None
      else
        (case exchange_host libs ex of
           None \<Rightarrow> None
         | Some host \<Rightarrow>
             (case completion_conversation_id (uri_path libs (req_uri (ex_request ex))) of
                None \<Rightarrow> None
              | Some conversation_id \<Rightarrow>
                  (case cb_json (ex_request_body ex) of
                     None \<Rightarrow> None
                   | Some request_json \<Rightarrow>
                       (let request_conversation = anthropic_request libs request_json (cb_truncated (ex_request_body ex));
                            request_images = extract_anthropic_request_images libs request_json;
                            request_file_uuids = claude_web_file_uuids request_json
                        in
                        if cv_entries request_conversation = [] \<and> request_images = [] \<and> request_file_uuids = [] then None
                        else
                          (let documents = response_documents libs (ex_response_body ex);
                               response = anthropic_assemble libs (sse_values documents) (sse_incomplete documents);
                               uuid = assistant_message_uuid request_json
                           in Some
                             \<lparr>pw_session_id = conversation_id,
                              pw_request_hash = exchange_hash libs host ex,
                              pw_request_conversation = request_conversation,
                              pw_response_conversation = ar_conversation response,
                              pw_request_images = request_images,
                              pw_request_file_uuids = request_file_uuids,
                              pw_usage = (case first_some
                                  [anthropic_best_usage (sse_values documents), anthropic_best_usage [request_json]] of
                                Some u \<Rightarrow> u
                              | None \<Rightarrow> estimated_visible_usage request_conversation (ar_conversation response)),
                              pw_message_id = first_some [ar_id response, uuid],
                              pw_model = first_some [first_model (sse_values documents), string_field request_json ''model''],
                              pw_assistant_message_uuid = uuid\<rparr>))))))"

text \<open>\<open>attach_loop\<close>: the images found for the named files, as long as the limits of an event allow, each file once.\<close>

fun attach_loop :: "(bytes \<times> parsed_image) list \<Rightarrow> nat \<Rightarrow> nat \<Rightarrow> bytes list \<Rightarrow> parsed_image list" where
  "attach_loop [] count decoded_bytes seen = []"
| "attach_loop ((uuid, img) # rest) count decoded_bytes seen =
     (if MAX_IMAGE_ATTACHMENTS_PER_EVENT \<le> count \<or> MAX_IMAGE_ATTACHMENT_BYTES_PER_EVENT \<le> decoded_bytes
      then attach_loop rest count decoded_bytes seen
      else if List.member seen uuid then attach_loop rest count decoded_bytes seen
      else if MAX_IMAGE_ATTACHMENT_BYTES_PER_EVENT < decoded_bytes + byte_size img
      then attach_loop rest count decoded_bytes (uuid # seen)
      else img # attach_loop rest (count + 1) (decoded_bytes + byte_size img) (uuid # seen))"

definition attach_referenced_images :: "nat \<Rightarrow> parsed_claude_web \<Rightarrow> upload_cache \<Rightarrow> parsed_claude_web \<times> upload_cache" where
  "attach_referenced_images now parsed cache =
     (let cache = prune_expired now cache;
          referenced = List.map_filter (\<lambda>uuid.
            map_option (\<lambda>cached. (uuid, cu_image cached)) (map_of (wu_uploads cache) (pw_session_id parsed, uuid)))
            (pw_request_file_uuids parsed)
      in (parsed\<lparr>pw_request_images := pw_request_images parsed
            @ attach_loop referenced (length (pw_request_images parsed)) (sum_list (map byte_size (pw_request_images parsed))) []\<rparr>,
          cache))"

end
