(* ===== verification/Agent_Hook.thy ===== *)
theory Agent_Hook
  imports Harness Openai_Responses Anthropic_Protocol
begin

text \<open>
  The hook that turns observed exchanges into agent events (\<^verbatim>\<open>crates/abyss-agent-hook/src/hook.rs\<close>): which protocol an
  exchange speaks (\<^verbatim>\<open>protocol/detection.rs\<close>), which provider served it (\<^verbatim>\<open>provider/resolver.rs\<close>), the parsers, the normaliser
  and the publication, with the state the hook keeps between exchanges: the uploads of the web client and the open turns of
  WebSockets.
\<close>

section \<open>Protocols and providers\<close>

datatype anthropic_protocol = Messages | ClaudeWebCompletion

datatype llm_protocol = OpenAiProtocol openai_protocol | AnthropicProtocol anthropic_protocol

definition responses_path :: "bytes \<Rightarrow> bool" where
  "responses_path path \<longleftrightarrow>
     prefix ''/v1/responses'' path \<or> prefix ''/backend-api/codex/responses'' path \<or> ends_with path ''/responses''"

definition detect_http_protocol :: "protocol_libs \<Rightarrow> json http_exchange \<Rightarrow> llm_protocol option" where
  "detect_http_protocol libs ex =
     (let path = uri_path libs (req_uri (ex_request ex)) in
      if claude_web_path path then Some (AnthropicProtocol ClaudeWebCompletion)
      else if responses_path path then Some (OpenAiProtocol Responses)
      else if prefix ''/v1/chat/completions'' path \<or> ends_with path ''/chat/completions'' then Some (OpenAiProtocol ChatCompletions)
      else if prefix ''/v1/messages'' path \<or> ends_with path ''/messages'' then Some (AnthropicProtocol Messages)
      else
        (case cb_json (ex_request_body ex) of
           None \<Rightarrow> None
         | Some request \<Rightarrow>
             if json_get request ''input'' \<noteq> None then Some (OpenAiProtocol Responses)
             else map_option (\<lambda>_. AnthropicProtocol Messages) (json_array request ''messages'')))"

definition detect_websocket_protocol :: "protocol_libs \<Rightarrow> websocket_message \<Rightarrow> llm_protocol option" where
  "detect_websocket_protocol libs m =
     (if responses_path (uri_path libs (req_uri (wm_upgrade_request m))) then Some (OpenAiProtocol Responses) else None)"

definition domain_or_below :: "bytes \<Rightarrow> bytes \<Rightarrow> bool" where
  "domain_or_below host domain \<longleftrightarrow> host = domain \<or> ends_with host (CHR ''.'' # domain)"

definition resolve_provider :: "bytes \<Rightarrow> llm_provider" where
  "resolve_provider host =
     (let host = to_ascii_lowercase (trim_end_matches CHR ''.'' (hd (str_split CHR '':'' host))) in
      if domain_or_below host ''openai.com'' \<or> domain_or_below host ''chatgpt.com'' then OpenAi
      else if domain_or_below host ''anthropic.com'' \<or> domain_or_below host ''claude.ai'' then Anthropic
      else OtherProvider host)"

definition hook_request_host :: "protocol_libs \<Rightarrow> headers \<Rightarrow> uri \<Rightarrow> bytes option \<Rightarrow> bytes" where
  "hook_request_host libs hs u destination =
     (case first_some [pl_uri_host libs u, Option.bind (header_get hs ''host'') hv_str, destination] of
        Some host \<Rightarrow> host | None \<Rightarrow> ''unknown'')"

section \<open>Parsed exchanges as the normaliser sees them\<close>

definition parsed_parts ::
  "harness_detection \<Rightarrow> llm_provider \<Rightarrow> bytes option \<Rightarrow> bytes \<Rightarrow> bytes \<Rightarrow> conversation \<Rightarrow> conversation \<Rightarrow> parsed_image list
   \<Rightarrow> parsed_usage \<Rightarrow> bool \<Rightarrow> event_parts" where
  "parsed_parts detection provider model session identity request response images usage request_only =
     \<lparr>ep_harness_name = hd_harness_id detection, ep_harness_version = hd_version detection,
      ep_llm_provider = provider_wire_name provider, ep_llm_model = model, ep_session_id = session,
      ep_response_identity = identity, ep_request_conversation = request, ep_response_conversation = response,
      ep_request_images = images, ep_usage = usage, ep_allow_request_without_response = request_only\<rparr>"

definition or_hash :: "bytes option \<Rightarrow> bytes \<Rightarrow> bytes" where
  "or_hash identity request_hash = (case identity of Some i \<Rightarrow> i | None \<Rightarrow> request_hash)"

definition openai_normalizable :: "parsed_openai \<Rightarrow> normalizable" where
  "openai_normalizable p =
     \<lparr>nz_purpose = (if po_generates_output p = Some False then Some Prewarm else None),
      nz_continuation = \<lparr>cn_response_id = po_response_id p, cn_previous_response_id = po_previous_response_id p\<rparr>,
      nz_parts = (\<lambda>d provider. parsed_parts d provider (po_model p) (po_session_id p)
        (or_hash (po_response_id p) (po_request_hash p)) (po_request_conversation p) (po_response_conversation p)
        (po_request_images p) (po_usage p) False)\<rparr>"

definition anthropic_normalizable :: "parsed_anthropic \<Rightarrow> normalizable" where
  "anthropic_normalizable p =
     \<lparr>nz_purpose = None,
      nz_continuation = \<lparr>cn_response_id = pa_message_id p, cn_previous_response_id = pa_previous_response_id p\<rparr>,
      nz_parts = (\<lambda>d provider. parsed_parts d provider (pa_model p) (pa_session_id p)
        (or_hash (pa_message_id p) (pa_request_hash p)) (pa_request_conversation p) (pa_response_conversation p)
        (pa_request_images p) (pa_usage p) False)\<rparr>"

definition claude_web_normalizable :: "parsed_claude_web \<Rightarrow> normalizable" where
  "claude_web_normalizable p =
     \<lparr>nz_purpose = None,
      nz_continuation = \<lparr>cn_response_id = pw_message_id p, cn_previous_response_id = None\<rparr>,
      nz_parts = (\<lambda>d provider. parsed_parts d provider (pw_model p) (pw_session_id p)
        (or_hash (first_some [pw_message_id p, pw_assistant_message_uuid p]) (pw_request_hash p)) (pw_request_conversation p)
        (pw_response_conversation p) (pw_request_images p) (pw_usage p) True)\<rparr>"

section \<open>The hook\<close>

text \<open>What one call reads from the clocks: the monotonic clock twice, the wall clock twice.\<close>

record hook_clock =
  ck_upload :: nat
  ck_attach :: nat
  ck_first :: int
  ck_second :: int

record hook_state =
  hs_uploads :: upload_cache
  hs_turns :: pending_turns

definition initial_hook_state :: hook_state where
  "initial_hook_state = \<lparr>hs_uploads = empty_upload_cache, hs_turns = []\<rparr>"

definition http_declaration :: "protocol_libs \<Rightarrow> harness_detection \<Rightarrow> json http_exchange \<Rightarrow> json option \<Rightarrow> agent_declaration" where
  "http_declaration libs detection ex client_metadata =
     registry_declare libs (hd_harness_id detection)
       \<lparr>ds_headers = Some (req_headers (ex_request ex)), ds_connection_headers = None, ds_client_metadata = client_metadata\<rparr>"

definition hook_normalize ::
  "protocol_libs \<Rightarrow> device_identity \<Rightarrow> hook_clock \<Rightarrow> normalizable \<Rightarrow> content_config \<Rightarrow> harness_detection \<Rightarrow> llm_provider
   \<Rightarrow> agent_declaration \<Rightarrow> exchange_passthrough \<Rightarrow> normalized_event list" where
  "hook_normalize libs device clock parsed content detection provider declaration xp =
     normalize_exchange (pl_normalizer libs) device (ck_first clock) (ck_second clock) parsed content detection provider
       declaration xp"

definition detect_http_harness :: "protocol_libs \<Rightarrow> json http_exchange \<Rightarrow> usage_config \<Rightarrow> harness_detection option" where
  "detect_http_harness libs ex config =
     registry_detect (ex_flow ex) (req_headers (ex_request ex)) (uri_path libs (req_uri (ex_request ex))) config"

definition detect_websocket_harness :: "protocol_libs \<Rightarrow> websocket_message \<Rightarrow> usage_config \<Rightarrow> harness_detection option" where
  "detect_websocket_harness libs m config =
     registry_detect (wm_flow m) (req_headers (wm_upgrade_request m)) (uri_path libs (req_uri (wm_upgrade_request m))) config"

definition protocol_events ::
  "protocol_libs \<Rightarrow> device_identity \<Rightarrow> content_config \<Rightarrow> hook_clock \<Rightarrow> harness_detection \<Rightarrow> json http_exchange \<Rightarrow> llm_protocol
   \<Rightarrow> hook_state \<Rightarrow> normalized_event list \<times> hook_state" where
  "protocol_events libs device content clock detection ex proto s =
     (let provider = resolve_provider
            (hook_request_host libs (req_headers (ex_request ex)) (req_uri (ex_request ex)) (destination_host (ex_flow ex)));
          xp = passthrough_new (pl_normalizer libs) (req_uri (ex_request ex)) (req_headers (ex_request ex))
            (res_headers (ex_response ex));
          events = (\<lambda>parsed metadata.
            hook_normalize libs device clock parsed content detection provider (http_declaration libs detection ex metadata) xp)
      in (case proto of
            OpenAiProtocol p \<Rightarrow>
              (case parse_openai_exchange libs ex p of
                 None \<Rightarrow> ([], s)
               | Some parsed \<Rightarrow> (events (openai_normalizable parsed) (po_client_metadata parsed), s))
          | AnthropicProtocol Messages \<Rightarrow>
              (case parse_anthropic_messages_exchange libs ex of
                 None \<Rightarrow> ([], s)
               | Some parsed \<Rightarrow> (events (anthropic_normalizable parsed) None, s))
          | AnthropicProtocol ClaudeWebCompletion \<Rightarrow>
              (case parse_claude_web_exchange libs ex of
                 None \<Rightarrow> ([], s)
               | Some parsed \<Rightarrow>
                   (case attach_referenced_images (ck_attach clock) parsed (hs_uploads s) of (parsed, uploads) \<Rightarrow>
                      (events (claude_web_normalizable parsed) None, s\<lparr>hs_uploads := uploads\<rparr>)))))"

definition http_events ::
  "protocol_libs \<Rightarrow> device_identity \<Rightarrow> hooks_config \<Rightarrow> hook_clock \<Rightarrow> json http_exchange \<Rightarrow> hook_state
   \<Rightarrow> normalized_event list \<times> hook_state" where
  "http_events libs device policy clock ex s =
     (case detect_http_harness libs ex (hk_usage policy) of
        None \<Rightarrow> ([], s)
      | Some detection \<Rightarrow>
          (case record_upload libs (ck_upload clock) ex (hs_uploads s) of (recorded, uploads) \<Rightarrow>
             (let s = s\<lparr>hs_uploads := uploads\<rparr> in
              if recorded then ([], s)
              else
                (case detect_http_protocol libs ex of
                   None \<Rightarrow> ([], s)
                 | Some proto \<Rightarrow>
                     protocol_events libs device (content_for_harness (hk_usage policy) (hd_harness_id detection)) clock detection ex
                       proto s))))"

definition websocket_events ::
  "protocol_libs \<Rightarrow> device_identity \<Rightarrow> hooks_config \<Rightarrow> hook_clock \<Rightarrow> websocket_message \<Rightarrow> hook_state
   \<Rightarrow> normalized_event list \<times> hook_state" where
  "websocket_events libs device policy clock m s =
     (case detect_websocket_harness libs m (hk_usage policy) of
        None \<Rightarrow> ([], s)
      | Some detection \<Rightarrow>
          (case detect_websocket_protocol libs m of
             Some (OpenAiProtocol Responses) \<Rightarrow>
               (case accumulator_push libs (ck_upload clock) (flow_id (wm_flow m)) (parse_openai_websocket_message libs m)
                    (hs_turns s) of (completed, turns) \<Rightarrow>
                  (let s = s\<lparr>hs_turns := turns\<rparr> in
                   case completed of
                     None \<Rightarrow> ([], s)
                   | Some parsed \<Rightarrow>
                       (hook_normalize libs device clock (openai_normalizable parsed)
                          (content_for_harness (hk_usage policy) (hd_harness_id detection)) detection
                          (resolve_provider (hook_request_host libs (req_headers (wm_upgrade_request m))
                             (req_uri (wm_upgrade_request m)) (destination_host (wm_flow m))))
                          (registry_declare libs (hd_harness_id detection)
                             \<lparr>ds_headers = None, ds_connection_headers = Some (req_headers (wm_upgrade_request m)),
                              ds_client_metadata = po_client_metadata parsed\<rparr>)
                          (passthrough_new (pl_normalizer libs) (req_uri (wm_upgrade_request m))
                             (req_headers (wm_upgrade_request m)) (res_headers (wm_upgrade_response m))), s)))
           | _ \<Rightarrow> ([], s)))"

type_synonym event_sink = "(conversation, int) agent_event \<Rightarrow> (string, unit) result"

text \<open>The calls of the dispatcher: the events of an exchange or a message, published one after the other.\<close>

fun hook_call ::
  "protocol_libs \<Rightarrow> device_identity \<Rightarrow> hooks_config \<Rightarrow> hook_clock \<Rightarrow> event_sink \<Rightarrow> json hook_event \<Rightarrow> hook_state
   \<Rightarrow> (delivery_failure, unit) result \<times> (conversation, int) agent_event list \<times> hook_state" where
  "hook_call libs device policy clock sink (HttpExchangeEvent ex) s =
     (case http_events libs device policy clock ex s of (events, s') \<Rightarrow>
        (case deliver_normalized (pl_normalizer libs) sink events of (res, published) \<Rightarrow> (res, published, s')))"
| "hook_call libs device policy clock sink (WebSocketMessageEvent m) s =
     (case websocket_events libs device policy clock m s of (events, s') \<Rightarrow>
        (case deliver_normalized (pl_normalizer libs) sink events of (res, published) \<Rightarrow> (res, published, s')))"

definition agent_hook_matches :: "hooks_config \<Rightarrow> flow_context \<Rightarrow> bool" where
  "agent_hook_matches policy flow \<longleftrightarrow> hk_enabled policy"

text \<open>A run of the hook over the observed events, each with the policy and the clocks of its time.\<close>

fun hook_run ::
  "protocol_libs \<Rightarrow> device_identity \<Rightarrow> event_sink \<Rightarrow> (hooks_config \<times> hook_clock \<times> json hook_event) list \<Rightarrow> hook_state
   \<Rightarrow> (conversation, int) agent_event list \<times> hook_state" where
  "hook_run libs device sink [] s = ([], s)"
| "hook_run libs device sink ((policy, clock, event) # rest) s =
     (if agent_hook_matches policy (event_flow event)
      then (case hook_call libs device policy clock sink event s of (res, published, s') \<Rightarrow>
              (case hook_run libs device sink rest s' of (later, s'') \<Rightarrow> (published @ later, s'')))
      else hook_run libs device sink rest s)"

end
