(* ===== verification/Protocol_Props.thy ===== *)
theory Protocol_Props
  imports Agent_Hook
begin

text \<open>
  What the parsers of the agent hook guarantee: the images of an event and the state kept between exchanges stay within their
  limits, counters are never negative, a streamed response gives the entries of the same response in one document, and
  server-sent events carry their documents.
\<close>

section \<open>Images\<close>

definition image_ok :: "parsed_image \<Rightarrow> bool" where
  "image_ok i \<longleftrightarrow> pi_bytes i \<noteq> [] \<and> matches_signature (pi_media_type i) (pi_bytes i)
     \<and> byte_size i \<le> MAX_IMAGE_ATTACHMENT_BYTES_PER_EVENT"

definition images_ok :: "parsed_image list \<Rightarrow> bool" where
  "images_ok is \<longleftrightarrow>
     length is \<le> MAX_IMAGE_ATTACHMENTS_PER_EVENT
     \<and> sum_list (map byte_size is) \<le> MAX_IMAGE_ATTACHMENT_BYTES_PER_EVENT
     \<and> list_all image_ok is"

definition collector_ok :: "image_collector \<Rightarrow> bool" where
  "collector_ok c \<longleftrightarrow> images_ok (ic_attachments c) \<and> ic_decoded_bytes c = sum_list (map byte_size (ic_attachments c))"

lemma images_ok_Nil [simp]: "images_ok []"
  by (simp add: images_ok_def)

lemma empty_collector_ok: "collector_ok empty_collector"
  by (simp add: collector_ok_def empty_collector_def)

lemma push_base64_ok: "collector_ok c \<Longrightarrow> collector_ok (push_base64 libs m e c)"
  by (auto simp: push_base64_def collector_ok_def images_ok_def image_ok_def byte_size_def collector_is_full_def
      split: option.split)

lemma push_data_url_ok: "collector_ok c \<Longrightarrow> collector_ok (push_data_url libs u c)"
  by (auto simp: push_data_url_def push_base64_ok Let_def split: option.split)

lemma collect_openai_ok:
  "collector_ok c \<Longrightarrow> collector_ok (collect_openai_input_item libs v c)"
  "collector_ok c \<Longrightarrow> collector_ok (collect_openai_items libs vs c)"
  "collector_ok c \<Longrightarrow> collector_ok (collect_openai_members libs ms c)"
proof (induction libs v c and libs vs c and libs ms c
    rule: collect_openai_input_item_collect_openai_items_collect_openai_members.induct)
  case (1 libs members c)
  then show ?case by (auto simp: Let_def push_data_url_ok split: option.split)
qed (auto simp: Let_def split: json.split)

lemma extract_openai_images_ok: "images_ok (extract_openai_request_images libs payload)"
proof -
  have *: "collector_ok c \<Longrightarrow> collector_ok (collect_openai_input libs v c)" for v c
    by (simp add: collect_openai_input_def collect_openai_ok del: collect_openai_input_item.simps split: json.split)
  then have "collector_ok (case json_get payload ''input'' of
      Some v \<Rightarrow> collect_openai_input libs v empty_collector | None \<Rightarrow> empty_collector)"
    by (auto simp: empty_collector_ok split: option.split)
  with * show ?thesis
    by (auto simp: extract_openai_request_images_def Let_def collector_ok_def split: option.split)
qed

lemma collect_anthropic_image_ok: "collector_ok c \<Longrightarrow> collector_ok (collect_anthropic_image libs v c)"
  by (auto simp: collect_anthropic_image_def push_base64_ok split: option.split)

lemma collect_anthropic_ok:
  "collector_ok c \<Longrightarrow> collector_ok (collect_anthropic_content libs v c)"
  "collector_ok c \<Longrightarrow> collector_ok (collect_anthropic_items libs vs c)"
  "collector_ok c \<Longrightarrow> collector_ok (collect_anthropic_members libs ms c)"
  by (induction libs v c and libs vs c and libs ms c
      rule: collect_anthropic_content_collect_anthropic_items_collect_anthropic_members.induct)
    (auto simp: Let_def collect_anthropic_image_ok)

lemma collect_anthropic_messages_ok: "collector_ok c \<Longrightarrow> collector_ok (collect_anthropic_messages libs v c)"
  by (auto simp: collect_anthropic_messages_def collect_anthropic_message_def collect_anthropic_ok split: json.split option.split)

lemma extract_anthropic_images_ok: "images_ok (extract_anthropic_request_images libs payload)"
proof -
  have "collector_ok (case json_get payload ''messages'' of
      Some v \<Rightarrow> collect_anthropic_messages libs v empty_collector | None \<Rightarrow> empty_collector)"
    by (auto simp: empty_collector_ok collect_anthropic_messages_ok split: option.split)
  with collect_anthropic_messages_ok show ?thesis
    by (auto simp: extract_anthropic_request_images_def Let_def collector_ok_def split: option.split)
qed

lemma attach_loop_ok:
  "\<lbrakk>list_all (\<lambda>(u, i). image_ok i) referenced; count \<le> MAX_IMAGE_ATTACHMENTS_PER_EVENT;
    bytesum \<le> MAX_IMAGE_ATTACHMENT_BYTES_PER_EVENT\<rbrakk> \<Longrightarrow>
   count + length (attach_loop referenced count bytesum seen) \<le> MAX_IMAGE_ATTACHMENTS_PER_EVENT
   \<and> bytesum + sum_list (map byte_size (attach_loop referenced count bytesum seen)) \<le> MAX_IMAGE_ATTACHMENT_BYTES_PER_EVENT
   \<and> list_all image_ok (attach_loop referenced count bytesum seen)"
proof (induction referenced count bytesum seen rule: attach_loop.induct)
  case (2 uuid img rest count decoded_bytes seen)
  then show ?case by (auto simp: add.assoc)
qed simp

section \<open>The upload cache\<close>

definition upload_size :: "upload_key \<times> cached_upload \<Rightarrow> nat" where
  "upload_size ku = byte_size (cu_image (snd ku))"

text \<open>The order lists the keys of the map, each once, and the counter is the sum of the sizes.\<close>

definition cache_consistent :: "upload_cache \<Rightarrow> bool" where
  "cache_consistent c \<longleftrightarrow>
     distinct (map fst (wu_uploads c)) \<and> distinct (wu_insertion_order c)
     \<and> set (wu_insertion_order c) = fst ` set (wu_uploads c)
     \<and> wu_cached_bytes c = sum_list (map upload_size (wu_uploads c))
     \<and> list_all (\<lambda>(k, u). image_ok (cu_image u)) (wu_uploads c)"

definition cache_ok :: "upload_cache \<Rightarrow> bool" where
  "cache_ok c \<longleftrightarrow> cache_consistent c \<and> \<not> over_capacity c"

lemma sum_without:
  "\<lbrakk>distinct (map fst us); map_of us k = Some u\<rbrakk> \<Longrightarrow>
   sum_list (map upload_size (uploads_without k us)) + byte_size (cu_image u) = sum_list (map upload_size us)"
proof (induction us)
  case (Cons p us)
  obtain l w where p: "p = (l, w)" by (cases p)
  show ?case
  proof (cases "l = k")
    case True
    with Cons.prems p have "k \<notin> fst ` set us" by auto
    then have "uploads_without k us = us" by (force simp: uploads_without_def intro!: filter_True)
    with Cons.prems p True show ?thesis by (simp add: uploads_without_def upload_size_def)
  next
    case False
    with Cons p show ?thesis by (simp add: uploads_without_def)
  qed
qed simp

lemma without_distinct: "distinct (map fst us) \<Longrightarrow> distinct (map fst (uploads_without k us))"
  by (induction us) (auto simp: uploads_without_def)

lemma without_keys: "fst ` set (uploads_without k us) = fst ` set us - {k}"
  by (auto simp: uploads_without_def)

lemma cache_remove_Some:
  assumes "cache_consistent c" "map_of (wu_uploads c) k = Some u"
  shows "cache_consistent ((cache_remove k c)\<lparr>wu_insertion_order := filter (\<lambda>l. l \<noteq> k) (wu_insertion_order c)\<rparr>)"
  using assms sum_without [of "wu_uploads c" k u]
  by (auto simp: cache_consistent_def cache_remove_def without_distinct without_keys)
    (auto simp: list_all_iff uploads_without_def)

lemma cache_pop:
  assumes c: "cache_consistent c" and o: "wu_insertion_order c = k # rest"
  shows "cache_consistent (cache_remove k (c\<lparr>wu_insertion_order := rest\<rparr>))"
proof -
  from c o obtain u where u: "map_of (wu_uploads c) k = Some u"
    by (auto simp: cache_consistent_def map_of_eq_None_iff [symmetric] dest!: equalityD1)
  moreover from c o have "filter (\<lambda>l. l \<noteq> k) (wu_insertion_order c) = rest"
    by (auto simp: cache_consistent_def intro!: filter_True)
  ultimately show ?thesis using cache_remove_Some [OF c u] by (simp add: cache_remove_def cache_consistent_def)
qed

lemma enforce_capacity_ok: "cache_consistent c \<Longrightarrow> cache_ok (enforce_capacity c)"
proof (induction c rule: enforce_capacity.induct)
  case (1 c)
  show ?case
  proof (cases "over_capacity c")
    case True
    have "wu_insertion_order c \<noteq> []"
      using True 1(2) by (auto simp: cache_consistent_def over_capacity_def)
    then obtain k rest where "wu_insertion_order c = k # rest" by (cases "wu_insertion_order c") auto
    with 1 True show ?thesis
      by (subst enforce_capacity.simps) (simp add: cache_pop)
  qed (use 1 in \<open>subst enforce_capacity.simps, simp add: cache_ok_def\<close>)
qed

lemma cache_remove_smaller:
  "over_capacity (cache_remove k (c\<lparr>wu_insertion_order := rest\<rparr>)) \<Longrightarrow> over_capacity c"
proof (cases "map_of (wu_uploads c) k")
  case (Some u)
  have "length (uploads_without k (wu_uploads c)) \<le> length (wu_uploads c)" by (simp add: uploads_without_def)
  then show "over_capacity (cache_remove k (c\<lparr>wu_insertion_order := rest\<rparr>)) \<Longrightarrow> over_capacity c"
    using Some by (auto simp: over_capacity_def cache_remove_def)
qed (simp add: over_capacity_def cache_remove_def)

lemma prune_expired_ok: "cache_ok c \<Longrightarrow> cache_ok (prune_expired now c)"
proof (induction now c rule: prune_expired.induct)
  case (1 now c)
  show ?case
  proof (cases "wu_insertion_order c")
    case Nil
    with 1 show ?thesis by (subst prune_expired.simps) simp
  next
    case (Cons k rest)
    with 1(2) cache_pop [of c k rest] cache_remove_smaller [of k rest c]
    have "cache_ok (cache_remove k (c\<lparr>wu_insertion_order := rest\<rparr>))" by (auto simp: cache_ok_def)
    with 1 Cons show ?thesis by (subst prune_expired.simps) simp
  qed
qed

lemma cache_insert_ok:
  assumes c: "cache_consistent c" and i: "image_ok (pd_image upload)"
  shows "cache_ok (cache_insert upload now c)"
proof -
  let ?k = "(pd_session_id upload, pd_file_uuid upload)"
  let ?c = "case map_of (wu_uploads c) ?k of None \<Rightarrow> c
    | Some _ \<Rightarrow> (cache_remove ?k c)\<lparr>wu_insertion_order := filter (\<lambda>k. k \<noteq> ?k) (wu_insertion_order c)\<rparr>"
  have ok: "cache_consistent ?c" using c cache_remove_Some [OF c] by (auto split: option.split)
  have new: "?k \<notin> fst ` set (wu_uploads ?c)"
    by (auto simp: cache_remove_def without_keys map_of_eq_None_iff split: option.split)
  have "cache_consistent (?c\<lparr>wu_cached_bytes := wu_cached_bytes ?c + byte_size (pd_image upload),
      wu_insertion_order := wu_insertion_order ?c @ [?k],
      wu_uploads := (?k, \<lparr>cu_image = pd_image upload, cu_captured_at = now\<rparr>) # wu_uploads ?c\<rparr>)"
    using ok new i by (auto simp: cache_consistent_def upload_size_def)
  then show ?thesis by (simp add: cache_insert_def Let_def enforce_capacity_ok)
qed

section \<open>Usage\<close>

definition counter_ok :: "int \<Rightarrow> bool" where
  "counter_ok n \<longleftrightarrow> 0 \<le> n \<and> n < 2 ^ 63"

definition usage_ok :: "parsed_usage \<Rightarrow> bool" where
  "usage_ok u \<longleftrightarrow>
     counter_ok (pu_input_tokens u) \<and> counter_ok (pu_output_tokens u) \<and> counter_ok (pu_cache_read_tokens u)
     \<and> counter_ok (pu_cache_write_tokens u) \<and> counter_ok (pu_reasoning_tokens u) \<and> counter_ok (pu_total_tokens u)"

lemma first_some_cases: "first_some os = Some x \<Longrightarrow> Some x \<in> set os"
  unfolding first_some_def by (induction os) (auto split: option.splits)

lemma int_field_ok: "int_field object key = Some n \<Longrightarrow> counter_ok n"
proof -
  have "json_as_i64 v = Some m \<Longrightarrow> m < 2 ^ 63" for v m by (cases v rule: json_as_i64.cases) (auto split: if_splits)
  then show "int_field object key = Some n \<Longrightarrow> counter_ok n"
    by (auto simp: int_field_def counter_ok_def bind_eq_Some_conv split: option.splits if_splits)
qed

lemma nested_int_field_ok: "nested_int_field object parent child = Some n \<Longrightarrow> counter_ok n"
  by (auto simp: nested_int_field_def int_field_ok split: option.splits if_splits)

text \<open>A counter that may be missing.\<close>

definition counter_opt :: "int option \<Rightarrow> bool" where
  "counter_opt v = (case v of None \<Rightarrow> True | Some n \<Rightarrow> counter_ok n)"

lemma field_counter [simp]: "counter_opt (int_field object key)" "counter_opt (nested_int_field object parent child)"
  by (auto simp: counter_opt_def split: option.split dest: int_field_ok nested_int_field_ok)

lemma first_some_counter: "list_all counter_opt os \<Longrightarrow> counter_opt (first_some os)"
  by (cases "first_some os") (auto simp: counter_opt_def list_all_iff dest!: first_some_cases)

lemma or_zero_counter: "counter_opt v \<Longrightarrow> counter_ok (or_zero v)"
  by (cases v) (auto simp: counter_opt_def or_zero_def counter_ok_def)

lemma default_counter: "\<lbrakk>counter_opt v; counter_ok d\<rbrakk> \<Longrightarrow> counter_ok (case v of Some n \<Rightarrow> n | None \<Rightarrow> d)"
  by (cases v) (auto simp: counter_opt_def)

lemmas first_fields_ok = or_zero_counter [OF first_some_counter]

lemma remaining_ok: "counter_ok (max 0 (saturating_sub_i64 a b))"
  by (auto simp: counter_ok_def saturating_sub_i64_def)

lemma saturating_add_ok: "\<lbrakk>counter_ok a; counter_ok b\<rbrakk> \<Longrightarrow> counter_ok (saturating_add_i64 a b)"
  by (auto simp: counter_ok_def saturating_add_i64_def)

lemma usage_from_parts_ok:
  "\<lbrakk>counter_ok i; counter_ok cr; counter_ok cw; counter_ok out; counter_ok r\<rbrakk> \<Longrightarrow> usage_ok (usage_from_parts i cr cw out r)"
  by (simp add: usage_ok_def usage_from_parts_def saturating_add_ok)

lemma zero_ok [simp]: "counter_ok 0"
  by (simp add: counter_ok_def)

lemma default_usage_ok [simp]: "usage_ok default_usage"
  by (simp add: usage_ok_def default_usage_def)

lemma sides_usage_ok: "usage_ok u \<Longrightarrow> usage_ok (request_side u)" "usage_ok u \<Longrightarrow> usage_ok (response_side u)"
  unfolding request_side_def response_side_def by (rule usage_from_parts_ok; simp add: usage_ok_def)+

lemma openai_object_ok:
  assumes "openai_usage_from_object object = Some u"
  shows "usage_ok u"
proof -
  from assms obtain a b c d e f where "u = usage_from_parts (max 0 (saturating_sub_i64 a b)) (or_zero (first_some c))
      (or_zero (first_some d)) (or_zero (first_some e)) (or_zero (first_some f))"
    and "list_all counter_opt c" "list_all counter_opt d" "list_all counter_opt e" "list_all counter_opt f"
    unfolding openai_usage_from_object_def Let_def by (auto split: if_splits)
  then show ?thesis by (simp add: usage_from_parts_ok remaining_ok first_fields_ok)
qed

lemma in_option_list: "u \<in> set (case x of Some y \<Rightarrow> [y] | None \<Rightarrow> []) \<longleftrightarrow> x = Some u"
  by (cases x) auto

lemma in_option_member: "u \<in> set (case x of None \<Rightarrow> [] | Some w \<Rightarrow> if P w then g w else []) \<Longrightarrow> \<exists>w. u \<in> set (g w)"
  by (cases x) (auto split: if_splits)

lemma find_usage_object:
  "find_usage (Suc depth) (JsonObject ms) =
     (case openai_usage_from_object (JsonObject ms) of Some y \<Rightarrow> [y] | None \<Rightarrow> [])
     @ (case json_get (JsonObject ms) ''usage'' of None \<Rightarrow> [] | Some w \<Rightarrow>
          if json_is_object w then (case openai_usage_from_object w of Some y \<Rightarrow> [y] | None \<Rightarrow> []) else [])
     @ concat (map (\<lambda>(k, child). find_usage depth child) ms)"
  by simp

lemma find_usage_ok: "u \<in> set (find_usage depth v) \<Longrightarrow> usage_ok u"
proof (induction depth arbitrary: v)
  case (Suc depth)
  show ?case
  proof (cases v)
    case (JsonArray items)
    with Suc show ?thesis by auto
  next
    case (JsonObject members)
    from Suc.prems consider
        "u \<in> set (case openai_usage_from_object v of Some y \<Rightarrow> [y] | None \<Rightarrow> [])"
      | "u \<in> set (case json_get v ''usage'' of None \<Rightarrow> [] | Some w \<Rightarrow>
          if json_is_object w then (case openai_usage_from_object w of Some y \<Rightarrow> [y] | None \<Rightarrow> []) else [])"
      | "u \<in> set (concat (map (\<lambda>(k, child). find_usage depth child) members))"
      unfolding JsonObject find_usage_object set_append Un_iff by blast
    then show ?thesis
    proof cases
      case 1
      then show ?thesis unfolding in_option_list by (rule openai_object_ok)
    next
      case 2
      from in_option_member [OF this] obtain w where "openai_usage_from_object w = Some u" unfolding in_option_list by blast
      then show ?thesis by (rule openai_object_ok)
    next
      case 3
      then obtain m where "u \<in> set (find_usage depth m)" by auto
      then show ?thesis by (rule Suc.IH)
    qed
  qed (use Suc.prems in simp_all)
qed simp

lemma max_by_total_mem: "max_by_total us = Some u \<Longrightarrow> u \<in> set us"
  by (induction us arbitrary: u) (auto split: option.splits if_splits)

lemma openai_best_usage_ok: "openai_best_usage vs = Some u \<Longrightarrow> usage_ok u"
  by (auto simp: openai_best_usage_def find_usage_ok dest!: max_by_total_mem)

definition counters_ok :: "usage_counters \<Rightarrow> bool" where
  "counters_ok c \<longleftrightarrow>
     list_all counter_opt
       [ct_input c, ct_output c, ct_native_cache_read c, ct_native_cache_write c, ct_detail_cache_read c, ct_detail_cache_write c,
        ct_reasoning c]"

lemma counters_apply_ok: "counters_ok c \<Longrightarrow> counters_ok (counters_apply object c)"
  by (simp add: counters_ok_def counters_apply_def first_some_counter)

lemma counters_visit_ok: "counters_ok c \<Longrightarrow> counters_ok (counters_visit depth v c)"
proof (induction depth arbitrary: v c)
  case (Suc depth)
  have fold: "counters_ok (fold f xs c)" if "\<And>x c. counters_ok c \<Longrightarrow> counters_ok (f x c)" "counters_ok c" for f and xs :: "'z list" and c
    using that(2) by (induction xs arbitrary: c) (auto simp: that(1))
  show ?case using Suc by (auto simp: counters_apply_ok split: json.split intro!: fold)
qed simp

lemma anthropic_best_usage_ok: "anthropic_best_usage vs = Some u \<Longrightarrow> usage_ok u"
proof -
  have "counters_ok (fold (counters_visit MAX_PARSE_DEPTH) vs c)" if "counters_ok c" for c
    using that by (induction vs arbitrary: c) (auto simp: counters_visit_ok)
  then have "counters_ok (fold (counters_visit MAX_PARSE_DEPTH) vs empty_counters)" by (simp add: counters_ok_def empty_counters_def counter_opt_def)
  then have "usage_ok (counters_into_usage (fold (counters_visit MAX_PARSE_DEPTH) vs empty_counters))"
    unfolding counters_into_usage_def Let_def counters_ok_def
    by (intro usage_from_parts_ok remaining_ok or_zero_counter default_counter) (simp_all add: or_zero_counter)
  then show "anthropic_best_usage vs = Some u \<Longrightarrow> usage_ok u" by (auto simp: anthropic_best_usage_def Let_def split: if_splits)
qed

lemma estimated_usage_ok: "usage_ok (estimated_visible_usage a b)"
  unfolding estimated_visible_usage_def
  by (rule usage_from_parts_ok) (auto simp: estimate_visible_tokens_def counter_ok_def Let_def)

section \<open>Open turns\<close>

definition turn_ok :: "pending_turn \<Rightarrow> bool" where
  "turn_ok t \<longleftrightarrow>
     length (pt_response_documents t) \<le> MAX_RESPONSE_DOCUMENTS
     \<and> pt_response_document_bytes t \<le> MAX_RESPONSE_DOCUMENT_BYTES
     \<and> (case pt_exchange t of None \<Rightarrow> True | Some ex \<Rightarrow> images_ok (po_request_images ex) \<and> usage_ok (po_usage ex))"

definition turns_ok :: "pending_turns \<Rightarrow> bool" where
  "turns_ok ts \<longleftrightarrow> length ts \<le> MAX_PENDING_TURNS \<and> distinct (map fst ts) \<and> list_all (\<lambda>(i, t). turn_ok t) ts"

definition exchange_ok :: "parsed_openai \<Rightarrow> bool" where
  "exchange_ok ex \<longleftrightarrow> images_ok (po_request_images ex) \<and> usage_ok (po_usage ex)"

fun frame_ok :: "openai_ws_frame \<Rightarrow> bool" where
  "frame_ok (WsRequest ex) = exchange_ok ex"
| "frame_ok (WsResponse r) = exchange_ok (wr_exchange r)"
| "frame_ok _ = True"

lemma parsed_frame_ok: "frame_ok (parse_openai_websocket_message libs m)"
  by (auto simp: parse_openai_websocket_message_def client_frame_def server_frame_def Let_def exchange_ok_def
      extract_openai_images_ok openai_best_usage_ok split: option.split websocket_direction.split)

lemma merge_exchange_ok: "\<lbrakk>turn_ok t; exchange_ok ex\<rbrakk> \<Longrightarrow> turn_ok (merge_exchange ex identifies t)"
  by (auto simp: merge_exchange_def turn_ok_def exchange_ok_def Let_def split: option.split)

lemma merge_request_ok: "turn_ok t \<Longrightarrow> turn_ok (merge_request_conversation c t)"
  by (auto simp: merge_request_conversation_def turn_ok_def Let_def split: option.split)

lemma buffer_document_ok: "turn_ok t \<Longrightarrow> turn_ok (buffer_response_document d n t)"
  by (auto simp: buffer_response_document_def turn_ok_def Let_def split: option.split)

lemma turn_record_ok:
  assumes "turn_ok t" "frame_ok frame"
  shows "turn_ok (turn_record frame t)"
proof (cases frame)
  case (WsRequest ex)
  with assms(2) have "exchange_ok (ex\<lparr>po_request_conversation := empty_conversation\<rparr>)" by (simp add: exchange_ok_def)
  with WsRequest assms(1) show ?thesis by (simp add: turn_record_def Let_def merge_exchange_ok merge_request_ok)
next
  case (WsResponse r)
  with assms show ?thesis by (simp add: turn_record_def merge_exchange_ok buffer_document_ok)
next
  case (WsUndecodable d)
  with assms(1) show ?thesis by (cases d) (auto simp: turn_record_def turn_ok_def)
qed (use assms(1) in \<open>simp add: turn_record_def\<close>)

lemma new_turn_ok: "turn_ok (pending_turn_new now)"
  by (simp add: turn_ok_def pending_turn_new_def)

lemma turn_complete_ok: "\<lbrakk>turn_ok t; turn_complete libs t = Some ex\<rbrakk> \<Longrightarrow> exchange_ok ex"
  by (auto simp: turn_complete_def turn_ok_def exchange_ok_def Let_def split: option.splits if_splits)

lemma oldest_turn_key: "ts \<noteq> [] \<Longrightarrow> \<exists>i. oldest_turn ts = Some i \<and> i \<in> fst ` set ts"
proof (induction ts rule: oldest_turn.induct)
  case (2 i t ts)
  then show ?case by (cases "ts = []") (auto split: option.split intro: rev_image_eqI)
qed simp

lemma drop_turn_shorter: "i \<in> fst ` set ts \<Longrightarrow> length (drop_turn i ts) < length ts"
  unfolding drop_turn_def by (auto intro: length_filter_less)

lemma filter_turns: "distinct (map fst ts) \<Longrightarrow> distinct (map fst (filter P ts))"
  by (induction ts) auto

text \<open>What the push keeps before the turn is put back: the turns of other flows that are not too old.\<close>

definition kept_turns :: "nat \<Rightarrow> nat \<Rightarrow> pending_turns \<Rightarrow> pending_turns" where
  "kept_turns now fid ts = drop_turn fid (filter (\<lambda>(i, turn). now - pt_updated_at turn \<le> PENDING_TURN_TTL) ts)"

lemma kept_turns_ok: "turns_ok ts \<Longrightarrow> turns_ok (kept_turns now fid ts) \<and> fid \<notin> fst ` set (kept_turns now fid ts)"
  by (auto simp: kept_turns_def drop_turn_def turns_ok_def filter_turns list_all_iff
      intro: order_trans [OF length_filter_le] order_trans [OF length_filter_le [THEN order_trans, OF length_filter_le]])

definition make_room :: "pending_turns \<Rightarrow> pending_turns" where
  "make_room ts =
     (if MAX_PENDING_TURNS \<le> length ts then (case oldest_turn ts of Some i \<Rightarrow> drop_turn i ts | None \<Rightarrow> ts) else ts)"

lemma make_room_ok:
  assumes "turns_ok ts"
  shows "turns_ok (make_room ts) \<and> length (make_room ts) < MAX_PENDING_TURNS \<and> set (make_room ts) \<subseteq> set ts"
proof (cases "MAX_PENDING_TURNS \<le> length ts")
  case True
  then have "ts \<noteq> []" by (auto simp: MAX_PENDING_TURNS_def)
  from oldest_turn_key [OF this] obtain i where i: "oldest_turn ts = Some i" "i \<in> fst ` set ts" by blast
  from drop_turn_shorter [OF i(2)] assms have "length (drop_turn i ts) < MAX_PENDING_TURNS" by (auto simp: turns_ok_def)
  with True i assms show ?thesis
    by (auto simp: make_room_def turns_ok_def drop_turn_def filter_turns list_all_iff)
qed (use assms in \<open>auto simp: make_room_def\<close>)

lemma accumulator_push_ok:
  assumes ts: "turns_ok ts" and f: "frame_ok frame" and push: "accumulator_push libs now fid frame ts = (completed, ts')"
  shows "turns_ok ts' \<and> (case completed of None \<Rightarrow> True | Some ex \<Rightarrow> exchange_ok ex)"
proof (cases "frame = WsIrrelevant")
  case False
  let ?old = "filter (\<lambda>(i, turn). now - pt_updated_at turn \<le> PENDING_TURN_TTL) ts"
  let ?t = "turn_record frame (case map_of ?old fid of Some t \<Rightarrow> t | None \<Rightarrow> pending_turn_new now)"
  have kept: "turns_ok (kept_turns now fid ts)" "fid \<notin> fst ` set (kept_turns now fid ts)" using kept_turns_ok [OF ts] by auto
  have "turn_ok (case map_of ?old fid of Some t \<Rightarrow> t | None \<Rightarrow> pending_turn_new now)"
    using ts by (auto simp: turns_ok_def list_all_iff new_turn_ok split: option.split dest!: map_of_SomeD)
  then have t: "turn_ok ?t" by (rule turn_record_ok [OF _ f])
  then have t': "turn_ok (?t\<lparr>pt_updated_at := now\<rparr>)" by (simp add: turn_ok_def)
  have put: "turns_ok ((fid, ?t\<lparr>pt_updated_at := now\<rparr>) # make_room (kept_turns now fid ts))"
    using make_room_ok [OF kept(1)] kept(2) t' by (auto simp: turns_ok_def)
  let ?terminal = "case pt_exchange ?t of None \<Rightarrow> False | Some ex \<Rightarrow> is_terminal_response ex"
  have eq: "accumulator_push libs now fid frame ts =
      (if ?terminal then (turn_complete libs ?t, kept_turns now fid ts)
       else (None, (fid, ?t\<lparr>pt_updated_at := now\<rparr>) # make_room (kept_turns now fid ts)))"
    using False unfolding accumulator_push_def Let_def kept_turns_def make_room_def by simp
  show ?thesis
  proof (cases ?terminal)
    case True
    with eq push have "completed = turn_complete libs ?t" "ts' = kept_turns now fid ts" by auto
    with kept(1) turn_complete_ok [OF t] show ?thesis by (auto split: option.split)
  next
    case False
    with eq push have "completed = None" "ts' = (fid, ?t\<lparr>pt_updated_at := now\<rparr>) # make_room (kept_turns now fid ts)" by auto
    with put show ?thesis by simp
  qed
qed (use push ts in \<open>simp add: accumulator_push_def\<close>)

end
