(* ===== verification/Agent_Props.thy ===== *)
theory Agent_Props
  imports Protocol_Props
begin

text \<open>
  The agent hook as a whole: whatever it observes, its state stays within its limits, the events it publishes belong to an
  enabled harness and keep to that harness's content policy, and only the sink can make a publication fail.
\<close>

section \<open>Parsed exchanges\<close>

definition normalizable_ok :: "normalizable \<Rightarrow> bool" where
  "normalizable_ok nz \<longleftrightarrow>
     (\<forall>d p. images_ok (ep_request_images (nz_parts nz d p)) \<and> usage_ok (ep_usage (nz_parts nz d p))
       \<and> ep_harness_name (nz_parts nz d p) = hd_harness_id d)"

lemma image_from_bytes_ok: "image_from_bytes libs m bs = Some i \<Longrightarrow> image_ok i"
  by (auto simp: image_from_bytes_def image_ok_def byte_size_def split: option.splits if_splits)

lemma multipart_parts_ok: "multipart_parts libs n d body = Some i \<Longrightarrow> image_ok i"
  by (induction libs n d body rule: multipart_parts.induct)
    (auto simp: Let_def image_from_bytes_ok split: option.splits if_splits)

lemma upload_image_ok: "upload_from_exchange libs ex = Some u \<Longrightarrow> image_ok (pd_image u)"
  by (auto simp: upload_from_exchange_def multipart_image_def multipart_parts_ok split: option.splits if_splits)

lemma record_upload_ok: "cache_ok c \<Longrightarrow> cache_ok (snd (record_upload libs now ex c))"
  using prune_expired_ok [of c now]
  by (auto simp: record_upload_def upload_image_ok cache_insert_ok cache_ok_def [of "prune_expired now c"] split: option.split)

lemma openai_finish_ok: "\<lbrakk>openai_finish libs ex docs rc imgs r = Some p; images_ok imgs\<rbrakk> \<Longrightarrow> exchange_ok p"
  by (auto simp: openai_finish_def Let_def exchange_ok_def openai_best_usage_ok bind_eq_Some_conv split: option.splits if_splits)

lemma parse_openai_ok: "parse_openai_exchange libs ex proto = Some p \<Longrightarrow> exchange_ok p"
proof -
  have imgs: "images_ok (openai_request_images libs ex)"
    by (auto simp: openai_request_images_def extract_openai_images_ok split: option.split)
  show "parse_openai_exchange libs ex proto = Some p \<Longrightarrow> exchange_ok p"
    using imgs by (cases proto)
      (auto simp: parse_chat_completions_exchange_def parse_responses_exchange_def Let_def dest: openai_finish_ok)
qed

lemma first_usage_ok:
  "first_some [anthropic_best_usage a, anthropic_best_usage b] = Some u \<Longrightarrow> usage_ok u"
  by (auto dest!: first_some_cases sym [of "Some u"] anthropic_best_usage_ok)

lemma parse_messages_ok:
  "parse_anthropic_messages_exchange libs ex = Some p \<Longrightarrow> images_ok (pa_request_images p) \<and> usage_ok (pa_usage p)"
  by (auto simp: parse_anthropic_messages_exchange_def Let_def extract_anthropic_images_ok first_usage_ok
      split: option.splits if_splits)

lemma parse_claude_web_ok:
  "parse_claude_web_exchange libs ex = Some p \<Longrightarrow> images_ok (pw_request_images p) \<and> usage_ok (pw_usage p)"
  by (auto simp: parse_claude_web_exchange_def Let_def extract_anthropic_images_ok first_usage_ok estimated_usage_ok
      split: option.splits if_splits)

lemma attach_ok:
  assumes c: "cache_ok c" and p: "images_ok (pw_request_images p)" "usage_ok (pw_usage p)"
    and a: "attach_referenced_images now p c = (p', c')"
  shows "cache_ok c' \<and> images_ok (pw_request_images p') \<and> usage_ok (pw_usage p')"
proof -
  let ?c = "prune_expired now c"
  let ?r = "List.map_filter (\<lambda>uuid. map_option (\<lambda>cached. (uuid, cu_image cached))
    (map_of (wu_uploads ?c) (pw_session_id p, uuid))) (pw_request_file_uuids p)"
  have ok: "cache_ok ?c" by (rule prune_expired_ok [OF c])
  then have "list_all (\<lambda>(u, i). image_ok i) ?r"
    by (fastforce simp: cache_ok_def cache_consistent_def list_all_iff map_filter_def dest!: map_of_SomeD)
  from attach_loop_ok [OF this, of "length (pw_request_images p)" "sum_list (map byte_size (pw_request_images p))" "[]"] p
  have "images_ok (pw_request_images p @ attach_loop ?r (length (pw_request_images p))
      (sum_list (map byte_size (pw_request_images p))) [])"
    by (auto simp: images_ok_def)
  with a ok p(2) show ?thesis by (auto simp: attach_referenced_images_def Let_def)
qed

lemma normalizables_ok:
  "exchange_ok p \<Longrightarrow> normalizable_ok (openai_normalizable p)"
  "images_ok (pa_request_images q) \<and> usage_ok (pa_usage q) \<Longrightarrow> normalizable_ok (anthropic_normalizable q)"
  "images_ok (pw_request_images w) \<and> usage_ok (pw_usage w) \<Longrightarrow> normalizable_ok (claude_web_normalizable w)"
  by (auto simp: normalizable_ok_def exchange_ok_def openai_normalizable_def anthropic_normalizable_def claude_web_normalizable_def
      parsed_parts_def)

section \<open>The documents of an open turn\<close>

text \<open>
  What a turn buffers is what the server sent on its flow: the payloads of some of the messages observed so far, in their
  order, and its byte counter is the length of exactly these.
\<close>

definition wm_payload :: "websocket_message \<Rightarrow> bytes" where
  "wm_payload m = (case wm_text m of Some text \<Rightarrow> text | None \<Rightarrow> (case wm_binary m of Some bs \<Rightarrow> bs | None \<Rightarrow> []))"

fun observed_message :: "hooks_config \<times> hook_clock \<times> json hook_event \<Rightarrow> websocket_message list" where
  "observed_message (policy, clock, WebSocketMessageEvent m) = [m]"
| "observed_message (policy, clock, HttpExchangeEvent ex) = []"

definition buffers :: "protocol_libs \<Rightarrow> websocket_message list \<Rightarrow> nat \<Rightarrow> json list \<Rightarrow> nat \<Rightarrow> bool" where
  "buffers libs seen fid docs n \<longleftrightarrow>
     (\<exists>ms. subseq ms seen \<and> list_all (\<lambda>m. flow_id (wm_flow m) = fid \<and> wm_direction m = ServerToClient) ms
        \<and> map (\<lambda>m. pl_from_slice libs (wm_payload m)) ms = map Some docs
        \<and> sum_list (map (\<lambda>m. length (wm_payload m)) ms) = n)"

definition turns_buffer :: "protocol_libs \<Rightarrow> websocket_message list \<Rightarrow> pending_turns \<Rightarrow> bool" where
  "turns_buffer libs seen ts \<longleftrightarrow>
     list_all (\<lambda>(fid, t). buffers libs seen fid (pt_response_documents t) (pt_response_document_bytes t)) ts"

lemma wm_payload_length:
  "(case wm_text m of Some text \<Rightarrow> length text | None \<Rightarrow> (case wm_binary m of Some bs \<Rightarrow> length bs | None \<Rightarrow> 0))
     = length (wm_payload m)"
  by (simp add: wm_payload_def split: option.split)

lemma buffers_Nil: "buffers libs seen fid [] 0"
  unfolding buffers_def by (rule exI [of _ "[]"]) simp

lemma buffers_later: "buffers libs seen fid docs n \<Longrightarrow> buffers libs (seen @ later) fid docs n"
  unfolding buffers_def using list_emb_append_mono [OF _ list_emb_Nil, of "(=)" _ seen later] by fastforce

lemma buffers_snoc:
  assumes "buffers libs seen fid docs n" "flow_id (wm_flow m) = fid" "wm_direction m = ServerToClient"
    "pl_from_slice libs (wm_payload m) = Some d"
  shows "buffers libs (seen @ [m]) fid (docs @ [d]) (n + length (wm_payload m))"
proof -
  from assms(1) obtain ms where "subseq ms seen"
    "list_all (\<lambda>m. flow_id (wm_flow m) = fid \<and> wm_direction m = ServerToClient) ms"
    "map (\<lambda>m. pl_from_slice libs (wm_payload m)) ms = map Some docs"
    "sum_list (map (\<lambda>m. length (wm_payload m)) ms) = n" unfolding buffers_def by blast
  with assms(2-4) show ?thesis
    unfolding buffers_def by (intro exI [of _ "ms @ [m]"]) (simp add: list_emb_append_mono)
qed

lemma frame_choice:
  "(if b then WsIrrelevant else WsRequest x) \<noteq> WsResponse r"
  "(if b then WsIrrelevant else WsResponse y) = WsResponse r \<Longrightarrow> r = y"
  by (simp_all split: if_splits)

lemma client_frame_no_response: "client_frame libs m host payload \<noteq> WsResponse r"
  unfolding client_frame_def Let_def by (rule frame_choice)

lemma server_frame_response:
  assumes "server_frame libs m host payload = WsResponse r"
  shows "wr_document r = payload" "wr_byte_len r = length (wm_payload m)"
  unfolding frame_choice(2) [OF assms [unfolded server_frame_def Let_def]]
  by (simp_all only: openai_ws_response.select_convs wm_payload_length)

lemma parsed_response:
  assumes "parse_openai_websocket_message libs m = WsResponse r"
  shows "wm_direction m = ServerToClient" "pl_from_slice libs (wm_payload m) = Some (wr_document r)"
    "wr_byte_len r = length (wm_payload m)"
proof -
  from assms obtain payload host where p: "websocket_json_payload libs m = Some payload" "wm_direction m = ServerToClient"
    "server_frame libs m host payload = WsResponse r"
    by (auto simp: parse_openai_websocket_message_def client_frame_no_response split: option.splits websocket_direction.splits)
  then show "wm_direction m = ServerToClient" "wr_byte_len r = length (wm_payload m)"
    using server_frame_response [OF p(3)] by simp_all
  show "pl_from_slice libs (wm_payload m) = Some (wr_document r)"
    using p(1) server_frame_response [OF p(3)]
    by (auto simp: websocket_json_payload_def wm_payload_def bind_eq_Some_conv split: option.splits)
qed

lemma merged_documents [simp]:
  "pt_response_documents (merge_exchange ex b t) = pt_response_documents t"
  "pt_response_document_bytes (merge_exchange ex b t) = pt_response_document_bytes t"
  "pt_response_documents (merge_request_conversation c t) = pt_response_documents t"
  "pt_response_document_bytes (merge_request_conversation c t) = pt_response_document_bytes t"
  by (auto simp: merge_exchange_def merge_request_conversation_def Let_def split: option.split)

lemma turn_record_buffers:
  assumes t: "buffers libs seen (flow_id (wm_flow m)) (pt_response_documents t) (pt_response_document_bytes t)"
    and frame: "frame = parse_openai_websocket_message libs m"
  shows "buffers libs (seen @ [m]) (flow_id (wm_flow m)) (pt_response_documents (turn_record frame t))
    (pt_response_document_bytes (turn_record frame t))"
proof (cases frame)
  case (WsResponse r)
  then have "parse_openai_websocket_message libs m = WsResponse r" using frame by simp
  note parsed = parsed_response [OF this]
  from buffers_snoc [OF t refl parsed(1,2)] buffers_later [OF t, of "[m]"] WsResponse parsed(3) show ?thesis
    by (simp add: turn_record_def buffer_response_document_def Let_def)
next
  case (WsUndecodable d)
  with buffers_later [OF t, of "[m]"] show ?thesis by (cases d) (simp_all add: turn_record_def)
qed (use buffers_later [OF t, of "[m]"] in \<open>simp_all add: turn_record_def Let_def\<close>)

lemma accumulator_push_buffers:
  assumes ts: "turns_buffer libs seen ts"
    and push: "accumulator_push libs now (flow_id (wm_flow m)) (parse_openai_websocket_message libs m) ts = (completed, ts')"
  shows "turns_buffer libs (seen @ [m]) ts'"
proof -
  let ?fid = "flow_id (wm_flow m)" and ?frame = "parse_openai_websocket_message libs m"
  let ?ok = "\<lambda>seen (fid, t). buffers libs seen fid (pt_response_documents t) (pt_response_document_bytes t)"
  have later: "?ok (seen @ [m]) it" if "it \<in> set ts" for it
    using ts that buffers_later by (fastforce simp: turns_buffer_def list_all_iff)
  let ?old = "filter (\<lambda>(i, turn). now - pt_updated_at turn \<le> PENDING_TURN_TTL) ts"
  let ?t0 = "case map_of ?old ?fid of Some t \<Rightarrow> t | None \<Rightarrow> pending_turn_new now"
  have "buffers libs seen ?fid (pt_response_documents ?t0) (pt_response_document_bytes ?t0)"
    using ts by (auto simp: turns_buffer_def list_all_iff buffers_Nil pending_turn_new_def split: option.split dest!: map_of_SomeD)
  note new = turn_record_buffers [OF this refl]
  have "ts' = ts \<or> set ts' \<subseteq> insert (?fid, (turn_record ?frame ?t0)\<lparr>pt_updated_at := now\<rparr>) (set ts)"
    using push by (auto simp: accumulator_push_def drop_turn_def Let_def split: if_splits option.splits)
  with new later show ?thesis unfolding turns_buffer_def list_all_iff by fastforce
qed

section \<open>One call\<close>

definition hook_state_ok :: "hook_state \<Rightarrow> bool" where
  "hook_state_ok s \<longleftrightarrow> cache_ok (hs_uploads s) \<and> turns_ok (hs_turns s)"

text \<open>Events of one call: those of one well-formed exchange of the detected harness, under the content policy of that harness.\<close>

definition call_events :: "protocol_libs \<Rightarrow> device_identity \<Rightarrow> hooks_config \<Rightarrow> hook_clock \<Rightarrow> harness_detection \<Rightarrow> normalized_event list \<Rightarrow> bool"
where
  "call_events libs device policy clock detection events \<longleftrightarrow>
     (\<exists>nz provider decl target request response. normalizable_ok nz \<and> events =
        hook_normalize libs device clock nz (content_for_harness (hk_usage policy) (hd_harness_id detection)) detection provider decl
          (passthrough_new (pl_normalizer libs) target request response))"

lemma call_eventsI [simp, intro]:
  "normalizable_ok nz \<Longrightarrow> call_events libs device policy clock d
     (hook_normalize libs device clock nz (content_for_harness (hk_usage policy) (hd_harness_id d)) d provider decl
       (passthrough_new (pl_normalizer libs) target request response))"
  unfolding call_events_def by blast

lemma protocol_events_ok:
  assumes "protocol_events libs device (content_for_harness (hk_usage policy) (hd_harness_id d)) clock d ex proto s = (es, s')"
    "hook_state_ok s"
  shows "hook_state_ok s' \<and> (es = [] \<or> call_events libs device policy clock d es)"
proof (cases proto)
  case (OpenAiProtocol p)
  with assms parse_openai_ok [of libs ex p, THEN normalizables_ok(1)] show ?thesis
    by (cases "parse_openai_exchange libs ex p") (auto simp: protocol_events_def Let_def)
next
  case (AnthropicProtocol a)
  show ?thesis
  proof (cases a)
    case Messages
    with AnthropicProtocol assms parse_messages_ok [of libs ex, THEN normalizables_ok(2)] show ?thesis
      by (cases "parse_anthropic_messages_exchange libs ex") (auto simp: protocol_events_def Let_def)
  next
    case ClaudeWebCompletion
    show ?thesis
    proof (cases "parse_claude_web_exchange libs ex")
      case None
      with ClaudeWebCompletion AnthropicProtocol assms show ?thesis by (auto simp: protocol_events_def Let_def)
    next
      case (Some w)
      obtain w' c' where att: "attach_referenced_images (ck_attach clock) w (hs_uploads s) = (w', c')" by fastforce
      with attach_ok [OF _ _ _ att] parse_claude_web_ok [OF Some] assms(2)
      have "cache_ok c'" "normalizable_ok (claude_web_normalizable w')" by (auto simp: hook_state_ok_def normalizables_ok)
      with att Some ClaudeWebCompletion AnthropicProtocol assms show ?thesis
        by (auto simp: protocol_events_def hook_state_ok_def Let_def)
    qed
  qed
qed

lemma http_events_ok:
  assumes "http_events libs device policy clock ex s = (es, s')" "hook_state_ok s"
  shows "hook_state_ok s' \<and> (es = [] \<or> (\<exists>d. detect_http_harness libs ex (hk_usage policy) = Some d
    \<and> call_events libs device policy clock d es))"
proof (cases "detect_http_harness libs ex (hk_usage policy)")
  case (Some d)
  obtain r c where rec: "record_upload libs (ck_upload clock) ex (hs_uploads s) = (r, c)" by fastforce
  with record_upload_ok [of "hs_uploads s" libs "ck_upload clock" ex] assms(2)
  have ok: "hook_state_ok (s\<lparr>hs_uploads := c\<rparr>)" by (simp add: hook_state_ok_def)
  show ?thesis
  proof (cases "r \<or> detect_http_protocol libs ex = None")
    case True
    with Some rec ok assms(1) show ?thesis by (auto simp: http_events_def Let_def split: if_splits)
  next
    case False
    then obtain proto where "detect_http_protocol libs ex = Some proto" by auto
    with False Some rec assms(1) have "protocol_events libs device (content_for_harness (hk_usage policy) (hd_harness_id d)) clock d ex
        proto (s\<lparr>hs_uploads := c\<rparr>) = (es, s')" by (simp add: http_events_def Let_def)
    from protocol_events_ok [OF this ok] Some show ?thesis by auto
  qed
qed (use assms in \<open>auto simp: http_events_def\<close>)

lemma websocket_events_ok:
  assumes "websocket_events libs device policy clock m s = (es, s')" "hook_state_ok s"
  shows "hook_state_ok s' \<and> (es = [] \<or> (\<exists>d. detect_websocket_harness libs m (hk_usage policy) = Some d
    \<and> call_events libs device policy clock d es))"
proof (cases "detect_websocket_harness libs m (hk_usage policy)")
  case (Some d)
  show ?thesis
  proof (cases "detect_websocket_protocol libs m = Some (OpenAiProtocol Responses)")
    case True
    obtain r ts where push: "accumulator_push libs (ck_upload clock) (flow_id (wm_flow m)) (parse_openai_websocket_message libs m)
        (hs_turns s) = (r, ts)" by fastforce
    from accumulator_push_ok [OF _ parsed_frame_ok push] assms(2)
    have ok: "turns_ok ts" "case r of None \<Rightarrow> True | Some ex \<Rightarrow> exchange_ok ex" by (auto simp: hook_state_ok_def)
    show ?thesis
    proof (cases r)
      case None
      with True Some push ok assms show ?thesis by (auto simp: websocket_events_def hook_state_ok_def Let_def)
    next
      case (Some p)
      with True \<open>detect_websocket_harness libs m (hk_usage policy) = Some d\<close> push ok assms normalizables_ok(1) [of p]
      show ?thesis by (auto simp: websocket_events_def hook_state_ok_def Let_def)
    qed
  next
    case False
    with Some assms show ?thesis
      by (auto simp: websocket_events_def detect_websocket_protocol_def split: if_splits)
  qed
qed (use assms in \<open>auto simp: websocket_events_def\<close>)

section \<open>What is published\<close>

fun detected_harness :: "protocol_libs \<Rightarrow> hooks_config \<Rightarrow> json hook_event \<Rightarrow> harness_detection option" where
  "detected_harness libs policy (HttpExchangeEvent ex) = detect_http_harness libs ex (hk_usage policy)"
| "detected_harness libs policy (WebSocketMessageEvent m) = detect_websocket_harness libs m (hk_usage policy)"

lemma hook_call_ok:
  assumes call: "hook_call libs device policy clock sink event s = (res, published, s')" and s: "hook_state_ok s"
  obtains es where "hook_state_ok s'" "deliver_normalized (pl_normalizer libs) sink es = (res, published)"
    "es = [] \<or> (\<exists>d. detected_harness libs policy event = Some d \<and> call_events libs device policy clock d es)"
proof (cases event)
  case (HttpExchangeEvent ex)
  obtain es t where es: "http_events libs device policy clock ex s = (es, t)" by fastforce
  from http_events_ok [OF this s] es call HttpExchangeEvent that [of es] show ?thesis by (auto split: prod.splits)
next
  case (WebSocketMessageEvent m)
  obtain es t where es: "websocket_events libs device policy clock m s = (es, t)" by fastforce
  from websocket_events_ok [OF this s] es call WebSocketMessageEvent that [of es] show ?thesis by (auto split: prod.splits)
qed

text \<open>An event of a call is a side of the exchange, with its images, its usage and the name of its harness.\<close>

lemma call_event_cases:
  assumes "call_events libs device policy clock d es" "e \<in> set es"
  obtains parts side t where "e = usage_event (pl_normalizer libs) device parts side t"
    "side_ok (content_for_harness (hk_usage policy) (hd_harness_id d)) side" "ep_harness_name parts = hd_harness_id d"
    "images_ok (es_attachments side)" "usage_ok (es_token_usage side)"
proof -
  from assms(1) obtain nz provider decl target request response where nz: "normalizable_ok nz"
    and es: "es = hook_normalize libs device clock nz (content_for_harness (hk_usage policy) (hd_harness_id d)) d provider decl
      (passthrough_new (pl_normalizer libs) target request response)" unfolding call_events_def by blast
  let ?parts = "nz_parts nz d provider"
  let ?c = "content_for_harness (hk_usage policy) (hd_harness_id d)"
  let ?xp = "passthrough_new (pl_normalizer libs) target request response"
  from assms(2) obtain dl t side where e: "e = usage_event (pl_normalizer libs) device ?parts side t"
    "side = request_event_side ?parts ?c dl ?xp \<or> side = response_event_side ?parts ?c dl ?xp"
    unfolding es hook_normalize_def normalize_exchange_def events_for_parsed_exchange_def
    by (auto simp: Let_def split: if_splits)
  from nz have parts: "images_ok (ep_request_images ?parts)" "usage_ok (ep_usage ?parts)" "ep_harness_name ?parts = hd_harness_id d"
    by (auto simp: normalizable_ok_def)
  have "images_ok (es_attachments side)" "usage_ok (es_token_usage side)"
    using e(2) parts sides_usage_ok
    by (auto simp: request_event_side_def response_event_side_def retained_token_usage_def)
  moreover have "side_ok ?c side" using e(2) event_sides_ok by blast
  ultimately show ?thesis using that e(1) parts(3) by blast
qed

text \<open>The attachments of a published event are images, each given by its bytes in base64 and their number.\<close>

definition attachments_ok :: "protocol_libs \<Rightarrow> ('c, 't) agent_event \<Rightarrow> bool" where
  "attachments_ok libs a \<longleftrightarrow>
     length (ae_attachments a) \<le> 8
     \<and> (\<exists>images. map ia_content_base64 (ae_attachments a) = map (\<lambda>bs. Some (nl_base64 (pl_normalizer libs) bs)) images
          \<and> map (\<lambda>i. unat (ia_byte_size i)) (ae_attachments a) = map length images
          \<and> sum_list (map length images) \<le> 8 * 1024 * 1024)"

text \<open>Images and counters of a side are converted, without loss.\<close>

lemma image_converted:
  "image_try_from \<lparr>ni_position = int p, ni_media_type = media_as_str (pi_media_type i), ni_byte_size = length (pi_bytes i),
     ni_sha256 = h, ni_content_base64 = b\<rparr> =
   Ok \<lparr>ia_position = of_nat p, ia_media_type = (case pi_media_type i of
       ParsedPng \<Rightarrow> Png | ParsedJpeg \<Rightarrow> Jpeg | ParsedWebp \<Rightarrow> Webp | ParsedGif \<Rightarrow> Gif),
     ia_byte_size = of_nat (length (pi_bytes i)), ia_sha256 = h, ia_content_base64 = b\<rparr>"
  by (cases "pi_media_type i") (simp_all add: image_try_from_def)

lemma attachments_converted:
  "\<exists>att. collect_results (map image_try_from (normalized_image_attachments libs is content)) = Ok att
     \<and> map ia_byte_size att = (if cc_images content then map (\<lambda>i. of_nat (length (pi_bytes i))) is else [])
     \<and> map ia_content_base64 att = (if cc_images content then map (\<lambda>i. Some (nl_base64 libs (pi_bytes i))) is else [])"
proof -
  have "\<exists>att. collect_results (map image_try_from (map (\<lambda>(position, i).
      \<lparr>ni_position = int position, ni_media_type = media_as_str (pi_media_type i), ni_byte_size = length (pi_bytes i),
       ni_sha256 = pi_sha256 i, ni_content_base64 = Some (nl_base64 libs (pi_bytes i))\<rparr>) (enumerate n is))) = Ok att
     \<and> map ia_byte_size att = map (\<lambda>i. of_nat (length (pi_bytes i))) is
     \<and> map ia_content_base64 att = map (\<lambda>i. Some (nl_base64 libs (pi_bytes i))) is" for n
  proof (induction "is" arbitrary: n)
    case (Cons i "is")
    from Cons [of "Suc n"] show ?case by (auto simp: image_converted)
  qed simp
  from this [of 0] show ?thesis by (auto simp: normalized_image_attachments_def)
qed

lemma usage_converted: "usage_ok u \<Longrightarrow> \<exists>v. usage_try_from u = Ok v"
  by (simp add: usage_try_from_def non_negative_counter_def usage_ok_def counter_ok_def)

lemma call_event_converts:
  assumes "call_events libs device policy clock d es" "e \<in> set es" "nl_parse_rfc3339 (pl_normalizer libs) (ne_observed_at e) \<noteq> None"
  shows "\<exists>a. agent_event_try_from (pl_normalizer libs) e = Ok a"
proof -
  from assms(1,2) obtain parts side t where e: "e = usage_event (pl_normalizer libs) device parts side t"
    and u: "usage_ok (es_token_usage side)" by (rule call_event_cases)
  from usage_converted [OF u] attachments_converted [of "pl_normalizer libs" "es_attachments side" "es_content side"] assms(3)
  show ?thesis by (auto simp: e agent_event_try_from_def usage_event_def)
qed

lemma published_event_ok:
  assumes "call_events libs device policy clock d es" "e \<in> set es" "agent_event_try_from (pl_normalizer libs) e = Ok a"
  shows "ac_name (ae_agent a) = hd_harness_id d" "event_respects (content_for_harness (hk_usage policy) (hd_harness_id d)) a"
    "attachments_ok libs a"
proof -
  from assms(1,2) obtain parts side t where e: "e = usage_event (pl_normalizer libs) device parts side t"
    and side: "side_ok (content_for_harness (hk_usage policy) (hd_harness_id d)) side" "ep_harness_name parts = hd_harness_id d"
      "images_ok (es_attachments side)" by (rule call_event_cases)
  have a: "ae_agent a = ne_agent e" "collect_results (map image_try_from (ne_attachments e)) = Ok (ae_attachments a)"
    using assms(3) by (auto simp: agent_event_try_from_def split: option.splits sum.splits)
  then show "ac_name (ae_agent a) = hd_harness_id d" using side(2) by (simp add: e usage_event_def)
  show "event_respects (content_for_harness (hk_usage policy) (hd_harness_id d)) a"
    using converted_respects [OF _ side(1)] assms(3) e by simp
  let ?images = "if cc_images (es_content side) then map pi_bytes (es_attachments side) else []"
  from attachments_converted [of "pl_normalizer libs" "es_attachments side" "es_content side"] a(2)
  have sizes: "map ia_byte_size (ae_attachments a) = map (\<lambda>bs. of_nat (length bs)) ?images"
    and content: "map ia_content_base64 (ae_attachments a) = map (\<lambda>bs. Some (nl_base64 (pl_normalizer libs) bs)) ?images"
    by (auto simp: e usage_event_def)
  have small: "unat (of_nat (length bs) :: u64) = length bs" if "bs \<in> set ?images" for bs
    using that side(3) by (auto simp: images_ok_def list_all_iff image_ok_def byte_size_def MAX_IMAGE_ATTACHMENT_BYTES_PER_EVENT_def
        unat_of_nat_u64)
  have "map (\<lambda>i. unat (ia_byte_size i)) (ae_attachments a) = map unat (map ia_byte_size (ae_attachments a))" by simp
  also have "\<dots> = map length ?images" unfolding sizes map_map comp_def by (rule map_cong [OF refl small])
  finally show "attachments_ok libs a"
    using side(3) content arg_cong [OF sizes, of length] unfolding attachments_ok_def
    by (auto simp: images_ok_def byte_size_def [abs_def] comp_def MAX_IMAGE_ATTACHMENTS_PER_EVENT_def
        MAX_IMAGE_ATTACHMENT_BYTES_PER_EVENT_def intro!: exI [of _ ?images])
qed

lemma hook_call_published:
  assumes "hook_call libs device policy clock sink event s = (res, published, s')" "hook_state_ok s" "a \<in> set published"
  obtains d where "detected_harness libs policy event = Some d" "ac_name (ae_agent a) = hd_harness_id d"
    "event_respects (content_for_harness (hk_usage policy) (hd_harness_id d)) a" "attachments_ok libs a"
proof -
  from assms(1,2) obtain es where es: "deliver_normalized (pl_normalizer libs) sink es = (res, published)"
    "es = [] \<or> (\<exists>d. detected_harness libs policy event = Some d \<and> call_events libs device policy clock d es)" by (rule hook_call_ok)
  from es(1) assms(3) published_converted [of a "pl_normalizer libs" sink es] obtain e where
    e: "e \<in> set es" "agent_event_try_from (pl_normalizer libs) e = Ok a" by auto
  with es(2) obtain d where "detected_harness libs policy event = Some d" "call_events libs device policy clock d es" by auto
  with published_event_ok [OF this(2) e] that show ?thesis by blast
qed

section \<open>Runs\<close>

lemma initial_hook_state_ok: "hook_state_ok initial_hook_state"
  by (simp add: hook_state_ok_def initial_hook_state_def cache_ok_def cache_consistent_def empty_upload_cache_def over_capacity_def
      turns_ok_def)

lemma hook_run_ok:
  "hook_state_ok s \<Longrightarrow> hook_state_ok (snd (hook_run libs device sink trace s)) \<and> list_all (attachments_ok libs) (fst (hook_run libs device sink trace s))"
proof (induction libs device sink trace s rule: hook_run.induct)
  case (2 libs device sink policy clock event rest s)
  show ?case
  proof (cases "agent_hook_matches policy (event_flow event)")
    case True
    obtain res published t where call: "hook_call libs device policy clock sink event s = (res, published, t)" by (metis prod_cases3)
    have t: "hook_state_ok t" using call "2.prems" by (rule hook_call_ok)
    have "list_all (attachments_ok libs) published"
      unfolding list_all_iff by (meson hook_call_published [OF call "2.prems"])
    with 2(1) [OF True call [symmetric] refl t] True call show ?thesis by (auto split: prod.splits)
  next
    case False
    with 2 show ?thesis by simp
  qed
qed simp

text \<open>The turns of the hook hold documents of the messages it has observed.\<close>

lemma protocol_events_turns: "protocol_events libs device content clock d ex proto s = (es, s') \<Longrightarrow> hs_turns s' = hs_turns s"
  by (auto simp: protocol_events_def Let_def split: llm_protocol.splits anthropic_protocol.splits option.splits prod.splits)

lemma http_events_turns: "http_events libs device policy clock ex s = (es, s') \<Longrightarrow> hs_turns s' = hs_turns s"
  by (auto simp: http_events_def Let_def dest: protocol_events_turns split: option.splits prod.splits if_splits)

lemma websocket_events_turns:
  assumes "websocket_events libs device policy clock m s = (es, s')" "turns_buffer libs seen (hs_turns s)"
  shows "turns_buffer libs (seen @ [m]) (hs_turns s')"
proof -
  have "hs_turns s' = hs_turns s \<or> hs_turns s' = snd (accumulator_push libs (ck_upload clock) (flow_id (wm_flow m))
      (parse_openai_websocket_message libs m) (hs_turns s))"
    using assms(1)
    by (auto simp: websocket_events_def Let_def
        split: option.splits llm_protocol.splits openai_protocol.splits prod.splits)
  moreover have "turns_buffer libs (seen @ [m]) (hs_turns s)"
    using assms(2) buffers_later by (fastforce simp: turns_buffer_def list_all_iff)
  ultimately show ?thesis using accumulator_push_buffers [OF assms(2)] by (metis prod.collapse)
qed

lemma hook_call_turns:
  assumes "hook_call libs device policy clock sink event s = (res, published, s')" "turns_buffer libs seen (hs_turns s)"
  shows "turns_buffer libs (seen @ observed_message (policy, clock, event)) (hs_turns s')"
  using assms by (cases event) (auto split: prod.splits dest: http_events_turns websocket_events_turns)

lemma hook_run_turns:
  "turns_buffer libs seen (hs_turns s) \<Longrightarrow>
     turns_buffer libs (seen @ concat (map observed_message trace)) (hs_turns (snd (hook_run libs device sink trace s)))"
proof (induction libs device sink trace s arbitrary: seen rule: hook_run.induct)
  case (2 libs device sink policy clock event rest s)
  show ?case
  proof (cases "agent_hook_matches policy (event_flow event)")
    case True
    obtain res published t where call: "hook_call libs device policy clock sink event s = (res, published, t)" by (metis prod_cases3)
    from 2(1) [OF True call [symmetric] refl hook_call_turns [OF call "2.prems"]] True call show ?thesis
      by (auto split: prod.splits)
  next
    case False
    have "turns_buffer libs (seen @ observed_message (policy, clock, event)) (hs_turns s)"
      using "2.prems" buffers_later by (fastforce simp: turns_buffer_def list_all_iff)
    from 2(2) [OF False this] False show ?thesis by simp
  qed
qed simp

lemma turns_buffer_initial: "turns_buffer libs [] (hs_turns initial_hook_state)"
  by (simp add: turns_buffer_def initial_hook_state_def)

lemmas reached_ok = hook_run_ok [OF initial_hook_state_ok, THEN conjunct1]

lemma deliver_converted:
  "\<forall>e \<in> set es. \<exists>a. agent_event_try_from libs e = Ok a \<Longrightarrow>
   case fst (deliver_normalized libs sink es) of Err (ConversionFailure x) \<Rightarrow> False | _ \<Rightarrow> True"
  by (induction es) (auto split: sum.splits prod.splits delivery_failure.splits)

lemma detected_enabled:
  assumes "distinct (map fst (uc_harnesses (hk_usage policy)))" "detected_harness libs policy event = Some d"
  shows "enabled_for_harness (hk_usage policy) (hd_harness_id d)"
proof -
  from assms(2) obtain flow hs path where "registry_detect flow hs path (hk_usage policy) = Some d"
    by (cases event) (auto simp: detect_http_harness_def detect_websocket_harness_def)
  then have "d \<in> set (candidates flow hs path (hk_usage policy))" by (simp add: registry_detect_Some)
  with custom_detections_enabled [OF assms(1)] show ?thesis by (auto simp: candidates_def)
qed

lemma cached_bounds:
  assumes "hook_state_ok s"
  shows "length (wu_uploads (hs_uploads s)) \<le> 64"
    and "sum_list (map (\<lambda>(key, upload). length (pi_bytes (cu_image upload))) (wu_uploads (hs_uploads s))) \<le> 32 * 1024 * 1024"
proof -
  have "(\<lambda>(key, upload). length (pi_bytes (cu_image upload))) = upload_size"
    by (auto simp: fun_eq_iff upload_size_def byte_size_def)
  with assms show "length (wu_uploads (hs_uploads s)) \<le> 64"
    "sum_list (map (\<lambda>(key, upload). length (pi_bytes (cu_image upload))) (wu_uploads (hs_uploads s))) \<le> 32 * 1024 * 1024"
    by (auto simp: hook_state_ok_def cache_ok_def cache_consistent_def over_capacity_def MAX_CACHED_UPLOADS_def
        MAX_CACHED_UPLOAD_BYTES_def)
qed

section \<open>Properties\<close>

text \<open>
  C16. Whatever the hook observes, what it keeps and sends stays within its limits, in bytes of real data. It keeps at most 64
  uploads, whose images together have at most 32 MiB, and at most 64 open turns, one per flow. A turn has at most 4096
  documents; they are the parsed payloads of messages the server sent on that turn's flow, in the order they were observed, and
  these payloads together have at most 16 MiB. No published event has more than 8 attachments; their contents are the base64 of
  images that together have at most 8 MiB, and their sizes are the sizes of these images.
\<close>

theorem agent_hook_bounded:
  "case hook_run libs device sink trace initial_hook_state of (published, s) \<Rightarrow>
     length (wu_uploads (hs_uploads s)) \<le> 64
   \<and> sum_list (map (\<lambda>(key, upload). length (pi_bytes (cu_image upload))) (wu_uploads (hs_uploads s))) \<le> 32 * 1024 * 1024
   \<and> length (hs_turns s) \<le> 64 \<and> distinct (map fst (hs_turns s))
   \<and> list_all (\<lambda>(fid, turn).
        length (pt_response_documents turn) \<le> 4096
        \<and> (\<exists>ms. subseq ms (concat (map observed_message trace))
             \<and> list_all (\<lambda>m. flow_id (wm_flow m) = fid \<and> wm_direction m = ServerToClient) ms
             \<and> map (\<lambda>m. pl_from_slice libs (wm_payload m)) ms = map Some (pt_response_documents turn)
             \<and> sum_list (map (\<lambda>m. length (wm_payload m)) ms) \<le> 16 * 1024 * 1024)) (hs_turns s)
   \<and> list_all (\<lambda>a.
        length (ae_attachments a) \<le> 8
        \<and> (\<exists>images. map ia_content_base64 (ae_attachments a) = map (\<lambda>bs. Some (nl_base64 (pl_normalizer libs) bs)) images
             \<and> map (\<lambda>i. unat (ia_byte_size i)) (ae_attachments a) = map length images
             \<and> sum_list (map length images) \<le> 8 * 1024 * 1024)) published"
proof -
  obtain published s where run: "hook_run libs device sink trace initial_hook_state = (published, s)" by fastforce
  from hook_run_ok [OF initial_hook_state_ok, of libs device sink trace] run
  have ok: "hook_state_ok s" "list_all (attachments_ok libs) published" by simp_all
  from hook_run_turns [OF turns_buffer_initial, of libs trace device sink] run
  have buffered: "turns_buffer libs (concat (map observed_message trace)) (hs_turns s)" by simp
  from ok(1) have turns: "list_all (\<lambda>(i, t). turn_ok t) (hs_turns s)" "length (hs_turns s) \<le> 64" "distinct (map fst (hs_turns s))"
    by (simp_all add: hook_state_ok_def turns_ok_def MAX_PENDING_TURNS_def)
  have "list_all (\<lambda>(fid, turn). length (pt_response_documents turn) \<le> 4096
      \<and> (\<exists>ms. subseq ms (concat (map observed_message trace))
          \<and> list_all (\<lambda>m. flow_id (wm_flow m) = fid \<and> wm_direction m = ServerToClient) ms
          \<and> map (\<lambda>m. pl_from_slice libs (wm_payload m)) ms = map Some (pt_response_documents turn)
          \<and> sum_list (map (\<lambda>m. length (wm_payload m)) ms) \<le> 16 * 1024 * 1024)) (hs_turns s)"
    using turns(1) buffered
    by (fastforce simp: list_all_iff turns_buffer_def buffers_def turn_ok_def MAX_RESPONSE_DOCUMENTS_def
        MAX_RESPONSE_DOCUMENT_BYTES_def)
  with turns ok cached_bounds [of s] run show ?thesis
    unfolding run prod.case attachments_ok_def [abs_def] by blast
qed

text \<open>
  C15. After any history, everything the hook publishes for an exchange or a message is attributed to a harness that the policy
  of the moment enables, and keeps to the content policy of exactly that harness.
\<close>

theorem published_by_policy:
  assumes "distinct (map fst (uc_harnesses (hk_usage policy)))"
  shows "case hook_call libs device policy clock sink event (snd (hook_run libs device sink trace initial_hook_state)) of
      (res, published, s') \<Rightarrow>
        list_all (\<lambda>a. enabled_for_harness (hk_usage policy) (ac_name (ae_agent a))
          \<and> event_respects (content_for_harness (hk_usage policy) (ac_name (ae_agent a))) a) published"
proof -
  obtain res published s' where
    call: "hook_call libs device policy clock sink event (snd (hook_run libs device sink trace initial_hook_state)) = (res, published, s')"
    by (metis prod_cases3)
  have "enabled_for_harness (hk_usage policy) (ac_name (ae_agent a))
      \<and> event_respects (content_for_harness (hk_usage policy) (ac_name (ae_agent a))) a" if a: "a \<in> set published" for a
  proof -
    from call reached_ok a obtain d where "detected_harness libs policy event = Some d" "ac_name (ae_agent a) = hd_harness_id d"
      "event_respects (content_for_harness (hk_usage policy) (hd_harness_id d)) a" by (rule hook_call_published)
    with detected_enabled [OF assms] show ?thesis by simp
  qed
  with call show ?thesis by (simp add: list_all_iff)
qed

text \<open>
  C21. After any history, an exchange is published or the sink refused: as long as the timestamps the hook writes can be read
  back, no event fails its conversion, so the counters the parsers find are never negative and every image has a known type.
\<close>

theorem only_sink_fails:
  assumes "\<And>t. nl_parse_rfc3339 (pl_normalizer libs) (nl_rfc3339_micros (pl_normalizer libs) t) \<noteq> None"
  shows "case fst (hook_call libs device policy clock sink event (snd (hook_run libs device sink trace initial_hook_state))) of
    Err (ConversionFailure e) \<Rightarrow> False | _ \<Rightarrow> True"
proof -
  obtain res published s' where
    call: "hook_call libs device policy clock sink event (snd (hook_run libs device sink trace initial_hook_state)) = (res, published, s')"
    by (metis prod_cases3)
  from call reached_ok obtain es where es: "deliver_normalized (pl_normalizer libs) sink es = (res, published)"
    "es = [] \<or> (\<exists>d. detected_harness libs policy event = Some d \<and> call_events libs device policy clock d es)" by (rule hook_call_ok)
  have "\<forall>e \<in> set es. \<exists>a. agent_event_try_from (pl_normalizer libs) e = Ok a"
  proof
    fix e
    assume e: "e \<in> set es"
    with es(2) obtain d where d: "call_events libs device policy clock d es" by auto
    from d e obtain parts side t where "e = usage_event (pl_normalizer libs) device parts side t" by (rule call_event_cases)
    with assms call_event_converts [OF d e] show "\<exists>a. agent_event_try_from (pl_normalizer libs) e = Ok a"
      by (simp add: usage_event_def)
  qed
  from deliver_converted [OF this, of sink] es(1) call show ?thesis by simp
qed

section \<open>An exchange\<close>

definition demo_json_body :: "json \<Rightarrow> json captured_body" where
  "demo_json_body v =
     \<lparr>raw_bytes = [], raw_truncated = False, decode_limit = 100, cb_status = DecodingComplete, cb_bytes = [], cb_truncated = False,
      cb_json = Some v\<rparr>"

definition demo_header :: "bytes \<Rightarrow> bytes \<Rightarrow> bytes \<times> header_value" where
  "demo_header n v = (n, \<lparr>hv_bytes = v, hv_str = Some v\<rparr>)"

definition demo_exchange :: "json http_exchange" where
  "demo_exchange =
     \<lparr>ex_flow = \<lparr>flow_id = 1, peer_addr = None, local_addr = None, original_destination = Unknown, destination_host = None,
        protocol = PlainHttp, source_process = None, ingress = Transparent Unattributed\<rparr>,
      ex_request =
        \<lparr>req_method = ''POST'',
         req_uri = \<lparr>uri_scheme = None, uri_authority = None, uri_path_and_query = Some ''/v1/responses'',
           uri_text = ''/v1/responses''\<rparr>,
         req_version = HTTP_11,
         req_headers = [demo_header ''host'' ''api.openai.com'', demo_header ''user-agent'' ''codex/1'', demo_header ''authorization'' ''secret'']\<rparr>,
      ex_request_body = demo_json_body (JsonObject [(''input'', JsonString ''hi'')]),
      ex_response = \<lparr>res_status = 200, res_version = HTTP_11, res_headers = []\<rparr>,
      ex_response_body = demo_json_body (JsonObject
        [(''output'', JsonArray [JsonObject [(''type'', JsonString ''message''), (''content'', JsonString ''hello'')]]),
         (''usage'', JsonObject [(''input_tokens'', JsonNumber (JsonInt 3)), (''output_tokens'', JsonNumber (JsonInt 2))])])\<rparr>"

definition demo_policy :: hooks_config where
  "demo_policy = \<lparr>hk_enabled = True, hk_usage = \<lparr>uc_content = default_content_config,
     uc_harnesses = [(''codex'', \<lparr>hc_enabled = Some True, hc_content = Some (default_content_config\<lparr>cc_conversation_text := False\<rparr>),
       hc_matchers = []\<rparr>)]\<rparr>\<rparr>"

definition demo_clock :: hook_clock where
  "demo_clock = \<lparr>ck_upload = 0, ck_attach = 0, ck_first = 0, ck_second = 0\<rparr>"

definition demo_device :: device_identity where
  "demo_device = \<lparr>di_hostname = None, di_platform = None, di_os_version = None\<rparr>"

lemma demo_call:
  "map (\<lambda>a. (ac_name (ae_agent a), ae_conversation a))
     (fst (snd (hook_call demo_protocol_libs demo_device demo_policy demo_clock (\<lambda>a. Ok ()) (HttpExchangeEvent demo_exchange)
       initial_hook_state)))
   = [(''codex'', Some (empty_conversation\<lparr>cv_entries := [text_entry RoleUser []]\<rparr>)),
      (''codex'', Some (empty_conversation\<lparr>cv_entries := [text_entry RoleAssistant []]\<rparr>))]"
  by code_simp

theorem published_by_policy_witness:
  "case hook_call demo_protocol_libs demo_device demo_policy demo_clock (\<lambda>a. Ok ()) (HttpExchangeEvent demo_exchange)
      initial_hook_state of
     (res, published, s') \<Rightarrow>
       length published = 2
       \<and> list_all (\<lambda>a. enabled_for_harness (hk_usage demo_policy) (ac_name (ae_agent a))
         \<and> event_respects (content_for_harness (hk_usage demo_policy) (ac_name (ae_agent a))) a) published"
proof -
  have "distinct (map fst (uc_harnesses (hk_usage demo_policy)))" by (simp add: demo_policy_def)
  from published_by_policy [OF this, of demo_protocol_libs demo_device demo_clock "\<lambda>a. Ok ()" "HttpExchangeEvent demo_exchange" "[]"]
    arg_cong [OF demo_call, of length]
  show ?thesis by (simp split: prod.splits del: hook_call.simps)
qed

theorem only_sink_fails_witness:
  "case fst (hook_call demo_protocol_libs demo_device demo_policy demo_clock (\<lambda>a. Err ''closed'') (HttpExchangeEvent demo_exchange)
      initial_hook_state) of
    Err (ConversionFailure e) \<Rightarrow> False | _ \<Rightarrow> True"
  using only_sink_fails [of demo_protocol_libs demo_device demo_policy demo_clock "\<lambda>a. Err ''closed''" "HttpExchangeEvent demo_exchange" "[]"]
  by (simp add: demo_protocol_libs_def demo_normalizer_libs_def del: hook_call.simps)

end
