(* ===== verification/Stream_Props.thy ===== *)
theory Stream_Props
  imports Openai_Responses Anthropic_Protocol
begin

text \<open>
  Streaming does not change what is observed: a response sent in fragments has the entries of the same response sent as one
  document, in chat completions and in Anthropic's protocol, and the event stream itself carries its documents unchanged.
\<close>

section \<open>Ordered maps\<close>

lemma btree_insert_again: "\<forall>(l, w) \<in> set m. l < k \<Longrightarrow> btree_insert k v (m @ [(k, w)]) = m @ [(k, v)]"
  by (induction m) auto

lemma map_of_last: "\<forall>(l, w) \<in> set m. l < (k :: nat) \<Longrightarrow> map_of (m @ [(k, w)]) k = Some w"
  by (induction m) auto

section \<open>Chat completions\<close>

text \<open>A chunk of a streamed choice with a fragment of the reasoning and one of the answer, and the choice as one message.\<close>

definition chat_chunk :: "u64 \<Rightarrow> bytes \<times> bytes \<Rightarrow> json" where
  "chat_chunk i f =
     JsonObject [(''choices'', JsonArray [JsonObject
       [(''index'', JsonNumber (JsonInt (uint i))),
        (''delta'', JsonObject [(''reasoning_content'', JsonString (fst f)), (''content'', JsonString (snd f))])]])]"

definition chat_message :: "u64 \<Rightarrow> bytes \<Rightarrow> bytes \<Rightarrow> json" where
  "chat_message i reasoning content =
     JsonObject [(''choices'', JsonArray [JsonObject
       [(''index'', JsonNumber (JsonInt (uint i))),
        (''message'', JsonObject [(''role'', JsonString ''assistant''), (''reasoning_content'', JsonString reasoning),
          (''content'', JsonString content)])]])]"

definition stream_choice :: "bytes \<Rightarrow> bytes \<Rightarrow> chat_choice" where
  "stream_choice r c =
     \<lparr>co_reasoning = r, co_content = (if c = [] then [] else [(0, PartText c)]), co_refusal = [], co_tools = []\<rparr>"

lemma empty_stream_choice: "empty_choice = stream_choice [] []"
  by (simp add: stream_choice_def empty_choice_def)

lemmas json_simps = json_str_def json_array_def json_items_def json_u64_or_0_def or_empty_def

lemma delta_step:
  "choice_step libs (JsonObject [(''index'', n), (''delta'', JsonObject
     [(''reasoning_content'', JsonString r'), (''content'', JsonString c')])]) (stream_choice r c) = stream_choice (r @ r') (c @ c')"
  by (simp add: choice_step_def choice_apply_delta_def stream_choice_def push_fragment_def change_text_part_def btree_entry_def
      tools_apply_delta_def json_simps Let_def)

lemma message_step:
  "choice_step libs (JsonObject [(''index'', n), (''message'', JsonObject [(''role'', JsonString ''assistant''),
     (''reasoning_content'', JsonString r), (''content'', JsonString c)])]) empty_choice = stream_choice r c"
  by (simp add: choice_step_def choice_reconcile_def empty_choice_def stream_choice_def reconcile_def reconcile_content_def
      reconcile_part_def change_text_part_def btree_entry_def push_fragment_def tools_reconcile_def strip_prefix_def json_simps Let_def)

lemma chunk_index [simp]: "json_u64_or_0 (JsonObject ((''index'', JsonNumber (JsonInt (uint (i :: u64)))) # ms)) ''index'' = unat i"
proof -
  have "uint i < 2 ^ 64" using unsigned_less [of i] by simp
  then show ?thesis by (simp add: json_u64_or_0_def nat_uint_eq)
qed

lemma chunk_choices:
  "json_items (chat_chunk i f) ''choices'' = [JsonObject
     [(''index'', JsonNumber (JsonInt (uint i))),
      (''delta'', JsonObject [(''reasoning_content'', JsonString (fst f)), (''content'', JsonString (snd f))])]]"
  "json_items (chat_message i r c) ''choices'' = [JsonObject
     [(''index'', JsonNumber (JsonInt (uint i))),
      (''message'', JsonObject [(''role'', JsonString ''assistant''), (''reasoning_content'', JsonString r), (''content'', JsonString c)])]]"
  by (simp_all add: chat_chunk_def chat_message_def json_items_def json_array_def)

lemma chunks_fold:
  "fold (\<lambda>choice. btree_entry (json_u64_or_0 choice ''index'') empty_choice (choice_step libs choice))
     (concat (map (\<lambda>value. json_items value ''choices'') (map (chat_chunk i) fs))) [(unat i, stream_choice r c)]
   = [(unat i, stream_choice (r @ concat (map fst fs)) (c @ concat (map snd fs)))]"
  by (induction fs arbitrary: r c) (simp_all add: chunk_choices btree_entry_def delta_step)

section \<open>Blocks\<close>

text \<open>A block of text or of thinking, in fragments: the events of its stream, and the block as part of a document.\<close>

definition block_kind :: "bool \<Rightarrow> bytes" where
  "block_kind thinking = (if thinking then ''thinking'' else ''text'')"

definition block_start :: "nat \<Rightarrow> bool \<Rightarrow> json" where
  "block_start n thinking =
     JsonObject [(''type'', JsonString ''content_block_start''), (''index'', JsonNumber (JsonInt (int n))),
       (''content_block'', JsonObject [(''type'', JsonString (block_kind thinking)), (block_kind thinking, JsonString [])])]"

definition block_delta :: "nat \<Rightarrow> bool \<Rightarrow> bytes \<Rightarrow> json" where
  "block_delta n thinking fragment =
     JsonObject [(''type'', JsonString ''content_block_delta''), (''index'', JsonNumber (JsonInt (int n))),
       (''delta'', JsonObject [(''type'', JsonString (block_kind thinking @ ''_delta'')), (block_kind thinking, JsonString fragment)])]"

definition block_stop :: "nat \<Rightarrow> json" where
  "block_stop n = JsonObject [(''type'', JsonString ''content_block_stop''), (''index'', JsonNumber (JsonInt (int n)))]"

definition block_stream :: "nat \<times> bool \<times> bytes list \<Rightarrow> json list" where
  "block_stream b =
     (case b of (n, thinking, fragments) \<Rightarrow> block_start n thinking # map (block_delta n thinking) fragments @ [block_stop n])"

definition block_document :: "bool \<times> bytes list \<Rightarrow> json" where
  "block_document b =
     (case b of (thinking, fragments) \<Rightarrow>
        JsonObject [(''type'', JsonString (block_kind thinking)), (block_kind thinking, JsonString (concat fragments))])"

definition message_document :: "(bool \<times> bytes list) list \<Rightarrow> json" where
  "message_document bs = JsonObject [(''type'', JsonString ''message''), (''content'', JsonArray (map block_document bs))]"

definition block_of :: "bool \<Rightarrow> bytes \<Rightarrow> content_block" where
  "block_of thinking text = (if thinking then BlockReasoning text [] else BlockText text)"

lemma document_block: "block_from_value libs (block_document b) = block_of (fst b) (concat (snd b))"
  by (cases b) (simp add: block_document_def block_from_value_def block_of_def block_kind_def conversation_field_def json_simps)

lemma index_field [simp]:
  "n < 2 ^ 64 \<Longrightarrow> json_u64_or_0 (JsonObject [(''type'', t), (''index'', JsonNumber (JsonInt (int n))), kv]) ''index'' = n"
  by (simp add: json_u64_or_0_def)

definition blocks_state :: "(nat \<times> content_block) list \<Rightarrow> anthropic_assembly" where
  "blocks_state m = \<lparr>as_blocks = m, as_snapshot = None, as_id = None\<rparr>"

lemma start_step:
  "\<lbrakk>n < 2 ^ 64; \<forall>(l, w) \<in> set m. l < n\<rbrakk> \<Longrightarrow>
   assemble_value libs (block_start n thinking) (blocks_state m) = blocks_state (m @ [(n, block_of thinking [])])"
  by (simp add: assemble_value_def assemble_message_def assemble_snapshot_def assemble_event_def block_start_def blocks_state_def
      block_from_value_def block_of_def block_kind_def conversation_field_def json_simps btree_insert_last Let_def)

lemma delta_block_step:
  "\<lbrakk>n < 2 ^ 64; \<forall>(l, w) \<in> set m. l < n\<rbrakk> \<Longrightarrow>
   assemble_value libs (block_delta n thinking f) (blocks_state (m @ [(n, block_of thinking t)]))
   = blocks_state (m @ [(n, block_of thinking (t @ f))])"
  by (simp add: assemble_value_def assemble_message_def assemble_snapshot_def assemble_event_def block_delta_def blocks_state_def
      push_delta_def block_of_def block_kind_def json_simps btree_insert_again map_of_last Let_def
      del: map_of_append)

lemma stop_step: "assemble_value libs (block_stop n) s = s"
  by (simp add: assemble_value_def assemble_message_def assemble_snapshot_def assemble_event_def block_stop_def json_simps Let_def)

lemma deltas_fold:
  "\<lbrakk>n < 2 ^ 64; \<forall>(l, w) \<in> set m. l < n\<rbrakk> \<Longrightarrow>
   fold (assemble_value libs) (map (block_delta n thinking) fs) (blocks_state (m @ [(n, block_of thinking t)]))
   = blocks_state (m @ [(n, block_of thinking (t @ concat fs))])"
  by (induction fs arbitrary: t) (simp_all add: delta_block_step)

lemma block_stream_fold:
  "\<lbrakk>n < 2 ^ 64; \<forall>(l, w) \<in> set m. l < n\<rbrakk> \<Longrightarrow>
   fold (assemble_value libs) (block_stream (n, thinking, fs)) (blocks_state m) = blocks_state (m @ [(n, block_of thinking (concat fs))])"
  using deltas_fold [of n m libs thinking fs "[]"] by (simp add: block_stream_def start_step stop_step)

lemma stream_fold:
  "\<lbrakk>n + length bs \<le> 2 ^ 64; \<forall>(l, w) \<in> set m. l < n\<rbrakk> \<Longrightarrow>
   fold (assemble_value libs) (concat (map block_stream (enumerate n bs))) (blocks_state m)
   = blocks_state (m @ map (\<lambda>(k, thinking, fs). (k, block_of thinking (concat fs))) (enumerate n bs))"
proof (induction bs arbitrary: n m)
  case (Cons b bs)
  obtain thinking fs where b: "b = (thinking, fs)" by (cases b)
  let ?m = "m @ [(n, block_of thinking (concat fs))]"
  from Cons.prems have "fold (assemble_value libs) (concat (map block_stream (enumerate (Suc n) bs))) (blocks_state ?m)
      = blocks_state (?m @ map (\<lambda>(k, thinking, fs). (k, block_of thinking (concat fs))) (enumerate (Suc n) bs))"
    by (intro Cons.IH) auto
  with Cons.prems b show ?case by (simp add: block_stream_fold)
qed simp

section \<open>Event streams\<close>

text \<open>Values whose text can be one line of an event stream.\<close>

definition streamable :: "protocol_libs \<Rightarrow> json \<Rightarrow> bool" where
  "streamable libs v \<longleftrightarrow>
     pl_from_slice libs (pl_to_string libs v) = Some v
     \<and> list_all (\<lambda>c. c \<noteq> CHR 0x0A \<and> c \<noteq> CHR 0x0D) (pl_to_string libs v)
     \<and> trim_ascii_whitespace (pl_to_string libs v) \<noteq> ''[DONE]''"

definition sse_event :: "bytes \<Rightarrow> bytes" where
  "sse_event t = ''data: '' @ t @ [CHR 0x0A, CHR 0x0A]"

definition sse_encode :: "protocol_libs \<Rightarrow> json list \<Rightarrow> bytes" where
  "sse_encode libs vs = concat (map (\<lambda>v. sse_event (pl_to_string libs v)) vs) @ sse_event ''[DONE]''"

lemma split_line: "d \<notin> set p \<Longrightarrow> str_split d (p @ d # s) = p # str_split d s"
  by (induction p) auto

lemma split_event: "CHR 0x0A \<notin> set t \<Longrightarrow> str_split CHR 0x0A (sse_event t @ s) = (''data: '' @ t) # [] # str_split CHR 0x0A s"
proof -
  assume "CHR 0x0A \<notin> set t"
  then have "CHR 0x0A \<notin> set (''data: '' @ t)" by simp
  from split_line [OF this, of "CHR 0x0A # s"] show ?thesis by (simp add: sse_event_def)
qed

lemma no_suffix: "c \<notin> set s \<Longrightarrow> strip_suffix [c] s = None"
  by (cases "strip_suffix [c] s") (auto simp: strip_suffix_iff)

lemma data_line:
  assumes "CHR 0x0D \<notin> set t"
  shows "sse_lines libs ((''data: '' @ t) # rest) data docs = sse_lines libs rest (data @ [t]) docs"
proof -
  have "CHR 0x0D \<notin> set (''data: '' @ t)" using assms by simp
  then have none: "strip_suffix [CHR 0x0D] (''data: '' @ t) = None" by (rule no_suffix)
  show ?thesis unfolding sse_lines.simps none by (simp add: strip_prefix_def)
qed

lemma empty_line: "sse_lines libs ([] # rest) data docs = sse_lines libs rest [] (finish_event libs data docs)"
  by (simp add: strip_suffix_def)

lemma event_lines:
  assumes "streamable libs v"
  shows "sse_lines libs ((''data: '' @ pl_to_string libs v) # [] # rest) [] docs
    = sse_lines libs rest [] (docs\<lparr>sse_values := sse_values docs @ [v]\<rparr>)"
proof -
  from assms have "CHR 0x0D \<notin> set (pl_to_string libs v)" by (auto simp: streamable_def list_all_iff)
  from data_line [OF this, of libs "[] # rest" "[]" docs] have
    "sse_lines libs ((''data: '' @ pl_to_string libs v) # [] # rest) [] docs
     = sse_lines libs rest [] (finish_event libs [pl_to_string libs v] docs)" unfolding empty_line append_Nil .
  also have "finish_event libs [pl_to_string libs v] docs = docs\<lparr>sse_values := sse_values docs @ [v]\<rparr>"
    using assms by (simp add: finish_event_def streamable_def)
  finally show ?thesis .
qed

lemma sse_fold:
  "list_all (streamable libs) vs \<Longrightarrow>
   sse_lines libs (str_split CHR 0x0A (concat (map (\<lambda>v. sse_event (pl_to_string libs v)) vs) @ s) @ later) [] docs
   = sse_lines libs (str_split CHR 0x0A s @ later) [] (docs\<lparr>sse_values := sse_values docs @ vs\<rparr>)"
proof (induction vs arbitrary: docs)
  case (Cons v vs)
  then have "CHR 0x0A \<notin> set (pl_to_string libs v)" by (auto simp: streamable_def list_all_iff)
  from split_event [OF this] Cons event_lines [of libs v] show ?case by (simp del: sse_lines.simps)
qed simp

section \<open>Properties\<close>

text \<open>
  C18. A streamed chat completion is observed like the same completion sent at once: however the reasoning and the answer of
  a choice are cut into fragments, the entries are those of one message with the joined texts.
\<close>

theorem chat_stream_equals_message:
  "or_entries (chat_response libs (map (chat_chunk i) fs) incomplete)
   = or_entries (chat_response libs [chat_message i (concat (map fst fs)) (concat (map snd fs))] incomplete')"
proof (cases fs)
  case Nil
  then show ?thesis
    by (simp add: chat_response_def chat_choices_def chunk_choices btree_entry_def message_step stream_choice_def choice_entries_def
        parts_entries_def)
next
  case (Cons f gs)
  have "chat_choices libs (map (chat_chunk i) fs) = [(unat i, stream_choice (concat (map fst fs)) (concat (map snd fs)))]"
    using chunks_fold [of libs i gs "fst f" "snd f"] Cons delta_step [of libs _ "fst f" "snd f" "[]" "[]"]
    by (simp add: chat_choices_def chunk_choices btree_entry_def empty_stream_choice)
  moreover have "chat_choices libs [chat_message i r c] = [(unat i, stream_choice r c)]" for r c
    by (simp add: chat_choices_def chunk_choices btree_entry_def message_step)
  ultimately show ?thesis by (simp add: chat_response_def)
qed

text \<open>
  C19. A streamed message of Anthropic's protocol is observed like the message sent at once: for any sequence of blocks of
  text and of thinking, however each is cut into deltas, the entries are those of the document with the joined blocks.
\<close>

theorem anthropic_stream_equals_document:
  assumes "length bs \<le> 2 ^ 64"
  shows "cv_entries (ar_conversation (anthropic_assemble libs (concat (map block_stream (enumerate 0 bs))) incomplete))
    = cv_entries (ar_conversation (anthropic_assemble libs [message_document bs] incomplete'))"
proof -
  let ?s = "fold (assemble_value libs) (concat (map block_stream (enumerate 0 bs))) (blocks_state [])"
  have "map snd (map (\<lambda>(k, thinking, fs). (k, block_of thinking (concat fs))) (enumerate n bs))
      = map (\<lambda>b. block_of (fst b) (concat (snd b))) bs" for n
    by (induction bs arbitrary: n) auto
  then have stream: "as_snapshot ?s = None" "map snd (as_blocks ?s) = map (\<lambda>b. block_of (fst b) (concat (snd b))) bs"
    using stream_fold [of 0 bs "[]" libs] assms by (simp_all add: blocks_state_def)
  have "as_snapshot (assemble_value libs (message_document bs) (blocks_state []))
      = Some (map (\<lambda>b. block_of (fst b) (concat (snd b))) bs)"
    by (simp add: assemble_value_def assemble_message_def assemble_snapshot_def assemble_event_def message_document_def blocks_state_def
        document_block json_simps Let_def)
  with stream show ?thesis by (simp add: anthropic_assemble_def blocks_state_def Let_def)
qed

theorem anthropic_stream_equals_document_witness:
  "cv_entries (ar_conversation (anthropic_assemble demo_protocol_libs
     (concat (map block_stream (enumerate 0 [(True, [''a'', ''b'']), (False, [''he'', ''llo''])]))) False))
   = [text_entry RoleReasoning ''ab'', text_entry RoleAssistant ''hello'']"
proof -
  have "length [(True, [''a'', ''b'']), (False, [''he'', ''llo''])] \<le> 2 ^ 64" by simp
  from anthropic_stream_equals_document [OF this, of demo_protocol_libs False False] show ?thesis
    by (simp add: anthropic_assemble_def assemble_value_def assemble_message_def assemble_snapshot_def assemble_event_def
        message_document_def document_block json_simps Let_def block_of_def block_entries_def map_filter_def thinking_identity_def text_entry_def)
qed

text \<open>
  C22. An event stream carries its documents: the values sent one to an event, each on a line of its own, and the closing
  event are decoded to exactly these values, in order, and the stream counts as complete.
\<close>

theorem sse_round_trip:
  assumes "list_all (streamable libs) vs"
  shows "sse_decode libs (sse_encode libs vs) = \<lparr>sse_values = vs, sse_incomplete = False\<rparr>"
proof -
  have closing: "str_split CHR 0x0A (sse_event ''[DONE]'') @ [[]] = (''data: '' @ ''[DONE]'') # [] # [[], []]"
    using split_event [of "''[DONE]''" "[]"] by simp
  have "CHR 0x0D \<notin> set ''[DONE]''" by simp
  note line = data_line [OF this, unfolded append_Nil]
  have trim: "trim_ascii_whitespace ''[DONE]'' = ''[DONE]''" by code_simp
  have finish: "finish_event libs [''[DONE]''] docs = docs" "finish_event libs [] docs = docs" for docs
    unfolding finish_event_def Let_def str_join.simps trim by simp_all
  show ?thesis
    unfolding sse_decode_def sse_encode_def sse_fold [OF assms] closing line empty_line append_Nil finish sse_lines.simps(1)
    by simp
qed

theorem sse_round_trip_witness:
  "sse_decode demo_protocol_libs (sse_encode demo_protocol_libs [JsonString ''1'', JsonString ''2''])
   = \<lparr>sse_values = [JsonString ''1'', JsonString ''2''], sse_incomplete = False\<rparr>"
proof -
  have "list_all (streamable demo_protocol_libs) [JsonString ''1'', JsonString ''2'']" by code_simp
  then show ?thesis by (rule sse_round_trip)
qed

end
