(* ===== verification/Plugin_Session.thy ===== *)
theory Plugin_Session
  imports Framing
begin

text \<open>
  The plugin endpoint of the broker: length-prefixed JSON frames
  (\<^verbatim>\<open>crates/abyss-broker/src/plugin/codec.rs\<close>), the wire messages
  (\<^verbatim>\<open>crates/abyss-plugin-protocol/src/message.rs\<close>) and one plugin's session with handshake, event
  stream and close (\<^verbatim>\<open>plugin/session.rs\<close>). \<^verbatim>\<open>serde_json\<close> is a parameter, and what the
  \<^verbatim>\<open>tokio::select!\<close> loops wake up for is a schedule: every theorem holds for all of them. A loop whose
  schedule has run out is still waiting (\<^const>\<open>None\<close>).
\<close>

section \<open>Frames\<close>

datatype plugin_frame_error =
    PluginPayloadTooLarge u32 u32
  | PluginUnexpectedEof string
  | PluginIo string io_kind
  | PluginJson

definition PLUGIN_FRAME_HEADER_BYTES :: nat where
  "PLUGIN_FRAME_HEADER_BYTES = 4"

definition MAX_JSON_FRAME_BYTES :: u32 where
  "MAX_JSON_FRAME_BYTES = 64 * 1024 * 1024"

definition validate_payload_length :: "u32 \<Rightarrow> (plugin_frame_error, unit) result" where
  "validate_payload_length len =
     (if MAX_JSON_FRAME_BYTES < len then Err (PluginPayloadTooLarge len MAX_JSON_FRAME_BYTES) else Ok ())"

definition payload_length :: "bytes \<Rightarrow> (plugin_frame_error, nat) result" where
  "payload_length header =
     (let len = from_be_bytes header in map_sum id (\<lambda>_. unat len) (validate_payload_length len))"

definition map_read_error :: "string \<Rightarrow> io_kind \<Rightarrow> plugin_frame_error" where
  "map_read_error part k =
     (if k = UnexpectedEof then PluginUnexpectedEof part else PluginIo ''read plugin frame'' k)"

definition read_plugin_header ::
  "(nat \<Rightarrow> 's \<Rightarrow> (io_kind, bytes) result \<times> 's) \<Rightarrow> 's
   \<Rightarrow> (plugin_frame_error, bytes option) result \<times> 's" where
  "read_plugin_header rd s =
     (case read_frame_header rd PLUGIN_FRAME_HEADER_BYTES s of
        (Err (at_start, k), s') \<Rightarrow>
          (Err (if at_start then PluginIo ''read plugin frame header'' k else map_read_error ''header'' k), s')
      | (Ok h, s') \<Rightarrow> (Ok h, s'))"

definition read_payload ::
  "(nat \<Rightarrow> 's \<Rightarrow> (io_kind, bytes) result \<times> 's) \<Rightarrow> 's
   \<Rightarrow> (plugin_frame_error, bytes option) result \<times> 's" where
  "read_payload rd s =
     (case read_plugin_header rd s of
        (Err e, s') \<Rightarrow> (Err e, s')
      | (Ok None, s') \<Rightarrow> (Ok None, s')
      | (Ok (Some header), s') \<Rightarrow>
          (case payload_length header of
             Err e \<Rightarrow> (Err e, s')
           | Ok len \<Rightarrow>
               (case read_exact rd len s' of
                  (Err k, s'') \<Rightarrow> (Err (map_read_error ''payload'' k), s'')
                | (Ok payload, s'') \<Rightarrow> (Ok (Some payload), s''))))"

text \<open>\<open>to_vec\<close> is \<^verbatim>\<open>serde_json::to_vec\<close>.\<close>

definition write_json ::
  "('v \<Rightarrow> bytes option) \<Rightarrow> 'v \<Rightarrow> writer \<Rightarrow> (plugin_frame_error, unit) result \<times> writer" where
  "write_json to_vec value w =
     (case to_vec value of
        None \<Rightarrow> (Err PluginJson, w)
      | Some payload \<Rightarrow>
          (case u32_try_from (length payload) of
             None \<Rightarrow> (Err (PluginPayloadTooLarge (- 1) MAX_JSON_FRAME_BYTES), w)
           | Some len \<Rightarrow>
               (case validate_payload_length len of
                  Err e \<Rightarrow> (Err e, w)
                | Ok _ \<Rightarrow>
                    (case write_all (to_be_bytes len) w of
                       (Err k, w') \<Rightarrow> (Err (PluginIo ''write plugin frame header'' k), w')
                     | (Ok _, w') \<Rightarrow>
                         (case write_all payload w' of
                            (Err k, w'') \<Rightarrow> (Err (PluginIo ''write plugin frame payload'' k), w'')
                          | (Ok _, w'') \<Rightarrow> (Ok (), w''))))))"

section \<open>Messages\<close>

datatype plugin_protocol_version = PluginV1

fun plugin_version_wire_value :: "plugin_protocol_version \<Rightarrow> 16 word" where
  "plugin_version_wire_value PluginV1 = 1"

definition plugin_version_try_from :: "16 word \<Rightarrow> (16 word, plugin_protocol_version) result" where
  "plugin_version_try_from v = (if v = 1 then Ok PluginV1 else Err v)"

datatype broker_error_code = UnsupportedProtocolVersion | InvalidHandshake | ResourceLimit

fun broker_error_wire_value :: "broker_error_code \<Rightarrow> u32" where
  "broker_error_wire_value UnsupportedProtocolVersion = 1"
| "broker_error_wire_value InvalidHandshake = 2"
| "broker_error_wire_value ResourceLimit = 3"

datatype broker_close_code = BrokerShutdown | EventStreamTooSlow

fun broker_close_wire_value :: "broker_close_code \<Rightarrow> u32" where
  "broker_close_wire_value BrokerShutdown = 100"
| "broker_close_wire_value EventStreamTooSlow = 101"

text \<open>The four message types the broker serialises to a plugin; \<open>'ev\<close> is \<^verbatim>\<open>AgentEvent\<close>.\<close>

datatype 'ev broker_message =
    BrokerHello plugin_protocol_version
  | BrokerError u32 string
  | BrokerClose u32 string
  | BrokerEvent 'ev

definition broker_error_new :: "broker_error_code \<Rightarrow> string \<Rightarrow> 'ev broker_message" where
  "broker_error_new err reason = BrokerError (broker_error_wire_value err) reason"

definition broker_close_new :: "broker_close_code \<Rightarrow> string \<Rightarrow> 'ev broker_message" where
  "broker_close_new cls reason = BrokerClose (broker_close_wire_value cls) reason"

record raw_plugin_hello =
  hello_protocol_version :: "16 word"
  hello_plugin_id :: string

section \<open>The session\<close>

text \<open>
  What wakes a \<^verbatim>\<open>select!\<close>: the shutdown watch (its sender gone, or its new value), or the other branch. The
  watch is polled first. In the handshake loop a change drops the pending read, which may have consumed
  some bytes.
\<close>

datatype handshake_turn =
    HandshakeShutdown (sender_gone: bool) (watch_value: bool) (consumed: nat)
  | HandshakeRead (timed_out: bool)

datatype 'ev recv_outcome = Received 'ev | RecvLagged nat | RecvClosed

datatype 'ev stream_turn =
    StreamShutdown bool bool
  | StreamReceived "'ev recv_outcome"

datatype stream_action = StreamContinue | StreamClose

text \<open>\<^verbatim>\<open>serde_json\<close>, with the text of a deserialisation error.\<close>

record 'ev plugin_json =
  message_to_vec :: "'ev broker_message \<Rightarrow> bytes option"
  hello_from_slice :: "bytes \<Rightarrow> (string, raw_plugin_hello) result"

definition valid_plugin_id :: "string \<Rightarrow> bool" where
  "valid_plugin_id plugin_id \<longleftrightarrow>
     1 \<le> length plugin_id \<and> length plugin_id \<le> 128
   \<and> list_all (\<lambda>b. is_ascii_alphanumeric b \<or> b = CHR ''.'' \<or> b = CHR ''_'' \<or> b = CHR ''-'') plugin_id"

definition session_write ::
  "'ev plugin_json \<Rightarrow> 'ev broker_message \<Rightarrow> duplex \<Rightarrow> (plugin_frame_error, unit) result \<times> duplex" where
  "session_write json m s =
     (case write_json (message_to_vec json) m (wr_side s) of (res, w) \<Rightarrow> (res, s\<lparr>wr_side := w\<rparr>))"

definition session_reject ::
  "'ev plugin_json \<Rightarrow> broker_error_code \<Rightarrow> string \<Rightarrow> duplex \<Rightarrow> (plugin_frame_error, unit) result \<times> duplex" where
  "session_reject json err reason s = session_write json (broker_error_new err reason) s"

definition session_close ::
  "'ev plugin_json \<Rightarrow> broker_close_code \<Rightarrow> string \<Rightarrow> duplex \<Rightarrow> (plugin_frame_error, unit) result \<times> duplex" where
  "session_close json cls reason s = session_write json (broker_close_new cls reason) s"

text \<open>
  A pending read that is dropped after it has taken \<open>n\<close> bytes. It was still pending, so those reads have
  succeeded; where the script cannot deliver \<open>n\<close> bytes there is no such moment.
\<close>

definition dropped_read :: "nat \<Rightarrow> reader \<Rightarrow> reader" where
  "dropped_read n r = (case read_exact stream_read n r of (Ok _, r') \<Rightarrow> r' | (Err _, _) \<Rightarrow> r)"

fun read_handshake_payload ::
  "handshake_turn list \<Rightarrow> reader \<Rightarrow> (plugin_frame_error, bytes option) result option \<times> reader" where
  "read_handshake_payload [] r = (None, r)"
| "read_handshake_payload (HandshakeShutdown gone value n # turns) r =
     (if gone \<or> value then (Some (Ok None), r)
      else read_handshake_payload turns (dropped_read n r))"
| "read_handshake_payload (HandshakeRead elapsed # turns) r =
     (if elapsed then (Some (Ok None), r)
      else case read_payload stream_read r of (res, r') \<Rightarrow> (Some res, r'))"

definition too_large_display :: "u32 \<Rightarrow> u32 \<Rightarrow> string" where
  "too_large_display len maximum =
     ''plugin frame payload length '' @ show_nat (unat len) @ '' exceeds maximum '' @ show_nat (unat maximum)"

text \<open>A rejected plugin is told why, and the handshake ends without a session.\<close>

definition reject_handshake ::
  "'ev plugin_json \<Rightarrow> broker_error_code \<Rightarrow> string \<Rightarrow> duplex
   \<Rightarrow> (plugin_frame_error, string option) result option \<times> duplex" where
  "reject_handshake json err reason s =
     (case session_reject json err reason s of
        (Err e, s') \<Rightarrow> (Some (Err e), s')
      | (Ok _, s') \<Rightarrow> (Some (Ok None), s'))"

definition accept_hello ::
  "'ev plugin_json \<Rightarrow> bytes \<Rightarrow> duplex
   \<Rightarrow> (plugin_frame_error, string option) result option \<times> duplex" where
  "accept_hello json payload s =
     (case hello_from_slice json payload of
        Err text \<Rightarrow> reject_handshake json InvalidHandshake (''invalid PluginHello: '' @ text) s
      | Ok hello \<Rightarrow>
          (case plugin_version_try_from (hello_protocol_version hello) of
             Err v \<Rightarrow>
               reject_handshake json UnsupportedProtocolVersion
                 (''unsupported protocol version '' @ show_nat (unat (hello_protocol_version hello))) s
           | Ok version \<Rightarrow>
               if \<not> valid_plugin_id (hello_plugin_id hello)
               then reject_handshake json InvalidHandshake
                 (''plugin_id must contain 1 to 128 ASCII letters, digits, '.', '_', or '-'' @ [CHR 0x27]) s
               else
                 (case session_write json (BrokerHello version) s of
                    (Err e, s') \<Rightarrow> (Some (Err e), s')
                  | (Ok _, s') \<Rightarrow> (Some (Ok (Some (hello_plugin_id hello))), s'))))"

definition plugin_handshake ::
  "'ev plugin_json \<Rightarrow> handshake_turn list \<Rightarrow> duplex
   \<Rightarrow> (plugin_frame_error, string option) result option \<times> duplex" where
  "plugin_handshake json turns s =
     (case read_handshake_payload turns (rd_side s) of
        (None, r) \<Rightarrow> (None, s\<lparr>rd_side := r\<rparr>)
      | (Some (Ok (Some payload)), r) \<Rightarrow> accept_hello json payload (s\<lparr>rd_side := r\<rparr>)
      | (Some (Ok None), r) \<Rightarrow> (Some (Ok None), s\<lparr>rd_side := r\<rparr>)
      | (Some (Err (PluginPayloadTooLarge len maximum)), r) \<Rightarrow>
          reject_handshake json InvalidHandshake (too_large_display len maximum) (s\<lparr>rd_side := r\<rparr>)
      | (Some (Err e), r) \<Rightarrow> (Some (Err e), s\<lparr>rd_side := r\<rparr>))"

definition handle_event ::
  "'ev plugin_json \<Rightarrow> 'ev recv_outcome \<Rightarrow> duplex \<Rightarrow> (plugin_frame_error, stream_action) result \<times> duplex" where
  "handle_event json received s =
     (case received of
        Received event \<Rightarrow> (case session_write json (BrokerEvent event) s of (res, s') \<Rightarrow> (map_sum id (\<lambda>_. StreamContinue) res, s'))
      | RecvLagged skipped \<Rightarrow>
          (case session_close json EventStreamTooSlow ''plugin event stream is too slow'' s of
             (res, s') \<Rightarrow> (map_sum id (\<lambda>_. StreamClose) res, s'))
      | RecvClosed \<Rightarrow>
          (case session_close json BrokerShutdown ''broker event stream closed'' s of
             (res, s') \<Rightarrow> (map_sum id (\<lambda>_. StreamClose) res, s')))"

fun stream_events ::
  "'ev plugin_json \<Rightarrow> 'ev stream_turn list \<Rightarrow> duplex \<Rightarrow> (plugin_frame_error, unit) result option \<times> duplex" where
  "stream_events json [] s = (None, s)"
| "stream_events json (StreamShutdown gone value # turns) s =
     (if gone \<or> value
      then (case session_close json BrokerShutdown ''broker is shutting down'' s of (res, s') \<Rightarrow> (Some res, s'))
      else stream_events json turns s)"
| "stream_events json (StreamReceived received # turns) s =
     (case handle_event json received s of
        (Err e, s') \<Rightarrow> (Some (Err e), s')
      | (Ok StreamClose, s') \<Rightarrow> (Some (Ok ()), s')
      | (Ok StreamContinue, s') \<Rightarrow> stream_events json turns s')"

definition plugin_session_run ::
  "'ev plugin_json \<Rightarrow> handshake_turn list \<Rightarrow> 'ev stream_turn list \<Rightarrow> duplex
   \<Rightarrow> (plugin_frame_error, unit) result option \<times> duplex" where
  "plugin_session_run json hs_turns turns s =
     (case plugin_handshake json hs_turns s of
        (None, s') \<Rightarrow> (None, s')
      | (Some (Err e), s') \<Rightarrow> (Some (Err e), s')
      | (Some (Ok None), s') \<Rightarrow> (Some (Ok ()), s')
      | (Some (Ok (Some plugin_id)), s') \<Rightarrow> stream_events json turns s')"

section \<open>The codec round trip\<close>

text \<open>The bytes a value is framed in; nothing when it cannot be framed.\<close>

definition plugin_frame :: "('v \<Rightarrow> bytes option) \<Rightarrow> 'v \<Rightarrow> bytes" where
  "plugin_frame to_vec value =
     (case to_vec value of
        None \<Rightarrow> []
      | Some payload \<Rightarrow>
          if length payload \<le> unat MAX_JSON_FRAME_BYTES then to_be_bytes (of_nat (length payload)) @ payload else [])"

lemma validate_payload_length_Ok: "validate_payload_length len = Ok () \<longleftrightarrow> unat len \<le> unat MAX_JSON_FRAME_BYTES"
  by (auto simp: validate_payload_length_def word_less_nat_alt)

lemma write_json_Ok:
  assumes "write_json to_vec v w = (Ok (), w')"
  shows "\<exists>payload. to_vec v = Some payload \<and> length payload \<le> unat MAX_JSON_FRAME_BYTES
    \<and> plugin_frame to_vec v = to_be_bytes (of_nat (length payload)) @ payload
    \<and> written w' = written w @ plugin_frame to_vec v"
proof -
  from assms obtain payload len w1 where v: "to_vec v = Some payload" and len: "u32_try_from (length payload) = Some len"
    and val: "validate_payload_length len = Ok ()"
    and w: "write_all (to_be_bytes len) w = (Ok (), w1)" "write_all payload w1 = (Ok (), w')"
    by (auto simp: write_json_def split: option.splits sum.splits prod.splits)
  have u: "unat len = length payload" "of_nat (length payload) = len"
    using len by (simp_all add: u32_try_from_of_nat) (simp add: u32_try_from_Some)
  with val have "length payload \<le> unat MAX_JSON_FRAME_BYTES" by (simp add: validate_payload_length_Ok)
  with v u write_all_ok [OF w(1)] write_all_ok [OF w(2)] show ?thesis by (simp add: plugin_frame_def)
qed

lemma write_json_Err:
  assumes "write_json to_vec v w = (Err e, w')"
  shows "\<exists>n. written w' = written w @ take n (plugin_frame to_vec v)"
proof -
  consider "w' = w"
    | payload len where "to_vec v = Some payload" "u32_try_from (length payload) = Some len"
      "validate_payload_length len = Ok ()"
      "\<exists>k. write_all (to_be_bytes len) w = (Err k, w')
         \<or> (\<exists>w1. write_all (to_be_bytes len) w = (Ok (), w1) \<and> write_all payload w1 = (Err k, w'))"
    using assms by (auto simp: write_json_def split: option.splits sum.splits prod.splits)
  then show ?thesis
  proof cases
    case 1
    then show ?thesis by (intro exI [of _ 0]) simp
  next
    case (2 payload len)
    have u: "unat len = length payload" "of_nat (length payload) = len"
      using 2(2) by (simp_all add: u32_try_from_of_nat) (simp add: u32_try_from_Some)
    with 2(1,3) have f: "plugin_frame to_vec v = to_be_bytes len @ payload"
      by (simp add: plugin_frame_def validate_payload_length_Ok)
    from 2(4) show ?thesis
    proof (elim exE disjE conjE)
      fix k assume "write_all (to_be_bytes len) w = (Err k, w')"
      from write_all_err [OF this] obtain n where "n \<le> 4" "written w' = written w @ take n (to_be_bytes len)" by auto
      then show ?thesis by (intro exI [of _ n]) (simp add: f)
    next
      fix k w1 assume w: "write_all (to_be_bytes len) w = (Ok (), w1)" "write_all payload w1 = (Err k, w')"
      from write_all_err [OF w(2)] obtain n where "written w' = written w1 @ take n payload" by auto
      with write_all_ok [OF w(1)] show ?thesis by (intro exI [of _ "4 + n"]) (simp add: f)
    qed
  qed
qed

context byte_source
begin

lemma read_payload_complete:
  assumes "invar s" and "content s = to_be_bytes (of_nat (length payload)) @ payload @ rest"
    and "length payload \<le> unat MAX_JSON_FRAME_BYTES"
  shows "\<exists>s'. read_payload rd s = (Ok (Some payload), s') \<and> content s' = rest \<and> invar s'"
proof -
  let ?len = "of_nat (length payload) :: u32"
  have "length payload < 2 ^ 32" using assms(3) u32_lt [of MAX_JSON_FRAME_BYTES] by simp
  then have u: "unat ?len = length payload" by (simp add: unat_of_nat)
  from read_frame_header_complete [OF assms(1), of 4] assms(2) obtain s1 where
    s1: "read_frame_header rd 4 s = (Ok (Some (to_be_bytes ?len)), s1)" "content s1 = payload @ rest" "invar s1"
    by auto
  from read_exact_complete [OF s1(3), of "length payload"] s1(2) obtain s2 where
    "read_exact rd (length payload) s1 = (Ok payload, s2)" "content s2 = rest" "invar s2" by auto
  moreover have "payload_length (to_be_bytes ?len) = Ok (length payload)"
    using u assms(3) by (cases "validate_payload_length ?len")
      (auto simp: payload_length_def Let_def validate_payload_length_def word_less_nat_alt split: if_splits)
  ultimately show ?thesis
    using s1(1) by (simp add: read_payload_def read_plugin_header_def PLUGIN_FRAME_HEADER_BYTES_def)
qed

lemma read_payload_sound:
  assumes "invar s" and "read_payload rd s = (Ok (Some payload), s')"
  shows "content s = to_be_bytes (of_nat (length payload)) @ payload @ content s' \<and> invar s'
    \<and> length payload \<le> unat MAX_JSON_FRAME_BYTES"
proof -
  from assms(2) obtain header s1 len where
    h: "read_frame_header rd 4 s = (Ok (Some header), s1)" "payload_length header = Ok len"
    and p: "read_exact rd len s1 = (Ok payload, s')"
    by (auto simp: read_payload_def read_plugin_header_def PLUGIN_FRAME_HEADER_BYTES_def
        split: prod.splits sum.splits option.splits if_splits)
  have a: "content s = header @ content s1" "length header = 4" "invar s1"
    using read_frame_header_sound [OF assms(1) h(1)] by simp_all
  have len: "len = unat (from_be_bytes header)" "len \<le> unat MAX_JSON_FRAME_BYTES"
    using h(2) by (auto simp: payload_length_def Let_def validate_payload_length_def word_le_nat_alt not_less split: if_splits)
  from read_exact_sound [OF a(3) p] a len to_from_be_bytes [OF a(2)] show ?thesis by simp
qed

end

section \<open>Transcripts\<close>

text \<open>
  What a step of a session has put on the wire: the frames of a list of messages, or some prefix of them when the
  step failed.
\<close>

definition frames_of :: "'ev plugin_json \<Rightarrow> 'ev broker_message list \<Rightarrow> bytes" where
  "frames_of json ms = concat (map (plugin_frame (message_to_vec json)) ms)"

definition transcript ::
  "'ev plugin_json \<Rightarrow> ('e, 'a) result option \<Rightarrow> duplex \<Rightarrow> duplex \<Rightarrow> 'ev broker_message list \<Rightarrow> bool" where
  "transcript json res s s' ms \<longleftrightarrow>
     (case res of
        Some (Err _) \<Rightarrow> \<exists>n. written (wr_side s') = written (wr_side s) @ take n (frames_of json ms)
      | _ \<Rightarrow> written (wr_side s') = written (wr_side s) @ frames_of json ms)"

fun received_events :: "'ev stream_turn list \<Rightarrow> 'ev list" where
  "received_events [] = []"
| "received_events (StreamReceived (Received e) # turns) = e # received_events turns"
| "received_events (_ # turns) = received_events turns"

text \<open>What the event loop says for a schedule of wake-ups.\<close>

fun event_messages :: "'ev stream_turn list \<Rightarrow> 'ev broker_message list" where
  "event_messages [] = []"
| "event_messages (StreamShutdown gone value # turns) =
     (if gone \<or> value then [broker_close_new BrokerShutdown ''broker is shutting down''] else event_messages turns)"
| "event_messages (StreamReceived (Received e) # turns) = BrokerEvent e # event_messages turns"
| "event_messages (StreamReceived (RecvLagged n) # turns) =
     [broker_close_new EventStreamTooSlow ''plugin event stream is too slow'']"
| "event_messages (StreamReceived RecvClosed # turns) = [broker_close_new BrokerShutdown ''broker event stream closed'']"

lemma event_messages_shape:
  "\<exists>evs closes. event_messages turns = map BrokerEvent evs @ closes \<and> prefix evs (received_events turns)
     \<and> (closes = [] \<and> evs = received_events turns \<or> (\<exists>cls reason. closes = [BrokerClose cls reason]))"
proof (induction turns rule: event_messages.induct)
  case (2 gone val turns)
  then show ?case
    by (cases "gone \<or> val") (auto simp: broker_close_new_def intro: exI [of _ "[]"])
next
  case (3 e turns)
  then obtain evs closes where "event_messages turns = map BrokerEvent evs @ closes" "prefix evs (received_events turns)"
    "closes = [] \<and> evs = received_events turns \<or> (\<exists>cls reason. closes = [BrokerClose cls reason])" by blast
  then show ?case by (intro exI [of _ "e # evs"] exI [of _ closes]) auto
qed (auto simp: broker_close_new_def intro: exI [of _ "[]"])

lemma frames_of_simps [simp]:
  "frames_of json [] = []" "frames_of json (m # ms) = plugin_frame (message_to_vec json) m @ frames_of json ms"
  "frames_of json (ms @ ms') = frames_of json ms @ frames_of json ms'"
  by (simp_all add: frames_of_def)

lemma transcript_start [simp]: "wr_side s' = wr_side s \<Longrightarrow> transcript json res s s' []"
  by (auto simp: transcript_def split: option.splits sum.splits)

lemma transcript_trans:
  "\<lbrakk>written (wr_side s1) = written (wr_side s) @ frames_of json ms; transcript json res s1 s' ms'\<rbrakk>
   \<Longrightarrow> transcript json res s s' (ms @ ms')"
proof (cases res)
  case (Some r)
  assume a: "written (wr_side s1) = written (wr_side s) @ frames_of json ms" "transcript json res s1 s' ms'"
  show ?thesis
  proof (cases r)
    case (Inl e)
    with a Some obtain n where "written (wr_side s') = written (wr_side s) @ frames_of json ms @ take n (frames_of json ms')"
      by (auto simp: transcript_def)
    then show ?thesis
      using Some Inl by (auto simp: transcript_def intro!: exI [of _ "length (frames_of json ms) + n"])
  qed (use a Some in \<open>simp add: transcript_def\<close>)
qed (simp add: transcript_def)

lemma transcript_abort: "transcript json (Some (Err e)) s s' ms \<Longrightarrow> transcript json (Some (Err e')) s s' (ms @ ms')"
proof -
  assume "transcript json (Some (Err e)) s s' ms"
  then obtain n where "written (wr_side s') = written (wr_side s) @ take n (frames_of json ms)"
    by (auto simp: transcript_def)
  then show ?thesis
    by (auto simp: transcript_def min_def intro!: exI [of _ "min n (length (frames_of json ms))"])
qed

lemma session_write_transcript:
  "session_write json m s = (res, s') \<Longrightarrow> transcript json (Some res) s s' [m] \<and> rd_side s' = rd_side s"
proof -
  assume a: "session_write json m s = (res, s')"
  then obtain w where w: "write_json (message_to_vec json) m (wr_side s) = (res, w)" "s' = s\<lparr>wr_side := w\<rparr>"
    by (auto simp: session_write_def split: prod.splits)
  show ?thesis
  proof (cases res)
    case (Inl e)
    with w write_json_Err show ?thesis by (fastforce simp: transcript_def)
  next
    case (Inr u)
    with w write_json_Ok [of "message_to_vec json" m "wr_side s" w] show ?thesis by (auto simp: transcript_def)
  qed
qed

lemma handle_event_transcript:
  assumes "handle_event json received s = (res, s')"
  shows "case res of
      Err e \<Rightarrow> transcript json (Some res) s s' (event_messages (StreamReceived received # turns))
    | Ok StreamClose \<Rightarrow> transcript json (Some res) s s' (event_messages (StreamReceived received # turns))
    | Ok StreamContinue \<Rightarrow> \<exists>e. received = Received e \<and> transcript json (Some res) s s' [BrokerEvent e]"
proof -
  have step: "case map_sum id (\<lambda>_. a) r of
      Err e \<Rightarrow> transcript json (Some (map_sum id (\<lambda>_. a) r)) s s1 (m # ms)
    | Ok _ \<Rightarrow> transcript json (Some (map_sum id (\<lambda>_. a) r)) s s1 [m]"
    if "session_write json m s = (r, s1)" for m r s1 ms and a :: stream_action
    using session_write_transcript [OF that] transcript_abort [of json _ s s1 "[m]" _ ms]
    by (cases r) (auto simp: transcript_def)
  show ?thesis
  proof (cases received)
    case (Received e)
    with assms obtain r where "session_write json (BrokerEvent e) s = (r, s')" "res = map_sum id (\<lambda>_. StreamContinue) r"
      by (auto simp: handle_event_def split: prod.splits)
    with step [of "BrokerEvent e" r s' StreamContinue "event_messages turns"] Received show ?thesis
      by (cases r) auto
  next
    case (RecvLagged n)
    with assms obtain r where
      "session_write json (broker_close_new EventStreamTooSlow ''plugin event stream is too slow'') s = (r, s')"
      "res = map_sum id (\<lambda>_. StreamClose) r"
      by (auto simp: handle_event_def session_close_def split: prod.splits)
    with step [of _ r s' StreamClose "[]"] RecvLagged show ?thesis by (cases r) auto
  next
    case RecvClosed
    with assms obtain r where
      "session_write json (broker_close_new BrokerShutdown ''broker event stream closed'') s = (r, s')"
      "res = map_sum id (\<lambda>_. StreamClose) r"
      by (auto simp: handle_event_def session_close_def split: prod.splits)
    with step [of _ r s' StreamClose "[]"] RecvClosed show ?thesis by (cases r) auto
  qed
qed

lemma stream_events_transcript:
  "stream_events json turns s = (res, s') \<Longrightarrow> transcript json res s s' (event_messages turns)"
proof (induction json turns s rule: stream_events.induct)
  case (2 json gone val turns s)
  then show ?case
    using session_write_transcript [of json _ s _ s']
    by (cases "gone \<or> val") (auto simp: session_close_def split: prod.splits)
next
  case (3 json received turns s)
  obtain r s1 where h: "handle_event json received s = (r, s1)" by fastforce
  note t = handle_event_transcript [OF h, of turns]
  show ?case
  proof (cases "r = Ok StreamContinue")
    case True
    with t obtain e where e: "received = Received e" "written (wr_side s1) = written (wr_side s) @ frames_of json [BrokerEvent e]"
      by (auto simp: transcript_def)
    have "transcript json res s1 s' (event_messages turns)"
      using "3.IH" [OF h [symmetric] True refl] "3.prems" True h by simp
    from transcript_trans [OF e(2) this] e(1) show ?thesis by simp
  next
    case False
    with t h "3.prems" show ?thesis
      by (auto simp: transcript_def split: sum.splits stream_action.splits)
  qed
qed simp

section \<open>Handshakes\<close>

text \<open>
  The plugin's first complete frame (after whatever a dropped read had consumed) introduced it properly.
\<close>

definition greeted :: "'ev plugin_json \<Rightarrow> reader \<Rightarrow> bool" where
  "greeted json r \<longleftrightarrow>
     (\<exists>lost payload rest hello. incoming r = lost @ to_be_bytes (of_nat (length payload)) @ payload @ rest
        \<and> hello_from_slice json payload = Ok hello
        \<and> hello_protocol_version hello = 1 \<and> valid_plugin_id (hello_plugin_id hello))"

lemma dropped_read_incoming: "\<exists>lost. incoming r = lost @ incoming (dropped_read n r)"
proof (cases "read_exact stream_read n r")
  case (Pair res r')
  then show ?thesis
    using script.read_exact_sound [where s = r and n = n and s' = r'] by (cases res) (auto simp: dropped_read_def)
qed

lemma read_handshake_payload_sound:
  "read_handshake_payload turns r = (Some (Ok (Some payload)), r') \<Longrightarrow>
     \<exists>lost. incoming r = lost @ to_be_bytes (of_nat (length payload)) @ payload @ incoming r'"
proof (induction turns r rule: read_handshake_payload.induct)
  case (2 gone val n turns r)
  then obtain lost where "incoming (dropped_read n r) = lost @ to_be_bytes (of_nat (length payload)) @ payload @ incoming r'"
    by (auto split: if_splits)
  with dropped_read_incoming [of r n] show ?case by (metis append.assoc)
next
  case (3 elapsed turns r)
  then have "read_payload stream_read r = (Ok (Some payload), r')" by (auto split: if_splits prod.splits)
  from script.read_payload_sound [OF _ this] show ?case by (intro exI [of _ "[]"]) simp
qed simp

lemma reject_handshake_transcript:
  assumes "reject_handshake json err reason s = (res, s')"
  shows "transcript json res s s' [broker_error_new err reason] \<and> (res = Some (Ok None) \<or> (\<exists>e. res = Some (Err e)))"
  using assms session_write_transcript [of json "broker_error_new err reason" s]
  by (auto simp: reject_handshake_def session_reject_def transcript_def split: prod.splits sum.splits)

text \<open>
  A handshake says nothing, rejects with one error, or says hello; only the hello opens the event stream.
\<close>

definition handshake_outcome ::
  "'ev plugin_json \<Rightarrow> reader \<Rightarrow> (plugin_frame_error, string option) result option \<Rightarrow> duplex \<Rightarrow> duplex \<Rightarrow> bool" where
  "handshake_outcome json r res s s' \<longleftrightarrow>
     (\<exists>ms. transcript json res s s' ms
        \<and> (ms = [BrokerHello PluginV1] \<and> greeted json r \<and> (\<exists>x. res = Some (map_sum id Some x))
           \<or> (ms = [] \<or> (\<exists>err reason. ms = [BrokerError err reason])) \<and> (\<forall>i. res \<noteq> Some (Ok (Some i)))))"

lemma rejected_outcome: "reject_handshake json err reason s = (res, s') \<Longrightarrow> handshake_outcome json r res s s'"
  using reject_handshake_transcript by (fastforce simp: handshake_outcome_def broker_error_new_def)

lemma accept_hello_outcome:
  assumes "accept_hello json payload s = (res, s')"
    and "incoming r = lost @ to_be_bytes (of_nat (length payload)) @ payload @ rest"
  shows "handshake_outcome json r res s s'"
proof -
  consider err reason where "reject_handshake json err reason s = (res, s')"
    | hello r1 where "hello_from_slice json payload = Ok hello" "hello_protocol_version hello = 1"
      "valid_plugin_id (hello_plugin_id hello)" "session_write json (BrokerHello PluginV1) s = (r1, s')"
      "res = Some (map_sum id (\<lambda>_. Some (hello_plugin_id hello)) r1)"
    using assms(1) by (auto simp: accept_hello_def plugin_version_try_from_def split: sum.splits if_splits prod.splits)
  then show ?thesis
  proof cases
    case 1
    then show ?thesis by (rule rejected_outcome)
  next
    case (2 hello r1)
    then have "greeted json r" using assms(2) by (auto simp: greeted_def)
    with session_write_transcript [OF 2(4)] 2(5) show ?thesis
      unfolding handshake_outcome_def by (intro exI [of _ "[BrokerHello PluginV1]"]) (cases r1,
          auto simp: transcript_def intro: exI [of _ "map_sum id (\<lambda>_. hello_plugin_id hello) r1"])
  qed
qed

lemma handshake_outcome_reader:
  "handshake_outcome json r res (s\<lparr>rd_side := r'\<rparr>) s' \<longleftrightarrow> handshake_outcome json r res s s'"
proof -
  have "transcript json res (s\<lparr>rd_side := r'\<rparr>) s' ms = transcript json res s s' ms" for ms
    by (auto simp: transcript_def split: option.splits sum.splits)
  then show ?thesis by (simp add: handshake_outcome_def)
qed

lemma handshake_sound:
  assumes "plugin_handshake json turns s = (res, s')"
  shows "handshake_outcome json (rd_side s) res s s'"
proof -
  obtain p r where p: "read_handshake_payload turns (rd_side s) = (p, r)" by fastforce
  let ?s = "s\<lparr>rd_side := r\<rparr>"
  consider (payload) payload where "p = Some (Ok (Some payload))" "accept_hello json payload ?s = (res, s')"
    | (large) len maximum where "reject_handshake json InvalidHandshake (too_large_display len maximum) ?s = (res, s')"
    | (quiet) "res = None \<or> res = Some (Ok None) \<or> (\<exists>e. res = Some (Err e))" "s' = ?s"
    using assms p
    by (auto simp: plugin_handshake_def split: option.splits sum.splits plugin_frame_error.splits)
  then have "handshake_outcome json (rd_side s) res ?s s'"
  proof cases
    case payload
    with p read_handshake_payload_sound accept_hello_outcome show ?thesis by metis
  next
    case large
    then show ?thesis by (rule rejected_outcome)
  next
    case quiet
    then show ?thesis by (auto simp: handshake_outcome_def intro!: exI [of _ "[]"])
  qed
  then show ?thesis by (simp only: handshake_outcome_reader)
qed

section \<open>Properties\<close>

text \<open>
  A value written with \<^verbatim>\<open>write_json\<close> is read back by \<^verbatim>\<open>read_payload\<close> as exactly its JSON text, whatever
  follows it on the stream and however the stream is segmented.
\<close>

theorem plugin_frame_round_trip:
  assumes "write_json to_vec v w = (Ok (), w')" and "written w' = written w @ sent" and "incoming r = sent @ rest"
  shows "\<exists>payload r'. to_vec v = Some payload \<and> read_payload stream_read r = (Ok (Some payload), r')
    \<and> incoming r' = rest"
proof -
  from write_json_Ok [OF assms(1)] assms(2) obtain payload where
    p: "to_vec v = Some payload" "length payload \<le> unat MAX_JSON_FRAME_BYTES"
    and "sent = to_be_bytes (of_nat (length payload)) @ payload" by auto
  with assms(3) have "incoming r = to_be_bytes (of_nat (length payload)) @ payload @ rest" by simp
  from script.read_payload_complete [OF _ this p(2)] p(1) show ?thesis by blast
qed

theorem plugin_frame_round_trip_witness:
  "\<exists>payload r'. Some ''{}'' = Some payload
     \<and> read_payload stream_read [Got [CHR 0x00], Got [CHR 0x00, CHR 0x00, CHR 0x02, CHR ''{''], Got ''}next''] = (Ok (Some payload), r')
     \<and> incoming r' = ''next''"
proof (rule plugin_frame_round_trip [where to_vec = "\<lambda>_ :: nat. Some ''{}''" and v = 0 and w = open_writer
      and sent = "[CHR 0x00, CHR 0x00, CHR 0x00, CHR 0x02, CHR ''{'', CHR ''}'']"])
  have be: "to_be_bytes 2 = [CHR 0x00, CHR 0x00, CHR 0x00, CHR 0x02]"
    by (simp add: to_be_bytes_def char_of_def bit_numeral_rec bit_Suc_0_iff)
  show "write_json (\<lambda>_. Some ''{}'') 0 open_writer
      = (Ok (), open_writer\<lparr>written := [CHR 0x00, CHR 0x00, CHR 0x00, CHR 0x02, CHR ''{'', CHR ''}'']\<rparr>)"
    by (simp add: write_json_def u32_try_from_def validate_payload_length_def MAX_JSON_FRAME_BYTES_def
        be write_all_willing open_writer_def)
qed simp_all

text \<open>
  C13. Whatever the plugin sends, however the select loops wake up and wherever writing fails, a session writes one
  of three transcripts (or, if it failed, a prefix of one): nothing; a single error; or the hello, the events received
  from the broadcast in their order, and at most one close, after which nothing follows. No received event is skipped:
  without a close the events are all that were received. The hello, and so any event, is only sent to a plugin whose
  handshake frame names protocol version 1 and a valid plugin id.
\<close>

theorem plugin_session_transcript:
  "case plugin_session_run json hs_turns turns s of (res, s') \<Rightarrow>
     \<exists>ms. transcript json res s s' ms
      \<and> (ms = [] \<or> (\<exists>err reason. ms = [BrokerError err reason])
         \<or> (\<exists>evs closes. ms = BrokerHello PluginV1 # map BrokerEvent evs @ closes \<and> greeted json (rd_side s)
              \<and> prefix evs (received_events turns)
              \<and> (closes = [] \<and> evs = received_events turns \<or> (\<exists>cls reason. closes = [BrokerClose cls reason]))))"
proof (cases "plugin_session_run json hs_turns turns s")
  case (Pair res s')
  obtain hr s1 where h: "plugin_handshake json hs_turns s = (hr, s1)" by fastforce
  from handshake_sound [OF h] obtain ms where ms: "transcript json hr s s1 ms"
    "ms = [BrokerHello PluginV1] \<and> greeted json (rd_side s) \<and> (\<exists>x. hr = Some (map_sum id Some x))
     \<or> (ms = [] \<or> (\<exists>err reason. ms = [BrokerError err reason])) \<and> (\<forall>i. hr \<noteq> Some (Ok (Some i)))"
    by (auto simp: handshake_outcome_def)
  from ms(2) show ?thesis
  proof
    assume hello: "ms = [BrokerHello PluginV1] \<and> greeted json (rd_side s) \<and> (\<exists>x. hr = Some (map_sum id Some x))"
    then obtain x where x: "hr = Some (map_sum id Some x)" by blast
    have "transcript json res s s' ([BrokerHello PluginV1] @ event_messages turns)"
    proof (cases x)
      case (Inl e)
      with h x Pair have "res = Some (Err e)" "s' = s1" by (auto simp: plugin_session_run_def)
      with ms(1) hello x Inl show ?thesis using transcript_abort [of json e s s1 ms] by simp
    next
      case (Inr i)
      with h x Pair have "stream_events json turns s1 = (res, s')" by (auto simp: plugin_session_run_def)
      moreover have "written (wr_side s1) = written (wr_side s) @ frames_of json [BrokerHello PluginV1]"
        using ms(1) hello x Inr by (simp add: transcript_def)
      ultimately show ?thesis using transcript_trans stream_events_transcript by blast
    qed
    with event_messages_shape [of turns] hello show ?thesis
      unfolding Pair prod.case by (metis append_Cons append_Nil)
  next
    assume quiet: "(ms = [] \<or> (\<exists>err reason. ms = [BrokerError err reason])) \<and> (\<forall>i. hr \<noteq> Some (Ok (Some i)))"
    with h Pair ms(1) have "transcript json res s s' ms"
      by (auto simp: plugin_session_run_def transcript_def split: option.splits sum.splits)
    with quiet show ?thesis unfolding Pair prod.case by blast
  qed
qed

end
