(* ===== verification/Plugin_Client.thy ===== *)
theory Plugin_Client
  imports Plugin_Session File_System
begin

text \<open>
  The client side of the plugin endpoint (\<^verbatim>\<open>crates/abyss-sdk/src/plugin/client.rs\<close>): endpoint discovery, handshake,
  the stream of agent events and the loop that hands them to a handler. The frame codec of the SDK
  (\<^verbatim>\<open>crates/abyss-sdk/src/plugin/codec.rs\<close>) is the broker's, so the definitions of \<^verbatim>\<open>Plugin_Session\<close> are used.
  \<^verbatim>\<open>serde_json\<close> and the connection are parameters; the environment is a map to the lossily decoded values.
\<close>

section \<open>Errors and messages\<close>

text \<open>\<^verbatim>\<open>BrokerPluginError\<close>; a frame error is kept as a value instead of its text.\<close>

datatype broker_plugin_error =
    MissingEndpoint
  | StartupInfoIo bytes io_kind
  | StartupInfoJson bytes
  | PluginConnect bytes io_kind
  | PluginFrame plugin_frame_error
  | PluginDecode string
  | HandshakeRejected u32 string
  | ClientUnexpectedEof
  | PluginHandler string

type_synonym broker_close = "u32 \<times> string"

datatype handshake_response = Accepted plugin_protocol_version | Rejected u32 string

datatype 'ev stream_message = EventMessage 'ev | CloseMessage broker_close

text \<open>\<^verbatim>\<open>serde_json\<close> at the types the client reads and writes.\<close>

record 'ev client_json =
  plugin_hello_to_vec :: "raw_plugin_hello \<Rightarrow> bytes option"
  broker_hello_from_slice :: "bytes \<Rightarrow> plugin_protocol_version option"
  broker_error_from_slice :: "bytes \<Rightarrow> (u32 \<times> string) option"
  agent_event_from_slice :: "bytes \<Rightarrow> 'ev option"
  broker_close_from_slice :: "bytes \<Rightarrow> broker_close option"
  startup_info_from_slice :: "bytes \<Rightarrow> bytes option"

definition plugin_hello_new :: "string \<Rightarrow> raw_plugin_hello" where
  "plugin_hello_new plugin_id =
     \<lparr>hello_protocol_version = plugin_version_wire_value PluginV1, hello_plugin_id = plugin_id\<rparr>"

text \<open>An untagged enum is the first variant that can be read.\<close>

definition handshake_response_from_slice :: "'ev client_json \<Rightarrow> bytes \<Rightarrow> handshake_response option" where
  "handshake_response_from_slice cj payload =
     (case broker_hello_from_slice cj payload of
        Some version \<Rightarrow> Some (Accepted version)
      | None \<Rightarrow> map_option (\<lambda>(err, reason). Rejected err reason) (broker_error_from_slice cj payload))"

definition stream_message_from_slice :: "'ev client_json \<Rightarrow> bytes \<Rightarrow> 'ev stream_message option" where
  "stream_message_from_slice cj payload =
     (case agent_event_from_slice cj payload of
        Some event \<Rightarrow> Some (EventMessage event)
      | None \<Rightarrow> map_option CloseMessage (broker_close_from_slice cj payload))"

section \<open>Finding the endpoint\<close>

record broker_plugin =
  bp_plugin_id :: string
  bp_endpoint :: "bytes option"

definition broker_plugin_new :: "string \<Rightarrow> broker_plugin" where
  "broker_plugin_new plugin_id = \<lparr>bp_plugin_id = plugin_id, bp_endpoint = None\<rparr>"

definition with_endpoint :: "bytes \<Rightarrow> broker_plugin \<Rightarrow> broker_plugin" where
  "with_endpoint endpoint p = p\<lparr>bp_endpoint := Some endpoint\<rparr>"

definition non_empty_env :: "(string \<Rightarrow> bytes option) \<Rightarrow> string \<Rightarrow> bytes option" where
  "non_empty_env env name =
     (case env name of None \<Rightarrow> None | Some v \<Rightarrow> if str_trim v = [] then None else Some (str_trim v))"

definition startup_info_path :: "(string \<Rightarrow> bytes option) \<Rightarrow> bytes option" where
  "startup_info_path env =
     (case non_empty_env env ''ABYSS_BROKER_STARTUP_INFO'' of
        Some path \<Rightarrow> Some path
      | None \<Rightarrow>
          map_option (\<lambda>root. path_join (path_join root ''runtime'') ''startup-info.json'') (non_empty_env env ''ABYSS_HOME''))"

definition read_plugin_startup_info ::
  "'ev client_json \<Rightarrow> bytes \<Rightarrow> disk \<Rightarrow> (broker_plugin_error, bytes) result \<times> disk" where
  "read_plugin_startup_info cj path d =
     (case fs_read path d of
        (Err k, d') \<Rightarrow> (Err (StartupInfoIo path k), d')
      | (Ok body, d') \<Rightarrow>
          (case startup_info_from_slice cj body of
             None \<Rightarrow> Err (StartupInfoJson path)
           | Some endpoint \<Rightarrow> Ok endpoint, d'))"

definition resolve_endpoint ::
  "'ev client_json \<Rightarrow> (string \<Rightarrow> bytes option) \<Rightarrow> broker_plugin \<Rightarrow> disk \<Rightarrow> (broker_plugin_error, bytes) result \<times> disk" where
  "resolve_endpoint cj env p d =
     (case bp_endpoint p of
        Some endpoint \<Rightarrow> (Ok endpoint, d)
      | None \<Rightarrow>
          (case non_empty_env env ''ABYSS_BROKER_PLUGIN_ENDPOINT'' of
             Some endpoint \<Rightarrow> (Ok endpoint, d)
           | None \<Rightarrow>
               (case startup_info_path env of
                  None \<Rightarrow> (Err MissingEndpoint, d)
                | Some path \<Rightarrow> read_plugin_startup_info cj path d)))"

section \<open>Handshake and events\<close>

definition client_handshake ::
  "'ev client_json \<Rightarrow> string \<Rightarrow> duplex \<Rightarrow> (broker_plugin_error, unit) result \<times> duplex" where
  "client_handshake cj plugin_id c =
     (case write_json (plugin_hello_to_vec cj) (plugin_hello_new plugin_id) (wr_side c) of
        (Err e, w) \<Rightarrow> (Err (PluginFrame e), c\<lparr>wr_side := w\<rparr>)
      | (Ok _, w) \<Rightarrow>
          (case read_payload stream_read (rd_side c) of
             (Err e, r) \<Rightarrow> (Err (PluginFrame e), c\<lparr>wr_side := w, rd_side := r\<rparr>)
           | (Ok None, r) \<Rightarrow> (Err ClientUnexpectedEof, c\<lparr>wr_side := w, rd_side := r\<rparr>)
           | (Ok (Some payload), r) \<Rightarrow>
               (case handshake_response_from_slice cj payload of
                  None \<Rightarrow> Err (PluginDecode ''handshake response'')
                | Some (Accepted _) \<Rightarrow> Ok ()
                | Some (Rejected err reason) \<Rightarrow> Err (HandshakeRejected err reason),
                c\<lparr>wr_side := w, rd_side := r\<rparr>)))"

definition read_stream_message ::
  "'ev client_json \<Rightarrow> reader \<Rightarrow> (broker_plugin_error, 'ev stream_message) result \<times> reader" where
  "read_stream_message cj r =
     (case read_payload stream_read r of
        (Err e, r') \<Rightarrow> (Err (PluginFrame e), r')
      | (Ok None, r') \<Rightarrow> (Err ClientUnexpectedEof, r')
      | (Ok (Some payload), r') \<Rightarrow>
          (case stream_message_from_slice cj payload of
             None \<Rightarrow> Err (PluginDecode ''event stream frame'')
           | Some m \<Rightarrow> Ok m, r'))"

text \<open>
  \<^verbatim>\<open>EventStreamState\<close>. The stream is polled for one item after the other, and not again once it has ended.
\<close>

record agent_event_stream =
  es_reader :: reader
  es_close :: "broker_close option"
  es_terminated :: bool

definition agent_event_stream_new :: "duplex \<Rightarrow> agent_event_stream" where
  "agent_event_stream_new c = \<lparr>es_reader = rd_side c, es_close = None, es_terminated = False\<rparr>"

definition next_event ::
  "'ev client_json \<Rightarrow> agent_event_stream \<Rightarrow> (broker_plugin_error, 'ev) result option \<times> agent_event_stream" where
  "next_event cj es =
     (if es_terminated es then (None, es)
      else
        (case read_stream_message cj (es_reader es) of
           (Ok (EventMessage event), r) \<Rightarrow> (Some (Ok event), es\<lparr>es_reader := r\<rparr>)
         | (Ok (CloseMessage close), r) \<Rightarrow> (None, es\<lparr>es_reader := r, es_close := Some close\<rparr>)
         | (Err e, r) \<Rightarrow> (Some (Err e), es\<lparr>es_reader := r, es_terminated := True\<rparr>)))"

definition take_close :: "agent_event_stream \<Rightarrow> broker_close option \<times> agent_event_stream" where
  "take_close es = (es_close es, es\<lparr>es_close := None\<rparr>)"

text \<open>Every event has consumed a frame, so the loop over the events ends.\<close>

lemma next_event_shrinks:
  assumes "next_event cj es = (Some (Ok event), es')"
  shows "length (incoming (es_reader es')) < length (incoming (es_reader es))"
proof -
  from assms obtain payload where "read_payload stream_read (es_reader es) = (Ok (Some payload), es_reader es')"
    by (auto simp: next_event_def read_stream_message_def
        split: if_splits prod.splits sum.splits option.splits stream_message.splits)
  from script.read_payload_sound [OF _ this] show ?thesis by simp
qed

text \<open>\<open>'h\<close> is what the handler keeps between events.\<close>

function handle_events ::
  "'ev client_json \<Rightarrow> ('ev \<Rightarrow> 'h \<Rightarrow> (string, unit) result \<times> 'h) \<Rightarrow> agent_event_stream \<Rightarrow> 'h
   \<Rightarrow> (broker_plugin_error, broker_close) result \<times> 'h" where
  "handle_events cj handler es h =
     (case next_event cj es of
        (None, es') \<Rightarrow>
          (case take_close es' of (None, _) \<Rightarrow> Err ClientUnexpectedEof | (Some close, _) \<Rightarrow> Ok close, h)
      | (Some (Err e), es') \<Rightarrow> (Err e, h)
      | (Some (Ok event), es') \<Rightarrow>
          (case handler event h of
             (Err text, h') \<Rightarrow> (Err (PluginHandler text), h')
           | (Ok _, h') \<Rightarrow> handle_events cj handler es' h'))"
  by pat_completeness auto
termination
  by (relation "measure (\<lambda>(cj, handler, es, h). length (incoming (es_reader es)))")
    (auto dest: next_event_shrinks [OF sym])

declare handle_events.simps [simp del]

definition plugin_connect ::
  "'ev client_json \<Rightarrow> (string \<Rightarrow> bytes option) \<Rightarrow> (bytes \<Rightarrow> (io_kind, duplex) result) \<Rightarrow> broker_plugin \<Rightarrow> disk
   \<Rightarrow> (broker_plugin_error, agent_event_stream) result \<times> disk" where
  "plugin_connect cj env transport_connect p d =
     (case resolve_endpoint cj env p d of
        (Err e, d') \<Rightarrow> (Err e, d')
      | (Ok endpoint, d') \<Rightarrow>
          (case transport_connect endpoint of
             Err k \<Rightarrow> Err (PluginConnect endpoint k)
           | Ok c \<Rightarrow>
               (case client_handshake cj (bp_plugin_id p) c of
                  (Err e, c') \<Rightarrow> Err e
                | (Ok _, c') \<Rightarrow> Ok (agent_event_stream_new c')), d'))"

definition broker_plugin_run ::
  "'ev client_json \<Rightarrow> (string \<Rightarrow> bytes option) \<Rightarrow> (bytes \<Rightarrow> (io_kind, duplex) result) \<Rightarrow> broker_plugin \<Rightarrow> disk
   \<Rightarrow> ('ev \<Rightarrow> 'h \<Rightarrow> (string, unit) result \<times> 'h) \<Rightarrow> 'h \<Rightarrow> (broker_plugin_error, broker_close) result \<times> 'h \<times> disk" where
  "broker_plugin_run cj env transport_connect p d handler h =
     (case plugin_connect cj env transport_connect p d of
        (Err e, d') \<Rightarrow> (Err e, h, d')
      | (Ok es, d') \<Rightarrow> (case handle_events cj handler es h of (out, h') \<Rightarrow> (out, h', d')))"

section \<open>What a session has said\<close>

text \<open>
  The bytes of a session, cut anywhere: the frames of its messages in order, up to the first message that could not be
  framed.
\<close>

definition framed :: "'ev plugin_json \<Rightarrow> 'ev broker_message \<Rightarrow> bool" where
  "framed json m \<longleftrightarrow>
     (case message_to_vec json m of None \<Rightarrow> False | Some payload \<Rightarrow> length payload \<le> unat MAX_JSON_FRAME_BYTES)"

fun spoken :: "'ev plugin_json \<Rightarrow> 'ev broker_message list \<Rightarrow> bytes \<Rightarrow> bool" where
  "spoken json [] bs \<longleftrightarrow> bs = []"
| "spoken json (m # ms) bs \<longleftrightarrow>
     prefix bs (plugin_frame (message_to_vec json) m)
   \<or> framed json m \<and> (\<exists>rest. bs = plugin_frame (message_to_vec json) m @ rest \<and> spoken json ms rest)"

lemma spoken_Nil [simp]: "spoken json ms []"
  by (cases ms) simp_all

lemma spoken_prefix: "spoken json ms bs \<Longrightarrow> prefix p bs \<Longrightarrow> spoken json ms p"
proof (induction ms arbitrary: bs p)
  case (Cons m ms)
  from Cons.prems consider "prefix bs (plugin_frame (message_to_vec json) m)"
    | rest where "framed json m" "bs = plugin_frame (message_to_vec json) m @ rest" "spoken json ms rest" by auto
  then show ?case
  proof cases
    case 1
    with Cons.prems(2) show ?thesis by (auto intro: prefix_order.trans)
  next
    case (2 rest)
    with Cons.prems(2) consider "prefix p (plugin_frame (message_to_vec json) m)"
      | q where "p = plugin_frame (message_to_vec json) m @ q" "prefix q rest" by (auto simp: prefix_append)
    then show ?thesis using Cons.IH 2 by cases auto
  qed
qed simp

lemma framed_plugin_frame:
  "framed json m \<longleftrightarrow>
     (\<exists>payload. message_to_vec json m = Some payload \<and> length payload \<le> unat MAX_JSON_FRAME_BYTES
        \<and> plugin_frame (message_to_vec json) m = to_be_bytes (of_nat (length payload)) @ payload)"
  by (auto simp: framed_def plugin_frame_def split: option.splits)

lemma not_framed: "\<not> framed json m \<Longrightarrow> plugin_frame (message_to_vec json) m = []"
  by (auto simp: framed_def plugin_frame_def split: option.splits)

lemma session_write_spoken:
  assumes "session_write json m s = (res, s')"
  shows "\<exists>bs. written (wr_side s') = written (wr_side s) @ bs \<and> prefix bs (plugin_frame (message_to_vec json) m)
    \<and> (res = Ok () \<longrightarrow> framed json m \<and> bs = plugin_frame (message_to_vec json) m)"
proof -
  from assms obtain w where w: "write_json (message_to_vec json) m (wr_side s) = (res, w)" "s' = s\<lparr>wr_side := w\<rparr>"
    by (auto simp: session_write_def split: prod.splits)
  show ?thesis
  proof (cases res)
    case (Inl e)
    with w write_json_Err [of "message_to_vec json" m "wr_side s"] show ?thesis by (auto intro: take_is_prefix)
  next
    case (Inr u)
    with w write_json_Ok [of "message_to_vec json" m "wr_side s" w] show ?thesis
      by (auto simp: framed_def)
  qed
qed

text \<open>What a step that says \<open>ms\<close> has put on the wire; all of it, if the step did not fail.\<close>

definition says :: "'ev plugin_json \<Rightarrow> 'ev broker_message list \<Rightarrow> ('e, 'a) result option \<Rightarrow> duplex \<Rightarrow> duplex \<Rightarrow> bool" where
  "says json ms res s s' \<longleftrightarrow>
     (\<exists>bs. written (wr_side s') = written (wr_side s) @ bs \<and> spoken json ms bs
        \<and> ((\<forall>e. res \<noteq> Some (Err e)) \<longrightarrow> list_all (framed json) ms \<and> bs = frames_of json ms))"

lemma says_write: "session_write json m s = (r, s') \<Longrightarrow> says json [m] (Some (map_sum id f r)) s s'"
  using session_write_spoken [of json m s r s'] by (cases r) (auto simp: says_def)

lemma says_fail: "session_write json m s = (Err e, s') \<Longrightarrow> says json (m # ms) (Some (Err e')) s s'"
  using session_write_spoken [of json m s "Err e" s'] by (auto simp: says_def)

lemma says_cons:
  assumes "session_write json m s = (Ok (), s1)" and "says json ms res s1 s'"
  shows "says json (m # ms) res s s'"
proof -
  let ?f = "plugin_frame (message_to_vec json) m"
  from session_write_spoken [OF assms(1)] have m: "written (wr_side s1) = written (wr_side s) @ ?f" "framed json m" by auto
  from assms(2) obtain bs where bs: "written (wr_side s') = written (wr_side s1) @ bs" "spoken json ms bs"
    "(\<forall>e. res \<noteq> Some (Err e)) \<longrightarrow> list_all (framed json) ms \<and> bs = frames_of json ms" by (auto simp: says_def)
  with m show ?thesis unfolding says_def by (intro exI [of _ "?f @ bs"]) auto
qed

lemma closing_says:
  assumes "(case (case session_close json cls reason s of (r, s1) \<Rightarrow> (map_sum id (\<lambda>_. StreamClose) r, s1)) of
      (Err e, s1) \<Rightarrow> (Some (Err e), s1)
    | (Ok StreamClose, s1) \<Rightarrow> (Some (Ok ()), s1)
    | (Ok StreamContinue, s1) \<Rightarrow> k s1) = (res, s')"
  shows "says json [broker_close_new cls reason] res s s'"
proof -
  obtain r s1 where "session_close json cls reason s = (r, s1)" by fastforce
  with assms says_write [of json "broker_close_new cls reason" s r s1 id] show ?thesis
    by (cases r) (auto simp: session_close_def)
qed

lemma stream_events_says: "stream_events json turns s = (res, s') \<Longrightarrow> says json (event_messages turns) res s s'"
proof (induction json turns s rule: stream_events.induct)
  case (1 json s)
  then show ?case by (auto simp: says_def)
next
  case (2 json gone val turns s)
  then show ?case
    using says_write [of json _ s _ _ id]
    by (cases "gone \<or> val") (auto simp: session_close_def sum.map_id split: prod.splits)
next
  case (3 json received turns s)
  show ?case
  proof (cases received)
    case (Received e)
    obtain r s1 where w: "session_write json (BrokerEvent e) s = (r, s1)" by fastforce
    then have h: "handle_event json received s = (map_sum id (\<lambda>_. StreamContinue) r, s1)"
      by (simp add: handle_event_def Received)
    show ?thesis
    proof (cases r)
      case (Inl err)
      with h "3.prems" says_fail [of json _ s err s1] w Received show ?thesis by auto
    next
      case (Inr u)
      with h "3.prems" "3.IH" [OF h [symmetric]] have "says json (event_messages turns) res s1 s'" by simp
      with says_cons w Inr Received show ?thesis by fastforce
    qed
  next
    case (RecvLagged n)
    with "3.prems" closing_says show ?thesis by (auto simp: handle_event_def)
  next
    case RecvClosed
    with "3.prems" closing_says show ?thesis by (auto simp: handle_event_def)
  qed
qed

text \<open>The messages of a session: none, a rejection, or the hello and the events.\<close>

lemma plugin_handshake_accepted:
  "plugin_handshake json turns s = (Some (Ok (Some i)), s') \<Longrightarrow>
     \<exists>r. session_write json (BrokerHello PluginV1) (s\<lparr>rd_side := r\<rparr>) = (Ok (), s')"
  by (auto simp: plugin_handshake_def accept_hello_def reject_handshake_def plugin_version_try_from_def
      split: prod.splits option.splits sum.splits plugin_frame_error.splits if_splits)

lemma says_reader: "says json ms res (s\<lparr>rd_side := r\<rparr>) s' = says json ms res s s'"
  by (simp add: says_def)

lemma accepted_session_says:
  assumes "plugin_session_run json hs turns s = (res, s')" and "plugin_handshake json hs s = (Some (Ok (Some i)), s1)"
  shows "says json (BrokerHello PluginV1 # event_messages turns) res s s'"
proof -
  from plugin_handshake_accepted [OF assms(2)] obtain r where
    "session_write json (BrokerHello PluginV1) (s\<lparr>rd_side := r\<rparr>) = (Ok (), s1)" by blast
  moreover have "says json (event_messages turns) res s1 s'"
    using assms by (auto simp: plugin_session_run_def intro: stream_events_says)
  ultimately show ?thesis using says_cons says_reader by metis
qed

definition session_messages :: "'ev stream_turn list \<Rightarrow> 'ev broker_message list \<Rightarrow> bool" where
  "session_messages turns ms \<longleftrightarrow>
     ms = [] \<or> (\<exists>err reason. ms = [BrokerError err reason]) \<or> ms = BrokerHello PluginV1 # event_messages turns"

lemma plugin_session_spoken:
  assumes "plugin_session_run json hs turns s = (res, s')" and "written (wr_side s') = written (wr_side s) @ sent"
  shows "\<exists>ms. session_messages turns ms \<and> spoken json ms sent"
proof (cases "\<exists>i s1. plugin_handshake json hs s = (Some (Ok (Some i)), s1)")
  case True
  with accepted_session_says [OF assms(1)] assms(2) show ?thesis
    by (fastforce simp: says_def session_messages_def)
next
  case False
  obtain hr s1 where h: "plugin_handshake json hs s = (hr, s1)" by fastforce
  with False assms(1) have s1: "s' = s1" "\<And>i. hr \<noteq> Some (Ok (Some i))"
    by (auto simp: plugin_session_run_def split: option.splits sum.splits)
  from handshake_sound [OF h] obtain ms where ms: "transcript json hr s s1 ms"
    "ms = [] \<or> (\<exists>err reason. ms = [BrokerError err reason]) \<or> ms = [BrokerHello PluginV1]"
    by (auto simp: handshake_outcome_def)
  then obtain n where "sent = take n (frames_of json ms)"
    using assms(2) s1(1) by (auto simp: transcript_def split: option.splits sum.splits) (metis order_refl take_all)+
  then have "prefix sent (frames_of json ms)" by (simp add: take_is_prefix)
  with ms(2) show ?thesis
  proof (elim disjE)
    assume "ms = [BrokerHello PluginV1]" "prefix sent (frames_of json ms)"
    then show ?thesis
      by (intro exI [of _ "BrokerHello PluginV1 # event_messages turns"]) (simp add: session_messages_def)
  next
    assume "\<exists>err reason. ms = [BrokerError err reason]" "prefix sent (frames_of json ms)"
    then show ?thesis by (intro exI [of _ ms]) (auto simp: session_messages_def)
  qed (auto simp: session_messages_def)
qed

section \<open>What the client hears\<close>

text \<open>
  What the two sides need of \<^verbatim>\<open>serde_json\<close>: every message is read back as what was written, and the untagged enums can
  tell their variants apart (an event has fields that a close does not have, a hello one that an error does not have).
\<close>

definition codecs_agree :: "'ev plugin_json \<Rightarrow> 'ev client_json \<Rightarrow> bool" where
  "codecs_agree json cj \<longleftrightarrow>
     (\<forall>e p. message_to_vec json (BrokerEvent e) = Some p \<longrightarrow> agent_event_from_slice cj p = Some e)
   \<and> (\<forall>n t p. message_to_vec json (BrokerClose n t) = Some p \<longrightarrow>
        agent_event_from_slice cj p = None \<and> broker_close_from_slice cj p = Some (n, t))
   \<and> (\<forall>v p. message_to_vec json (BrokerHello v) = Some p \<longrightarrow> broker_hello_from_slice cj p = Some v)
   \<and> (\<forall>n t p. message_to_vec json (BrokerError n t) = Some p \<longrightarrow>
        broker_hello_from_slice cj p = None \<and> broker_error_from_slice cj p = Some (n, t))"

lemma frame_unique:
  assumes "to_be_bytes (of_nat (length p)) @ p @ u = to_be_bytes (of_nat (length q)) @ q @ v"
    and "length p \<le> unat MAX_JSON_FRAME_BYTES" and "length q \<le> unat MAX_JSON_FRAME_BYTES"
  shows "p = q \<and> u = v"
proof -
  have "length x < 2 ^ 32" if "length x \<le> unat MAX_JSON_FRAME_BYTES" for x :: bytes
    using that u32_lt [of MAX_JSON_FRAME_BYTES] by simp
  then have "unat (of_nat (length p) :: u32) = length p" "unat (of_nat (length q) :: u32) = length q"
    using assms(2,3) by (simp_all add: unat_of_nat)
  moreover have "to_be_bytes (of_nat (length p)) = to_be_bytes (of_nat (length q))" "p @ u = q @ v"
    using assms(1) by (simp_all add: append_eq_append_conv)
  ultimately have "length p = length q" using from_to_be_bytes by metis
  with \<open>p @ u = q @ v\<close> show ?thesis by (simp add: append_eq_append_conv)
qed

lemma spoken_payload:
  assumes "spoken json ms (incoming r)" and "read_payload stream_read r = (Ok (Some payload), r')"
  shows "\<exists>m ms'. ms = m # ms' \<and> message_to_vec json m = Some payload \<and> spoken json ms' (incoming r')"
proof -
  let ?frame = "to_be_bytes (of_nat (length payload)) @ payload @ incoming r'"
  from script.read_payload_sound [OF _ assms(2)] have r: "incoming r = ?frame" "length payload \<le> unat MAX_JSON_FRAME_BYTES"
    by simp_all
  then have "incoming r \<noteq> []" using to_be_bytes_length by (metis append_is_Nil_conv list.size(3) zero_neq_numeral)
  with assms(1) obtain m ms' where ms: "ms = m # ms'" by (cases ms) auto
  let ?m = "plugin_frame (message_to_vec json) m"
  have "\<exists>x rest. incoming r @ x = ?m @ rest \<and> framed json m \<and> (x = [] \<and> spoken json ms' rest \<or> rest = [])"
  proof (cases "prefix (incoming r) ?m")
    case True
    then obtain x where "?m = incoming r @ x" by (auto elim: prefixE)
    moreover from this \<open>incoming r \<noteq> []\<close> have "framed json m" using not_framed by fastforce
    ultimately show ?thesis by (intro exI [of _ x] exI [of _ "[]"]) simp
  next
    case False
    with assms(1) ms show ?thesis by (auto intro: exI [of _ "[]"])
  qed
  then obtain x rest where x: "incoming r @ x = ?m @ rest" "framed json m" "x = [] \<and> spoken json ms' rest \<or> rest = []"
    by blast
  from x(2) obtain q where q: "message_to_vec json m = Some q" "length q \<le> unat MAX_JSON_FRAME_BYTES"
    "plugin_frame (message_to_vec json) m = to_be_bytes (of_nat (length q)) @ q" by (auto simp: framed_plugin_frame)
  from frame_unique [of payload "incoming r' @ x" q rest] r x(1) q have "payload = q" "incoming r' @ x = rest" by simp_all
  with x(3) q(1) ms show ?thesis by auto
qed

fun message_heard :: "'ev stream_message \<Rightarrow> 'ev broker_message" where
  "message_heard (EventMessage e) = BrokerEvent e"
| "message_heard (CloseMessage close) = BrokerClose (fst close) (snd close)"

definition stream_messages :: "'ev broker_message list \<Rightarrow> bool" where
  "stream_messages = list_all (\<lambda>m. \<exists>x. m = message_heard x)"

lemma stream_message_round_trip:
  "\<lbrakk>codecs_agree json cj; message_to_vec json (message_heard x) = Some p\<rbrakk> \<Longrightarrow> stream_message_from_slice cj p = Some x"
  by (cases x) (auto simp: codecs_agree_def stream_message_from_slice_def)

lemma read_stream_message_heard:
  assumes "codecs_agree json cj" and "spoken json ms (incoming r)" and "stream_messages ms"
    and "read_stream_message cj r = (Ok x, r')"
  shows "\<exists>ms'. ms = message_heard x # ms' \<and> spoken json ms' (incoming r')"
proof -
  from assms(4) obtain p where p: "read_payload stream_read r = (Ok (Some p), r')" "stream_message_from_slice cj p = Some x"
    by (auto simp: read_stream_message_def split: prod.splits sum.splits option.splits)
  from spoken_payload [OF assms(2) p(1)] obtain m ms' where
    m: "ms = m # ms'" "message_to_vec json m = Some p" "spoken json ms' (incoming r')" by blast
  with assms(3) obtain y where "m = message_heard y" by (auto simp: stream_messages_def)
  with stream_message_round_trip [OF assms(1)] m p(2) show ?thesis by auto
qed

text \<open>What the handler has become after a list of events.\<close>

definition handled :: "('ev \<Rightarrow> 'h \<Rightarrow> (string, unit) result \<times> 'h) \<Rightarrow> 'ev list \<Rightarrow> 'h \<Rightarrow> 'h" where
  "handled handler evs h = fold (\<lambda>e. snd \<circ> handler e) evs h"

definition closes_with :: "'ev broker_message list \<Rightarrow> bool" where
  "closes_with closes \<longleftrightarrow> closes = [] \<or> (\<exists>n t. closes = [BrokerClose n t])"

lemma stream_messages_shape: "closes_with closes \<Longrightarrow> stream_messages (map BrokerEvent evs @ closes)"
proof -
  have e: "\<exists>x. BrokerEvent e = message_heard x" for e :: 'a by (rule exI [of _ "EventMessage e"]) simp
  have c: "\<exists>x. BrokerClose n t = (message_heard x :: 'a broker_message)" for n t
    by (rule exI [of _ "CloseMessage (n, t)"]) simp
  show "closes_with closes \<Longrightarrow> stream_messages (map BrokerEvent evs @ closes)"
    using e c by (auto simp: stream_messages_def closes_with_def list_all_iff)
qed

text \<open>One turn of the loop, by what the stream yields.\<close>

lemma handle_events_turn:
  assumes "\<not> es_terminated es" and "read_stream_message cj (es_reader es) = (x, r)"
  shows "handle_events cj handler es h =
    (case x of
       Err e \<Rightarrow> (Err e, h)
     | Ok (CloseMessage close) \<Rightarrow> (Ok close, h)
     | Ok (EventMessage e) \<Rightarrow>
         (case handler e h of
            (Err text, h') \<Rightarrow> (Err (PluginHandler text), h')
          | (Ok _, h') \<Rightarrow> handle_events cj handler (es\<lparr>es_reader := r\<rparr>) h'))"
  using assms by (subst handle_events.simps) (simp add: next_event_def take_close_def split: sum.splits stream_message.splits)

lemma handle_events_sound:
  assumes "codecs_agree json cj" and "closes_with closes"
  shows "\<lbrakk>spoken json (map BrokerEvent evs @ closes) (incoming (es_reader es)); \<not> es_terminated es;
      handle_events cj handler es h = (out, h')\<rbrakk>
    \<Longrightarrow> \<exists>heard. prefix heard evs \<and> h' = handled handler heard h
          \<and> (\<forall>close. out = Ok close \<longrightarrow> heard = evs \<and> closes = [BrokerClose (fst close) (snd close)])"
proof (induction evs arbitrary: es h rule: length_induct)
  case (1 evs)
  obtain x r where x: "read_stream_message cj (es_reader es) = (x, r)" by fastforce
  note turn = handle_events_turn [OF "1.prems"(2) x, of handler h]
  note heard = read_stream_message_heard [OF assms(1) "1.prems"(1) stream_messages_shape [OF assms(2)]]
  show ?case
  proof (cases x)
    case (Inl e)
    with turn "1.prems"(3) show ?thesis by (intro exI [of _ "[]"]) (auto simp: handled_def)
  next
    case (Inr y)
    show ?thesis
    proof (cases y)
      case (CloseMessage close)
      with heard x Inr assms(2) have "evs = []" "closes = [BrokerClose (fst close) (snd close)]"
        by (auto simp: closes_with_def append_eq_Cons_conv)
      with turn "1.prems"(3) Inr CloseMessage show ?thesis by (auto simp: handled_def)
    next
      case (EventMessage e)
      with heard x Inr obtain ms' where "map BrokerEvent evs @ closes = BrokerEvent e # ms'" "spoken json ms' (incoming r)" by auto
      with assms(2) obtain evs' where evs: "evs = e # evs'" "spoken json (map BrokerEvent evs' @ closes) (incoming r)"
        by (cases evs) (auto simp: closes_with_def)
      obtain hr h1 where hr: "handler e h = (hr, h1)" by fastforce
      show ?thesis
      proof (cases hr)
        case (Inl t)
        with turn "1.prems"(3) Inr EventMessage hr evs(1) show ?thesis
          by (intro exI [of _ "[e]"]) (auto simp: handled_def)
      next
        case (Inr u)
        with turn "1.prems"(3) \<open>x = Ok y\<close> EventMessage hr have "handle_events cj handler (es\<lparr>es_reader := r\<rparr>) h1 = (out, h')" by simp
        with "1.IH" [rule_format, of evs' "es\<lparr>es_reader := r\<rparr>" h1] evs "1.prems"(2) obtain heard where
          "prefix heard evs'" "h' = handled handler heard h1"
          "\<forall>close. out = Ok close \<longrightarrow> heard = evs' \<and> closes = [BrokerClose (fst close) (snd close)]" by auto
        with evs(1) hr show ?thesis by (intro exI [of _ "e # heard"]) (auto simp: handled_def)
      qed
    qed
  qed
qed

lemma read_stream_message_complete:
  assumes "codecs_agree json cj" and "framed json (message_heard x)"
    and "incoming r = plugin_frame (message_to_vec json) (message_heard x) @ rest"
  shows "\<exists>r'. read_stream_message cj r = (Ok x, r') \<and> incoming r' = rest"
proof -
  from assms(2) obtain p where p: "message_to_vec json (message_heard x) = Some p" "length p \<le> unat MAX_JSON_FRAME_BYTES"
    "plugin_frame (message_to_vec json) (message_heard x) = to_be_bytes (of_nat (length p)) @ p"
    by (auto simp: framed_plugin_frame)
  with assms(3) script.read_payload_complete [OF _ _ p(2), of r rest] obtain r' where
    "read_payload stream_read r = (Ok (Some p), r')" "incoming r' = rest" by auto
  with stream_message_round_trip [OF assms(1) p(1)] show ?thesis by (auto simp: read_stream_message_def)
qed

lemma handle_events_complete:
  assumes "codecs_agree json cj"
  shows "\<lbrakk>list_all (framed json) (map BrokerEvent evs @ [BrokerClose n t]);
      incoming (es_reader es) = frames_of json (map BrokerEvent evs @ [BrokerClose n t]); \<not> es_terminated es;
      \<And>e h. e \<in> set evs \<Longrightarrow> fst (handler e h) = Ok ()\<rbrakk>
    \<Longrightarrow> fst (handle_events cj handler es h) = Ok (n, t)"
proof (induction evs arbitrary: es h)
  case Nil
  then obtain r where "read_stream_message cj (es_reader es) = (Ok (CloseMessage (n, t)), r)"
    using read_stream_message_complete [OF assms, of "CloseMessage (n, t)" "es_reader es" "[]"] by auto
  with Nil show ?case by (simp add: handle_events_turn)
next
  case (Cons e evs)
  then obtain r where r: "read_stream_message cj (es_reader es) = (Ok (EventMessage e), r)"
    "incoming r = frames_of json (map BrokerEvent evs @ [BrokerClose n t])"
    using read_stream_message_complete [OF assms, of "EventMessage e" "es_reader es"] by auto
  obtain h1 where "handler e h = (Ok (), h1)" using Cons.prems(4) [of e h] by (metis list.set_intros(1) prod.collapse)
  with Cons.IH [of "es\<lparr>es_reader := r\<rparr>" h1] r Cons.prems show ?case by (simp add: handle_events_turn)
qed

section \<open>Both sides together\<close>

lemma client_handshake_sound:
  assumes "codecs_agree json cj" and "session_messages turns ms" and "spoken json ms (incoming (rd_side c))"
    and "client_handshake cj plugin_id c = (Ok (), c')"
  shows "spoken json (event_messages turns) (incoming (rd_side c'))"
proof -
  from assms(4) obtain payload version where
    r: "read_payload stream_read (rd_side c) = (Ok (Some payload), rd_side c')"
    and v: "handshake_response_from_slice cj payload = Some (Accepted version)"
    by (auto simp: client_handshake_def split: prod.splits sum.splits option.splits handshake_response.splits)
  from spoken_payload [OF assms(3) r] obtain m ms' where
    m: "ms = m # ms'" "message_to_vec json m = Some payload" "spoken json ms' (incoming (rd_side c'))" by blast
  have "m \<noteq> BrokerError n t" for n t
    using assms(1) m(2) v by (auto simp: codecs_agree_def handshake_response_from_slice_def)
  with assms(2) m(1,3) show ?thesis by (auto simp: session_messages_def)
qed

lemma client_handshake_complete:
  assumes "codecs_agree json cj" and "framed json (BrokerHello version)"
    and "incoming (rd_side c) = plugin_frame (message_to_vec json) (BrokerHello version) @ rest"
    and "fst (write_json (plugin_hello_to_vec cj) (plugin_hello_new plugin_id) (wr_side c)) = Ok ()"
  shows "\<exists>c'. client_handshake cj plugin_id c = (Ok (), c') \<and> incoming (rd_side c') = rest"
proof -
  from assms(2) obtain p where p: "message_to_vec json (BrokerHello version) = Some p" "length p \<le> unat MAX_JSON_FRAME_BYTES"
    "plugin_frame (message_to_vec json) (BrokerHello version) = to_be_bytes (of_nat (length p)) @ p"
    by (auto simp: framed_plugin_frame)
  with assms(3) script.read_payload_complete [OF _ _ p(2), of "rd_side c" rest] obtain r where
    "read_payload stream_read (rd_side c) = (Ok (Some p), r)" "incoming r = rest" by auto
  moreover obtain w where "write_json (plugin_hello_to_vec cj) (plugin_hello_new plugin_id) (wr_side c) = (Ok (), w)"
    using assms(4) by (metis prod.collapse)
  moreover have "handshake_response_from_slice cj p = Some (Accepted version)"
    using assms(1) p(1) by (auto simp: codecs_agree_def handshake_response_from_slice_def)
  ultimately show ?thesis by (simp add: client_handshake_def)
qed

text \<open>A session that ends without an error has closed its stream.\<close>

lemma stream_events_closed:
  "stream_events json turns s = (Some (Ok ()), s') \<Longrightarrow> \<exists>evs n t. event_messages turns = map BrokerEvent evs @ [BrokerClose n t]"
proof (induction json turns s rule: stream_events.induct)
  case (2 json gone val turns s)
  then show ?case
    by (cases "gone \<or> val") (auto simp: broker_close_new_def intro: exI [of _ "[]"])
next
  case (3 json received turns s)
  show ?case
  proof (cases received)
    case (Received e)
    obtain r s1 where w: "session_write json (BrokerEvent e) s = (r, s1)" by fastforce
    then have h: "handle_event json received s = (map_sum id (\<lambda>_. StreamContinue) r, s1)"
      by (simp add: handle_event_def Received)
    with "3.prems" obtain u where "r = Ok u" by (cases r) auto
    with h "3.prems" "3.IH" [OF h [symmetric]] obtain evs n t where
      "event_messages turns = map BrokerEvent evs @ [BrokerClose n t]" by auto
    with Received show ?thesis by (intro exI [of _ "e # evs"] exI [of _ n] exI [of _ t]) simp
  qed (auto simp: broker_close_new_def intro: exI [of _ "[]"])
qed simp

lemma accepted_session_closed:
  assumes "plugin_session_run json hs turns s = (Some (Ok ()), s')"
    and "plugin_handshake json hs s = (Some (Ok (Some i)), s1)"
    and "written (wr_side s') = written (wr_side s) @ sent"
  obtains evs n t where "event_messages turns = map BrokerEvent evs @ [BrokerClose n t]"
    "framed json (BrokerHello PluginV1)" "list_all (framed json) (event_messages turns)"
    "sent = plugin_frame (message_to_vec json) (BrokerHello PluginV1) @ frames_of json (event_messages turns)"
proof -
  have "stream_events json turns s1 = (Some (Ok ()), s')" using assms(1,2) by (simp add: plugin_session_run_def)
  with stream_events_closed obtain evs n t where "event_messages turns = map BrokerEvent evs @ [BrokerClose n t]" by blast
  with that accepted_session_says [OF assms(1,2)] assms(3) show ?thesis by (auto simp: says_def)
qed

lemma plugin_client_sound:
  assumes "codecs_agree json cj"
    and "plugin_session_run json hs turns s = (res, s')" and "written (wr_side s') = written (wr_side s) @ sent"
    and "\<And>endpoint c. transport_connect endpoint = Ok c \<Longrightarrow> prefix (incoming (rd_side c)) sent"
    and "broker_plugin_run cj env transport_connect p d handler h = (out, h', d')"
  shows "\<exists>heard. prefix heard (received_events turns) \<and> h' = handled handler heard h
      \<and> (\<forall>n t. out = Ok (n, t) \<longrightarrow> event_messages turns = map BrokerEvent heard @ [BrokerClose n t])"
proof (cases "plugin_connect cj env transport_connect p d")
  case (Pair x d1)
  show ?thesis
  proof (cases x)
    case (Inl e)
    with Pair assms(5) show ?thesis by (intro exI [of _ "[]"]) (auto simp: broker_plugin_run_def handled_def)
  next
    case (Inr es)
    with Pair obtain endpoint c c' where c: "transport_connect endpoint = Ok c"
      "client_handshake cj (bp_plugin_id p) c = (Ok (), c')" "es = agent_event_stream_new c'"
      by (auto simp: plugin_connect_def split: prod.splits sum.splits)
    from plugin_session_spoken [OF assms(2,3)] obtain ms where ms: "session_messages turns ms" "spoken json ms sent" by blast
    from client_handshake_sound [OF assms(1) ms(1) spoken_prefix [OF ms(2) assms(4) [OF c(1)]] c(2)]
    have sp: "spoken json (event_messages turns) (incoming (es_reader es))" by (simp add: c(3) agent_event_stream_new_def)
    from event_messages_shape [of turns] obtain evs closes where
      e: "event_messages turns = map BrokerEvent evs @ closes" "prefix evs (received_events turns)" "closes_with closes"
      by (auto simp: closes_with_def)
    have "handle_events cj handler es h = (out, h')" "\<not> es_terminated es"
      using assms(5) Pair Inr c(3) by (auto simp: broker_plugin_run_def agent_event_stream_new_def split: prod.splits)
    from handle_events_sound [OF assms(1) e(3) sp [unfolded e(1)] this(2,1)] obtain heard where
      "prefix heard evs" "h' = handled handler heard h"
      "\<forall>close. out = Ok close \<longrightarrow> heard = evs \<and> closes = [BrokerClose (fst close) (snd close)]" by blast
    with e show ?thesis by (intro exI [of _ heard]) (auto intro: prefix_order.trans)
  qed
qed

lemma plugin_client_complete:
  assumes "codecs_agree json cj"
    and "plugin_session_run json hs turns s = (res, s')" and "written (wr_side s') = written (wr_side s) @ sent"
    and "broker_plugin_run cj env transport_connect p d handler h = (out, h', d')"
    and "res = Some (Ok ())" and "plugin_handshake json hs s = (Some (Ok (Some i)), s1)"
    and "fst (resolve_endpoint cj env p d) = Ok endpoint" and "transport_connect endpoint = Ok c"
    and "incoming (rd_side c) = sent"
    and "fst (write_json (plugin_hello_to_vec cj) (plugin_hello_new (bp_plugin_id p)) (wr_side c)) = Ok ()"
    and "\<forall>e h. fst (handler e h) = Ok ()"
  shows "\<exists>n t. out = Ok (n, t)"
proof -
  from accepted_session_closed [OF assms(2) [unfolded assms(5)] assms(6,3)] obtain evs n t where
    m: "event_messages turns = map BrokerEvent evs @ [BrokerClose n t]" "framed json (BrokerHello PluginV1)"
    "list_all (framed json) (event_messages turns)"
    "sent = plugin_frame (message_to_vec json) (BrokerHello PluginV1) @ frames_of json (event_messages turns)" .
  from client_handshake_complete [OF assms(1) m(2) _ assms(10)] assms(9) m(4) obtain c' where
    c': "client_handshake cj (bp_plugin_id p) c = (Ok (), c')" "incoming (rd_side c') = frames_of json (event_messages turns)"
    by auto
  obtain d1 where "resolve_endpoint cj env p d = (Ok endpoint, d1)" using assms(7) by (metis prod.collapse)
  with c'(1) assms(8) have "plugin_connect cj env transport_connect p d = (Ok (agent_event_stream_new c'), d1)"
    by (simp add: plugin_connect_def)
  with assms(4) have "out = fst (handle_events cj handler (agent_event_stream_new c') h)"
    by (auto simp: broker_plugin_run_def split: prod.splits)
  moreover have "fst (handle_events cj handler (agent_event_stream_new c') h) = Ok (n, t)"
    using handle_events_complete [OF assms(1), of evs n t "agent_event_stream_new c'" handler h] m c'(2) assms(11)
    by (simp add: agent_event_stream_new_def)
  ultimately show ?thesis by simp
qed

text \<open>
  Whatever the broker's session and the client's stream go through, the handler of a plugin gets events the session
  received from the broadcast, in their order and without a gap from the first one, even if the stream is cut inside a
  frame. The client reports a deliberate close only when the session has sent exactly these events and then that
  close. And it does report it when the session accepted the plugin and ended without an error, all its bytes arrive
  and the handler succeeds.
\<close>

theorem plugin_events_delivered:
  assumes "codecs_agree json cj"
    and "plugin_session_run json hs turns s = (res, s')" and "written (wr_side s') = written (wr_side s) @ sent"
    and "\<And>endpoint c. transport_connect endpoint = Ok c \<Longrightarrow> prefix (incoming (rd_side c)) sent"
    and "broker_plugin_run cj env transport_connect p d handler h = (out, h', d')"
  shows "(\<exists>heard. prefix heard (received_events turns) \<and> h' = handled handler heard h
      \<and> (\<forall>n t. out = Ok (n, t) \<longrightarrow> event_messages turns = map BrokerEvent heard @ [BrokerClose n t]))
    \<and> (res = Some (Ok ()) \<and> (\<exists>i s1. plugin_handshake json hs s = (Some (Ok (Some i)), s1))
       \<and> (\<exists>endpoint c. fst (resolve_endpoint cj env p d) = Ok endpoint \<and> transport_connect endpoint = Ok c
            \<and> incoming (rd_side c) = sent
            \<and> fst (write_json (plugin_hello_to_vec cj) (plugin_hello_new (bp_plugin_id p)) (wr_side c)) = Ok ())
       \<and> (\<forall>e h. fst (handler e h) = Ok ())
       \<longrightarrow> (\<exists>n t. out = Ok (n, t)))"
proof (intro conjI impI)
  show "\<exists>heard. prefix heard (received_events turns) \<and> h' = handled handler heard h
      \<and> (\<forall>n t. out = Ok (n, t) \<longrightarrow> event_messages turns = map BrokerEvent heard @ [BrokerClose n t])"
    using plugin_client_sound [OF assms] .
qed (use plugin_client_complete [OF assms(1-3,5)] in blast)

text \<open>A codec for one-byte events, a session that hears one of them before it shuts down, and its reader.\<close>

fun demo_to_vec :: "byte broker_message \<Rightarrow> bytes option" where
  "demo_to_vec (BrokerHello v) = Some ''H''"
| "demo_to_vec (BrokerError n t) = Some (CHR ''R'' # to_be_bytes n @ t)"
| "demo_to_vec (BrokerClose n t) = Some (CHR ''C'' # to_be_bytes n @ t)"
| "demo_to_vec (BrokerEvent e) = Some [CHR ''E'', e]"

definition demo_tagged :: "byte \<Rightarrow> bytes \<Rightarrow> (u32 \<times> string) option" where
  "demo_tagged tag p =
     (case p of b # q \<Rightarrow> if b = tag then Some (from_be_bytes (take 4 q), drop 4 q) else None | [] \<Rightarrow> None)"

definition demo_plugin_json :: "byte plugin_json" where
  "demo_plugin_json =
     \<lparr>message_to_vec = demo_to_vec,
      hello_from_slice = (\<lambda>p. Ok \<lparr>hello_protocol_version = 1, hello_plugin_id = p\<rparr>)\<rparr>"

definition demo_client_json :: "byte client_json" where
  "demo_client_json =
     \<lparr>plugin_hello_to_vec = (\<lambda>m. Some (hello_plugin_id m)),
      broker_hello_from_slice = (\<lambda>p. if p = ''H'' then Some PluginV1 else None),
      broker_error_from_slice = demo_tagged CHR ''R'',
      agent_event_from_slice = (\<lambda>p. case p of [b, e] \<Rightarrow> if b = CHR ''E'' then Some e else None | _ \<Rightarrow> None),
      broker_close_from_slice = demo_tagged CHR ''C'',
      startup_info_from_slice = Some\<rparr>"

definition demo_turns :: "byte stream_turn list" where
  "demo_turns = [StreamReceived (Received CHR ''a''), StreamShutdown False True]"

definition demo_session :: "(plugin_frame_error, unit) result option \<times> duplex" where
  "demo_session =
     plugin_session_run demo_plugin_json [HandshakeRead False] demo_turns
       \<lparr>rd_side = [Got (to_be_bytes 1), Got ''p''], wr_side = open_writer\<rparr>"

definition demo_sent :: bytes where
  "demo_sent = frames_of demo_plugin_json (BrokerHello PluginV1 # event_messages demo_turns)"

text \<open>The client's stream delivers these bytes in two pieces.\<close>

definition demo_client_stream :: duplex where
  "demo_client_stream = \<lparr>rd_side = [Got (take 7 demo_sent), Got (drop 7 demo_sent)], wr_side = open_writer\<rparr>"

lemma demo_codecs_agree: "codecs_agree demo_plugin_json demo_client_json"
proof -
  have "PluginV1 = v" for v by (cases v) simp
  then show ?thesis by (simp add: codecs_agree_def demo_plugin_json_def demo_client_json_def demo_tagged_def)
      (simp add: to_be_bytes_def Let_def fun_eq_iff)
qed

lemma session_write_open:
  assumes "framed json m" and "write_steps (wr_side s) = []"
  shows "session_write json m s
    = (Ok (), s\<lparr>wr_side := (wr_side s)\<lparr>written := written (wr_side s) @ plugin_frame (message_to_vec json) m\<rparr>\<rparr>)"
proof -
  from assms(1) obtain p where p: "message_to_vec json m = Some p" "length p \<le> unat MAX_JSON_FRAME_BYTES"
    "plugin_frame (message_to_vec json) m = to_be_bytes (of_nat (length p)) @ p" by (auto simp: framed_plugin_frame)
  then have "length p < 2 ^ 32" using u32_lt [of MAX_JSON_FRAME_BYTES] by simp
  then have "u32_try_from (length p) = Some (of_nat (length p))" "unat (of_nat (length p) :: u32) = length p"
    by (simp_all add: u32_try_from_def unat_of_nat)
  moreover from this(2) p(2) have "validate_payload_length (of_nat (length p)) = Ok ()"
    by (simp only: validate_payload_length_Ok)
  ultimately show ?thesis using p assms(2) by (simp add: session_write_def write_json_def write_all_willing)
qed

lemma demo_framed: "list_all (framed demo_plugin_json) (BrokerHello PluginV1 # event_messages demo_turns)"
  by (simp add: framed_def demo_plugin_json_def demo_turns_def broker_close_new_def MAX_JSON_FRAME_BYTES_def)

lemma demo_session_result:
  "\<exists>s1 s'. plugin_handshake demo_plugin_json [HandshakeRead False]
        \<lparr>rd_side = [Got (to_be_bytes 1), Got ''p''], wr_side = open_writer\<rparr> = (Some (Ok (Some ''p'')), s1)
     \<and> demo_session = (Some (Ok ()), s') \<and> written (wr_side s') = demo_sent"
proof -
  let ?s = "\<lparr>rd_side = [Got (to_be_bytes 1), Got ''p''], wr_side = open_writer\<rparr>"
  have ne: "to_be_bytes 1 \<noteq> []" using to_be_bytes_length [of 1] by (metis list.size(3) zero_neq_numeral)
  from script.read_payload_complete [of "rd_side ?s" "''p''" "[]"] ne obtain r where
    "read_payload stream_read (rd_side ?s) = (Ok (Some ''p''), r)" by (auto simp: MAX_JSON_FRAME_BYTES_def)
  moreover have "hello_from_slice demo_plugin_json ''p'' = Ok \<lparr>hello_protocol_version = 1, hello_plugin_id = ''p''\<rparr>"
    by (simp add: demo_plugin_json_def)
  moreover have "valid_plugin_id ''p''" by code_simp
  ultimately have h: "plugin_handshake demo_plugin_json [HandshakeRead False] ?s
      = (Some (Ok (Some ''p'')), ?s\<lparr>rd_side := r,
           wr_side := open_writer\<lparr>written := plugin_frame (message_to_vec demo_plugin_json) (BrokerHello PluginV1)\<rparr>\<rparr>)"
    using demo_framed
    by (simp add: plugin_handshake_def accept_hello_def plugin_version_try_from_def session_write_open open_writer_def)
  with demo_framed show ?thesis
    by (simp add: demo_session_def plugin_session_run_def demo_turns_def handle_event_def session_close_def
        session_write_open demo_sent_def open_writer_def)
qed

theorem plugin_events_delivered_witness:
  "\<exists>n t d'. broker_plugin_run demo_client_json (\<lambda>_. None) (\<lambda>_. Ok demo_client_stream)
      (with_endpoint ''/run/plugin'' (broker_plugin_new ''p'')) \<lparr>dk_files = (\<lambda>_. None), dk_faults = [], dk_trace = []\<rparr>
      (\<lambda>e h. (Ok (), h @ [e])) [] = (Ok (n, t), ''a'', d')"
proof -
  let ?p = "with_endpoint ''/run/plugin'' (broker_plugin_new ''p'')"
  let ?d = "\<lparr>dk_files = (\<lambda>_. None), dk_faults = [], dk_trace = []\<rparr>"
  let ?handler = "\<lambda>e h. (Ok (), h @ [e])"
  from demo_session_result obtain s1 s' where s: "plugin_handshake demo_plugin_json [HandshakeRead False]
        \<lparr>rd_side = [Got (to_be_bytes 1), Got ''p''], wr_side = open_writer\<rparr> = (Some (Ok (Some ''p'')), s1)"
    "demo_session = (Some (Ok ()), s')" "written (wr_side s') = demo_sent" by blast
  have long: "7 < length demo_sent"
    by (simp add: demo_sent_def plugin_frame_def demo_plugin_json_def demo_turns_def MAX_JSON_FRAME_BYTES_def broker_close_new_def)
  then have sent: "incoming (rd_side demo_client_stream) = demo_sent" by (auto simp: demo_client_stream_def)
  have hello: "fst (write_json (plugin_hello_to_vec demo_client_json) (plugin_hello_new ''p'') (wr_side demo_client_stream)) = Ok ()"
    by (simp add: write_json_def demo_client_json_def plugin_hello_new_def u32_try_from_def validate_payload_length_def
        MAX_JSON_FRAME_BYTES_def demo_client_stream_def write_all_willing open_writer_def)
  obtain out h' d' where run: "broker_plugin_run demo_client_json (\<lambda>_. None) (\<lambda>_. Ok demo_client_stream) ?p ?d ?handler []
      = (out, h', d')" by (metis prod_cases3)
  note delivered = plugin_events_delivered [OF demo_codecs_agree s(2) [unfolded demo_session_def] _ _ run, of demo_sent]
  have "\<exists>heard n t. h' = handled ?handler heard [] \<and> out = Ok (n, t)
      \<and> event_messages demo_turns = map BrokerEvent heard @ [BrokerClose n t]"
    using delivered s(1,3) sent hello
    by (fastforce simp: resolve_endpoint_def with_endpoint_def broker_plugin_new_def)
  then show ?thesis using run
    by (auto simp: demo_turns_def broker_close_new_def handled_def Cons_eq_append_conv map_eq_Cons_conv)
qed

end
