(* ===== verification/Broker_Startup.thy ===== *)
theory Broker_Startup
  imports Staged_File Plugin_Client Target_Authority Http_Types
begin

text \<open>
  What the broker leaves on disk for its clients: the startup information (\<^verbatim>\<open>crates/abyss-broker/src/startup_info.rs\<close>) and the
  bearer token of its API (\<^verbatim>\<open>auth.rs\<close>), with the check of that token (\<^verbatim>\<open>AuthState::authorize\<close> of \<^verbatim>\<open>api.rs\<close>). \<open>mode\<close> is
  the mode of a new file under the process's umask; the process id, the random bytes and \<^verbatim>\<open>serde_json\<close> are parameters.
\<close>

section \<open>Startup information\<close>

datatype startup_error = StartupIo string io_kind | StartupSerialize

record startup_info =
  si_api_addr :: socket_addr
  si_auth_token_file :: bytes
  si_plugin_endpoint :: bytes
  si_pid :: u32

record startup_info_file =
  sf_api_addr :: bytes
  sf_auth_token_file :: bytes
  sf_plugin_endpoint :: bytes
  sf_pid :: u32

definition startup_info_new :: "u32 \<Rightarrow> socket_addr \<Rightarrow> bytes \<Rightarrow> bytes \<Rightarrow> startup_info" where
  "startup_info_new pid api_addr auth_token_file plugin_endpoint =
     \<lparr>si_api_addr = api_addr, si_auth_token_file = auth_token_file, si_plugin_endpoint = plugin_endpoint, si_pid = pid\<rparr>"

text \<open>\<^verbatim>\<open>SocketAddr::to_string\<close>.\<close>

definition show_socket_addr :: "socket_addr \<Rightarrow> bytes" where
  "show_socket_addr a = show_target_host (Ip (sa_ip a)) @ '':'' @ show_nat (unat (sa_port a))"

definition startup_payload :: "startup_info \<Rightarrow> startup_info_file" where
  "startup_payload info =
     \<lparr>sf_api_addr = show_socket_addr (si_api_addr info), sf_auth_token_file = from_utf8_lossy (si_auth_token_file info),
      sf_plugin_endpoint = si_plugin_endpoint info, sf_pid = si_pid info\<rparr>"

text \<open>\<^verbatim>\<open>Path::with_file_name\<close>.\<close>

definition with_file_name :: "bytes \<Rightarrow> bytes \<Rightarrow> bytes" where
  "with_file_name p name =
     (case path_file_name p of
        None \<Rightarrow> path_join p name
      | Some _ \<Rightarrow> path_join (case path_parent p of None \<Rightarrow> [] | Some parent \<Rightarrow> parent) name)"

definition startup_temporary_path :: "u32 \<Rightarrow> bytes \<Rightarrow> bytes" where
  "startup_temporary_path pid path =
     (let file_name = (case path_file_name path of
          Some name \<Rightarrow> if utf8_valid name then name else ''startup-info.json''
        | None \<Rightarrow> ''startup-info.json'')
      in with_file_name path (''.'' @ file_name @ ''.'' @ show_nat (unat pid) @ ''.tmp''))"

definition write_startup_file :: "nat \<Rightarrow> bytes \<Rightarrow> bytes \<Rightarrow> disk \<Rightarrow> (startup_error, unit) result \<times> disk" where
  "write_startup_file mode path body d =
     fs_then (fs_err (StartupIo ''create broker startup info file'') (fs_create_truncate path mode d)) (\<lambda>d.
     fs_then (fs_err (StartupIo ''write broker startup info file'') (fs_write_all path body d)) (\<lambda>d.
     fs_then (fs_err (StartupIo ''finish broker startup info file'') (fs_write_all path [CHR 0x0A] d)) (\<lambda>d.
       fs_err (StartupIo ''sync broker startup info file'') (fs_sync d))))"

text \<open>\<^verbatim>\<open>create_dir_all\<close> for the directory of a file, where it has one.\<close>

definition create_startup_parent :: "bytes \<Rightarrow> disk \<Rightarrow> (startup_error, unit) result \<times> disk" where
  "create_startup_parent path d =
     (case path_parent path of
        Some parent \<Rightarrow>
          if parent \<noteq> [] then fs_err (StartupIo ''create broker startup info directory'') (fs_sync d) else (Ok (), d)
      | None \<Rightarrow> (Ok (), d))"

definition startup_write_to ::
  "(startup_info_file \<Rightarrow> bytes option) \<Rightarrow> u32 \<Rightarrow> nat \<Rightarrow> startup_info \<Rightarrow> bytes \<Rightarrow> disk
   \<Rightarrow> (startup_error, unit) result \<times> disk" where
  "startup_write_to to_vec_pretty pid mode info path d =
     fs_then (create_startup_parent path d) (\<lambda>d.
       case to_vec_pretty (startup_payload info) of
         None \<Rightarrow> (Err StartupSerialize, d)
       | Some body \<Rightarrow>
           (let temporary = startup_temporary_path pid path in
            case fs_then (write_startup_file mode temporary body d) (\<lambda>d.
                   fs_err (StartupIo ''replace broker startup info file'') (fs_rename temporary path d)) of
              (Ok u, d') \<Rightarrow> (Ok u, d')
            | (Err e, d') \<Rightarrow> (Err e, snd (fs_remove_file temporary d'))))"

section \<open>The bearer token\<close>

definition TOKEN_BYTES :: nat where
  "TOKEN_BYTES = 32"

definition encode_hex :: "bytes \<Rightarrow> bytes" where
  "encode_hex bs = concat (map (\<lambda>b. [hex_digit (code b div 16), hex_digit (code b mod 16)]) bs)"

text \<open>\<open>random\<close> is what \<^verbatim>\<open>rand::rng().fill_bytes\<close> yields.\<close>

definition generate_token :: "(nat \<Rightarrow> byte) \<Rightarrow> bytes" where
  "generate_token random = encode_hex (map random [0..<TOKEN_BYTES])"

record auth_token_file =
  at_path :: bytes
  at_token :: bytes

definition remove_token_file :: "bytes \<Rightarrow> disk \<Rightarrow> disk" where
  "remove_token_file path d = snd (fs_remove_file path d)"

definition write_token_file :: "nat \<Rightarrow> bytes \<Rightarrow> bytes \<Rightarrow> disk \<Rightarrow> (startup_error, unit) result \<times> disk" where
  "write_token_file mode path token d =
     fs_then
       (case path_parent path of
          Some parent \<Rightarrow> fs_err (StartupIo ''create broker auth token directory'') (fs_sync d)
        | None \<Rightarrow> (Ok (), d)) (\<lambda>d.
       case fs_then (fs_err (StartupIo ''create broker auth token file'') (fs_create_truncate path mode d)) (\<lambda>d.
            fs_then (fs_err (StartupIo ''write broker auth token file'') (fs_write_all path token d)) (\<lambda>d.
              fs_err (StartupIo ''flush broker auth token file'') (fs_sync d))) of
         (Ok u, d') \<Rightarrow> (Ok u, d')
       | (Err e, d') \<Rightarrow> (Err e, remove_token_file path d'))"

definition auth_token_create ::
  "(nat \<Rightarrow> byte) \<Rightarrow> nat \<Rightarrow> bytes \<Rightarrow> disk \<Rightarrow> (startup_error, auth_token_file) result \<times> disk" where
  "auth_token_create random mode path d =
     (let token = generate_token random in
      case write_token_file mode path token d of
        (Err e, d') \<Rightarrow> (Err e, d')
      | (Ok _, d') \<Rightarrow> (Ok \<lparr>at_path = path, at_token = token\<rparr>, d'))"

text \<open>The wrapped work returns a value or panics (\<^verbatim>\<open>Inl\<close>); the panic goes on after the cleanup.\<close>

definition run_with_cleanup :: "auth_token_file \<Rightarrow> (disk \<Rightarrow> ('p + 'a) \<times> disk) \<Rightarrow> disk \<Rightarrow> ('p + 'a) \<times> disk" where
  "run_with_cleanup t work d = (case work d of (outcome, d') \<Rightarrow> (outcome, remove_token_file (at_path t) d'))"

definition sanitize_socket_addr :: "socket_addr \<Rightarrow> bytes" where
  "sanitize_socket_addr a = map (\<lambda>c. if is_ascii_alphanumeric c then c else CHR ''_'') (show_socket_addr a)"

definition broker_runtime_dir :: "(string \<Rightarrow> bytes option) \<Rightarrow> bytes \<Rightarrow> bytes" where
  "broker_runtime_dir env abyss_home =
     (case env ''ABYSS_BROKER_RUNTIME_DIR'' of None \<Rightarrow> path_join abyss_home ''runtime'' | Some dir \<Rightarrow> dir)"

definition default_auth_token_file :: "(string \<Rightarrow> bytes option) \<Rightarrow> bytes \<Rightarrow> socket_addr \<Rightarrow> bytes" where
  "default_auth_token_file env abyss_home api_addr =
     path_join (broker_runtime_dir env abyss_home) (''broker-'' @ sanitize_socket_addr api_addr @ ''.token'')"

text \<open>\<open>False\<close> is \<^verbatim>\<open>BrokerError::unauthorized\<close>; \<^verbatim>\<open>ct_eq\<close> is equality of the bytes.\<close>

definition authorize :: "bytes \<Rightarrow> headers \<Rightarrow> bool" where
  "authorize bearer_token hs =
     (case header_get hs ''authorization'' of
        None \<Rightarrow> False
      | Some header \<Rightarrow>
          (case hv_str header of
             None \<Rightarrow> False
           | Some v \<Rightarrow> take 7 v = ''Bearer '' \<and> drop 7 v = bearer_token))"

section \<open>Replacing the startup information\<close>

interpretation startup_stage: newline_stage "write_startup_file mode temporary body" temporary body mode
  "StartupIo ''create broker startup info file''" "StartupIo ''write broker startup info file''"
  "StartupIo ''finish broker startup info file''" "StartupIo ''sync broker startup info file''" for mode temporary body
  by unfold_locales (rule write_startup_file_def)

lemma startup_temporary_ne: "startup_temporary_path pid path \<noteq> path"
proof
  assume same: "startup_temporary_path pid path = path"
  define file_name where "file_name = (case path_file_name path of
      Some name \<Rightarrow> if utf8_valid name then name else ''startup-info.json'' | None \<Rightarrow> ''startup-info.json'')"
  let ?t = "''.'' @ file_name @ ''.'' @ show_nat (unat pid) @ ''.tmp''"
  have "CHR ''/'' \<notin> set file_name"
    using file_name_ok [of path] by (auto simp: file_name_def name_ok_def part_ok_def split: option.splits)
  then have ok: "name_ok ?t"
    by (auto simp: name_ok_def part_ok_def is_ascii_digit_def code_def dest: show_nat_digits)
  define base where "base = (case path_file_name path of
      None \<Rightarrow> path | Some _ \<Rightarrow> (case path_parent path of None \<Rightarrow> [] | Some parent \<Rightarrow> parent))"
  have "startup_temporary_path pid path = path_join base ?t"
    by (simp add: startup_temporary_path_def with_file_name_def file_name_def base_def Let_def split: option.split)
  with same file_name_join [OF ok, of base] have name: "path_file_name path = Some ?t" by simp
  have choice: "file_name = (if utf8_valid n then n else ''startup-info.json'')" if "path_file_name path = Some n" for n
    using that by (simp add: file_name_def)
  show False
  proof (cases "utf8_valid ?t")
    case True
    with choice [OF name] have "length file_name = length ?t" by simp
    then show False by simp
  next
    case False
    with choice [OF name] have f: "file_name = ''startup-info.json''" by simp
    have "is_ascii ?t"
      by (auto simp: f is_ascii_def list_all_iff code_def is_ascii_digit_def dest: show_nat_digits)
    with False is_ascii_utf8_valid show False by blast
  qed
qed

text \<open>
  In every state of the disk while the startup information is written, and whatever fails, its file is the old one or the
  complete new one; it is the new one exactly when the write succeeds.
\<close>

lemma startup_write_atomic:
  assumes "startup_write_to to_vec_pretty pid mode info path d = (res, d')"
  shows "case res of
      Err e \<Rightarrow> keeps path d d'
    | Ok u \<Rightarrow> old_or_new path d d' \<and> (\<exists>body m. to_vec_pretty (startup_payload info) = Some body
        \<and> dk_files d' path = Some \<lparr>st_content = body @ [CHR 0x0A], st_mode = m\<rparr>)"
proof -
  let ?t = "startup_temporary_path pid path"
  note ne = startup_temporary_ne [of pid path]
  obtain r0 d0 where 0: "create_startup_parent path d = (r0, d0)" by fastforce
  have k0: "keeps path d d0"
    using 0 fs_keeps(1) [OF surjective_pairing, of path d] by (auto simp: create_startup_parent_def fs_err_def split: option.splits if_splits)
  show ?thesis
  proof (cases "r0 = Ok () \<and> to_vec_pretty (startup_payload info) \<noteq> None")
    case False
    then have "d' = d0 \<and> (\<exists>e. res = Err e)" using assms 0
      by (cases r0) (auto simp: startup_write_to_def fs_then_def)
    with k0 show ?thesis by auto
  next
    case True
    then obtain body where body: "to_vec_pretty (startup_payload info) = Some body" and r0: "r0 = Ok ()" by blast
    obtain r1 d1 where 1: "write_startup_file mode ?t body d0 = (r1, d1)" by fastforce
    obtain r2 d2 where 2: "fs_rename ?t path d1 = (r2, d2)" by fastforce
    note remove = fs_keeps(9) [OF surjective_pairing ne]
    show ?thesis
    proof (cases "r1 = Ok () \<and> r2 = Ok ()")
      case True
      with assms 0 1 2 body r0 have "res = Ok ()" "d' = d2"
        by (auto simp: startup_write_to_def Let_def fs_then_def fs_err_def)
      moreover from startup_stage.install_ok [OF ne] True 1 2 have
        new: "\<exists>m. dk_files d2 path = Some \<lparr>st_content = body @ [CHR 0x0A], st_mode = m\<rparr>" "old_or_new path d0 d2" by blast+
      moreover have "old_or_new path d d2"
        using new(2) k0 keeps_same [OF k0] unfolding old_or_new_def
        by (auto intro: disk_through_trans keeps_through [where R = "\<lambda>x. x = dk_files d path \<or> x = dk_files d2 path"])
      ultimately show ?thesis using body by auto
    next
      case False
      have "keeps path d0 d1" using startup_stage.stage_keeps [OF 1 ne] .
      moreover have "keeps path d0 d2" if "r1 = Ok ()" "r2 \<noteq> Ok ()"
        using that startup_stage.install_failed [OF ne 1] 2 by (cases r2) auto
      ultimately have "keeps path d d' \<and> (\<exists>e. res = Err e)"
        using assms 0 1 2 body r0 False k0 remove [of d1] remove [of d2]
        by (cases r1; cases r2) (auto simp: startup_write_to_def Let_def fs_then_def fs_err_def intro: keeps_trans)
      then show ?thesis by auto
    qed
  qed
qed

text \<open>
  The broker's startup information leads a plugin to the broker's endpoint: a client that is not configured otherwise and
  looks at the same path connects to the endpoint the broker announced.
\<close>

theorem startup_info_discovered:
  assumes "startup_write_to to_vec_pretty pid mode info path d = (Ok (), d')"
    and "\<And>body. to_vec_pretty (startup_payload info) = Some body \<Longrightarrow>
      startup_info_from_slice cj (body @ [CHR 0x0A]) = Some (sf_plugin_endpoint (startup_payload info))"
    and "bp_endpoint p = None" and "non_empty_env env ''ABYSS_BROKER_PLUGIN_ENDPOINT'' = None"
    and "startup_info_path env = Some path" and "dk_faults d' = []"
  shows "resolve_endpoint cj env p d' = (Ok (si_plugin_endpoint info), d')"
proof -
  from startup_write_atomic [OF assms(1)] obtain body m where
    "to_vec_pretty (startup_payload info) = Some body" "dk_files d' path = Some \<lparr>st_content = body @ [CHR 0x0A], st_mode = m\<rparr>"
    by auto
  with assms(2-6) show ?thesis
    by (simp add: resolve_endpoint_def read_plugin_startup_info_def fs_read_def next_fault_def startup_payload_def)
qed

section \<open>The token and its use\<close>

lemma generate_token_shape:
  "length (generate_token random) = 64 \<and> list_all is_ascii_alphanumeric (generate_token random)"
proof -
  have len: "length (encode_hex bs) = 2 * length bs" for bs by (induction bs) (simp_all add: encode_hex_def)
  have "is_ascii_alphanumeric (hex_digit n)" if "n < 16" for n
    using that by (auto simp: hex_digit_def ascii_defs of_char_of)
  moreover have "code b div 16 < 16" for b by (simp add: code_def less_mult_imp_div_less)
  ultimately have "list_all is_ascii_alphanumeric (encode_hex bs)" for bs
    by (induction bs) (simp_all add: encode_hex_def)
  with len show ?thesis by (simp add: generate_token_def TOKEN_BYTES_def)
qed

lemma authorize_iff:
  "authorize token hs \<longleftrightarrow> (\<exists>v. header_get hs ''authorization'' = Some v \<and> hv_str v = Some (''Bearer '' @ token))"
proof -
  have "take 7 v = ''Bearer '' \<and> drop 7 v = token \<longleftrightarrow> v = ''Bearer '' @ token" for v
    using append_eq_conv_conj [of "''Bearer ''" token v] by (auto simp: numeral_eq_Suc)
  then show ?thesis by (auto simp: authorize_def split: option.splits)
qed

text \<open>A token that was written is in its file; one that could not be written is removed, unless that fails too.\<close>

lemma write_token_file_ok:
  assumes "write_token_file mode path token d = (Ok u, d')"
  shows "\<exists>m. dk_files d' path = Some \<lparr>st_content = token, st_mode = m\<rparr>"
proof -
  obtain r0 d0 where 0: "(case path_parent path of
      Some parent \<Rightarrow> fs_err (StartupIo ''create broker auth token directory'') (fs_sync d) | None \<Rightarrow> (Ok (), d)) = (r0, d0)"
    by fastforce
  obtain r1 d1 where 1: "fs_create_truncate path mode d0 = (r1, d1)" by fastforce
  obtain r2 d2 where 2: "fs_write_all path token d1 = (r2, d2)" by fastforce
  from assms 0 1 2 have ok: "r1 = Ok ()" "r2 = Ok ()" "dk_files d' = dk_files d2"
    by (cases r0; cases r1; cases r2; auto simp: write_token_file_def fs_err_def fs_then_def split: sum.splits)+
  from fs_create_truncate_ok [OF 1 [unfolded ok(1)]] obtain m where
    "dk_files d1 path = Some \<lparr>st_content = [], st_mode = m\<rparr>" by auto
  from fs_write_all_ok [OF 2 [unfolded ok(2)] this] ok(3) show ?thesis by simp
qed

lemma remove_token_file_done:
  "dk_faults d = [] \<Longrightarrow> dk_files (remove_token_file path d) path = None"
  by (simp add: remove_token_file_def fs_remove_file_def next_fault_def disk_goes_def split: option.split)

text \<open>
  The token of a started broker is 64 letters and digits, it is in its file, the API accepts exactly the requests that carry it,
  and after the work, even one that panicked, the file is gone unless the disk fails.
\<close>

theorem auth_token_lifecycle:
  assumes "auth_token_create random mode path d = (Ok t, d1)" and "run_with_cleanup t work d1 = (outcome, d2)"
    and "dk_faults (snd (work d1)) = []"
  shows "length (at_token t) = 64 \<and> list_all is_ascii_alphanumeric (at_token t)
    \<and> (\<exists>m. dk_files d1 path = Some \<lparr>st_content = at_token t, st_mode = m\<rparr>)
    \<and> (authorize (at_token t) hs \<longleftrightarrow>
         (\<exists>v. header_get hs ''authorization'' = Some v \<and> hv_str v = Some (''Bearer '' @ at_token t)))
    \<and> outcome = fst (work d1) \<and> dk_files d2 path = None"
proof -
  from assms(1) have t: "t = \<lparr>at_path = path, at_token = generate_token random\<rparr>"
    "write_token_file mode path (generate_token random) d = (Ok (), d1)"
    by (auto simp: auth_token_create_def Let_def split: prod.splits sum.splits)
  from assms(2) t(1) have "outcome = fst (work d1)" "d2 = remove_token_file path (snd (work d1))"
    by (auto simp: run_with_cleanup_def split: prod.splits)
  with t generate_token_shape write_token_file_ok [OF t(2)] remove_token_file_done [OF assms(3)] authorize_iff
  show ?thesis by simp
qed

end
