(* ===== verification/Explicit_Http.thy ===== *)
theory Explicit_Http
  imports Http1
begin

text \<open>
  \<^verbatim>\<open>explicit_http.rs\<close>: decoding the first request of an explicit proxy connection (\<^verbatim>\<open>CONNECT\<close> or absolute
  form). The head's syntax is parsed by \<^verbatim>\<open>httparse\<close> (\<open>parse_head\<close>), URIs and authorities by the \<^verbatim>\<open>http\<close>
  crate (\<open>parse_uri\<close>, \<open>authority_try_from\<close>); the read loop, the Host check, the framing rules and the
  rewriting of the head are modelled here.
\<close>

section \<open>Requests\<close>

definition MAX_EXPLICIT_PROXY_HEADER_BYTES :: nat where
  "MAX_EXPLICIT_PROXY_HEADER_BYTES = 16 * 1024"

definition MAX_EXPLICIT_PROXY_HEADERS :: nat where
  "MAX_EXPLICIT_PROXY_HEADERS = 64"

record explicit_request_decoder =
  max_header_bytes :: nat
  header_timeout :: nat

record decoded_explicit_request =
  er_target :: target_authority
  er_protocol :: explicit_proxy_protocol
  er_client_prefix :: bytes

datatype explicit_error_category =
  BadRequest | RequestTimeout | CategoryHeaderTooLarge | VersionNotSupported | ConnectionIo

primrec error_category :: "explicit_request_error \<Rightarrow> explicit_error_category" where
  "error_category (HeaderTimeout t) = RequestTimeout"
| "error_category (ExplicitHeaderTooLarge l) = CategoryHeaderTooLarge"
| "error_category (TooManyHeaders l) = CategoryHeaderTooLarge"
| "error_category UnsupportedVersion = VersionNotSupported"
| "error_category (ExplicitIo k) = ConnectionIo"
| "error_category ExplicitIncompleteRequest = BadRequest"
| "error_category ExplicitParse = BadRequest"
| "error_category (ExplicitInvalidRequest r) = BadRequest"
| "error_category (InvalidTarget t r) = BadRequest"
| "error_category (InvalidHost r) = BadRequest"
| "error_category (HostMismatch e a) = BadRequest"
| "error_category (InvalidFraming r) = BadRequest"

type_synonym raw_headers = "(bytes \<times> bytes) list"

datatype httparse_error = ParseTooManyHeaders | ParseOther

type_synonym explicit_head_parser = "bytes \<Rightarrow> (httparse_error, (nat \<times> raw_request) parse_status) result"
type_synonym uri_parser = "bytes \<Rightarrow> uri option"

section \<open>Reading the head\<close>

definition find_request_head_len :: "bytes \<Rightarrow> nat option" where
  "find_request_head_len buffer =
     (case window_position (CRLF @ CRLF) buffer of
        None \<Rightarrow> None
      | Some off \<Rightarrow> if off + 4 \<le> usize_max then Some (off + 4) else None)"

function read_request_head ::
  "(nat \<Rightarrow> 's \<Rightarrow> (io_kind, bytes) result \<times> 's) \<Rightarrow> nat \<Rightarrow> bytes \<Rightarrow> 's
   \<Rightarrow> (explicit_request_error, bytes \<times> nat) result \<times> 's" where
  "read_request_head rd max_bytes buffer s =
     (case find_request_head_len buffer of
        Some head_len \<Rightarrow>
          if max_bytes < head_len then (Err (ExplicitHeaderTooLarge max_bytes), s)
          else (Ok (buffer, head_len), s)
      | None \<Rightarrow>
          if max_bytes \<le> length buffer then (Err (ExplicitHeaderTooLarge max_bytes), s)
          else
            (case rd (min (max_bytes - length buffer) HEADER_READ_CHUNK_BYTES) s of
               (Err k, s') \<Rightarrow> (Err (ExplicitIo k), s')
             | (Ok chunk, s') \<Rightarrow>
                 if chunk = [] then (Err ExplicitIncompleteRequest, s')
                 else read_request_head rd max_bytes (buffer @ chunk) s'))"
  by pat_completeness auto
termination
  by (relation "measure (\<lambda>(rd, m, buffer, s). m - length buffer)") (auto intro!: diff_less_mono2)

declare read_request_head.simps [simp del]

section \<open>Header checks\<close>

definition has_header :: "raw_headers \<Rightarrow> bytes \<Rightarrow> bool" where
  "has_header hs expected \<longleftrightarrow> list_ex (\<lambda>h. eq_ignore_ascii_case (fst h) expected) hs"

definition headers_named :: "raw_headers \<Rightarrow> bytes \<Rightarrow> bytes list" where
  "headers_named hs name = map snd (filter (\<lambda>h. eq_ignore_ascii_case (fst h) name) hs)"

definition validate_matching_host ::
  "authority_parser \<Rightarrow> raw_headers \<Rightarrow> target_authority \<Rightarrow> u16 \<Rightarrow> (explicit_request_error, unit) result" where
  "validate_matching_host authority_try_from hs target host_default_port =
     (case headers_named hs ''host'' of
        [] \<Rightarrow> Err (InvalidHost ''HTTP/1.1 requires exactly one Host header'')
      | value # rest \<Rightarrow>
          if rest \<noteq> [] then Err (InvalidHost ''multiple Host headers are not allowed'')
          else if \<not> utf8_valid value then Err (InvalidHost ''Host must be valid ASCII'')
          else
            let raw_host = str_trim value
            in if raw_host = [] then Err (InvalidHost ''Host must not be empty'')
               else (case parse_target_authority authority_try_from raw_host (Some host_default_port) of
                       Err _ \<Rightarrow> Err (InvalidHost ''Host must contain a valid authority'')
                     | Ok declared \<Rightarrow>
                         if declared \<noteq> target then Err (HostMismatch (show_authority target) raw_host)
                         else Ok ()))"

fun content_length_values :: "nat option \<Rightarrow> bytes list \<Rightarrow> (explicit_request_error, nat option) result" where
  "content_length_values parsed [] = Ok parsed"
| "content_length_values parsed (v # vs) =
     (if \<not> utf8_valid v then Err (InvalidFraming ''Content-Length must be valid ASCII'')
      else
        (case parse_usize (str_trim v) of
           None \<Rightarrow> Err (InvalidFraming ''Content-Length must be a nonnegative decimal integer'')
         | Some n \<Rightarrow>
             if (case parsed of None \<Rightarrow> False | Some previous \<Rightarrow> previous \<noteq> n)
             then Err (InvalidFraming ''conflicting Content-Length headers are not allowed'')
             else content_length_values (Some n) vs))"

definition parse_content_length :: "raw_headers \<Rightarrow> (explicit_request_error, nat option) result" where
  "parse_content_length hs = content_length_values None (headers_named hs ''content-length'')"

definition validate_connect_framing :: "raw_headers \<Rightarrow> (explicit_request_error, unit) result" where
  "validate_connect_framing hs =
     (if has_header hs ''transfer-encoding''
      then Err (InvalidFraming ''CONNECT must not use Transfer-Encoding'')
      else
        (case parse_content_length hs of
           Err e \<Rightarrow> Err e
         | Ok len \<Rightarrow>
             if (case len of None \<Rightarrow> False | Some n \<Rightarrow> n \<noteq> 0)
             then Err (InvalidFraming ''CONNECT must not carry an HTTP request body'')
             else Ok ()))"

fun trimmed_codings :: "bytes list \<Rightarrow> (explicit_request_error, bytes list) result" where
  "trimmed_codings [] = Ok []"
| "trimmed_codings (item # items) =
     (let coding = str_trim item
      in if coding = [] then Err (InvalidFraming ''Transfer-Encoding contains an empty coding'')
         else (case trimmed_codings items of Err e \<Rightarrow> Err e | Ok cs \<Rightarrow> Ok (coding # cs)))"

fun transfer_codings :: "bytes list \<Rightarrow> (explicit_request_error, bytes list) result" where
  "transfer_codings [] = Ok []"
| "transfer_codings (v # vs) =
     (if \<not> utf8_valid v then Err (InvalidFraming ''Transfer-Encoding must be valid ASCII'')
      else
        (case trimmed_codings (str_split CHR '','' v) of
           Err e \<Rightarrow> Err e
         | Ok cs \<Rightarrow> (case transfer_codings vs of Err e \<Rightarrow> Err e | Ok cs' \<Rightarrow> Ok (cs @ cs'))))"

definition validate_transfer_encoding :: "raw_headers \<Rightarrow> (explicit_request_error, unit) result" where
  "validate_transfer_encoding hs =
     (case transfer_codings (headers_named hs ''transfer-encoding'') of
        Err e \<Rightarrow> Err e
      | Ok cs \<Rightarrow>
          if cs = [] then Err (InvalidFraming ''Transfer-Encoding must declare a coding'')
          else if \<not> eq_ignore_ascii_case (last cs) ''chunked''
          then Err (InvalidFraming ''final Transfer-Encoding coding must be chunked'')
          else if list_ex (\<lambda>c. eq_ignore_ascii_case c ''chunked'') (butlast cs)
          then Err (InvalidFraming ''chunked must appear only as the final Transfer-Encoding coding'')
          else Ok ())"

definition validate_http_framing :: "raw_headers \<Rightarrow> (explicit_request_error, unit) result" where
  "validate_http_framing hs =
     (case parse_content_length hs of
        Err e \<Rightarrow> Err e
      | Ok len \<Rightarrow>
          if len \<noteq> None \<and> has_header hs ''transfer-encoding''
          then Err (InvalidFraming ''Content-Length and Transfer-Encoding must not be combined'')
          else if has_header hs ''transfer-encoding'' then validate_transfer_encoding hs
          else Ok ())"

section \<open>Rewriting and parsing\<close>

definition is_proxy_only_header :: "bytes \<Rightarrow> bool" where
  "is_proxy_only_header name \<longleftrightarrow>
     eq_ignore_ascii_case name ''proxy-authorization''
     \<or> eq_ignore_ascii_case name ''proxy-connection''
     \<or> eq_ignore_ascii_case name ''proxy-authenticate''"

fun forwarded_header_lines :: "raw_headers \<Rightarrow> bytes" where
  "forwarded_header_lines [] = []"
| "forwarded_header_lines ((name, value) # hs) =
     (if eq_ignore_ascii_case name ''host'' \<or> is_proxy_only_header name then forwarded_header_lines hs
      else name @ '': '' @ value @ CRLF @ forwarded_header_lines hs)"

definition sanitized_absolute_request_prefix ::
  "bytes \<Rightarrow> uri \<Rightarrow> raw_headers \<Rightarrow> target_authority \<Rightarrow> bytes \<Rightarrow> bytes" where
  "sanitized_absolute_request_prefix meth u hs target buffered =
     meth @ '' '' @ (case uri_path_and_query u of None \<Rightarrow> ''/'' | Some p \<Rightarrow> p)
     @ '' HTTP/1.1'' @ CRLF @ ''Host: '' @ host_header_value target 80 @ CRLF
     @ forwarded_header_lines hs @ CRLF @ buffered"

definition parse_connect ::
  "authority_parser \<Rightarrow> bytes \<Rightarrow> nat \<Rightarrow> bytes \<Rightarrow> raw_headers
   \<Rightarrow> (explicit_request_error, decoded_explicit_request) result" where
  "parse_connect authority_try_from buffer head_len raw_target hs =
     (case parse_target_authority authority_try_from raw_target None of
        Err e \<Rightarrow> Err e
      | Ok target \<Rightarrow>
          (case validate_matching_host authority_try_from hs target (ta_port target) of
             Err e \<Rightarrow> Err e
           | Ok _ \<Rightarrow>
               (case validate_connect_framing hs of
                  Err e \<Rightarrow> Err e
                | Ok _ \<Rightarrow>
                    Ok \<lparr>er_target = target, er_protocol = HttpConnect,
                        er_client_prefix = drop head_len buffer\<rparr>)))"

definition parse_absolute_http ::
  "authority_parser \<Rightarrow> uri_parser \<Rightarrow> bytes \<Rightarrow> nat \<Rightarrow> bytes \<Rightarrow> bytes \<Rightarrow> raw_headers
   \<Rightarrow> (explicit_request_error, decoded_explicit_request) result" where
  "parse_absolute_http authority_try_from parse_uri buffer head_len meth raw_target hs =
     (case parse_uri raw_target of
        None \<Rightarrow> Err (InvalidTarget raw_target ''request target must be a valid absolute HTTP URI'')
      | Some u \<Rightarrow>
          if uri_scheme u \<noteq> Some ''http''
          then Err (InvalidTarget raw_target ''plain proxy requests require an http URI'')
          else
            (case uri_authority u of
               None \<Rightarrow> Err (InvalidTarget raw_target ''absolute HTTP URI requires an authority'')
             | Some authority \<Rightarrow>
                 (case parse_target_authority authority_try_from authority (Some 80) of
                    Err e \<Rightarrow> Err e
                  | Ok target \<Rightarrow>
                      (case validate_matching_host authority_try_from hs target 80 of
                         Err e \<Rightarrow> Err e
                       | Ok _ \<Rightarrow>
                           (case validate_http_framing hs of
                              Err e \<Rightarrow> Err e
                            | Ok _ \<Rightarrow>
                                Ok \<lparr>er_target = target, er_protocol = HttpAbsoluteForm,
                                    er_client_prefix =
                                      sanitized_absolute_request_prefix meth u hs target
                                        (drop head_len buffer)\<rparr>)))))"

definition parse_explicit_request ::
  "explicit_head_parser \<Rightarrow> authority_parser \<Rightarrow> uri_parser \<Rightarrow> bytes \<Rightarrow> nat
   \<Rightarrow> (explicit_request_error, decoded_explicit_request) result" where
  "parse_explicit_request parse_head authority_try_from parse_uri buffer head_len =
     (case parse_head (take head_len buffer) of
        Ok Partial \<Rightarrow> Err (ExplicitInvalidRequest ''request head remained partial after its terminator'')
      | Err ParseTooManyHeaders \<Rightarrow> Err (TooManyHeaders MAX_EXPLICIT_PROXY_HEADERS)
      | Err ParseOther \<Rightarrow> Err ExplicitParse
      | Ok (Complete (parsed_len, request)) \<Rightarrow>
          if parsed_len \<noteq> head_len
          then Err (ExplicitInvalidRequest ''request parser did not consume the complete head'')
          else if raw_version request \<noteq> Some 1 then Err UnsupportedVersion
          else
            (case raw_method request of
               None \<Rightarrow> Err (ExplicitInvalidRequest ''missing method'')
             | Some meth \<Rightarrow>
                 (case raw_path request of
                    None \<Rightarrow> Err (ExplicitInvalidRequest ''missing request target'')
                  | Some raw_target \<Rightarrow>
                      if meth = ''CONNECT''
                      then parse_connect authority_try_from buffer head_len raw_target (raw_headers request)
                      else parse_absolute_http authority_try_from parse_uri buffer head_len meth
                             raw_target (raw_headers request))))"

definition decode_explicit_request ::
  "explicit_request_decoder \<Rightarrow> explicit_head_parser \<Rightarrow> authority_parser \<Rightarrow> uri_parser
   \<Rightarrow> (nat \<Rightarrow> 's \<Rightarrow> (io_kind, bytes) result \<times> 's) \<Rightarrow> bool \<Rightarrow> 's
   \<Rightarrow> (explicit_request_error, decoded_explicit_request) result \<times> 's" where
  "decode_explicit_request decoder parse_head authority_try_from parse_uri rd elapsed s =
     (if elapsed then (Err (HeaderTimeout (header_timeout decoder)), s)
      else
        (case read_request_head rd (max_header_bytes decoder) [] s of
           (Err e, s') \<Rightarrow> (Err e, s')
         | (Ok (buffer, head_len), s') \<Rightarrow>
             (parse_explicit_request parse_head authority_try_from parse_uri buffer head_len, s')))"

section \<open>The read loop\<close>

lemma find_request_head_len_bound: "find_request_head_len buffer = Some n \<Longrightarrow> n \<le> length buffer"
  by (auto simp: find_request_head_len_def split: option.splits if_splits dest!: window_position_bound)

context byte_source
begin

lemma read_request_head_content:
  assumes "invar s" and "length buffer \<le> max_bytes"
    and "read_request_head rd max_bytes buffer s = (Ok (full, head_len), s')"
  shows "buffer @ content s = full @ content s' \<and> length full \<le> max_bytes
    \<and> find_request_head_len full = Some head_len \<and> head_len \<le> max_bytes"
  using assms
proof (induction "max_bytes - length buffer" arbitrary: buffer s rule: less_induct)
  case less
  show ?case
  proof (cases "find_request_head_len buffer")
    case (Some n)
    with less.prems show ?thesis by (subst (asm) read_request_head.simps) (auto split: if_splits)
  next
    case None
    with less.prems(3) obtain chunk s1 where r: "rd (min (max_bytes - length buffer) HEADER_READ_CHUNK_BYTES) s = (Ok chunk, s1)"
      and ne: "chunk \<noteq> []" and short: "length buffer < max_bytes"
      and rec: "read_request_head rd max_bytes (buffer @ chunk) s1 = (Ok (full, head_len), s')"
      by (subst (asm) read_request_head.simps) (auto split: if_splits prod.splits sum.splits)
    note c = rd_data [OF less.prems(1) r ne] rd_invar [OF less.prems(1) r]
    have "max_bytes - length (buffer @ chunk) < max_bytes - length buffer"
      using short ne by (intro diff_less_mono2) auto
    from less.hyps [OF this c(2) _ rec] c(1) short show ?thesis by force
  qed
qed

end

section \<open>Framing\<close>

lemma content_length_values_ok:
  "content_length_values parsed vs = Ok res \<Longrightarrow>
     (\<forall>v \<in> set vs. parse_usize (str_trim v) = res) \<and> (\<forall>n. parsed = Some n \<longrightarrow> res = Some n)
     \<and> (vs \<noteq> [] \<longrightarrow> res \<noteq> None)"
  by (induction parsed vs rule: content_length_values.induct)
    (auto split: if_splits option.splits)

lemma parse_content_length_ok:
  assumes "parse_content_length hs = Ok len"
  shows "\<forall>v \<in> set (headers_named hs ''content-length''). parse_usize (str_trim v) = len"
    and "len = None \<longleftrightarrow> \<not> has_header hs ''content-length''"
proof -
  note ok = content_length_values_ok [OF assms [unfolded parse_content_length_def]]
  then show "\<forall>v \<in> set (headers_named hs ''content-length''). parse_usize (str_trim v) = len" by simp
  have "has_header hs ''content-length'' \<longleftrightarrow> headers_named hs ''content-length'' \<noteq> []"
    by (auto simp: has_header_def headers_named_def list_ex_iff filter_empty_conv)
  moreover have "headers_named hs ''content-length'' = [] \<Longrightarrow> len = None"
    using assms by (simp add: parse_content_length_def)
  ultimately show "len = None \<longleftrightarrow> \<not> has_header hs ''content-length''" using ok by blast
qed

text \<open>A request that is let through is framed in one way only.\<close>

definition framing_unambiguous :: "raw_headers \<Rightarrow> bool" where
  "framing_unambiguous hs \<longleftrightarrow>
     \<not> (has_header hs ''content-length'' \<and> has_header hs ''transfer-encoding'')
     \<and> (\<exists>len. \<forall>v \<in> set (headers_named hs ''content-length''). parse_usize (str_trim v) = len \<and> len \<noteq> None)
     \<and> (has_header hs ''transfer-encoding'' \<longrightarrow>
          (\<exists>cs. transfer_codings (headers_named hs ''transfer-encoding'') = Ok cs \<and> cs \<noteq> []
             \<and> eq_ignore_ascii_case (last cs) ''chunked''
             \<and> (\<forall>c \<in> set (butlast cs). \<not> eq_ignore_ascii_case c ''chunked'')))"

lemma validate_http_framing_ok:
  assumes "validate_http_framing hs = Ok ()"
  shows "framing_unambiguous hs"
proof -
  from assms obtain len where len: "parse_content_length hs = Ok len"
    and excl: "\<not> (len \<noteq> None \<and> has_header hs ''transfer-encoding'')"
    by (auto simp: validate_http_framing_def split: sum.splits if_splits)
  note cl = parse_content_length_ok [OF len]
  have "has_header hs ''content-length'' \<longleftrightarrow> headers_named hs ''content-length'' \<noteq> []"
    by (auto simp: has_header_def headers_named_def list_ex_iff filter_empty_conv)
  then have "\<forall>v \<in> set (headers_named hs ''content-length''). parse_usize (str_trim v) = len \<and> len \<noteq> None"
    using cl by auto
  moreover have "has_header hs ''transfer-encoding'' \<Longrightarrow> validate_transfer_encoding hs = Ok ()"
    using assms len excl by (auto simp: validate_http_framing_def split: if_splits)
  ultimately show ?thesis
    using cl(2) excl
    by (auto simp: framing_unambiguous_def validate_transfer_encoding_def list_ex_iff split: sum.splits if_splits)
qed

lemma validate_matching_host_ok:
  assumes "validate_matching_host a hs target d = Ok ()"
  shows "\<exists>value. headers_named hs ''host'' = [value]
    \<and> parse_target_authority a (str_trim value) (Some d) = Ok target"
  using assms
  by (auto simp: validate_matching_host_def Let_def split: list.splits if_splits sum.splits)

text \<open>The header lines that are passed on.\<close>

definition forwarded_headers :: "raw_headers \<Rightarrow> raw_headers" where
  "forwarded_headers hs =
     filter (\<lambda>h. \<not> (eq_ignore_ascii_case (fst h) ''host'' \<or> is_proxy_only_header (fst h))) hs"

lemma forwarded_header_lines_filter:
  "forwarded_header_lines hs = concat (map (\<lambda>(n, v). n @ '': '' @ v @ CRLF) (forwarded_headers hs))"
  by (induction hs rule: forwarded_header_lines.induct) (auto simp: forwarded_headers_def)

lemma eq_ignore_same:
  "eq_ignore_ascii_case a b \<Longrightarrow> eq_ignore_ascii_case a c \<longleftrightarrow> eq_ignore_ascii_case b c"
  by (simp add: eq_ignore_ascii_case_def)

lemma headers_named_forwarded:
  assumes "\<not> eq_ignore_ascii_case name ''host''" and "\<not> is_proxy_only_header name"
  shows "headers_named (forwarded_headers hs) name = headers_named hs name"
proof -
  have "eq_ignore_ascii_case n name \<Longrightarrow> \<not> (eq_ignore_ascii_case n ''host'' \<or> is_proxy_only_header n)" for n
    using assms eq_ignore_same [of n name] unfolding is_proxy_only_header_def by blast
  then have "filter (\<lambda>h. eq_ignore_ascii_case (fst h) name) (forwarded_headers hs)
      = filter (\<lambda>h. eq_ignore_ascii_case (fst h) name) hs"
    unfolding forwarded_headers_def filter_filter by (intro filter_cong) auto
  then show ?thesis by (simp add: headers_named_def)
qed

section \<open>What an accepted request guarantees\<close>

definition target_wellformed :: "target_authority \<Rightarrow> bool" where
  "target_wellformed t \<longleftrightarrow>
     ta_port t \<noteq> 0 \<and> (case ta_host t of Dns name \<Rightarrow> dns_name_ok name | Ip a \<Rightarrow> True)"

definition host_matches :: "authority_parser \<Rightarrow> raw_headers \<Rightarrow> target_authority \<Rightarrow> u16 \<Rightarrow> bool" where
  "host_matches a hs t d \<longleftrightarrow>
     (\<exists>value. headers_named hs ''host'' = [value]
        \<and> parse_target_authority a (str_trim value) (Some d) = Ok t)"

lemma parse_target_wellformed: "parse_target_authority a raw d = Ok t \<Longrightarrow> target_wellformed t"
  by (auto simp: target_wellformed_def dest: parse_target_port parse_target_dns split: target_host.splits)

lemma parse_connect_ok:
  assumes "parse_connect a buffer head_len raw_target hs = Ok req"
  shows "er_protocol req = HttpConnect \<and> target_wellformed (er_target req)
    \<and> host_matches a hs (er_target req) (ta_port (er_target req))
    \<and> \<not> has_header hs ''transfer-encoding''
    \<and> list_all (\<lambda>v. parse_usize (str_trim v) = Some 0) (headers_named hs ''content-length'')
    \<and> er_client_prefix req = drop head_len buffer"
proof -
  from assms obtain t where t: "parse_target_authority a raw_target None = Ok t"
    "validate_matching_host a hs t (ta_port t) = Ok ()" "validate_connect_framing hs = Ok ()"
    "req = \<lparr>er_target = t, er_protocol = HttpConnect, er_client_prefix = drop head_len buffer\<rparr>"
    by (auto simp: parse_connect_def split: sum.splits)
  from t(3) obtain len where len: "parse_content_length hs = Ok len"
    and no_te: "\<not> has_header hs ''transfer-encoding''" and zero: "len = None \<or> len = Some 0"
    by (auto simp: validate_connect_framing_def split: sum.splits if_splits option.splits)
  note cl = parse_content_length_ok [OF len]
  have "list_all (\<lambda>v. parse_usize (str_trim v) = Some 0) (headers_named hs ''content-length'')"
  proof (cases "headers_named hs ''content-length'' = []")
    case False
    then have "has_header hs ''content-length''"
      by (auto simp: has_header_def headers_named_def list_ex_iff filter_empty_conv)
    with cl zero show ?thesis by (auto simp: list_all_iff)
  qed simp
  with t no_te validate_matching_host_ok [OF t(2)] parse_target_wellformed [OF t(1)] show ?thesis
    by (simp add: host_matches_def)
qed

lemma parse_absolute_ok:
  assumes "parse_absolute_http a u buffer head_len meth raw_target hs = Ok req"
  shows "er_protocol req = HttpAbsoluteForm \<and> target_wellformed (er_target req)
    \<and> host_matches a hs (er_target req) 80 \<and> framing_unambiguous hs
    \<and> (\<exists>path. er_client_prefix req = meth @ '' '' @ path @ '' HTTP/1.1'' @ CRLF
          @ ''Host: '' @ host_header_value (er_target req) 80 @ CRLF
          @ concat (map (\<lambda>(n, v). n @ '': '' @ v @ CRLF) (forwarded_headers hs)) @ CRLF @ drop head_len buffer)"
proof -
  from assms obtain x authority t where t: "parse_target_authority a authority (Some 80) = Ok t"
    "validate_matching_host a hs t 80 = Ok ()" "validate_http_framing hs = Ok ()"
    "req = \<lparr>er_target = t, er_protocol = HttpAbsoluteForm,
        er_client_prefix = sanitized_absolute_request_prefix meth x hs t (drop head_len buffer)\<rparr>"
    by (auto simp: parse_absolute_http_def split: sum.splits option.splits if_splits)
  then show ?thesis
    using validate_matching_host_ok [OF t(2)] parse_target_wellformed [OF t(1)] validate_http_framing_ok [OF t(3)]
    by (auto simp: host_matches_def sanitized_absolute_request_prefix_def forwarded_header_lines_filter)
qed

lemma parse_explicit_request_ok:
  assumes "parse_explicit_request ph a u buffer head_len = Ok req"
  shows "\<exists>raw meth raw_target. ph (take head_len buffer) = Ok (Complete (head_len, raw))
    \<and> raw_version raw = Some 1 \<and> raw_method raw = Some meth
    \<and> (if meth = ''CONNECT'' then parse_connect a buffer head_len raw_target (raw_headers raw) = Ok req
       else parse_absolute_http a u buffer head_len meth raw_target (raw_headers raw) = Ok req)"
  using assms
  by (auto simp: parse_explicit_request_def split: sum.splits parse_status.splits httparse_error.splits
      option.splits if_splits)

section \<open>Properties\<close>

text \<open>
  Reading an explicit proxy request is bounded and loses nothing: an accepted request was parsed
  from a buffer of at most \<open>max_header_bytes\<close> bytes which, followed by what is still in the stream, is
  what the client sent; the head ends at the first empty line.
\<close>

theorem explicit_request_lossless:
  "case decode_explicit_request decoder ph a u stream_read elapsed r of
     (Err e, r') \<Rightarrow> True
   | (Ok req, r') \<Rightarrow>
       \<exists>buffer head_len. incoming r = buffer @ incoming r' \<and> length buffer \<le> max_header_bytes decoder
         \<and> find_request_head_len buffer = Some head_len
         \<and> parse_explicit_request ph a u buffer head_len = Ok req"
proof -
  obtain res r' where run: "decode_explicit_request decoder ph a u stream_read elapsed r = (res, r')" by fastforce
  show ?thesis
  proof (cases res)
    case (Inr req)
    with run obtain buffer head_len where head: "read_request_head stream_read (max_header_bytes decoder) [] r
        = (Ok (buffer, head_len), r')" "parse_explicit_request ph a u buffer head_len = Ok req"
      by (auto simp: decode_explicit_request_def split: if_splits prod.splits sum.splits)
    from script.read_request_head_content [OF TrueI _ head(1)] head(2) run Inr show ?thesis by auto
  qed (use run in simp)
qed

text \<open>
  C9. What an accepted proxy request guarantees. The target is normalised and has a port; there is
  exactly one Host header and it names the same target. A \<^verbatim>\<open>CONNECT\<close> carries no body: no
  Transfer-Encoding, every Content-Length zero, and all bytes after the head are kept for the tunnel.
  An absolute-form request is framed unambiguously (never Content-Length with Transfer-Encoding, no
  conflicting lengths, chunked last and only once), and the head passed on has the target's Host, the
  client's other headers except the proxy-only ones, in order, and the bytes after the head.
\<close>

theorem explicit_request_safe:
  "case parse_explicit_request ph a u buffer head_len of
     Err e \<Rightarrow> True
   | Ok req \<Rightarrow>
       \<exists>raw meth. ph (take head_len buffer) = Ok (Complete (head_len, raw)) \<and> raw_version raw = Some 1
         \<and> raw_method raw = Some meth \<and> target_wellformed (er_target req)
         \<and> (case er_protocol req of
              HttpConnect \<Rightarrow>
                meth = ''CONNECT''
                \<and> host_matches a (raw_headers raw) (er_target req) (ta_port (er_target req))
                \<and> \<not> has_header (raw_headers raw) ''transfer-encoding''
                \<and> list_all (\<lambda>v. parse_usize (str_trim v) = Some 0)
                    (headers_named (raw_headers raw) ''content-length'')
                \<and> buffer = take head_len buffer @ er_client_prefix req
            | HttpAbsoluteForm \<Rightarrow>
                host_matches a (raw_headers raw) (er_target req) 80
                \<and> framing_unambiguous (raw_headers raw)
                \<and> (\<exists>path. er_client_prefix req = meth @ '' '' @ path @ '' HTTP/1.1'' @ CRLF
                     @ ''Host: '' @ host_header_value (er_target req) 80 @ CRLF
                     @ concat (map (\<lambda>(n, v). n @ '': '' @ v @ CRLF) (forwarded_headers (raw_headers raw)))
                     @ CRLF @ drop head_len buffer))"
proof (cases "parse_explicit_request ph a u buffer head_len")
  case (Inr req)
  from parse_explicit_request_ok [OF Inr] obtain raw meth raw_target where
    raw: "ph (take head_len buffer) = Ok (Complete (head_len, raw))" "raw_version raw = Some 1"
      "raw_method raw = Some meth"
    and parse: "if meth = ''CONNECT'' then parse_connect a buffer head_len raw_target (raw_headers raw) = Ok req
       else parse_absolute_http a u buffer head_len meth raw_target (raw_headers raw) = Ok req"
    by blast
  show ?thesis
  proof (cases "meth = ''CONNECT''")
    case True
    with parse have "parse_connect a buffer head_len raw_target (raw_headers raw) = Ok req" by simp
    from parse_connect_ok [OF this] raw Inr True show ?thesis by simp
  next
    case False
    with parse have "parse_absolute_http a u buffer head_len meth raw_target (raw_headers raw) = Ok req" by simp
    from parse_absolute_ok [OF this] raw Inr show ?thesis by simp
  qed
qed simp

end
