(* ===== verification/Explicit_Ingress.thy ===== *)
theory Explicit_Ingress
  imports Explicit_Http Platform_Flow
begin

text \<open>
  The explicit HTTP proxy listener (\<^verbatim>\<open>crates/abyss-broker/src/ingress/explicit.rs\<close>): decode the client's
  request, reach the target directly or through the configured upstream proxy, never through the broker's own
  listener, answer the client, and hand the flow on. Resolver, sockets, interfaces and clock are parameters.
\<close>

section \<open>Responses and errors\<close>

datatype proxy_response =
    RespConnectionEstablished | RespBadRequest | RespForbidden | RespRequestTimeout | RespBadGateway
  | RespGatewayTimeout | RespHeaderFieldsTooLarge | RespVersionNotSupported

fun response_status_code :: "proxy_response \<Rightarrow> nat" where
  "response_status_code RespConnectionEstablished = 200"
| "response_status_code RespBadRequest = 400"
| "response_status_code RespForbidden = 403"
| "response_status_code RespRequestTimeout = 408"
| "response_status_code RespBadGateway = 502"
| "response_status_code RespGatewayTimeout = 504"
| "response_status_code RespHeaderFieldsTooLarge = 431"
| "response_status_code RespVersionNotSupported = 505"

text \<open>The lines every error response shares.\<close>

abbreviation closing_lines :: bytes where
  "closing_lines \<equiv> CRLF @ ''Connection: close'' @ CRLF @ ''Content-Length: 0'' @ CRLF @ CRLF"

fun response_bytes :: "proxy_response \<Rightarrow> bytes" where
  "response_bytes RespConnectionEstablished = ''HTTP/1.1 200 Connection Established'' @ CRLF @ CRLF"
| "response_bytes RespBadRequest = ''HTTP/1.1 400 Bad Request'' @ closing_lines"
| "response_bytes RespForbidden = ''HTTP/1.1 403 Forbidden'' @ closing_lines"
| "response_bytes RespRequestTimeout = ''HTTP/1.1 408 Request Timeout'' @ closing_lines"
| "response_bytes RespBadGateway = ''HTTP/1.1 502 Bad Gateway'' @ closing_lines"
| "response_bytes RespGatewayTimeout = ''HTTP/1.1 504 Gateway Timeout'' @ closing_lines"
| "response_bytes RespHeaderFieldsTooLarge = ''HTTP/1.1 431 Request Header Fields Too Large'' @ closing_lines"
| "response_bytes RespVersionNotSupported = ''HTTP/1.1 505 HTTP Version Not Supported'' @ closing_lines"

datatype explicit_ingress_error =
    IngressUpstreamProxy target_authority bytes upstream_proxy_error
  | IngressBind socket_addr io_kind
  | IngressListenerAddress io_kind
  | IngressListenerInterfaces io_kind
  | IngressAccept io_kind
  | IngressRequest explicit_request_error
  | IngressResolveTimeout bytes nat
  | IngressResolve bytes io_kind
  | IngressNoResolvedAddresses bytes
  | IngressUnsupportedTargetHost bytes
  | IngressSelfTarget bytes socket_addr
  | IngressConnectTimeout bytes nat
  | IngressConnect bytes io_kind
  | IngressUpstreamAddress bytes io_kind
  | IngressWriteResponse nat io_kind

definition error_response :: "explicit_ingress_error \<Rightarrow> proxy_response" where
  "error_response e =
     (case e of
        IngressResolveTimeout t d \<Rightarrow> RespGatewayTimeout
      | IngressConnectTimeout t d \<Rightarrow> RespGatewayTimeout
      | IngressSelfTarget t a \<Rightarrow> RespForbidden
      | IngressUpstreamProxy t ep source \<Rightarrow> if is_proxy_timeout source then RespGatewayTimeout else RespBadGateway
      | _ \<Rightarrow> RespBadGateway)"

definition TARGET_RESOLUTION_TIMEOUT :: nat where
  "TARGET_RESOLUTION_TIMEOUT = 10 * 1000"

definition TARGET_CONNECT_TIMEOUT :: nat where
  "TARGET_CONNECT_TIMEOUT = 10 * 1000"

section \<open>Connections\<close>

record explicit_connection =
  ec_client :: duplex
  ec_peer_addr :: socket_addr
  ec_listen_addr :: socket_addr
  ec_upstream :: "http_connect_proxy option"

text \<open>\<^verbatim>\<open>ExplicitRequestDecoder::default\<close>: the bounds of the decoder this listener uses.\<close>

definition DEFAULT_EXPLICIT_PROXY_HEADER_TIMEOUT :: nat where
  "DEFAULT_EXPLICIT_PROXY_HEADER_TIMEOUT = 10 * 1000"

definition explicit_decoder_default :: explicit_request_decoder where
  "explicit_decoder_default =
     \<lparr>max_header_bytes = MAX_EXPLICIT_PROXY_HEADER_BYTES, header_timeout = DEFAULT_EXPLICIT_PROXY_HEADER_TIMEOUT\<rparr>"

text \<open>
  What the host answers: its interface addresses, the resolver and the connect race (\<open>None\<close> or \<open>True\<close> when the
  deadline passes first), the environment of the upstream proxy, and the libraries the decoder uses.
\<close>

record explicit_env =
  ee_if_addrs :: "(io_kind, ip_addr list) result"
  ee_lookup :: "bytes \<Rightarrow> u16 \<Rightarrow> (io_kind, socket_addr list) result option"
  ee_connect :: "socket_addr \<Rightarrow> (io_kind, proxy_connection) result"
  ee_finish_order :: "socket_addr list \<Rightarrow> socket_addr list"
  ee_connect_elapsed :: bool
  ee_tunnel :: tunnel_env
  ee_local_addr :: "(io_kind, socket_addr) result"
  ee_parse_head :: explicit_head_parser
  ee_authority :: authority_parser
  ee_parse_uri :: uri_parser
  ee_header_elapsed :: bool

definition same_endpoint ::
  "(io_kind, ip_addr list) result \<Rightarrow> socket_addr \<Rightarrow> socket_addr \<Rightarrow> (explicit_ingress_error, bool) result" where
  "same_endpoint if_addrs candidate listener =
     map_sum IngressListenerInterfaces id (listener_contains if_addrs listener candidate)"

text \<open>
  \<^verbatim>\<open>ExplicitIngressFactory::start\<close>: a configured proxy whose literal address is the listener itself is refused.
  \<open>bound\<close> and \<open>loc\<close> are what binding and \<^verbatim>\<open>local_addr\<close> answer.
\<close>

definition explicit_start ::
  "(io_kind, ip_addr list) result \<Rightarrow> (io_kind, unit) result \<Rightarrow> (io_kind, socket_addr) result \<Rightarrow> socket_addr
   \<Rightarrow> http_connect_proxy option \<Rightarrow> (explicit_ingress_error, socket_addr) result" where
  "explicit_start if_addrs bound loc requested proxy =
     (case bound of
        Err k \<Rightarrow> Err (IngressBind requested k)
      | Ok _ \<Rightarrow>
          (case loc of
             Err k \<Rightarrow> Err (IngressListenerAddress k)
           | Ok listen \<Rightarrow>
               (case proxy of
                  None \<Rightarrow> Ok listen
                | Some px \<Rightarrow>
                    (case as_ip_addr (ta_host (px_endpoint px)) of
                       None \<Rightarrow> Ok listen
                     | Some ip \<Rightarrow>
                         (case same_endpoint if_addrs \<lparr>sa_ip = ip, sa_port = ta_port (px_endpoint px)\<rparr> listen of
                            Err e \<Rightarrow> Err e
                          | Ok same \<Rightarrow>
                              if same then Err (IngressSelfTarget (show_authority (px_endpoint px)) listen)
                              else Ok listen)))))"

section \<open>Reaching the target\<close>

text \<open>
  The check of a target that goes through the proxy: a literal address, or \<^verbatim>\<open>localhost\<close> on either loopback.
\<close>

definition targets_own_listener ::
  "(io_kind, ip_addr list) result \<Rightarrow> socket_addr \<Rightarrow> target_authority \<Rightarrow> (explicit_ingress_error, bool) result" where
  "targets_own_listener if_addrs listen target =
     (case (case as_ip_addr (ta_host target) of
              Some ip \<Rightarrow> same_endpoint if_addrs \<lparr>sa_ip = ip, sa_port = ta_port target\<rparr> listen
            | None \<Rightarrow> Ok False) of
        Err e \<Rightarrow> Err e
      | Ok True \<Rightarrow> Ok True
      | Ok False \<Rightarrow>
          if as_dns_name (ta_host target) \<noteq> Some ''localhost'' then Ok False
          else
            (case same_endpoint if_addrs \<lparr>sa_ip = V4 127 0 0 1, sa_port = ta_port target\<rparr> listen of
               Err e \<Rightarrow> Err e
             | Ok True \<Rightarrow> Ok True
             | Ok False \<Rightarrow>
                 same_endpoint if_addrs \<lparr>sa_ip = V6 0 0 0 0 0 0 0 1, sa_port = ta_port target\<rparr> listen))"

definition resolve_target ::
  "explicit_env \<Rightarrow> target_authority \<Rightarrow> (explicit_ingress_error, socket_addr list) result" where
  "resolve_target env target =
     (case as_ip_addr (ta_host target) of
        Some ip \<Rightarrow> Ok [\<lparr>sa_ip = ip, sa_port = ta_port target\<rparr>]
      | None \<Rightarrow>
          (case as_dns_name (ta_host target) of
             Some host \<Rightarrow>
               (case ee_lookup env host (ta_port target) of
                  None \<Rightarrow> Err (IngressResolveTimeout (show_authority target) TARGET_RESOLUTION_TIMEOUT)
                | Some (Err k) \<Rightarrow> Err (IngressResolve (show_authority target) k)
                | Some (Ok addresses) \<Rightarrow>
                    if addresses = [] then Err (IngressNoResolvedAddresses (show_authority target))
                    else Ok addresses)
           | None \<Rightarrow> Err (IngressUnsupportedTargetHost (show_authority target))))"

fun check_self_target ::
  "(io_kind, ip_addr list) result \<Rightarrow> socket_addr \<Rightarrow> target_authority \<Rightarrow> socket_addr list
   \<Rightarrow> (explicit_ingress_error, unit) result" where
  "check_self_target if_addrs listen target [] = Ok ()"
| "check_self_target if_addrs listen target (address # addresses) =
     (case same_endpoint if_addrs address listen of
        Err e \<Rightarrow> Err e
      | Ok same \<Rightarrow>
          if same then Err (IngressSelfTarget (show_authority target) listen)
          else check_self_target if_addrs listen target addresses)"

definition connect_target ::
  "explicit_env \<Rightarrow> target_authority \<Rightarrow> socket_addr list \<Rightarrow> (explicit_ingress_error, proxy_connection) result" where
  "connect_target env target addresses =
     (if ee_connect_elapsed env
      then Err (IngressConnectTimeout (show_authority target) TARGET_CONNECT_TIMEOUT)
      else map_sum (IngressConnect (show_authority target)) id
        (first_connected NotFound (map (ee_connect env) (ee_finish_order env addresses))))"

record prepared_explicit_upstream =
  pe_stream :: boxed_stream
  pe_destination :: destination_address
  pe_proxy_peer :: "socket_addr option"

definition prepare_through_proxy ::
  "explicit_env \<Rightarrow> explicit_connection \<Rightarrow> http_connect_proxy \<Rightarrow> target_authority
   \<Rightarrow> (explicit_ingress_error, prepared_explicit_upstream) result" where
  "prepare_through_proxy env conn px target =
     (case targets_own_listener (ee_if_addrs env) (ec_listen_addr conn) target of
        Err e \<Rightarrow> Err e
      | Ok True \<Rightarrow> Err (IngressSelfTarget (show_authority target) (ec_listen_addr conn))
      | Ok False \<Rightarrow>
          (case proxy_connect (ee_tunnel env) px target (ec_listen_addr conn) of
             Err e \<Rightarrow> Err (IngressUpstreamProxy target (show_authority (px_endpoint px)) e)
           | Ok t \<Rightarrow>
               Ok \<lparr>pe_stream = \<lparr>bx_stream = prefixed_duplex (ct_prefix t) (ct_stream t), bx_observers = []\<rparr>,
                   pe_destination =
                     (case as_ip_addr (ta_host target) of
                        None \<Rightarrow> Unknown
                      | Some ip \<Rightarrow> Known \<lparr>sa_ip = ip, sa_port = ta_port target\<rparr>),
                   pe_proxy_peer = Some (ct_proxy_peer t)\<rparr>))"

definition prepare_direct ::
  "explicit_env \<Rightarrow> explicit_connection \<Rightarrow> target_authority
   \<Rightarrow> (explicit_ingress_error, prepared_explicit_upstream) result" where
  "prepare_direct env conn target =
     (case resolve_target env target of
        Err e \<Rightarrow> Err e
      | Ok resolved \<Rightarrow>
          (case check_self_target (ee_if_addrs env) (ec_listen_addr conn) target resolved of
             Err e \<Rightarrow> Err e
           | Ok _ \<Rightarrow>
               (case connect_target env target resolved of
                  Err e \<Rightarrow> Err e
                | Ok (Err k, s) \<Rightarrow> Err (IngressUpstreamAddress (show_authority target) k)
                | Ok (Ok peer, s) \<Rightarrow>
                    Ok \<lparr>pe_stream = \<lparr>bx_stream = s, bx_observers = []\<rparr>, pe_destination = Known peer,
                        pe_proxy_peer = None\<rparr>)))"

definition prepare_upstream ::
  "explicit_env \<Rightarrow> explicit_connection \<Rightarrow> target_authority
   \<Rightarrow> (explicit_ingress_error, prepared_explicit_upstream) result" where
  "prepare_upstream env conn target =
     (case ec_upstream conn of
        Some px \<Rightarrow> prepare_through_proxy env conn px target
      | None \<Rightarrow> prepare_direct env conn target)"

section \<open>Answering the client\<close>

definition write_response :: "proxy_response \<Rightarrow> duplex \<Rightarrow> (explicit_ingress_error, unit) result \<times> duplex" where
  "write_response resp c =
     (case write_all (response_bytes resp) (wr_side c) of
        (res, w) \<Rightarrow> (map_sum (IngressWriteResponse (response_status_code resp)) id res, c\<lparr>wr_side := w\<rparr>))"

definition reject_client :: "proxy_response \<Rightarrow> duplex \<Rightarrow> (explicit_ingress_error, unit) result \<times> duplex" where
  "reject_client resp c =
     (case write_response resp c of
        (Err e, c') \<Rightarrow> (Err e, c')
      | (Ok _, c') \<Rightarrow>
          (case shutdown (wr_side c') of
             (res, w) \<Rightarrow> (map_sum (IngressWriteResponse (response_status_code resp)) id res, c'\<lparr>wr_side := w\<rparr>)))"

definition decoder_response :: "explicit_error_category \<Rightarrow> proxy_response option" where
  "decoder_response category =
     (case category of
        RequestTimeout \<Rightarrow> Some RespRequestTimeout
      | CategoryHeaderTooLarge \<Rightarrow> Some RespHeaderFieldsTooLarge
      | VersionNotSupported \<Rightarrow> Some RespVersionNotSupported
      | ConnectionIo \<Rightarrow> None
      | BadRequest \<Rightarrow> Some RespBadRequest)"

definition reject_decoder_error ::
  "explicit_request_error \<Rightarrow> duplex \<Rightarrow> (explicit_ingress_error, unit) result \<times> duplex" where
  "reject_decoder_error e c =
     (case decoder_response (error_category e) of
        Some resp \<Rightarrow> reject_client resp c
      | None \<Rightarrow> (Ok (), c))"

definition accept_explicit ::
  "explicit_env \<Rightarrow> nat \<Rightarrow> explicit_connection \<Rightarrow> socket_addr \<Rightarrow> decoded_explicit_request \<Rightarrow> duplex
   \<Rightarrow> (explicit_ingress_error, platform_flow) result \<times> duplex" where
  "accept_explicit env fresh_id conn loc decoded client =
     (case prepare_upstream env conn (er_target decoded) of
        Err e \<Rightarrow> (Err e, snd (reject_client (error_response e) client))
      | Ok prepared \<Rightarrow>
          (case (if er_protocol decoded = HttpConnect then write_response RespConnectionEstablished client
                 else (Ok (), client)) of
             (Err e, client') \<Rightarrow> (Err e, client')
           | (Ok _, client') \<Rightarrow>
               (Ok (pf_with_read_prefix (er_client_prefix decoded)
                     (pf_with_prepared_stream (pe_stream prepared)
                       (pf_with_ingress
                         (ExplicitProxy (er_protocol decoded) (er_target decoded) (pe_proxy_peer prepared)
                            (map_option (\<lambda>px. show_authority (px_endpoint px)) (ec_upstream conn)))
                         (platform_flow_new client'
                           (metadata_from_destination_parts fresh_id (Some (ec_peer_addr conn)) (Some loc)
                              (pe_destination prepared) (Some (show_target_host (ta_host (er_target decoded)))) None))))),
                client')))"

definition explicit_into_flow ::
  "explicit_env \<Rightarrow> nat \<Rightarrow> explicit_connection \<Rightarrow> (explicit_ingress_error, platform_flow) result \<times> duplex" where
  "explicit_into_flow env fresh_id conn =
     (case ee_local_addr env of
        Err k \<Rightarrow> (Err (IngressListenerAddress k), ec_client conn)
      | Ok loc \<Rightarrow>
          (case decode_explicit_request explicit_decoder_default (ee_parse_head env) (ee_authority env) (ee_parse_uri env)
                  stream_read (ee_header_elapsed env) (rd_side (ec_client conn)) of
             (Err source, r) \<Rightarrow>
               (case reject_decoder_error source ((ec_client conn)\<lparr>rd_side := r\<rparr>) of
                  (Err e, client) \<Rightarrow> (Err e, client)
                | (Ok _, client) \<Rightarrow> (Err (IngressRequest source), client))
           | (Ok decoded, r) \<Rightarrow> accept_explicit env fresh_id conn loc decoded ((ec_client conn)\<lparr>rd_side := r\<rparr>)))"

section \<open>Lemmas\<close>

lemma same_endpoint_iff: "same_endpoint (Ok ips) a l = Ok b \<longleftrightarrow> b = reaches_listener ips l a"
  by (cases "listener_contains (Ok ips) l a") (auto simp: same_endpoint_def listener_contains_iff [symmetric])

lemma check_self_target_ok:
  "check_self_target (Ok ips) listen target as = Ok () \<longleftrightarrow> list_all (\<lambda>a. \<not> reaches_listener ips listen a) as"
proof (induction as)
  case (Cons a as)
  have "same_endpoint (Ok ips) a listen = Ok (reaches_listener ips listen a)" by (simp add: same_endpoint_iff)
  with Cons show ?case by simp
qed simp

text \<open>The literal addresses a target through the proxy must not be: its own, or the loopbacks for \<^verbatim>\<open>localhost\<close>.\<close>

definition literal_addresses :: "target_authority \<Rightarrow> socket_addr list" where
  "literal_addresses target =
     (case ta_host target of
        Ip ip \<Rightarrow> [\<lparr>sa_ip = ip, sa_port = ta_port target\<rparr>]
      | Dns name \<Rightarrow>
          if name = ''localhost''
          then [\<lparr>sa_ip = V4 127 0 0 1, sa_port = ta_port target\<rparr>, \<lparr>sa_ip = V6 0 0 0 0 0 0 0 1, sa_port = ta_port target\<rparr>]
          else [])"

lemma targets_own_listener_iff:
  "targets_own_listener (Ok ips) listen target
     = Ok (list_ex (reaches_listener ips listen) (literal_addresses target))"
proof -
  have "same_endpoint (Ok ips) a listen = Ok (reaches_listener ips listen a)" for a by (simp add: same_endpoint_iff)
  then show ?thesis
    by (auto simp: targets_own_listener_def literal_addresses_def split: target_host.split bool.split)
qed

lemma resolve_target_env [simp]:
  "resolve_target (env\<lparr>ee_if_addrs := x, ee_tunnel := y\<rparr>) target = resolve_target env target"
  by (simp add: resolve_target_def cong: option.case_cong)

lemma prepare_direct_ok:
  assumes "prepare_direct env conn target = Ok p"
  obtains addresses a peer s where "resolve_target env target = Ok addresses"
    "check_self_target (ee_if_addrs env) (ec_listen_addr conn) target addresses = Ok ()"
    "a \<in> set (ee_finish_order env addresses)" "ee_connect env a = Ok (Ok peer, s)"
    "p = \<lparr>pe_stream = \<lparr>bx_stream = s, bx_observers = []\<rparr>, pe_destination = Known peer, pe_proxy_peer = None\<rparr>"
proof -
  from assms obtain addresses peer s where 1: "resolve_target env target = Ok addresses"
    "check_self_target (ee_if_addrs env) (ec_listen_addr conn) target addresses = Ok ()"
    and c: "connect_target env target addresses = Ok (Ok peer, s)"
    and p: "p = \<lparr>pe_stream = \<lparr>bx_stream = s, bx_observers = []\<rparr>, pe_destination = Known peer, pe_proxy_peer = None\<rparr>"
    by (auto simp: prepare_direct_def split: sum.splits prod.splits)
  from c have "first_connected NotFound (map (ee_connect env) (ee_finish_order env addresses)) = Ok (Ok peer, s)"
    by (cases "first_connected NotFound (map (ee_connect env) (ee_finish_order env addresses))")
      (auto simp: connect_target_def split: if_splits)
  from first_connected_ok [OF this] 1 p that show ?thesis by force
qed

lemma prepare_through_proxy_ok:
  assumes "prepare_through_proxy env conn px target = Ok p"
  obtains t where "targets_own_listener (ee_if_addrs env) (ec_listen_addr conn) target = Ok False"
    "connect_tunnel (ee_tunnel env) px target [ec_listen_addr conn] = Ok t"
    "pe_stream p = \<lparr>bx_stream = prefixed_duplex (ct_prefix t) (ct_stream t), bx_observers = []\<rparr>"
    "pe_proxy_peer p = Some (ct_proxy_peer t)"
  using assms that
  by (auto simp: prepare_through_proxy_def proxy_connect_def split: sum.splits bool.splits)

lemma write_response_written:
  assumes "write_response resp c = (res, c')"
  shows "rd_side c' = rd_side c
    \<and> (\<exists>n. written (wr_side c') = written (wr_side c) @ take n (response_bytes resp)
         \<and> (case res of Ok _ \<Rightarrow> n = length (response_bytes resp) | Err _ \<Rightarrow> True))"
proof -
  from assms obtain r w where w: "write_all (response_bytes resp) (wr_side c) = (r, w)" "c' = c\<lparr>wr_side := w\<rparr>"
    "res = map_sum (IngressWriteResponse (response_status_code resp)) id r"
    by (auto simp: write_response_def split: prod.splits)
  show ?thesis
  proof (cases r)
    case (Inl k)
    with write_all_err [OF w(1) [unfolded Inl]] w(2,3) show ?thesis by auto
  next
    case (Inr u)
    with write_all_ok [of "response_bytes resp" "wr_side c" w] w show ?thesis
      by (auto intro!: exI [of _ "length (response_bytes resp)"] simp del: response_bytes.simps)
  qed
qed

lemma reject_client_written:
  assumes "reject_client resp c = (res, c')"
  shows "rd_side c' = rd_side c \<and> (\<exists>n. written (wr_side c') = written (wr_side c) @ take n (response_bytes resp))"
proof -
  obtain r c1 where r: "write_response resp c = (r, c1)" by fastforce
  have "rd_side c' = rd_side c1 \<and> written (wr_side c') = written (wr_side c1)"
    using assms r by (auto simp: reject_client_def split: sum.splits prod.splits)
  with write_response_written [OF r] show ?thesis by auto
qed

text \<open>A client that takes every byte gets the whole response.\<close>

lemma write_response_willing:
  "write_steps (wr_side c) = [] \<Longrightarrow>
     write_response resp c = (Ok (), c\<lparr>wr_side := (wr_side c)\<lparr>written := written (wr_side c) @ response_bytes resp\<rparr>\<rparr>)"
  by (simp add: write_response_def write_all_willing del: response_bytes.simps)

lemma reject_client_willing:
  "write_steps (wr_side c) = [] \<Longrightarrow> reject_client resp c = (res, c') \<Longrightarrow>
     written (wr_side c') = written (wr_side c) @ response_bytes resp"
  by (auto simp: reject_client_def write_response_willing simp del: response_bytes.simps split: prod.splits)

text \<open>What the decoder makes of the client's bytes.\<close>

abbreviation decode_client ::
  "explicit_env \<Rightarrow> explicit_connection \<Rightarrow> (explicit_request_error, decoded_explicit_request) result \<times> reader" where
  "decode_client env conn \<equiv>
     decode_explicit_request explicit_decoder_default (ee_parse_head env) (ee_authority env) (ee_parse_uri env)
       stream_read (ee_header_elapsed env) (rd_side (ec_client conn))"

text \<open>The answer a connection deserves: what was wrong with the request, why the target is out of reach, or success.\<close>

definition intended_answer :: "explicit_env \<Rightarrow> explicit_connection \<Rightarrow> bytes" where
  "intended_answer env conn =
     (case ee_local_addr env of
        Err k \<Rightarrow> []
      | Ok loc \<Rightarrow>
          (case fst (decode_client env conn) of
             Err e \<Rightarrow> (case decoder_response (error_category e) of None \<Rightarrow> [] | Some resp \<Rightarrow> response_bytes resp)
           | Ok decoded \<Rightarrow>
               (case prepare_upstream env conn (er_target decoded) of
                  Err e \<Rightarrow> response_bytes (error_response e)
                | Ok p \<Rightarrow> if er_protocol decoded = HttpConnect then response_bytes RespConnectionEstablished else [])))"

lemma accept_explicit_cases:
  assumes "accept_explicit env i conn loc decoded client = (res, client')"
  shows "(\<exists>e. prepare_upstream env conn (er_target decoded) = Err e \<and> res = Err e
            \<and> client' = snd (reject_client (error_response e) client))
    \<or> (\<exists>p. prepare_upstream env conn (er_target decoded) = Ok p
        \<and> (er_protocol decoded = HttpConnect
             \<and> (\<exists>r. write_response RespConnectionEstablished client = (r, client') \<and> isl r = isl res)
           \<or> er_protocol decoded = HttpAbsoluteForm \<and> client' = client \<and> \<not> isl res))"
  using assms
  by (cases "er_protocol decoded")
    (auto simp: accept_explicit_def split: sum.splits prod.splits)

lemma explicit_flow_ok:
  assumes "explicit_into_flow env i conn = (Ok flow, c)"
  obtains loc decoded r p where "ee_local_addr env = Ok loc" "decode_client env conn = (Ok decoded, r)"
    "prepare_upstream env conn (er_target decoded) = Ok p"
    "pf_ingress flow = ExplicitProxy (er_protocol decoded) (er_target decoded) (pe_proxy_peer p)
       (map_option (\<lambda>px. show_authority (px_endpoint px)) (ec_upstream conn))"
    "pf_prepared_upstream flow = Some (pe_stream p)" "pf_read_prefix flow = er_client_prefix decoded"
    "bx_stream (pf_io flow) = c" "rd_side c = r"
    "pm_original_destination (pf_metadata flow) = pe_destination p"
proof -
  from assms obtain loc decoded r where 1: "ee_local_addr env = Ok loc" "decode_client env conn = (Ok decoded, r)"
    and acc: "accept_explicit env i conn loc decoded ((ec_client conn)\<lparr>rd_side := r\<rparr>) = (Ok flow, c)"
    by (auto simp: explicit_into_flow_def split: sum.splits prod.splits)
  have "rd_side c = r"
    using accept_explicit_cases [OF acc] write_response_written by fastforce
  with acc 1 that show ?thesis
    by (fastforce simp: accept_explicit_def platform_flow_defs split: sum.splits prod.splits)
qed

text \<open>
  An answer as far as the client took it: all of it when the exchange went through, and always when the client
  accepts every byte.
\<close>

definition answered :: "writer \<Rightarrow> writer \<Rightarrow> bool \<Rightarrow> bytes \<Rightarrow> bool" where
  "answered w w' through answer \<longleftrightarrow>
     (\<exists>n. written w' = written w @ take n answer
        \<and> (if through \<or> write_steps w = [] then length answer \<le> n else True))"

lemma answered_silent [simp]: "answered w w through []"
  by (auto simp: answered_def intro: exI [of _ 0])

lemma answered_all: "written w' = written w @ answer \<Longrightarrow> answered w w' through answer"
  by (auto simp: answered_def intro!: exI [of _ "length answer"])

lemma answered_reject:
  assumes "reject_client resp c = (x, c')"
  shows "answered (wr_side c) (wr_side c') False (response_bytes resp)"
proof (cases "write_steps (wr_side c) = []")
  case True
  with reject_client_willing [OF _ assms] answered_all show ?thesis by blast
next
  case False
  with reject_client_written [OF assms] show ?thesis by (auto simp: answered_def simp del: response_bytes.simps)
qed

lemma answered_write:
  assumes "write_response resp c = (x, c')"
  shows "answered (wr_side c) (wr_side c') (\<not> isl x) (response_bytes resp)"
proof (cases "\<not> isl x \<or> write_steps (wr_side c) = []")
  case True
  then have "written (wr_side c') = written (wr_side c) @ response_bytes resp"
    using assms write_response_written [OF assms] write_response_willing [of c resp]
    by (cases x) (auto simp del: response_bytes.simps)
  then show ?thesis by (rule answered_all)
next
  case False
  with write_response_written [OF assms] show ?thesis by (auto simp: answered_def simp del: response_bytes.simps)
qed

lemma accept_explicit_answered:
  assumes "accept_explicit env i conn loc decoded client = (res, c)"
  shows "answered (wr_side client) (wr_side c) (\<not> isl res)
    (case prepare_upstream env conn (er_target decoded) of
       Err e \<Rightarrow> response_bytes (error_response e)
     | Ok p \<Rightarrow> if er_protocol decoded = HttpConnect then response_bytes RespConnectionEstablished else [])"
  using accept_explicit_cases [OF assms]
  by (auto dest: answered_write simp del: response_bytes.simps intro!: answered_reject surjective_pairing)

lemma explicit_into_flow_answered:
  assumes "explicit_into_flow env i conn = (res, c)"
  shows "answered (wr_side (ec_client conn)) (wr_side c) (\<not> isl res) (intended_answer env conn)"
proof (cases "ee_local_addr env")
  case (Inl k)
  with assms show ?thesis by (auto simp: explicit_into_flow_def intended_answer_def)
next
  case (Inr loc)
  obtain d r where d: "decode_client env conn = (d, r)" by fastforce
  let ?client = "(ec_client conn)\<lparr>rd_side := r\<rparr>"
  show ?thesis
  proof (cases d)
    case (Inl e)
    obtain x c1 where x: "reject_decoder_error e ?client = (x, c1)" by fastforce
    with assms Inr d Inl have "isl res" "c1 = c"
      by (auto simp: explicit_into_flow_def split: sum.splits)
    with x Inr d Inl answered_reject [of _ ?client x c] show ?thesis
      by (auto simp: intended_answer_def reject_decoder_error_def simp del: response_bytes.simps split: option.splits)
  next
    case (Inr decoded)
    with assms \<open>ee_local_addr env = Inr loc\<close> d have "accept_explicit env i conn loc decoded ?client = (res, c)"
      by (simp add: explicit_into_flow_def)
    from accept_explicit_answered [OF this] show ?thesis
      using Inr \<open>ee_local_addr env = Inr loc\<close> d by (simp add: intended_answer_def del: response_bytes.simps)
  qed
qed

text \<open>The answer that is behind a flow handed on: the 200 of a CONNECT, nothing for an absolute-form request.\<close>

lemma explicit_flow_written:
  assumes "explicit_into_flow env i conn = (Ok flow, c)" and "decode_client env conn = (Ok decoded, r)"
  shows "written (wr_side c) = written (wr_side (ec_client conn))
    @ (if er_protocol decoded = HttpConnect then response_bytes RespConnectionEstablished else [])"
proof -
  from assms(1) obtain loc d r' p where "ee_local_addr env = Ok loc" "decode_client env conn = (Ok d, r')"
    "prepare_upstream env conn (er_target d) = Ok p"
    by (rule explicit_flow_ok) blast
  with assms(2) have "intended_answer env conn
      = (if er_protocol decoded = HttpConnect then response_bytes RespConnectionEstablished else [])"
    by (simp add: intended_answer_def del: response_bytes.simps)
  with explicit_into_flow_answered [OF assms(1)] show ?thesis
    by (auto simp: answered_def simp del: response_bytes.simps)
qed

text \<open>
  What the engine is given ahead of the stream: the bytes behind the head of a CONNECT, or the head in origin form
  with the client's header lines, except the ones that are the proxy's own business.
\<close>

definition hop_headers :: "bytes list" where
  "hop_headers = [''host'', ''proxy-authorization'', ''proxy-connection'', ''proxy-authenticate'']"

lemma forwarded_headers_hop:
  "forwarded_headers hs = filter (\<lambda>(name, value). list_all (\<lambda>h. \<not> eq_ignore_ascii_case name h) hop_headers) hs"
  unfolding forwarded_headers_def by (rule filter_cong) (auto simp: hop_headers_def is_proxy_only_header_def)

lemma host_header_line:
  "host_header_value t d
     = show_target_host (ta_host t) @ (if ta_port t = d then [] else '':'' @ show_nat (unat (ta_port t)))"
  by (simp add: host_header_value_def show_authority_def)

lemma parse_connect_exact:
  assumes "parse_connect a buffer head_len raw_target hs = Ok req"
  shows "er_protocol req = HttpConnect \<and> parse_target_authority a raw_target None = Ok (er_target req)
    \<and> er_client_prefix req = drop head_len buffer"
  using assms by (auto simp: parse_connect_def split: sum.splits)

lemma parse_absolute_exact:
  assumes "parse_absolute_http a u buffer head_len meth raw_target hs = Ok req"
  obtains x authority where "er_protocol req = HttpAbsoluteForm" "u raw_target = Some x"
    "uri_authority x = Some authority" "parse_target_authority a authority (Some 80) = Ok (er_target req)"
    "er_client_prefix req = meth @ '' '' @ (case uri_path_and_query x of None \<Rightarrow> ''/'' | Some p \<Rightarrow> p)
       @ '' HTTP/1.1'' @ CRLF @ ''Host: '' @ show_target_host (ta_host (er_target req))
       @ (if ta_port (er_target req) = 80 then [] else '':'' @ show_nat (unat (ta_port (er_target req)))) @ CRLF
       @ concat (map (\<lambda>(n, v). n @ '': '' @ v @ CRLF)
           (filter (\<lambda>(n, v). list_all (\<lambda>h. \<not> eq_ignore_ascii_case n h) hop_headers) hs)) @ CRLF @ drop head_len buffer"
  using assms that
  by (auto simp: parse_absolute_http_def sanitized_absolute_request_prefix_def forwarded_header_lines_filter
      host_header_line forwarded_headers_hop split: sum.splits option.splits if_splits)

lemma parse_explicit_exact:
  assumes "parse_explicit_request ph a u buffer head_len = Ok req"
  obtains raw :: raw_request and meth raw_target where "ph (take head_len buffer) = Ok (Complete (head_len, raw))"
    "raw_method raw = Some meth" "raw_path raw = Some raw_target"
    "if meth = ''CONNECT'' then parse_connect a buffer head_len raw_target (raw_headers raw) = Ok req
     else parse_absolute_http a u buffer head_len meth raw_target (raw_headers raw) = Ok req"
    "target_wellformed (er_target req)"
proof -
  from assms obtain raw :: raw_request and meth raw_target where raw: "ph (take head_len buffer) = Ok (Complete (head_len, raw))"
    "raw_method raw = Some meth" "raw_path raw = Some raw_target"
    "if meth = ''CONNECT'' then parse_connect a buffer head_len raw_target (raw_headers raw) = Ok req
     else parse_absolute_http a u buffer head_len meth raw_target (raw_headers raw) = Ok req"
    by (auto simp: parse_explicit_request_def
        split: sum.splits parse_status.splits httparse_error.splits option.splits if_splits)
  moreover have "target_wellformed (er_target req)"
    using raw(4) parse_connect_ok [of a buffer head_len raw_target "raw_headers raw" req]
      parse_absolute_ok [of a u buffer head_len meth raw_target "raw_headers raw" req]
    by (cases "meth = ''CONNECT''") auto
  ultimately show ?thesis by (rule that)
qed

text \<open>Where the head of the client's bytes ends, and what the engine is given of the rest.\<close>

lemma explicit_flow_bytes:
  assumes ok: "explicit_into_flow env i conn = (Ok flow, c)"
  obtains decoded buffer rest head_len peer upstream where
    "incoming (rd_side (ec_client conn)) = buffer @ rest" "head_len \<le> length buffer"
    "head_len \<le> MAX_EXPLICIT_PROXY_HEADER_BYTES"
    "find_request_head_len (buffer @ rest) = Some head_len"
    "parse_explicit_request (ee_parse_head env) (ee_authority env) (ee_parse_uri env) buffer head_len = Ok decoded"
    "pf_ingress flow = ExplicitProxy (er_protocol decoded) (er_target decoded) peer upstream"
    "incoming (rd_side (bx_stream (af_stream (into_mitm_flow j flow)))) = er_client_prefix decoded @ rest"
    "wr_side (bx_stream (af_stream (into_mitm_flow j flow))) = wr_side c"
    "written (wr_side c) = written (wr_side (ec_client conn))
       @ (if er_protocol decoded = HttpConnect then response_bytes RespConnectionEstablished else [])"
proof -
  from ok obtain decoded :: decoded_explicit_request and r and p :: prepared_explicit_upstream
    where d: "decode_client env conn = (Ok decoded, r)"
    and f: "pf_ingress flow = ExplicitProxy (er_protocol decoded) (er_target decoded) (pe_proxy_peer p)
       (map_option (\<lambda>px. show_authority (px_endpoint px)) (ec_upstream conn))"
      "pf_read_prefix flow = er_client_prefix decoded" "bx_stream (pf_io flow) = c" "rd_side c = r"
    by (rule explicit_flow_ok) blast
  from d obtain buffer head_len where
    head: "read_request_head stream_read MAX_EXPLICIT_PROXY_HEADER_BYTES [] (rd_side (ec_client conn)) = (Ok (buffer, head_len), r)"
    and parse: "parse_explicit_request (ee_parse_head env) (ee_authority env) (ee_parse_uri env) buffer head_len = Ok decoded"
    by (auto simp: decode_explicit_request_def explicit_decoder_default_def split: if_splits prod.splits sum.splits)
  have b: "incoming (rd_side (ec_client conn)) = buffer @ incoming r" "head_len \<le> MAX_EXPLICIT_PROXY_HEADER_BYTES"
    "find_request_head_len buffer = Some head_len"
    using script.read_request_head_content [OF TrueI _ head] by auto
  moreover have "find_request_head_len (buffer @ incoming r) = Some head_len"
    using b(3) window_position_append [of "CRLF @ CRLF" buffer _ "incoming r"]
    by (auto simp: find_request_head_len_def split: option.splits if_splits)
  ultimately show ?thesis
    using that [OF b(1) find_request_head_len_bound [OF b(3)] b(2) _ parse f(1)] explicit_flow_written [OF ok d] f
    by simp
qed

section \<open>Properties\<close>

text \<open>
  Every explicit proxy connection gets at most one answer, the one its outcome deserves: nothing when the
  connection itself failed, 4xx or 505 for a request the decoder refused, 403 for the broker's own listener, 504 for a
  timeout, 502 otherwise, 200 for an established CONNECT, nothing for an absolute-form request. A failing client gets a
  prefix of it; a client that accepts every byte gets all of it; a flow is only handed on after the whole answer.
\<close>

theorem explicit_one_answer:
  "case explicit_into_flow env i conn of (res, c) \<Rightarrow>
     \<exists>n. written (wr_side c) = written (wr_side (ec_client conn)) @ take n (intended_answer env conn)
       \<and> (if (case res of Ok flow \<Rightarrow> True | Err e \<Rightarrow> write_steps (wr_side (ec_client conn)) = [])
           then length (intended_answer env conn) \<le> n else True)"
proof (cases "explicit_into_flow env i conn")
  case (Pair res c)
  from explicit_into_flow_answered [OF Pair] show ?thesis by (cases res) (auto simp: Pair answered_def)
qed

text \<open>
  C11. The explicit proxy never connects to itself. When it hands on a flow without an upstream proxy, the stream is a
  connection to one of the target's addresses and none of those addresses reaches the broker's listener; with an upstream
  proxy, neither the target's own address (nor, for localhost, a loopback) nor any address of the proxy reaches it.
  \<open>ips\<close> are the host's interface addresses.
\<close>

theorem explicit_no_self_connection:
  "case explicit_into_flow (env\<lparr>ee_if_addrs := Ok ips, ee_tunnel := tun\<lparr>te_if_addrs := Ok ips\<rparr>\<rparr>) i conn of
     (Err e, c) \<Rightarrow> True
   | (Ok flow, c) \<Rightarrow>
       \<exists>target stream. proxy_target (pf_ingress flow) = Some target \<and> af_upstream (into_mitm_flow j flow) = Prepared stream
         \<and> (case ec_upstream conn of
              None \<Rightarrow>
                \<exists>addresses a peer s. resolve_target env target = Ok addresses
                  \<and> list_all (\<lambda>a. \<not> reaches_listener ips (ec_listen_addr conn) a) addresses
                  \<and> a \<in> set (ee_finish_order env addresses) \<and> ee_connect env a = Ok (Ok peer, s) \<and> bx_stream stream = s
            | Some px \<Rightarrow>
                list_all (\<lambda>a. \<not> reaches_listener ips (ec_listen_addr conn) a) (literal_addresses target)
                \<and> (\<exists>addresses. resolve (te_lookup tun) px = Ok addresses
                     \<and> list_all (\<lambda>a. \<not> reaches_listener ips (ec_listen_addr conn) a) addresses))"
  (is "case explicit_into_flow ?env i conn of (Err e, c) \<Rightarrow> True | (Ok flow, c) \<Rightarrow> ?good flow")
proof -
  have "?good flow" if ok: "explicit_into_flow ?env i conn = (Ok flow, c)" for flow c
  proof -
    from ok obtain decoded :: decoded_explicit_request and p :: prepared_explicit_upstream where p: "prepare_upstream ?env conn (er_target decoded) = Ok p"
      and f: "pf_ingress flow = ExplicitProxy (er_protocol decoded) (er_target decoded) (pe_proxy_peer p)
       (map_option (\<lambda>px. show_authority (px_endpoint px)) (ec_upstream conn))"
      and u: "pf_prepared_upstream flow = Some (pe_stream p)"
      by (rule explicit_flow_ok) blast
    from f have t: "proxy_target (pf_ingress flow) = Some (er_target decoded)" by simp
    show ?thesis
    proof (cases "ec_upstream conn")
      case None
      with p have "prepare_direct ?env conn (er_target decoded) = Ok p" by (simp add: prepare_upstream_def)
      then show ?thesis
        using t u None
        by (elim prepare_direct_ok) (auto simp: into_mitm_flow_upstream check_self_target_ok)
    next
      case (Some px)
      with p have "prepare_through_proxy ?env conn px (er_target decoded) = Ok p" by (simp add: prepare_upstream_def)
      then obtain tn where own: "targets_own_listener (Ok ips) (ec_listen_addr conn) (er_target decoded) = Ok False"
        and tn: "connect_tunnel (tun\<lparr>te_if_addrs := Ok ips\<rparr>) px (er_target decoded) [ec_listen_addr conn] = Ok tn"
        by (elim prepare_through_proxy_ok) simp
      from tn obtain addresses where "resolve (te_lookup tun) px = Ok addresses"
        "list_all (\<lambda>a. \<not> reaches_listener ips (ec_listen_addr conn) a) addresses"
        by (elim connect_tunnel_ok) (auto simp: check_loops_ok listener_contains_iff list_all_iff)
      with own t u Some show ?thesis
        by (auto simp: into_mitm_flow_upstream targets_own_listener_iff list_ex_iff list_all_iff)
    qed
  qed
  then show ?thesis by (auto split: prod.split sum.split)
qed

text \<open>
  C12. An explicit proxy connection reaches the engine as the client sent it. The client's request head is the first at
  most 16 KiB of what it sends, up to the first empty line, and is the one the parser read. Behind a CONNECT to the
  target, the engine reads exactly the bytes that follow the head, and its writes reach the client right after the 200
  answer. Behind an absolute-form request, it reads the client's method, the path and query of the requested URI, the
  target's Host, the client's header lines in order without the Host and the three proxy headers, the empty line, and
  then exactly the bytes that follow the head; nothing has been written to the client before the engine does.
\<close>

theorem explicit_flow_transparent:
  "case explicit_into_flow env i conn of
     (Err e, c) \<Rightarrow> True
   | (Ok flow, c) \<Rightarrow>
       (let sent = incoming (rd_side (ec_client conn)); engine = bx_stream (af_stream (into_mitm_flow j flow))
        in \<exists>target head_len raw meth raw_target.
          proxy_target (pf_ingress flow) = Some target \<and> target_wellformed target
          \<and> find_request_head_len sent = Some head_len \<and> head_len \<le> MAX_EXPLICIT_PROXY_HEADER_BYTES
          \<and> ee_parse_head env (take head_len sent) = Ok (Complete (head_len, raw))
          \<and> raw_method raw = Some meth \<and> raw_path raw = Some raw_target
          \<and> wr_side engine = wr_side c
          \<and> (case proxy_protocol (pf_ingress flow) of
               None \<Rightarrow> False
             | Some HttpConnect \<Rightarrow>
                 meth = ''CONNECT'' \<and> parse_target_authority (ee_authority env) raw_target None = Ok target
                 \<and> incoming (rd_side engine) = drop head_len sent
                 \<and> written (wr_side engine) = written (wr_side (ec_client conn))
                     @ ''HTTP/1.1 200 Connection Established'' @ CRLF @ CRLF
             | Some HttpAbsoluteForm \<Rightarrow>
                 meth \<noteq> ''CONNECT''
                 \<and> written (wr_side engine) = written (wr_side (ec_client conn))
                 \<and> (\<exists>u authority. ee_parse_uri env raw_target = Some u \<and> uri_authority u = Some authority
                     \<and> parse_target_authority (ee_authority env) authority (Some 80) = Ok target
                     \<and> incoming (rd_side engine) =
                         meth @ '' '' @ (case uri_path_and_query u of None \<Rightarrow> ''/'' | Some p \<Rightarrow> p) @ '' HTTP/1.1'' @ CRLF
                         @ ''Host: '' @ show_target_host (ta_host target)
                         @ (if ta_port target = 80 then [] else '':'' @ show_nat (unat (ta_port target))) @ CRLF
                         @ concat (map (\<lambda>(name, value). name @ '': '' @ value @ CRLF)
                             (filter (\<lambda>(name, value). list_all (\<lambda>h. \<not> eq_ignore_ascii_case name h)
                                [''host'', ''proxy-authorization'', ''proxy-connection'', ''proxy-authenticate''])
                              (raw_headers raw)))
                         @ CRLF @ drop head_len sent)))"
  (is "case _ of (Err e, c) \<Rightarrow> True | (Ok flow, c) \<Rightarrow> ?good flow c")
proof -
  have good: "?good flow c" if "explicit_into_flow env i conn = (Ok flow, c)" for flow c
    using that
  proof (rule explicit_flow_bytes)
    fix decoded :: decoded_explicit_request and buffer rest :: bytes and head_len peer upstream
    assume facts: "incoming (rd_side (ec_client conn)) = buffer @ rest" "head_len \<le> length buffer"
      "head_len \<le> MAX_EXPLICIT_PROXY_HEADER_BYTES" "find_request_head_len (buffer @ rest) = Some head_len"
      and parse: "parse_explicit_request (ee_parse_head env) (ee_authority env) (ee_parse_uri env) buffer head_len = Ok decoded"
      and f: "pf_ingress flow = ExplicitProxy (er_protocol decoded) (er_target decoded) peer upstream"
        "incoming (rd_side (bx_stream (af_stream (into_mitm_flow j flow)))) = er_client_prefix decoded @ rest"
        "wr_side (bx_stream (af_stream (into_mitm_flow j flow))) = wr_side c"
        "written (wr_side c) = written (wr_side (ec_client conn))
          @ (if er_protocol decoded = HttpConnect then response_bytes RespConnectionEstablished else [])"
    from parse obtain raw :: raw_request and meth raw_target where
      raw: "ee_parse_head env (take head_len buffer) = Ok (Complete (head_len, raw))"
        "raw_method raw = Some meth" "raw_path raw = Some raw_target"
      and how: "if meth = ''CONNECT'' then parse_connect (ee_authority env) buffer head_len raw_target (raw_headers raw) = Ok decoded
       else parse_absolute_http (ee_authority env) (ee_parse_uri env) buffer head_len meth raw_target (raw_headers raw) = Ok decoded"
      and wf: "target_wellformed (er_target decoded)"
      by (rule parse_explicit_exact)
    show ?thesis
    proof (cases "meth = ''CONNECT''")
      case True
      with how parse_connect_exact
      have "er_protocol decoded = HttpConnect" "parse_target_authority (ee_authority env) raw_target None = Ok (er_target decoded)"
        "er_client_prefix decoded = drop head_len buffer" by auto
      with True facts f raw wf show ?thesis by (simp add: Let_def)
    next
      case False
      with how have "parse_absolute_http (ee_authority env) (ee_parse_uri env) buffer head_len meth raw_target (raw_headers raw)
        = Ok decoded" by simp
      then show ?thesis
        by (rule parse_absolute_exact) (use False facts f raw wf in \<open>simp add: Let_def hop_headers_def split del: if_split\<close>)
    qed
  qed
  obtain res c where run: "explicit_into_flow env i conn = (res, c)" by fastforce
  show ?thesis
  proof (cases res)
    case (Inr flow)
    with run good show ?thesis by (simp only: prod.case sum.case)
  qed (simp add: run)
qed

end
