(* ===== verification/Traffic.thy ===== *)
theory Traffic
  imports Platform_Flow "HOL-Library.AList" "HOL-Library.Char_ord" "HOL-Library.List_Lexorder"
    "HOL-Library.Product_Lexorder" "HOL-Library.Multiset"
begin

text \<open>
  The live traffic monitor of the broker (\<^verbatim>\<open>crates/abyss-broker/src/traffic.rs\<close>): active flows with their
  counters, one-second rate buckets, and the snapshots the status API shows. Counters are \<^verbatim>\<open>u64\<close> with
  saturating arithmetic. A monitor's operations run under its mutex, so they are functions of its state; the wall
  clock and the fresh UUIDs are arguments.
\<close>

section \<open>Saturating arithmetic\<close>

definition saturating_add :: "u64 \<Rightarrow> u64 \<Rightarrow> u64" where
  "saturating_add a b = (if unat a + unat b < 2 ^ 64 then a + b else - 1)"

definition saturating_sub :: "u64 \<Rightarrow> u64 \<Rightarrow> u64" where
  "saturating_sub a b = (if b \<le> a then a - b else 0)"

definition saturating_mul :: "u64 \<Rightarrow> u64 \<Rightarrow> u64" where
  "saturating_mul a b = (if unat a * unat b < 2 ^ 64 then a * b else - 1)"

definition u64_max :: nat where
  "u64_max = 2 ^ 64 - 1"

lemma unat_minus_one_u64: "unat (- 1 :: u64) = u64_max"
  by (simp add: u64_max_def unsigned_minus_1_eq_mask mask_eq_exp_minus_1)

lemma unat_le_u64_max: "unat (a :: u64) \<le> u64_max"
  using u64_lt [of a] by (simp add: u64_max_def)

lemma unat_saturating_add: "unat (saturating_add a b) = min (unat a + unat b) u64_max"
  by (auto simp: saturating_add_def unat_add_lt unat_minus_one_u64 u64_max_def)

lemma unat_saturating_sub: "unat (saturating_sub a b) = unat a - unat b"
  by (auto simp: saturating_sub_def unat_sub word_le_nat_alt)

lemma unat_saturating_mul: "unat (saturating_mul a b) = min (unat a * unat b) u64_max"
  by (auto simp: saturating_mul_def unat_minus_one_u64 u64_max_def unat_word_ariths)

section \<open>State\<close>

definition RATE_BUCKET_MS :: u64 where
  "RATE_BUCKET_MS = 1000"

definition RATE_WINDOW_MS :: u64 where
  "RATE_WINDOW_MS = 5000"

definition MAX_RATE_BUCKETS :: nat where
  "MAX_RATE_BUCKETS = 6"

definition MAX_VISIBLE_FLOWS :: nat where
  "MAX_VISIBLE_FLOWS = 24"

record traffic_flow_metadata =
  tm_host :: string
  tm_process :: "string option"
  tm_pid :: "nat option"
  tm_application_id :: "string option"

record active_flow =
  fl_metadata :: traffic_flow_metadata
  fl_upload_bytes :: u64
  fl_download_bytes :: u64

record rate_bucket =
  rb_start_ms :: u64
  rb_upload_bytes :: u64
  rb_download_bytes :: u64

text \<open>The \<^verbatim>\<open>HashMap\<close> of flows is an association list with distinct keys; its iteration order is unspecified.\<close>

record 'id traffic_state =
  ts_flows :: "('id \<times> active_flow) list"
  ts_buckets :: "rate_bucket list"
  ts_total_upload_bytes :: u64
  ts_total_download_bytes :: u64

definition traffic_new :: "'id traffic_state" where
  "traffic_new = \<lparr>ts_flows = [], ts_buckets = [], ts_total_upload_bytes = 0, ts_total_download_bytes = 0\<rparr>"

record 'id traffic_flow_handle =
  th_id :: 'id
  th_started_at_unix_ms :: u64
  th_finished :: bool

text \<open>\<^verbatim>\<open>current_unix_ms\<close>: \<open>since_epoch\<close> is the clock in milliseconds, \<open>None\<close> before the epoch.\<close>

definition current_unix_ms :: "nat option \<Rightarrow> u64" where
  "current_unix_ms since_epoch =
     (case since_epoch of None \<Rightarrow> 0 | Some ms \<Rightarrow> if ms < 2 ^ 64 then of_nat ms else - 1)"

section \<open>Buckets\<close>

definition bucket_start :: "u64 \<Rightarrow> u64" where
  "bucket_start now = now - now mod RATE_BUCKET_MS"

text \<open>\<^verbatim>\<open>ensure_bucket\<close>, with the update its caller makes through the returned reference.\<close>

definition ensure_bucket :: "u64 \<Rightarrow> rate_bucket list \<Rightarrow> rate_bucket list" where
  "ensure_bucket now buckets =
     (let start = bucket_start now;
          pushed = (if buckets = [] \<or> rb_start_ms (last buckets) \<noteq> start
                    then buckets @ [\<lparr>rb_start_ms = start, rb_upload_bytes = 0, rb_download_bytes = 0\<rparr>]
                    else buckets)
      in drop (length pushed - MAX_RATE_BUCKETS) pushed)"

definition update_back :: "(rate_bucket \<Rightarrow> rate_bucket) \<Rightarrow> rate_bucket list \<Rightarrow> rate_bucket list" where
  "update_back f buckets = butlast buckets @ [f (last buckets)]"

definition bucket_expired :: "u64 \<Rightarrow> rate_bucket \<Rightarrow> bool" where
  "bucket_expired now b \<longleftrightarrow> saturating_add (rb_start_ms b) RATE_BUCKET_MS < saturating_sub now RATE_WINDOW_MS"

definition prune_buckets :: "u64 \<Rightarrow> rate_bucket list \<Rightarrow> rate_bucket list" where
  "prune_buckets now buckets = dropWhile (bucket_expired now) buckets"

definition recent_bytes :: "u64 \<Rightarrow> rate_bucket list \<Rightarrow> u64 \<times> u64" where
  "recent_bytes now buckets =
     foldl (\<lambda>(upload, download) b.
         (saturating_add upload (rb_upload_bytes b), saturating_add download (rb_download_bytes b)))
       (0, 0) (filter (\<lambda>b. \<not> bucket_expired now b) buckets)"

definition rate_elapsed_ms :: "u64 \<Rightarrow> rate_bucket list \<Rightarrow> u64" where
  "rate_elapsed_ms now buckets =
     (case buckets of
        [] \<Rightarrow> RATE_BUCKET_MS
      | b # _ \<Rightarrow>
          min RATE_WINDOW_MS (max RATE_BUCKET_MS (saturating_add (saturating_sub now (rb_start_ms b)) RATE_BUCKET_MS)))"

definition bytes_per_second :: "u64 \<Rightarrow> u64 \<Rightarrow> u64" where
  "bytes_per_second byte_count elapsed_ms = saturating_mul byte_count 1000 div max elapsed_ms 1"

section \<open>Operations\<close>

definition start_flow ::
  "'id \<Rightarrow> u64 \<Rightarrow> traffic_flow_metadata \<Rightarrow> 'id traffic_state \<Rightarrow> 'id traffic_flow_handle \<times> 'id traffic_state" where
  "start_flow fresh now metadata s =
     (\<lparr>th_id = fresh, th_started_at_unix_ms = now, th_finished = False\<rparr>,
      s\<lparr>ts_flows := AList.update fresh \<lparr>fl_metadata = metadata, fl_upload_bytes = 0, fl_download_bytes = 0\<rparr> (ts_flows s)\<rparr>)"

definition add_upload :: "u64 \<Rightarrow> active_flow \<Rightarrow> active_flow" where
  "add_upload n f = f\<lparr>fl_upload_bytes := saturating_add (fl_upload_bytes f) n\<rparr>"

definition add_download :: "u64 \<Rightarrow> active_flow \<Rightarrow> active_flow" where
  "add_download n f = f\<lparr>fl_download_bytes := saturating_add (fl_download_bytes f) n\<rparr>"

definition monitor_record_bytes ::
  "'id \<Rightarrow> traffic_direction \<Rightarrow> nat \<Rightarrow> u64 \<Rightarrow> 'id traffic_state \<Rightarrow> 'id traffic_state" where
  "monitor_record_bytes i direction byte_count now s =
     (if 2 ^ 64 \<le> byte_count then s
      else
        (let n = of_nat byte_count in
         case map_of (ts_flows s) i of
           None \<Rightarrow> s
         | Some flow \<Rightarrow>
             (case direction of
                ClientToUpstream \<Rightarrow>
                  s\<lparr>ts_flows := AList.update i (add_upload n flow) (ts_flows s),
                    ts_total_upload_bytes := saturating_add (ts_total_upload_bytes s) n,
                    ts_buckets := update_back (\<lambda>b. b\<lparr>rb_upload_bytes := saturating_add (rb_upload_bytes b) n\<rparr>)
                      (ensure_bucket now (ts_buckets s))\<rparr>
              | UpstreamToClient \<Rightarrow>
                  s\<lparr>ts_flows := AList.update i (add_download n flow) (ts_flows s),
                    ts_total_download_bytes := saturating_add (ts_total_download_bytes s) n,
                    ts_buckets := update_back (\<lambda>b. b\<lparr>rb_download_bytes := saturating_add (rb_download_bytes b) n\<rparr>)
                      (ensure_bucket now (ts_buckets s))\<rparr>)))"

definition finish_flow :: "'id \<Rightarrow> 'id traffic_state \<Rightarrow> 'id traffic_state" where
  "finish_flow i s = s\<lparr>ts_flows := AList.delete i (ts_flows s)\<rparr>"

text \<open>
  A handle works in two steps that other threads may fall between: first the atomic \<^verbatim>\<open>finished\<close> flag, then the
  monitor's lock. \<open>finish_swap\<close> is the swap of \<^verbatim>\<open>finish\<close>, with the old value it returns; only the call that finds it
  unset goes on to \<open>finish_flow\<close>. \<open>record_passes\<close> is the test \<^verbatim>\<open>record_bytes\<close> makes before it takes the lock.
\<close>

definition finish_swap :: "'id traffic_flow_handle \<Rightarrow> bool \<times> 'id traffic_flow_handle" where
  "finish_swap h = (th_finished h, h\<lparr>th_finished := True\<rparr>)"

definition record_passes :: "'id traffic_flow_handle \<Rightarrow> bool" where
  "record_passes h \<longleftrightarrow> \<not> th_finished h"

section \<open>Snapshots\<close>

record active_flow_snapshot =
  as_id :: string
  as_host :: string
  as_process :: "string option"
  as_pid :: "nat option"
  as_application_id :: "string option"
  as_upload_bytes :: u64
  as_download_bytes :: u64

record traffic_snapshot =
  sn_sampled_at_unix_ms :: u64
  sn_upload_bytes_per_second :: u64
  sn_download_bytes_per_second :: u64
  sn_total_upload_bytes :: u64
  sn_total_download_bytes :: u64
  sn_active_flows :: "active_flow_snapshot list"

definition flow_snapshot :: "('id \<Rightarrow> string) \<Rightarrow> 'id \<times> active_flow \<Rightarrow> active_flow_snapshot" where
  "flow_snapshot id_string entry =
     (case entry of (i, flow) \<Rightarrow>
        \<lparr>as_id = id_string i, as_host = tm_host (fl_metadata flow), as_process = tm_process (fl_metadata flow),
         as_pid = tm_pid (fl_metadata flow), as_application_id = tm_application_id (fl_metadata flow),
         as_upload_bytes = fl_upload_bytes flow, as_download_bytes = fl_download_bytes flow\<rparr>)"

text \<open>
  The comparator of \<^verbatim>\<open>sort_by\<close> as a key: larger totals first, then hosts in byte order. The sort is stable.
  \<open>hash_order\<close> is the order in which the map is iterated.
\<close>

definition flow_total :: "active_flow_snapshot \<Rightarrow> u64" where
  "flow_total f = saturating_add (as_upload_bytes f) (as_download_bytes f)"

definition flow_rank :: "active_flow_snapshot \<Rightarrow> nat \<times> string" where
  "flow_rank f = (u64_max - unat (flow_total f), as_host f)"

definition snapshot ::
  "('id \<Rightarrow> string) \<Rightarrow> (('id \<times> active_flow) list \<Rightarrow> ('id \<times> active_flow) list) \<Rightarrow> u64 \<Rightarrow> 'id traffic_state
   \<Rightarrow> traffic_snapshot \<times> 'id traffic_state" where
  "snapshot id_string hash_order now s =
     (let buckets = prune_buckets now (ts_buckets s);
          (upload, download) = recent_bytes now buckets;
          elapsed = rate_elapsed_ms now buckets
      in (\<lparr>sn_sampled_at_unix_ms = now,
           sn_upload_bytes_per_second = bytes_per_second upload elapsed,
           sn_download_bytes_per_second = bytes_per_second download elapsed,
           sn_total_upload_bytes = ts_total_upload_bytes s,
           sn_total_download_bytes = ts_total_download_bytes s,
           sn_active_flows =
             take MAX_VISIBLE_FLOWS (sort_key flow_rank (map (flow_snapshot id_string) (hash_order (ts_flows s))))\<rparr>,
          s\<lparr>ts_buckets := buckets\<rparr>))"

section \<open>Metadata\<close>

definition process_label :: "source_process \<Rightarrow> string option" where
  "process_label p =
     (case sp_name p of
        Some name \<Rightarrow> Some name
      | None \<Rightarrow> (case sp_application_id p of Some a \<Rightarrow> Some a | None \<Rightarrow> sp_executable_path p))"

fun show_destination :: "destination_address \<Rightarrow> bytes" where
  "show_destination (Known a) = show_authority \<lparr>ta_host = Ip (sa_ip a), ta_port = sa_port a\<rparr>"
| "show_destination Unknown = ''unresolved''"

definition metadata_from_platform_flow :: "platform_flow \<Rightarrow> traffic_flow_metadata" where
  "metadata_from_platform_flow f =
     (let m = pf_metadata f in
      \<lparr>tm_host = (case pm_destination_host m of Some h \<Rightarrow> h | None \<Rightarrow> show_destination (pm_original_destination m)),
       tm_process = Option.bind (pm_source_process m) process_label,
       tm_pid = Option.bind (pm_source_process m) sp_pid,
       tm_application_id = Option.bind (pm_source_process m) sp_application_id\<rparr>)"

section \<open>The monitor and its handles as a transition system\<close>

text \<open>
  Any number of threads share the handles. A record is two events, \<open>Passed\<close> the flag and \<open>Applied\<close> under the lock (or
  \<open>Dropped\<close> at the flag), a finish is \<open>Closed\<close> at the flag and \<open>Removed\<close> under the lock (or \<open>Refinished\<close>, a later
  finish that finds the flag set), and the events of different threads interleave in any order. The system state has,
  besides handles and monitor, the records between their two steps and the flows whose finish is between its two.
  UUIDs are fresh.
\<close>

datatype 'id traffic_event =
    Started 'id
  | Passed 'id traffic_direction nat
  | Dropped 'id traffic_direction nat
  | Applied 'id traffic_direction nat
  | Closed 'id
  | Refinished 'id
  | Removed 'id
  | Sampled traffic_snapshot

record 'id traffic_system =
  tr_handles :: "'id \<rightharpoonup> 'id traffic_flow_handle"
  tr_pending :: "('id \<times> traffic_direction \<times> nat) multiset"
  tr_removing :: "'id set"
  tr_monitor :: "'id traffic_state"

definition traffic_system_new :: "'id traffic_system" where
  "traffic_system_new = \<lparr>tr_handles = Map.empty, tr_pending = {#}, tr_removing = {}, tr_monitor = traffic_new\<rparr>"

inductive traffic_step ::
  "'id traffic_system \<Rightarrow> 'id traffic_event \<Rightarrow> 'id traffic_system \<Rightarrow> bool" where
  start: "\<lbrakk>tr_handles st i = None; start_flow i now metadata (tr_monitor st) = (h, s')\<rbrakk>
    \<Longrightarrow> traffic_step st (Started i) (st\<lparr>tr_handles := (tr_handles st)(i \<mapsto> h), tr_monitor := s'\<rparr>)"
| pass: "\<lbrakk>tr_handles st i = Some h; record_passes h\<rbrakk>
    \<Longrightarrow> traffic_step st (Passed i d n) (st\<lparr>tr_pending := add_mset (th_id h, d, n) (tr_pending st)\<rparr>)"
| stop: "\<lbrakk>tr_handles st i = Some h; \<not> record_passes h\<rbrakk> \<Longrightarrow> traffic_step st (Dropped i d n) st"
| apply_record: "(i, d, n) \<in># tr_pending st
    \<Longrightarrow> traffic_step st (Applied i d n)
          (st\<lparr>tr_pending := tr_pending st - {#(i, d, n)#}, tr_monitor := monitor_record_bytes i d n now (tr_monitor st)\<rparr>)"
| close: "\<lbrakk>tr_handles st i = Some h; finish_swap h = (False, h')\<rbrakk>
    \<Longrightarrow> traffic_step st (Closed i)
          (st\<lparr>tr_handles := (tr_handles st)(i \<mapsto> h'), tr_removing := insert (th_id h) (tr_removing st)\<rparr>)"
| again: "\<lbrakk>tr_handles st i = Some h; finish_swap h = (True, h')\<rbrakk>
    \<Longrightarrow> traffic_step st (Refinished i) (st\<lparr>tr_handles := (tr_handles st)(i \<mapsto> h')\<rparr>)"
| remove: "i \<in> tr_removing st
    \<Longrightarrow> traffic_step st (Removed i)
          (st\<lparr>tr_removing := tr_removing st - {i}, tr_monitor := finish_flow i (tr_monitor st)\<rparr>)"
| sample: "snapshot ids hash_order now (tr_monitor st) = (sn, s')
    \<Longrightarrow> traffic_step st (Sampled sn) (st\<lparr>tr_monitor := s'\<rparr>)"

inductive traffic_run :: "'id traffic_event list \<Rightarrow> 'id traffic_system \<Rightarrow> bool" where
  empty: "traffic_run [] traffic_system_new"
| step: "\<lbrakk>traffic_run evs st; traffic_step st e st'\<rbrakk> \<Longrightarrow> traffic_run (evs @ [e]) st'"

inductive_cases traffic_stepE: "traffic_step st e st'"

text \<open>The abstract monitor: live flows and totals in unbounded numbers.\<close>

record 'id abstract_traffic =
  ab_flows :: "'id \<rightharpoonup> nat \<times> nat"
  ab_upload :: nat
  ab_download :: nat

fun abstract_step :: "'id traffic_event \<Rightarrow> 'id abstract_traffic \<Rightarrow> 'id abstract_traffic" where
  "abstract_step (Started i) a = a\<lparr>ab_flows := (ab_flows a)(i \<mapsto> (0, 0))\<rparr>"
| "abstract_step (Applied i d n) a =
     (case ab_flows a i of
        None \<Rightarrow> a
      | Some (u, v) \<Rightarrow>
          if 2 ^ 64 \<le> n then a
          else
            (case d of
               ClientToUpstream \<Rightarrow> a\<lparr>ab_flows := (ab_flows a)(i \<mapsto> (u + n, v)), ab_upload := ab_upload a + n\<rparr>
             | UpstreamToClient \<Rightarrow> a\<lparr>ab_flows := (ab_flows a)(i \<mapsto> (u, v + n)), ab_download := ab_download a + n\<rparr>))"
| "abstract_step (Removed i) a = a\<lparr>ab_flows := (ab_flows a)(i := None)\<rparr>"
| "abstract_step _ a = a"

definition abstract_run :: "'id traffic_event list \<Rightarrow> 'id abstract_traffic" where
  "abstract_run evs = fold abstract_step evs \<lparr>ab_flows = Map.empty, ab_upload = 0, ab_download = 0\<rparr>"

text \<open>The monitor shows the abstract numbers, cut off at the largest 64-bit value.\<close>

definition clipped :: "nat \<Rightarrow> nat" where
  "clipped n = min n u64_max"

definition shows_traffic :: "'id abstract_traffic \<Rightarrow> 'id traffic_state \<Rightarrow> bool" where
  "shows_traffic a s \<longleftrightarrow>
     (\<lambda>i. map_option (\<lambda>f. (unat (fl_upload_bytes f), unat (fl_download_bytes f))) (map_of (ts_flows s) i))
       = (\<lambda>i. map_option (\<lambda>(u, v). (clipped u, clipped v)) (ab_flows a i))
   \<and> unat (ts_total_upload_bytes s) = clipped (ab_upload a)
   \<and> unat (ts_total_download_bytes s) = clipped (ab_download a)"

text \<open>
  The invariant: a handle knows its own id, a finished one has a flow only while its removal is under way, a flow
  appears once, there are at most six buckets and each starts on a whole second.
\<close>

definition monitor_inv :: "'id traffic_state \<Rightarrow> bool" where
  "monitor_inv s \<longleftrightarrow> distinct (map fst (ts_flows s)) \<and> length (ts_buckets s) \<le> MAX_RATE_BUCKETS
     \<and> list_all (\<lambda>b. rb_start_ms b mod RATE_BUCKET_MS = 0) (ts_buckets s)"

definition listed :: "'id traffic_state \<Rightarrow> 'id \<Rightarrow> bool" where
  "listed s i \<longleftrightarrow> map_of (ts_flows s) i \<noteq> None"

definition traffic_inv :: "'id traffic_system \<Rightarrow> bool" where
  "traffic_inv st \<longleftrightarrow>
     (\<forall>i. case tr_handles st i of
            None \<Rightarrow> i \<notin> tr_removing st \<and> \<not> listed (tr_monitor st) i
          | Some h \<Rightarrow> th_id h = i
              \<and> (if th_finished h then listed (tr_monitor st) i = (i \<in> tr_removing st)
                 else listed (tr_monitor st) i \<and> i \<notin> tr_removing st))
     \<and> monitor_inv (tr_monitor st)"

text \<open>
  The order the two-step operations keep, for an event and the events before it: a record passes the flag only before
  the flow is closed and is dropped only after, is applied once for every time it passed, a flow is closed once,
  removed once and only after it was closed, and a snapshot shows the totals of that moment.
\<close>

fun in_order :: "'id traffic_event list \<Rightarrow> 'id traffic_event \<Rightarrow> bool" where
  "in_order past (Started i) \<longleftrightarrow> Started i \<notin> set past"
| "in_order past (Passed i d n) \<longleftrightarrow> Started i \<in> set past \<and> Closed i \<notin> set past"
| "in_order past (Dropped i d n) \<longleftrightarrow> Closed i \<in> set past"
| "in_order past (Applied i d n) \<longleftrightarrow> count_list past (Applied i d n) < count_list past (Passed i d n)"
| "in_order past (Closed i) \<longleftrightarrow> Started i \<in> set past \<and> Closed i \<notin> set past"
| "in_order past (Refinished i) \<longleftrightarrow> Closed i \<in> set past"
| "in_order past (Removed i) \<longleftrightarrow> Closed i \<in> set past \<and> Removed i \<notin> set past"
| "in_order past (Sampled sn) \<longleftrightarrow>
     unat (sn_total_upload_bytes sn) = clipped (ab_upload (abstract_run past))
     \<and> unat (sn_total_download_bytes sn) = clipped (ab_download (abstract_run past))"

definition orderly :: "'id traffic_event list \<Rightarrow> bool" where
  "orderly evs \<longleftrightarrow> list_all (\<lambda>k. in_order (take k evs) (evs ! k)) [0..<length evs]"

text \<open>What the state knows of the events so far.\<close>

definition traces :: "'id traffic_event list \<Rightarrow> 'id traffic_system \<Rightarrow> bool" where
  "traces evs st \<longleftrightarrow>
     (\<forall>i. Started i \<in> set evs \<longleftrightarrow> tr_handles st i \<noteq> None)
     \<and> (\<forall>i. Closed i \<in> set evs \<longleftrightarrow> (\<exists>h. tr_handles st i = Some h \<and> th_finished h))
     \<and> (\<forall>i. i \<in> tr_removing st \<longleftrightarrow> Closed i \<in> set evs \<and> Removed i \<notin> set evs)
     \<and> (\<forall>i. Removed i \<in> set evs \<longrightarrow> Closed i \<in> set evs)
     \<and> (\<forall>i d n. count (tr_pending st) (i, d, n) + count_list evs (Applied i d n) = count_list evs (Passed i d n))"

section \<open>Lemmas\<close>

lemma clipped_add: "clipped (clipped n + m) = clipped (n + m)"
  by (auto simp: clipped_def)

lemma unat_saturating_clipped:
  "unat a = clipped n \<Longrightarrow> m < 2 ^ 64 \<Longrightarrow> unat (saturating_add a (of_nat m)) = clipped (n + m)"
  by (simp add: unat_saturating_add unat_of_nat_u64 clipped_def)

lemma bucket_start_aligned: "bucket_start now mod RATE_BUCKET_MS = 0"
proof -
  have "now - now mod 1000 = (now div 1000) * (1000 :: u64)" by (simp add: minus_mod_eq_div_mult)
  moreover have "unat ((now div 1000) * (1000 :: u64)) = unat now div 1000 * 1000"
    using u64_lt [of now] by (simp add: unat_word_ariths)
  ultimately have "unat (bucket_start now mod RATE_BUCKET_MS) = 0"
    by (simp add: bucket_start_def RATE_BUCKET_MS_def unat_mod_distrib)
  then show ?thesis by (simp add: unat_eq_zero)
qed

lemma ensure_bucket_bounds:
  "length (ensure_bucket now bs) \<le> MAX_RATE_BUCKETS \<and> ensure_bucket now bs \<noteq> []"
  by (cases bs) (auto simp: ensure_bucket_def MAX_RATE_BUCKETS_def Let_def)

lemma ensure_bucket_aligned:
  "list_all (\<lambda>b. rb_start_ms b mod RATE_BUCKET_MS = 0) bs \<Longrightarrow>
     list_all (\<lambda>b. rb_start_ms b mod RATE_BUCKET_MS = 0) (ensure_bucket now bs)"
  by (auto simp: ensure_bucket_def Let_def list_all_iff bucket_start_aligned dest: in_set_dropD)

lemma update_back_length: "bs \<noteq> [] \<Longrightarrow> length (update_back f bs) = length bs"
  by (cases bs rule: rev_cases) (auto simp: update_back_def)

lemma update_back_all: "bs \<noteq> [] \<Longrightarrow> list_all P bs \<Longrightarrow> P (f (last bs)) \<Longrightarrow> list_all P (update_back f bs)"
  by (cases bs rule: rev_cases) (auto simp: update_back_def)

lemma prune_buckets_bounds:
  "length (prune_buckets now bs) \<le> length bs" "list_all P bs \<Longrightarrow> list_all P (prune_buckets now bs)"
  by (auto simp: prune_buckets_def length_dropWhile_le list_all_iff dest: set_dropWhileD)

lemma monitor_record_bytes_cases:
  obtains "monitor_record_bytes i d n now s = s" "map_of (ts_flows s) i = None \<or> 2 ^ 64 \<le> n"
  | flow f where "map_of (ts_flows s) i = Some flow" "n < 2 ^ 64"
    "monitor_record_bytes i d n now s =
       s\<lparr>ts_flows := AList.update i (case d of ClientToUpstream \<Rightarrow> add_upload (of_nat n) flow
                                    | UpstreamToClient \<Rightarrow> add_download (of_nat n) flow) (ts_flows s),
         ts_total_upload_bytes := (case d of ClientToUpstream \<Rightarrow> saturating_add (ts_total_upload_bytes s) (of_nat n)
                                   | UpstreamToClient \<Rightarrow> ts_total_upload_bytes s),
         ts_total_download_bytes := (case d of ClientToUpstream \<Rightarrow> ts_total_download_bytes s
                                     | UpstreamToClient \<Rightarrow> saturating_add (ts_total_download_bytes s) (of_nat n)),
         ts_buckets := update_back f (ensure_bucket now (ts_buckets s))\<rparr>"
    "\<And>b. rb_start_ms (f b) = rb_start_ms b"
proof (cases "2 ^ 64 \<le> n \<or> map_of (ts_flows s) i = None")
  case True
  then show ?thesis by (intro that(1)) (auto simp: monitor_record_bytes_def Let_def)
next
  case False
  then obtain flow where flow: "map_of (ts_flows s) i = Some flow" by auto
  show ?thesis
  proof (cases d)
    case ClientToUpstream
    show ?thesis
      by (rule that(2) [of flow "\<lambda>b. b\<lparr>rb_upload_bytes := saturating_add (rb_upload_bytes b) (of_nat n)\<rparr>"])
        (use False flow ClientToUpstream in \<open>auto simp: monitor_record_bytes_def Let_def\<close>)
  next
    case UpstreamToClient
    show ?thesis
      by (rule that(2) [of flow "\<lambda>b. b\<lparr>rb_download_bytes := saturating_add (rb_download_bytes b) (of_nat n)\<rparr>"])
        (use False flow UpstreamToClient in \<open>auto simp: monitor_record_bytes_def Let_def\<close>)
  qed
qed

lemma listed_simps [simp]:
  "\<not> listed traffic_new k"
  "listed (snd (start_flow i now metadata s)) k \<longleftrightarrow> k = i \<or> listed s k"
  "listed (finish_flow i s) k \<longleftrightarrow> k \<noteq> i \<and> listed s k"
  by (auto simp: listed_def traffic_new_def start_flow_def finish_flow_def update_conv' delete_conv'
      simp del: map_of_eq_None_iff)

lemma listed_record [simp]: "listed (monitor_record_bytes i d n now s) k \<longleftrightarrow> listed s k"
  by (cases rule: monitor_record_bytes_cases [of i d n now s])
    (auto simp: listed_def update_conv' simp del: map_of_eq_None_iff)

lemma snapshot_frame:
  assumes "snapshot ids hash_order now s = (sn, s')"
  shows "ts_flows s' = ts_flows s" "ts_buckets s' = prune_buckets now (ts_buckets s)"
    "ts_total_upload_bytes s' = ts_total_upload_bytes s" "ts_total_download_bytes s' = ts_total_download_bytes s"
    "sn_total_upload_bytes sn = ts_total_upload_bytes s" "sn_total_download_bytes sn = ts_total_download_bytes s"
  using assms by (auto simp: snapshot_def Let_def split: prod.splits)

lemma record_inv:
  assumes "monitor_inv s"
  shows "monitor_inv (monitor_record_bytes i d n now s)"
proof (cases rule: monitor_record_bytes_cases [of i d n now s])
  case 1
  with assms show ?thesis by simp
next
  case (2 flow f)
  note e = ensure_bucket_bounds [of now "ts_buckets s"] ensure_bucket_aligned [of "ts_buckets s" now]
  have "list_all (\<lambda>b. rb_start_ms b mod RATE_BUCKET_MS = 0) (update_back f (ensure_bucket now (ts_buckets s)))"
    using e assms(1) by (intro update_back_all) (auto simp: monitor_inv_def 2(4) list_all_iff)
  then show ?thesis
    using assms e unfolding 2(3)
    by (auto simp: monitor_inv_def update_back_length distinct_update)
qed

lemma record_shows:
  assumes "shows_traffic a s"
  shows "shows_traffic (abstract_step (Applied i d n) a) (monitor_record_bytes i d n now s)"
proof (cases rule: monitor_record_bytes_cases [of i d n now s])
  case 1
  with assms have "ab_flows a i = None \<or> 2 ^ 64 \<le> n"
    by (auto simp: shows_traffic_def dest: fun_cong [where x = i])
  then have "abstract_step (Applied i d n) a = a" by (auto split: option.split)
  with 1 assms show ?thesis by simp
next
  case (2 flow f)
  have flows: "map_option (\<lambda>f. (unat (fl_upload_bytes f), unat (fl_download_bytes f))) (map_of (ts_flows s) k)
       = map_option (\<lambda>(u, v). (clipped u, clipped v)) (ab_flows a k)" for k
    using assms by (auto simp: shows_traffic_def dest: fun_cong [where x = k])
  with 2(1) obtain u v where uv: "ab_flows a i = Some (u, v)" "unat (fl_upload_bytes flow) = clipped u"
    "unat (fl_download_bytes flow) = clipped v"
    using flows [of i] by (cases "ab_flows a i") auto
  show ?thesis
    unfolding shows_traffic_def
  proof (intro conjI ext)
    fix k
    show "map_option (\<lambda>f. (unat (fl_upload_bytes f), unat (fl_download_bytes f)))
         (map_of (ts_flows (monitor_record_bytes i d n now s)) k)
       = map_option (\<lambda>(u, v). (clipped u, clipped v)) (ab_flows (abstract_step (Applied i d n) a) k)"
      unfolding 2(3) using uv 2(2) flows [of k]
      by (cases d) (auto simp: update_conv' add_upload_def add_download_def unat_saturating_clipped)
  next
    show "unat (ts_total_upload_bytes (monitor_record_bytes i d n now s)) = clipped (ab_upload (abstract_step (Applied i d n) a))"
      unfolding 2(3) using assms uv 2(2) by (cases d) (simp_all add: shows_traffic_def unat_saturating_clipped)
    show "unat (ts_total_download_bytes (monitor_record_bytes i d n now s)) = clipped (ab_download (abstract_step (Applied i d n) a))"
      unfolding 2(3) using assms uv 2(2) by (cases d) (simp_all add: shows_traffic_def unat_saturating_clipped)
  qed
qed

lemma start_inv: "monitor_inv s \<Longrightarrow> monitor_inv (snd (start_flow i now metadata s))"
  by (simp add: monitor_inv_def start_flow_def distinct_update)

lemma finish_inv: "monitor_inv s \<Longrightarrow> monitor_inv (finish_flow i s)"
  by (simp add: monitor_inv_def finish_flow_def distinct_delete)

lemma snapshot_inv: "snapshot ids hash_order now s = (sn, s') \<Longrightarrow> monitor_inv s \<Longrightarrow> monitor_inv s'"
  using prune_buckets_bounds(1) [of now "ts_buckets s"]
  by (simp add: monitor_inv_def snapshot_frame prune_buckets_bounds(2))

lemma start_flow_facts:
  assumes "start_flow i now metadata s = (h, s')"
  shows "th_id h = i" "\<not> th_finished h" "listed s' k \<longleftrightarrow> k = i \<or> listed s k" "monitor_inv s \<Longrightarrow> monitor_inv s'"
  using assms start_inv [of s i now metadata] listed_simps(2) [of i now metadata s k]
  by (auto simp: start_flow_def)

text \<open>Each step keeps the invariant, moves the abstract monitor along, and keeps the order of events.\<close>

lemmas traffic_inv_at = traffic_inv_def [THEN iffD1, THEN conjunct1, rule_format]
lemmas traffic_inv_monitor = traffic_inv_def [THEN iffD1, THEN conjunct2]

lemma traffic_step_monitor: "traffic_step st e st' \<Longrightarrow> monitor_inv (tr_monitor st) \<Longrightarrow> monitor_inv (tr_monitor st')"
  by (erule traffic_step.cases) (auto simp: start_flow_facts(4) record_inv finish_inv snapshot_inv)

lemma traffic_step_handles:
  assumes "traffic_step st e st'" and inv: "traffic_inv st"
  shows "case tr_handles st' k of
      None \<Rightarrow> k \<notin> tr_removing st' \<and> \<not> listed (tr_monitor st') k
    | Some h \<Rightarrow> th_id h = k
        \<and> (if th_finished h then listed (tr_monitor st') k = (k \<in> tr_removing st')
           else listed (tr_monitor st') k \<and> k \<notin> tr_removing st')"
proof -
  note at = traffic_inv_at [OF inv]
  from assms(1) show ?thesis
  proof cases
    case (start i now metadata h s')
    with at [of k] start_flow_facts [OF start(4)] show ?thesis by (cases "k = i") (simp_all split: option.splits)
  next
    case (close i h h')
    with at [of k] at [of i] show ?thesis by (cases "k = i") (auto simp: finish_swap_def split: option.splits if_splits)
  next
    case (again i h h')
    with at [of k] show ?thesis by (cases "k = i") (auto simp: finish_swap_def split: option.splits if_splits)
  next
    case (remove i)
    with at [of k] at [of i] show ?thesis by (cases "k = i") (auto split: option.splits if_splits)
  next
    case (sample ids hash_order now sn s')
    then have "listed (tr_monitor st') = listed (tr_monitor st)" by (simp add: fun_eq_iff listed_def snapshot_frame)
    with at [of k] sample show ?thesis by (simp split: option.splits)
  qed (use at [of k] in \<open>simp_all split: option.splits\<close>)
qed

lemma traffic_step_inv: "traffic_step st e st' \<Longrightarrow> traffic_inv st \<Longrightarrow> traffic_inv st'"
  using traffic_step_handles [of st e st'] traffic_step_monitor [of st e st'] traffic_inv_monitor [of st]
  unfolding traffic_inv_def [of st'] by blast

lemma traffic_step_shows:
  assumes "traffic_step st e st'" and inv: "traffic_inv st" and shown: "shows_traffic a (tr_monitor st)"
  shows "shows_traffic (abstract_step e a) (tr_monitor st')"
  using assms(1)
proof cases
  case (apply_record i d n now)
  with record_shows [OF shown] show ?thesis by simp
next
  case (sample ids hash_order now sn s')
  with shown show ?thesis by (simp add: shows_traffic_def snapshot_frame)
qed (use shown in \<open>auto simp: start_flow_def finish_flow_def shows_traffic_def update_conv' delete_conv' clipped_def
  fun_eq_iff simp del: map_of_eq_None_iff\<close>)

lemma traces_at:
  assumes "traces evs st"
  shows "Started i \<in> set evs \<longleftrightarrow> tr_handles st i \<noteq> None"
    and "Closed i \<in> set evs \<longleftrightarrow> (\<exists>h. tr_handles st i = Some h \<and> th_finished h)"
    and "i \<in> tr_removing st \<longleftrightarrow> Closed i \<in> set evs \<and> Removed i \<notin> set evs"
    and "Removed i \<in> set evs \<Longrightarrow> Closed i \<in> set evs"
    and "count (tr_pending st) (i, d, n) + count_list evs (Applied i d n) = count_list evs (Passed i d n)"
  using assms unfolding traces_def by blast+

lemma traffic_step_traces:
  assumes "traffic_step st e st'" and inv: "traffic_inv st" and "traces evs st"
  shows "traces (evs @ [e]) st'"
  using assms(1)
proof cases
  case (start i now metadata h s')
  from start(3) traces_at [OF assms(3)] start_flow_facts [OF start(4)] show ?thesis
    unfolding start(1,2) traces_def by auto
next
  case (apply_record i d n now)
  then have "count (tr_pending st) (i, d, n) > 0" by simp
  then have "count_list evs (Passed i d n) > 0" using traces_at(5) [OF assms(3), of i d n] by linarith
  with apply_record traces_at [OF assms(3)] show ?thesis unfolding traces_def by auto
next
  case (pass i h d n)
  with traffic_inv_at [OF inv, of i] traces_at [OF assms(3)] show ?thesis unfolding traces_def by auto
next
  case (close i h h')
  then have "Removed i \<notin> set evs" "th_id h = i"
    using traces_at(2,4) [OF assms(3), of i] traffic_inv_at [OF inv, of i] by (auto simp: finish_swap_def)
  with close traces_at [OF assms(3)] show ?thesis unfolding traces_def by (auto simp: finish_swap_def)
next
  case (again i h h')
  with traces_at [OF assms(3)] show ?thesis unfolding traces_def by (auto simp: finish_swap_def)
next
  case (remove i)
  with traces_at [OF assms(3)] show ?thesis unfolding traces_def by auto
qed (use traces_at [OF assms(3)] in \<open>auto simp: traces_def\<close>)

lemma traffic_step_in_order:
  assumes "traffic_step st e st'" and inv: "traffic_inv st" and tr: "traces evs st"
    and shown: "shows_traffic (abstract_run evs) (tr_monitor st)"
  shows "in_order evs e"
  using assms(1)
proof cases
  case (apply_record i d n now)
  then have "count (tr_pending st) (i, d, n) > 0" by simp
  then have "count_list evs (Applied i d n) < count_list evs (Passed i d n)"
    using traces_at(5) [OF tr, of i d n] by linarith
  with apply_record show ?thesis by simp
next
  case (sample ids hash_order now sn s')
  with shown show ?thesis by (simp add: snapshot_frame shows_traffic_def)
qed (use traces_at(1-4) [OF tr] in \<open>auto simp: finish_swap_def record_passes_def\<close>)

lemma abstract_run_snoc: "abstract_run (evs @ [e]) = abstract_step e (abstract_run evs)"
  by (simp add: abstract_run_def)

lemma orderly_Nil [simp]: "orderly []"
  by (simp add: orderly_def)

lemma orderly_snoc: "orderly (evs @ [e]) \<longleftrightarrow> orderly evs \<and> in_order evs e"
  by (auto simp: orderly_def list_all_iff nth_append)

lemma traffic_run_sound:
  "traffic_run evs st \<Longrightarrow> traffic_inv st \<and> traces evs st \<and> shows_traffic (abstract_run evs) (tr_monitor st) \<and> orderly evs"
proof (induction rule: traffic_run.induct)
  case empty
  show ?case
    by (simp add: shows_traffic_def abstract_run_def traffic_new_def traffic_system_new_def traffic_inv_def monitor_inv_def
        traces_def clipped_def listed_def)
next
  case (step evs st e st')
  then have "traffic_inv st" "traces evs st" "shows_traffic (abstract_run evs) (tr_monitor st)" "orderly evs" by blast+
  with traffic_step_inv [OF step(2)] traffic_step_traces [OF step(2)] traffic_step_in_order [OF step(2)]
    traffic_step_shows [OF step(2)] orderly_snoc abstract_run_snoc
  show ?case by metis
qed

text \<open>A flow is listed from its start to its removal, and not beyond.\<close>

lemma traffic_listed:
  assumes "traffic_inv st" and "traces evs st"
  shows "dom (map_of (ts_flows (tr_monitor st))) = {i. Started i \<in> set evs \<and> Removed i \<notin> set evs}"
proof -
  have "listed (tr_monitor st) i \<longleftrightarrow> Started i \<in> set evs \<and> Removed i \<notin> set evs" for i
    using traffic_inv_at [OF assms(1), of i] traces_at(1-4) [OF assms(2), of i]
    by (auto split: option.splits if_splits)
  then show ?thesis unfolding dom_def listed_def by simp
qed

lemma rate_elapsed_range: "1000 \<le> unat (rate_elapsed_ms now bs) \<and> unat (rate_elapsed_ms now bs) \<le> 5000"
  by (cases bs) (auto simp: rate_elapsed_ms_def RATE_BUCKET_MS_def RATE_WINDOW_MS_def min_def max_def word_le_nat_alt)

lemma unat_bytes_per_second:
  "1 \<le> elapsed \<Longrightarrow> unat (bytes_per_second n elapsed) = min (unat n * 1000) u64_max div unat elapsed"
  by (simp add: bytes_per_second_def max_absorb1 unat_div_distrib unat_saturating_mul)

section \<open>Properties\<close>

text \<open>
  C14. The monitor counts exactly, with any number of threads recording, finishing and taking snapshots at once. In every
  interleaving, the flows it lists are those started and not yet removed, and every counter and total is the true number
  of bytes of the records applied to a listed flow, cut off at the largest 64-bit value. A record is applied at most once,
  and only if it passed the handle's flag before the flow was closed; a flow is closed and removed at most once, in this
  order. Between the two the flow is still listed: the records that passed before are still counted, the ones that come
  then are dropped at the flag and are in no counter. Every snapshot shows the totals of its moment. At most six buckets
  exist, all on whole seconds.
\<close>

theorem traffic_counts:
  assumes "traffic_run evs st"
  shows "shows_traffic (abstract_run evs) (tr_monitor st) \<and> traffic_inv st \<and> orderly evs
    \<and> dom (map_of (ts_flows (tr_monitor st))) = {i. Started i \<in> set evs \<and> Removed i \<notin> set evs}"
  using traffic_run_sound [OF assms] traffic_listed by blast

text \<open>
  A run in which the flow is closed between the two steps of one record and before another: the first is counted, the
  second dropped, and the flow is listed until the removal.
\<close>

theorem traffic_counts_witness:
  "\<exists>st :: nat traffic_system. shows_traffic (abstract_run [Started (7 :: nat), Passed 7 ClientToUpstream 5, Closed 7,
        Dropped 7 ClientToUpstream 9, Applied 7 ClientToUpstream 5, Removed 7]) (tr_monitor st)
     \<and> ts_total_upload_bytes (tr_monitor st) = 5 \<and> map_of (ts_flows (tr_monitor st)) 7 = None"
proof -
  let ?md = "\<lparr>tm_host = ''h'', tm_process = None, tm_pid = None, tm_application_id = None\<rparr>"
  obtain h s1 where 1: "start_flow (7 :: nat) 0 ?md traffic_new = (h, s1)" by fastforce
  then have h: "th_id h = 7" "record_passes h" "finish_swap h = (False, h\<lparr>th_finished := True\<rparr>)"
    by (auto simp: start_flow_def record_passes_def finish_swap_def)
  note run = traffic_run.step [OF traffic_run.empty traffic_step.start [of traffic_system_new 7 0 ?md h s1]]
  note run = traffic_run.step [OF run traffic_step.pass [where i = 7 and d = ClientToUpstream and n = 5 and h = h]]
  note run = traffic_run.step [OF run traffic_step.close [where i = 7, OF _ h(3)]]
  note run = traffic_run.step [OF run traffic_step.stop [where i = 7 and d = ClientToUpstream and n = 9
        and h = "h\<lparr>th_finished := True\<rparr>"]]
  note run = traffic_run.step [OF run traffic_step.apply_record [where i = 7 and d = ClientToUpstream and n = 5 and now = 0]]
  note run = traffic_run.step [OF run traffic_step.remove [where i = 7]]
  obtain st where "traffic_run [Started (7 :: nat), Passed 7 ClientToUpstream 5, Closed 7,
      Dropped 7 ClientToUpstream 9, Applied 7 ClientToUpstream 5, Removed 7] st"
    using run 1 h by (auto simp: traffic_system_new_def record_passes_def)
  note counts = traffic_counts [OF this]
  then have "unat (ts_total_upload_bytes (tr_monitor st)) = 5"
    by (simp add: abstract_run_def shows_traffic_def clipped_def u64_max_def)
  then have "ts_total_upload_bytes (tr_monitor st) = 5" by (simp add: word_unat_eq_iff)
  moreover from counts have "map_of (ts_flows (tr_monitor st)) 7 = None" by (simp add: dom_def)
  ultimately show ?thesis using counts [THEN conjunct1] by blast
qed

text \<open>
  A snapshot shows the busiest flows and a bounded rate: at most 24 flows, ordered by their total bytes and then by
  host, with no hidden flow ranking before a shown one; the rates are the bytes of the recent buckets spread over a time
  between one and five seconds, whatever the clock does.
\<close>

theorem traffic_snapshot_busiest:
  assumes "mset (hash_order (ts_flows s)) = mset (ts_flows s)"
  shows "case snapshot ids hash_order now s of (sn, s') \<Rightarrow>
     length (sn_active_flows sn) \<le> MAX_VISIBLE_FLOWS
   \<and> sorted (map flow_rank (sn_active_flows sn))
   \<and> (\<exists>hidden. mset (sn_active_flows sn) + mset hidden = mset (map (flow_snapshot ids) (ts_flows s))
        \<and> (\<forall>f \<in> set (sn_active_flows sn). \<forall>g \<in> set hidden. flow_rank f \<le> flow_rank g))
   \<and> (\<exists>elapsed. 1000 \<le> elapsed \<and> elapsed \<le> 5000
        \<and> unat (sn_upload_bytes_per_second sn) = min (unat (fst (recent_bytes now (ts_buckets s'))) * 1000) u64_max div elapsed
        \<and> unat (sn_download_bytes_per_second sn) = min (unat (snd (recent_bytes now (ts_buckets s'))) * 1000) u64_max div elapsed)"
proof -
  obtain sn s' where run: "snapshot ids hash_order now s = (sn, s')" by fastforce
  let ?sorted = "sort_key flow_rank (map (flow_snapshot ids) (hash_order (ts_flows s)))"
  have flows: "sn_active_flows sn = take MAX_VISIBLE_FLOWS ?sorted"
    using run by (auto simp: snapshot_def Let_def split: prod.splits)
  have srt: "sorted (map flow_rank (take MAX_VISIBLE_FLOWS ?sorted) @ map flow_rank (drop MAX_VISIBLE_FLOWS ?sorted))"
    by (simp flip: map_append)
  have "mset (take MAX_VISIBLE_FLOWS ?sorted) + mset (drop MAX_VISIBLE_FLOWS ?sorted) = mset (map (flow_snapshot ids) (ts_flows s))"
    using assms by (simp flip: mset_append)
  then have hidden: "\<exists>hidden. mset (sn_active_flows sn) + mset hidden = mset (map (flow_snapshot ids) (ts_flows s))
        \<and> (\<forall>f \<in> set (sn_active_flows sn). \<forall>g \<in> set hidden. flow_rank f \<le> flow_rank g)"
    using srt by (intro exI [of _ "drop MAX_VISIBLE_FLOWS ?sorted"]) (auto simp: flows sorted_append)
  let ?e = "rate_elapsed_ms now (ts_buckets s')"
  have e: "1000 \<le> unat ?e" "unat ?e \<le> 5000" using rate_elapsed_range by auto
  then have "1 \<le> ?e" by (simp add: word_le_nat_alt)
  then have "unat (sn_upload_bytes_per_second sn) = min (unat (fst (recent_bytes now (ts_buckets s'))) * 1000) u64_max div unat ?e"
    "unat (sn_download_bytes_per_second sn) = min (unat (snd (recent_bytes now (ts_buckets s'))) * 1000) u64_max div unat ?e"
    using run by (auto simp: snapshot_def Let_def unat_bytes_per_second split: prod.splits)
  with e hidden srt show ?thesis
    by (auto simp: run flows sorted_append)
qed

theorem traffic_snapshot_busiest_witness:
  "length (sn_active_flows (fst (snapshot (\<lambda>i :: nat. ''id'') rev 0 traffic_new))) \<le> MAX_VISIBLE_FLOWS"
  using traffic_snapshot_busiest [where hash_order = rev and s = "traffic_new :: nat traffic_state" and ids = "\<lambda>i. ''id''" and now = 0]
  by (auto split: prod.splits)

text \<open>
  A steady 1000 bytes per second is reported as 1200: six buckets are kept while the time is cut off at five seconds.
\<close>

lemma steady_rate_overestimated:
  "sn_upload_bytes_per_second
     (fst (snapshot (\<lambda>i :: nat. ''id'') id 10999
       (fold (\<lambda>now. monitor_record_bytes 7 ClientToUpstream 1000 now) [0, 1000, 2000, 3000, 4000, 5000, 6000, 7000, 8000, 9000, 10000]
         (snd (start_flow 7 0 \<lparr>tm_host = ''h'', tm_process = None, tm_pid = None, tm_application_id = None\<rparr> traffic_new)))))
   = 1200"
  by (simp add: start_flow_def traffic_new_def monitor_record_bytes_def add_upload_def ensure_bucket_def bucket_start_def
      update_back_def saturating_add_def saturating_sub_def saturating_mul_def MAX_RATE_BUCKETS_def RATE_BUCKET_MS_def
      RATE_WINDOW_MS_def snapshot_def prune_buckets_def bucket_expired_def recent_bytes_def rate_elapsed_ms_def
      bytes_per_second_def)

end
