(* ===== verification/Spec2Isabelle.thy ===== *)
theory Spec2Isabelle
  imports Body_Props Engine_Props Macos_Ingress Runtime_Config Cli_Login Agent_Props Stream_Props Broker_Startup Explicit_Ingress Traffic
begin

text \<open>
  \<^bold>\<open>A verification of the interception pipeline of abyss-rs.\<close>

  \<^bold>\<open>The program.\<close> Abyss is a local broker that intercepts the TLS and HTTP traffic of coding agents, relays it
  unchanged and hands observed exchanges to hooks. Adapters (an explicit proxy listener, the macOS and Windows
  redirectors) produce flows; the engine of \<^verbatim>\<open>crates/abyss-mitm\<close> detects each flow's protocol, asks the decryption
  policy, and passes the bytes through or relays HTTP/1 messages; the relay forwards bodies while capturing a bounded
  copy; captured exchanges go through a bounded queue to hooks; plugins receive the resulting events over a framed
  protocol; a traffic monitor counts bytes.

  \<^bold>\<open>Layers and theories\<close> (source paths under \<^verbatim>\<open>src/crates\<close>; \<^verbatim>\<open>T\<close> is \<^verbatim>\<open>abyss-mitm/src/transparent\<close>,
  \<^verbatim>\<open>B\<close> is \<^verbatim>\<open>abyss-broker/src\<close>):

  \<^item> \<^verbatim>\<open>Prelude\<close>, \<^verbatim>\<open>Rust_Str\<close>, \<^verbatim>\<open>Ip_Addr\<close>: bytes, results, checked arithmetic, and what the code uses of Rust's
    string and address types, parsers and printers included.
  \<^item> \<^verbatim>\<open>Stream_IO\<close> (\<^verbatim>\<open>T/io.rs\<close>): sockets as scripts of segments and faults, \<^verbatim>\<open>write_all\<close>, the prefixed and the
    observed stream. The locale \<^verbatim>\<open>byte_source\<close> states what a reader may rely on and is interpreted for the plain script,
    the prefixed stream and the observed stream, so read loops are verified once for every segmentation. \<^verbatim>\<open>Read_Sequence\<close>
    says what a run of reads with buffers of any positive sizes returns.
  \<^item> \<^verbatim>\<open>Http_Types\<close>, \<^verbatim>\<open>Http_Utils\<close>, \<^verbatim>\<open>Http1\<close> (\<^verbatim>\<open>T/utils.rs\<close>, \<^verbatim>\<open>abyss-mitm/src/http1.rs\<close>): header maps (locale
    \<^verbatim>\<open>header_multimap\<close>), framing decisions, the bounded head reader.
  \<^item> \<^verbatim>\<open>Target_Authority\<close>, \<^verbatim>\<open>Explicit_Http\<close> (\<^verbatim>\<open>abyss-mitm/src/explicit_http.rs\<close>): targets, and the decoder of explicit
    proxy requests. \<^verbatim>\<open>Flow_Types\<close> (\<^verbatim>\<open>T/types.rs\<close>, \<^verbatim>\<open>T/destination.rs\<close>): flow metadata, errors, name validation.
  \<^item> \<^verbatim>\<open>Captured_Body\<close>, \<^verbatim>\<open>Chunked_Body\<close>, \<^verbatim>\<open>Chunked_Props\<close>, \<^verbatim>\<open>Body_Forward\<close>, \<^verbatim>\<open>Body_Props\<close> (\<^verbatim>\<open>T/body.rs\<close>,
    \<^verbatim>\<open>T/relay.rs\<close>): bounded capture, the incremental chunked decoder, and body forwarding in the four framings; the
    locales \<^verbatim>\<open>body_sink\<close> and \<^verbatim>\<open>body_relay\<close> carry the loops. \<^verbatim>\<open>Complete_Body\<close> specifies, without the decoder's state, which
    bytes a completely framed body is, and shows that forwarding succeeds on no others.
  \<^item> \<^verbatim>\<open>Content_Encoding\<close>, \<^verbatim>\<open>Hook\<close>, \<^verbatim>\<open>Websocket\<close>, \<^verbatim>\<open>Relay\<close>, \<^verbatim>\<open>Relay_Props\<close> (\<^verbatim>\<open>T/content_encoding.rs\<close>,
    \<^verbatim>\<open>T/hook.rs\<close>, \<^verbatim>\<open>T/websocket.rs\<close>, \<^verbatim>\<open>T/relay.rs\<close>): decoding of captured bodies, the hook chain and its queue as a
    step relation, the frame relay, and one whole exchange.
  \<^item> \<^verbatim>\<open>Decrypt_Policy\<close>, \<^verbatim>\<open>Detection\<close>, \<^verbatim>\<open>Outbound\<close>, \<^verbatim>\<open>Accepted_Flow\<close> (\<^verbatim>\<open>T/decrypt_policy.rs\<close>, \<^verbatim>\<open>T/protocol.rs\<close>,
    \<^verbatim>\<open>T/client_hello.rs\<close>, \<^verbatim>\<open>abyss-mitm/src/outbound\<close>, \<^verbatim>\<open>T/accepted_flow.rs\<close>, \<^verbatim>\<open>T/upstream.rs\<close>).
  \<^item> \<^verbatim>\<open>Engine\<close>, \<^verbatim>\<open>Engine_Props\<close> (\<^verbatim>\<open>T/engine.rs\<close>, \<^verbatim>\<open>T/plain_http.rs\<close>, \<^verbatim>\<open>T/tls*.rs\<close>, \<^verbatim>\<open>T/passthrough.rs\<close>):
    dispatch of a flow and the end-to-end properties.
  \<^item> \<^verbatim>\<open>Platform_Flow\<close>, \<^verbatim>\<open>Explicit_Ingress\<close> (\<^verbatim>\<open>B/ingress/mod.rs\<close>, \<^verbatim>\<open>B/ingress/explicit.rs\<close>): from an accepted proxy
    connection to an engine flow. \<^verbatim>\<open>Traffic\<close> (\<^verbatim>\<open>B/traffic.rs\<close>): the monitor as functions and as a transition system in which
    finishing a flow and recording bytes are each two steps, the flag of the handle and the locked map, that others may
    come between.
  \<^item> \<^verbatim>\<open>Framing\<close>, \<^verbatim>\<open>Frame_Codec\<close>, \<^verbatim>\<open>Plugin_Session\<close>, \<^verbatim>\<open>Plugin_Client\<close> (\<^verbatim>\<open>B/ingress/macos/framed_protocol.rs\<close>,
    \<^verbatim>\<open>B/plugin/codec.rs\<close>, \<^verbatim>\<open>B/plugin/session.rs\<close>, \<^verbatim>\<open>abyss-plugin-protocol/src/message.rs\<close>,
    \<^verbatim>\<open>abyss-sdk/src/plugin/client.rs\<close>): the two framed protocols, a plugin's session, and the plugin's side of it, with
    the delivery of events from end to end. \<^verbatim>\<open>Broker_Startup\<close> (\<^verbatim>\<open>B/startup_info.rs\<close>, \<^verbatim>\<open>B/auth.rs\<close>): the files by which
    clients find the broker and its token.
  \<^item> \<^verbatim>\<open>Framed_Io\<close>, \<^verbatim>\<open>Framed_Props\<close>, \<^verbatim>\<open>Macos_Ingress\<close> (\<^verbatim>\<open>B/ingress/macos/mod.rs\<close>): the duplex stream over a framed
    connection poll by poll, and the adapter from the bound socket to the flow.
  \<^item> \<^verbatim>\<open>Rust_Path\<close>, \<^verbatim>\<open>Process_Context\<close>, \<^verbatim>\<open>Process_Cache\<close> (\<^verbatim>\<open>B/process_context\<close>, \<^verbatim>\<open>B/sys/macos/process.rs\<close>): Unix paths,
    the source process of a flow, and the cache of working directories as a transition system.
  \<^item> \<^verbatim>\<open>File_System\<close>: a disk on which every operation may fail and which remembers each state it went through, so that what a
    crash would find can be stated. \<^verbatim>\<open>Runtime_Config\<close> (\<^verbatim>\<open>B/runtime_config.rs\<close>, \<^verbatim>\<open>B/network_config.rs\<close>): the runtime
    policies, their update transactions and their file, whose hooks' section is read and checked by \<^verbatim>\<open>Hooks_Config\<close>
    (\<^verbatim>\<open>abyss-agent-hook/src/config\<close>).
  \<^item> \<^verbatim>\<open>Agent_Event\<close>, \<^verbatim>\<open>Delivery\<close>, \<^verbatim>\<open>Delivery_Props\<close> (\<^verbatim>\<open>abyss-plugin-protocol/src/event.rs\<close>,
    \<^verbatim>\<open>abyss-delivery-plugin/src\<close>): events and their translation, credentials, upload, spool and replay, the worker and the
    control API; what happens to the plugin in any order is the relation \<^verbatim>\<open>delivery_reach\<close>. The state logs each request
    with the destination's reply; what counts as accepted is read off these replies.
  \<^item> \<^verbatim>\<open>Staged_File\<close>, \<^verbatim>\<open>Terminal_Auth\<close>, \<^verbatim>\<open>Cli_Login\<close> (\<^verbatim>\<open>abyss-terminal-auth/src\<close>, \<^verbatim>\<open>abyss-cli/src/auth.rs\<close>,
    \<^verbatim>\<open>abyss-cli/src/delivery.rs\<close>): signing in with PKCE against any control plane and clock, the credential file (locale
    \<^verbatim>\<open>staged_file\<close>: a temporary file that replaces another), and the login and logout commands beside a running delivery
    worker, whose handlers are those of \<^verbatim>\<open>Delivery\<close>.
  \<^item> The agent hook (\<^verbatim>\<open>abyss-agent-hook/src\<close>): \<^verbatim>\<open>Normalizer\<close> (\<^verbatim>\<open>event\<close>, \<^verbatim>\<open>delivery.rs\<close>, \<^verbatim>\<open>protocol/model\<close>) for events and
    the content policy; \<^verbatim>\<open>Json_Value\<close> (\<^verbatim>\<open>protocol/shared\<close>); \<^verbatim>\<open>Harness\<close> (\<^verbatim>\<open>harness\<close>, \<^verbatim>\<open>config/harness.rs\<close>) for who sent a
    request; \<^verbatim>\<open>Openai_Chat\<close>, \<^verbatim>\<open>Openai_Responses\<close>, \<^verbatim>\<open>Anthropic_Protocol\<close> (\<^verbatim>\<open>protocol/openai\<close>, \<^verbatim>\<open>protocol/anthropic\<close>) for the
    parsers, streams, WebSocket turns and the upload cache; \<^verbatim>\<open>Agent_Hook\<close> (\<^verbatim>\<open>hook.rs\<close>) for the hook and its state. The
    results are in \<^verbatim>\<open>Protocol_Props\<close>, \<^verbatim>\<open>Agent_Props\<close> and \<^verbatim>\<open>Stream_Props\<close>.

  \<^bold>\<open>What is proved.\<close> Transparency: whatever the segmentation, the engine, the relay, the body framings, passthrough, the
  proxy tunnel and the explicit listener deliver exactly the sender's bytes, or a prefix of them before a reported fault.
  Policy: only flows the policy selects are decrypted, under the name the client asked for; a proxied TLS name must match its
  target; the broker never connects to its own listener, directly or through a proxy. Framing: accepted requests are
  unambiguous, chunked decoding does not depend on segmentation, encoders and decoders of both framed protocols are inverse.
  Bounds: heads, captures, decoded bodies, queues, frames, buckets and snapshots keep their limits; counters saturate.
  Order: hooks see events first in first out, plugins get the hello, the events and one close, clients one answer.
  Durability: policy changes and spool replays are all or nothing in every state of the disk, policies survive a restart,
  the delivery worker loses no event between destination and spool, and credentials go to their audience only. Sessions:
  signing in ends within its timeout, sends its verifier once, in the exchange, stores the credential whole and hands it to the worker; logging
  out takes it away again. Observation: published events belong to an enabled harness and keep to its content policy, never
  carry a credential header, count each token once and stay within the limits of an event; the state of the hook is bounded;
  streamed and whole responses are observed alike.

  \<^bold>\<open>Modelling choices.\<close> A \<^verbatim>\<open>u8\<close> is a \<^typ>\<open>char\<close>; \<^verbatim>\<open>u16\<close>, \<^verbatim>\<open>u32\<close> and \<^verbatim>\<open>u64\<close> are words; \<^verbatim>\<open>usize\<close> is a natural
  number compared with \<^verbatim>\<open>usize_max\<close> where the code checks. Async code is the function its awaits compute: a socket is a
  script, a timeout is a Boolean saying whether it fires, \<^verbatim>\<open>tokio::select!\<close> loops consume a schedule of wake-ups and
  answer \<^const>\<open>None\<close> while they are still waiting; theorems quantify over all of these. Loops carry measures (script size,
  bytes missing, heads left), so no fuel is needed. Third-party code (httparse, http, rustls, tungstenite, decompressors,
  serde_json, uuid, the resolver and sockets) enters as arguments; where a theorem needs a law of such code it is a named
  premise, with a witness for a concrete instance. Logging is left out.

  \<^bold>\<open>Not modelled.\<close> Certificate minting and trust stores, TLS record handling and decompression (libraries); the Windows
  driver interface; the HTTP API, command line, diagnostics and log files (input and output around libraries); JSON data types
  (serde); the accept loop of the broker, which spawns a task for each flow.
\<close>

end
